(* ===== verification/Prelude.thy ===== *)
theory Prelude
  imports Main "HOL-Library.Word"
begin

text \<open>
  Shared vocabulary of the development: the machine types of the STM32F411 (32-bit
  \<open>long\<close>, 8/16/32-bit unsigned integers), the return codes of RT-Thread and of the MCU SDK,
  the two loop shapes the gateway uses on its tables (scan downwards and stop, scan downwards
  and visit all), the parts of the C library the sources call (\<open>sprintf\<close> of integers,
  \<open>atol\<close>, the integer directives of \<open>sscanf\<close>), and the generic lemmas the components share.
\<close>

section \<open>Machine types and return codes\<close>

type_synonym u8 = "8 word"
type_synonym u16 = "16 word"
type_synonym u32 = "32 word"
type_synonym bytes = "u8 list"
type_synonym memory = "nat \<Rightarrow> u8"

abbreviation (input) RT_EOK :: u8 where "RT_EOK \<equiv> 0"
abbreviation (input) RT_ERROR :: u8 where "RT_ERROR \<equiv> 1"
abbreviation (input) SUCCESS :: u8 where "SUCCESS \<equiv> 1"
abbreviation (input) ERROR :: u8 where "ERROR \<equiv> 0"
abbreviation (input) ENABLE :: u8 where "ENABLE \<equiv> 1"
abbreviation (input) DISABLE :: u8 where "DISABLE \<equiv> 0"

text \<open>What can go wrong in C code that HOL functions would hide: an access outside an array, a
  loop that never ends, a string read through a null pointer, and a trip through the reset vector,
  after which nothing more runs.\<close>

datatype c_fault = Out_Of_Bounds | Endless_Loop | Null_Pointer | Freed_Memory | Cpu_Reset

text \<open>Collections: \<open>frame\<close> gathers the facts that say which fields an operation leaves alone,
  \<open>wire\<close> the facts that rewrite transmissions to frames.\<close>

named_theorems frame
named_theorems wire

section \<open>Words\<close>

lemma u8_lt: "unat (b :: u8) < 256"
  using unsigned_less [of b] by simp

lemma u16_lt: "unat (b :: u16) < 65536"
  using unsigned_less [of b] by simp

lemma unat_add_nowrap:
  "unat a + unat b < 2 ^ LENGTH('a) \<Longrightarrow> unat (a + b :: 'a :: len word) = unat a + unat b"
  by (simp add: unat_word_ariths)

lemma unat16_add: "unat a + unat b < 65536 \<Longrightarrow> unat (a + b :: u16) = unat a + unat b"
  by (rule unat_add_nowrap) simp

lemma unat8_add: "unat a + unat b < 256 \<Longrightarrow> unat (a + b :: u8) = unat a + unat b"
  by (rule unat_add_nowrap) simp

lemma unat_sub_le: "b \<le> a \<Longrightarrow> unat (a - b :: 'a :: len word) = unat a - unat b"
  by (rule unat_sub)

lemma ucast_word_of_nat: "(ucast (a :: 'a :: len word) :: 'b :: len word) = word_of_nat (unat a)"
  by simp

section \<open>Counting loops\<close>

text \<open>\<open>while(num) { if(P(num)) return num; num--; }\<close>: the last index in \<open>1..num\<close> with \<open>P\<close>.\<close>

primrec down_find :: "(nat \<Rightarrow> bool) \<Rightarrow> nat \<Rightarrow> nat option" where
  "down_find P 0 = None"
| "down_find P (Suc n) = (if P (Suc n) then Some (Suc n) else down_find P n)"

text \<open>\<open>while(num) { s = f(num, s); num--; }\<close>\<close>

primrec down_fold :: "(nat \<Rightarrow> 's \<Rightarrow> 's) \<Rightarrow> nat \<Rightarrow> 's \<Rightarrow> 's" where
  "down_fold f 0 s = s"
| "down_fold f (Suc n) s = down_fold f n (f (Suc n) s)"

lemma down_find_Some:
  "down_find P n = Some k \<longleftrightarrow> 1 \<le> k \<and> k \<le> n \<and> P k \<and> (\<forall>j. k < j \<and> j \<le> n \<longrightarrow> \<not> P j)"
proof (induction n)
  case 0
  then show ?case by auto
next
  case (Suc n)
  show ?case
  proof (cases "P (Suc n)")
    case True
    then show ?thesis by (auto simp: le_Suc_eq)
  next
    case False
    with Suc show ?thesis by (auto simp: le_Suc_eq)
  qed
qed

lemma down_find_None: "down_find P n = None \<longleftrightarrow> (\<forall>j. 1 \<le> j \<and> j \<le> n \<longrightarrow> \<not> P j)"
proof (induction n)
  case 0
  then show ?case by auto
next
  case (Suc n)
  then show ?case by (auto simp: le_Suc_eq)
qed

lemma down_findD:
  assumes "down_find P n = Some k"
  shows "P k" and "1 \<le> k" and "k \<le> n"
  using assms by (auto simp: down_find_Some)

lemma down_find_cong:
  assumes "\<And>k. 1 \<le> k \<Longrightarrow> k \<le> n \<Longrightarrow> P k = Q k"
  shows "down_find P n = down_find Q n"
  using assms
proof (induction n)
  case 0
  show ?case by simp
next
  case (Suc n)
  from Suc.prems [of "Suc n"] Suc.IH Suc.prems show ?case
    by (metis down_find.simps(2) le_SucI le_add1 order_refl plus_1_eq_Suc)
qed

text \<open>Where at most one index can satisfy the test, the direction of the scan is irrelevant.\<close>

lemma down_find_unique:
  assumes "1 \<le> k" "k \<le> n" "P k" "\<And>j. 1 \<le> j \<Longrightarrow> j \<le> n \<Longrightarrow> P j \<Longrightarrow> j = k"
  shows "down_find P n = Some k"
proof -
  have "\<not> P j" if "k < j" "j \<le> n" for j
    using assms(4) [of j] assms(1) that by linarith
  with assms(1-3) show ?thesis unfolding down_find_Some by blast
qed

text \<open>An invariant of the body of a downward loop is an invariant of the loop.\<close>

lemma down_fold_inv:
  assumes "I s" and "\<And>k s. 1 \<le> k \<Longrightarrow> k \<le> n \<Longrightarrow> I s \<Longrightarrow> I (f k s)"
  shows "I (down_fold f n s)"
  using assms by (induction n arbitrary: s) auto

text \<open>A quantity no step of the loop changes.\<close>

lemma down_fold_keep:
  assumes "\<And>k s. h (f k s) = h s"
  shows "h (down_fold f n s) = h s"
  using assms by (induction n arbitrary: s) auto

text \<open>Two loops in step, related by a simulation.\<close>

lemma down_fold_sim:
  assumes "\<And>k s. 1 \<le> k \<Longrightarrow> k \<le> n \<Longrightarrow> h (f k s) = g k (h s)"
  shows "h (down_fold f n s) = down_fold g n (h s)"
  using assms by (induction n arbitrary: s) auto

section \<open>Characters, bytes and C strings\<close>

definition byte_of :: "char \<Rightarrow> u8" where
  "byte_of c = of_char c"

definition char_of_byte :: "u8 \<Rightarrow> char" where
  "char_of_byte b = char_of (unat b)"

definition bytes_of :: "string \<Rightarrow> bytes" where
  "bytes_of s = map byte_of s"

lemma length_bytes_of [simp]: "length (bytes_of s) = length s"
  by (simp add: bytes_of_def)

lemma char_of_byte_of [simp]: "char_of_byte (byte_of c) = c"
proof -
  have "unat (byte_of c) = (of_char c :: nat)"
    unfolding byte_of_def
    by (simp add: of_char_def unsigned_of_int)
  then show ?thesis by (simp add: char_of_byte_def)
qed

lemma unat_byte_of [simp]: "unat (byte_of c) = of_char c"
  by (simp add: byte_of_def of_char_def unsigned_of_int)

section \<open>Decimal numbers as the C library prints and reads them\<close>

definition digit_char :: "nat \<Rightarrow> char" where
  "digit_char d = char_of (48 + d)"

definition is_digit :: "char \<Rightarrow> bool" where
  "is_digit c \<longleftrightarrow> 48 \<le> (of_char c :: nat) \<and> (of_char c :: nat) \<le> 57"

definition digit_val :: "char \<Rightarrow> nat" where
  "digit_val c = of_char c - 48"

lemma digit_char_val [simp]:
  "d < 10 \<Longrightarrow> is_digit (digit_char d)"
  "d < 10 \<Longrightarrow> digit_val (digit_char d) = d"
  by (simp_all add: is_digit_def digit_char_def digit_val_def)

text \<open>The digits of a number, most significant first.\<close>

fun dec_nat :: "nat \<Rightarrow> string" where
  "dec_nat n = (if n < 10 then [digit_char n] else dec_nat (n div 10) @ [digit_char (n mod 10)])"

declare dec_nat.simps [simp del]

text \<open>\<open>%ld\<close> and \<open>%d\<close> on a 32-bit argument: two's complement, sign first.\<close>

definition sprintf_ld :: "u32 \<Rightarrow> string" where
  "sprintf_ld w = (let i = sint w in if i < 0 then CHR ''-'' # dec_nat (nat (- i)) else dec_nat (nat i))"

text \<open>Zero padding: \<open>%08ld\<close>, \<open>%03d\<close>, \<open>%02d\<close>; the sign counts towards the width.\<close>

definition pad0 :: "nat \<Rightarrow> string \<Rightarrow> string" where
  "pad0 w s = replicate (w - length s) (CHR ''0'') @ s"

definition sprintf_0ld :: "nat \<Rightarrow> u32 \<Rightarrow> string" where
  "sprintf_0ld width w = (let i = sint w in
     if i < 0 then CHR ''-'' # pad0 (width - 1) (dec_nat (nat (- i))) else pad0 width (dec_nat (nat i)))"

definition is_space :: "char \<Rightarrow> bool" where
  "is_space c \<longleftrightarrow> (let n = (of_char c :: nat) in n = 32 \<or> (9 \<le> n \<and> n \<le> 13))"

primrec scan_nat :: "nat \<Rightarrow> string \<Rightarrow> nat \<times> string" where
  "scan_nat acc [] = (acc, [])"
| "scan_nat acc (c # cs) =
     (if is_digit c then scan_nat (acc * 10 + digit_val c) cs else (acc, c # cs))"

definition scan_sign :: "string \<Rightarrow> bool \<times> string" where
  "scan_sign s = (case s of [] \<Rightarrow> (False, [])
     | c # cs \<Rightarrow> if c = CHR ''-'' then (True, cs) else if c = CHR ''+'' then (False, cs) else (False, c # cs))"

text \<open>\<open>strtol\<close> in base 10: leading blanks, an optional sign, digits; the value saturates at the
  range of a 32-bit \<open>long\<close>. \<open>None\<close> when there is no digit.\<close>

definition clamp32 :: "int \<Rightarrow> int" where
  "clamp32 v = (if v > 2147483647 then 2147483647 else if v < -2147483648 then -2147483648 else v)"

definition strtol :: "string \<Rightarrow> (int \<times> string) option" where
  "strtol s = (let (neg, r) = scan_sign (dropWhile is_space s) in
     case r of [] \<Rightarrow> None
     | c # cs \<Rightarrow> if is_digit c
         then (let (n, rest) = scan_nat 0 r in Some (clamp32 (if neg then - int n else int n), rest))
         else None)"

definition atol :: "string \<Rightarrow> u32" where
  "atol s = (case strtol s of None \<Rightarrow> 0 | Some (v, _) \<Rightarrow> word_of_int v)"

text \<open>\<open>sscanf\<close> with integer directives: every format the decoder uses is \<open>{%d,%d,...}\<close>. The
  result is the list of the values that were assigned before the first mismatch.\<close>

fun sscanf_ints :: "string \<Rightarrow> char \<Rightarrow> nat \<Rightarrow> int list" where
  "sscanf_ints s lit 0 = []"
| "sscanf_ints s lit (Suc n) = (case s of [] \<Rightarrow> []
     | c # cs \<Rightarrow> if c \<noteq> lit then [] else
         (case strtol cs of None \<Rightarrow> [] | Some (v, rest) \<Rightarrow> v # sscanf_ints rest (CHR '','') n))"

definition sscanf_braces :: "string \<Rightarrow> nat \<Rightarrow> int list" where
  "sscanf_braces s n = sscanf_ints s (CHR ''{'') n"

subsection \<open>Printing then reading gives the number back\<close>

lemma dec_nat_not_Nil [simp]: "dec_nat n \<noteq> []"
  by (subst dec_nat.simps) simp

lemma dec_nat_digits: "c \<in> set (dec_nat n) \<Longrightarrow> is_digit c"
proof (induction n rule: dec_nat.induct)
  case (1 n)
  show ?case
  proof (cases "n < 10")
    case True
    with "1.prems" show ?thesis by (simp add: dec_nat.simps [of n])
  next
    case False
    with "1.prems" "1.IH" show ?thesis by (auto simp: dec_nat.simps [of n])
  qed
qed

lemma scan_nat_digits:
  "(\<And>c. c \<in> set ds \<Longrightarrow> is_digit c) \<Longrightarrow>
   scan_nat a (ds @ rest) = scan_nat (foldl (\<lambda>acc c. acc * 10 + digit_val c) a ds) rest"
  by (induction ds arbitrary: a) auto

lemma foldl_dec_nat: "foldl (\<lambda>acc c. acc * 10 + digit_val c) 0 (dec_nat n) = n"
proof (induction n rule: dec_nat.induct)
  case (1 n)
  show ?case
  proof (cases "n < 10")
    case True
    then show ?thesis by (simp add: dec_nat.simps [of n])
  next
    case False
    with "1.IH" show ?thesis by (simp add: dec_nat.simps [of n])
  qed
qed

lemma scan_nat_stop: "(case s of [] \<Rightarrow> True | c # _ \<Rightarrow> \<not> is_digit c) \<Longrightarrow> scan_nat a s = (a, s)"
  by (cases s) auto

lemma scan_dec_nat:
  assumes "case rest of [] \<Rightarrow> True | c # _ \<Rightarrow> \<not> is_digit c"
  shows "scan_nat 0 (dec_nat n @ rest) = (n, rest)"
  using assms by (simp add: scan_nat_digits dec_nat_digits foldl_dec_nat scan_nat_stop)

lemma digit_no_space_sign:
  "is_digit c \<Longrightarrow> \<not> is_space c \<and> c \<noteq> CHR ''-'' \<and> c \<noteq> CHR ''+'' \<and> c \<noteq> CHR '','' \<and> c \<noteq> CHR ''}''"
  by (auto simp: is_digit_def is_space_def Let_def)

lemma clamp32_sint [simp]: "clamp32 (sint (w :: u32)) = sint w"
  using sint_range_size [of w] by (simp add: clamp32_def word_size)

lemma strtol_digits:
  assumes "ds \<noteq> []" "\<And>c. c \<in> set ds \<Longrightarrow> is_digit c" "scan_nat 0 (ds @ rest) = (n, rest)"
  shows "strtol (ds @ rest) = Some (clamp32 (int n), rest)"
    and "strtol (CHR ''-'' # ds @ rest) = Some (clamp32 (- int n), rest)"
proof -
  obtain c cs where ds: "ds = c # cs" and c: "is_digit c"
    using assms(1,2) by (cases ds) auto
  from assms(3) digit_no_space_sign [OF c]
  show "strtol (ds @ rest) = Some (clamp32 (int n), rest)"
    by (simp add: ds c strtol_def scan_sign_def del: scan_nat.simps)
  have "\<not> is_space (CHR ''-'')" by (simp add: is_space_def)
  with assms(3) show "strtol (CHR ''-'' # ds @ rest) = Some (clamp32 (- int n), rest)"
    by (simp add: ds c strtol_def scan_sign_def del: scan_nat.simps)
qed

lemma strtol_sprintf_ld:
  assumes "case rest of [] \<Rightarrow> True | c # _ \<Rightarrow> \<not> is_digit c"
  shows "strtol (sprintf_ld w @ rest) = Some (sint w, rest)"
proof -
  note scan = scan_dec_nat [OF assms]
  show ?thesis
  proof (cases "sint w < 0")
    case True
    then have "strtol (CHR ''-'' # dec_nat (nat (- sint w)) @ rest) = Some (clamp32 (sint w), rest)"
      using strtol_digits(2) [OF dec_nat_not_Nil _ scan] dec_nat_digits by fastforce
    with True show ?thesis by (simp add: sprintf_ld_def)
  next
    case False
    then have "strtol (dec_nat (nat (sint w)) @ rest) = Some (clamp32 (sint w), rest)"
      using strtol_digits(1) [OF dec_nat_not_Nil _ scan] dec_nat_digits by fastforce
    with False show ?thesis by (simp add: sprintf_ld_def)
  qed
qed

theorem atol_sprintf_ld [simp]: "atol (sprintf_ld w) = w"
  using strtol_sprintf_ld [of "[]" w] by (simp add: atol_def)

lemma sprintf_ld_inj: "sprintf_ld v = sprintf_ld w \<longleftrightarrow> v = w"
  by (metis atol_sprintf_ld)

lemma dec_nat_length: "n < 10 ^ Suc k \<Longrightarrow> length (dec_nat n) \<le> Suc k"
proof (induction k arbitrary: n)
  case 0
  then show ?case by (simp add: dec_nat.simps)
next
  case (Suc k)
  then have "n div 10 < 10 ^ Suc k" by (simp add: less_mult_imp_div_less mult.commute)
  with Suc.IH [of "n div 10"] show ?case by (subst dec_nat.simps) simp
qed

lemma sprintf_ld_length: "length (sprintf_ld v) \<le> 11"
proof -
  have "- (2 ^ 31) \<le> sint v" "sint v < 2 ^ 31"
    using sint_range_size [of v] by (simp_all add: word_size)
  then have "nat (sint v) < 10 ^ Suc 9" "nat (- sint v) < 10 ^ Suc 9" by simp_all
  from this [THEN dec_nat_length] show ?thesis by (simp add: sprintf_ld_def Let_def)
qed

lemma sprintf_ld_alpha [simp]:
  "sprintf_ld v \<noteq> CHR ''L'' # s" "sprintf_ld v \<noteq> CHR ''M'' # s" "sprintf_ld v \<noteq> CHR ''t'' # s"
  "sprintf_ld v \<noteq> CHR ''b'' # s" "sprintf_ld v \<noteq> CHR ''h'' # s" "sprintf_ld v \<noteq> CHR ''u'' # s"
proof -
  have "sprintf_ld v \<noteq> c # s" if "\<not> is_digit c" "c \<noteq> CHR ''-''" for c
  proof
    assume "sprintf_ld v = c # s"
    then have "c = CHR ''-'' \<or> c \<in> set (dec_nat (nat (sint v)))"
      by (auto simp: sprintf_ld_def Let_def split: if_splits)
    with that dec_nat_digits show False by blast
  qed
  then show "sprintf_ld v \<noteq> CHR ''L'' # s" "sprintf_ld v \<noteq> CHR ''M'' # s" "sprintf_ld v \<noteq> CHR ''t'' # s"
    "sprintf_ld v \<noteq> CHR ''b'' # s" "sprintf_ld v \<noteq> CHR ''h'' # s" "sprintf_ld v \<noteq> CHR ''u'' # s"
    by (simp_all add: is_digit_def)
qed

lemmas sprintf_ld_alpha' [simp] = sprintf_ld_alpha [symmetric]

end
