(* ===== verification/Wifi_Frame.thy ===== *)
theory Wifi_Frame
  imports Prelude
begin

unbundle bit_operations_syntax

text \<open>
  The sending half of the serial protocol between the MCU and the WiFi module
  (\<open>src/wifi/system.c\<close>, \<open>src/wifi/mcu_api.c\<close>): the byte helpers of the SDK, the transmit
  buffer, the checksum, the frame writer and the data-point reports. The lemmas show that every
  report puts exactly one well-formed frame on the wire, or none while uploads are stopped.
\<close>

section \<open>State of the SDK\<close>

text \<open>\<open>uart_out\<close> is the sequence of bytes handed to \<open>uart_transmit_output\<close> so far; the transmit
  buffer is memory, of which the code owns the first 4103 cells.\<close>

record wifi_sys =
  wifi_uart_tx_buf :: memory
  uart_out :: bytes
  stop_update_flag :: u8
  reset_wifi_flag :: u8
  set_wifimode_flag :: u8
  wifi_work_state :: u8
  if_subdev_net_in :: u8
  firm_size :: u16
  firm_length :: u32
  firm_update_flag :: u8

abbreviation (input) HEAD_FIRST :: nat where "HEAD_FIRST \<equiv> 0"
abbreviation (input) HEAD_SECOND :: nat where "HEAD_SECOND \<equiv> 1"
abbreviation (input) PROTOCOL_VERSION :: nat where "PROTOCOL_VERSION \<equiv> 2"
abbreviation (input) FRAME_TYPE :: nat where "FRAME_TYPE \<equiv> 3"
abbreviation (input) LENGTH_HIGH :: nat where "LENGTH_HIGH \<equiv> 4"
abbreviation (input) LENGTH_LOW :: nat where "LENGTH_LOW \<equiv> 5"
abbreviation (input) DATA_START :: nat where "DATA_START \<equiv> 6"
abbreviation (input) PROTOCOL_HEAD :: u16 where "PROTOCOL_HEAD \<equiv> 7"
abbreviation (input) FRAME_FIRST :: u8 where "FRAME_FIRST \<equiv> 0x55"
abbreviation (input) FRAME_SECOND :: u8 where "FRAME_SECOND \<equiv> 0xaa"
abbreviation (input) MCU_TX_VER :: u8 where "MCU_TX_VER \<equiv> 0"
abbreviation (input) TX_LMT :: nat where "TX_LMT \<equiv> 4096"

abbreviation (input) DP_TYPE_RAW :: u8 where "DP_TYPE_RAW \<equiv> 0"
abbreviation (input) DP_TYPE_BOOL :: u8 where "DP_TYPE_BOOL \<equiv> 1"
abbreviation (input) DP_TYPE_VALUE :: u8 where "DP_TYPE_VALUE \<equiv> 2"
abbreviation (input) DP_TYPE_STRING :: u8 where "DP_TYPE_STRING \<equiv> 3"
abbreviation (input) DP_TYPE_ENUM :: u8 where "DP_TYPE_ENUM \<equiv> 4"
abbreviation (input) DP_TYPE_FAULT :: u8 where "DP_TYPE_FAULT \<equiv> 5"
abbreviation (input) STATE_UPLOAD_CMD :: u8 where "STATE_UPLOAD_CMD \<equiv> 0x0d"
abbreviation (input) WIFI_RESET_CMD :: u8 where "WIFI_RESET_CMD \<equiv> 0x04"
abbreviation (input) WIFI_MODE_CMD :: u8 where "WIFI_MODE_CMD \<equiv> 0x05"

section \<open>Byte helpers (mcu_api.c)\<close>

definition hex_to_bcd :: "u8 \<Rightarrow> u8 \<Rightarrow> u8" where
  "hex_to_bcd Value_H Value_L =
    (let Value_H = (if Value_H \<ge> 48 \<and> Value_H \<le> 57 then Value_H - 48
                    else if Value_H \<ge> 65 \<and> Value_H \<le> 70 then Value_H - 65 + 10
                    else if Value_H \<ge> 97 \<and> Value_H \<le> 102 then Value_H - 97 + 10 else Value_H);
         bcd_value = Value_H AND 0x0f;
         bcd_value = push_bit 4 bcd_value;
         Value_L = (if Value_L \<ge> 48 \<and> Value_L \<le> 57 then Value_L - 48
                    else if Value_L \<ge> 65 \<and> Value_L \<le> 70 then Value_L - 97 + 10
                    else if Value_L \<ge> 97 \<and> Value_L \<le> 102 then Value_L - 97 + 10 else Value_L)
     in bcd_value OR (Value_L AND 0x0f))"

text \<open>A C string is the list of its characters before the terminator; \<open>cstr\<close> is its memory image.\<close>

primrec my_strlen :: "string \<Rightarrow> nat" where
  "my_strlen [] = 0"
| "my_strlen (c # cs) = Suc (my_strlen cs)"

definition cstr :: "string \<Rightarrow> memory" where
  "cstr s i = (if i < length s then byte_of (s ! i) else 0)"

primrec my_memset :: "memory \<Rightarrow> nat \<Rightarrow> u8 \<Rightarrow> nat \<Rightarrow> memory" where
  "my_memset m tmp ch 0 = m"
| "my_memset m tmp ch (Suc count) = my_memset (m(tmp := ch)) (Suc tmp) ch count"

text \<open>\<open>my_memcpy\<close> chooses the direction of the copy so that overlapping regions are safe.\<close>

definition copy_cell :: "nat \<Rightarrow> nat \<Rightarrow> nat \<Rightarrow> memory \<Rightarrow> memory" where
  "copy_cell pdest psrc i m = m(pdest + i := m (psrc + i))"

definition my_memcpy :: "memory \<Rightarrow> nat \<Rightarrow> nat \<Rightarrow> nat \<Rightarrow> memory" where
  "my_memcpy m pdest psrc count =
    (if pdest \<le> psrc \<or> pdest > psrc + count
     then fold (copy_cell pdest psrc) [0..<count] m
     else fold (copy_cell pdest psrc) (rev [0..<count]) m)"

text \<open>Copy between different objects, where the direction cannot matter.\<close>

definition blit :: "memory \<Rightarrow> nat \<Rightarrow> memory \<Rightarrow> nat \<Rightarrow> memory" where
  "blit dst at src n j = (if at \<le> j \<and> j < at + n then src (j - at) else dst j)"

fun my_strcmp :: "string \<Rightarrow> string \<Rightarrow> int" where
  "my_strcmp (a # as) (b # bs) =
     (if a = b then my_strcmp as bs else of_char a - of_char b)"
| "my_strcmp (a # as) [] = of_char a"
| "my_strcmp [] (b # bs) = - of_char b"
| "my_strcmp [] [] = 0"

definition int_to_byte :: "u32 \<Rightarrow> bytes" where
  "int_to_byte number = [ucast (drop_bit 24 number), ucast (drop_bit 16 number),
     ucast (drop_bit 8 number), ucast (number AND 0xff)]"

definition byte_to_int :: "memory \<Rightarrow> u32" where
  "byte_to_int value =
    (let nubmer = (ucast (value 0) :: u32);
         nubmer = push_bit 8 nubmer; nubmer = nubmer OR ucast (value 1);
         nubmer = push_bit 8 nubmer; nubmer = nubmer OR ucast (value 2);
         nubmer = push_bit 8 nubmer; nubmer = nubmer OR ucast (value 3)
     in nubmer)"

section \<open>Transmit buffer and frames (system.c)\<close>

text \<open>The code threads the write position through \<open>send_len = set_wifi_uart_byte(send_len, b)\<close>; a
  \<open>tx\<close> is that position together with the SDK state.\<close>

type_synonym tx = "u16 \<times> wifi_sys"

fun set_wifi_uart_byte :: "u8 \<Rightarrow> tx \<Rightarrow> tx" where
  "set_wifi_uart_byte byte (dest, w) =
    (dest + 1, w\<lparr>wifi_uart_tx_buf := (wifi_uart_tx_buf w)(DATA_START + unat dest := byte)\<rparr>)"

fun set_wifi_uart_buffer :: "memory option \<Rightarrow> u16 \<Rightarrow> tx \<Rightarrow> tx" where
  "set_wifi_uart_buffer None len (dest, w) = (dest, w)"
| "set_wifi_uart_buffer (Some src) len (dest, w) =
    (dest + len,
     w\<lparr>wifi_uart_tx_buf := blit (wifi_uart_tx_buf w) (DATA_START + unat dest) src (unat len)\<rparr>)"

definition get_check_sum :: "memory \<Rightarrow> nat \<Rightarrow> nat \<Rightarrow> u8" where
  "get_check_sum m pack pack_len = foldl (\<lambda>check_sum i. check_sum + m (pack + i)) 0 [0..<pack_len]"

definition wifi_uart_write_data :: "memory \<Rightarrow> nat \<Rightarrow> wifi_sys \<Rightarrow> wifi_sys" where
  "wifi_uart_write_data m len w =
    (if len = 0 then w else w\<lparr>uart_out := uart_out w @ map m [0..<len]\<rparr>)"

fun wifi_uart_write_frame :: "u8 \<Rightarrow> u8 \<Rightarrow> tx \<Rightarrow> wifi_sys" where
  "wifi_uart_write_frame fr_type fr_ver (len, w) =
    (let buf = (wifi_uart_tx_buf w)(HEAD_FIRST := 0x55, HEAD_SECOND := 0xaa,
                 PROTOCOL_VERSION := fr_ver, FRAME_TYPE := fr_type,
                 LENGTH_HIGH := ucast (drop_bit 8 len), LENGTH_LOW := ucast (len AND 0xff));
         len = len + PROTOCOL_HEAD;
         check_sum = get_check_sum buf 0 (unat (len - 1));
         buf = buf(unat (len - 1) := check_sum)
     in wifi_uart_write_data buf (unat len) (w\<lparr>wifi_uart_tx_buf := buf\<rparr>))"

section \<open>Data-point reports (mcu_api.c)\<close>

definition mcu_dp_raw_update :: "u8 \<Rightarrow> memory \<Rightarrow> u16 \<Rightarrow> string \<Rightarrow> u8 \<Rightarrow> wifi_sys \<Rightarrow> u8 \<times> wifi_sys" where
  "mcu_dp_raw_update dpid value len sub_id_buf sub_id_len w =
    (if stop_update_flag w = ENABLE then (SUCCESS, w) else
     (let tx = set_wifi_uart_byte sub_id_len (0, w);
          tx = set_wifi_uart_buffer (Some (cstr sub_id_buf)) (ucast sub_id_len) tx;
          tx = set_wifi_uart_byte dpid tx;
          tx = set_wifi_uart_byte DP_TYPE_RAW tx;
          tx = set_wifi_uart_byte (ucast (len div 0x100)) tx;
          tx = set_wifi_uart_byte (ucast (len mod 0x100)) tx;
          tx = set_wifi_uart_buffer (Some value) len tx
      in (SUCCESS, wifi_uart_write_frame STATE_UPLOAD_CMD MCU_TX_VER tx)))"

definition mcu_dp_bool_update :: "u8 \<Rightarrow> u8 \<Rightarrow> string \<Rightarrow> u8 \<Rightarrow> wifi_sys \<Rightarrow> u8 \<times> wifi_sys" where
  "mcu_dp_bool_update dpid value sub_id_buf sub_id_len w =
    (if stop_update_flag w = ENABLE then (SUCCESS, w) else
     (let tx = set_wifi_uart_byte sub_id_len (0, w);
          tx = set_wifi_uart_buffer (Some (cstr sub_id_buf)) (ucast sub_id_len) tx;
          tx = set_wifi_uart_byte dpid tx;
          tx = set_wifi_uart_byte DP_TYPE_BOOL tx;
          tx = set_wifi_uart_byte 0 tx;
          tx = set_wifi_uart_byte 1 tx;
          tx = (if value = 0 then set_wifi_uart_byte 0 tx else set_wifi_uart_byte 1 tx)
      in (SUCCESS, wifi_uart_write_frame STATE_UPLOAD_CMD MCU_TX_VER tx)))"

definition mcu_dp_value_update :: "u8 \<Rightarrow> u32 \<Rightarrow> string \<Rightarrow> u8 \<Rightarrow> wifi_sys \<Rightarrow> u8 \<times> wifi_sys" where
  "mcu_dp_value_update dpid value sub_id_buf sub_id_len w =
    (if stop_update_flag w = ENABLE then (SUCCESS, w) else
     (let tx = set_wifi_uart_byte sub_id_len (0, w);
          tx = set_wifi_uart_buffer (Some (cstr sub_id_buf)) (ucast sub_id_len) tx;
          tx = set_wifi_uart_byte dpid tx;
          tx = set_wifi_uart_byte DP_TYPE_VALUE tx;
          tx = set_wifi_uart_byte 0 tx;
          tx = set_wifi_uart_byte 4 tx;
          tx = set_wifi_uart_byte (ucast (drop_bit 24 value)) tx;
          tx = set_wifi_uart_byte (ucast (drop_bit 16 value)) tx;
          tx = set_wifi_uart_byte (ucast (drop_bit 8 value)) tx;
          tx = set_wifi_uart_byte (ucast (value AND 0xff)) tx
      in (SUCCESS, wifi_uart_write_frame STATE_UPLOAD_CMD MCU_TX_VER tx)))"

definition mcu_dp_string_update :: "u8 \<Rightarrow> memory \<Rightarrow> u16 \<Rightarrow> string \<Rightarrow> u8 \<Rightarrow> wifi_sys \<Rightarrow> u8 \<times> wifi_sys" where
  "mcu_dp_string_update dpid value len sub_id_buf sub_id_len w =
    (if stop_update_flag w = ENABLE then (SUCCESS, w) else
     (let tx = set_wifi_uart_byte sub_id_len (0, w);
          tx = set_wifi_uart_buffer (Some (cstr sub_id_buf)) (ucast sub_id_len) tx;
          tx = set_wifi_uart_byte dpid tx;
          tx = set_wifi_uart_byte DP_TYPE_STRING tx;
          tx = set_wifi_uart_byte (ucast (len div 0x100)) tx;
          tx = set_wifi_uart_byte (ucast (len mod 0x100)) tx;
          tx = set_wifi_uart_buffer (Some value) len tx
      in (SUCCESS, wifi_uart_write_frame STATE_UPLOAD_CMD MCU_TX_VER tx)))"

definition mcu_dp_enum_update :: "u8 \<Rightarrow> u8 \<Rightarrow> string \<Rightarrow> u8 \<Rightarrow> wifi_sys \<Rightarrow> u8 \<times> wifi_sys" where
  "mcu_dp_enum_update dpid value sub_id_buf sub_id_len w =
    (if stop_update_flag w = ENABLE then (SUCCESS, w) else
     (let tx = set_wifi_uart_byte sub_id_len (0, w);
          tx = set_wifi_uart_buffer (Some (cstr sub_id_buf)) (ucast sub_id_len) tx;
          tx = set_wifi_uart_byte dpid tx;
          tx = set_wifi_uart_byte DP_TYPE_ENUM tx;
          tx = set_wifi_uart_byte 0 tx;
          tx = set_wifi_uart_byte 1 tx;
          tx = set_wifi_uart_byte value tx
      in (SUCCESS, wifi_uart_write_frame STATE_UPLOAD_CMD MCU_TX_VER tx)))"

definition mcu_dp_fault_update :: "u8 \<Rightarrow> u32 \<Rightarrow> string \<Rightarrow> u8 \<Rightarrow> wifi_sys \<Rightarrow> u8 \<times> wifi_sys" where
  "mcu_dp_fault_update dpid value sub_id_buf sub_id_len w =
    (if stop_update_flag w = ENABLE then (SUCCESS, w) else
     (let tx = set_wifi_uart_byte sub_id_len (0, w);
          tx = set_wifi_uart_buffer (Some (cstr sub_id_buf)) (ucast sub_id_len) tx;
          tx = set_wifi_uart_byte dpid tx;
          tx = set_wifi_uart_byte DP_TYPE_FAULT tx;
          tx = set_wifi_uart_byte 0 tx;
          tx =
            (if value OR 0xff = 0xff then
               (let tx = set_wifi_uart_byte 1 tx
                in set_wifi_uart_byte (ucast value) tx)
             else if value OR 0xffff = 0xffff then
               (let tx = set_wifi_uart_byte 2 tx;
                    tx = set_wifi_uart_byte (ucast (drop_bit 8 value)) tx
                in set_wifi_uart_byte (ucast (value AND 0xff)) tx)
             else
               (let tx = set_wifi_uart_byte 4 tx;
                    tx = set_wifi_uart_byte (ucast (drop_bit 24 value)) tx;
                    tx = set_wifi_uart_byte (ucast (drop_bit 16 value)) tx;
                    tx = set_wifi_uart_byte (ucast (drop_bit 8 value)) tx
                in set_wifi_uart_byte (ucast (value AND 0xff)) tx))
      in (SUCCESS, wifi_uart_write_frame STATE_UPLOAD_CMD MCU_TX_VER tx)))"

definition mcu_get_dp_download_bool :: "memory \<Rightarrow> u16 \<Rightarrow> u8" where
  "mcu_get_dp_download_bool value len = value 0"

definition mcu_get_dp_download_enum :: "memory \<Rightarrow> u16 \<Rightarrow> u8" where
  "mcu_get_dp_download_enum value len = value 0"

definition mcu_get_dp_download_value :: "memory \<Rightarrow> u16 \<Rightarrow> u32" where
  "mcu_get_dp_download_value value len = byte_to_int value"

section \<open>WiFi reset and mode (mcu_api.c)\<close>

definition mcu_get_reset_wifi_flag :: "wifi_sys \<Rightarrow> u8" where
  "mcu_get_reset_wifi_flag w = reset_wifi_flag w"

definition mcu_reset_wifi :: "wifi_sys \<Rightarrow> wifi_sys" where
  "mcu_reset_wifi w = wifi_uart_write_frame WIFI_RESET_CMD MCU_TX_VER (0, w\<lparr>reset_wifi_flag := 0\<rparr>)"

definition mcu_get_wifimode_flag :: "wifi_sys \<Rightarrow> u8" where
  "mcu_get_wifimode_flag w = set_wifimode_flag w"

definition mcu_set_wifi_mode :: "u8 \<Rightarrow> wifi_sys \<Rightarrow> wifi_sys" where
  "mcu_set_wifi_mode mode w =
    (let tx = set_wifi_uart_byte mode (0, w\<lparr>set_wifimode_flag := 0\<rparr>)
     in wifi_uart_write_frame WIFI_MODE_CMD MCU_TX_VER tx)"

definition mcu_get_wifi_work_state :: "wifi_sys \<Rightarrow> u8" where
  "mcu_get_wifi_work_state w = wifi_work_state w"

definition mcu_get_permit_subdev_netin_state :: "wifi_sys \<Rightarrow> u8" where
  "mcu_get_permit_subdev_netin_state w = if_subdev_net_in w"

text \<open>The commands without payload.\<close>

definition mcu_start_wifitest :: "wifi_sys \<Rightarrow> wifi_sys" where
  "mcu_start_wifitest w = wifi_uart_write_frame 0x15 MCU_TX_VER (0, w)"

definition get_wifi_st :: "wifi_sys \<Rightarrow> wifi_sys" where
  "get_wifi_st w = wifi_uart_write_frame 0x16 MCU_TX_VER (0, w)"

definition reset_factory_setting :: "wifi_sys \<Rightarrow> wifi_sys" where
  "reset_factory_setting w = wifi_uart_write_frame 0x17 MCU_TX_VER (0, w)"

definition qur_subdev_list :: "wifi_sys \<Rightarrow> wifi_sys" where
  "qur_subdev_list w = wifi_uart_write_frame 0x1c MCU_TX_VER (0, w)"

definition local_add_subdev_limit :: "u8 \<Rightarrow> u8 \<Rightarrow> u8 \<Rightarrow> wifi_sys \<Rightarrow> wifi_sys" where
  "local_add_subdev_limit if_permit addtime_high addtime_low w =
    (let tx = set_wifi_uart_byte if_permit (0, w);
         tx = set_wifi_uart_byte addtime_high tx;
         tx = set_wifi_uart_byte addtime_low tx
     in wifi_uart_write_frame 0x1a MCU_TX_VER tx)"

section \<open>What a frame is\<close>

text \<open>The protocol's frame: header, version, command, big-endian length, payload, and the sum of all
  of it modulo 256.\<close>

definition uart_frame :: "u8 \<Rightarrow> u8 \<Rightarrow> bytes \<Rightarrow> bytes" where
  "uart_frame fr_ver fr_type payload =
    (let body = [0x55, 0xaa, fr_ver, fr_type,
                 word_of_nat (length payload div 256), word_of_nat (length payload mod 256)] @ payload
     in body @ [sum_list body])"

lemma length_uart_frame [simp]: "length (uart_frame v t ps) = length ps + 7"
  by (simp add: uart_frame_def Let_def)

lemma foldl_plus: "foldl (\<lambda>a i. a + f i) (a :: 'a :: comm_monoid_add) xs = a + sum_list (map f xs)"
  by (induction xs arbitrary: a) (auto simp: algebra_simps)

lemma get_check_sum_sum: "get_check_sum m p n = sum_list (map (\<lambda>i. m (p + i)) [0..<n])"
  by (simp add: get_check_sum_def foldl_plus)

text \<open>\<open>loaded bs tx\<close>: the payload written so far is \<open>bs\<close>.\<close>

definition loaded :: "bytes \<Rightarrow> tx \<Rightarrow> bool" where
  "loaded bs tx \<longleftrightarrow> unat (fst tx) = length bs \<and>
     (\<forall>i < length bs. wifi_uart_tx_buf (snd tx) (DATA_START + i) = bs ! i)"

lemma loaded_0: "loaded [] (0, w)"
  by (simp add: loaded_def)

lemma loaded_byte:
  assumes "loaded bs tx" and "length bs < TX_LMT"
  shows "loaded (bs @ [b]) (set_wifi_uart_byte b tx)"
proof (cases tx)
  case (Pair n w)
  with assms have n: "unat n = length bs" and lt: "unat n < 4096" by (auto simp: loaded_def)
  then have "unat (n + 1) = unat n + 1" using unat16_add [of n 1] by simp
  with assms(1) n Pair show ?thesis
    by (auto simp: loaded_def nth_append less_Suc_eq)
qed

lemma loaded_buffer:
  assumes "loaded bs tx" and "length bs + unat len \<le> TX_LMT"
  shows "loaded (bs @ map src [0..<unat len]) (set_wifi_uart_buffer (Some src) len tx)"
proof (cases tx)
  case (Pair n w)
  with assms have n: "unat n = length bs" and lt: "unat n + unat len \<le> 4096" by (auto simp: loaded_def)
  then have "unat (n + len) = unat n + unat len" using unat16_add [of n len] by simp
  with assms(1) n Pair show ?thesis
    by (auto simp: loaded_def blit_def nth_append)
qed

lemmas loaded_intros = loaded_0 loaded_byte loaded_buffer

lemma set_wifi_uart_out [simp]:
  "uart_out (snd (set_wifi_uart_byte b tx)) = uart_out (snd tx)"
  "uart_out (snd (set_wifi_uart_buffer src len tx)) = uart_out (snd tx)"
  by (cases tx; cases src; simp)+

declare set_wifi_uart_byte.simps [simp del] set_wifi_uart_buffer.simps [simp del]

lemma header_bytes:
  assumes "unat (n :: u16) = k"
  shows "(ucast (drop_bit 8 n) :: u8) = word_of_nat (k div 256)"
    and "(ucast (n AND 0xff) :: u8) = word_of_nat (k mod 256)"
proof -
  have "unat (drop_bit 8 n) = k div 256"
    by (simp only: assms [symmetric] unat_drop_bit_eq drop_bit_eq_div) (simp add: unat_div)
  then show "(ucast (drop_bit 8 n) :: u8) = word_of_nat (k div 256)"
    unfolding ucast_word_of_nat by (rule arg_cong)
  have "n AND 0xff = take_bit 8 n" by (simp add: take_bit_eq_mask mask_eq_exp_minus_1)
  then have "unat (n AND 0xff) = k mod 256"
    by (simp only: assms [symmetric] unsigned_take_bit_eq take_bit_eq_mod) (simp add: unat_mod)
  then show "(ucast (n AND 0xff) :: u8) = word_of_nat (k mod 256)"
    unfolding ucast_word_of_nat by (rule arg_cong)
qed

text \<open>The frame writer sends the frame of the loaded payload.\<close>

lemma write_frame_out:
  assumes "loaded bs tx" and "length bs \<le> TX_LMT"
  shows "uart_out (wifi_uart_write_frame t v tx) = uart_out (snd tx) @ uart_frame v t bs"
proof -
  obtain n w where tx: "tx = (n, w)" by (cases tx)
  let ?k = "length bs"
  define buf where "buf = (wifi_uart_tx_buf w)(0 := 0x55, 1 := 0xaa, 2 := v, 3 := t,
     4 := ucast (drop_bit 8 n), 5 := ucast (n AND 0xff))"
  from assms tx have n: "unat n = ?k" and lt: "unat n \<le> 4096" by (auto simp: loaded_def)
  then have len: "unat (n + 7) = ?k + 7" and len1: "unat (n + 7 - 1) = ?k + 6"
    using unat16_add [of n 7] unat16_add [of 6 n] by simp_all
  have upt: "[0..<?k + 6] = [0,1,2,3,4,5] @ map ((+) 6) [0..<?k]"
    by (rule nth_equalityI) (auto simp: nth_Cons' nth_append)
  have pay: "map (\<lambda>i. buf (6 + i)) [0..<?k] = bs"
    using assms(1) tx by (intro nth_equalityI) (auto simp: buf_def loaded_def)
  define body where "body = [0x55, 0xaa, v, t, word_of_nat (?k div 256), word_of_nat (?k mod 256)] @ bs"
  have "map buf [0..<?k + 6] = map buf [0,1,2,3,4,5] @ map (\<lambda>i. buf (6 + i)) [0..<?k]"
    unfolding upt by (simp add: comp_def)
  also have "\<dots> = body"
    unfolding pay by (simp add: body_def buf_def header_bytes [OF n])
  finally have body: "map buf [0..<?k + 6] = body" .
  then have cs: "get_check_sum buf 0 (?k + 6) = sum_list body"
    by (simp add: get_check_sum_sum)
  have last: "map (buf(?k + 6 := c)) [0..<?k + 7] = map buf [0..<?k + 6] @ [c]" for c
    by (simp add: numeral_eq_Suc)
  have frame: "uart_frame v t bs = body @ [sum_list body]"
    by (simp add: uart_frame_def body_def Let_def)
  show ?thesis
    unfolding tx wifi_uart_write_frame.simps Let_def wifi_uart_write_data_def frame
    using len len1 cs last [of "sum_list body"] body
    by (simp add: buf_def)
qed

lemma write_frame_out':
  assumes "loaded bs tx" and "length bs \<le> TX_LMT" and "uart_out (snd tx) = out" and "bs = ps"
  shows "uart_out (wifi_uart_write_frame t v tx) = out @ uart_frame v t ps"
  using write_frame_out [OF assms(1,2)] assms(3,4) by simp

declare wifi_uart_write_frame.simps [simp del]

lemma map_cstr [simp]: "n \<le> length s \<Longrightarrow> map (cstr s) [0..<n] = bytes_of (take n s)"
  by (intro nth_equalityI) (auto simp: cstr_def bytes_of_def)

lemma ucast_sub_len [simp]: "unat (ucast (b :: u8) :: u16) = unat b"
  using u8_lt [of b] by (simp add: unsigned_ucast_eq take_bit_nat_eq_self)

text \<open>The data-point reports: one upload frame each, silence while uploads are stopped.\<close>

definition dp_report :: "wifi_sys \<Rightarrow> string \<Rightarrow> u8 \<Rightarrow> u8 \<Rightarrow> u8 \<Rightarrow> bytes \<Rightarrow> bytes" where
  "dp_report w sub_id_buf sub_id_len dpid dp_type data =
    (if stop_update_flag w = ENABLE then []
     else uart_frame 0 STATE_UPLOAD_CMD (sub_id_len # bytes_of (take (unat sub_id_len) sub_id_buf) @
            [dpid, dp_type, word_of_nat (length data div 256), word_of_nat (length data mod 256)] @ data))"

text \<open>What every report writes before its data: the device and the head of the data point.\<close>

lemma loaded_fault_head:
  assumes "unat sub_id_len \<le> length sub_id_buf"
  shows "loaded (sub_id_len # bytes_of (take (unat sub_id_len) sub_id_buf) @ [dpid, dp_type, h])
    (set_wifi_uart_byte h (set_wifi_uart_byte dp_type (set_wifi_uart_byte dpid
      (set_wifi_uart_buffer (Some (cstr sub_id_buf)) (ucast sub_id_len)
        (set_wifi_uart_byte sub_id_len (0, w))))))"
proof -
  let ?sub = "bytes_of (take (unat sub_id_len) sub_id_buf)"
  have lt: "unat sub_id_len < 256" by (rule u8_lt)
  have "loaded ([] @ [sub_id_len]) (set_wifi_uart_byte sub_id_len (0, w))"
    by (rule loaded_byte [OF loaded_0]) simp
  then have "loaded ([sub_id_len] @ map (cstr sub_id_buf) [0..<unat (ucast sub_id_len :: u16)])
    (set_wifi_uart_buffer (Some (cstr sub_id_buf)) (ucast sub_id_len) (set_wifi_uart_byte sub_id_len (0, w)))"
    using lt by (intro loaded_buffer) simp_all
  then have base: "loaded (sub_id_len # ?sub)
    (set_wifi_uart_buffer (Some (cstr sub_id_buf)) (ucast sub_id_len) (set_wifi_uart_byte sub_id_len (0, w)))"
    using assms by simp
  have "loaded ((((sub_id_len # ?sub) @ [dpid]) @ [dp_type]) @ [h])
    (set_wifi_uart_byte h (set_wifi_uart_byte dp_type (set_wifi_uart_byte dpid
      (set_wifi_uart_buffer (Some (cstr sub_id_buf)) (ucast sub_id_len) (set_wifi_uart_byte sub_id_len (0, w))))))"
    using lt assms by (intro loaded_byte base) simp_all
  then show ?thesis by simp
qed

lemma loaded_dp_head:
  assumes "unat sub_id_len \<le> length sub_id_buf"
  shows "loaded (sub_id_len # bytes_of (take (unat sub_id_len) sub_id_buf) @ [dpid, dp_type, h, l])
    (set_wifi_uart_byte l (set_wifi_uart_byte h (set_wifi_uart_byte dp_type (set_wifi_uart_byte dpid
      (set_wifi_uart_buffer (Some (cstr sub_id_buf)) (ucast sub_id_len)
        (set_wifi_uart_byte sub_id_len (0, w)))))))"
  using loaded_byte [OF loaded_fault_head [OF assms], where b = l] assms u8_lt [of sub_id_len]
  by simp

lemma dp_report_out:
  assumes "loaded (sub_id_len # bytes_of (take (unat sub_id_len) sub_id_buf) @
      [dpid, dp_type, word_of_nat (length data div 256), word_of_nat (length data mod 256)] @ data) tx"
    and "unat sub_id_len \<le> length sub_id_buf" and "length data \<le> 3800"
    and "uart_out (snd tx) = uart_out w" and "stop_update_flag w \<noteq> ENABLE"
  shows "uart_out (wifi_uart_write_frame STATE_UPLOAD_CMD 0 tx) =
    uart_out w @ dp_report w sub_id_buf sub_id_len dpid dp_type data"
  using assms u8_lt [of sub_id_len] by (simp add: dp_report_def write_frame_out)

text \<open>One data byte or four more on top of the head.\<close>

lemma loaded_dp_byte:
  assumes "loaded (a # sub @ [d, t, h, l]) tx" and "length sub < 256"
  shows "loaded (a # sub @ [d, t, h, l, x]) (set_wifi_uart_byte x tx)"
  using loaded_byte [OF assms(1), of x] assms(2) by simp

lemma loaded_dp_word:
  assumes "loaded (a # sub @ [d, t, h, l]) tx" and "length sub < 256"
  shows "loaded (a # sub @ [d, t, h, l, x, y, z, u])
    (set_wifi_uart_byte u (set_wifi_uart_byte z (set_wifi_uart_byte y (set_wifi_uart_byte x tx))))"
proof -
  have "loaded (((((a # sub @ [d, t, h, l]) @ [x]) @ [y]) @ [z]) @ [u])
    (set_wifi_uart_byte u (set_wifi_uart_byte z (set_wifi_uart_byte y (set_wifi_uart_byte x tx))))"
    using assms(2) by (intro loaded_byte assms(1)) simp_all
  then show ?thesis by simp
qed

lemma mcu_dp_bool_update_out [wire]:
  assumes "unat sub_id_len \<le> length sub_id_buf"
  shows "uart_out (snd (mcu_dp_bool_update dpid value sub_id_buf sub_id_len w)) =
    uart_out w @ dp_report w sub_id_buf sub_id_len dpid DP_TYPE_BOOL [if value = 0 then 0 else 1]"
proof (cases "stop_update_flag w = ENABLE")
  case True
  then show ?thesis by (simp add: mcu_dp_bool_update_def dp_report_def)
next
  case False
  show ?thesis
    unfolding mcu_dp_bool_update_def Let_def using False u8_lt [of sub_id_len] assms
    by (auto intro!: dp_report_out loaded_dp_byte [OF loaded_dp_head])
qed

lemma mcu_dp_enum_update_out [wire]:
  assumes "unat sub_id_len \<le> length sub_id_buf"
  shows "uart_out (snd (mcu_dp_enum_update dpid value sub_id_buf sub_id_len w)) =
    uart_out w @ dp_report w sub_id_buf sub_id_len dpid DP_TYPE_ENUM [value]"
proof (cases "stop_update_flag w = ENABLE")
  case True
  then show ?thesis by (simp add: mcu_dp_enum_update_def dp_report_def)
next
  case False
  show ?thesis
    unfolding mcu_dp_enum_update_def Let_def using False u8_lt [of sub_id_len] assms
    by (auto intro!: dp_report_out loaded_dp_byte [OF loaded_dp_head])
qed

lemma mcu_dp_value_update_out [wire]:
  assumes "unat sub_id_len \<le> length sub_id_buf"
  shows "uart_out (snd (mcu_dp_value_update dpid value sub_id_buf sub_id_len w)) =
    uart_out w @ dp_report w sub_id_buf sub_id_len dpid DP_TYPE_VALUE (int_to_byte value)"
proof (cases "stop_update_flag w = ENABLE")
  case True
  then show ?thesis by (simp add: mcu_dp_value_update_def dp_report_def)
next
  case False
  show ?thesis
    unfolding mcu_dp_value_update_def Let_def int_to_byte_def using False u8_lt [of sub_id_len] assms
    by (auto intro!: dp_report_out loaded_dp_word [OF loaded_dp_head])
qed

lemma loaded_dp_buffer:
  assumes "loaded (a # sub @ [d, t, h, l]) tx" and "length sub < 256" and "unat len \<le> 3800"
  shows "loaded (a # sub @ [d, t, h, l] @ map value [0..<unat len]) (set_wifi_uart_buffer (Some value) len tx)"
  using loaded_buffer [OF assms(1), where len = len and src = "value"] assms(2,3) by simp

lemma len_div_mod_bytes:
  "(ucast (len div 0x100) :: u8) = word_of_nat (unat (len :: u16) div 256)"
  "(ucast (len mod 0x100) :: u8) = word_of_nat (unat (len :: u16) mod 256)"
proof -
  have "unat (len div 0x100) = unat len div 256" and "unat (len mod 0x100) = unat len mod 256"
    by (simp_all add: unat_div unat_mod)
  then show "(ucast (len div 0x100) :: u8) = word_of_nat (unat len div 256)"
    and "(ucast (len mod 0x100) :: u8) = word_of_nat (unat len mod 256)"
    unfolding ucast_word_of_nat by simp_all
qed

lemma mcu_dp_raw_update_out [wire]:
  assumes "unat sub_id_len \<le> length sub_id_buf" and "unat len \<le> 3800"
  shows "uart_out (snd (mcu_dp_raw_update dpid value len sub_id_buf sub_id_len w)) =
    uart_out w @ dp_report w sub_id_buf sub_id_len dpid DP_TYPE_RAW (map value [0..<unat len])"
proof (cases "stop_update_flag w = ENABLE")
  case True
  then show ?thesis by (simp add: mcu_dp_raw_update_def dp_report_def)
next
  case False
  from loaded_dp_buffer [OF loaded_dp_head [OF assms(1)], of len dpid DP_TYPE_RAW]
  show ?thesis
    unfolding mcu_dp_raw_update_def Let_def using False u8_lt [of sub_id_len] assms
    by (auto intro!: dp_report_out simp: len_div_mod_bytes)
qed

lemma mcu_dp_string_update_out [wire]:
  assumes "unat sub_id_len \<le> length sub_id_buf" and "unat len \<le> 3800"
  shows "uart_out (snd (mcu_dp_string_update dpid value len sub_id_buf sub_id_len w)) =
    uart_out w @ dp_report w sub_id_buf sub_id_len dpid DP_TYPE_STRING (map value [0..<unat len])"
proof (cases "stop_update_flag w = ENABLE")
  case True
  then show ?thesis by (simp add: mcu_dp_string_update_def dp_report_def)
next
  case False
  from loaded_dp_buffer [OF loaded_dp_head [OF assms(1)], of len dpid DP_TYPE_STRING]
  show ?thesis
    unfolding mcu_dp_string_update_def Let_def using False u8_lt [of sub_id_len] assms
    by (auto intro!: dp_report_out simp: len_div_mod_bytes)
qed

text \<open>A fault map is sent in the fewest of one, two or four bytes that hold it.\<close>

definition fault_bytes :: "u32 \<Rightarrow> bytes" where
  "fault_bytes v = (if v < 0x100 then drop 3 (int_to_byte v)
     else if v < 0x10000 then drop 2 (int_to_byte v) else int_to_byte v)"

lemma take_bit_u32_iff: "n < 32 \<Longrightarrow> take_bit n v = v \<longleftrightarrow> unat (v :: u32) < 2 ^ n"
  by (simp add: word_unat_eq_iff unsigned_take_bit_eq take_bit_nat_eq_self_iff)

lemma or_mask_u32_iff: "n < 32 \<Longrightarrow> v OR mask n = mask n \<longleftrightarrow> unat (v :: u32) < 2 ^ n"
proof -
  assume n: "n < 32"
  have "v OR mask n = mask n \<longleftrightarrow> take_bit n v = v"
    by (auto simp: bit_eq_iff bit_simps)
  with n show ?thesis by (simp add: take_bit_u32_iff)
qed

lemma fault_width:
  "v OR 0xff = 0xff \<longleftrightarrow> (v :: u32) < 0x100" "v OR 0xffff = 0xffff \<longleftrightarrow> (v :: u32) < 0x10000"
  using or_mask_u32_iff [of 8 v] or_mask_u32_iff [of 16 v]
  by (simp_all add: mask_eq_exp_minus_1 word_less_nat_alt)

lemma loaded_dp_fault:
  assumes "loaded (a # sub @ [d, t, h]) tx" and "length sub < 256" and "length xs \<le> 8"
  shows "loaded (a # sub @ [d, t, h] @ xs) (fold set_wifi_uart_byte xs tx)"
  using assms(3)
proof (induction xs rule: rev_induct)
  case Nil
  then show ?case using assms(1) by simp
next
  case (snoc x xs)
  with assms(2) loaded_byte [of "a # sub @ [d, t, h] @ xs" "fold set_wifi_uart_byte xs tx" x]
  show ?case by simp
qed

lemma mcu_dp_fault_update_out [wire]:
  assumes "unat sub_id_len \<le> length sub_id_buf"
  shows "uart_out (snd (mcu_dp_fault_update dpid value sub_id_buf sub_id_len w)) =
    uart_out w @ dp_report w sub_id_buf sub_id_len dpid DP_TYPE_FAULT (fault_bytes value)"
proof (cases "stop_update_flag w = ENABLE")
  case True
  then show ?thesis by (simp add: mcu_dp_fault_update_def dp_report_def)
next
  case False
  let ?tx = "set_wifi_uart_byte 0 (set_wifi_uart_byte DP_TYPE_FAULT (set_wifi_uart_byte dpid
    (set_wifi_uart_buffer (Some (cstr sub_id_buf)) (ucast sub_id_len) (set_wifi_uart_byte sub_id_len (0, w)))))"
  have low: "value < 0x100 \<Longrightarrow> (ucast value :: u8) = ucast (value AND 0xff)"
    using take_bit_u32_iff [of 8 "value"]
    by (simp add: take_bit_eq_mask mask_eq_exp_minus_1 word_less_nat_alt)
  have out: "uart_out (wifi_uart_write_frame STATE_UPLOAD_CMD 0 (fold set_wifi_uart_byte xs ?tx)) =
      uart_out w @ dp_report w sub_id_buf sub_id_len dpid DP_TYPE_FAULT (fault_bytes value)"
    if "xs = word_of_nat (length (fault_bytes value)) # fault_bytes value" for xs
  proof (rule dp_report_out)
    have "uart_out (snd (fold set_wifi_uart_byte xs tx)) = uart_out (snd tx)" for xs tx
      by (induction xs arbitrary: tx) simp_all
    then show "uart_out (snd (fold set_wifi_uart_byte xs ?tx)) = uart_out w" by simp
    have len: "length (fault_bytes value) \<le> 4" by (simp add: fault_bytes_def int_to_byte_def)
    then show "length (fault_bytes value) \<le> 3800" by simp
    from loaded_dp_fault [OF loaded_fault_head [OF assms], of xs dpid DP_TYPE_FAULT 0 w] len assms
      u8_lt [of sub_id_len] that
    show "loaded (sub_id_len # bytes_of (take (unat sub_id_len) sub_id_buf) @
      [dpid, DP_TYPE_FAULT, word_of_nat (length (fault_bytes value) div 256),
       word_of_nat (length (fault_bytes value) mod 256)] @ fault_bytes value) (fold set_wifi_uart_byte xs ?tx)"
      by simp
  qed (use assms False in simp_all)
  show ?thesis
    using False out [OF refl] low
    by (auto simp: mcu_dp_fault_update_def Let_def fault_width fault_bytes_def int_to_byte_def)
qed

lemma my_strlen_length [simp]: "my_strlen s = length s"
  by (induction s) auto

section \<open>What sending leaves alone\<close>

text \<open>\<open>tx_only w w'\<close>: between \<open>w\<close> and \<open>w'\<close> only the transmit buffer and the wire changed, and the
  wire only grew.\<close>

definition tx_only :: "wifi_sys \<Rightarrow> wifi_sys \<Rightarrow> bool" where
  "tx_only w w' \<longleftrightarrow>
    w' = w\<lparr>wifi_uart_tx_buf := wifi_uart_tx_buf w', uart_out := uart_out w'\<rparr> \<and>
    (\<exists>bs. uart_out w' = uart_out w @ bs)"

lemma tx_only_refl [simp, intro]: "tx_only w w"
  by (simp add: tx_only_def)

lemma tx_only_trans [trans]: "tx_only w w' \<Longrightarrow> tx_only w' w'' \<Longrightarrow> tx_only w w''"
  by (cases w; cases w'; cases w'') (auto simp: tx_only_def)

lemma tx_only_fields:
  assumes "tx_only w w'"
  shows "stop_update_flag w' = stop_update_flag w" "reset_wifi_flag w' = reset_wifi_flag w"
    "set_wifimode_flag w' = set_wifimode_flag w" "wifi_work_state w' = wifi_work_state w"
    "if_subdev_net_in w' = if_subdev_net_in w" "firm_size w' = firm_size w"
    "firm_length w' = firm_length w" "firm_update_flag w' = firm_update_flag w"
  using assms unfolding tx_only_def by (metis wifi_sys.select_convs wifi_sys.update_convs wifi_sys.surjective)+

lemma tx_only_set:
  "tx_only w (snd tx) \<Longrightarrow> tx_only w (snd (set_wifi_uart_byte b tx))"
  "tx_only w (snd tx) \<Longrightarrow> tx_only w (snd (set_wifi_uart_buffer src len tx))"
  "tx_only w (snd tx) \<Longrightarrow> tx_only w (wifi_uart_write_frame t v tx)"
proof -
  obtain n u where tx: "tx = (n, u)" by (cases tx)
  show "tx_only w (snd tx) \<Longrightarrow> tx_only w (snd (set_wifi_uart_byte b tx))"
    by (cases w; cases u) (auto simp: tx tx_only_def set_wifi_uart_byte.simps)
  show "tx_only w (snd tx) \<Longrightarrow> tx_only w (snd (set_wifi_uart_buffer src len tx))"
    by (cases src; cases w; cases u) (auto simp: tx tx_only_def set_wifi_uart_buffer.simps)
  show "tx_only w (snd tx) \<Longrightarrow> tx_only w (wifi_uart_write_frame t v tx)"
    by (cases w; cases u)
      (auto simp: tx tx_only_def wifi_uart_write_frame.simps wifi_uart_write_data_def Let_def)
qed

lemma tx_only_reports [frame]:
  "tx_only w (snd (mcu_dp_raw_update dpid m len sub sub_len w))"
  "tx_only w (snd (mcu_dp_bool_update dpid b sub sub_len w))"
  "tx_only w (snd (mcu_dp_value_update dpid v sub sub_len w))"
  "tx_only w (snd (mcu_dp_string_update dpid m len sub sub_len w))"
  "tx_only w (snd (mcu_dp_enum_update dpid b sub sub_len w))"
  "tx_only w (snd (mcu_dp_fault_update dpid v sub sub_len w))"
  by (simp_all add: mcu_dp_raw_update_def mcu_dp_bool_update_def mcu_dp_value_update_def
      mcu_dp_string_update_def mcu_dp_enum_update_def mcu_dp_fault_update_def Let_def tx_only_set)

lemma tx_only_commands [frame]:
  "tx_only w (mcu_start_wifitest w)" "tx_only w (get_wifi_st w)" "tx_only w (reset_factory_setting w)"
  "tx_only w (qur_subdev_list w)" "tx_only w (local_add_subdev_limit p h l w)"
  by (simp_all add: mcu_start_wifitest_def get_wifi_st_def reset_factory_setting_def
      qur_subdev_list_def local_add_subdev_limit_def Let_def tx_only_set)

section \<open>The byte helpers are right\<close>

definition hex_digit :: "u8 \<Rightarrow> bool" where
  "hex_digit c \<longleftrightarrow> (48 \<le> c \<and> c \<le> 57) \<or> (65 \<le> c \<and> c \<le> 70) \<or> (97 \<le> c \<and> c \<le> 102)"

definition hex_val :: "u8 \<Rightarrow> nat" where
  "hex_val c = (if c \<le> 57 then unat c - 48 else if c \<le> 70 then unat c - 55 else unat c - 87)"

lemma fold_upd_forward:
  assumes "pdest \<le> psrc \<or> psrc + count \<le> pdest"
  shows "fold (copy_cell pdest psrc) [0..<count] m j =
    (if pdest \<le> j \<and> j < pdest + count then m (psrc + (j - pdest)) else m j)"
  using assms
proof (induction count arbitrary: j)
  case 0
  then show ?case by auto
next
  case (Suc n)
  then have IH: "\<And>j. fold (copy_cell pdest psrc) [0..<n] m j =
    (if pdest \<le> j \<and> j < pdest + n then m (psrc + (j - pdest)) else m j)" by auto
  from Suc.prems show ?case by (auto simp: copy_cell_def [of pdest psrc n] IH)
qed

lemma fold_upd_backward:
  assumes "psrc \<le> pdest"
  shows "fold (copy_cell pdest psrc) (rev [0..<count]) m j =
    (if pdest \<le> j \<and> j < pdest + count then m (psrc + (j - pdest)) else m j)"
proof (induction count arbitrary: m)
  case 0
  then show ?case by auto
next
  case (Suc n)
  let ?m = "copy_cell pdest psrc n m"
  have "fold (copy_cell pdest psrc) (rev [0..<Suc n]) m j = fold (copy_cell pdest psrc) (rev [0..<n]) ?m j"
    by simp
  also have "\<dots> = (if pdest \<le> j \<and> j < pdest + n then ?m (psrc + (j - pdest)) else ?m j)"
    by (rule Suc)
  also have "\<dots> = (if pdest \<le> j \<and> j < pdest + Suc n then m (psrc + (j - pdest)) else m j)"
    using assms by (cases "j = pdest + n") (auto simp: copy_cell_def)
  finally show ?case .
qed

definition hex_chars :: bytes where
  "hex_chars = [48, 49, 50, 51, 52, 53, 54, 55, 56, 57, 65, 66, 67, 68, 69, 70, 97, 98, 99, 100, 101, 102]"

lemma hex_digit_chars: "hex_digit c \<Longrightarrow> c \<in> set hex_chars"
proof -
  assume "hex_digit c"
  then have "unat c \<in> {48..<58} \<union> ({65..<71} \<union> {97..<103})"
    by (auto simp: hex_digit_def word_le_nat_alt)
  then have "unat c \<in> set ([48..<58] @ [65..<71] @ [97..<103])"
    by (simp only: set_append set_upt)
  then have "c \<in> word_of_nat ` set ([48..<58] @ [65..<71] @ [97..<103])"
    by (rule image_eqI [where x = "unat c", rotated]) simp
  then show ?thesis by (simp add: upt_rec hex_chars_def)
qed

lemma hex_nibble:
  assumes "hex_digit c"
  shows "(if c \<ge> 48 \<and> c \<le> 57 then c - 48 else if c \<ge> 65 \<and> c \<le> 70 then c - 65 + 10
          else if c \<ge> 97 \<and> c \<le> 102 then c - 97 + 10 else c) AND 0x0f = word_of_nat (hex_val c)"
    and "(if c \<ge> 48 \<and> c \<le> 57 then c - 48 else if c \<ge> 65 \<and> c \<le> 70 then c - 97 + 10
          else if c \<ge> 97 \<and> c \<le> 102 then c - 97 + 10 else c) AND 0x0f = word_of_nat (hex_val c)"
    and "hex_val c < 16"
proof -
  have "\<forall>c \<in> set hex_chars. (if c \<ge> 48 \<and> c \<le> 57 then c - 48 else if c \<ge> 65 \<and> c \<le> 70 then c - 65 + 10
          else if c \<ge> 97 \<and> c \<le> 102 then c - 97 + 10 else c) AND 0x0f = word_of_nat (hex_val c)"
    unfolding hex_chars_def by (simp add: hex_val_def)
  with hex_digit_chars [OF assms]
  show "(if c \<ge> 48 \<and> c \<le> 57 then c - 48 else if c \<ge> 65 \<and> c \<le> 70 then c - 65 + 10
          else if c \<ge> 97 \<and> c \<le> 102 then c - 97 + 10 else c) AND 0x0f = word_of_nat (hex_val c)"
    by blast
  have "\<forall>c \<in> set hex_chars. (if c \<ge> 48 \<and> c \<le> 57 then c - 48 else if c \<ge> 65 \<and> c \<le> 70 then c - 97 + 10
          else if c \<ge> 97 \<and> c \<le> 102 then c - 97 + 10 else c) AND 0x0f = word_of_nat (hex_val c)"
    unfolding hex_chars_def by (simp add: hex_val_def)
  with hex_digit_chars [OF assms]
  show "(if c \<ge> 48 \<and> c \<le> 57 then c - 48 else if c \<ge> 65 \<and> c \<le> 70 then c - 97 + 10
          else if c \<ge> 97 \<and> c \<le> 102 then c - 97 + 10 else c) AND 0x0f = word_of_nat (hex_val c)"
    by blast
  have "\<forall>c \<in> set hex_chars. hex_val c < 16"
    unfolding hex_chars_def by (simp add: hex_val_def)
  with hex_digit_chars [OF assms] show "hex_val c < 16" by blast
qed

text \<open>The buffer copy of the SDK is a memory move: whatever the overlap of the two regions,
  the destination receives the original contents of the source and nothing else changes.\<close>

lemma my_memcpy_moves:
  "my_memcpy m pdest psrc count j =
    (if pdest \<le> j \<and> j < pdest + count then m (psrc + (j - pdest)) else m j)"
proof (cases "pdest \<le> psrc \<or> pdest > psrc + count")
  case True
  then show ?thesis unfolding my_memcpy_def using fold_upd_forward [of pdest psrc count m j] by auto
next
  case False
  then show ?thesis unfolding my_memcpy_def using fold_upd_backward [of psrc pdest count m j] by auto
qed

text \<open>\<open>hex_to_bcd\<close> decodes two hexadecimal digits, in either case, although its branch for
  an upper-case low digit subtracts the code of \<open>'a'\<close>: the mask with 15 hides the difference.\<close>

lemma hex_to_bcd_decodes:
  assumes "hex_digit h" and "hex_digit l"
  shows "unat (hex_to_bcd h l) = 16 * hex_val h + hex_val l"
proof -
  have eq: "hex_to_bcd h l = push_bit 4 (word_of_nat (hex_val h)) OR word_of_nat (hex_val l)"
    unfolding hex_to_bcd_def Let_def hex_nibble(1) [OF assms(1)] hex_nibble(2) [OF assms(2)] ..
  from hex_nibble(3) [OF assms(1)] hex_nibble(3) [OF assms(2)]
  have "hex_val h \<in> set [0..<16]" "hex_val l \<in> set [0..<16]" by auto
  then show ?thesis unfolding eq by (auto simp: upt_rec)
qed

text \<open>A 32-bit value survives the journey through four big-endian bytes.\<close>

lemma byte_to_int_int_to_byte: "byte_to_int (\<lambda>i. int_to_byte v ! i) = v"
proof -
  have idx: "int_to_byte v ! 0 = ucast (drop_bit 24 v)" "int_to_byte v ! 1 = ucast (drop_bit 16 v)"
    "int_to_byte v ! 2 = ucast (drop_bit 8 v)" "int_to_byte v ! 3 = ucast (take_bit 8 v)"
    by (simp_all add: int_to_byte_def numeral_eq_Suc take_bit_eq_mask mask_eq_exp_minus_1)
  show ?thesis
    unfolding byte_to_int_def idx Let_def
    by (rule bit_word_eqI, simp only: bit_or_iff bit_push_bit_iff bit_ucast_iff bit_drop_bit_eq
        bit_take_bit_iff comp_def add_diff_inverse_nat) auto
qed

end
