(* ===== verification/CJSON.thy ===== *)
theory CJSON
  imports Prelude
begin

text \<open>
  The JSON library of the repository (\<open>src/wifi/cJSON.c\<close>), as the gateway uses it: building objects,
  printing them, parsing what the WiFi module sends, and looking up members. A C string is the list
  of its characters before the terminator; \<open>Inl Out_Of_Bounds\<close> is an access past the terminator of
  the input or past the block a parsed string is written to. Allocation is assumed to succeed.
  Numbers are kept as the decimal the text denotes, without the rounding of a \<open>double\<close>; the
  gateway prints only small integers and uses no parsed number.
\<close>

section \<open>Items\<close>

text \<open>\<open>Dec neg m e\<close> is \<open>m * 10 ^ e\<close>, negated when \<open>neg\<close>.\<close>

datatype dec = Dec (dneg: bool) (mantissa: nat) (exponent: int)

datatype cJSON = CJSON (jtype: nat) (valuestring: "string option") (valueint: int) (valuedouble: dec)
  (item_string: "string option") (child: "cJSON list")

abbreviation (input) cJSON_False :: nat where "cJSON_False \<equiv> 0"
abbreviation (input) cJSON_True :: nat where "cJSON_True \<equiv> 1"
abbreviation (input) cJSON_NULL :: nat where "cJSON_NULL \<equiv> 2"
abbreviation (input) cJSON_Number :: nat where "cJSON_Number \<equiv> 3"
abbreviation (input) cJSON_String :: nat where "cJSON_String \<equiv> 4"
abbreviation (input) cJSON_Array :: nat where "cJSON_Array \<equiv> 5"
abbreviation (input) cJSON_Object :: nat where "cJSON_Object \<equiv> 6"

abbreviation (input) QUOTE :: char where "QUOTE \<equiv> CHR 0x22"
abbreviation (input) BACKSLASH :: char where "BACKSLASH \<equiv> CHR 0x5C"

definition cJSON_New_Item :: cJSON where
  "cJSON_New_Item = CJSON 0 None 0 (Dec False 0 0) None []"

definition set_item_string :: "string \<Rightarrow> cJSON \<Rightarrow> cJSON" where
  "set_item_string k c = (case c of CJSON t s i d _ cs \<Rightarrow> CJSON t s i d (Some k) cs)"

definition cJSON_CreateNull :: cJSON where
  "cJSON_CreateNull = CJSON cJSON_NULL None 0 (Dec False 0 0) None []"

definition cJSON_CreateBool :: "bool \<Rightarrow> cJSON" where
  "cJSON_CreateBool b = CJSON (if b then cJSON_True else cJSON_False) None 0 (Dec False 0 0) None []"

text \<open>\<open>(int)num\<close> saturates on this processor.\<close>

definition cJSON_CreateNumber :: "int \<Rightarrow> cJSON" where
  "cJSON_CreateNumber num = CJSON cJSON_Number None (clamp32 num) (Dec (num < 0) (nat \<bar>num\<bar>) 0) None []"

definition cJSON_CreateString :: "string \<Rightarrow> cJSON" where
  "cJSON_CreateString s = CJSON cJSON_String (Some s) 0 (Dec False 0 0) None []"

definition cJSON_CreateArray :: cJSON where
  "cJSON_CreateArray = CJSON cJSON_Array None 0 (Dec False 0 0) None []"

definition cJSON_CreateObject :: cJSON where
  "cJSON_CreateObject = CJSON cJSON_Object None 0 (Dec False 0 0) None []"

definition cJSON_AddItemToArray :: "cJSON \<Rightarrow> cJSON \<Rightarrow> cJSON" where
  "cJSON_AddItemToArray arr item = (case arr of CJSON t s i d k cs \<Rightarrow> CJSON t s i d k (cs @ [item]))"

definition cJSON_AddItemToObject :: "cJSON \<Rightarrow> string \<Rightarrow> cJSON \<Rightarrow> cJSON" where
  "cJSON_AddItemToObject obj key item = cJSON_AddItemToArray obj (set_item_string key item)"

definition cJSON_AddStringToObject :: "cJSON \<Rightarrow> string \<Rightarrow> string \<Rightarrow> cJSON" where
  "cJSON_AddStringToObject obj key s = cJSON_AddItemToObject obj key (cJSON_CreateString s)"

definition cJSON_AddNumberToObject :: "cJSON \<Rightarrow> string \<Rightarrow> int \<Rightarrow> cJSON" where
  "cJSON_AddNumberToObject obj key n = cJSON_AddItemToObject obj key (cJSON_CreateNumber n)"

definition cJSON_GetArraySize :: "cJSON \<Rightarrow> nat" where
  "cJSON_GetArraySize arr = length (child arr)"

definition cJSON_GetArrayItem :: "cJSON \<Rightarrow> int \<Rightarrow> cJSON option" where
  "cJSON_GetArrayItem arr item =
    (let i = nat item in if i < length (child arr) then Some (child arr ! i) else None)"

text \<open>Member lookup ignores the case of ASCII letters; items of arrays have no name.\<close>

definition tolower :: "char \<Rightarrow> nat" where
  "tolower c = (let n = of_char c in if 65 \<le> n \<and> n \<le> 90 then n + 32 else n)"

fun cJSON_strcasecmp :: "string option \<Rightarrow> string \<Rightarrow> int" where
  "cJSON_strcasecmp None s2 = 1"
| "cJSON_strcasecmp (Some []) [] = 0"
| "cJSON_strcasecmp (Some (a # as)) [] = int (tolower a)"
| "cJSON_strcasecmp (Some []) (b # bs) = - int (tolower b)"
| "cJSON_strcasecmp (Some (a # as)) (b # bs) =
    (if tolower a = tolower b then cJSON_strcasecmp (Some as) bs else int (tolower a) - int (tolower b))"

definition cJSON_GetObjectItem :: "cJSON \<Rightarrow> string \<Rightarrow> cJSON option" where
  "cJSON_GetObjectItem object s = List.find (\<lambda>c. cJSON_strcasecmp (item_string c) s = 0) (child object)"

section \<open>Printing\<close>

definition dec_is_int :: "dec \<Rightarrow> int \<Rightarrow> bool" where
  "dec_is_int d i \<longleftrightarrow> 0 \<le> exponent d \<and>
     (if dneg d then - int (mantissa d * 10 ^ nat (exponent d)) else int (mantissa d * 10 ^ nat (exponent d))) = i"

text \<open>The branches for fractions and for integers beyond 32 bits print a \<open>double\<close>; they are left
  out (\<open>None\<close>), no caller in the gateway reaches them.\<close>

definition print_number :: "cJSON \<Rightarrow> string option" where
  "print_number item =
    (if mantissa (valuedouble item) = 0 then Some ''0''
     else if dec_is_int (valuedouble item) (valueint item) then Some (sprintf_ld (word_of_int (valueint item)))
     else None)"

definition needs_escape :: "char \<Rightarrow> bool" where
  "needs_escape c \<longleftrightarrow> (of_char c :: nat) < 32 \<or> c = QUOTE \<or> c = BACKSLASH"

definition hex_char :: "nat \<Rightarrow> char" where
  "hex_char n = (if n < 10 then char_of (48 + n) else char_of (87 + n))"

definition sprintf_04x :: "nat \<Rightarrow> string" where
  "sprintf_04x n = [hex_char (n div 4096 mod 16), hex_char (n div 256 mod 16), hex_char (n div 16 mod 16), hex_char (n mod 16)]"

definition escape_char :: "char \<Rightarrow> string" where
  "escape_char c =
    (if \<not> needs_escape c then [c]
     else BACKSLASH #
       (let token = (of_char c :: nat) in
        if c = BACKSLASH then [BACKSLASH]
        else if c = QUOTE then [QUOTE]
        else if token = 8 then ''b''
        else if token = 12 then ''f''
        else if token = 10 then ''n''
        else if token = 13 then ''r''
        else if token = 9 then ''t''
        else CHR ''u'' # sprintf_04x token))"

definition print_string_ptr :: "string \<Rightarrow> string" where
  "print_string_ptr str =
    (if \<not> list_ex needs_escape str then QUOTE # str @ [QUOTE]
     else QUOTE # concat (map escape_char str) @ [QUOTE])"

text \<open>Joining printed members: \<open>,\<close> between them, and what formatting adds.\<close>

fun join_array :: "bool \<Rightarrow> string list \<Rightarrow> string" where
  "join_array fmt [] = []"
| "join_array fmt [e] = e"
| "join_array fmt (e # es) = e @ '','' @ (if fmt then '' '' else []) @ join_array fmt es"

definition tabs :: "nat \<Rightarrow> string" where
  "tabs n = replicate n (CHR 0x09)"

fun join_object :: "bool \<Rightarrow> nat \<Rightarrow> (string \<times> string) list \<Rightarrow> string" where
  "join_object fmt depth [] = []"
| "join_object fmt depth ((k, v) # es) =
    (if fmt then tabs depth else []) @ k @ '':'' @ (if fmt then tabs 1 else []) @ v @
    (if es = [] then [] else '','') @ (if fmt then [CHR 0x0A] else []) @ join_object fmt depth es"

fun all_some :: "'a option list \<Rightarrow> 'a list option" where
  "all_some [] = Some []"
| "all_some (None # xs) = None"
| "all_some (Some x # xs) = (case all_some xs of None \<Rightarrow> None | Some ys \<Rightarrow> Some (x # ys))"

text \<open>The unbuffered printer (\<open>p == 0\<close>). A type outside the seven prints nothing.\<close>

definition print_array :: "bool \<Rightarrow> string option list \<Rightarrow> string option" where
  "print_array fmt entries =
    (if entries = [] then Some ''[]''
     else case all_some entries of None \<Rightarrow> None | Some es \<Rightarrow> Some (''['' @ join_array fmt es @ '']''))"

definition print_object :: "nat \<Rightarrow> bool \<Rightarrow> (string option \<times> string option) list \<Rightarrow> string option" where
  "print_object depth fmt entries =
    (if entries = []
     then Some (''{'' @ (if fmt then CHR 0x0A # tabs (depth - 1) else []) @ ''}'')
     else
       (case (all_some (map fst entries), all_some (map snd entries)) of
          (Some names, Some es) \<Rightarrow>
            Some (''{'' @ (if fmt then [CHR 0x0A] else []) @
                  join_object fmt (depth + 1) (zip (map print_string_ptr names) es) @
                  (if fmt then tabs depth else []) @ ''}'')
        | _ \<Rightarrow> None))"

fun print_value :: "cJSON \<Rightarrow> nat \<Rightarrow> bool \<Rightarrow> string option" where
  "print_value (CJSON t vs vi vd k cs) depth fmt =
    (if t mod 256 = cJSON_NULL then Some ''null''
     else if t mod 256 = cJSON_False then Some ''false''
     else if t mod 256 = cJSON_True then Some ''true''
     else if t mod 256 = cJSON_Number then print_number (CJSON t vs vi vd k cs)
     else if t mod 256 = cJSON_String then map_option print_string_ptr vs
     else if t mod 256 = cJSON_Array then print_array fmt (map (\<lambda>c. print_value c (depth + 1) fmt) cs)
     else if t mod 256 = cJSON_Object then
       print_object depth fmt (map (\<lambda>c. (item_string c, print_value c (depth + 1) fmt)) cs)
     else None)"

definition cJSON_PrintUnformatted :: "cJSON \<Rightarrow> string option" where
  "cJSON_PrintUnformatted item = print_value item 0 False"

section \<open>Parsing\<close>

text \<open>A parser either faults, fails (returns a null pointer) or returns what it read and the rest.\<close>

type_synonym 'a parsed = "c_fault + ('a \<times> string) option"

definition parse_then :: "'a parsed \<Rightarrow> ('a \<Rightarrow> string \<Rightarrow> 'b parsed) \<Rightarrow> 'b parsed" where
  "parse_then p f = (case p of Inl e \<Rightarrow> Inl e | Inr None \<Rightarrow> Inr None | Inr (Some (a, r)) \<Rightarrow> f a r)"

definition json_skip :: "string \<Rightarrow> string" where
  "json_skip s = dropWhile (\<lambda>c. (of_char c :: nat) \<le> 32) s"

definition dec_trunc :: "dec \<Rightarrow> int" where
  "dec_trunc d = (let m = (if 0 \<le> exponent d then mantissa d * 10 ^ nat (exponent d)
                           else mantissa d div 10 ^ nat (- exponent d))
                  in if dneg d then - int m else int m)"

text \<open>The four steps of \<open>parse_number\<close>: the sign, the integer part behind an optional zero, the
  fraction, the exponent.\<close>

definition number_sign :: "string \<Rightarrow> bool \<times> string" where
  "number_sign num = (case num of c # r \<Rightarrow> if c = CHR ''-'' then (True, r) else (False, num) | [] \<Rightarrow> (False, num))"

definition number_int :: "string \<Rightarrow> nat \<times> string" where
  "number_int num =
    (let num = (case num of c # r \<Rightarrow> if c = CHR ''0'' then r else num | [] \<Rightarrow> num)
     in case num of c # r \<Rightarrow> if is_digit c \<and> c \<noteq> CHR ''0'' then scan_nat 0 num else (0, num)
        | [] \<Rightarrow> (0, num))"

definition number_frac :: "nat \<Rightarrow> string \<Rightarrow> nat \<times> int \<times> string" where
  "number_frac n num =
    (case num of c # d # r \<Rightarrow>
       if c = CHR ''.'' \<and> is_digit d
       then (let (n', rest) = scan_nat n (d # r) in (n', - int (length (d # r) - length rest), rest))
       else (n, 0, num)
     | _ \<Rightarrow> (n, 0, num))"

definition number_exp :: "string \<Rightarrow> int \<times> string" where
  "number_exp num =
    (case num of c # r \<Rightarrow>
       if c = CHR ''e'' \<or> c = CHR ''E'' then
         (let (signsubscale, r) =
                (case r of x # r' \<Rightarrow> if x = CHR ''+'' then (1, r')
                   else if x = CHR ''-'' then (-1, r') else (1, r) | [] \<Rightarrow> (1 :: int, r));
              (subscale, rest) = scan_nat 0 r
          in (signsubscale * int subscale, rest))
       else (0, num)
     | [] \<Rightarrow> (0, num))"

definition parse_number :: "string \<Rightarrow> cJSON \<times> string" where
  "parse_number num =
    (let (sign, num) = number_sign num;
         (n, num) = number_int num;
         (n, scale, num) = number_frac n num;
         (subscale, num) = number_exp num;
         d = Dec sign n (scale + subscale)
     in (CJSON cJSON_Number None (clamp32 (dec_trunc d)) d None [], num))"

definition hex4_digit :: "char \<Rightarrow> nat option" where
  "hex4_digit c = (let n = of_char c in
     if 48 \<le> n \<and> n \<le> 57 then Some (n - 48)
     else if 65 \<le> n \<and> n \<le> 70 then Some (n - 55)
     else if 97 \<le> n \<and> n \<le> 102 then Some (n - 87) else None)"

definition parse_hex4 :: "string \<Rightarrow> nat" where
  "parse_hex4 str =
    (if length str < 4 then 0
     else case (hex4_digit (str ! 0), hex4_digit (str ! 1), hex4_digit (str ! 2), hex4_digit (str ! 3)) of
       (Some a, Some b, Some c, Some d) \<Rightarrow> ((a * 16 + b) * 16 + c) * 16 + d
     | _ \<Rightarrow> 0)"

text \<open>The bytes of a code point, with the length marker in the first.\<close>

definition utf8 :: "nat \<Rightarrow> string" where
  "utf8 uc =
    (if uc < 0x80 then [char_of uc]
     else if uc < 0x800 then [char_of (0xC0 + uc div 64), char_of (0x80 + uc mod 64)]
     else if uc < 0x10000 then [char_of (0xE0 + uc div 4096), char_of (0x80 + uc div 64 mod 64), char_of (0x80 + uc mod 64)]
     else [char_of (0xF0 + uc div 262144), char_of (0x80 + uc div 4096 mod 64),
           char_of (0x80 + uc div 64 mod 64), char_of (0x80 + uc mod 64)])"

text \<open>Advancing a pointer into the string; past the terminator nothing may be read.\<close>

definition advance :: "nat \<Rightarrow> string \<Rightarrow> string option" where
  "advance n s = (if n \<le> length s then Some (drop n s) else None)"

text \<open>The first loop: how many bytes the block for the string gets.\<close>

fun string_len :: "string \<Rightarrow> nat option" where
  "string_len [] = Some 0"
| "string_len (c # s) =
    (if c = QUOTE then Some 0
     else if c = BACKSLASH then (case s of [] \<Rightarrow> None | _ # r \<Rightarrow> map_option Suc (string_len r))
     else map_option Suc (string_len s))"

text \<open>One escape sequence: what it writes, and the input after it. \<open>s\<close> starts behind the backslash.\<close>

definition unescape :: "string \<Rightarrow> (string \<times> string) option" where
  "unescape s = (case s of [] \<Rightarrow> None
    | c # r \<Rightarrow>
       if c = CHR ''b'' then Some ([CHR 0x08], r)
       else if c = CHR ''f'' then Some ([CHR 0x0C], r)
       else if c = CHR ''n'' then Some ([CHR 0x0A], r)
       else if c = CHR ''r'' then Some ([CHR 0x0D], r)
       else if c = CHR ''t'' then Some ([CHR 0x09], r)
       else if c = CHR ''u'' then
         (let uc = parse_hex4 r in
          case advance 4 r of None \<Rightarrow> None
          | Some r4 \<Rightarrow>
              if (0xDC00 \<le> uc \<and> uc \<le> 0xDFFF) \<or> uc = 0 then Some ([], r4)
              else if 0xD800 \<le> uc \<and> uc \<le> 0xDBFF then
                (if take 2 r4 \<noteq> [BACKSLASH, CHR ''u''] then Some ([], r4)
                 else
                   (let uc2 = parse_hex4 (drop 2 r4) in
                    case advance 6 r4 of None \<Rightarrow> None
                    | Some r10 \<Rightarrow>
                        if uc2 < 0xDC00 \<or> uc2 > 0xDFFF then Some ([], r10)
                        else Some (utf8 (0x10000 + (uc mod 0x400) * 0x400 + uc2 mod 0x400), r10)))
              else Some (utf8 uc, r4))
       else Some ([c], r))"

lemma unescape_shorter: "unescape s = Some (w, r) \<Longrightarrow> length r < length s"
  by (auto simp: unescape_def advance_def Let_def split: list.splits if_splits option.splits)

text \<open>The second loop, with its count of open braces: while it is not zero a quote does not end the
  string. The result is everything written and the input at the end.\<close>

function string_body :: "int \<Rightarrow> string \<Rightarrow> (string \<times> string) option" where
  "string_body nest [] = Some ([], [])"
| "string_body nest (c # s) =
    (if c = QUOTE \<and> nest = 0 then Some ([], c # s)
     else
       (let nest = (if c = CHR ''{'' then nest + 1 else if c = CHR ''}'' then nest - 1 else nest)
        in if c \<noteq> BACKSLASH then
             (case string_body nest s of None \<Rightarrow> None | Some (w, r) \<Rightarrow> Some (c # w, r))
           else
             (case unescape s of None \<Rightarrow> None
              | Some (w1, s') \<Rightarrow>
                  (case string_body nest s' of None \<Rightarrow> None | Some (w, r) \<Rightarrow> Some (w1 @ w, r)))))"
  by pat_completeness auto

termination
  by (relation "measure (\<lambda>(nest, s). length s)") (auto dest: unescape_shorter)

definition parse_string :: "string \<Rightarrow> string parsed" where
  "parse_string str = (case str of [] \<Rightarrow> Inr None
    | q # body \<Rightarrow>
       if q \<noteq> QUOTE then Inr None
       else
         (case (string_len body, string_body 0 body) of
            (Some len, Some (out, rest)) \<Rightarrow>
              if length out > len then Inl Out_Of_Bounds
              else Inr (Some (out, case rest of c # r \<Rightarrow> if c = QUOTE then r else rest | [] \<Rightarrow> []))
          | _ \<Rightarrow> Inl Out_Of_Bounds))"

text \<open>The recursive descent, with the recursion depth as fuel: \<open>Inl Endless_Loop\<close> when it runs out,
  which \<open>cJSON_Parse_returns\<close> excludes for the fuel \<open>cJSON_ParseWithOpts\<close> starts with.
  The comma loops of arrays and objects are \<open>parse_elems\<close> and \<open>parse_members\<close>.\<close>

fun parse_value :: "nat \<Rightarrow> string \<Rightarrow> cJSON parsed"
and parse_elems :: "nat \<Rightarrow> string \<Rightarrow> cJSON list parsed"
and parse_members :: "nat \<Rightarrow> string \<Rightarrow> cJSON list parsed" where
  "parse_value 0 s = Inl Endless_Loop"
| "parse_value (Suc n) s =
    (if take 4 s = ''null'' then Inr (Some (cJSON_CreateNull, drop 4 s))
     else if take 5 s = ''false'' then Inr (Some (cJSON_CreateBool False, drop 5 s))
     else if take 4 s = ''true'' then Inr (Some (CJSON cJSON_True None 1 (Dec False 0 0) None [], drop 4 s))
     else (case s of [] \<Rightarrow> Inr None
       | c # r \<Rightarrow>
          if c = QUOTE then parse_then (parse_string s) (\<lambda>v rest. Inr (Some (cJSON_CreateString v, rest)))
          else if c = CHR ''-'' \<or> is_digit c then Inr (Some (parse_number s))
          else if c = CHR ''['' then
            (let v = json_skip r in
             if take 1 v = '']'' then Inr (Some (cJSON_CreateArray, drop 1 v))
             else parse_then (parse_elems n v)
               (\<lambda>cs rest. if take 1 rest = '']''
                 then Inr (Some (CJSON cJSON_Array None 0 (Dec False 0 0) None cs, drop 1 rest)) else Inr None))
          else if c = CHR ''{'' then
            (let v = json_skip r in
             if take 1 v = ''}'' then Inr (Some (cJSON_CreateObject, drop 1 v))
             else parse_then (parse_members n v)
               (\<lambda>cs rest. if take 1 rest = ''}''
                 then Inr (Some (CJSON cJSON_Object None 0 (Dec False 0 0) None cs, drop 1 rest)) else Inr None))
          else Inr None))"
| "parse_elems 0 s = Inl Endless_Loop"
| "parse_elems (Suc n) s =
    parse_then (parse_value n (json_skip s))
      (\<lambda>c rest. let rest = json_skip rest in
         if take 1 rest = '',''
         then parse_then (parse_elems n (drop 1 rest)) (\<lambda>cs rest. Inr (Some (c # cs, rest)))
         else Inr (Some ([c], rest)))"
| "parse_members 0 s = Inl Endless_Loop"
| "parse_members (Suc n) s =
    parse_then (parse_string (json_skip s))
      (\<lambda>key rest. let rest = json_skip rest in
         if take 1 rest \<noteq> '':'' then Inr None
         else parse_then (parse_value n (json_skip (drop 1 rest)))
           (\<lambda>c rest. let c = set_item_string key c; rest = json_skip rest in
              if take 1 rest = '',''
              then parse_then (parse_members n (drop 1 rest)) (\<lambda>cs rest. Inr (Some (c # cs, rest)))
              else Inr (Some ([c], rest))))"

definition cJSON_ParseWithOpts :: "string \<Rightarrow> bool \<Rightarrow> c_fault + cJSON option" where
  "cJSON_ParseWithOpts s require_null_terminated =
    (case parse_value (2 * length s + 2) (json_skip s) of
       Inl e \<Rightarrow> Inl e
     | Inr None \<Rightarrow> Inr None
     | Inr (Some (c, end)) \<Rightarrow>
         if require_null_terminated \<and> json_skip end \<noteq> [] then Inr None else Inr (Some c))"

definition cJSON_Parse :: "string \<Rightarrow> c_fault + cJSON option" where
  "cJSON_Parse s = cJSON_ParseWithOpts s False"

section \<open>The parser returns\<close>

lemma parse_then_Some:
  "parse_then p f = Inr (Some x) \<longleftrightarrow> (\<exists>a r. p = Inr (Some (a, r)) \<and> f a r = Inr (Some x))"
  by (auto simp: parse_then_def split: sum.splits option.splits)

lemma parse_then_Inl:
  "parse_then p f = Inl e \<longleftrightarrow> p = Inl e \<or> (\<exists>a r. p = Inr (Some (a, r)) \<and> f a r = Inl e)"
  by (auto simp: parse_then_def split: sum.splits option.splits)

lemma json_skip_length: "length (json_skip s) \<le> length s"
  by (simp add: json_skip_def length_dropWhile_le)

lemma string_body_rest: "string_body nest s = Some (w, r) \<Longrightarrow> length r \<le> length s"
proof (induction nest s arbitrary: w r rule: string_body.induct)
  case (1 nest)
  then show ?case by simp
next
  case (2 nest c s)
  let ?nest = "if c = CHR ''{'' then nest + 1 else if c = CHR ''}'' then nest - 1 else nest"
  show ?case
  proof (cases "c = QUOTE \<and> nest = 0")
    case True
    with "2.prems" show ?thesis by auto
  next
    case quote: False
    show ?thesis
    proof (cases "c = BACKSLASH")
      case False
      with quote "2.prems" obtain w' where "string_body ?nest s = Some (w', r)"
        by (auto simp: Let_def split: option.splits prod.splits if_splits)
      with "2.IH"(1) [OF quote refl False] show ?thesis by fastforce
    next
      case True
      with quote "2.prems" obtain w1 s' w' where u: "unescape s = Some (w1, s')"
        and b: "string_body ?nest s' = Some (w', r)"
        by (auto simp: Let_def split: option.splits prod.splits if_splits)
      from True have "\<not> c \<noteq> BACKSLASH" by simp
      from "2.IH"(2) [OF quote refl this u refl b] unescape_shorter [OF u] show ?thesis by simp
    qed
  qed
qed

lemma parse_string_rest: "parse_string s = Inr (Some (v, r)) \<Longrightarrow> length r < length s"
  by (auto simp: parse_string_def dest: string_body_rest split: list.splits if_splits option.splits prod.splits)

lemma parse_string_no_loop: "parse_string s \<noteq> Inl Endless_Loop"
  by (auto simp: parse_string_def split: list.splits option.splits)

lemma scan_nat_rest: "scan_nat a s = (n, r) \<Longrightarrow> length r \<le> length s"
  by (induction s arbitrary: a) (auto split: if_splits intro: le_SucI)

lemma number_rest:
  "number_sign s = (sg, r) \<Longrightarrow> length r \<le> length s"
  "number_int s = (m, r) \<Longrightarrow> length r \<le> length s"
  "number_frac m s = (m', sc, r) \<Longrightarrow> length r \<le> length s"
  "number_exp s = (e, r) \<Longrightarrow> length r \<le> length s"
  subgoal by (auto simp: number_sign_def split: list.splits if_splits)
  subgoal by (auto simp: number_int_def Let_def split: list.splits if_splits dest: scan_nat_rest)
  subgoal by (auto simp: number_frac_def Let_def simp del: scan_nat.simps split: list.splits if_splits prod.splits dest!: scan_nat_rest)
  subgoal by (auto simp: number_exp_def Let_def split: list.splits if_splits prod.splits dest!: scan_nat_rest)
  done

lemma parse_number_rest: "parse_number s = (c, r) \<Longrightarrow> length r \<le> length s"
  unfolding parse_number_def Let_def
  by (auto split: prod.splits dest!: number_rest)

text \<open>What follows the three words, by the first character.\<close>

definition parse_punct :: "nat \<Rightarrow> char \<Rightarrow> string \<Rightarrow> string \<Rightarrow> cJSON parsed" where
  "parse_punct n c r s =
    (if c = QUOTE then parse_then (parse_string s) (\<lambda>v rest. Inr (Some (cJSON_CreateString v, rest)))
     else if c = CHR ''-'' \<or> is_digit c then Inr (Some (parse_number s))
     else if c = CHR ''['' then
       (let v = json_skip r in
        if take 1 v = '']'' then Inr (Some (cJSON_CreateArray, drop 1 v))
        else parse_then (parse_elems n v)
          (\<lambda>cs rest. if take 1 rest = '']''
            then Inr (Some (CJSON cJSON_Array None 0 (Dec False 0 0) None cs, drop 1 rest)) else Inr None))
     else if c = CHR ''{'' then
       (let v = json_skip r in
        if take 1 v = ''}'' then Inr (Some (cJSON_CreateObject, drop 1 v))
        else parse_then (parse_members n v)
          (\<lambda>cs rest. if take 1 rest = ''}''
            then Inr (Some (CJSON cJSON_Object None 0 (Dec False 0 0) None cs, drop 1 rest)) else Inr None))
     else Inr None)"

lemma parse_value_words:
  assumes "take 4 s = ''null'' \<or> take 5 s = ''false'' \<or> take 4 s = ''true''"
  shows "\<exists>c k. parse_value (Suc n) s = Inr (Some (c, drop k s))"
proof (cases "take 4 s = ''null''")
  case True
  show ?thesis unfolding parse_value.simps(2) if_P [OF True] by blast
next
  case null: False
  show ?thesis
  proof (cases "take 5 s = ''false''")
    case True
    show ?thesis unfolding parse_value.simps(2) if_not_P [OF null] if_P [OF True] by blast
  next
    case False
    with assms null have true: "take 4 s = ''true''" by blast
    show ?thesis
      unfolding parse_value.simps(2) if_not_P [OF null] if_not_P [OF False] if_P [OF true] by blast
  qed
qed

lemma parse_value_punct:
  assumes "take 4 s \<noteq> ''null''" "take 5 s \<noteq> ''false''" "take 4 s \<noteq> ''true''"
  shows "parse_value (Suc n) s = (case s of [] \<Rightarrow> Inr None | c # r \<Rightarrow> parse_punct n c r s)"
  unfolding parse_value.simps(2) parse_punct_def if_not_P [OF assms(1)] if_not_P [OF assms(2)]
    if_not_P [OF assms(3)] ..

text \<open>The ways a value can be read, and the ways reading it can run out of fuel.\<close>

lemma parse_value_Some:
  assumes "parse_value (Suc n) s = Inr (Some (c, r))"
  obtains (word) k where "r = drop k s"
    | (string) v where "parse_string s = Inr (Some (v, r))"
    | (number) "parse_number s = (c, r)"
    | (empty) x t where "s = x # t" "r = drop 1 (json_skip t)"
    | (array) x t cs rest where "s = x # t" "parse_elems n (json_skip t) = Inr (Some (cs, rest))" "r = drop 1 rest"
    | (object) x t cs rest where "s = x # t" "parse_members n (json_skip t) = Inr (Some (cs, rest))" "r = drop 1 rest"
proof (cases "take 4 s = ''null'' \<or> take 5 s = ''false'' \<or> take 4 s = ''true''")
  case True
  from parse_value_words [OF this, of n] assms word show ?thesis by auto
next
  case False
  then have "parse_value (Suc n) s = (case s of [] \<Rightarrow> Inr None | c # r \<Rightarrow> parse_punct n c r s)"
    by (intro parse_value_punct) blast+
  with assms obtain x t where s: "s = x # t" and p: "parse_punct n x t s = Inr (Some (c, r))"
    by (cases s) auto
  from p s that(2-) show ?thesis
    unfolding parse_punct_def Let_def parse_then_Some
    by (auto simp del: parse_elems.simps parse_members.simps simp: parse_then_Some split: if_splits)
qed

lemma parse_value_Inl:
  assumes "parse_value (Suc n) s = Inl Endless_Loop"
  obtains (array) x t where "s = x # t" "parse_elems n (json_skip t) = Inl Endless_Loop"
    | (object) x t where "s = x # t" "parse_members n (json_skip t) = Inl Endless_Loop"
proof (cases "take 4 s = ''null'' \<or> take 5 s = ''false'' \<or> take 4 s = ''true''")
  case True
  from parse_value_words [OF this, of n] assms show ?thesis by auto
next
  case False
  then have "parse_value (Suc n) s = (case s of [] \<Rightarrow> Inr None | c # r \<Rightarrow> parse_punct n c r s)"
    by (intro parse_value_punct) blast+
  with assms obtain x t where s: "s = x # t" and p: "parse_punct n x t s = Inl Endless_Loop"
    by (cases s) auto
  from p s that parse_string_no_loop [of s] show ?thesis
    unfolding parse_punct_def Let_def parse_then_Inl
    by (auto simp del: parse_elems.simps parse_members.simps simp: parse_then_Inl split: if_splits)
qed

lemma parse_rest:
  "parse_value n s = Inr (Some (c, r)) \<Longrightarrow> length r \<le> length s"
  "parse_elems n s = Inr (Some (cs, r)) \<Longrightarrow> length r \<le> length s"
  "parse_members n s = Inr (Some (cs, r)) \<Longrightarrow> length r \<le> length s"
proof (induction n arbitrary: s c r cs)
  case (Suc n)
  note skip = json_skip_length
  { case 1
    then show ?case
    proof (cases rule: parse_value_Some)
      case (empty x t)
      with skip [of t] show ?thesis by simp
    next
      case (array x t cs rest)
      with skip [of t] Suc.IH(2) [OF array(2)] show ?thesis by simp
    next
      case (object x t cs rest)
      with skip [of t] Suc.IH(3) [OF object(2)] show ?thesis by simp
    qed (auto dest: parse_string_rest parse_number_rest)
  next
    case 2
    then obtain c r1 where v: "parse_value n (json_skip s) = Inr (Some (c, r1))"
      and rest: "r = json_skip r1 \<or> (\<exists>cs'. parse_elems n (drop 1 (json_skip r1)) = Inr (Some (cs', r)))"
      by (auto simp: parse_then_Some Let_def split: if_splits)
    have "length r \<le> length r1"
      using rest Suc.IH(2) [of "drop 1 (json_skip r1)"] skip [of r1] by fastforce
    with Suc.IH(1) [OF v] skip [of s] show ?case by simp
  next
    case 3
    then obtain k r0 c r1 where k: "parse_string (json_skip s) = Inr (Some (k, r0))"
      and v: "parse_value n (json_skip (drop 1 (json_skip r0))) = Inr (Some (c, r1))"
      and rest: "r = json_skip r1 \<or> (\<exists>cs'. parse_members n (drop 1 (json_skip r1)) = Inr (Some (cs', r)))"
      by (auto simp: parse_then_Some Let_def split: if_splits)
    have "length r \<le> length r1"
      using rest Suc.IH(3) [of "drop 1 (json_skip r1)"] skip [of r1] by fastforce
    moreover have "length r1 \<le> length r0"
      using Suc.IH(1) [OF v] skip [of "drop 1 (json_skip r0)"] skip [of r0] by simp
    moreover have "length r0 \<le> length s"
      using parse_string_rest [OF k] skip [of s] by simp
    ultimately show ?case by simp
  }
qed simp_all

text \<open>Two units of fuel per character are enough.\<close>

lemma parse_fuel:
  "2 * length s < n \<Longrightarrow> parse_value n s \<noteq> Inl Endless_Loop"
  "2 * length s + 1 < n \<Longrightarrow> parse_elems n s \<noteq> Inl Endless_Loop"
  "2 * length s + 1 < n \<Longrightarrow> parse_members n s \<noteq> Inl Endless_Loop"
proof (induction n arbitrary: s)
  case (Suc n)
  note skip = json_skip_length
  { case 1
    show ?case
    proof
      assume "parse_value (Suc n) s = Inl Endless_Loop"
      then show False
      proof (cases rule: parse_value_Inl)
        case (array x t)
        with 1 Suc.IH(2) [of "json_skip t"] skip [of t] show False by simp
      next
        case (object x t)
        with 1 Suc.IH(3) [of "json_skip t"] skip [of t] show False by simp
      qed
    qed
  next
    case 2
    show ?case
    proof
      assume "parse_elems (Suc n) s = Inl Endless_Loop"
      then consider "parse_value n (json_skip s) = Inl Endless_Loop"
        | c r1 where "parse_value n (json_skip s) = Inr (Some (c, r1))" "take 1 (json_skip r1) = '',''"
          "parse_elems n (drop 1 (json_skip r1)) = Inl Endless_Loop"
        by (auto simp: parse_then_Inl Let_def split: if_splits)
      then show False
      proof cases
        case 1
        with 2 Suc.IH(1) [of "json_skip s"] skip [of s] show False by simp
      next
        case (2 c r1)
        with parse_rest(1) [OF 2(1)] skip [of s] skip [of r1]
        have "length (json_skip r1) \<le> length s" "0 < length (json_skip r1)" by auto
        then have "2 * length (drop 1 (json_skip r1)) + 1 < n"
          using \<open>2 * length s + 1 < Suc n\<close> unfolding length_drop by linarith
        with 2(3) Suc.IH(2) show False by blast
      qed
    qed
  next
    case 3
    show ?case
    proof
      assume "parse_members (Suc n) s = Inl Endless_Loop"
      then obtain k r0 where k: "parse_string (json_skip s) = Inr (Some (k, r0))"
        and *: "parse_value n (json_skip (drop 1 (json_skip r0))) = Inl Endless_Loop
          \<or> (\<exists>c r1. parse_value n (json_skip (drop 1 (json_skip r0))) = Inr (Some (c, r1)) \<and>
                parse_members n (drop 1 (json_skip r1)) = Inl Endless_Loop)"
        using parse_string_no_loop by (auto simp: parse_then_Inl Let_def split: if_splits)
      have r0: "length r0 < length s" using parse_string_rest [OF k] skip [of s] by simp
      have v: "length (json_skip (drop 1 (json_skip r0))) \<le> length r0"
        using skip [of "drop 1 (json_skip r0)"] skip [of r0] by simp
      with 3 r0 have "parse_value n (json_skip (drop 1 (json_skip r0))) \<noteq> Inl Endless_Loop"
        by (intro Suc.IH(1)) simp
      with * obtain c r1 where pv: "parse_value n (json_skip (drop 1 (json_skip r0))) = Inr (Some (c, r1))"
        and pm: "parse_members n (drop 1 (json_skip r1)) = Inl Endless_Loop" by blast
      have "length (drop 1 (json_skip r1)) \<le> length r0"
        using parse_rest(1) [OF pv] v skip [of r1] by simp
      with 3 r0 pm Suc.IH(3) [of "drop 1 (json_skip r1)"] show False by simp
    qed
  }
qed simp_all

text \<open>Property C32. Parsing always comes to an end: for every text, \<open>cJSON_Parse\<close> returns a tree or a null
  pointer, or makes an access out of bounds; it never runs on.\<close>

theorem cJSON_Parse_returns: "cJSON_Parse s \<noteq> Inl Endless_Loop"
proof -
  have "parse_value (2 * length s + 2) (json_skip s) \<noteq> Inl Endless_Loop"
    using json_skip_length [of s] by (intro parse_fuel(1)) simp
  then show ?thesis
    by (auto simp: cJSON_Parse_def cJSON_ParseWithOpts_def split: sum.split option.split)
qed

section \<open>Strings: printing, reading back, and the brace counter\<close>

definition json_plain :: "string \<Rightarrow> bool" where
  "json_plain s \<longleftrightarrow> (\<forall>c \<in> set s. c \<noteq> CHR 0x00 \<and> c \<noteq> CHR ''{'' \<and> c \<noteq> CHR ''}'')"

text \<open>The fast path of \<open>print_string_ptr\<close> prints what the escaping loop would.\<close>

lemma print_string_ptr_escape: "print_string_ptr s = QUOTE # concat (map escape_char s) @ [QUOTE]"
proof (cases "list_ex needs_escape s")
  case False
  then have "concat (map escape_char s) = s"
    by (induction s) (auto simp: escape_char_def)
  with False show ?thesis by (simp add: print_string_ptr_def)
qed (simp add: print_string_ptr_def)

lemma hex4_hex_char: "n < 16 \<Longrightarrow> hex4_digit (hex_char n) = Some n"
  by (auto simp: hex4_digit_def hex_char_def Let_def)

lemma parse_hex4_sprintf:
  assumes "n < 65536"
  shows "parse_hex4 (sprintf_04x n @ more) = n"
proof -
  define a b c where "a = n div 16" and "b = a div 16" and "c = b div 16"
  have eqs: "n div 256 = b" "n div 4096 = c" "n div 16 = a" "c mod 16 = c"
    using assms by (simp_all add: a_def b_def c_def div_mult2_eq [symmetric])
  have "parse_hex4 (sprintf_04x n @ more) =
    ((n div 4096 mod 16 * 16 + n div 256 mod 16) * 16 + n div 16 mod 16) * 16 + n mod 16"
    by (simp add: parse_hex4_def sprintf_04x_def hex4_hex_char)
  also have "\<dots> = ((c * 16 + b mod 16) * 16 + a mod 16) * 16 + n mod 16" unfolding eqs ..
  also have "c * 16 + b mod 16 = b" by (simp add: c_def)
  also have "b * 16 + a mod 16 = a" by (simp add: b_def)
  also have "a * 16 + n mod 16 = n" by (simp add: a_def)
  finally show ?thesis .
qed

lemma of_char_inj: "(of_char c :: nat) = of_char d \<Longrightarrow> c = d"
  by (metis char_of_char)

lemma of_char_zero: "c \<noteq> CHR 0x00 \<Longrightarrow> (of_char c :: nat) \<noteq> 0"
  using of_char_inj [of c "CHR 0x00"] by auto

text \<open>Every escape sequence the printer writes is read back as the character it stands for.\<close>

lemma unescape_escape:
  assumes "needs_escape c" and "c \<noteq> CHR 0x00"
  obtains e where "escape_char c = BACKSLASH # e" "unescape (e @ more) = Some ([c], more)"
proof -
  let ?n = "of_char c :: nat"
  consider "c = BACKSLASH" | "c = QUOTE" | "?n = 8" | "?n = 12" | "?n = 10" | "?n = 13" | "?n = 9"
    | "?n < 32" "?n \<notin> {8, 9, 10, 12, 13}" "c \<noteq> BACKSLASH" "c \<noteq> QUOTE"
    using assms(1) by (auto simp: needs_escape_def)
  then show ?thesis
  proof cases
    case 8
    have esc: "escape_char c = BACKSLASH # CHR ''u'' # sprintf_04x ?n"
      using 8 assms(1) by (simp add: escape_char_def Let_def)
    have hex: "parse_hex4 (sprintf_04x ?n @ more) = ?n" using 8 by (intro parse_hex4_sprintf) simp
    have adv: "advance 4 (sprintf_04x ?n @ more) = Some more"
      by (simp add: advance_def sprintf_04x_def)
    have "unescape ((CHR ''u'' # sprintf_04x ?n) @ more) = Some ([c], more)"
      using 8 of_char_zero [OF assms(2)] by (simp add: unescape_def Let_def hex adv utf8_def)
    with esc that show ?thesis by blast
  next
    case 3
    then have "c = CHR 0x08" using of_char_inj [of c "CHR 0x08"] by simp
    with that show ?thesis by (auto simp: escape_char_def needs_escape_def unescape_def)
  next
    case 4
    then have "c = CHR 0x0C" using of_char_inj [of c "CHR 0x0C"] by simp
    with that show ?thesis by (auto simp: escape_char_def needs_escape_def unescape_def)
  next
    case 5
    then have "c = CHR 0x0A" using of_char_inj [of c "CHR 0x0A"] by simp
    with that show ?thesis by (auto simp: escape_char_def needs_escape_def unescape_def)
  next
    case 6
    then have "c = CHR 0x0D" using of_char_inj [of c "CHR 0x0D"] by simp
    with that show ?thesis by (auto simp: escape_char_def needs_escape_def unescape_def)
  next
    case 7
    then have "c = CHR 0x09" using of_char_inj [of c "CHR 0x09"] by simp
    with that show ?thesis by (auto simp: escape_char_def needs_escape_def unescape_def)
  qed (use that in \<open>auto simp: escape_char_def needs_escape_def unescape_def\<close>)
qed

lemma string_body_escape:
  "json_plain s \<Longrightarrow> string_body 0 (concat (map escape_char s) @ QUOTE # rest) = Some (s, QUOTE # rest)"
proof (induction s)
  case Nil
  then show ?case by simp
next
  case (Cons c s)
  then have IH: "string_body 0 (concat (map escape_char s) @ QUOTE # rest) = Some (s, QUOTE # rest)"
    and c: "c \<noteq> CHR 0x00" "c \<noteq> CHR ''{''" "c \<noteq> CHR ''}''" by (auto simp: json_plain_def)
  show ?case
  proof (cases "needs_escape c")
    case True
    obtain e where "escape_char c = BACKSLASH # e"
      "unescape (e @ concat (map escape_char s) @ QUOTE # rest) = Some ([c], concat (map escape_char s) @ QUOTE # rest)"
      using unescape_escape [OF True c(1)] by blast
    with IH show ?thesis by simp
  next
    case False
    then have "escape_char c = [c]" "c \<noteq> QUOTE" "c \<noteq> BACKSLASH" by (auto simp: escape_char_def needs_escape_def)
    with IH c show ?thesis by simp
  qed
qed

lemma hex_char_safe: "n < 16 \<Longrightarrow> hex_char n \<noteq> QUOTE \<and> hex_char n \<noteq> BACKSLASH"
proof -
  assume n: "n < 16"
  then have "(of_char (hex_char n) :: nat) \<noteq> 34 \<and> (of_char (hex_char n) :: nat) \<noteq> 92"
    by (auto simp: hex_char_def)
  then show ?thesis by auto
qed

text \<open>The block the first loop sizes is large enough for what an escape sequence writes.\<close>

lemma string_len_escape:
  assumes "string_len t = Some k" and "c \<noteq> CHR 0x00"
  shows "\<exists>k'. string_len (escape_char c @ t) = Some k' \<and> k < k'"
proof (cases "needs_escape c")
  case False
  then have "escape_char c = [c]" "c \<noteq> QUOTE" "c \<noteq> BACKSLASH" by (auto simp: escape_char_def needs_escape_def)
  with assms(1) show ?thesis by simp
next
  case True
  have hex: "string_len (sprintf_04x m @ t) = Some (k + 4)" for m
    using assms(1) by (simp add: sprintf_04x_def hex_char_safe)
  from True show ?thesis
    using assms(1) hex by (auto simp: escape_char_def Let_def)
qed

lemma string_len_escapes:
  "json_plain s \<Longrightarrow> \<exists>k. string_len (concat (map escape_char s) @ QUOTE # rest) = Some k \<and> length s \<le> k"
proof (induction s)
  case Nil
  then show ?case by simp
next
  case (Cons c s)
  then obtain k where k: "string_len (concat (map escape_char s) @ QUOTE # rest) = Some k" "length s \<le> k"
    by (auto simp: json_plain_def)
  have "c \<noteq> CHR 0x00" using Cons.prems by (simp add: json_plain_def)
  with string_len_escape [OF k(1)] k(2) show ?case by fastforce
qed

lemma parse_string_print:
  assumes "json_plain s"
  shows "parse_string (print_string_ptr s @ rest) = Inr (Some (s, rest))"
proof -
  obtain k where "string_len (concat (map escape_char s) @ QUOTE # rest) = Some k" "length s \<le> k"
    using string_len_escapes [OF assms] by blast
  then show ?thesis
    using string_body_escape [OF assms, of rest]
    by (simp add: print_string_ptr_escape parse_string_def)
qed

text \<open>A string with an opening brace: the closing quote does not end it, and the loop writes on past
  the block.\<close>

lemma string_body_nested_length:
  "nest \<noteq> 0 \<Longrightarrow> string_body nest (QUOTE # s) = Some (w, r) \<Longrightarrow> w \<noteq> []"
  by (auto split: option.splits)

lemma string_len_plain:
  "(\<And>c. c \<in> set pre \<Longrightarrow> c \<noteq> QUOTE \<and> c \<noteq> BACKSLASH) \<Longrightarrow> string_len (pre @ QUOTE # s) = Some (length pre)"
  by (induction pre) auto

lemma string_body_plain:
  assumes "\<And>c. c \<in> set pre \<Longrightarrow> c \<noteq> QUOTE \<and> c \<noteq> BACKSLASH \<and> c \<noteq> CHR ''{'' \<and> c \<noteq> CHR ''}''"
  shows "string_body nest (pre @ s) = map_option (\<lambda>(w, r). (pre @ w, r)) (string_body nest s)"
  using assms by (induction pre) (auto simp: option.map_comp comp_def option.map_id case_prod_beta split: option.split)

text \<open>Property C39. The brace counter of \<open>parse_string\<close> breaks its memory bound: for a literal that contains
  an opening brace before its closing quote, the block is sized for the text up to the quote but the
  copy continues behind it, out of the block.\<close>

theorem parse_string_brace_overflow:
  assumes "\<And>c. c \<in> set pre \<Longrightarrow> c \<noteq> QUOTE \<and> c \<noteq> BACKSLASH \<and> c \<noteq> CHR ''{'' \<and> c \<noteq> CHR ''}''"
  shows "parse_string (QUOTE # pre @ CHR ''{'' # QUOTE # rest) = Inl Out_Of_Bounds"
proof -
  have len: "string_len ((pre @ ''{'') @ QUOTE # rest) = Some (length (pre @ ''{''))"
    using assms by (intro string_len_plain) auto
  have body: "string_body 0 (pre @ CHR ''{'' # QUOTE # rest) =
    map_option (\<lambda>(w, r). (pre @ CHR ''{'' # w, r)) (string_body 1 (QUOTE # rest))"
    using string_body_plain [OF assms, where nest = 0 and s = "CHR ''{'' # QUOTE # rest"]
    by (auto simp: option.map_comp comp_def split: option.split simp del: string_body.simps(2) simp add: string_body.simps(2) [of 0 "CHR ''{''"])
  show ?thesis
  proof (cases "string_body 1 (QUOTE # rest)")
    case None
    with len body show ?thesis by (simp add: parse_string_def)
  next
    case (Some wr)
    obtain w r where wr: "wr = (w, r)" by (cases wr)
    with Some have "w \<noteq> []" using string_body_nested_length [of 1 rest w r] by simp
    with Some wr len body show ?thesis by (simp add: parse_string_def del: string_body.simps)
  qed
qed

theorem parse_string_brace_overflow_witness:
  "parse_string (QUOTE # ''a'' @ CHR ''{'' # QUOTE # ''}'') = Inl Out_Of_Bounds"
  by (rule parse_string_brace_overflow) auto

section \<open>Values: printing and reading back\<close>

text \<open>The trees the constructors build, with numbers in the range of an \<open>int\<close> and strings without
  braces.\<close>

fun json_ok :: "cJSON \<Rightarrow> bool" where
  "json_ok (CJSON t vs vi vd k cs) =
    (if t = cJSON_NULL \<or> t = cJSON_False then vs = None \<and> vi = 0 \<and> vd = Dec False 0 0 \<and> cs = []
     else if t = cJSON_Number then vs = None \<and> cs = [] \<and> clamp32 vi = vi \<and> vd = Dec (vi < 0) (nat \<bar>vi\<bar>) 0
     else if t = cJSON_String then
       (case vs of None \<Rightarrow> False | Some s \<Rightarrow> json_plain s) \<and> vi = 0 \<and> vd = Dec False 0 0 \<and> cs = []
     else if t = cJSON_Array then vs = None \<and> vi = 0 \<and> vd = Dec False 0 0 \<and>
       (\<forall>c \<in> set cs. json_ok c \<and> item_string c = None)
     else if t = cJSON_Object then vs = None \<and> vi = 0 \<and> vd = Dec False 0 0 \<and>
       (\<forall>c \<in> set cs. json_ok c \<and> (case item_string c of None \<Rightarrow> False | Some key \<Rightarrow> json_plain key))
     else False)"

definition nameless :: "cJSON \<Rightarrow> cJSON" where
  "nameless c = (case c of CJSON t s i d _ cs \<Rightarrow> CJSON t s i d None cs)"

definition json_end :: "string \<Rightarrow> bool" where
  "json_end rest \<longleftrightarrow> (case rest of [] \<Rightarrow> True | c # _ \<Rightarrow> c \<in> {CHR '','', CHR '']'', CHR ''}''})"

definition json_start :: "string \<Rightarrow> bool" where
  "json_start p \<longleftrightarrow> (case p of [] \<Rightarrow> False | c # _ \<Rightarrow> 32 < (of_char c :: nat) \<and> c \<noteq> CHR '']'' \<and> c \<noteq> CHR ''}'')"

text \<open>\<open>reads c\<close>: whatever follows, the printed text of \<open>c\<close> is read as \<open>c\<close>.\<close>

definition reads :: "cJSON \<Rightarrow> bool" where
  "reads c \<longleftrightarrow> (\<forall>d p n rest. print_value c d False = Some p \<longrightarrow> json_start p \<and>
     (json_end rest \<longrightarrow> 2 * length p < n \<longrightarrow> parse_value n (p @ rest) = Inr (Some (nameless c, rest))))"

lemma readsD:
  assumes "reads c" "print_value c d False = Some p"
  shows "json_start p" and "json_end rest \<Longrightarrow> 2 * length p < n \<Longrightarrow> parse_value n (p @ rest) = Inr (Some (nameless c, rest))"
  using assms unfolding reads_def by blast+

lemma json_skip_start [simp]: "json_start p \<Longrightarrow> json_skip (p @ rest) = p @ rest"
  by (cases p) (auto simp: json_start_def json_skip_def)

lemma json_skip_end [simp]: "json_end rest \<Longrightarrow> json_skip rest = rest"
  by (cases rest) (auto simp: json_end_def json_skip_def)

lemma nameless_named: "item_string c = Some k \<Longrightarrow> set_item_string k (nameless c) = c"
  "item_string c = None \<Longrightarrow> nameless c = c"
  by (cases c; simp add: nameless_def set_item_string_def)+

lemma all_some_map: "all_some (map Some ys) = Some ys"
  by (induction ys) auto

lemma all_some_iff: "all_some xs = Some ys \<longleftrightarrow> xs = map Some ys"
proof
  assume "all_some xs = Some ys"
  then show "xs = map Some ys"
    by (induction xs arbitrary: ys rule: all_some.induct) (auto split: option.splits)
qed (simp add: all_some_map)

lemma json_end_Cons [simp]:
  "json_end (CHR '']'' # r)" "json_end (CHR ''}'' # r)" "json_end (CHR '','' # r)" "json_end []"
  by (simp_all add: json_end_def)

lemma print_string_ptr_start: "json_start (print_string_ptr s)"
  by (simp add: print_string_ptr_escape json_start_def)

lemma parse_then_Inr [simp]: "parse_then (Inr (Some (a, r))) f = f a r"
  by (simp add: parse_then_def)

lemma parse_elems_print:
  assumes "\<And>c. c \<in> set cs \<Longrightarrow> reads c \<and> item_string c = None" and "cs \<noteq> []"
    and "map (\<lambda>c. print_value c d False) cs = map Some ps"
    and "2 * length (join_array False ps) + 1 < n"
  shows "parse_elems n (join_array False ps @ CHR '']'' # rest) = Inr (Some (cs, CHR '']'' # rest))"
  using assms
proof (induction cs arbitrary: ps n)
  case Nil
  then show ?case by simp
next
  case (Cons c cs)
  then obtain p ps' where ps: "ps = p # ps'" and p: "print_value c d False = Some p"
    and ps': "map (\<lambda>c. print_value c d False) cs = map Some ps'" by (cases ps) auto
  obtain m where n: "n = Suc m" using Cons.prems(4) by (cases n) auto
  have c: "reads c" "nameless c = c" using Cons.prems(1) nameless_named(2) by auto
  note start = readsD(1) [OF c(1) p] and read = readsD(2) [OF c(1) p, unfolded c(2)]
  show ?case
  proof (cases "cs = []")
    case True
    with ps' ps have "ps = [p]" by simp
    then show ?thesis
      using Cons.prems(4) start read [of "CHR '']'' # rest" m] True by (simp add: n)
  next
    case False
    then have j: "join_array False ps = p @ CHR '','' # join_array False ps'"
      using ps' ps by (cases ps') auto
    have IH: "parse_elems m (join_array False ps' @ CHR '']'' # rest) = Inr (Some (cs, CHR '']'' # rest))"
      using Cons.IH [OF _ False ps'] Cons.prems(1,4) by (simp add: j n)
    show ?thesis
      using Cons.prems(4) start IH
        read [of "CHR '','' # join_array False ps' @ CHR '']'' # rest" m]
      by (simp add: n j)
  qed
qed

lemma parse_members_print:
  assumes "\<And>c. c \<in> set cs \<Longrightarrow> reads c \<and> (\<exists>k. item_string c = Some k \<and> json_plain k)" and "cs \<noteq> []"
    and "map item_string cs = map Some ks"
    and "map (\<lambda>c. print_value c d False) cs = map Some ps"
    and "2 * length (join_object False e (zip (map print_string_ptr ks) ps)) + 1 < n"
  shows "parse_members n (join_object False e (zip (map print_string_ptr ks) ps) @ CHR ''}'' # rest) =
    Inr (Some (cs, CHR ''}'' # rest))"
  using assms
proof (induction cs arbitrary: ks ps n)
  case Nil
  then show ?case by simp
next
  case (Cons c cs)
  then obtain p ps' where ps: "ps = p # ps'" and p: "print_value c d False = Some p"
    and ps': "map (\<lambda>c. print_value c d False) cs = map Some ps'" by (cases ps) auto
  from Cons.prems(3) obtain k ks' where ks: "ks = k # ks'" and k: "item_string c = Some k"
    and ks': "map item_string cs = map Some ks'" by (cases ks) auto
  obtain m where n: "n = Suc m" using Cons.prems(5) by (cases n) auto
  have c: "reads c" "set_item_string k (nameless c) = c" and kp: "json_plain k"
    using Cons.prems(1) [of c] nameless_named(1) [OF k] k by auto
  note start = readsD(1) [OF c(1) p] and read = readsD(2) [OF c(1) p]
    and key = parse_string_print [OF kp] and kstart = print_string_ptr_start [of k]
  let ?tl = "join_object False e (zip (map print_string_ptr ks') ps')"
  have colon: "json_skip (CHR '':'' # r) = CHR '':'' # r" for r by (simp add: json_skip_def)
  show ?case
  proof (cases "cs = []")
    case True
    with ps' ks' have "ps' = []" "ks' = []" by simp_all
    then show ?thesis
      using Cons.prems(5) start read [of "CHR ''}'' # rest" m] True key c(2) kstart
      by (simp add: n ps ks colon)
  next
    case False
    then have ne: "zip (map print_string_ptr ks') ps' \<noteq> []"
      using ps' ks' by (metis length_0_conv length_map list.map_disc_iff zip_eq_Nil_iff)
    have IH: "parse_members m (?tl @ CHR ''}'' # rest) = Inr (Some (cs, CHR ''}'' # rest))"
      using Cons.IH [OF _ False ks' ps'] Cons.prems(1,5) ne by (simp add: ps ks n)
    show ?thesis
      using Cons.prems(5) start IH key c(2) kstart ne
        read [of "CHR '','' # ?tl @ CHR ''}'' # rest" m]
      by (simp add: n ps ks colon)
  qed
qed

lemma dec_nat_hd: "0 < n \<Longrightarrow> hd (dec_nat n) \<noteq> CHR ''0''"
proof (induction n rule: dec_nat.induct)
  case (1 n)
  show ?case
  proof (cases "n < 10")
    case True
    then have "(of_char (digit_char n) :: nat) = 48 + n" by (simp add: digit_char_def)
    with "1.prems" True show ?thesis by (auto simp: dec_nat.simps [of n])
  next
    case False
    with "1.IH" show ?thesis by (simp add: dec_nat.simps [of n] hd_append)
  qed
qed

lemma json_end_no_digit: "json_end rest \<Longrightarrow> case rest of [] \<Rightarrow> True | c # _ \<Rightarrow> \<not> is_digit c"
  by (cases rest) (auto simp: json_end_def is_digit_def)

lemma number_tail [simp]:
  assumes "json_end rest"
  shows "number_frac n rest = (n, 0, rest)" "number_exp rest = (0, rest)"
  using assms by (auto simp: number_frac_def number_exp_def json_end_def split: list.split)

text \<open>The text of a positive number, as the printer writes it, is read as that number.\<close>

lemma parse_positive:
  assumes "json_end rest" "0 < m"
  shows "number_int (dec_nat m @ rest) = (m, rest)"
    and "number_sign (dec_nat m @ rest) = (False, dec_nat m @ rest)"
    and "\<exists>c r. dec_nat m = c # r \<and> is_digit c"
proof -
  obtain c r where cr: "dec_nat m = c # r" by (cases "dec_nat m") auto
  then have c: "is_digit c" "c \<noteq> CHR ''0''" using dec_nat_digits [of c m] dec_nat_hd [OF assms(2)] by auto
  then show "\<exists>c r. dec_nat m = c # r \<and> is_digit c" using cr by blast
  have "c \<noteq> CHR ''-''" using digit_no_space_sign [OF c(1)] by simp
  then show "number_sign (dec_nat m @ rest) = (False, dec_nat m @ rest)" by (simp add: cr number_sign_def)
  have "scan_nat 0 (dec_nat m @ rest) = (m, rest)" by (rule scan_dec_nat [OF json_end_no_digit [OF assms(1)]])
  then show "number_int (dec_nat m @ rest) = (m, rest)"
    using c by (simp add: cr number_int_def Let_def del: scan_nat.simps)
qed

lemma parse_number_print:
  assumes "clamp32 i = i" "json_end rest"
    and "p = (if i = 0 then ''0'' else sprintf_ld (word_of_int i))"
  shows "parse_number (p @ rest) = (CJSON cJSON_Number None i (Dec (i < 0) (nat \<bar>i\<bar>) 0) None [], rest)"
    and "\<exists>c r. p = c # r \<and> (c = CHR ''-'' \<or> is_digit c)"
proof -
  have s: "sint (word_of_int i :: u32) = i"
    using assms(1) unfolding signed_of_int
    by (auto simp: clamp32_def intro!: signed_take_bit_int_eq_self split: if_splits)
  have trunc: "clamp32 (dec_trunc (Dec (i < 0) (nat \<bar>i\<bar>) 0)) = i"
    using assms(1) by (simp add: dec_trunc_def Let_def)
  consider "i = 0" | "0 < i" | "i < 0" by linarith
  then have "parse_number (p @ rest) = (CJSON cJSON_Number None i (Dec (i < 0) (nat \<bar>i\<bar>) 0) None [], rest)
    \<and> (\<exists>c r. p = c # r \<and> (c = CHR ''-'' \<or> is_digit c))"
  proof cases
    case 1
    have "number_int (CHR ''0'' # rest) = (0, rest)"
      using json_end_no_digit [OF assms(2)] by (auto simp: number_int_def split: list.splits)
    with 1 assms(2,3) trunc show ?thesis
      by (simp add: parse_number_def number_sign_def is_digit_def)
  next
    case 2
    then have p: "p = dec_nat (nat i)" using assms(3) s by (simp add: sprintf_ld_def)
    from 2 have pos: "0 < nat i" by simp
    show ?thesis
      using 2 trunc parse_positive [OF assms(2) pos] assms(2) by (auto simp: p parse_number_def)
  next
    case 3
    then have p: "p = CHR ''-'' # dec_nat (nat (- i))" using assms(3) s by (simp add: sprintf_ld_def)
    from 3 have pos: "0 < nat (- i)" by simp
    show ?thesis
      using 3 trunc parse_positive [OF assms(2) pos] assms(2) by (auto simp: p parse_number_def number_sign_def)
  qed
  then show "parse_number (p @ rest) = (CJSON cJSON_Number None i (Dec (i < 0) (nat \<bar>i\<bar>) 0) None [], rest)"
    and "\<exists>c r. p = c # r \<and> (c = CHR ''-'' \<or> is_digit c)" by blast+
qed

lemma print_number_ok:
  assumes "clamp32 i = i"
  shows "print_number (CJSON t vs i (Dec (i < 0) (nat \<bar>i\<bar>) 0) k cs) =
    Some (if i = 0 then ''0'' else sprintf_ld (word_of_int i))"
  by (simp add: print_number_def dec_is_int_def)

lemma parse_value_start:
  assumes "s = c # r" "c \<noteq> CHR ''n''" "c \<noteq> CHR ''f''" "c \<noteq> CHR ''t''"
  shows "parse_value (Suc n) s = parse_punct n c r s"
  using assms parse_value_punct [of s n] by simp

lemma digit_start: "c = CHR ''-'' \<or> is_digit c \<Longrightarrow> c \<noteq> CHR ''n'' \<and> c \<noteq> CHR ''f'' \<and> c \<noteq> CHR ''t'' \<and>
    c \<noteq> QUOTE \<and> 32 < (of_char c :: nat) \<and> c \<noteq> CHR '']'' \<and> c \<noteq> CHR ''}''"
  by (auto simp: is_digit_def)

lemma reads_scalar:
  assumes "json_ok (CJSON t vs vi vd k cs)" "t = cJSON_NULL \<or> t = cJSON_False \<or> t = cJSON_Number \<or> t = cJSON_String"
  shows "reads (CJSON t vs vi vd k cs)"
  unfolding reads_def
proof (intro allI impI conjI)
  fix d p n rest
  assume p: "print_value (CJSON t vs vi vd k cs) d False = Some p"
  from assms consider (null) "t = 2" "vs = None" "vi = 0" "vd = Dec False 0 0" "cs = []"
    | (false) "t = 0" "vs = None" "vi = 0" "vd = Dec False 0 0" "cs = []"
    | (number) "t = 3" "vs = None" "cs = []" "clamp32 vi = vi" "vd = Dec (vi < 0) (nat \<bar>vi\<bar>) 0"
    | (string) s where "t = 4" "vs = Some s" "json_plain s" "vi = 0" "vd = Dec False 0 0" "cs = []"
    by (auto split: if_splits option.splits)
  then have "json_start p \<and> (json_end rest \<longrightarrow> 2 * length p < n \<longrightarrow>
    parse_value n (p @ rest) = Inr (Some (nameless (CJSON t vs vi vd k cs), rest)))"
  proof cases
    case null
    then have "p = ''null''" using p by simp
    with null show ?thesis
      by (cases n) (auto simp: json_start_def nameless_def cJSON_CreateNull_def)
  next
    case false
    then have "p = ''false''" using p by simp
    with false show ?thesis
      by (cases n) (auto simp: json_start_def nameless_def cJSON_CreateBool_def)
  next
    case number
    then have pn: "p = (if vi = 0 then ''0'' else sprintf_ld (word_of_int vi))"
      using p print_number_ok [of vi] by simp
    obtain c r where c: "p = c # r" "c = CHR ''-'' \<or> is_digit c"
      using parse_number_print(2) [OF number(4) json_end_Cons(4) pn] by blast
    note ds = digit_start [OF c(2)]
    have "parse_value n (p @ rest) = Inr (Some (nameless (CJSON t vs vi vd k cs), rest))"
      if e: "json_end rest" and n: "2 * length p < n"
    proof -
      obtain m where m: "n = Suc m" using n by (cases n) auto
      have "parse_value n (p @ rest) = parse_punct m c (r @ rest) (p @ rest)"
        unfolding m using c(1) ds by (intro parse_value_start) simp_all
      also have "\<dots> = Inr (Some (parse_number (p @ rest)))"
        using c(2) ds by (simp add: parse_punct_def)
      finally show ?thesis
        using parse_number_print(1) [OF number(4) e pn] number by (simp add: nameless_def)
    qed
    with c(1) ds show ?thesis by (simp add: json_start_def)
  next
    case (string s)
    then have ps: "p = print_string_ptr s" using p by simp
    have "parse_value n (p @ rest) = Inr (Some (nameless (CJSON t vs vi vd k cs), rest))" if n: "2 * length p < n"
    proof -
      obtain m where m: "n = Suc m" using n by (cases n) auto
      have "parse_value n (p @ rest) = parse_punct m QUOTE (tl p @ rest) (p @ rest)"
        unfolding m using ps by (intro parse_value_start) (simp_all add: print_string_ptr_escape)
      then show ?thesis
        using parse_string_print [OF string(3), of rest] string ps
        by (simp add: parse_punct_def nameless_def cJSON_CreateString_def)
    qed
    with ps print_string_ptr_start show ?thesis by simp
  qed
  then show "json_start p" and "json_end rest \<Longrightarrow> 2 * length p < n \<Longrightarrow>
    parse_value n (p @ rest) = Inr (Some (nameless (CJSON t vs vi vd k cs), rest))" by blast+
qed

lemma join_array_start: "json_start p \<Longrightarrow> json_start (join_array False (p # ps) @ r)"
  by (cases ps; cases p) (auto simp: json_start_def)

lemma join_object_start: "json_start (join_object False e (zip (map print_string_ptr (k # ks)) (p # ps)) @ r)"
  using print_string_ptr_start [of k] by (simp add: json_start_def print_string_ptr_escape)

lemma json_start_take: "json_start p \<Longrightarrow> take 1 p \<noteq> '']'' \<and> take 1 p \<noteq> ''}''"
  by (cases p) (auto simp: json_start_def)

lemma reads_array:
  assumes "\<And>c. c \<in> set cs \<Longrightarrow> reads c \<and> item_string c = None"
  shows "reads (CJSON cJSON_Array None 0 (Dec False 0 0) k cs)"
  unfolding reads_def
proof (intro allI impI conjI)
  fix d p n rest
  assume p: "print_value (CJSON 5 None 0 (Dec False 0 0) k cs) d False = Some p"
  then show "json_start p" by (auto simp: print_array_def json_start_def split: if_splits option.splits)
  assume n: "2 * length p < n"
  then obtain m where m: "n = Suc m" by (cases n) auto
  have punct: "parse_value n (p @ rest) = parse_punct m (CHR ''['') (tl p @ rest) (p @ rest)"
    unfolding m using p by (intro parse_value_start) (auto simp: print_array_def split: if_splits option.splits)
  show "parse_value n (p @ rest) = Inr (Some (nameless (CJSON 5 None 0 (Dec False 0 0) k cs), rest))"
  proof (cases "cs = []")
    case True
    then have "p = ''[]''" using p by (simp add: print_array_def)
    with True punct show ?thesis
      by (simp add: parse_punct_def json_skip_def nameless_def cJSON_CreateArray_def is_digit_def)
  next
    case False
    with p obtain ps where ps: "map (\<lambda>c. print_value c (d + 1) False) cs = map Some ps"
      and pj: "p = ''['' @ join_array False ps @ '']''"
      by (auto simp: print_array_def all_some_iff split: option.splits)
    obtain c cs' q qs where cs: "cs = c # cs'" and qs: "ps = q # qs" "print_value c (d + 1) False = Some q"
      using False ps by (cases cs; cases ps) auto
    have "json_start q" using readsD(1) [OF _ qs(2)] assms cs by auto
    then have st: "json_start (join_array False ps)" using join_array_start [of q qs "[]"] qs(1) by simp
    have "parse_elems m (join_array False ps @ CHR '']'' # rest) = Inr (Some (cs, CHR '']'' # rest))"
      using n m pj by (intro parse_elems_print [OF assms False ps]) simp_all
    with punct st json_start_take [OF join_array_start [OF \<open>json_start q\<close>, of qs "CHR '']'' # rest"]]
    show ?thesis
      by (simp add: parse_punct_def pj nameless_def is_digit_def qs(1) [symmetric])
  qed
qed

lemma reads_object:
  assumes "\<And>c. c \<in> set cs \<Longrightarrow> reads c \<and> (\<exists>k. item_string c = Some k \<and> json_plain k)"
  shows "reads (CJSON cJSON_Object None 0 (Dec False 0 0) k cs)"
  unfolding reads_def
proof (intro allI impI conjI)
  fix d p n rest
  assume p: "print_value (CJSON 6 None 0 (Dec False 0 0) k cs) d False = Some p"
  then show "json_start p" by (auto simp: print_object_def json_start_def split: if_splits option.splits)
  assume n: "2 * length p < n"
  then obtain m where m: "n = Suc m" by (cases n) auto
  have punct: "parse_value n (p @ rest) = parse_punct m (CHR ''{'') (tl p @ rest) (p @ rest)"
    unfolding m using p by (intro parse_value_start) (auto simp: print_object_def split: if_splits option.splits)
  show "parse_value n (p @ rest) = Inr (Some (nameless (CJSON 6 None 0 (Dec False 0 0) k cs), rest))"
  proof (cases "cs = []")
    case True
    then have "p = ''{}''" using p by (simp add: print_object_def)
    with True punct show ?thesis
      by (simp add: parse_punct_def json_skip_def nameless_def cJSON_CreateObject_def is_digit_def)
  next
    case False
    with p obtain ks ps where ps: "map (\<lambda>c. print_value c (d + 1) False) cs = map Some ps"
      and ks: "map item_string cs = map Some ks"
      and pj: "p = ''{'' @ join_object False (d + 1) (zip (map print_string_ptr ks) ps) @ ''}''"
      by (auto simp: print_object_def all_some_iff comp_def split: option.splits)
    obtain k1 ks1 q qs where kq: "ks = k1 # ks1" "ps = q # qs"
      using False ps ks by (cases cs; cases ks; cases ps) auto
    let ?j = "join_object False (d + 1) (zip (map print_string_ptr ks) ps)"
    note st = join_object_start [of "d + 1" k1 ks1 q qs, folded kq]
    have "parse_members m (?j @ CHR ''}'' # rest) = Inr (Some (cs, CHR ''}'' # rest))"
      using n m pj by (intro parse_members_print [OF assms False ks ps]) simp_all
    with punct st [of "[]"] json_start_take [OF st [of "CHR ''}'' # rest"]]
    show ?thesis
      by (simp add: parse_punct_def pj nameless_def is_digit_def)
  qed
qed

lemma json_ok_reads: "json_ok v \<Longrightarrow> reads v"
proof (induction v)
  case (CJSON t vs vi vd k cs)
  show ?case
  proof (cases "t = 5 \<or> t = 6")
    case False
    with CJSON.prems show ?thesis by (intro reads_scalar) (auto split: if_splits)
  next
    case True
    then show ?thesis
    proof
      assume "t = 5"
      with CJSON show ?thesis by (auto intro!: reads_array)
    next
      assume "t = 6"
      with CJSON show ?thesis by (auto intro!: reads_object split: option.splits)
    qed
  qed
qed

lemma all_some_total:
  assumes "\<And>x. x \<in> set xs \<Longrightarrow> \<exists>y. f x = Some y"
  obtains ys where "all_some (map f xs) = Some ys"
proof -
  have "\<exists>ys. all_some (map f xs) = Some ys"
    using assms
  proof (induction xs)
    case (Cons x xs)
    then obtain y ys where "f x = Some y" "all_some (map f xs) = Some ys" by (meson list.set_intros)
    then show ?case by simp
  qed simp
  with that show thesis by blast
qed

lemma json_ok_prints: "json_ok v \<Longrightarrow> \<exists>p. print_value v d False = Some p"
proof (induction v arbitrary: d)
  case (CJSON t vs vi vd k cs)
  show ?case
  proof (cases "t = 5 \<or> t = 6")
    case False
    with CJSON.prems print_number_ok [of vi] show ?thesis by (auto split: if_splits option.splits)
  next
    case kids: True
    with CJSON.prems have "\<And>c. c \<in> set cs \<Longrightarrow> json_ok c" by auto
    with CJSON.IH obtain ps where some: "all_some (map (\<lambda>c. print_value c (d + 1) False) cs) = Some ps"
      by (metis all_some_total)
    show ?thesis
    proof (cases "t = 5")
      case True
      with some show ?thesis by (simp add: print_array_def)
    next
      case False
      with kids CJSON.prems have t: "t = 6" and "\<And>c. c \<in> set cs \<Longrightarrow> \<exists>k. item_string c = Some k"
        by (auto split: option.splits)
      from all_some_total [OF this(2)] obtain ks where "all_some (map item_string cs) = Some ks" .
      with some t show ?thesis by (simp add: print_object_def comp_def)
    qed
  qed
qed

lemma print_then_parse:
  assumes "json_ok v" and "item_string v = None"
  shows "\<exists>p. cJSON_PrintUnformatted v = Some p \<and> cJSON_Parse p = Inr (Some v)"
proof -
  obtain p where p: "print_value v 0 False = Some p" using json_ok_prints [OF assms(1)] by blast
  note r = readsD [OF json_ok_reads [OF assms(1)] p]
  have "json_skip (p @ []) = p @ []" using r(1) by (rule json_skip_start)
  then have "cJSON_Parse p = Inr (Some v)"
    using r(2) [of "[]" "2 * length p + 2"] nameless_named(2) [OF assms(2)]
    by (simp add: cJSON_Parse_def cJSON_ParseWithOpts_def)
  with p show ?thesis by (auto simp: cJSON_PrintUnformatted_def)
qed

text \<open>Property C4. JSON round trip: every tree built from strings without braces, integers, arrays and
  objects prints to some text, and parsing that text gives the tree back.\<close>

theorem cJSON_print_parse:
  assumes "json_ok v" and "item_string v = None"
  shows "\<exists>p. cJSON_PrintUnformatted v = Some p \<and> cJSON_Parse p = Inr (Some v)"
  by (rule print_then_parse [OF assms])

theorem cJSON_print_parse_witness:
  "\<exists>p. cJSON_PrintUnformatted (cJSON_AddNumberToObject (cJSON_AddStringToObject cJSON_CreateObject ''sub_id'' ''10000001'') ''lp'' 7) = Some p
     \<and> cJSON_Parse p = Inr (Some (cJSON_AddNumberToObject (cJSON_AddStringToObject cJSON_CreateObject ''sub_id'' ''10000001'') ''lp'' 7))"
  by (rule cJSON_print_parse)
    (simp_all add: cJSON_AddNumberToObject_def cJSON_AddStringToObject_def cJSON_AddItemToObject_def
      cJSON_AddItemToArray_def cJSON_CreateObject_def cJSON_CreateString_def cJSON_CreateNumber_def
      set_item_string_def json_plain_def clamp32_def)

end
