(* ===== verification/Wifi_Json.thy ===== *)
theory Wifi_Json
  imports Wifi_Frame CJSON
begin

text \<open>
  The requests of the MCU SDK whose payload is a JSON text (\<open>src/wifi/mcu_api.c\<close>,
  \<open>product_info_update\<close> of \<open>src/wifi/system.c\<close>): each builds an object, prints it and sends it in
  one frame. Three of them keep the payload length in an \<open>unsigned char\<close>.
\<close>

definition send_json :: "u8 \<Rightarrow> cJSON \<Rightarrow> wifi_sys \<Rightarrow> wifi_sys" where
  "send_json cmd root w = (case cJSON_PrintUnformatted root of None \<Rightarrow> w
    | Some out \<Rightarrow> wifi_uart_write_frame cmd MCU_TX_VER
        (set_wifi_uart_buffer (Some (cstr out)) (word_of_nat (my_strlen out)) (0, w)))"

text \<open>The same with \<open>unsigned char length\<close>.\<close>

definition send_json8 :: "u8 \<Rightarrow> cJSON \<Rightarrow> wifi_sys \<Rightarrow> wifi_sys" where
  "send_json8 cmd root w = (case cJSON_PrintUnformatted root of None \<Rightarrow> w
    | Some out \<Rightarrow>
        (case set_wifi_uart_buffer (Some (cstr out)) (word_of_nat (my_strlen out)) (0, w) of
           (len, w) \<Rightarrow> wifi_uart_write_frame cmd MCU_TX_VER (ucast (ucast len :: u8), w)))"

definition gateway_subdevice_add :: "string \<Rightarrow> string \<Rightarrow> u8 \<Rightarrow> string \<Rightarrow> u8 \<Rightarrow> u8 \<Rightarrow> wifi_sys \<Rightarrow> wifi_sys" where
  "gateway_subdevice_add mcu_ver pid pk_type sub_id_buf channel ota w =
    (let root = cJSON_CreateObject;
         root = (if pk_type \<noteq> 0 then cJSON_AddNumberToObject root ''pk_type'' (uint pk_type) else root);
         root = cJSON_AddStringToObject root ''sub_id'' sub_id_buf;
         root = cJSON_AddStringToObject root ''pid'' pid;
         root = cJSON_AddStringToObject root ''ver'' mcu_ver;
         root = cJSON_AddNumberToObject root ''channel'' (uint channel);
         root = cJSON_AddNumberToObject root ''ota'' (uint ota)
     in send_json8 0x08 root w)"

definition heart_beat_report :: "string \<Rightarrow> u8 \<Rightarrow> wifi_sys \<Rightarrow> wifi_sys" where
  "heart_beat_report sub_id_buf lowpower_flag w =
    (let root = cJSON_CreateObject;
         root = cJSON_AddStringToObject root ''sub_id'' sub_id_buf;
         root = cJSON_AddNumberToObject root ''lp'' (uint lowpower_flag)
     in send_json8 0x0a root w)"

definition local_subdev_del_cmd :: "string \<Rightarrow> wifi_sys \<Rightarrow> wifi_sys" where
  "local_subdev_del_cmd sub_id w =
    (let root = cJSON_AddStringToObject cJSON_CreateObject ''sub_id'' sub_id
     in send_json 0x19 root w)"

definition user_updata_subden_online_state :: "u8 \<Rightarrow> string \<Rightarrow> u8 \<Rightarrow> u8 \<Rightarrow> wifi_sys \<Rightarrow> wifi_sys" where
  "user_updata_subden_online_state all dev_id send_cids_arr_sz state w =
    (let send_root = cJSON_AddNumberToObject cJSON_CreateObject ''all'' (uint all);
         send_root = (if 0 = all
            then cJSON_AddItemToObject send_root ''cids''
                   (cJSON_AddItemToArray cJSON_CreateArray (cJSON_CreateString dev_id))
            else send_root);
         send_root = cJSON_AddNumberToObject send_root ''state'' (uint state)
     in send_json 0x2a send_root w)"

definition updata_subden_online_state :: "u8 \<Rightarrow> string list \<Rightarrow> u8 \<Rightarrow> u8 \<Rightarrow> wifi_sys \<Rightarrow> wifi_sys" where
  "updata_subden_online_state all cids send_cids_arr_sz state w =
    (let send_root = cJSON_AddNumberToObject cJSON_CreateObject ''all'' (uint all);
         send_root = (if 0 = all
            then cJSON_AddItemToObject send_root ''cids''
                   (foldl cJSON_AddItemToArray cJSON_CreateArray
                     (map cJSON_CreateString (take (unat send_cids_arr_sz) cids)))
            else send_root);
         send_root = cJSON_AddNumberToObject send_root ''state'' (uint state)
     in send_json 0x2a send_root w)"

text \<open>The capability bits, lowest first; only the third one, the gateway's own data points, is on.\<close>

definition sub_ability :: u8 where
  "sub_ability = foldr (\<lambda>b acc. 2 * acc + (if b then 1 else 0)) [False, False, True, False, False, False, False, False] 0"

definition product_info_update :: "u8 \<Rightarrow> wifi_sys \<Rightarrow> wifi_sys" where
  "product_info_update pid_flag w =
    (let root = cJSON_AddStringToObject cJSON_CreateObject ''v'' ''2.1.2'';
         root = cJSON_AddNumberToObject root ''m'' 0;
         root = cJSON_AddNumberToObject root ''cap'' (uint sub_ability);
         root = (if 0x01 = pid_flag then cJSON_AddStringToObject root ''p'' ''rbptoajhwdfsdmbu'' else root);
         root = (if 0x02 = pid_flag then cJSON_AddStringToObject root ''p'' ''q3xnn9yqt55ifaxm'' else root);
         root = cJSON_AddNumberToObject root ''n'' 1;
         root = cJSON_AddNumberToObject root ''s'' 0
     in send_json8 0x01 root w)"

section \<open>What goes out\<close>

definition json_frame :: "u8 \<Rightarrow> string \<Rightarrow> bytes" where
  "json_frame cmd msg = uart_frame 0 cmd (bytes_of msg)"

lemma loaded_text:
  assumes "length msg \<le> 4096"
  shows "loaded (bytes_of msg) (set_wifi_uart_buffer (Some (cstr msg)) (word_of_nat (length msg)) (0, w))"
proof -
  have n: "unat (word_of_nat (length msg) :: u16) = length msg"
    using assms by (simp add: unsigned_of_nat take_bit_nat_eq_self)
  with loaded_buffer [OF loaded_0, where len = "word_of_nat (length msg)" and src = "cstr msg"] assms
  show ?thesis by simp
qed

lemma send_json_out:
  assumes "cJSON_PrintUnformatted root = Some msg" and "length msg \<le> 4096"
  shows "uart_out (send_json cmd root w) = uart_out w @ json_frame cmd msg"
  using assms write_frame_out [OF loaded_text [OF assms(2)]]
  by (simp add: send_json_def json_frame_def)

lemma send_json8_out:
  assumes "cJSON_PrintUnformatted root = Some msg" and "length msg < 256"
  shows "uart_out (send_json8 cmd root w) = uart_out w @ json_frame cmd msg"
proof -
  obtain n u where tx: "set_wifi_uart_buffer (Some (cstr msg)) (word_of_nat (length msg)) (0, w) = (n, u)"
    by fastforce
  have l: "loaded (bytes_of msg) (n, u)" using loaded_text [of msg w] assms(2) tx by simp
  then have "unat n < 256" using assms(2) by (simp add: loaded_def)
  then have "unat (ucast n :: u8) = unat n" by (simp add: unsigned_ucast_eq take_bit_nat_eq_self unsigned_take_bit_eq)
  then have "ucast (ucast n :: u8) = n"
    unfolding ucast_word_of_nat [of "ucast n :: u8"] by simp
  moreover have "uart_out u = uart_out w"
    using tx set_wifi_uart_out(2) [of "Some (cstr msg)" "word_of_nat (length msg)" "(0, w)"] by simp
  ultimately show ?thesis
    unfolding send_json8_def json_frame_def
    using assms l tx by (simp add: write_frame_out)
qed

text \<open>The printed texts.\<close>

lemmas json_build = cJSON_AddNumberToObject_def cJSON_AddStringToObject_def cJSON_AddItemToObject_def
  cJSON_AddItemToArray_def cJSON_CreateObject_def cJSON_CreateString_def cJSON_CreateNumber_def
  cJSON_CreateArray_def set_item_string_def

lemmas json_print = cJSON_PrintUnformatted_def print_object_def print_array_def print_number_def

lemma uint8_bounds: "0 \<le> uint (b :: u8)" "uint b < 256" "\<not> uint b < - 2147483648" "- 2147483648 \<le> uint b"
proof -
  show ge: "0 \<le> uint b" by simp
  show "uint b < 256" using unsigned_less [of b, where ?'a = int] by simp
  from ge show "\<not> uint b < - 2147483648" "- 2147483648 \<le> uint b" by linarith+
qed

lemma clamp32_uint8 [simp]: "clamp32 (uint (b :: u8)) = uint b"
  using uint8_bounds [of b] by (simp add: clamp32_def)

lemma json_keys [simp]:
  "print_string_ptr ''sub_id'' = [QUOTE] @ ''sub_id'' @ [QUOTE]"
  "print_string_ptr ''lp'' = [QUOTE] @ ''lp'' @ [QUOTE]"
  "print_string_ptr ''pid'' = [QUOTE] @ ''pid'' @ [QUOTE]"
  "print_string_ptr ''ver'' = [QUOTE] @ ''ver'' @ [QUOTE]"
  "print_string_ptr ''channel'' = [QUOTE] @ ''channel'' @ [QUOTE]"
  "print_string_ptr ''ota'' = [QUOTE] @ ''ota'' @ [QUOTE]"
  "print_string_ptr ''all'' = [QUOTE] @ ''all'' @ [QUOTE]"
  "print_string_ptr ''cids'' = [QUOTE] @ ''cids'' @ [QUOTE]"
  "print_string_ptr ''state'' = [QUOTE] @ ''state'' @ [QUOTE]"
  by (simp_all add: print_string_ptr_def needs_escape_def)

text \<open>Device identifiers and product keys print without escapes.\<close>

definition json_word :: "string \<Rightarrow> bool" where
  "json_word s \<longleftrightarrow> list_all (\<lambda>c. \<not> needs_escape c \<and> c \<noteq> CHR ''{'' \<and> c \<noteq> CHR ''}'') s"

lemma print_json_word [simp]: "json_word s \<Longrightarrow> print_string_ptr s = [QUOTE] @ s @ [QUOTE]"
  by (auto simp: json_word_def print_string_ptr_def list_all_iff list_ex_iff)

lemma json_word_sprintf_ld [simp]: "json_word (sprintf_ld v)"
proof -
  have "\<not> needs_escape c \<and> c \<noteq> CHR ''{'' \<and> c \<noteq> CHR ''}''" if "is_digit c" for c
    using that by (auto simp: is_digit_def needs_escape_def)
  then show ?thesis
    by (auto simp: json_word_def sprintf_ld_def Let_def list_all_iff needs_escape_def dest: dec_nat_digits)
qed

definition heart_text :: "string \<Rightarrow> string" where
  "heart_text sid = ''{'' @ [QUOTE] @ ''sub_id'' @ [QUOTE] @ '':'' @ [QUOTE] @ sid @ [QUOTE] @ '','' @
     [QUOTE] @ ''lp'' @ [QUOTE] @ '':0}''"

definition online_text :: "string \<Rightarrow> u8 \<Rightarrow> string" where
  "online_text sid state = ''{'' @ [QUOTE] @ ''all'' @ [QUOTE] @ '':0,'' @ [QUOTE] @ ''cids'' @ [QUOTE] @
     '':['' @ [QUOTE] @ sid @ [QUOTE] @ ''],'' @ [QUOTE] @ ''state'' @ [QUOTE] @ '':'' @
     (if state = 0 then ''0'' else dec_nat (unat state)) @ ''}''"

definition delete_text :: "string \<Rightarrow> string" where
  "delete_text sid = ''{'' @ [QUOTE] @ ''sub_id'' @ [QUOTE] @ '':'' @ [QUOTE] @ sid @ [QUOTE] @ ''}''"

definition add_text :: "string \<Rightarrow> string \<Rightarrow> string \<Rightarrow> string" where
  "add_text mcu_ver pid sid = ''{'' @ [QUOTE] @ ''sub_id'' @ [QUOTE] @ '':'' @ [QUOTE] @ sid @ [QUOTE] @ '','' @
     [QUOTE] @ ''pid'' @ [QUOTE] @ '':'' @ [QUOTE] @ pid @ [QUOTE] @ '','' @ [QUOTE] @ ''ver'' @ [QUOTE] @
     '':'' @ [QUOTE] @ mcu_ver @ [QUOTE] @ '','' @ [QUOTE] @ ''channel'' @ [QUOTE] @ '':10,'' @
     [QUOTE] @ ''ota'' @ [QUOTE] @ '':0}''"

lemma heart_beat_report_out [wire]:
  assumes "json_word sub_id_buf" "length sub_id_buf \<le> 32"
  shows "uart_out (heart_beat_report sub_id_buf 0 w) = uart_out w @ json_frame 0x0a (heart_text sub_id_buf)"
  unfolding heart_beat_report_def Let_def
  using assms by (intro send_json8_out) (simp_all add: json_build json_print heart_text_def)

lemma local_subdev_del_cmd_out [wire]:
  assumes "json_word sub_id" "length sub_id \<le> 32"
  shows "uart_out (local_subdev_del_cmd sub_id w) = uart_out w @ json_frame 0x19 (delete_text sub_id)"
  unfolding local_subdev_del_cmd_def Let_def
  using assms by (intro send_json_out) (simp_all add: json_build json_print delete_text_def)

lemma uint8_text:
  "mantissa (Dec (uint (b :: u8) < 0) (nat \<bar>uint b\<bar>) 0) = unat b"
  "sprintf_ld (ucast (b :: u8)) = dec_nat (unat b)"
proof -
  show "mantissa (Dec (uint b < 0) (nat \<bar>uint b\<bar>) 0) = unat b" by simp
  have "sint (word_of_int (uint b) :: u32) = uint b"
    unfolding signed_of_int using uint8_bounds [of b]
    by (simp add: signed_take_bit_int_eq_self del: uint_nonnegative)
  then show "sprintf_ld (ucast b) = dec_nat (unat b)"
    by (simp add: sprintf_ld_def Let_def)
qed

lemma user_updata_subden_online_state_out [wire]:
  assumes "json_word dev_id" "length dev_id \<le> 32"
  shows "uart_out (user_updata_subden_online_state 0 dev_id n state w) =
    uart_out w @ json_frame 0x2a (online_text dev_id state)"
proof -
  have "length (dec_nat (unat state)) \<le> Suc 2" using u8_lt [of state] by (intro dec_nat_length) simp
  with assms show ?thesis
    unfolding user_updata_subden_online_state_def Let_def
    by (intro send_json_out)
      (auto simp: json_build json_print online_text_def uint8_text dec_is_int_def unat_eq_zero uint_0_iff)
qed

lemma gateway_subdevice_add_out [wire]:
  assumes "json_word sub_id_buf" "length sub_id_buf \<le> 32" "json_word pid" "length pid \<le> 32"
    "json_word mcu_ver" "length mcu_ver \<le> 32"
  shows "uart_out (gateway_subdevice_add mcu_ver pid 0 sub_id_buf 10 0 w) =
    uart_out w @ json_frame 0x08 (add_text mcu_ver pid sub_id_buf)"
proof -
  have ten: "sprintf_ld 10 = ''10''"
    by (simp add: sprintf_ld_def dec_nat.simps digit_char_def char_of_eq_iff)
  show ?thesis
    unfolding gateway_subdevice_add_def Let_def
    using assms
    by (intro send_json8_out) (simp_all add: json_build json_print add_text_def dec_is_int_def ten clamp32_def)
qed

section \<open>What the requests leave alone\<close>

lemma tx_only_json [frame]:
  "tx_only w (send_json cmd root w)" "tx_only w (send_json8 cmd root w)"
proof -
  show "tx_only w (send_json cmd root w)"
    by (auto simp: send_json_def intro!: tx_only_set split: option.split)
  have "tx_only w (wifi_uart_write_frame cmd 0 (n, snd tx))" if "tx_only w (snd tx)" for n tx
    using that by (intro tx_only_set(3)) simp
  then show "tx_only w (send_json8 cmd root w)"
    by (auto simp: send_json8_def split: option.split prod.split)
      (metis snd_conv tx_only_refl tx_only_set(2))
qed

lemma tx_only_requests [frame]:
  "tx_only w (gateway_subdevice_add ver pid pk sid ch ota w)" "tx_only w (heart_beat_report sid lp w)"
  "tx_only w (local_subdev_del_cmd sid w)" "tx_only w (user_updata_subden_online_state all sid n st w)"
  "tx_only w (updata_subden_online_state all sids n st w)" "tx_only w (product_info_update flag w)"
  by (simp_all add: gateway_subdevice_add_def heart_beat_report_def local_subdev_del_cmd_def Let_def
      user_updata_subden_online_state_def updata_subden_online_state_def product_info_update_def tx_only_json)

end
