(* ===== verification/Env_Store.thy ===== *)
theory Env_Store
  imports Prelude
begin

text \<open>
  The key-value store the device table is kept in. The environment interface of EasyFlash
  (\<open>src/packages/EasyFlash-v4.1.0\<close>) is here a map from names to texts; that EasyFlash implements it is shown in
  \<open>Ef_Contract\<close>. The operations are \<open>ef_set_env\<close>, \<open>ef_get_env_blob\<close> and \<open>ef_env_set_default\<close>; the locale
  \<open>env_store\<close> states what \<open>src/applications/flashwork.c\<close> relies on.
\<close>

type_synonym ef_env = "string \<rightharpoonup> string"

definition ef_set_env :: "string \<Rightarrow> string \<Rightarrow> ef_env \<Rightarrow> ef_env" where
  "ef_set_env key v e = e(key \<mapsto> v)"

text \<open>The bytes copied to the caller's buffer; nothing when the name is unknown.\<close>

definition ef_get_env_blob :: "ef_env \<Rightarrow> string \<Rightarrow> nat \<Rightarrow> string" where
  "ef_get_env_blob e key buf_len = (case e key of None \<Rightarrow> [] | Some v \<Rightarrow> take buf_len v)"

text \<open>The default set of \<open>src/storage/ef_fal_port.c\<close>.\<close>

definition ef_env_set_default :: ef_env where
  "ef_env_set_default = [''boot_times'' \<mapsto> ''0'']"

locale env_store =
  fixes set_env :: "string \<Rightarrow> string \<Rightarrow> 's \<Rightarrow> 's"
    and get_blob :: "'s \<Rightarrow> string \<Rightarrow> nat \<Rightarrow> string"
  assumes get_set_same: "length v \<le> n \<Longrightarrow> get_blob (set_env k v s) k n = v"
    and get_set_other: "k \<noteq> k' \<Longrightarrow> get_blob (set_env k v s) k' n = get_blob s k' n"
begin

text \<open>Numbers in the store: printed with \<open>%ld\<close>, read with \<open>atol\<close> from a buffer of 64 bytes; absent
  means zero.\<close>

definition read_number :: "'s \<Rightarrow> string \<Rightarrow> u32" where
  "read_number s k = (let v = get_blob s k 64 in if length v > 0 then atol v else 0)"

lemma sprintf_ld_not_Nil: "sprintf_ld v \<noteq> []"
  by (simp add: sprintf_ld_def Let_def)

lemma read_number_same:
  assumes "length (sprintf_ld v) \<le> 64"
  shows "read_number (set_env k (sprintf_ld v) s) k = v"
  using get_set_same [OF assms, of k s] sprintf_ld_not_Nil [of v] by (simp add: read_number_def)

lemma read_number_other: "k \<noteq> k' \<Longrightarrow> read_number (set_env k x s) k' = read_number s k'"
  by (simp add: read_number_def get_set_other)

end

interpretation ef: env_store ef_set_env ef_get_env_blob
  by unfold_locales (auto simp: ef_set_env_def ef_get_env_blob_def)

end
