(* ===== verification/Device_Table.thy ===== *)
theory Device_Table
  imports Env_Store
begin

text \<open>
  The table of learned devices and its copy in flash (\<open>src/applications/flashwork.c\<close>,
  \<open>flashwork.h\<close>): the part that touches only the table and the store. Slots 1 to 49 are used, slot 0
  never; \<open>Num\<close> is the highest slot ever used, \<open>MainNum\<close> counts the main units. Deletions and the
  online state, which also talk to the WiFi module, are in \<open>Gateway\<close>.
\<close>

section \<open>State\<close>

text \<open>The arrays have \<open>MaxSupport\<close> cells; the invariant \<open>table_wf\<close> keeps every index inside them.\<close>

record Device_Info =
  Num :: u8
  MainNum :: u8
  Rssi :: "nat \<Rightarrow> u8"
  Moto :: "nat \<Rightarrow> u8"
  Heart :: "nat \<Rightarrow> u8"
  HeartRetry :: "nat \<Rightarrow> u8"
  HeartCount :: "nat \<Rightarrow> u8"
  HeartRecv :: "nat \<Rightarrow> u8"
  UploadFlag :: "nat \<Rightarrow> u8"
  SyncRetry :: "nat \<Rightarrow> u8"
  ID :: "nat \<Rightarrow> u32"
  Bind_ID :: "nat \<Rightarrow> u32"

record dev_store =
  Global_Device :: Device_Info
  env :: ef_env

abbreviation (input) MaxSupport :: nat where "MaxSupport \<equiv> 50"
abbreviation (input) MainSupport :: u8 where "MainSupport \<equiv> 3"

definition Device_Info_zero :: Device_Info where
  "Device_Info_zero = \<lparr>Num = 0, MainNum = 0, Rssi = (\<lambda>_. 0), Moto = (\<lambda>_. 0), Heart = (\<lambda>_. 0),
     HeartRetry = (\<lambda>_. 0), HeartCount = (\<lambda>_. 0), HeartRecv = (\<lambda>_. 0), UploadFlag = (\<lambda>_. 0),
     SyncRetry = (\<lambda>_. 0), ID = (\<lambda>_. 0), Bind_ID = (\<lambda>_. 0)\<rparr>"

section \<open>Numbers in flash\<close>

definition env_number :: "ef_env \<Rightarrow> string \<Rightarrow> u32" where
  "env_number e keybuf =
    (let read_value_temp = ef_get_env_blob e keybuf 64;
         read_len = (word_of_nat (length read_value_temp) :: u8)
     in if read_len > 0 then atol read_value_temp else 0)"

definition Flash_Get_Learn_Nums :: "dev_store \<Rightarrow> u32" where
  "Flash_Get_Learn_Nums d = env_number (env d) ''Learn_Nums''"

definition Flash_Get_Main_Nums :: "dev_store \<Rightarrow> u32" where
  "Flash_Get_Main_Nums d = env_number (env d) ''Main_Nums''"

definition Flash_LearnNums_Change :: "u32 \<Rightarrow> dev_store \<Rightarrow> dev_store" where
  "Flash_LearnNums_Change v d = d\<lparr>env := ef_set_env ''Learn_Nums'' (sprintf_ld v) (env d)\<rparr>"

definition Flash_MainNums_Change :: "u32 \<Rightarrow> dev_store \<Rightarrow> dev_store" where
  "Flash_MainNums_Change v d = d\<lparr>env := ef_set_env ''Main_Nums'' (sprintf_ld v) (env d)\<rparr>"

definition Flash_ID_Change :: "u32 \<Rightarrow> u32 \<Rightarrow> dev_store \<Rightarrow> dev_store" where
  "Flash_ID_Change key v d = d\<lparr>env := ef_set_env (sprintf_ld key) (sprintf_ld v) (env d)\<rparr>"

definition Flash_Type_Change :: "u32 \<Rightarrow> u32 \<Rightarrow> dev_store \<Rightarrow> dev_store" where
  "Flash_Type_Change Device_ID v d = d\<lparr>env := ef_set_env (''type:'' @ sprintf_ld Device_ID) (sprintf_ld v) (env d)\<rparr>"

definition Flash_Bind_Change :: "u32 \<Rightarrow> u32 \<Rightarrow> dev_store \<Rightarrow> dev_store" where
  "Flash_Bind_Change Device_ID v d = d\<lparr>env := ef_set_env (''bind:'' @ sprintf_ld Device_ID) (sprintf_ld v) (env d)\<rparr>"

definition Flash_Heart_Change :: "u32 \<Rightarrow> u32 \<Rightarrow> dev_store \<Rightarrow> dev_store" where
  "Flash_Heart_Change Device_ID v d = d\<lparr>env := ef_set_env (''heart:'' @ sprintf_ld Device_ID) (sprintf_ld v) (env d)\<rparr>"

definition Flash_UploadFlag_Change :: "u32 \<Rightarrow> u32 \<Rightarrow> dev_store \<Rightarrow> dev_store" where
  "Flash_UploadFlag_Change Device_ID v d =
    d\<lparr>env := ef_set_env (''upload:'' @ sprintf_ld Device_ID) (sprintf_ld v) (env d)\<rparr>"

text \<open>For a type above 4 the key buffer is never written: \<open>None\<close>.\<close>

definition Flash_Get_Key_Value :: "u8 \<Rightarrow> u32 \<Rightarrow> dev_store \<Rightarrow> u32 option" where
  "Flash_Get_Key_Value type key d =
    (let keybuf =
       (if type = 0 then Some (sprintf_ld key)
        else if type = 1 then Some (''type:'' @ sprintf_ld key)
        else if type = 2 then Some (''bind:'' @ sprintf_ld key)
        else if type = 3 then Some (''heart:'' @ sprintf_ld key)
        else if type = 4 then Some (''upload:'' @ sprintf_ld key)
        else None)
     in map_option (env_number (env d)) keybuf)"

section \<open>Slots and counters\<close>

definition set_Num :: "u8 \<Rightarrow> dev_store \<Rightarrow> dev_store" where
  "set_Num n d = d\<lparr>Global_Device := (Global_Device d)\<lparr>Num := n\<rparr>\<rparr>"

definition set_MainNum :: "u8 \<Rightarrow> dev_store \<Rightarrow> dev_store" where
  "set_MainNum n d = d\<lparr>Global_Device := (Global_Device d)\<lparr>MainNum := n\<rparr>\<rparr>"

text \<open>The loop of \<open>Get_LearnNums_Valid\<close> over the slots \<open>num, num + 1, \<dots>, 49\<close>.\<close>

function learn_scan :: "nat \<Rightarrow> dev_store \<Rightarrow> u8 \<times> dev_store" where
  "learn_scan num d =
    (if num < MaxSupport then
       (if ID (Global_Device d) num = 0 then
          (if num > unat (Num (Global_Device d))
           then (word_of_nat num, Flash_LearnNums_Change (word_of_nat num) (set_Num (word_of_nat num) d))
           else (word_of_nat num, d))
        else learn_scan (num + 1) d)
     else (0, d))"
  by pat_completeness auto

termination
  by (relation "measure (\<lambda>(num, d). MaxSupport - num)") auto

declare learn_scan.simps [simp del]

definition Get_LearnNums_Valid :: "dev_store \<Rightarrow> u8 \<times> dev_store" where
  "Get_LearnNums_Valid d = learn_scan 1 d"

definition Add_MainNums :: "dev_store \<Rightarrow> u8 \<times> dev_store" where
  "Add_MainNums d =
    (let num = MainNum (Global_Device d)
     in if num < MainSupport
        then (num + 1, Flash_MainNums_Change (ucast (num + 1)) (set_MainNum (num + 1) d))
        else (0, d))"

definition Del_MainNums :: "dev_store \<Rightarrow> u8 \<times> dev_store" where
  "Del_MainNums d =
    (let num = MainNum (Global_Device d)
     in if num > 0
        then (num - 1, Flash_MainNums_Change (ucast (num - 1)) (set_MainNum (num - 1) d))
        else (0, d))"

definition Get_MainNums :: "dev_store \<Rightarrow> u8" where
  "Get_MainNums d = (if MainNum (Global_Device d) < MainSupport then RT_EOK else RT_ERROR)"

section \<open>Adding devices\<close>

definition put_slot :: "nat \<Rightarrow> u32 \<Rightarrow> u32 \<Rightarrow> dev_store \<Rightarrow> dev_store" where
  "put_slot num Device_ID Bind d =
    (let g = Global_Device d
     in d\<lparr>Global_Device := g\<lparr>ID := (ID g)(num := Device_ID), Bind_ID := (Bind_ID g)(num := Bind),
           Heart := (Heart g)(num := 1)\<rparr>\<rparr>)"

definition MainAdd_Flash :: "u32 \<Rightarrow> dev_store \<Rightarrow> u8 \<times> dev_store" where
  "MainAdd_Flash Device_ID d =
    (case Get_LearnNums_Valid d of (num, d) \<Rightarrow>
       if num = 0 then (RT_ERROR, d)
       else
         (let d = put_slot (unat num) Device_ID 0 d;
              d = Flash_ID_Change (ucast num) Device_ID d;
              d = Flash_Bind_Change Device_ID 0 d;
              d = Flash_Heart_Change Device_ID 1 d;
              d = snd (Add_MainNums d)
          in (RT_EOK, d)))"

definition SlaveAdd_Flash :: "u32 \<Rightarrow> u32 \<Rightarrow> dev_store \<Rightarrow> u8 \<times> dev_store" where
  "SlaveAdd_Flash Device_ID Bind d =
    (case Get_LearnNums_Valid d of (num, d) \<Rightarrow>
       if num = 0 then (RT_ERROR, d)
       else
         (let d = put_slot (unat num) Device_ID Bind d;
              d = Flash_ID_Change (ucast num) Device_ID d;
              d = Flash_Bind_Change Device_ID Bind d;
              d = Flash_Heart_Change Device_ID 1 d
          in (RT_EOK, d)))"

definition DoorAdd_Flash :: "u32 \<Rightarrow> u32 \<Rightarrow> dev_store \<Rightarrow> u8 \<times> dev_store" where
  "DoorAdd_Flash Device_ID Bind d =
    (case Get_LearnNums_Valid d of (num, d) \<Rightarrow>
       if num = 0 then (RT_ERROR, d)
       else
         (let d = put_slot (unat num) Device_ID Bind d;
              d = Flash_ID_Change (ucast num) Device_ID d;
              d = Flash_Bind_Change Device_ID Bind d;
              d = Flash_Heart_Change Device_ID 1 d
          in (RT_EOK, d)))"

section \<open>Lookups\<close>

text \<open>\<open>while(num) { if(ID[num] == Device_ID) \<dots>; num--; }\<close>\<close>

definition slot_of :: "u32 \<Rightarrow> Device_Info \<Rightarrow> nat option" where
  "slot_of Device_ID g = down_find (\<lambda>num. ID g num = Device_ID) (unat (Num g))"

definition GetBindID :: "u32 \<Rightarrow> dev_store \<Rightarrow> u32" where
  "GetBindID Device_ID d = (case slot_of Device_ID (Global_Device d) of
     None \<Rightarrow> 0 | Some num \<Rightarrow> Bind_ID (Global_Device d) num)"

definition GetDoorID :: "u32 \<Rightarrow> dev_store \<Rightarrow> u32" where
  "GetDoorID Main_ID d =
    (let g = Global_Device d
     in case down_find (\<lambda>num. Bind_ID g num = Main_ID \<and> ID g num \<ge> 30000000) (unat (Num g)) of
          None \<Rightarrow> 0 | Some num \<Rightarrow> ID g num)"

definition Flash_Get_Key_Valid :: "u32 \<Rightarrow> dev_store \<Rightarrow> u8" where
  "Flash_Get_Key_Valid Device_ID d = (case slot_of Device_ID (Global_Device d) of
     None \<Rightarrow> RT_ERROR | Some num \<Rightarrow> RT_EOK)"

definition Flash_Get_Heart :: "u32 \<Rightarrow> dev_store \<Rightarrow> u8" where
  "Flash_Get_Heart Device_ID d = (case slot_of Device_ID (Global_Device d) of
     None \<Rightarrow> 0 | Some num \<Rightarrow> Heart (Global_Device d) num)"

definition Flash_Get_UploadFlag :: "u32 \<Rightarrow> dev_store \<Rightarrow> u8" where
  "Flash_Get_UploadFlag Device_ID d = (case slot_of Device_ID (Global_Device d) of
     None \<Rightarrow> 0 | Some num \<Rightarrow> UploadFlag (Global_Device d) num)"

definition Flash_Set_UploadFlag :: "u32 \<Rightarrow> u8 \<Rightarrow> dev_store \<Rightarrow> u8 \<times> dev_store" where
  "Flash_Set_UploadFlag Device_ID Flag d =
    (let g = Global_Device d
     in case slot_of Device_ID g of None \<Rightarrow> (RT_ERROR, d)
        | Some num \<Rightarrow>
            (RT_EOK, Flash_UploadFlag_Change Device_ID (ucast Flag)
               (d\<lparr>Global_Device := g\<lparr>UploadFlag := (UploadFlag g)(num := Flag)\<rparr>\<rparr>)))"

definition Flash_Get_Moto :: "u32 \<Rightarrow> dev_store \<Rightarrow> u8" where
  "Flash_Get_Moto Device_ID d = (case slot_of Device_ID (Global_Device d) of
     None \<Rightarrow> 0 | Some num \<Rightarrow> Moto (Global_Device d) num)"

definition Flash_Set_Moto :: "u32 \<Rightarrow> u8 \<Rightarrow> dev_store \<Rightarrow> u8 \<times> dev_store" where
  "Flash_Set_Moto Device_ID Flag d =
    (let g = Global_Device d
     in case slot_of Device_ID g of None \<Rightarrow> (RT_ERROR, d)
        | Some num \<Rightarrow> (RT_EOK, d\<lparr>Global_Device := g\<lparr>Moto := (Moto g)(num := Flag)\<rparr>\<rparr>))"

definition Flash_Get_Rssi :: "u32 \<Rightarrow> dev_store \<Rightarrow> u8" where
  "Flash_Get_Rssi Device_ID d = (case slot_of Device_ID (Global_Device d) of
     None \<Rightarrow> 0 | Some num \<Rightarrow> Rssi (Global_Device d) num)"

definition Flash_Set_Rssi :: "u32 \<Rightarrow> u8 \<Rightarrow> dev_store \<Rightarrow> u8 \<times> dev_store" where
  "Flash_Set_Rssi Device_ID Flag d =
    (let g = Global_Device d
     in case slot_of Device_ID g of None \<Rightarrow> (RT_ERROR, d)
        | Some num \<Rightarrow> (RT_EOK, d\<lparr>Global_Device := g\<lparr>Rssi := (Rssi g)(num := Flag)\<rparr>\<rparr>))"

section \<open>Reloading after a reset\<close>

text \<open>One turn of the loop of \<open>LoadDevice2Memory\<close>.\<close>

definition load_slot :: "nat \<Rightarrow> dev_store \<Rightarrow> dev_store" where
  "load_slot i d =
    (let g = Global_Device d;
         ident = the (Flash_Get_Key_Value 0 (word_of_nat i) d);
         g = g\<lparr>ID := (ID g)(i := ident)\<rparr>;
         g = (if ident \<noteq> 0 then
                g\<lparr>Bind_ID := (Bind_ID g)(i := the (Flash_Get_Key_Value 2 ident d)),
                  Heart := (Heart g)(i := ucast (the (Flash_Get_Key_Value 3 ident d))),
                  UploadFlag := (UploadFlag g)(i := ucast (the (Flash_Get_Key_Value 4 ident d)))\<rparr>
              else g)
     in d\<lparr>Global_Device := g\<rparr>)"

text \<open>Nothing checks the number of slots read from flash: from 50 on the loop writes past the arrays.\<close>

definition LoadDevice2Memory :: "dev_store \<Rightarrow> c_fault + dev_store" where
  "LoadDevice2Memory d =
    (let d = d\<lparr>Global_Device := Device_Info_zero\<rparr>;
         d = set_Num (ucast (Flash_Get_Learn_Nums d)) d;
         d = set_MainNum (ucast (Flash_Get_Main_Nums d)) d;
         n = unat (Num (Global_Device d))
     in if n \<ge> MaxSupport then Inl Out_Of_Bounds
        else Inr (fold load_slot [1..<n + 1] d))"

section \<open>Numbers survive the flash\<close>

lemma env_number_read: "env_number e k = ef.read_number e k"
proof -
  let ?v = "ef_get_env_blob e k 64"
  have "length ?v \<le> 64" by (auto simp: ef_get_env_blob_def split: option.split)
  then have "(0 < (word_of_nat (length ?v) :: u8)) = (0 < length ?v)"
    by (simp add: word_less_nat_alt unsigned_of_nat take_bit_nat_eq_self)
  then show ?thesis by (simp add: env_number_def ef.read_number_def Let_def)
qed

lemma env_number_set [simp]:
  "env_number (ef_set_env k (sprintf_ld v) e) k = v"
  "k \<noteq> k' \<Longrightarrow> env_number (ef_set_env k x e) k' = env_number e k'"
  using sprintf_ld_length [of v] ef.read_number_same [of v k e] ef.read_number_other [of k k' x e]
  by (simp_all add: env_number_read)

lemma Flash_Get_Key_Value_simps [simp]:
  "Flash_Get_Key_Value 0 k d = Some (env_number (env d) (sprintf_ld k))"
  "Flash_Get_Key_Value 2 k d = Some (env_number (env d) (''bind:'' @ sprintf_ld k))"
  "Flash_Get_Key_Value 3 k d = Some (env_number (env d) (''heart:'' @ sprintf_ld k))"
  "Flash_Get_Key_Value 4 k d = Some (env_number (env d) (''upload:'' @ sprintf_ld k))"
  by (simp_all add: Flash_Get_Key_Value_def)

lemmas flash_writes = Flash_LearnNums_Change_def Flash_MainNums_Change_def Flash_ID_Change_def
  Flash_Type_Change_def Flash_Bind_Change_def Flash_Heart_Change_def Flash_UploadFlag_Change_def

section \<open>The table invariant\<close>

text \<open>No index leaves the arrays, at most three main units, nothing above \<open>Num\<close>, and no device twice.\<close>

definition table_wf :: "Device_Info \<Rightarrow> bool" where
  "table_wf g \<longleftrightarrow> unat (Num g) < MaxSupport \<and> unat (MainNum g) \<le> 3 \<and>
     (\<forall>i. unat (Num g) < i \<longrightarrow> ID g i = 0) \<and>
     (\<forall>i j. ID g i = ID g j \<longrightarrow> ID g i \<noteq> 0 \<longrightarrow> i = j) \<and> ID g 0 = 0"

lemma slot_of_Some: "slot_of k g = Some n \<Longrightarrow> ID g n = k \<and> 1 \<le> n \<and> n \<le> unat (Num g)"
  using down_findD [of "\<lambda>num. ID g num = k"] by (simp add: slot_of_def)

lemma slot_of_wf:
  assumes "table_wf g" "k \<noteq> 0"
  shows "slot_of k g = Some n \<longleftrightarrow> ID g n = k"
proof
  assume id: "ID g n = k"
  have "1 \<le> n" using assms id by (cases n) (auto simp: table_wf_def)
  moreover have "n \<le> unat (Num g)" using assms id by (meson not_less table_wf_def)
  moreover have "\<And>j. ID g j = k \<Longrightarrow> j = n" using assms id unfolding table_wf_def by metis
  ultimately show "slot_of k g = Some n"
    unfolding slot_of_def using id by (intro down_find_unique) blast+
qed (simp add: slot_of_Some)

lemma slot_of_None:
  assumes "table_wf g" "k \<noteq> 0"
  shows "slot_of k g = None \<longleftrightarrow> (\<forall>n. ID g n \<noteq> k)"
  using slot_of_wf [OF assms] by (metis not_None_eq)

text \<open>The first free slot.\<close>

lemma learn_scan_result:
  assumes "learn_scan num d = (n, d')" "1 \<le> num" "num \<le> MaxSupport"
  shows "(n = 0 \<and> d' = d \<and> (\<forall>i. num \<le> i \<and> i < MaxSupport \<longrightarrow> ID (Global_Device d) i \<noteq> 0)) \<or>
    (num \<le> unat n \<and> unat n < MaxSupport \<and> ID (Global_Device d) (unat n) = 0 \<and>
     (\<forall>i. num \<le> i \<and> i < unat n \<longrightarrow> ID (Global_Device d) i \<noteq> 0) \<and>
     d' = (if n > Num (Global_Device d) then Flash_LearnNums_Change (ucast n) (set_Num n d) else d))"
  using assms
proof (induction num d rule: learn_scan.induct)
  case (1 num d)
  show ?case
  proof (cases "num < 50")
    case False
    with "1.prems" show ?thesis by (auto simp: learn_scan.simps [of num])
  next
    case True
    then have u: "unat (word_of_nat num :: u8) = num"
      by (simp add: unsigned_of_nat take_bit_nat_eq_self)
    then have lt: "word_of_nat num > Num (Global_Device d) \<longleftrightarrow> num > unat (Num (Global_Device d))"
      by (simp add: word_less_nat_alt)
    have cast: "(ucast (word_of_nat num :: u8) :: u32) = word_of_nat num"
      using u by (metis ucast_word_of_nat)
    show ?thesis
    proof (cases "ID (Global_Device d) num = 0")
      case free: True
      with True "1.prems" u lt cast show ?thesis
        by (auto simp: learn_scan.simps [of num])
    next
      case False
      with True "1.prems" have "learn_scan (num + 1) d = (n, d')" by (simp add: learn_scan.simps [of num])
      from "1.IH" [OF True False this] True have ih: "(n = 0 \<and> d' = d \<and> (\<forall>i. num + 1 \<le> i \<and> i < 50 \<longrightarrow> ID (Global_Device d) i \<noteq> 0)) \<or>
        (num + 1 \<le> unat n \<and> unat n < 50 \<and> ID (Global_Device d) (unat n) = 0 \<and>
         (\<forall>i. num + 1 \<le> i \<and> i < unat n \<longrightarrow> ID (Global_Device d) i \<noteq> 0) \<and>
         d' = (if n > Num (Global_Device d) then Flash_LearnNums_Change (ucast n) (set_Num n d) else d))"
        by simp
      have eq: "(\<forall>i. num \<le> i \<and> i < m \<longrightarrow> ID (Global_Device d) i \<noteq> 0) \<longleftrightarrow>
          (\<forall>i. num + 1 \<le> i \<and> i < m \<longrightarrow> ID (Global_Device d) i \<noteq> 0)" for m
        using False by (metis Suc_eq_plus1 Suc_leD Suc_leI le_neq_implies_less)
      have "num + 1 \<le> unat n \<Longrightarrow> num \<le> unat n" by simp
      with ih show ?thesis unfolding eq by blast
    qed
  qed
qed

section \<open>Adding a device\<close>

text \<open>Slaves and doors are entered the same way; a main unit is also counted.\<close>

lemma DoorAdd_SlaveAdd: "DoorAdd_Flash k b d = SlaveAdd_Flash k b d"
  by (simp add: DoorAdd_Flash_def SlaveAdd_Flash_def)

lemma MainAdd_SlaveAdd:
  "MainAdd_Flash k d = (case SlaveAdd_Flash k 0 d of (r, d') \<Rightarrow>
     if r = RT_EOK then (r, snd (Add_MainNums d')) else (r, d'))"
  by (simp add: MainAdd_Flash_def SlaveAdd_Flash_def Let_def split: prod.split)

lemma table_fields_flash [simp]:
  "Global_Device (Flash_LearnNums_Change v d) = Global_Device d" "Global_Device (Flash_MainNums_Change v d) = Global_Device d"
  "Global_Device (Flash_ID_Change k v d) = Global_Device d" "Global_Device (Flash_Bind_Change k v d) = Global_Device d"
  "Global_Device (Flash_Heart_Change k v d) = Global_Device d" "Global_Device (Flash_UploadFlag_Change k v d) = Global_Device d"
  by (simp_all add: flash_writes)

lemma env_set_fields [simp]: "env (set_Num n d) = env d" "env (set_MainNum n d) = env d" "env (put_slot i k b d) = env d"
  by (simp_all add: set_Num_def set_MainNum_def put_slot_def Let_def)

text \<open>What a successful addition leaves behind: the lowest free slot \<open>n\<close> holds the device.\<close>

definition added :: "nat \<Rightarrow> u32 \<Rightarrow> u32 \<Rightarrow> Device_Info \<Rightarrow> Device_Info" where
  "added n k b g = g\<lparr>Num := max (Num g) (word_of_nat n), ID := (ID g)(n := k), Bind_ID := (Bind_ID g)(n := b),
     Heart := (Heart g)(n := 1)\<rparr>"

lemma added_fields [simp]:
  "Bind_ID (added n k b g) i = (if i = n then b else Bind_ID g i)"
  "Heart (added n k b g) i = (if i = n then 1 else Heart g i)"
  "ID (added n k b g) i = (if i = n then k else ID g i)"
  by (simp_all add: added_def)

definition free_slot :: "Device_Info \<Rightarrow> nat \<Rightarrow> bool" where
  "free_slot g n \<longleftrightarrow> 1 \<le> n \<and> n < MaxSupport \<and> ID g n = 0 \<and> (\<forall>i. 1 \<le> i \<and> i < n \<longrightarrow> ID g i \<noteq> 0)"

definition table_full :: "Device_Info \<Rightarrow> bool" where
  "table_full g \<longleftrightarrow> (\<forall>i. 1 \<le> i \<and> i < MaxSupport \<longrightarrow> ID g i \<noteq> 0)"

lemma table_full_free: "table_full g \<longleftrightarrow> (\<nexists>n. free_slot g n)"
proof
  assume "\<nexists>n. free_slot g n"
  show "table_full g"
    unfolding table_full_def
  proof (rule ccontr)
    assume "\<not> (\<forall>i. 1 \<le> i \<and> i < 50 \<longrightarrow> ID g i \<noteq> 0)"
    then have ex: "\<exists>i. 1 \<le> i \<and> i < 50 \<and> ID g i = 0" by blast
    define n where "n = (LEAST i. 1 \<le> i \<and> i < 50 \<and> ID g i = 0)"
    from LeastI_ex [OF ex] have "1 \<le> n \<and> n < 50 \<and> ID g n = 0" unfolding n_def .
    moreover have "ID g i \<noteq> 0" if "1 \<le> i" "i < n" for i
      using not_less_Least [of i "\<lambda>i. 1 \<le> i \<and> i < 50 \<and> ID g i = 0"] that calculation by (auto simp: n_def)
    ultimately show False using \<open>\<nexists>n. free_slot g n\<close> by (auto simp: free_slot_def)
  qed
qed (auto simp: table_full_def free_slot_def)

lemma Get_LearnNums_Valid_full: "table_full (Global_Device d) \<Longrightarrow> Get_LearnNums_Valid d = (0, d)"
  using learn_scan_result [of 1 d "fst (Get_LearnNums_Valid d)" "snd (Get_LearnNums_Valid d)"]
  by (auto simp: Get_LearnNums_Valid_def table_full_def prod_eq_iff)

lemma Get_LearnNums_Valid_free:
  assumes "free_slot (Global_Device d) n"
  shows "Get_LearnNums_Valid d = (word_of_nat n,
    if n > unat (Num (Global_Device d)) then Flash_LearnNums_Change (word_of_nat n) (set_Num (word_of_nat n) d) else d)"
proof -
  obtain m d' where r: "learn_scan 1 d = (m, d')" by fastforce
  have n: "unat (word_of_nat n :: u8) = n" "1 \<le> n" "n < 50"
    using assms by (simp_all add: free_slot_def unsigned_of_nat take_bit_nat_eq_self)
  from learn_scan_result [OF r] assms have m: "1 \<le> unat m" "unat m < 50" "ID (Global_Device d) (unat m) = 0"
    "\<forall>i. 1 \<le> i \<and> i < unat m \<longrightarrow> ID (Global_Device d) i \<noteq> 0"
    and d': "d' = (if m > Num (Global_Device d) then Flash_LearnNums_Change (ucast m) (set_Num m d) else d)"
    by (auto simp: free_slot_def)
  have "unat m = n"
    using m assms unfolding free_slot_def by (metis linorder_cases)
  then have "m = word_of_nat n" using n(1) by (metis word_unat_eq_iff)
  with d' n(1) r show ?thesis
    by (simp add: Get_LearnNums_Valid_def word_less_nat_alt) (metis ucast_word_of_nat)
qed

lemma SlaveAdd_full: "table_full (Global_Device d) \<Longrightarrow> SlaveAdd_Flash k b d = (RT_ERROR, d)"
  by (simp add: SlaveAdd_Flash_def Get_LearnNums_Valid_full)

lemma SlaveAdd_free:
  assumes "free_slot (Global_Device d) n"
  shows "fst (SlaveAdd_Flash k b d) = RT_EOK"
    and "Global_Device (snd (SlaveAdd_Flash k b d)) = added n k b (Global_Device d)"
    and "env (snd (SlaveAdd_Flash k b d)) =
      ef_set_env (''heart:'' @ sprintf_ld k) (sprintf_ld 1) (ef_set_env (''bind:'' @ sprintf_ld k) (sprintf_ld b)
        (ef_set_env (sprintf_ld (word_of_nat n)) (sprintf_ld k)
          (if n > unat (Num (Global_Device d)) then ef_set_env ''Learn_Nums'' (sprintf_ld (word_of_nat n)) (env d) else env d)))"
proof -
  have n: "unat (word_of_nat n :: u8) = n" "1 \<le> n" "n < 50"
    using assms by (simp_all add: free_slot_def unsigned_of_nat take_bit_nat_eq_self)
  then have nz: "(word_of_nat n :: u8) \<noteq> 0" by (metis not_one_le_zero unat_0)
  have cast: "(ucast (word_of_nat n :: u8) :: u32) = word_of_nat n" using n(1) by (metis ucast_word_of_nat)
  have mx: "max (Num (Global_Device d)) (word_of_nat n) =
    (if n > unat (Num (Global_Device d)) then word_of_nat n else Num (Global_Device d))"
    using n(1) by (auto simp: max_def word_le_nat_alt word_unat_eq_iff)
  note r = Get_LearnNums_Valid_free [OF assms]
  show "fst (SlaveAdd_Flash k b d) = RT_EOK"
    using nz by (simp add: SlaveAdd_Flash_def r)
  show "Global_Device (snd (SlaveAdd_Flash k b d)) = added n k b (Global_Device d)"
    using nz n(1) by (simp add: SlaveAdd_Flash_def r added_def mx put_slot_def set_Num_def Let_def)
  show "env (snd (SlaveAdd_Flash k b d)) =
      ef_set_env (''heart:'' @ sprintf_ld k) (sprintf_ld 1) (ef_set_env (''bind:'' @ sprintf_ld k) (sprintf_ld b)
        (ef_set_env (sprintf_ld (word_of_nat n)) (sprintf_ld k)
          (if n > unat (Num (Global_Device d)) then ef_set_env ''Learn_Nums'' (sprintf_ld (word_of_nat n)) (env d) else env d)))"
    using nz cast by (simp add: SlaveAdd_Flash_def r Flash_ID_Change_def Flash_Bind_Change_def
        Flash_Heart_Change_def Flash_LearnNums_Change_def)
qed

lemma table_wf_added:
  assumes "table_wf g" "free_slot g n" "k \<noteq> 0" "\<And>i. ID g i \<noteq> k"
  shows "table_wf (added n k b g)"
proof -
  have n: "unat (word_of_nat n :: u8) = n" "1 \<le> n" "n < 50"
    using assms(2) by (simp_all add: free_slot_def unsigned_of_nat take_bit_nat_eq_self)
  then have "unat (max (Num g) (word_of_nat n)) = max (unat (Num g)) n"
    by (auto simp: max_def word_le_nat_alt)
  with assms n show ?thesis
    unfolding table_wf_def added_def by simp (metis not_one_le_zero)
qed

lemma slot_of_added:
  assumes "table_wf g" "free_slot g n" "k \<noteq> 0" "\<And>i. ID g i \<noteq> k" "j \<noteq> 0"
  shows "slot_of j (added n k b g) = (if j = k then Some n else slot_of j g)"
proof -
  note wf = table_wf_added [OF assms(1-4), of b]
  have eq: "slot_of j (added n k b g) = Some m \<longleftrightarrow> (if j = k then m = n else slot_of j g = Some m)" for m
    unfolding slot_of_wf [OF wf assms(5)] slot_of_wf [OF assms(1,5)]
    using assms(2,4,5) by (auto simp: added_def free_slot_def)
  show ?thesis
  proof (cases "slot_of j (added n k b g)")
    case None
    with eq show ?thesis by (metis not_None_eq)
  next
    case (Some m)
    with eq [of m] show ?thesis by auto
  qed
qed

section \<open>The copy in flash\<close>

text \<open>What the flash says about one device, and when the flash mirrors the table.\<close>

definition mirrors_slot :: "ef_env \<Rightarrow> Device_Info \<Rightarrow> nat \<Rightarrow> bool" where
  "mirrors_slot e g i \<longleftrightarrow>
     env_number e (''bind:'' @ sprintf_ld (ID g i)) = Bind_ID g i \<and>
     env_number e (''heart:'' @ sprintf_ld (ID g i)) = ucast (Heart g i) \<and>
     env_number e (''upload:'' @ sprintf_ld (ID g i)) = ucast (UploadFlag g i)"

definition flash_mirror :: "dev_store \<Rightarrow> bool" where
  "flash_mirror d \<longleftrightarrow> (let g = Global_Device d in
     env_number (env d) ''Learn_Nums'' = ucast (Num g) \<and>
     env_number (env d) ''Main_Nums'' = ucast (MainNum g) \<and>
     (\<forall>i. 1 \<le> i \<and> i \<le> unat (Num g) \<longrightarrow> env_number (env d) (sprintf_ld (word_of_nat i)) = ID g i) \<and>
     (\<forall>i. ID g i \<noteq> 0 \<longrightarrow> mirrors_slot (env d) g i))"

lemma slot_key_inj:
  assumes "i < MaxSupport" "j < MaxSupport"
  shows "sprintf_ld (word_of_nat i) = sprintf_ld (word_of_nat j) \<longleftrightarrow> i = j"
proof -
  have "unat (word_of_nat i :: u32) = i" "unat (word_of_nat j :: u32) = j"
    using assms by (simp_all add: unsigned_of_nat take_bit_nat_eq_self)
  then show ?thesis unfolding sprintf_ld_inj by metis
qed

lemma ucast_u8_u32 [simp]: "(ucast (ucast (h :: u8) :: u32) :: u8) = h"
proof -
  have "unat h < 256" by (rule u8_lt)
  then have "unat (ucast h :: u32) = unat h" by (simp add: unsigned_ucast_eq take_bit_nat_eq_self)
  then show ?thesis unfolding ucast_word_of_nat [of "ucast h :: u32"] by simp
qed

text \<open>The writes of an addition touch only the records of that device and slot.\<close>

lemma mirror_SlaveAdd:
  assumes "table_wf (Global_Device d)" "flash_mirror d" "k \<noteq> 0" "\<And>i. ID (Global_Device d) i \<noteq> k"
    and "free_slot (Global_Device d) n"
    and "env_number (env d) (''upload:'' @ sprintf_ld k) = ucast (UploadFlag (Global_Device d) n)"
  shows "flash_mirror (snd (SlaveAdd_Flash k b d))"
proof -
  let ?g = "Global_Device d" and ?d = "snd (SlaveAdd_Flash k b d)"
  note add = SlaveAdd_free [OF assms(5), where k = k and b = b]
  have n: "unat (word_of_nat n :: u8) = n" "1 \<le> n" "n < 50"
    using assms(5) by (simp_all add: free_slot_def unsigned_of_nat take_bit_nat_eq_self)
  then have num: "unat (max (Num ?g) (word_of_nat n)) = max (unat (Num ?g)) n"
    by (auto simp: max_def word_le_nat_alt)
  have lt: "unat (Num ?g) < 50" using assms(1) by (simp add: table_wf_def)
  have above: "ID ?g i = 0" if "unat (Num ?g) < i" for i using assms(1) that by (simp add: table_wf_def)
  note m = assms(2) [unfolded flash_mirror_def Let_def]
  have learn: "env_number (env ?d) ''Learn_Nums'' = ucast (max (Num ?g) (word_of_nat n))"
    using m n(1) by (auto simp: add(3) max_def word_le_nat_alt) (metis ucast_word_of_nat)+
  have main: "env_number (env ?d) ''Main_Nums'' = ucast (MainNum ?g)"
    using m by (simp add: add(3))
  have ids: "env_number (env ?d) (sprintf_ld (word_of_nat i)) = ((ID ?g)(n := k)) i"
    if "1 \<le> i" "i \<le> max (unat (Num ?g)) n" for i
  proof -
    have i: "i < 50" using that n(3) lt by simp
    show ?thesis
    proof (cases "i = n")
      case True
      then show ?thesis by (simp add: add(3))
    next
      case False
      have "i \<le> unat (Num ?g)"
      proof (rule ccontr)
        assume "\<not> i \<le> unat (Num ?g)"
        then have "ID ?g i = 0" "i < n" using above that False by auto
        with assms(5) that(1) show False by (auto simp: free_slot_def)
      qed
      with m that False show ?thesis
        using slot_key_inj [OF n(3) i] by (simp add: add(3))
    qed
  qed
  have slots: "mirrors_slot (env ?d) (added n k b ?g) i" if "ID (added n k b ?g) i \<noteq> 0" for i
  proof (cases "i = n")
    case True
    with assms(6) show ?thesis by (simp add: mirrors_slot_def added_def add(3))
  next
    case False
    with that have "mirrors_slot (env d) ?g i" "ID ?g i \<noteq> k" using m assms(4) by (auto simp: added_def)
    with False show ?thesis
      by (simp add: mirrors_slot_def added_def add(3) sprintf_ld_inj)
  qed
  show ?thesis
    unfolding flash_mirror_def Let_def add(2)
    using learn main ids slots num by (simp add: added_def)
qed

section \<open>Reloading\<close>

lemma load_slot_env [simp]: "env (load_slot i d) = env d"
  by (simp add: load_slot_def Let_def)

lemma env_fold_load [simp]: "env (fold load_slot is d) = env d"
  by (induction "is" arbitrary: d) simp_all

text \<open>What the loop has read so far: the slots up to \<open>n\<close> agree with the flash.\<close>

lemma fold_load_slots:
  fixes d :: dev_store
  assumes "\<And>i. 1 \<le> i \<Longrightarrow> i \<le> n \<Longrightarrow> env_number (env d) (sprintf_ld (word_of_nat i)) = ID g i"
    and "\<And>i. ID g i \<noteq> 0 \<Longrightarrow> mirrors_slot (env d) g i" and "ID (Global_Device d) = (\<lambda>_. 0)"
  defines "r \<equiv> Global_Device (fold load_slot [1..<n + 1] d)"
  shows "Num r = Num (Global_Device d)" "MainNum r = MainNum (Global_Device d)"
    "ID r i = (if 1 \<le> i \<and> i \<le> n then ID g i else 0)"
    "1 \<le> i \<Longrightarrow> i \<le> n \<Longrightarrow> ID g i \<noteq> 0 \<Longrightarrow>
       Bind_ID r i = Bind_ID g i \<and> Heart r i = Heart g i \<and> UploadFlag r i = UploadFlag g i"
proof -
  have "Num r = Num (Global_Device d) \<and> MainNum r = MainNum (Global_Device d) \<and>
    ID r = (\<lambda>i. if 1 \<le> i \<and> i \<le> n then ID g i else 0) \<and>
    (\<forall>i. 1 \<le> i \<and> i \<le> n \<and> ID g i \<noteq> 0 \<longrightarrow>
       Bind_ID r i = Bind_ID g i \<and> Heart r i = Heart g i \<and> UploadFlag r i = UploadFlag g i)"
    unfolding r_def using assms(1)
  proof (induction n)
    case 0
    then show ?case using assms(3) by auto
  next
    case (Suc n)
    let ?e = "fold load_slot [1..<n + 1] d"
    note IH = Suc.IH [OF Suc.prems]
    have up: "[1..<Suc n + 1] = [1..<n + 1] @ [Suc n]" by simp
    have idn: "env_number (env d) (sprintf_ld (word_of_nat (Suc n))) = ID g (Suc n)"
      using Suc.prems [of "Suc n"] by simp
    have ms: "ID g (Suc n) \<noteq> 0 \<Longrightarrow> mirrors_slot (env d) g (Suc n)" by (rule assms(2))
    show ?case
      unfolding up fold_append comp_def fold.simps id_apply load_slot_def [of "Suc n"] Let_def
      using IH idn ms by (auto simp: mirrors_slot_def le_Suc_eq fun_eq_iff simp del: of_nat_Suc)
  qed
  then show "Num r = Num (Global_Device d)" "MainNum r = MainNum (Global_Device d)"
    "ID r i = (if 1 \<le> i \<and> i \<le> n then ID g i else 0)"
    "1 \<le> i \<Longrightarrow> i \<le> n \<Longrightarrow> ID g i \<noteq> 0 \<Longrightarrow>
       Bind_ID r i = Bind_ID g i \<and> Heart r i = Heart g i \<and> UploadFlag r i = UploadFlag g i"
    by auto
qed

section \<open>Properties\<close>

definition empty_store :: dev_store where
  "empty_store = \<lparr>Global_Device = Device_Info_zero, env = Map.empty\<rparr>"

lemma empty_store_wf:
  "table_wf (Global_Device empty_store)" "flash_mirror empty_store" "free_slot (Global_Device empty_store) 1"
  by (simp_all add: empty_store_def Device_Info_zero_def table_wf_def flash_mirror_def free_slot_def
      env_number_def ef_get_env_blob_def)

text \<open>Entering a new device takes the lowest free slot, keeps the table well formed, makes the
  device known with the given binding and online, and leaves every other device as it was.\<close>

lemma SlaveAdd_Flash_enters:
  assumes "table_wf (Global_Device d)" and "free_slot (Global_Device d) n" and "k \<noteq> 0"
    and "Flash_Get_Key_Valid k d = RT_ERROR"
  shows "\<exists>d'. SlaveAdd_Flash k b d = (RT_EOK, d') \<and> table_wf (Global_Device d') \<and>
    ID (Global_Device d') n = k \<and> Flash_Get_Key_Valid k d' = RT_EOK \<and> GetBindID k d' = b \<and> Flash_Get_Heart k d' = 1 \<and>
    (\<forall>j. j = 0 \<or> j = k \<or>
       (Flash_Get_Key_Valid j d' = Flash_Get_Key_Valid j d \<and> GetBindID j d' = GetBindID j d \<and>
        Flash_Get_Heart j d' = Flash_Get_Heart j d))"
proof -
  let ?d = "snd (SlaveAdd_Flash k b d)"
  have new: "\<And>i. ID (Global_Device d) i \<noteq> k"
    using assms(4) slot_of_None [OF assms(1,3)] by (auto simp: Flash_Get_Key_Valid_def split: option.splits)
  note add = SlaveAdd_free [OF assms(2), where k = k and b = b]
  note slot = slot_of_added [OF assms(1-3) new]
  have old: "slot_of j (Global_Device d) \<noteq> Some n" if "j \<noteq> 0" for j
    using slot_of_wf [OF assms(1) that, of n] assms(2) that by (auto simp: free_slot_def)
  have "\<forall>j. j = 0 \<or> j = k \<or> (Flash_Get_Key_Valid j ?d = Flash_Get_Key_Valid j d \<and>
      GetBindID j ?d = GetBindID j d \<and> Flash_Get_Heart j ?d = Flash_Get_Heart j d)"
  proof (intro allI)
    fix j
    show "j = 0 \<or> j = k \<or> (Flash_Get_Key_Valid j ?d = Flash_Get_Key_Valid j d \<and>
      GetBindID j ?d = GetBindID j d \<and> Flash_Get_Heart j ?d = Flash_Get_Heart j d)"
      using slot [of j b] old [of j] by (cases "j = 0")
        (auto simp: Flash_Get_Key_Valid_def GetBindID_def Flash_Get_Heart_def add(2) split: option.split)
  qed
  then show ?thesis
    using add(1,2) slot [OF assms(3)] table_wf_added [OF assms(1-3) new]
    by (intro exI [of _ ?d]) (simp add: prod_eq_iff Flash_Get_Key_Valid_def GetBindID_def Flash_Get_Heart_def)
qed

text \<open>A full table refuses: with all 49 slots taken the three ways of adding a device return an
  error and change neither the table nor the flash.\<close>

lemma add_full_refused:
  assumes "table_full (Global_Device d)"
  shows "MainAdd_Flash k d = (RT_ERROR, d) \<and> SlaveAdd_Flash k b d = (RT_ERROR, d) \<and> DoorAdd_Flash k b d = (RT_ERROR, d)"
  by (simp add: MainAdd_SlaveAdd DoorAdd_SlaveAdd SlaveAdd_full [OF assms])

text \<open>The flash copy stays complete when a device is added: from a store that mirrors the table,
  adding a new main unit, whose stored upload flag agrees with the slot it gets, leads to a store that
  mirrors the table again.\<close>

lemma MainAdd_Flash_mirror:
  assumes "table_wf (Global_Device d)" and "flash_mirror d" and "k \<noteq> 0"
    and "Flash_Get_Key_Valid k d = RT_ERROR" and "free_slot (Global_Device d) n"
    and "env_number (env d) (''upload:'' @ sprintf_ld k) = ucast (UploadFlag (Global_Device d) n)"
  shows "flash_mirror (snd (MainAdd_Flash k d))"
proof -
  have new: "\<And>i. ID (Global_Device d) i \<noteq> k"
    using assms(4) slot_of_None [OF assms(1,3)] by (auto simp: Flash_Get_Key_Valid_def split: option.splits)
  let ?e = "snd (SlaveAdd_Flash k 0 d)"
  have m: "flash_mirror ?e" by (rule mirror_SlaveAdd [OF assms(1-3) new assms(5,6)])
  have main: "snd (MainAdd_Flash k d) = snd (Add_MainNums ?e)"
    using SlaveAdd_free(1) [OF assms(5), of k 0] by (cases "SlaveAdd_Flash k 0 d") (simp add: MainAdd_SlaveAdd)
  have keys: "sprintf_ld j \<noteq> ''Main_Nums''" for j :: u32 by simp
  show ?thesis
    using m keys
    by (auto simp: main Add_MainNums_def Let_def Flash_MainNums_Change_def set_MainNum_def flash_mirror_def mirrors_slot_def)
qed

lemma load_recovers:
  assumes "table_wf (Global_Device d)" and "flash_mirror d"
  shows "\<exists>d'. LoadDevice2Memory d = Inr d' \<and> env d' = env d \<and>
    Num (Global_Device d') = Num (Global_Device d) \<and> MainNum (Global_Device d') = MainNum (Global_Device d) \<and>
    ID (Global_Device d') = ID (Global_Device d) \<and>
    (\<forall>i. ID (Global_Device d) i = 0 \<or>
       (Bind_ID (Global_Device d') i = Bind_ID (Global_Device d) i \<and> Heart (Global_Device d') i = Heart (Global_Device d) i \<and>
        UploadFlag (Global_Device d') i = UploadFlag (Global_Device d) i))"
proof -
  let ?g = "Global_Device d"
  let ?start = "set_MainNum (MainNum ?g) (set_Num (Num ?g) (d\<lparr>Global_Device := Device_Info_zero\<rparr>))"
  let ?n = "unat (Num ?g)"
  note m = assms(2) [unfolded flash_mirror_def Let_def] and wf = assms(1) [unfolded table_wf_def]
  have in_range: "ID ?g i \<noteq> 0 \<Longrightarrow> 1 \<le> i \<and> i \<le> ?n" for i
    using wf by (cases i) (auto simp: not_less [symmetric])
  have run: "LoadDevice2Memory d = Inr (fold load_slot [1..<?n + 1] ?start)"
    using m wf by (simp add: LoadDevice2Memory_def Let_def Flash_Get_Learn_Nums_def Flash_Get_Main_Nums_def
        set_Num_def set_MainNum_def)
  have "ID (Global_Device ?start) = (\<lambda>_. 0)"
    by (simp add: set_Num_def set_MainNum_def Device_Info_zero_def)
  note fold = fold_load_slots [of ?n ?start ?g, OF _ _ this]
  have 1: "1 \<le> i \<Longrightarrow> i \<le> ?n \<Longrightarrow> env_number (env ?start) (sprintf_ld (word_of_nat i)) = ID ?g i"
    and 2: "ID ?g i \<noteq> 0 \<Longrightarrow> mirrors_slot (env ?start) ?g i" for i
    using m by simp_all
  have nums: "Num (Global_Device ?start) = Num ?g" "MainNum (Global_Device ?start) = MainNum ?g" "env ?start = env d"
    by (simp_all add: set_Num_def set_MainNum_def)
  show ?thesis
    unfolding run
  proof (intro exI conjI allI, rule refl)
    show "ID (Global_Device (fold load_slot [1..<?n + 1] ?start)) = ID ?g"
      using fold(3) [OF 1 2] in_range by (auto simp: fun_eq_iff)
    show "ID ?g i = 0 \<or> (Bind_ID (Global_Device (fold load_slot [1..<?n + 1] ?start)) i = Bind_ID ?g i \<and>
        Heart (Global_Device (fold load_slot [1..<?n + 1] ?start)) i = Heart ?g i \<and>
        UploadFlag (Global_Device (fold load_slot [1..<?n + 1] ?start)) i = UploadFlag ?g i)" for i
      using fold(4) [OF 1 2, of i] in_range [of i] by blast
  qed (use fold(1,2) [OF 1 2] nums in simp_all)
qed

text \<open>Property C5. Nothing is lost over a restart: when the flash mirrors a well-formed table, reloading gives
  the same counters, the same device in every slot, and for every device its binding, online state
  and upload flag.\<close>

theorem LoadDevice2Memory_recovers:
  assumes "table_wf (Global_Device d)" and "flash_mirror d"
  shows "\<exists>d'. LoadDevice2Memory d = Inr d' \<and> env d' = env d \<and>
    Num (Global_Device d') = Num (Global_Device d) \<and> MainNum (Global_Device d') = MainNum (Global_Device d) \<and>
    ID (Global_Device d') = ID (Global_Device d) \<and>
    (\<forall>i. ID (Global_Device d) i = 0 \<or>
       (Bind_ID (Global_Device d') i = Bind_ID (Global_Device d) i \<and> Heart (Global_Device d') i = Heart (Global_Device d) i \<and>
        UploadFlag (Global_Device d') i = UploadFlag (Global_Device d) i))"
  using assms by (rule load_recovers)

theorem LoadDevice2Memory_recovers_witness: "\<exists>d'. LoadDevice2Memory empty_store = Inr d'"
  using LoadDevice2Memory_recovers [OF empty_store_wf(1,2)] by blast

text \<open>Reloading trusts the stored slot count: with a count of 50 or more (modulo 256) in flash the
  loop writes past the arrays of the table.\<close>

lemma LoadDevice2Memory_unchecked:
  assumes "unat (env_number (env d) ''Learn_Nums'') mod 256 \<ge> MaxSupport"
  shows "LoadDevice2Memory d = Inl Out_Of_Bounds"
proof -
  let ?v = "env_number (env d) ''Learn_Nums''"
  have "unat (ucast ?v :: u8) = unat ?v mod 256"
    by (simp add: unsigned_ucast_eq unsigned_take_bit_eq take_bit_eq_mod)
  with assms show ?thesis
    by (simp add: LoadDevice2Memory_def Let_def Flash_Get_Learn_Nums_def set_Num_def set_MainNum_def)
qed

text \<open>Identifier 0 is taken for a known device as soon as a slot below \<open>Num\<close> is empty, because a
  deleted slot holds 0: the check that authorises radio messages then accepts a sender 0.\<close>

lemma Flash_Get_Key_Valid_zero:
  assumes "1 \<le> i" and "i \<le> unat (Num (Global_Device d))" and "ID (Global_Device d) i = 0"
  shows "Flash_Get_Key_Valid 0 d = RT_EOK"
proof -
  have "slot_of 0 (Global_Device d) \<noteq> None"
    unfolding slot_of_def down_find_None using assms by blast
  then show ?thesis by (auto simp: Flash_Get_Key_Valid_def)
qed

end
