(* ===== verification/Fifo.thy ===== *)
theory Fifo
  imports Prelude
begin

text \<open>
  The contract of a first-in first-out buffer, as the clients of the two queues of the gateway
  rely on it: the byte ring between the serial interrupt and the protocol parser
  (\<open>Wifi_Uart_Rx\<close>) and the transmit queue of the radio (\<open>Radio_Queue\<close>). Each of those theories
  interprets it on the definitions that model the code.
\<close>

text \<open>\<open>deq\<close> returns \<open>None\<close> where the C function returns an indeterminate value. \<open>room\<close> is the
  condition under which an element that is offered is kept.\<close>

locale fifo =
  fixes contents :: "'s \<Rightarrow> 'a list"
    and invar :: "'s \<Rightarrow> bool"
    and room :: "'s \<Rightarrow> bool"
    and enq :: "'a \<Rightarrow> 's \<Rightarrow> 's"
    and deq :: "'s \<Rightarrow> 'a option \<times> 's"
  assumes enq_invar: "invar s \<Longrightarrow> invar (enq a s)"
    and enq_room: "invar s \<Longrightarrow> room s \<Longrightarrow> contents (enq a s) = contents s @ [a]"
    and deq_invar: "invar s \<Longrightarrow> invar (snd (deq s))"
    and deq_Nil: "invar s \<Longrightarrow> contents s = [] \<Longrightarrow> fst (deq s) = None \<and> contents (snd (deq s)) = []"
    and deq_Cons: "invar s \<Longrightarrow> contents s = a # as \<Longrightarrow> fst (deq s) = Some a \<and> contents (snd (deq s)) = as"
begin

text \<open>Offer a sequence, take up to \<open>n\<close> elements.\<close>

primrec feed :: "'a list \<Rightarrow> 's \<Rightarrow> 's" where
  "feed [] s = s"
| "feed (a # as) s = feed as (enq a s)"

primrec roomy :: "'a list \<Rightarrow> 's \<Rightarrow> bool" where
  "roomy [] s = True"
| "roomy (a # as) s = (room s \<and> roomy as (enq a s))"

primrec take_out :: "nat \<Rightarrow> 's \<Rightarrow> 'a list \<times> 's" where
  "take_out 0 s = ([], s)"
| "take_out (Suc n) s = (case deq s of (None, s') \<Rightarrow> ([], s')
     | (Some a, s') \<Rightarrow> (let (as, t) = take_out n s' in (a # as, t)))"

lemma feed_invar: "invar s \<Longrightarrow> invar (feed as s)"
  by (induction as arbitrary: s) (auto intro: enq_invar)

lemma feed_contents: "invar s \<Longrightarrow> roomy as s \<Longrightarrow> contents (feed as s) = contents s @ as"
  by (induction as arbitrary: s) (auto simp: enq_room enq_invar)

lemma deq_cases:
  assumes "invar s"
  obtains (empty) s' where "contents s = []" "deq s = (None, s')" "contents s' = []" "invar s'"
    | (front) a as s' where "contents s = a # as" "deq s = (Some a, s')" "contents s' = as" "invar s'"
proof (cases "contents s")
  case Nil
  with deq_Nil [OF assms] deq_invar [OF assms] show ?thesis
    by (intro empty [of "snd (deq s)"]) (auto simp: prod_eq_iff)
next
  case (Cons a as)
  with deq_Cons [OF assms] deq_invar [OF assms] show ?thesis
    by (intro front [of a as "snd (deq s)"]) (auto simp: prod_eq_iff)
qed

lemma take_out_contents:
  assumes "invar s"
  shows "fst (take_out n s) = take n (contents s) \<and> contents (snd (take_out n s)) = drop n (contents s)
    \<and> invar (snd (take_out n s))"
  using assms
proof (induction n arbitrary: s)
  case 0
  then show ?case by simp
next
  case (Suc n)
  from Suc.prems show ?case
  proof (cases rule: deq_cases)
    case (empty s')
    with Suc.prems show ?thesis by simp
  next
    case (front a as s')
    with Suc.IH [of s'] show ?thesis by (auto split: prod.split simp: Let_def)
  qed
qed

text \<open>What goes in comes out, in order.\<close>

lemma feed_take_out:
  assumes "invar s" and "contents s = []" and "roomy as s"
  shows "fst (take_out (length as) (feed as s)) = as"
  using assms take_out_contents [OF feed_invar] feed_contents by simp

end

text \<open>A queue with a capacity: below it there is room.\<close>

locale bounded_fifo = fifo contents invar room enq deq
  for contents :: "'s \<Rightarrow> 'a list" and invar :: "'s \<Rightarrow> bool" and room :: "'s \<Rightarrow> bool"
    and enq :: "'a \<Rightarrow> 's \<Rightarrow> 's" and deq :: "'s \<Rightarrow> 'a option \<times> 's" +
  fixes capacity :: nat
  assumes room_below: "invar s \<Longrightarrow> length (contents s) < capacity \<Longrightarrow> room s"
begin

lemma roomy_below: "invar s \<Longrightarrow> length (contents s) + length as \<le> capacity \<Longrightarrow> roomy as s"
proof (induction as arbitrary: s)
  case Nil
  then show ?case by simp
next
  case (Cons a as)
  then have room: "room s" using room_below [of s] by simp
  with Cons.prems have "invar (enq a s)" "length (contents (enq a s)) + length as \<le> capacity"
    by (simp_all add: enq_invar enq_room)
  with Cons.IH room show ?case by simp
qed

lemma feed_below:
  "invar s \<Longrightarrow> length (contents s) + length as \<le> capacity \<Longrightarrow> contents (feed as s) = contents s @ as"
  using feed_contents roomy_below by blast

end

end
