(* ===== verification/Radio_Encoder.thy ===== *)
theory Radio_Encoder
  imports Fifo
begin

text \<open>
  The transmit side of the 433 MHz radio (\<open>src/radio/Radio_Encoder.c\<close>): the queue of messages, the
  thread that empties it, and the two packet formats. A packet handed to the transceiver driver
  (\<open>Normal_send\<close>) is appended to \<open>air\<close>; \<open>ChangeMaxPower\<close> and \<open>BackNormalPower\<close> of
  \<open>src/radio/Radio_Common.c\<close> switch the output power around a heart beat.
\<close>

section \<open>State\<close>

text \<open>The six arrays have 50 cells, cell 0 is never used.\<close>

record Radio_Queue =
  NowNum :: u8
  TargetNum :: u8
  Type :: "nat \<Rightarrow> u8"
  Taget_Id :: "nat \<Rightarrow> u32"
  Device_Id :: "nat \<Rightarrow> u32"
  Counter :: "nat \<Rightarrow> u8"
  Command :: "nat \<Rightarrow> u8"
  Data :: "nat \<Rightarrow> u8"

record radio =
  Queue_433 :: Radio_Queue
  Self_Id :: u32
  air :: "bytes list"
  send_timer :: bool
  axradio_power_now :: u8
  TXPWRCOEFFB1 :: u8
  TXPWRCOEFFB0 :: u8

abbreviation (input) Self_Default_Id :: u32 where "Self_Default_Id \<equiv> 40000000"

section \<open>Packets\<close>

text \<open>The format strings, the first with \<open>Data\<close> unpadded.\<close>

definition radio_text :: "u32 \<Rightarrow> u32 \<Rightarrow> u8 \<Rightarrow> u8 \<Rightarrow> u8 \<Rightarrow> string" where
  "radio_text target self counter cmd dat =
    ''{'' @ sprintf_0ld 8 target @ '','' @ sprintf_0ld 8 self @ '','' @ sprintf_0ld 3 (ucast counter) @ '','' @
    sprintf_0ld 2 (ucast cmd) @ '','' @ sprintf_ld (ucast dat) @ ''}''"

definition gateway_text :: "u32 \<Rightarrow> u32 \<Rightarrow> u32 \<Rightarrow> u8 \<Rightarrow> u8 \<Rightarrow> u8 \<Rightarrow> string" where
  "gateway_text target self device rssi control val =
    ''G{'' @ sprintf_0ld 8 target @ '','' @ sprintf_0ld 8 self @ '','' @ sprintf_0ld 8 device @ '','' @
    sprintf_0ld 3 (ucast rssi) @ '','' @ sprintf_0ld 3 (ucast control) @ '','' @ sprintf_0ld 2 (ucast val) @ ''}G''"

definition next_counter :: "u8 \<Rightarrow> u8" where
  "next_counter counter = (if counter < 255 then counter + 1 else 0)"

definition check_digit :: "u8 \<Rightarrow> u8" where
  "check_digit n = (if n < 10 then n + byte_of (CHR ''0'') else n - 10 + byte_of (CHR ''A''))"

text \<open>Cells 28 to 31 of the buffer are overwritten with the checksum and the line end.\<close>

definition radio_packet :: "u32 \<Rightarrow> u32 \<Rightarrow> u8 \<Rightarrow> u8 \<Rightarrow> u8 \<Rightarrow> bytes" where
  "radio_packet target self counter cmd dat =
    (let buf = bytes_of (radio_text target self (next_counter counter) cmd dat);
         check = sum_list (take 28 buf)
     in take 28 buf @ [check_digit (check div 16), check_digit (check mod 16), 13, 10])"

definition gateway_packet :: "u32 \<Rightarrow> u32 \<Rightarrow> u32 \<Rightarrow> u8 \<Rightarrow> u8 \<Rightarrow> u8 \<Rightarrow> bytes" where
  "gateway_packet target self device rssi control val =
    take 41 (bytes_of (gateway_text target self device rssi control val))"

definition Normal_send :: "bytes \<Rightarrow> radio \<Rightarrow> radio" where
  "Normal_send buf r = r\<lparr>air := air r @ [buf]\<rparr>"

definition rf_433_send_timer_start :: "radio \<Rightarrow> radio" where
  "rf_433_send_timer_start r = r\<lparr>send_timer := True\<rparr>"

definition RadioSend :: "u32 \<Rightarrow> u8 \<Rightarrow> u8 \<Rightarrow> u8 \<Rightarrow> radio \<Rightarrow> radio" where
  "RadioSend target counter cmd dat r =
    rf_433_send_timer_start (Normal_send (radio_packet target (Self_Id r) counter cmd dat) r)"

definition GatewayDataSend :: "u32 \<Rightarrow> u32 \<Rightarrow> u8 \<Rightarrow> u8 \<Rightarrow> u8 \<Rightarrow> radio \<Rightarrow> radio" where
  "GatewayDataSend target device rssi control val r =
    rf_433_send_timer_start (Normal_send (gateway_packet target (Self_Id r) device rssi control val) r)"

definition Start_Learn :: "radio \<Rightarrow> radio" where
  "Start_Learn r = RadioSend 99999999 1 3 1 r"

section \<open>The queue\<close>

definition GatewayDataEnqueue :: "u32 \<Rightarrow> u32 \<Rightarrow> u8 \<Rightarrow> u8 \<Rightarrow> u8 \<Rightarrow> radio \<Rightarrow> radio" where
  "GatewayDataEnqueue target device rssi control val r =
    (let q = Queue_433 r
     in if TargetNum q < 30 then
          (let n = unat (TargetNum q + 1)
           in r\<lparr>Queue_433 := q\<lparr>TargetNum := TargetNum q + 1, Type := (Type q)(n := 1),
                  Taget_Id := (Taget_Id q)(n := target), Device_Id := (Device_Id q)(n := device),
                  Counter := (Counter q)(n := rssi), Command := (Command q)(n := control),
                  Data := (Data q)(n := val)\<rparr>\<rparr>)
        else r)"

definition RadioEnqueue :: "u32 \<Rightarrow> u8 \<Rightarrow> u8 \<Rightarrow> u8 \<Rightarrow> radio \<Rightarrow> radio" where
  "RadioEnqueue target counter cmd dat r =
    (let q = Queue_433 r
     in if TargetNum q < 30 then
          (let n = unat (TargetNum q + 1)
           in r\<lparr>Queue_433 := q\<lparr>TargetNum := TargetNum q + 1, Type := (Type q)(n := 0),
                  Taget_Id := (Taget_Id q)(n := target),
                  Counter := (Counter q)(n := counter), Command := (Command q)(n := cmd),
                  Data := (Data q)(n := dat)\<rparr>\<rparr>)
        else r)"

text \<open>One turn of the loop of the queue thread.\<close>

definition RadioDequeue :: "radio \<Rightarrow> radio" where
  "RadioDequeue r =
    (let q = Queue_433 r
     in if NowNum q = TargetNum q then r\<lparr>Queue_433 := q\<lparr>NowNum := 0, TargetNum := 0\<rparr>\<rparr>
        else if TargetNum q > 0 \<and> TargetNum q > NowNum q then
          (let q = q\<lparr>NowNum := NowNum q + 1\<rparr>;
               n = unat (NowNum q);
               r = r\<lparr>Queue_433 := q\<rparr>
           in if Type q n = 0 then RadioSend (Taget_Id q n) (Counter q n) (Command q n) (Data q n) r
              else if Type q n = 1
              then GatewayDataSend (Taget_Id q n) (Device_Id q n) (Counter q n) (Command q n) (Data q n) r
              else r)
        else r)"

text \<open>The identity of the gateway is the word at flash address \<open>0x0800FFF0\<close>, an argument here.\<close>

definition RadioDequeueTaskInit :: "u32 \<Rightarrow> radio \<Rightarrow> radio" where
  "RadioDequeueTaskInit flash_word r =
    (if flash_word = 0xFFFFFFFF \<or> flash_word = 0 then r\<lparr>Self_Id := Self_Default_Id\<rparr>
     else r\<lparr>Self_Id := flash_word\<rparr>)"

definition ChangeMaxPower :: "radio \<Rightarrow> radio" where
  "ChangeMaxPower r = (if axradio_power_now r = 0
     then r\<lparr>axradio_power_now := 1, TXPWRCOEFFB1 := 0x0C, TXPWRCOEFFB0 := 0x00\<rparr> else r)"

definition BackNormalPower :: "radio \<Rightarrow> radio" where
  "BackNormalPower r = (if axradio_power_now r \<noteq> 0
     then r\<lparr>axradio_power_now := 0, TXPWRCOEFFB1 := 0x07, TXPWRCOEFFB0 := 0x00\<rparr> else r)"

section \<open>The queue is a FIFO\<close>

datatype radio_msg =
  Normal_Msg u32 u8 u8 u8
| Gateway_Msg u32 u32 u8 u8 u8

fun radio_enqueue :: "radio_msg \<Rightarrow> radio \<Rightarrow> radio" where
  "radio_enqueue (Normal_Msg target counter cmd dat) r = RadioEnqueue target counter cmd dat r"
| "radio_enqueue (Gateway_Msg target device rssi control val) r = GatewayDataEnqueue target device rssi control val r"

fun msg_packet :: "u32 \<Rightarrow> radio_msg \<Rightarrow> bytes" where
  "msg_packet self (Normal_Msg target counter cmd dat) = radio_packet target self counter cmd dat"
| "msg_packet self (Gateway_Msg target device rssi control val) = gateway_packet target self device rssi control val"

definition queue_cell :: "Radio_Queue \<Rightarrow> nat \<Rightarrow> radio_msg" where
  "queue_cell q n = (if Type q n = 0 then Normal_Msg (Taget_Id q n) (Counter q n) (Command q n) (Data q n)
     else Gateway_Msg (Taget_Id q n) (Device_Id q n) (Counter q n) (Command q n) (Data q n))"

definition queued :: "radio \<Rightarrow> radio_msg list" where
  "queued r = map (queue_cell (Queue_433 r)) [Suc (unat (NowNum (Queue_433 r)))..<Suc (unat (TargetNum (Queue_433 r)))]"

definition queue_wf :: "radio \<Rightarrow> bool" where
  "queue_wf r \<longleftrightarrow> (let q = Queue_433 r in NowNum q \<le> TargetNum q \<and> TargetNum q \<le> 30 \<and>
     (\<forall>n. unat (NowNum q) < n \<longrightarrow> n \<le> unat (TargetNum q) \<longrightarrow> Type q n = 0 \<or> Type q n = 1))"

definition radio_room :: "radio \<Rightarrow> bool" where
  "radio_room r \<longleftrightarrow> TargetNum (Queue_433 r) < 30"

definition radio_next :: "radio \<Rightarrow> radio_msg option \<times> radio" where
  "radio_next r = (case queued r of [] \<Rightarrow> None | m # _ \<Rightarrow> Some m, RadioDequeue r)"

lemma queue_nums: "queue_wf r \<Longrightarrow> unat (NowNum (Queue_433 r)) \<le> unat (TargetNum (Queue_433 r)) \<and> unat (TargetNum (Queue_433 r)) \<le> 30"
  by (auto simp: queue_wf_def Let_def word_le_nat_alt)

lemma target_suc: "TargetNum q < 30 \<Longrightarrow> unat (TargetNum q + 1) = Suc (unat (TargetNum q))"
  by (simp add: word_less_nat_alt unat8_add)

lemma enqueue_queue:
  assumes "queue_wf r"
  shows "queue_wf (radio_enqueue m r)"
    and "radio_room r \<Longrightarrow> queued (radio_enqueue m r) = queued r @ [m]"
    and "\<not> radio_room r \<Longrightarrow> radio_enqueue m r = r"
proof -
  note [simp] = RadioEnqueue_def GatewayDataEnqueue_def Let_def
  show "\<not> radio_room r \<Longrightarrow> radio_enqueue m r = r"
    by (cases m) (simp_all add: radio_room_def)
  show "queue_wf (radio_enqueue m r)"
  proof (cases "TargetNum (Queue_433 r) < 30")
    case True
    then show ?thesis using assms target_suc [OF True]
      by (cases m) (auto simp: queue_wf_def word_le_nat_alt word_less_nat_alt)
  next
    case False
    with assms show ?thesis by (cases m) simp_all
  qed
  assume room: "radio_room r"
  then have less: "TargetNum (Queue_433 r) < 30" by (simp add: radio_room_def)
  have le: "unat (NowNum (Queue_433 r)) \<le> unat (TargetNum (Queue_433 r))" using queue_nums [OF assms] by simp
  show "queued (radio_enqueue m r) = queued r @ [m]"
    using less le target_suc [OF less]
    by (cases m) (auto simp: queued_def queue_cell_def)
qed

text \<open>A turn of the thread on a queue that holds something sends its oldest message.\<close>

lemma now_suc:
  assumes "queue_wf r" "NowNum (Queue_433 r) \<noteq> TargetNum (Queue_433 r)"
  shows "NowNum (Queue_433 r) < TargetNum (Queue_433 r)"
    and "unat (NowNum (Queue_433 r) + 1) = Suc (unat (NowNum (Queue_433 r)))"
proof -
  have "unat (NowNum (Queue_433 r)) \<noteq> unat (TargetNum (Queue_433 r))"
    using assms(2) by (simp add: word_unat_eq_iff)
  with queue_nums [OF assms(1)]
  have less: "unat (NowNum (Queue_433 r)) < unat (TargetNum (Queue_433 r))" "unat (NowNum (Queue_433 r)) < 30"
    by linarith+
  then show "NowNum (Queue_433 r) < TargetNum (Queue_433 r)" by (simp add: word_less_nat_alt)
  show "unat (NowNum (Queue_433 r) + 1) = Suc (unat (NowNum (Queue_433 r)))"
    using less unat8_add [of "NowNum (Queue_433 r)" 1] by simp
qed

lemma queued_Nil: "queue_wf r \<Longrightarrow> queued r = [] \<longleftrightarrow> NowNum (Queue_433 r) = TargetNum (Queue_433 r)"
  using queue_nums [of r] by (auto simp: queued_def word_unat_eq_iff)

lemma RadioDequeue_empty:
  assumes "queue_wf r" "queued r = []"
  shows "RadioDequeue r = r\<lparr>Queue_433 := (Queue_433 r)\<lparr>NowNum := 0, TargetNum := 0\<rparr>\<rparr>"
  using assms by (simp add: queued_Nil RadioDequeue_def Let_def)

lemma RadioDequeue_front:
  assumes wf: "queue_wf r" and front: "queued r = m # ms"
  shows "RadioDequeue r = r\<lparr>Queue_433 := (Queue_433 r)\<lparr>NowNum := NowNum (Queue_433 r) + 1\<rparr>,
    air := air r @ [msg_packet (Self_Id r) m], send_timer := True\<rparr>"
    and "queue_wf (RadioDequeue r)" and "queued (RadioDequeue r) = ms"
proof -
  let ?q = "Queue_433 r"
  have ne: "NowNum ?q \<noteq> TargetNum ?q" using queued_Nil [OF wf] front by simp
  note now = now_suc [OF wf ne]
  then have less: "unat (NowNum ?q) < unat (TargetNum ?q)" by (simp add: word_less_nat_alt)
  have m: "m = queue_cell ?q (Suc (unat (NowNum ?q)))"
    and ms: "ms = map (queue_cell ?q) [Suc (Suc (unat (NowNum ?q)))..<Suc (unat (TargetNum ?q))]"
    using front less unfolding queued_def by (simp_all only: upt_conv_Cons Suc_less_eq list.map list.inject)
  have type: "Type ?q (Suc (unat (NowNum ?q))) = 0 \<or> Type ?q (Suc (unat (NowNum ?q))) = 1"
    using wf less by (simp add: queue_wf_def Let_def)
  have pos: "TargetNum ?q > 0" using now by (metis word_gt_0 word_not_simps(1))
  show eq: "RadioDequeue r = r\<lparr>Queue_433 := ?q\<lparr>NowNum := NowNum ?q + 1\<rparr>,
    air := air r @ [msg_packet (Self_Id r) m], send_timer := True\<rparr>"
    using now pos type ne unfolding m
    by (auto simp: RadioDequeue_def Let_def queue_cell_def RadioSend_def GatewayDataSend_def Normal_send_def
        rf_433_send_timer_start_def)
  show "queue_wf (RadioDequeue r)"
    using wf now less unfolding eq by (auto simp: queue_wf_def Let_def word_le_nat_alt)
  have "queue_cell (?q\<lparr>NowNum := v\<rparr>) = queue_cell ?q" for v by (rule ext) (simp add: queue_cell_def)
  then show "queued (RadioDequeue r) = ms"
    unfolding eq ms using now by (simp add: queued_def)
qed

lemma RadioDequeue_wf: "queue_wf r \<Longrightarrow> queue_wf (RadioDequeue r)"
  using RadioDequeue_front(2) [of r] RadioDequeue_empty [of r]
  by (cases "queued r") (auto simp: queue_wf_def Let_def)

interpretation radio_fifo: fifo queued queue_wf radio_room radio_enqueue radio_next
proof unfold_locales
  fix r :: radio and m ms
  assume wf: "queue_wf r"
  show "queue_wf (radio_enqueue m r)" using wf by (rule enqueue_queue)
  show "queue_wf (snd (radio_next r))" using wf by (simp add: radio_next_def RadioDequeue_wf)
  show "radio_room r \<Longrightarrow> queued (radio_enqueue m r) = queued r @ [m]" using wf by (rule enqueue_queue)
  show "queued r = [] \<Longrightarrow> fst (radio_next r) = None \<and> queued (snd (radio_next r)) = []"
    using wf by (simp add: radio_next_def RadioDequeue_empty) (simp add: queued_def)
  show "queued r = m # ms \<Longrightarrow> fst (radio_next r) = Some m \<and> queued (snd (radio_next r)) = ms"
    using RadioDequeue_front(3) [OF wf] by (simp add: radio_next_def)
qed

text \<open>Enqueueing touches the queue only.\<close>

definition queue_only :: "radio \<Rightarrow> radio \<Rightarrow> bool" where
  "queue_only r r' \<longleftrightarrow> (\<exists>q. r' = r\<lparr>Queue_433 := q\<rparr>)"

lemma queue_only_enqueue [frame]: "queue_only r (radio_enqueue m r)"
  by (cases m) (auto simp: queue_only_def RadioEnqueue_def GatewayDataEnqueue_def Let_def
      intro: exI [of _ "Queue_433 r"])

lemma queue_only_keeps:
  assumes "queue_only r r'"
  shows "air r' = air r" "Self_Id r' = Self_Id r" "axradio_power_now r' = axradio_power_now r"
    "send_timer r' = send_timer r"
  using assms by (auto simp: queue_only_def)

lemma queue_only_refl [simp]: "queue_only r r"
  by (auto simp: queue_only_def intro: exI [of _ "Queue_433 r"])

lemma queue_only_trans [trans]: "queue_only r s \<Longrightarrow> queue_only s t \<Longrightarrow> queue_only r t"
  by (auto simp: queue_only_def)

lemma feed_fold: "radio_fifo.feed ms r = fold radio_enqueue ms r"
  by (induction ms arbitrary: r) simp_all

lemma queue_only_fold [frame]: "queue_only r (fold radio_enqueue ms r)"
proof (induction ms arbitrary: r)
  case Nil
  then show ?case by simp
next
  case (Cons m ms)
  from queue_only_trans [OF queue_only_enqueue Cons.IH] show ?case by simp
qed

lemma roomy_queue:
  assumes "queue_wf r" "unat (TargetNum (Queue_433 r)) + length ms \<le> 30"
  shows "radio_fifo.roomy ms r"
  using assms
proof (induction ms arbitrary: r)
  case Nil
  then show ?case by simp
next
  case (Cons m ms)
  then have less: "TargetNum (Queue_433 r) < 30" by (simp add: word_less_nat_alt)
  then have "unat (TargetNum (Queue_433 (radio_enqueue m r))) = Suc (unat (TargetNum (Queue_433 r)))"
    using target_suc [OF less] by (cases m) (simp_all add: RadioEnqueue_def GatewayDataEnqueue_def Let_def)
  moreover from less have "radio_room r" by (simp add: radio_room_def)
  ultimately show ?case using Cons by (simp add: enqueue_queue(1))
qed

text \<open>Offered more than it has room for, the queue keeps the first ones and drops the rest.\<close>

lemma enqueue_full:
  assumes "queue_wf r" "TargetNum (Queue_433 r) = 30"
  shows "fold radio_enqueue ms r = r"
proof (induction ms)
  case (Cons m ms)
  have "\<not> radio_room r" using assms(2) by (simp add: radio_room_def)
  with Cons enqueue_queue(3) [OF assms(1)] show ?case by simp
qed simp

lemma enqueue_contents:
  assumes "queue_wf r"
  shows "queued (fold radio_enqueue ms r) = queued r @ take (30 - unat (TargetNum (Queue_433 r))) ms"
  using assms
proof (induction ms arbitrary: r)
  case (Cons m ms)
  show ?case
  proof (cases "TargetNum (Queue_433 r) < 30")
    case True
    then have "unat (TargetNum (Queue_433 (radio_enqueue m r))) = Suc (unat (TargetNum (Queue_433 r)))"
      using target_suc [OF True] by (cases m) (simp_all add: RadioEnqueue_def GatewayDataEnqueue_def Let_def)
    moreover have "30 - unat (TargetNum (Queue_433 r)) = Suc (29 - unat (TargetNum (Queue_433 r)))"
      using True by (simp add: word_less_nat_alt)
    ultimately show ?thesis
      using Cons.IH [OF enqueue_queue(1) [OF Cons.prems, of m]] enqueue_queue(2) [OF Cons.prems, of m] True by (simp add: radio_room_def)
  next
    case False
    then have "TargetNum (Queue_433 r) = 30" using Cons.prems by (simp add: queue_wf_def Let_def)
    then show ?thesis using enqueue_full [OF Cons.prems, of "m # ms"] by simp
  qed
qed simp

lemma drain:
  assumes "queue_wf r"
  shows "air ((RadioDequeue ^^ length (queued r)) r) = air r @ map (msg_packet (Self_Id r)) (queued r)"
    and "queued ((RadioDequeue ^^ length (queued r)) r) = []"
proof -
  have "queued r = ms \<Longrightarrow> queue_wf r \<Longrightarrow>
    air ((RadioDequeue ^^ length ms) r) = air r @ map (msg_packet (Self_Id r)) ms \<and>
    queued ((RadioDequeue ^^ length ms) r) = []" for ms
  proof (induction ms arbitrary: r)
    case Nil
    then show ?case by simp
  next
    case (Cons m ms)
    note front = RadioDequeue_front [OF Cons.prems(2,1)]
    from Cons.IH [OF front(3,2)] show ?case
      unfolding funpow_Suc_right list.size add_Suc_right add_0_right o_apply
      by (simp add: front(1))
  qed
  with assms show "air ((RadioDequeue ^^ length (queued r)) r) = air r @ map (msg_packet (Self_Id r)) (queued r)"
    "queued ((RadioDequeue ^^ length (queued r)) r) = []" by blast+
qed

section \<open>The packets can be read back\<close>

lemma dec_nat_length_lt: "n < 10 ^ k \<Longrightarrow> 0 < k \<Longrightarrow> length (dec_nat n) \<le> k"
  using dec_nat_length [of n "k - 1"] by (cases k) simp_all

lemma length_pad0: "length s \<le> w \<Longrightarrow> length (pad0 w s) = w"
  by (simp add: pad0_def)

lemma scan_zeros: "scan_nat 0 (replicate k (CHR ''0'') @ s) = scan_nat 0 s"
  by (induction k) (simp_all add: is_digit_def digit_val_def)

lemma strtol_pad0:
  assumes "case rest of [] \<Rightarrow> True | c # _ \<Rightarrow> \<not> is_digit c"
  shows "strtol (pad0 w (dec_nat n) @ rest) = Some (clamp32 (int n), rest)"
proof (rule strtol_digits(1))
  show "pad0 w (dec_nat n) \<noteq> []" by (simp add: pad0_def)
  show "is_digit c" if "c \<in> set (pad0 w (dec_nat n))" for c
    using that by (auto simp: pad0_def is_digit_def dest: dec_nat_digits split: if_splits)
  show "scan_nat 0 (pad0 w (dec_nat n) @ rest) = (n, rest)"
    using scan_dec_nat [OF assms] by (simp add: pad0_def scan_zeros)
qed

text \<open>A number below \<open>10 ^ w\<close> prints as exactly \<open>w\<close> digits.\<close>

lemma sint_small: "unat (v :: u32) < 2 ^ 31 \<Longrightarrow> sint v = int (unat v) \<and> clamp32 (int (unat v)) = int (unat v)"
proof -
  assume small: "unat v < 2 ^ 31"
  then have "int (unat v) < int (2 ^ 31)" unfolding of_nat_less_iff .
  then have u: "uint v < 2147483648" by simp
  have ge: "0 \<le> uint v" by simp
  have "signed_take_bit 31 (uint v) = uint v"
  proof (rule signed_take_bit_int_eq_self)
    show "- (2 ^ 31) \<le> uint v" by (rule order_trans [OF _ ge]) simp
    show "uint v < 2 ^ 31" using u by simp
  qed
  then have "sint v = uint v" by (simp add: sint_uint)
  moreover have "clamp32 (uint v) = uint v" using clamp32_sint [of v] \<open>sint v = uint v\<close> by simp
  ultimately show ?thesis by simp
qed

lemma sprintf_0ld_nat:
  assumes "unat v < 10 ^ w" "0 < w" "w < 10"
  shows "sprintf_0ld w v = pad0 w (dec_nat (unat v))" "length (sprintf_0ld w v) = w"
    "clamp32 (int (unat v)) = int (unat v)"
proof -
  have "(10 :: nat) ^ w \<le> 10 ^ 9" using assms(3) by (intro power_increasing) simp_all
  with assms(1) have "unat v < 2 ^ 31" by simp
  note s = sint_small [OF this]
  then show "clamp32 (int (unat v)) = int (unat v)" ..
  from s have "\<not> sint v < 0" "nat (sint v) = unat v" by (simp_all only: of_nat_less_0_iff nat_int not_False_eq_True)
  then show eq: "sprintf_0ld w v = pad0 w (dec_nat (unat v))" by (simp add: sprintf_0ld_def)
  show "length (sprintf_0ld w v) = w"
    unfolding eq using dec_nat_length_lt [OF assms(1,2)] by (simp add: length_pad0)
qed

lemma unat_ucast8: "unat (ucast (b :: u8) :: u32) = unat b"
  using u8_lt [of b] by (simp add: unsigned_ucast_eq take_bit_nat_eq_self)

lemma sint_ucast8: "sint (ucast (b :: u8) :: u32) = int (unat b)"
proof -
  have "unat (ucast b :: u32) < 2 ^ 31" using u8_lt [of b] unfolding unat_ucast8 by simp
  from sint_small [OF this] show ?thesis by (simp only: unat_ucast8)
qed

lemma sprintf_ld_u8: "sprintf_ld (ucast (b :: u8)) = dec_nat (unat b)"
  unfolding sprintf_ld_def Let_def sint_ucast8 by (simp only: of_nat_less_0_iff nat_int if_False)

lemma radio_text_length:
  assumes "unat target < 10 ^ 8" "unat self < 10 ^ 8" "unat cmd < 100" "unat dat < 10"
  shows "length (radio_text target self counter cmd dat) = 28"
proof -
  have c: "unat (ucast counter :: u32) < 10 ^ 3" "unat (ucast cmd :: u32) < 10 ^ 2"
    using u8_lt [of counter] assms(3) by (simp_all add: unat_ucast8)
  have "length (dec_nat (unat dat)) = 1" using assms(4) by (simp add: dec_nat.simps)
  with sprintf_0ld_nat(2) [OF assms(1)] sprintf_0ld_nat(2) [OF assms(2)] sprintf_0ld_nat(2) [OF c(1)]
    sprintf_0ld_nat(2) [OF c(2)]
  show ?thesis by (simp add: radio_text_def sprintf_ld_u8)
qed

lemma radio_text_scan:
  assumes "unat target < 10 ^ 8" "unat self < 10 ^ 8" "unat cmd < 100" "unat dat < 10"
  shows "sscanf_braces (radio_text target self counter cmd dat @ rest) 5 =
    [int (unat target), int (unat self), int (unat counter), int (unat cmd), int (unat dat)]"
proof -
  have c: "unat (ucast counter :: u32) < 10 ^ 3" "unat (ucast cmd :: u32) < 10 ^ 2"
    using u8_lt [of counter] assms(3) by (simp_all add: unat_ucast8)
  have stop: "case (CHR '','' # s) of [] \<Rightarrow> True | c # _ \<Rightarrow> \<not> is_digit c"
    "case (CHR ''}'' # s) of [] \<Rightarrow> True | c # _ \<Rightarrow> \<not> is_digit c" for s
    by (simp_all add: is_digit_def)
  have n: "(5 :: nat) = Suc (Suc (Suc (Suc (Suc 0))))" by simp
  note num = sprintf_0ld_nat(1) [OF assms(1)] sprintf_0ld_nat(1) [OF assms(2)] sprintf_0ld_nat(1) [OF c(1)]
    sprintf_0ld_nat(1) [OF c(2)]
  note clamp = sprintf_0ld_nat(3) [OF assms(1)] sprintf_0ld_nat(3) [OF assms(2)] sprintf_0ld_nat(3) [OF c(1)]
    sprintf_0ld_nat(3) [OF c(2)]
  have "strtol (dec_nat (unat dat) @ CHR ''}'' # s) = Some (int (unat dat), CHR ''}'' # s)" for s
    using strtol_sprintf_ld [OF stop(2), of "ucast dat"]
    by (simp only: sprintf_ld_u8 sint_ucast8)
  then show ?thesis
    using num clamp
    by (simp add: radio_text_def sscanf_braces_def n strtol_pad0 [OF stop(1)] sprintf_ld_u8 unat_ucast8 del: of_nat_unat)
qed

definition idle_radio :: radio where
  "idle_radio = \<lparr>Queue_433 = \<lparr>NowNum = 0, TargetNum = 0, Type = (\<lambda>_. 0), Taget_Id = (\<lambda>_. 0), Device_Id = (\<lambda>_. 0),
     Counter = (\<lambda>_. 0), Command = (\<lambda>_. 0), Data = (\<lambda>_. 0)\<rparr>, Self_Id = Self_Default_Id, air = [], send_timer = False,
     axradio_power_now = 0, TXPWRCOEFFB1 = 0x07, TXPWRCOEFFB0 = 0\<rparr>"

section \<open>Properties\<close>

text \<open>Property C19. The radio sends what it is asked to, in order: messages offered while fewer than 30 have
  been queued since the queue last ran empty are all kept, and as many turns of the queue thread as
  there are messages waiting put exactly their packets on the air, oldest first, and leave the
  queue empty. One more turn sends nothing and sets both counters back to 0, after which 30 messages fit again.\<close>

theorem radio_queue_sends_in_order:
  assumes "queue_wf r" and "unat (TargetNum (Queue_433 r)) + length ms \<le> 30"
  defines "turns \<equiv> length (queued r) + length ms"
  shows "air ((RadioDequeue ^^ turns) (fold radio_enqueue ms r)) =
      air r @ map (msg_packet (Self_Id r)) (queued r @ ms) \<and>
    queued ((RadioDequeue ^^ turns) (fold radio_enqueue ms r)) = [] \<and>
    air ((RadioDequeue ^^ Suc turns) (fold radio_enqueue ms r)) = air ((RadioDequeue ^^ turns) (fold radio_enqueue ms r)) \<and>
    NowNum (Queue_433 ((RadioDequeue ^^ Suc turns) (fold radio_enqueue ms r))) = 0 \<and>
    TargetNum (Queue_433 ((RadioDequeue ^^ Suc turns) (fold radio_enqueue ms r))) = 0"
proof -
  let ?r = "fold radio_enqueue ms r"
  have wf: "queue_wf ?r" using radio_fifo.feed_invar [OF assms(1), of ms] by (simp add: feed_fold)
  have q: "queued ?r = queued r @ ms"
    using radio_fifo.feed_contents [OF assms(1) roomy_queue [OF assms(1,2)]] by (simp add: feed_fold)
  have turns: "turns = length (queued ?r)" unfolding turns_def q by simp
  have sent: "air ((RadioDequeue ^^ turns) ?r) = air r @ map (msg_packet (Self_Id r)) (queued r @ ms)"
    using drain(1) [OF wf] unfolding turns by (simp add: q queue_only_keeps [OF queue_only_fold])
  have drained: "queued ((RadioDequeue ^^ turns) ?r) = []" using drain(2) [OF wf] unfolding turns .
  have "queue_wf ((RadioDequeue ^^ turns) ?r)" by (induction turns) (simp_all add: wf RadioDequeue_wf)
  note reset = RadioDequeue_empty [OF this drained]
  show ?thesis using sent drained reset by simp
qed

theorem radio_queue_sends_in_order_witness:
  "queued ((RadioDequeue ^^ 2) (fold radio_enqueue [Normal_Msg 10000001 1 3 2, Gateway_Msg 10000001 0 0 7 0] idle_radio)) = []"
proof -
  have wf: "queue_wf idle_radio" by (simp add: queue_wf_def idle_radio_def)
  have e: "queued idle_radio = []" by (simp add: queued_def idle_radio_def)
  have "unat (TargetNum (Queue_433 idle_radio)) + length [Normal_Msg 10000001 1 3 2, Gateway_Msg 10000001 0 0 7 0] \<le> 30"
    by (simp add: idle_radio_def)
  from radio_queue_sends_in_order [OF wf this] show ?thesis
    by (simp add: e numeral_2_eq_2)
qed

text \<open>The learning packets can be read back: for identifiers of at most eight digits, a command
  below 100 and a one-digit value, \<open>RadioSend\<close> puts 32 bytes on the air, and the format string of the
  receivers reads the target, the sender, the incremented counter, the command and the value
  from them.\<close>

lemma RadioSend_read_back:
  assumes "unat target < 10 ^ 8" "unat (Self_Id r) < 10 ^ 8" "unat cmd < 100" "unat dat < 10"
  shows "\<exists>packet. air (RadioSend target counter cmd dat r) = air r @ [packet] \<and> length packet = 32 \<and>
    sscanf_braces (map char_of_byte packet) 5 =
      [int (unat target), int (unat (Self_Id r)), int (unat (next_counter counter)), int (unat cmd), int (unat dat)]"
proof -
  let ?t = "radio_text target (Self_Id r) (next_counter counter) cmd dat"
  let ?p = "radio_packet target (Self_Id r) counter cmd dat"
  have len: "length ?t = 28" using assms by (rule radio_text_length)
  obtain rest where p: "?p = bytes_of ?t @ rest" and rest: "length rest = 4"
    using len by (auto simp: radio_packet_def Let_def)
  have "map char_of_byte ?p = ?t @ map char_of_byte rest"
    unfolding p by (simp add: bytes_of_def o_def)
  then have "sscanf_braces (map char_of_byte ?p) 5 =
      [int (unat target), int (unat (Self_Id r)), int (unat (next_counter counter)), int (unat cmd), int (unat dat)]"
    using radio_text_scan [OF assms] by simp
  moreover have "length ?p = 32" using p rest len by simp
  ultimately show ?thesis
    by (auto simp: RadioSend_def Normal_send_def rf_433_send_timer_start_def)
qed

end
