(* ===== verification/Led.thy ===== *)
theory Led
  imports Prelude
begin

text \<open>
  The indicator lights and the buzzer: the \<open>agile_led\<close> package (\<open>agile_led.c\<close>), which plays blink
  patterns from a list of active objects, and the patterns of the gateway
  (\<open>src/applications/led.c\<close>). Time is the tick of RT-Thread (one per millisecond), a field of the
  state; creation of the objects at start-up succeeds.
\<close>

section \<open>Objects\<close>

datatype led_name = RF_G | RF_R | WIFI_R | WIFI_B | Beep | Beep_k

text \<open>The completion callbacks the firmware installs: none, the empty default, \<open>rf_led_resume\<close>.\<close>

datatype led_callback = No_Callback | Default_Callback | Resume_Callback

record agile_led =
  active :: bool
  pin :: nat
  active_logic :: bool
  now_logic :: bool
  save_logic :: bool
  light_arr :: "u32 list"
  arr_index :: nat
  loop_init :: int
  loop_cnt :: int
  tick_timeout :: u32
  compelete :: led_callback
  pin_backup :: nat

record led_board =
  leds :: "led_name \<Rightarrow> agile_led"
  agile_led_list :: "led_name list"
  pins :: "nat \<Rightarrow> bool"
  tick :: u32

abbreviation (input) LED1_PIN :: nat where "LED1_PIN \<equiv> 19"
abbreviation (input) LED2_PIN :: nat where "LED2_PIN \<equiv> 20"
abbreviation (input) LED3_PIN :: nat where "LED3_PIN \<equiv> 44"
abbreviation (input) LED4_PIN :: nat where "LED4_PIN \<equiv> 50"
abbreviation (input) BUZZER_PIN :: nat where "BUZZER_PIN \<equiv> 1"

section \<open>The package\<close>

text \<open>The numbers between the commas of a pattern; a trailing comma does not open another one.\<close>

fun comma_parts :: "string \<Rightarrow> string \<Rightarrow> string list" where
  "comma_parts acc [] = [rev acc]"
| "comma_parts acc (c # s) = (if c = CHR '','' then rev acc # comma_parts [] s else comma_parts (c # acc) s)"

definition agile_led_get_light_arr :: "string \<Rightarrow> u32 list" where
  "agile_led_get_light_arr light_mode =
    (let parts = comma_parts [] light_mode;
         arr_num = length (filter (\<lambda>c. c = CHR '','') light_mode) + (if last light_mode \<noteq> CHR '','' then 1 else 0)
     in map atol (take arr_num parts))"

definition set_led :: "led_name \<Rightarrow> agile_led \<Rightarrow> led_board \<Rightarrow> led_board" where
  "set_led n l b = b\<lparr>leds := (leds b)(n := l)\<rparr>"

definition write_pin :: "nat \<Rightarrow> bool \<Rightarrow> led_board \<Rightarrow> led_board" where
  "write_pin p v b = b\<lparr>pins := (pins b)(p := v)\<rparr>"

text \<open>The fields \<open>agile_led_create\<close> does not set keep what the memory held.\<close>

definition agile_led_create :: "led_name \<Rightarrow> nat \<Rightarrow> bool \<Rightarrow> string \<Rightarrow> int \<Rightarrow> led_board \<Rightarrow> led_board" where
  "agile_led_create n p logic light_mode cnt b =
    write_pin p (\<not> logic)
      (set_led n ((leds b n)\<lparr>active := False, pin := p, active_logic := logic, light_arr := agile_led_get_light_arr light_mode,
         arr_index := 0, loop_init := cnt, loop_cnt := cnt, tick_timeout := tick b, compelete := Default_Callback\<rparr>) b)"

text \<open>The object itself is freed.\<close>

definition agile_led_delete :: "led_name \<Rightarrow> led_board \<Rightarrow> led_board" where
  "agile_led_delete n b =
    set_led n ((leds b n)\<lparr>light_arr := []\<rparr>) (b\<lparr>agile_led_list := remove1 n (agile_led_list b)\<rparr>)"

definition agile_led_start :: "led_name \<Rightarrow> led_board \<Rightarrow> led_board" where
  "agile_led_start n b =
    (let l = leds b n
     in if active l then b
        else if light_arr l = [] then b
        else (set_led n (l\<lparr>arr_index := 0, loop_cnt := loop_init l, tick_timeout := tick b, active := True\<rparr>) b)
               \<lparr>agile_led_list := agile_led_list b @ [n]\<rparr>)"

definition agile_led_stop :: "led_name \<Rightarrow> led_board \<Rightarrow> led_board" where
  "agile_led_stop n b =
    (let l = leds b n
     in if \<not> active l then b
        else write_pin (pin l) (\<not> active_logic l)
               ((set_led n (l\<lparr>active := False\<rparr>) b)\<lparr>agile_led_list := remove1 n (agile_led_list b)\<rparr>))"

definition agile_led_set_light_mode :: "led_name \<Rightarrow> string \<Rightarrow> int \<Rightarrow> led_board \<Rightarrow> led_board" where
  "agile_led_set_light_mode n light_mode cnt b =
    (let arr = agile_led_get_light_arr light_mode;
         l = leds b n
     in if arr = [] then agile_led_stop n (set_led n (l\<lparr>light_arr := []\<rparr>) b)
        else set_led n (l\<lparr>light_arr := arr, loop_init := cnt, arr_index := 0, loop_cnt := cnt,
               tick_timeout := tick b\<rparr>) b)"

definition agile_led_set_compelete_callback :: "led_name \<Rightarrow> led_callback \<Rightarrow> led_board \<Rightarrow> led_board" where
  "agile_led_set_compelete_callback n f b = set_led n ((leds b n)\<lparr>compelete := f\<rparr>) b"

definition agile_led_on :: "led_name \<Rightarrow> led_board \<Rightarrow> led_board" where
  "agile_led_on n b =
    (let l = leds b n in write_pin (pin l) (active_logic l) (set_led n (l\<lparr>now_logic := active_logic l\<rparr>) b))"

definition agile_led_off :: "led_name \<Rightarrow> led_board \<Rightarrow> led_board" where
  "agile_led_off n b =
    (let l = leds b n in write_pin (pin l) (\<not> active_logic l) (set_led n (l\<lparr>now_logic := \<not> active_logic l\<rparr>) b))"

definition agile_led_toggle :: "led_name \<Rightarrow> led_board \<Rightarrow> led_board" where
  "agile_led_toggle n b = write_pin (pin (leds b n)) (\<not> pins b (pin (leds b n))) b"

text \<open>While it is paused a light plays its pattern on pin 0.\<close>

definition agile_led_pause :: "led_name \<Rightarrow> led_board \<Rightarrow> led_board" where
  "agile_led_pause n b = set_led n ((leds b n)\<lparr>pin_backup := pin (leds b n), pin := 0, save_logic := now_logic (leds b n)\<rparr>) b"

definition agile_led_resume :: "led_name \<Rightarrow> led_board \<Rightarrow> led_board" where
  "agile_led_resume n b =
    (let b = set_led n ((leds b n)\<lparr>pin := pin_backup (leds b n)\<rparr>) b; l = leds b n
     in if save_logic l = active_logic l then agile_led_on n b else agile_led_off n b)"

section \<open>The patterns of the gateway\<close>

text \<open>\<open>play n p c\<close> is the pair \<open>agile_led_set_light_mode\<close>, \<open>agile_led_start\<close>.\<close>

definition play :: "led_name \<Rightarrow> string \<Rightarrow> int \<Rightarrow> led_board \<Rightarrow> led_board" where
  "play n light_mode cnt b = agile_led_start n (agile_led_set_light_mode n light_mode cnt b)"

definition led_Init :: "led_board \<Rightarrow> led_board" where
  "led_Init b =
    (let b = agile_led_create RF_G LED1_PIN False ''200,200'' (-1) b;
         b = agile_led_create RF_R LED2_PIN False ''200,200'' (-1) b;
         b = agile_led_create WIFI_R LED3_PIN False ''200,200'' (-1) b;
         b = agile_led_create WIFI_B LED4_PIN False ''200,200'' (-1) b;
         b = agile_led_create Beep BUZZER_PIN True ''200,200'' (-1) b
     in agile_led_create Beep_k BUZZER_PIN True ''100,100'' 1 b)"

definition beep_start :: "u8 \<Rightarrow> led_board \<Rightarrow> led_board" where
  "beep_start count b = play Beep ''200,200'' (uint count) (agile_led_stop Beep b)"

definition beep_power :: "u8 \<Rightarrow> led_board \<Rightarrow> led_board" where
  "beep_power count b = play Beep ''400,400'' (uint count) (agile_led_stop Beep b)"

definition beep_kick :: "led_board \<Rightarrow> led_board" where
  "beep_kick b = agile_led_start Beep_k b"

definition wifi_led :: "u8 \<Rightarrow> led_board \<Rightarrow> led_board" where
  "wifi_led type b =
    (if type = 0 then agile_led_stop WIFI_B (agile_led_stop WIFI_R b)
     else if type = 1 then play WIFI_R ''1000,1000'' (-1) (agile_led_stop WIFI_B b)
     else if type = 2 then play WIFI_R ''150,150'' (-1) (agile_led_stop WIFI_B b)
     else if type = 3 then play WIFI_B ''150,150'' (-1) (agile_led_stop WIFI_R b)
     else if type = 4 then play WIFI_B ''200,0'' (-1) (agile_led_stop WIFI_R b)
     else b)"

definition wifi_led_factory :: "u8 \<Rightarrow> led_board \<Rightarrow> led_board" where
  "wifi_led_factory type b =
    (if type = 0 then agile_led_stop WIFI_B (agile_led_stop WIFI_R b)
     else if type = 1 then play WIFI_R ''200,0'' (-1) (agile_led_stop WIFI_B b)
     else if type = 2 then play WIFI_R ''0,200,200,200'' (-1) (play WIFI_B ''200,200,0,200'' (-1) b)
     else if type = 3 then play WIFI_B ''200,0'' (-1) (agile_led_stop WIFI_R b)
     else b)"

definition rf_led_resume :: "led_board \<Rightarrow> led_board" where
  "rf_led_resume b = play RF_G ''200,0'' (-1) (agile_led_set_compelete_callback RF_G No_Callback b)"

text \<open>One flash of the green light, steady again when it is over.\<close>

definition rf_blink :: "led_board \<Rightarrow> led_board" where
  "rf_blink b = agile_led_start RF_G (agile_led_set_compelete_callback RF_G Resume_Callback
     (agile_led_set_light_mode RF_G ''10,100'' 1 (agile_led_stop RF_R b)))"

definition rf_led :: "u8 \<Rightarrow> led_board \<Rightarrow> led_board" where
  "rf_led type b =
    (if type = 0 then play RF_R ''200,0'' (-1) (agile_led_stop RF_G b)
     else if type = 1 then play RF_G ''200,0'' (-1) (agile_led_stop RF_R b)
     else if type = 2 then rf_blink b
     else if type = 3 then rf_blink b
     else b)"

definition rf_led_factory :: "u8 \<Rightarrow> led_board \<Rightarrow> led_board" where
  "rf_led_factory type b =
    (if type = 0 then play RF_R ''200,0'' (-1) (agile_led_stop RF_G b)
     else if type = 1 then play RF_G ''200,0'' (-1) (agile_led_stop RF_R b)
     else if type = 2 then rf_blink b
     else b)"

definition learn_success :: "led_board \<Rightarrow> led_board" where
  "learn_success b = play Beep ''200,200'' 5 b"

definition learn_fail :: "led_board \<Rightarrow> led_board" where
  "learn_fail b = play Beep ''50,50,200,200'' 3 b"

definition led_test :: "led_board \<Rightarrow> led_board" where
  "led_test b =
    (let b = agile_led_set_light_mode RF_R ''0,600,1200,600'' 1 b;
         b = agile_led_set_light_mode RF_G ''600,600,600,600'' 1 b;
         b = agile_led_set_light_mode WIFI_R ''0,600,1200,600'' 1 b;
         b = agile_led_set_light_mode WIFI_B ''600,600,600,600'' 1 b
     in agile_led_start WIFI_B (agile_led_start WIFI_R (agile_led_start RF_G (agile_led_start RF_R b))))"

definition beep_test :: "led_board \<Rightarrow> led_board" where
  "beep_test b = play Beep ''200,400'' 4 b"

section \<open>The player thread\<close>

definition run_callback :: "led_callback \<Rightarrow> led_board \<Rightarrow> led_board" where
  "run_callback f b = (case f of No_Callback \<Rightarrow> b | Default_Callback \<Rightarrow> b | Resume_Callback \<Rightarrow> rf_led_resume b)"

text \<open>The index behind the entries that are 0, where \<open>goto __repeat\<close> stops.\<close>

definition skip_zeros :: "agile_led \<Rightarrow> nat" where
  "skip_zeros l = arr_index l + length (takeWhile (\<lambda>v. v = 0) (drop (arr_index l) (light_arr l)))"

text \<open>An object whose repetitions are not used up: nothing before its time, otherwise the next entry of
  the pattern, or the end of a repetition.\<close>

definition led_play :: "led_name \<Rightarrow> led_board \<Rightarrow> led_board" where
  "led_play n b =
    (let l = leds b n
     in if tick b - tick_timeout l < 0x7FFFFFFF then
          (let i = skip_zeros l
           in if i < length (light_arr l) then
                (let b = (if i mod 2 \<noteq> 0 then agile_led_off n b else agile_led_on n b)
                 in set_led n ((leds b n)\<lparr>tick_timeout := tick b + light_arr l ! i, arr_index := i + 1\<rparr>) b)
              else set_led n (l\<lparr>arr_index := 0, loop_cnt := (if loop_cnt l > 0 then loop_cnt l - 1 else loop_cnt l)\<rparr>) b)
        else b)"

definition led_complete :: "led_name \<Rightarrow> led_board \<Rightarrow> led_board" where
  "led_complete n b = run_callback (compelete (leds b n)) (agile_led_stop n b)"

text \<open>What bounds a pass: the repetitions the listed objects have left.\<close>

definition led_work :: "led_board \<Rightarrow> nat" where
  "led_work b = sum_list (map (\<lambda>n. nat (loop_cnt (leds b n) + 1)) (agile_led_list b))"

text \<open>One pass of the thread over its list, from position \<open>i\<close> on; after a completion it starts again at
  the head. \<open>None\<close> is a pass that never ends.\<close>

partial_function (option) led_process :: "nat \<Rightarrow> led_board \<Rightarrow> led_board option" where
  "led_process i b =
    (if i < length (agile_led_list b) then
       (let n = agile_led_list b ! i
        in if loop_cnt (leds b n) = 0 then led_process 0 (led_complete n b)
           else led_process (i + 1) (led_play n b))
     else Some b)"

section \<open>The list and the flags agree\<close>

definition led_wf :: "led_board \<Rightarrow> bool" where
  "led_wf b \<longleftrightarrow> distinct (agile_led_list b) \<and> (\<forall>n. active (leds b n) \<longleftrightarrow> n \<in> set (agile_led_list b))"

lemma led_simps [simp]:
  "leds (set_led n l b) = (leds b)(n := l)" "agile_led_list (set_led n l b) = agile_led_list b"
  "tick (set_led n l b) = tick b" "pins (set_led n l b) = pins b"
  "leds (write_pin p v b) = leds b" "agile_led_list (write_pin p v b) = agile_led_list b"
  "tick (write_pin p v b) = tick b" "pins (write_pin p v b) = (pins b)(p := v)"
  by (simp_all add: set_led_def write_pin_def)

lemma led_wf_set: "active l = active (leds b n) \<Longrightarrow> led_wf (set_led n l b) = led_wf b"
  by (auto simp: led_wf_def)

lemma led_wf_write [simp]: "led_wf (write_pin p v b) = led_wf b"
  by (simp add: led_wf_def)

lemma led_wf_start: "led_wf b \<Longrightarrow> led_wf (agile_led_start n b)"
  by (auto simp: led_wf_def agile_led_start_def Let_def)

lemma led_wf_stop: "led_wf b \<Longrightarrow> led_wf (agile_led_stop n b)"
  by (auto simp: led_wf_def agile_led_stop_def Let_def distinct_remove1)

lemma led_wf_mode: "led_wf b \<Longrightarrow> led_wf (agile_led_set_light_mode n s c b)"
  by (simp add: agile_led_set_light_mode_def Let_def led_wf_set led_wf_stop)

lemma led_wf_callback: "led_wf b \<Longrightarrow> led_wf (agile_led_set_compelete_callback n f b)"
  by (simp add: agile_led_set_compelete_callback_def led_wf_set)

lemma led_wf_play: "led_wf b \<Longrightarrow> led_wf (led_play n b)"
  by (simp add: led_play_def Let_def agile_led_on_def agile_led_off_def led_wf_set)

lemma led_wf_switch: "led_wf b \<Longrightarrow> led_wf (agile_led_on n b)" "led_wf b \<Longrightarrow> led_wf (agile_led_off n b)"
  "led_wf b \<Longrightarrow> led_wf (agile_led_toggle n b)" "led_wf b \<Longrightarrow> led_wf (agile_led_pause n b)" "led_wf b \<Longrightarrow> led_wf (agile_led_resume n b)"
  by (simp_all add: agile_led_on_def agile_led_off_def agile_led_toggle_def agile_led_pause_def agile_led_resume_def Let_def led_wf_set)

text \<open>A light that was stopped first is deleted cleanly.\<close>

lemma led_wf_delete: "led_wf b \<Longrightarrow> led_wf (agile_led_delete n (agile_led_stop n b))"
  by (auto simp: led_wf_def agile_led_delete_def agile_led_stop_def Let_def distinct_remove1)

text \<open>A paused light comes back with its pin and level, whatever the player did on pin 0 meanwhile.\<close>

lemma pause_resume:
  assumes "leds b' n = (leds (agile_led_pause n b) n)\<lparr>now_logic := x, arr_index := i, loop_cnt := c, tick_timeout := t\<rparr>"
  shows "pin (leds (agile_led_resume n b') n) = pin (leds b n)"
    "pins (agile_led_resume n b') (pin (leds b n)) = now_logic (leds b n)" "now_logic (leds (agile_led_resume n b') n) = now_logic (leds b n)"
  using assms by (auto simp: agile_led_pause_def agile_led_resume_def agile_led_on_def agile_led_off_def Let_def)

lemmas led_wf_ops = led_wf_start led_wf_stop led_wf_mode led_wf_callback

lemma led_wf_patterns:
  assumes "led_wf b"
  shows "led_wf (play n s c b)" "led_wf (rf_led_resume b)" "led_wf (rf_blink b)" "led_wf (rf_led t b)"
    "led_wf (rf_led_factory t b)" "led_wf (wifi_led t b)" "led_wf (wifi_led_factory t b)"
    "led_wf (beep_start k b)" "led_wf (beep_power k b)" "led_wf (beep_kick b)"
    "led_wf (learn_success b)" "led_wf (learn_fail b)" "led_wf (led_test b)" "led_wf (beep_test b)"
  using assms
  by (simp_all add: play_def rf_led_resume_def rf_blink_def rf_led_def rf_led_factory_def wifi_led_def
      wifi_led_factory_def beep_start_def beep_power_def beep_kick_def learn_success_def learn_fail_def
      led_test_def beep_test_def led_wf_ops)

lemma led_wf_complete: "led_wf b \<Longrightarrow> led_wf (led_complete n b)"
  by (simp add: led_complete_def run_callback_def led_wf_stop led_wf_patterns split: led_callback.split)

section \<open>A pass ends\<close>

lemma steady_arr [simp]: "agile_led_get_light_arr ''200,0'' = [200, 0]"
  by (simp add: agile_led_get_light_arr_def Let_def atol_def strtol_def scan_sign_def is_space_def is_digit_def digit_val_def clamp32_def)

lemma led_work_play: "led_work (led_play n b) \<le> led_work b" "agile_led_list (led_play n b) = agile_led_list b"
proof -
  show list: "agile_led_list (led_play n b) = agile_led_list b"
    by (simp add: led_play_def Let_def agile_led_on_def agile_led_off_def)
  have "loop_cnt (leds (led_play n b) m) \<le> loop_cnt (leds b m)" for m
    by (simp add: led_play_def Let_def agile_led_on_def agile_led_off_def)
  then show "led_work (led_play n b) \<le> led_work b"
    unfolding led_work_def list by (intro sum_list_mono) (simp add: nat_mono)
qed

lemma led_work_stop:
  assumes "led_wf b" "n \<in> set (agile_led_list b)" "loop_cnt (leds b n) = 0"
  shows "led_work (agile_led_stop n b) < led_work b"
proof -
  have act: "active (leds b n)" using assms by (simp add: led_wf_def)
  have "led_work b = 1 + sum_list (map (\<lambda>m. nat (loop_cnt (leds b m) + 1)) (remove1 n (agile_led_list b)))"
    unfolding led_work_def using assms(2,3) by (simp add: sum_list_map_remove1)
  moreover have "led_work (agile_led_stop n b) = sum_list (map (\<lambda>m. nat (loop_cnt (leds b m) + 1)) (remove1 n (agile_led_list b)))"
    unfolding led_work_def using act
    by (auto simp: agile_led_stop_def Let_def intro!: arg_cong [where f = sum_list] map_cong)
  ultimately show ?thesis by simp
qed

lemma led_work_resume: "led_work (rf_led_resume b) \<le> led_work b"
proof -
  let ?c = "\<lambda>n. nat (loop_cnt (leds (rf_led_resume b) n) + 1)"
  have zero: "?c RF_G = 0" and other: "m \<noteq> RF_G \<Longrightarrow> ?c m = nat (loop_cnt (leds b m) + 1)" for m
    by (simp_all add: rf_led_resume_def play_def agile_led_start_def agile_led_set_light_mode_def
        agile_led_set_compelete_callback_def Let_def)
  have "agile_led_list (rf_led_resume b) = agile_led_list b \<or> agile_led_list (rf_led_resume b) = agile_led_list b @ [RF_G]"
    by (simp add: rf_led_resume_def play_def agile_led_start_def agile_led_set_light_mode_def
        agile_led_set_compelete_callback_def Let_def)
  then have "led_work (rf_led_resume b) = sum_list (map ?c (agile_led_list b))"
    using zero by (auto simp: led_work_def)
  also have "\<dots> \<le> led_work b"
    unfolding led_work_def by (intro sum_list_mono) (metis other zero le0 order_refl)
  finally show ?thesis .
qed

lemma led_work_complete:
  assumes "led_wf b" "n \<in> set (agile_led_list b)" "loop_cnt (leds b n) = 0"
  shows "led_work (led_complete n b) < led_work b"
  using led_work_stop [OF assms] led_work_resume [of "agile_led_stop n b"]
  by (simp add: led_complete_def run_callback_def split: led_callback.split)

lemma led_process_total: "led_wf b \<Longrightarrow> \<exists>b'. led_process i b = Some b' \<and> led_wf b'"
proof (induction "(led_work b, length (agile_led_list b) - i)" arbitrary: b i
    rule: wf_induct [OF wf_lex_prod [OF wf_less_than wf_less_than]])
  case (1 b i)
  show ?case
  proof (cases "i < length (agile_led_list b)")
    case False
    with "1.prems" show ?thesis by (subst led_process.simps) simp
  next
    case True
    let ?n = "agile_led_list b ! i"
    have mem: "?n \<in> set (agile_led_list b)" using True by simp
    show ?thesis
    proof (cases "loop_cnt (leds b ?n) = 0")
      case loop: True
      have "\<exists>b'. led_process 0 (led_complete ?n b) = Some b' \<and> led_wf b'"
        using "1.hyps" led_work_complete [OF "1.prems" mem loop] led_wf_complete [OF "1.prems"] by simp
      then show ?thesis using True loop by (subst led_process.simps) (simp add: Let_def)
    next
      case loop: False
      have "\<exists>b'. led_process (i + 1) (led_play ?n b) = Some b' \<and> led_wf b'"
        using "1.hyps" led_work_play [of ?n b] led_wf_play [OF "1.prems"] True
        by (simp add: le_less) (metis diff_less_mono2 lessI)
      then show ?thesis using True loop by (subst led_process.simps) (simp add: Let_def)
    qed
  qed
qed

definition dark_board :: led_board where
  "dark_board = led_Init \<lparr>leds = (\<lambda>_. \<lparr>active = False, pin = 0, active_logic = False, now_logic = False, save_logic = False, light_arr = [], arr_index = 0,
     loop_init = 0, loop_cnt = 0, tick_timeout = 0, compelete = No_Callback, pin_backup = 0\<rparr>), agile_led_list = [],
     pins = (\<lambda>_. False), tick = 0\<rparr>"

lemma led_wf_dark [simp]: "led_wf dark_board"
  by (simp add: dark_board_def led_Init_def agile_led_create_def led_wf_def Let_def)

section \<open>Properties\<close>

text \<open>Property C33. A pass of the light thread always comes to an end, although it starts again at the head of
  the list after every finished pattern and the completion callback may put an object back on
  the list; the list and the active flags still agree afterwards.\<close>

theorem led_process_returns:
  assumes "led_wf b"
  shows "\<exists>b'. led_process 0 b = Some b' \<and> led_wf b'"
  using led_process_total [OF assms] .

theorem led_process_returns_witness: "\<exists>b'. led_process 0 (rf_led 3 (learn_success dark_board)) = Some b' \<and> led_wf b'"
proof (rule led_process_returns)
  show "led_wf (rf_led 3 (learn_success dark_board))" by (intro led_wf_patterns led_wf_dark)
qed

lemma wifi_patterns:
  "agile_led_get_light_arr ''1000,1000'' = [1000, 1000]" "agile_led_get_light_arr ''150,150'' = [150, 150]"
  by (simp_all add: agile_led_get_light_arr_def Let_def atol_def strtol_def scan_sign_def is_space_def is_digit_def
      digit_val_def clamp32_def)

text \<open>The WiFi light shows the network state: red without a router (states 1 and 2), blue with
  one (states 3 and 4), never both, none in state 0; an unknown state changes nothing and the radio
  lights are not touched.\<close>

lemma wifi_led_shows:
  "active (leds (wifi_led s b) WIFI_R) =
     (if s = 1 \<or> s = 2 then True else if s = 0 \<or> s = 3 \<or> s = 4 then False else active (leds b WIFI_R)) \<and>
   active (leds (wifi_led s b) WIFI_B) =
     (if s = 3 \<or> s = 4 then True else if s = 0 \<or> s = 1 \<or> s = 2 then False else active (leds b WIFI_B)) \<and>
   leds (wifi_led s b) RF_G = leds b RF_G \<and> leds (wifi_led s b) RF_R = leds b RF_R"
  by (simp add: wifi_led_def play_def agile_led_start_def agile_led_stop_def agile_led_set_light_mode_def
      wifi_patterns Let_def)

end
