(* ===== verification/Ota.thy ===== *)
theory Ota
  imports Prelude
begin

text \<open>
  The two ways a new firmware reaches the download partition: from the WiFi module
  (\<open>src/ota/wifi_ota.c\<close>) and over the console with the Y-MODEM protocol (\<open>src/ota/ymodem_ota.c\<close>).
  Both use the bounds checks of the flash abstraction layer (\<open>fal_partition.c\<close>) and store into the
  NOR flash through its device operations. What the chip does is the contract \<open>nor_flash\<close>: an erased
  cell reads \<open>0xFF\<close>, a write can only clear bits, a device that does not answer changes nothing.
\<close>

section \<open>The flash chip\<close>

record nor =
  cells :: memory
  dead :: bool

definition nor_write :: "nat \<Rightarrow> bytes \<Rightarrow> nor \<Rightarrow> bool \<times> nor" where
  "nor_write addr buf f =
    (if dead f then (False, f)
     else (True, f\<lparr>cells := (\<lambda>a. if addr \<le> a \<and> a < addr + length buf then and (cells f a) (buf ! (a - addr)) else cells f a)\<rparr>))"

text \<open>The chip erases whole blocks of 4096 bytes.\<close>

definition nor_erase :: "nat \<Rightarrow> nat \<Rightarrow> nor \<Rightarrow> bool \<times> nor" where
  "nor_erase addr sz f =
    (if dead f then (False, f)
     else (True, f\<lparr>cells := (\<lambda>a. if 0 < sz \<and> addr div 4096 \<le> a div 4096 \<and> a div 4096 \<le> (addr + sz - 1) div 4096
                               then 0xFF else cells f a)\<rparr>))"

locale nor_flash =
  fixes wr :: "nat \<Rightarrow> bytes \<Rightarrow> 'f \<Rightarrow> bool \<times> 'f"
    and er :: "nat \<Rightarrow> nat \<Rightarrow> 'f \<Rightarrow> bool \<times> 'f"
    and look :: "'f \<Rightarrow> nat \<Rightarrow> u8"
  assumes erased: "er addr sz f = (True, f') \<Longrightarrow> addr \<le> a \<Longrightarrow> a < addr + sz \<Longrightarrow> look f' a = 0xFF"
    and written: "wr addr buf f = (True, f') \<Longrightarrow> addr \<le> a \<Longrightarrow> a < addr + length buf \<Longrightarrow>
      look f a = 0xFF \<Longrightarrow> look f' a = buf ! (a - addr)"
    and kept: "wr addr buf f = (True, f') \<Longrightarrow> a < addr \<or> addr + length buf \<le> a \<Longrightarrow> look f' a = look f a"
begin

text \<open>A region holds an image up to a point and is blank behind it.\<close>

definition holds :: "nat \<Rightarrow> nat \<Rightarrow> bytes \<Rightarrow> 'f \<Rightarrow> bool" where
  "holds base sz img f \<longleftrightarrow> length img \<le> sz \<and> (\<forall>i < length img. look f (base + i) = img ! i) \<and>
     (\<forall>i. length img \<le> i \<longrightarrow> i < sz \<longrightarrow> look f (base + i) = 0xFF)"

lemma holds_erase: "er base sz f = (True, f') \<Longrightarrow> holds base sz [] f'"
  using erased [of base sz f f'] by (simp add: holds_def)

lemma holds_append:
  assumes "holds base sz img f" "wr (base + length img) buf f = (True, f')" "length img + length buf \<le> sz"
  shows "holds base sz (img @ buf) f'"
proof -
  have "look f' (base + i) = (img @ buf) ! i" if "i < length (img @ buf)" for i
  proof (cases "i < length img")
    case True
    with assms kept [OF assms(2), of "base + i"] show ?thesis by (simp add: holds_def nth_append)
  next
    case False
    with that assms written [OF assms(2), of "base + i"] show ?thesis by (simp add: holds_def nth_append)
  qed
  moreover have "look f' (base + i) = 0xFF" if "length (img @ buf) \<le> i" "i < sz" for i
    using that assms(1) kept [OF assms(2), of "base + i"] by (simp add: holds_def)
  ultimately show ?thesis using assms(3) by (simp add: holds_def)
qed

end

lemma and_mask8 [simp]: "and 0xFF (b :: u8) = b"
proof -
  have "(0xFF :: u8) = - 1" by simp
  then show ?thesis by (metis and.left_neutral)
qed

interpretation nor: nor_flash nor_write nor_erase cells
proof unfold_locales
  fix addr sz f f' a
  assume e: "nor_erase addr sz f = (True, f')" and a: "addr \<le> a" "a < addr + sz"
  then have "a \<le> addr + sz - 1" "0 < sz" by linarith+
  then have "a div 4096 \<le> (addr + sz - 1) div 4096" "addr div 4096 \<le> a div 4096"
    using a(1) by (auto intro: div_le_mono)
  with e \<open>0 < sz\<close> show "cells f' a = 0xFF" by (auto simp: nor_erase_def split: if_splits)
qed (auto simp: nor_write_def split: if_splits)

section \<open>The download partition\<close>

abbreviation (input) dl_offset :: nat where "dl_offset \<equiv> 1536 * 1024"
abbreviation (input) dl_len :: u32 where "dl_len \<equiv> 512 * 1024"

text \<open>The sum of address and size is unsigned 32-bit and can wrap.\<close>

definition fal_partition_write :: "u32 \<Rightarrow> bytes \<Rightarrow> u32 \<Rightarrow> nor \<Rightarrow> bool \<times> nor" where
  "fal_partition_write addr buf sz f =
    (if addr + sz > dl_len then (False, f)
     else nor_write (dl_offset + unat addr) (take (unat sz) buf) f)"

definition fal_partition_erase :: "u32 \<Rightarrow> u32 \<Rightarrow> nor \<Rightarrow> bool \<times> nor" where
  "fal_partition_erase addr sz f =
    (if addr + sz > dl_len then (False, f) else nor_erase (dl_offset + unat addr) (unat sz) f)"

section \<open>Download from the WiFi module\<close>

text \<open>Each of the two files has its own pair of static sizes.\<close>

record download =
  update_file_total_size :: u32
  update_file_cur_size :: u32

record ota =
  wifi_dl :: download
  ymodem_dl :: download
  flash :: nor

definition wifi_ota_begin :: "u32 \<Rightarrow> ota \<Rightarrow> ota" where
  "wifi_ota_begin file_size st =
    (let st = st\<lparr>wifi_dl := (wifi_dl st)\<lparr>update_file_total_size := file_size\<rparr>\<rparr>
     in if update_file_total_size (wifi_dl st) > dl_len then st
        else st\<lparr>flash := snd (fal_partition_erase 0 (update_file_total_size (wifi_dl st)) (flash st))\<rparr>)"

definition wifi_ota_receive :: "bytes \<Rightarrow> u32 \<Rightarrow> u32 \<Rightarrow> ota \<Rightarrow> ota" where
  "wifi_ota_receive buf offset len st =
    (let cur = update_file_cur_size (wifi_dl st)
     in if cur \<noteq> offset then st
        else case fal_partition_write cur buf len (flash st) of
          (False, f) \<Rightarrow> st\<lparr>flash := f\<rparr>
        | (True, f) \<Rightarrow> st\<lparr>flash := f, wifi_dl := (wifi_dl st)\<lparr>update_file_cur_size := cur + len\<rparr>\<rparr>)"

definition wifi_ota_end :: "ota \<Rightarrow> c_fault + ota" where
  "wifi_ota_end st = Inl Cpu_Reset"

section \<open>Download over the console\<close>

datatype rym_code = RYM_CODE_ACK | RYM_CODE_CAN

text \<open>The first packet carries the file name, a terminator, and the size in decimal.\<close>

definition cstring_at :: "bytes \<Rightarrow> nat \<Rightarrow> string" where
  "cstring_at buf i = map char_of_byte (takeWhile (\<lambda>b. b \<noteq> 0) (drop i buf))"

definition ymodem_on_begin :: "bytes \<Rightarrow> ota \<Rightarrow> rym_code \<times> ota" where
  "ymodem_on_begin buf st =
    (let file_name = cstring_at buf 0;
         file_size = cstring_at buf (length file_name + 1);
         tot = atol file_size;
         st = st\<lparr>ymodem_dl := \<lparr>update_file_total_size = tot, update_file_cur_size = 0\<rparr>\<rparr>
     in if tot > dl_len then (RYM_CODE_CAN, st)
        else case fal_partition_erase 0 tot (flash st) of
          (False, f) \<Rightarrow> (RYM_CODE_CAN, st\<lparr>flash := f\<rparr>)
        | (True, f) \<Rightarrow> (RYM_CODE_ACK, st\<lparr>flash := f\<rparr>))"

definition ymodem_on_data :: "bytes \<Rightarrow> u32 \<Rightarrow> ota \<Rightarrow> rym_code \<times> ota" where
  "ymodem_on_data buf len st =
    (let cur = update_file_cur_size (ymodem_dl st)
     in case fal_partition_write cur buf len (flash st) of
          (False, f) \<Rightarrow> (RYM_CODE_CAN, st\<lparr>flash := f\<rparr>)
        | (True, f) \<Rightarrow> (RYM_CODE_ACK, st\<lparr>flash := f, ymodem_dl := (ymodem_dl st)\<lparr>update_file_cur_size := cur + len\<rparr>\<rparr>))"

section \<open>A download in order\<close>

text \<open>The download partition holds \<open>img\<close> and is blank behind it, up to the announced size.\<close>

definition dl_holds :: "u32 \<Rightarrow> bytes \<Rightarrow> ota \<Rightarrow> bool" where
  "dl_holds tot img st \<longleftrightarrow> nor.holds dl_offset (unat tot) img (flash st)"

text \<open>The packets of an image: each with its offset. A packet may come more than once.\<close>

primrec packets :: "nat \<Rightarrow> (bytes \<times> nat) list \<Rightarrow> (bytes \<times> u32) list" where
  "packets off [] = []"
| "packets off (c # cs) = replicate (Suc (snd c)) (fst c, word_of_nat off) @ packets (off + length (fst c)) cs"

definition receive_packet :: "bytes \<times> u32 \<Rightarrow> ota \<Rightarrow> ota" where
  "receive_packet p st = wifi_ota_receive (fst p) (snd p) (word_of_nat (length (fst p))) st"

definition download_state :: "u32 \<Rightarrow> bytes \<Rightarrow> ota \<Rightarrow> bool" where
  "download_state tot img st \<longleftrightarrow> dl_holds tot img st \<and> \<not> dead (flash st) \<and> tot \<le> dl_len \<and>
     update_file_cur_size (wifi_dl st) = word_of_nat (length img)"

lemma unat_small: "n \<le> 524288 \<Longrightarrow> unat (word_of_nat n :: u32) = n"
  by (simp add: unsigned_of_nat take_bit_nat_eq_self)

lemma dl_holds_length: "dl_holds tot img st \<Longrightarrow> tot \<le> dl_len \<Longrightarrow> length img \<le> unat tot \<and> unat tot \<le> 524288"
  by (simp add: dl_holds_def nor.holds_def word_le_nat_alt)

lemma begin_state:
  assumes "tot \<le> dl_len" "\<not> dead (flash st)" "update_file_cur_size (wifi_dl st) = 0"
  shows "download_state tot [] (wifi_ota_begin tot st)"
proof -
  obtain f' where f: "nor_erase dl_offset (unat tot) (flash st) = (True, f')" and d: "\<not> dead f'"
    using assms(2) by (simp add: nor_erase_def)
  moreover have "\<not> dl_len < tot" using assms(1) by (simp only: not_less)
  ultimately show ?thesis using assms nor.holds_erase [OF f]
    by (simp add: download_state_def dl_holds_def wifi_ota_begin_def fal_partition_erase_def Let_def)
qed

lemma receive_state:
  assumes st: "download_state tot img st" and fits: "length img + length buf \<le> unat tot"
  shows "download_state tot (img @ buf) (receive_packet (buf, word_of_nat (length img)) st)"
proof -
  have tot: "unat tot \<le> 524288" using st dl_holds_length by (auto simp: download_state_def)
  have n: "unat (word_of_nat (length img) :: u32) = length img" "unat (word_of_nat (length buf) :: u32) = length buf"
    using fits tot by (simp_all add: unat_small)
  have sum: "(word_of_nat (length img) + word_of_nat (length buf) :: u32) = word_of_nat (length (img @ buf))" by simp
  have "unat (word_of_nat (length (img @ buf)) :: u32) \<le> 524288"
    using fits tot by (simp add: unat_small del: of_nat_add)
  then have le: "\<not> (word_of_nat (length img) + word_of_nat (length buf) :: u32) > dl_len"
    unfolding sum by (simp add: word_less_nat_alt not_less del: of_nat_add)
  obtain f' where f: "nor_write (dl_offset + length img) buf (flash st) = (True, f')" and d: "\<not> dead f'"
    using st by (simp add: nor_write_def download_state_def)
  have "nor.holds dl_offset (unat tot) (img @ buf) f'"
    using nor.holds_append [OF _ f fits] st by (simp add: download_state_def dl_holds_def)
  with st f d le show ?thesis
    by (simp add: download_state_def dl_holds_def receive_packet_def wifi_ota_receive_def fal_partition_write_def
        Let_def n)
qed

lemma receive_again:
  assumes st: "download_state tot (img @ buf) st"
  shows "download_state tot (img @ buf) (receive_packet (buf, word_of_nat (length img)) st)"
proof (cases buf)
  case Nil
  have "length img \<le> unat tot"
    using st dl_holds_length [of tot "img @ buf" st] by (simp add: download_state_def)
  with receive_state [of tot img st "[]"] st Nil show ?thesis by simp
next
  case (Cons b bs)
  have "length (img @ buf) \<le> 524288"
    using st dl_holds_length [of tot "img @ buf" st] by (simp add: download_state_def)
  then have "unat (word_of_nat (length (img @ buf)) :: u32) \<noteq> unat (word_of_nat (length img) :: u32)"
    using Cons by (simp add: unat_small del: of_nat_add of_nat_Suc)
  then have "update_file_cur_size (wifi_dl st) \<noteq> word_of_nat (length img)"
    using st unfolding download_state_def by metis
  with st show ?thesis by (simp add: receive_packet_def wifi_ota_receive_def Let_def)
qed

lemma receive_many:
  assumes "download_state tot (img @ buf) st"
  shows "download_state tot (img @ buf) (fold receive_packet (replicate k (buf, word_of_nat (length img))) st)"
  using assms by (induction k arbitrary: st) (simp_all add: receive_again)

lemma receive_packets:
  assumes "download_state tot img st" "length img + length (concat (map fst cs)) \<le> unat tot"
  shows "download_state tot (img @ concat (map fst cs)) (fold receive_packet (packets (length img) cs) st)"
  using assms
proof (induction cs arbitrary: img st)
  case Nil
  then show ?case by simp
next
  case (Cons c cs)
  have "download_state tot (img @ fst c) (receive_packet (fst c, word_of_nat (length img)) st)"
    using Cons.prems by (intro receive_state) simp_all
  from Cons.IH [OF receive_many [OF this, of "snd c"]] Cons.prems(2) show ?case by simp
qed

section \<open>Properties\<close>

definition fresh_ota :: ota where
  "fresh_ota = \<lparr>wifi_dl = \<lparr>update_file_total_size = 0, update_file_cur_size = 0\<rparr>,
     ymodem_dl = \<lparr>update_file_total_size = 0, update_file_cur_size = 0\<rparr>, flash = \<lparr>cells = (\<lambda>_. 0), dead = False\<rparr>\<rparr>"

text \<open>A firmware download from the WiFi module stores the image: after a start-up, announcing a
  size that fits the partition and receiving packets in order, each possibly several times, leaves
  exactly the concatenated packets at the start of the download partition and the rest of the
  announced size blank.\<close>

lemma wifi_ota_stores_image:
  assumes "tot \<le> dl_len" "\<not> dead (flash st)" "update_file_cur_size (wifi_dl st) = 0"
    and "length (concat (map fst cs)) \<le> unat tot"
  defines "st' \<equiv> fold receive_packet (packets 0 cs) (wifi_ota_begin tot st)"
  shows "(\<forall>i < length (concat (map fst cs)). cells (flash st') (dl_offset + i) = concat (map fst cs) ! i) \<and>
    update_file_cur_size (wifi_dl st') = word_of_nat (length (concat (map fst cs)))"
proof -
  have "download_state tot (concat (map fst cs)) st'"
    using receive_packets [OF begin_state [OF assms(1-3)], of cs] assms(4) unfolding st'_def by simp
  then show ?thesis
    by (simp add: download_state_def dl_holds_def nor.holds_def)
qed

text \<open>A second download without a restart is not stored: \<open>wifi_ota_begin\<close> does not reset the
  size received so far, so after an interrupted download every packet that starts a new image at
  offset 0 is ignored.\<close>

lemma wifi_ota_retry_ignored:
  assumes "update_file_cur_size (wifi_dl st) \<noteq> 0"
  shows "wifi_ota_receive buf 0 len (wifi_ota_begin tot st) = wifi_ota_begin tot st"
  using assms by (simp add: wifi_ota_receive_def wifi_ota_begin_def Let_def)

end
