(* ===== verification/Gateway.thy ===== *)
theory Gateway
  imports Wifi_Json Device_Table Radio_Encoder Led Ota
begin

text \<open>
  The gateway proper (\<open>src/wifi/wifi-api.c\<close> and the part of \<open>src/applications/flashwork.c\<close> that calls
  it): the state of all components together, and the operations that join them. They keep the
  table of devices, report to the cloud through the WiFi module, and queue commands for the radio.
  Identifiers 10000000 to 19999999 are main units (valve controllers), 20000000 to 29999999 water
  sensors, 30000000 to 39999999 door units; sensors and doors are bound to a main unit.
\<close>

section \<open>State\<close>

record Remote_Info =
  Remote_Num :: u8
  Remote_ID :: "nat \<Rightarrow> u32"

record gateway =
  dev :: dev_store
  Remote_Device :: Remote_Info
  wifi :: wifi_sys
  rf :: radio
  board :: led_board
  downloads :: ota
  Sync_Counter :: u8
  Sync_Once_Sem :: nat
  Sync_Recv :: u8
  Sync_Start :: u8
  Sync_Timeout_t :: bool
  wifi_status :: u8
  wifi_connected :: u8
  WiFi_FactoryFlag :: u8
  Reset_WiFi_Counter :: u8
  wifi_rst_timer :: bool
  wifi_test_timer :: bool
  rf_factoryflag :: u8

abbreviation Devices :: "gateway \<Rightarrow> Device_Info" where
  "Devices g \<equiv> Global_Device (dev g)"

definition set_Devices :: "Device_Info \<Rightarrow> gateway \<Rightarrow> gateway" where
  "set_Devices t g = g\<lparr>dev := (dev g)\<lparr>Global_Device := t\<rparr>\<rparr>"

text \<open>Lifting the operations of the parts.\<close>

definition on_dev :: "(dev_store \<Rightarrow> dev_store) \<Rightarrow> gateway \<Rightarrow> gateway" where
  "on_dev f g = g\<lparr>dev := f (dev g)\<rparr>"

definition on_wifi :: "(wifi_sys \<Rightarrow> wifi_sys) \<Rightarrow> gateway \<Rightarrow> gateway" where
  "on_wifi f g = g\<lparr>wifi := f (wifi g)\<rparr>"

definition on_rf :: "(radio \<Rightarrow> radio) \<Rightarrow> gateway \<Rightarrow> gateway" where
  "on_rf f g = g\<lparr>rf := f (rf g)\<rparr>"

definition on_board :: "(led_board \<Rightarrow> led_board) \<Rightarrow> gateway \<Rightarrow> gateway" where
  "on_board f g = g\<lparr>board := f (board g)\<rparr>"

section \<open>Reports\<close>

abbreviation (input) DPID_DEVICE_STATE :: u8 where "DPID_DEVICE_STATE \<equiv> 101"
abbreviation (input) DPID_VALVE1_CHECK_FAIL :: u8 where "DPID_VALVE1_CHECK_FAIL \<equiv> 102"
abbreviation (input) DPID_DEVICE_ALARM :: u8 where "DPID_DEVICE_ALARM \<equiv> 103"
abbreviation (input) DPID_CONTROL_STATE :: u8 where "DPID_CONTROL_STATE \<equiv> 104"
abbreviation (input) DPID_SIGN_STATE :: u8 where "DPID_SIGN_STATE \<equiv> 105"
abbreviation (input) DPID_DELAY_STATE :: u8 where "DPID_DELAY_STATE \<equiv> 106"
abbreviation (input) DPID_TEMP_STATE :: u8 where "DPID_TEMP_STATE \<equiv> 107"
abbreviation (input) DPID_DOOR_ID :: u8 where "DPID_DOOR_ID \<equiv> 108"
abbreviation (input) DPID_LINE_STATE :: u8 where "DPID_LINE_STATE \<equiv> 109"
abbreviation (input) DPID_SELF_ID :: u8 where "DPID_SELF_ID \<equiv> 112"
abbreviation (input) DPID_VALVE2_CHECK_FAIL :: u8 where "DPID_VALVE2_CHECK_FAIL \<equiv> 113"
abbreviation (input) DPID_VALVE1_CHECK_SUCCESS :: u8 where "DPID_VALVE1_CHECK_SUCCESS \<equiv> 114"
abbreviation (input) DPID_VALVE2_CHECK_SUCCESS :: u8 where "DPID_VALVE2_CHECK_SUCCESS \<equiv> 115"

text \<open>A report for a device: \<open>sprintf(buf, "%ld", id)\<close>, then the update function on the buffer and its
  length.\<close>

definition dp_bool :: "u8 \<Rightarrow> u8 \<Rightarrow> u32 \<Rightarrow> gateway \<Rightarrow> gateway" where
  "dp_bool dpid v ident = (let buf = sprintf_ld ident in
     on_wifi (\<lambda>w. snd (mcu_dp_bool_update dpid v buf (word_of_nat (my_strlen buf)) w)))"

definition dp_enum :: "u8 \<Rightarrow> u8 \<Rightarrow> u32 \<Rightarrow> gateway \<Rightarrow> gateway" where
  "dp_enum dpid v ident = (let buf = sprintf_ld ident in
     on_wifi (\<lambda>w. snd (mcu_dp_enum_update dpid v buf (word_of_nat (my_strlen buf)) w)))"

definition dp_value :: "u8 \<Rightarrow> u32 \<Rightarrow> u32 \<Rightarrow> gateway \<Rightarrow> gateway" where
  "dp_value dpid v ident = (let buf = sprintf_ld ident in
     on_wifi (\<lambda>w. snd (mcu_dp_value_update dpid v buf (word_of_nat (my_strlen buf)) w)))"

definition WariningUpload :: "u32 \<Rightarrow> u32 \<Rightarrow> u8 \<Rightarrow> u8 \<Rightarrow> gateway \<Rightarrow> gateway" where
  "WariningUpload from_id device_id type value g =
    (if device_id > 0 then
       (if type = 0 then dp_bool 103 value device_id g
        else if type = 1 then
          (let g = (if value \<noteq> 0 then dp_bool 104 0 device_id g else g)
           in dp_enum 1 value device_id g)
        else if type = 2 then dp_enum 102 value device_id g
        else if type = 3 then dp_bool 104 value device_id g
        else g)
     else
       (if type = 0 then
          (if value = 0 then dp_bool DPID_VALVE1_CHECK_SUCCESS 1 from_id (dp_bool DPID_VALVE1_CHECK_FAIL 0 from_id g)
           else if value = 1 then dp_bool DPID_VALVE2_CHECK_SUCCESS 1 from_id (dp_bool DPID_VALVE2_CHECK_FAIL 0 from_id g)
           else if value = 2 then dp_bool DPID_VALVE1_CHECK_FAIL 1 from_id
             (dp_bool DPID_LINE_STATE 0 from_id (dp_bool DPID_TEMP_STATE 0 from_id g))
           else if value = 3 then dp_bool DPID_VALVE2_CHECK_FAIL 1 from_id
             (dp_bool DPID_LINE_STATE 0 from_id (dp_bool DPID_TEMP_STATE 0 from_id g))
           else g)
        else if type = 1 then
          (let g = (if value \<noteq> 0
             then dp_bool DPID_LINE_STATE 0 from_id (dp_bool DPID_TEMP_STATE 0 from_id
                    (dp_bool DPID_VALVE2_CHECK_FAIL 0 from_id (dp_bool DPID_VALVE1_CHECK_FAIL 0 from_id g)))
             else g)
           in dp_bool DPID_DEVICE_ALARM value from_id g)
        else if type = 2 then dp_bool DPID_LINE_STATE value from_id g
        else if type = 3 then
          (let g = (if value \<noteq> 0 then dp_bool DPID_LINE_STATE 0 from_id g else g)
           in dp_bool DPID_TEMP_STATE value from_id g)
        else g))"

definition CloseWarn_Main :: "u32 \<Rightarrow> gateway \<Rightarrow> gateway" where
  "CloseWarn_Main device_id g = dp_bool DPID_DELAY_STATE 0 device_id (dp_bool DPID_DEVICE_ALARM 0 device_id g)"

text \<open>The first report passes the identifier where a truth value is expected: its low byte.\<close>

definition InitWarn_Main :: "u32 \<Rightarrow> gateway \<Rightarrow> gateway" where
  "InitWarn_Main device_id g =
    (let g = dp_bool DPID_SELF_ID (ucast device_id) device_id g;
         g = dp_bool DPID_DEVICE_ALARM 0 device_id g;
         g = dp_bool DPID_VALVE1_CHECK_FAIL 0 device_id g;
         g = dp_bool DPID_VALVE2_CHECK_FAIL 0 device_id g;
         g = dp_bool DPID_TEMP_STATE 0 device_id g
     in dp_bool DPID_LINE_STATE 0 device_id g)"

definition CloseWarn_Slave :: "u32 \<Rightarrow> gateway \<Rightarrow> gateway" where
  "CloseWarn_Slave device_id g = dp_enum 1 0 device_id g"

definition Slave_Heart :: "u32 \<Rightarrow> u8 \<Rightarrow> gateway \<Rightarrow> gateway" where
  "Slave_Heart device_id rssi g =
    (let g = on_dev (\<lambda>d. snd (Flash_Set_Rssi device_id rssi d)) g
     in dp_enum 101 rssi device_id g)"

definition Remote_Delay_WiFi :: "u32 \<Rightarrow> u8 \<Rightarrow> gateway \<Rightarrow> gateway" where
  "Remote_Delay_WiFi device_id state g = dp_bool 106 state device_id g"

definition MotoUpload :: "u32 \<Rightarrow> u8 \<Rightarrow> gateway \<Rightarrow> gateway" where
  "MotoUpload device_id state g =
    (let g = Remote_Delay_WiFi device_id 0 g;
         g = on_dev (\<lambda>d. snd (Flash_Set_Moto device_id state d)) g
     in dp_bool DPID_DEVICE_STATE state device_id g)"

definition DoorUpload :: "u32 \<Rightarrow> u8 \<Rightarrow> gateway \<Rightarrow> gateway" where
  "DoorUpload device_id state g = dp_bool 104 state device_id g"

definition Door_Delay_WiFi :: "u32 \<Rightarrow> u32 \<Rightarrow> u8 \<Rightarrow> gateway \<Rightarrow> gateway" where
  "Door_Delay_WiFi main_id device_id state g = dp_bool 106 state main_id (dp_bool 105 state device_id g)"

definition Warning_WiFi :: "u32 \<Rightarrow> u8 \<Rightarrow> gateway \<Rightarrow> gateway" where
  "Warning_WiFi device_id state g = InitWarn_Main device_id g"

definition Main_Rssi_Report :: "u32 \<Rightarrow> int \<Rightarrow> gateway \<Rightarrow> gateway" where
  "Main_Rssi_Report device_id rssi g =
    (if rssi < -94 then dp_enum DPID_SIGN_STATE 0 device_id g
     else if rssi \<ge> -94 \<and> rssi < -78 then dp_enum DPID_SIGN_STATE 1 device_id g
     else dp_enum DPID_SIGN_STATE 2 device_id g)"

definition Upload_Main_ID :: "u32 \<Rightarrow> gateway \<Rightarrow> gateway" where
  "Upload_Main_ID device_id g =
    (let g = dp_value DPID_SELF_ID device_id device_id g
     in dp_bool DPID_DEVICE_STATE (Flash_Get_Moto device_id (dev g)) device_id g)"

definition Reset_Main_Warn :: "u32 \<Rightarrow> gateway \<Rightarrow> gateway" where
  "Reset_Main_Warn device_id g =
    dp_bool DPID_TEMP_STATE 0 device_id (dp_bool DPID_LINE_STATE 0 device_id (dp_bool DPID_DEVICE_ALARM 0 device_id g))"

definition Upload_Slave_ID :: "u32 \<Rightarrow> u32 \<Rightarrow> gateway \<Rightarrow> gateway" where
  "Upload_Slave_ID device_id from_id g =
    (let g = dp_value 107 from_id device_id g
     in dp_enum 101 (Flash_Get_Rssi device_id (dev g)) device_id g)"

definition Reset_Slave_Warn :: "u32 \<Rightarrow> gateway \<Rightarrow> gateway" where
  "Reset_Slave_Warn device_id g = dp_bool 104 0 device_id (dp_enum 1 0 device_id g)"

definition Upload_Door_ID :: "u32 \<Rightarrow> u32 \<Rightarrow> gateway \<Rightarrow> gateway" where
  "Upload_Door_ID device_id from_id g =
    (let g = dp_value 107 from_id device_id g;
         g = dp_value 108 device_id from_id g
     in dp_enum 101 (Flash_Get_Rssi device_id (dev g)) device_id g)"

definition Device_Up :: "u32 \<Rightarrow> gateway \<Rightarrow> gateway" where
  "Device_Up device_id g =
    (let ident = sprintf_ld device_id;
         g = on_wifi (heart_beat_report ident 0) g
     in on_wifi (user_updata_subden_online_state 0 ident 1 1) g)"

definition Device_Down :: "u32 \<Rightarrow> gateway \<Rightarrow> gateway" where
  "Device_Down device_id g = on_wifi (user_updata_subden_online_state 0 (sprintf_ld device_id) 1 0) g"

section \<open>Commands to the devices\<close>

definition Moto_CloseRemote :: "u32 \<Rightarrow> gateway \<Rightarrow> gateway" where
  "Moto_CloseRemote device_id g = on_rf (GatewayDataEnqueue device_id 0 0 2 0) g"

definition Moto_OpenRemote :: "u32 \<Rightarrow> gateway \<Rightarrow> gateway" where
  "Moto_OpenRemote device_id g = on_rf (GatewayDataEnqueue device_id 0 0 2 1) g"

definition Delay_CloseRemote :: "u32 \<Rightarrow> gateway \<Rightarrow> gateway" where
  "Delay_CloseRemote device_id g = on_rf (GatewayDataEnqueue device_id 0 0 1 0) g"

definition Delay_OpenRemote :: "u32 \<Rightarrow> gateway \<Rightarrow> gateway" where
  "Delay_OpenRemote device_id g = on_rf (GatewayDataEnqueue device_id 0 0 1 1) g"

definition Ack_Report :: "u32 \<Rightarrow> gateway \<Rightarrow> gateway" where
  "Ack_Report device_id g = on_rf (GatewayDataEnqueue device_id 0 0 5 1) g"

section \<open>The list of devices the cloud knows\<close>

text \<open>\<open>++Num\<close> is not compared with the 50 cells of the array.\<close>

definition Remote_Device_Add :: "u32 \<Rightarrow> gateway \<Rightarrow> c_fault + gateway" where
  "Remote_Device_Add device_id g =
    (let r = Remote_Device g;
         n = Remote_Num r + 1
     in if unat n \<ge> MaxSupport then Inl Out_Of_Bounds
        else Inr (g\<lparr>Remote_Device := r\<lparr>Remote_Num := n, Remote_ID := (Remote_ID r)(unat n := device_id)\<rparr>\<rparr>))"

definition Remote_Device_Clear :: "gateway \<Rightarrow> gateway" where
  "Remote_Device_Clear g = g\<lparr>Remote_Device := \<lparr>Remote_Num = 0, Remote_ID = (\<lambda>_. 0)\<rparr>\<rparr>"

definition Remote_Get_Key_Valid :: "u32 \<Rightarrow> gateway \<Rightarrow> u8" where
  "Remote_Get_Key_Valid Device_ID g =
    (let r = Remote_Device g
     in case down_find (\<lambda>num. Remote_ID r num = Device_ID) (unat (Remote_Num r)) of
          None \<Rightarrow> RT_ERROR | Some num \<Rightarrow> RT_EOK)"

definition Remote_Device_Delete :: "u32 \<Rightarrow> gateway \<Rightarrow> gateway" where
  "Remote_Device_Delete Device_ID g =
    (let r = Remote_Device g
     in case down_find (\<lambda>num. Remote_ID r num = Device_ID) (unat (Remote_Num r)) of
          None \<Rightarrow> g
        | Some num \<Rightarrow> g\<lparr>Remote_Device := r\<lparr>Remote_ID := (Remote_ID r)(num := 0)\<rparr>\<rparr>)"

section \<open>Online state\<close>

text \<open>The units bound to a main unit follow it: all go down with it, those last heard of come back with
  it.\<close>

definition slave_heart_step :: "u32 \<Rightarrow> u8 \<Rightarrow> nat \<Rightarrow> gateway \<Rightarrow> gateway" where
  "slave_heart_step Device_ID heart num g =
    (if Bind_ID (Devices g) num = Device_ID then
       (if heart \<noteq> 0 then
          (if Heart (Devices g) num \<noteq> 0 then Device_Up (ID (Devices g) num) g else g)
        else Device_Down (ID (Devices g) num) g)
     else g)"

definition Set_Slave_Heart :: "u32 \<Rightarrow> u8 \<Rightarrow> gateway \<Rightarrow> gateway" where
  "Set_Slave_Heart Device_ID heart g = down_fold (slave_heart_step Device_ID heart) (unat (Num (Devices g))) g"

definition set_Heart :: "nat \<Rightarrow> u8 \<Rightarrow> gateway \<Rightarrow> gateway" where
  "set_Heart num v g = set_Devices ((Devices g)\<lparr>Heart := (Heart (Devices g))(num := v)\<rparr>) g"

definition Flash_Set_Heart :: "u32 \<Rightarrow> u8 \<Rightarrow> gateway \<Rightarrow> u8 \<times> gateway" where
  "Flash_Set_Heart Device_ID heart g =
    (case slot_of Device_ID (Devices g) of
       None \<Rightarrow> (RT_ERROR, g)
     | Some num \<Rightarrow>
         (if heart \<noteq> 0 then
            (let g = set_Devices ((Devices g)\<lparr>HeartRecv := (HeartRecv (Devices g))(num := 1)\<rparr>) g
             in if Heart (Devices g) num = 0 then
                  (let g = Set_Slave_Heart Device_ID 1 g;
                       g = on_dev (Flash_Heart_Change Device_ID 1) g
                   in (RT_EOK, set_Heart num 1 g))
                else (RT_EOK, g))
          else
            (if Heart (Devices g) num \<noteq> 0 then
               (let g = Set_Slave_Heart Device_ID 0 g;
                    g = on_dev (Flash_Heart_Change Device_ID 0) g
                in (RT_EOK, set_Heart num 0 g))
             else (RT_EOK, g))))"

definition DeviceCheck :: "u32 \<Rightarrow> u32 \<Rightarrow> gateway \<Rightarrow> gateway" where
  "DeviceCheck device_id from_id g = snd (Flash_Set_Heart device_id 1 g)"

definition Heart_Upload :: "u32 \<Rightarrow> u8 \<Rightarrow> gateway \<Rightarrow> gateway" where
  "Heart_Upload device_id heart g =
    (let g = on_wifi (heart_beat_report (sprintf_ld device_id) 0) g
     in snd (Flash_Set_Heart device_id heart g))"

section \<open>Adding and deleting devices\<close>

definition main_pid :: string where "main_pid = ''q3xnn9yqt55ifaxm''"
definition slave_pid :: string where "slave_pid = ''lnbkva6cip8dw7vy''"
definition door_pid :: string where "door_pid = ''emnzq3qxwfplx7db''"

definition Main_Add_WiFi :: "u32 \<Rightarrow> gateway \<Rightarrow> gateway" where
  "Main_Add_WiFi device_id g =
    (let g = on_wifi (local_add_subdev_limit 1 0 0x01) g
     in on_wifi (gateway_subdevice_add ''1.0'' main_pid 0 (sprintf_ld device_id) 10 0) g)"

definition Slave_Add_WiFi :: "u32 \<Rightarrow> gateway \<Rightarrow> gateway" where
  "Slave_Add_WiFi device_id g =
    (let g = on_wifi (local_add_subdev_limit 1 0 0x01) g
     in on_wifi (gateway_subdevice_add ''1.0'' slave_pid 0 (sprintf_ld device_id) 10 0) g)"

definition Door_Add_WiFi :: "u32 \<Rightarrow> gateway \<Rightarrow> gateway" where
  "Door_Add_WiFi device_id g =
    (let g = on_wifi (local_add_subdev_limit 1 0 0x01) g
     in on_wifi (gateway_subdevice_add ''1.0'' door_pid 0 (sprintf_ld device_id) 10 0) g)"

text \<open>The body that the three kinds share: enter the device if the table does not have it, announce it if
  the cloud does not.\<close>

definition add_kind :: "(dev_store \<Rightarrow> u8 \<times> dev_store) \<Rightarrow> (u32 \<Rightarrow> gateway \<Rightarrow> gateway) \<Rightarrow> u32 \<Rightarrow> gateway \<Rightarrow> gateway" where
  "add_kind add_flash add_wifi device_id g =
    (let g = (if Flash_Get_Key_Valid device_id (dev g) = RT_ERROR then on_dev (\<lambda>d. snd (add_flash d)) g else g)
     in if Remote_Get_Key_Valid device_id g = RT_ERROR
        then add_wifi device_id (on_dev (\<lambda>d. snd (Flash_Set_UploadFlag device_id 0 d)) g)
        else g)"

definition Device_Add2Flash_Wifi :: "u32 \<Rightarrow> u32 \<Rightarrow> gateway \<Rightarrow> gateway" where
  "Device_Add2Flash_Wifi device_id from_id g =
    (let g = (if device_id \<ge> 10000000 \<and> device_id < 20000000
              then add_kind (MainAdd_Flash device_id) Main_Add_WiFi device_id g else g)
     in if device_id \<ge> 20000000 \<and> device_id < 30000000
        then add_kind (SlaveAdd_Flash device_id from_id) Slave_Add_WiFi device_id g
        else if device_id \<ge> 30000000 \<and> device_id < 40000000
        then add_kind (DoorAdd_Flash device_id from_id) Door_Add_WiFi device_id g
        else g)"

definition Local_Delete :: "u32 \<Rightarrow> gateway \<Rightarrow> gateway" where
  "Local_Delete device_id g =
    (let bound = GetBindID device_id (dev g);
         g = on_wifi (local_subdev_del_cmd (sprintf_ld device_id)) g
     in if device_id \<ge> 30000000 then dp_value 108 0 bound g else g)"

text \<open>Emptying a slot: the flash copy under \<open>key\<close>, then the cell, alternating.\<close>

definition clear_slot :: "nat \<Rightarrow> u32 \<Rightarrow> gateway \<Rightarrow> gateway" where
  "clear_slot num key g =
    (let g = on_dev (Flash_ID_Change (word_of_nat num) 0) g;
         g = set_Devices ((Devices g)\<lparr>ID := (ID (Devices g))(num := 0)\<rparr>) g;
         g = on_dev (Flash_Bind_Change key 0) g;
         g = set_Devices ((Devices g)\<lparr>Bind_ID := (Bind_ID (Devices g))(num := 0)\<rparr>) g;
         g = on_dev (Flash_UploadFlag_Change key 0) g
     in set_Devices ((Devices g)\<lparr>UploadFlag := (UploadFlag (Devices g))(num := 0)\<rparr>) g)"

definition Del_Device :: "u32 \<Rightarrow> gateway \<Rightarrow> u8 \<times> gateway" where
  "Del_Device Device_ID g =
    (case slot_of Device_ID (Devices g) of
       None \<Rightarrow> (RT_ERROR, g)
     | Some num \<Rightarrow>
         (let g = (if Device_ID \<ge> 10000000 \<and> Device_ID < 20000000 then on_dev (\<lambda>d. snd (Del_MainNums d)) g else g);
              g = Remote_Device_Delete Device_ID g
          in (RT_ERROR, clear_slot num Device_ID g)))"

definition del_bind_step :: "u32 \<Rightarrow> nat \<Rightarrow> gateway \<Rightarrow> gateway" where
  "del_bind_step Device_ID num g =
    (if Bind_ID (Devices g) num = Device_ID \<or> ID (Devices g) num = Device_ID then
       (let g = (if Device_ID \<ge> 10000000 \<and> Device_ID < 20000000 then on_dev (\<lambda>d. snd (Del_MainNums d)) g else g);
            g = Local_Delete (ID (Devices g) num) g
        in clear_slot num Device_ID g)
     else g)"

definition Del_MainBind :: "u32 \<Rightarrow> gateway \<Rightarrow> u8 \<times> gateway" where
  "Del_MainBind Device_ID g = (RT_ERROR, down_fold (del_bind_step Device_ID) (unat (Num (Devices g))) g)"

definition Remote_Delete :: "u32 \<Rightarrow> gateway \<Rightarrow> gateway" where
  "Remote_Delete device_id g =
    (let bound = GetBindID device_id (dev g);
         g = on_rf (GatewayDataEnqueue bound device_id 0 6 0) g;
         g = snd (Del_Device device_id g)
     in if device_id \<ge> 30000000 then dp_value DPID_DOOR_ID 0 bound g else g)"

section \<open>Requests of the cloud\<close>

definition Self_Bind_Upload :: "u32 \<Rightarrow> gateway \<Rightarrow> gateway" where
  "Self_Bind_Upload device_id g =
    (if Flash_Get_UploadFlag device_id (dev g) = 0 then
       (let g = on_dev (\<lambda>d. snd (Flash_Set_UploadFlag device_id 1 d)) g
        in if device_id \<ge> 10000000 \<and> device_id < 20000000 then
             (let g = Upload_Main_ID device_id g;
                  g = Upload_Door_ID (GetDoorID device_id (dev g)) device_id g
              in Reset_Main_Warn device_id g)
           else if device_id \<ge> 20000000 \<and> device_id < 30000000 then
             (let g = Reset_Slave_Warn device_id g
              in Upload_Slave_ID device_id (GetBindID device_id (dev g)) g)
           else if device_id \<ge> 30000000 \<and> device_id < 40000000 then
             Upload_Door_ID device_id (GetBindID device_id (dev g)) g
           else g)
     else g)"

definition Heart_Request :: "string \<Rightarrow> gateway \<Rightarrow> gateway" where
  "Heart_Request id_buf g =
    (let ident = atol id_buf;
         g = Self_Bind_Upload ident g
     in if ident \<ge> 20000000 \<and> ident < 40000000 then
          (if Flash_Get_Heart (GetBindID ident (dev g)) (dev g) \<noteq> 0 then
             (if Flash_Get_Heart ident (dev g) \<noteq> 0 then Device_Up ident g else Device_Down ident g)
           else g)
        else
          (if Flash_Get_Heart ident (dev g) \<noteq> 0 then Device_Up ident g else Device_Down ident g))"

end
