(* ===== verification/Gateway_Devices.thy ===== *)
theory Gateway_Devices
  imports Gateway
begin

text \<open>
  What the operations of \<open>Gateway\<close> do to the table of devices and to the cloud: reports change nothing
  but the transmit side of the serial line, a device that is deleted is gone from the table and from
  the flash, adding is idempotent, and the online state of the bound units follows their main unit.
\<close>

section \<open>Reports only transmit\<close>

definition reports :: "gateway \<Rightarrow> gateway \<Rightarrow> bool" where
  "reports g g' \<longleftrightarrow> (\<exists>w. tx_only (wifi g) w \<and> g' = g\<lparr>wifi := w\<rparr>)"

lemma reports_refl [simp]: "reports g g"
  by (auto simp: reports_def intro!: exI [of _ "wifi g"])

lemma reports_trans [trans]: "reports g g' \<Longrightarrow> reports g' g'' \<Longrightarrow> reports g g''"
  unfolding reports_def by (metis (no_types, lifting) gateway.select_convs(3) gateway.surjective gateway.update_convs(3) tx_only_trans)

lemma reportsI: "tx_only (wifi g) (f (wifi g)) \<Longrightarrow> reports g (on_wifi f g)"
  by (auto simp: reports_def on_wifi_def)

lemma reports_keep:
  assumes "reports g g'"
  shows "dev g' = dev g" "rf g' = rf g" "Remote_Device g' = Remote_Device g" "board g' = board g"
    "downloads g' = downloads g" "Sync_Counter g' = Sync_Counter g" "Sync_Once_Sem g' = Sync_Once_Sem g"
    "Sync_Start g' = Sync_Start g" "Sync_Recv g' = Sync_Recv g" "wifi_connected g' = wifi_connected g"
    "stop_update_flag (wifi g') = stop_update_flag (wifi g)"
  using assms by (auto simp: reports_def tx_only_fields)

lemma reports_wifi [frame]:
  "reports g (dp_bool dpid v i g)" "reports g (dp_enum dpid v i g)" "reports g (dp_value dpid x i g)"
  "reports g (on_wifi (heart_beat_report s l) g)" "reports g (on_wifi (user_updata_subden_online_state a s n st) g)"
  "reports g (on_wifi (local_subdev_del_cmd s) g)" "reports g (on_wifi (local_add_subdev_limit p h l) g)"
  "reports g (on_wifi (gateway_subdevice_add ver pid pk s ch ota) g)"
  "reports g (on_wifi mcu_start_wifitest g)" "reports g (on_wifi reset_factory_setting g)"
  "reports g (on_wifi qur_subdev_list g)" "reports g (on_wifi get_wifi_st g)"
  by (simp_all add: dp_bool_def dp_enum_def dp_value_def Let_def reportsI tx_only_reports tx_only_requests tx_only_commands)

text \<open>Behind other reports.\<close>

lemma reports_after:
  "reports g g' \<Longrightarrow> reports g (dp_bool dpid v i g')" "reports g g' \<Longrightarrow> reports g (dp_enum dpid v i g')"
  "reports g g' \<Longrightarrow> reports g (dp_value dpid x i g')"
  "reports g g' \<Longrightarrow> reports g (on_wifi (heart_beat_report s l) g')"
  "reports g g' \<Longrightarrow> reports g (on_wifi (user_updata_subden_online_state a s n st) g')"
  "reports g g' \<Longrightarrow> reports g (on_wifi (local_subdev_del_cmd s) g')"
  "reports g g' \<Longrightarrow> reports g (on_wifi (local_add_subdev_limit p h l) g')"
  "reports g g' \<Longrightarrow> reports g (on_wifi (gateway_subdevice_add ver pid pk s ch ota) g')"
  by (erule reports_trans, rule reports_wifi)+

lemma reports_ops [frame]:
  "reports g (WariningUpload from_id device_id t v g)" "reports g (CloseWarn_Main i g)" "reports g (InitWarn_Main i g)"
  "reports g (CloseWarn_Slave i g)" "reports g (Remote_Delay_WiFi i b g)" "reports g (DoorUpload i b g)"
  "reports g (Door_Delay_WiFi m i b g)" "reports g (Warning_WiFi i b g)" "reports g (Main_Rssi_Report i rssi g)"
  "reports g (Upload_Main_ID i g)" "reports g (Reset_Main_Warn i g)" "reports g (Upload_Slave_ID i m g)"
  "reports g (Reset_Slave_Warn i g)" "reports g (Upload_Door_ID i m g)" "reports g (Device_Up i g)"
  "reports g (Device_Down i g)" "reports g (Main_Add_WiFi i g)" "reports g (Slave_Add_WiFi i g)"
  "reports g (Door_Add_WiFi i g)" "reports g (Local_Delete i g)"
  by (simp_all add: WariningUpload_def CloseWarn_Main_def InitWarn_Main_def CloseWarn_Slave_def
      Remote_Delay_WiFi_def DoorUpload_def Door_Delay_WiFi_def Warning_WiFi_def Main_Rssi_Report_def
      Upload_Main_ID_def Reset_Main_Warn_def Upload_Slave_ID_def Reset_Slave_Warn_def Upload_Door_ID_def
      Device_Up_def Device_Down_def Main_Add_WiFi_def Slave_Add_WiFi_def Door_Add_WiFi_def Local_Delete_def
      Let_def reports_after)

lemma reports_slaves [frame]: "reports g (Set_Slave_Heart k h g)"
  unfolding Set_Slave_Heart_def
proof (rule down_fold_inv [where I = "reports g"])
  fix num g'
  assume "reports g g'"
  moreover have "reports g' (slave_heart_step k h num g')" by (simp add: slave_heart_step_def reports_ops)
  ultimately show "reports g (slave_heart_step k h num g')" by (rule reports_trans)
qed simp

lemmas keep_dev [simp] = reports_ops [THEN reports_keep(1)] reports_slaves [THEN reports_keep(1)]
  reports_wifi [THEN reports_keep(1)]
lemmas keep_rf [simp] = reports_ops [THEN reports_keep(2)] reports_slaves [THEN reports_keep(2)]
  reports_wifi [THEN reports_keep(2)]
lemmas keep_remote [simp] = reports_ops [THEN reports_keep(3)] reports_slaves [THEN reports_keep(3)]
  reports_wifi [THEN reports_keep(3)]
lemmas keep_board [simp] = reports_ops [THEN reports_keep(4)] reports_slaves [THEN reports_keep(4)]
  reports_wifi [THEN reports_keep(4)]
lemmas keep_sync [simp] = reports_ops [THEN reports_keep(6)] reports_slaves [THEN reports_keep(6)]
  reports_wifi [THEN reports_keep(6)]
lemmas keep_stop [simp] = reports_ops [THEN reports_keep(11)] reports_slaves [THEN reports_keep(11)]
  reports_wifi [THEN reports_keep(11)]

lemma on_fields [simp]:
  "dev (on_dev f g) = f (dev g)" "wifi (on_dev f g) = wifi g" "rf (on_dev f g) = rf g"
  "Remote_Device (on_dev f g) = Remote_Device g" "board (on_dev f g) = board g"
  "dev (on_rf h g) = dev g" "wifi (on_rf h g) = wifi g" "rf (on_rf h g) = h (rf g)"
  "Remote_Device (on_rf h g) = Remote_Device g" "board (on_rf h g) = board g"
  "dev (on_wifi k g) = dev g" "wifi (on_wifi k g) = k (wifi g)" "rf (on_wifi k g) = rf g"
  "dev (on_board l g) = dev g" "wifi (on_board l g) = wifi g" "rf (on_board l g) = rf g"
  "Remote_Device (on_board l g) = Remote_Device g" "board (on_board l g) = l (board g)"
  "dev (set_Devices t g) = (dev g)\<lparr>Global_Device := t\<rparr>" "wifi (set_Devices t g) = wifi g" "rf (set_Devices t g) = rf g"
  "Remote_Device (set_Devices t g) = Remote_Device g" "board (set_Devices t g) = board g"
  by (simp_all add: on_dev_def on_rf_def on_wifi_def on_board_def set_Devices_def)

section \<open>Deleting a device\<close>

text \<open>The table with one slot emptied.\<close>

definition emptied :: "nat \<Rightarrow> Device_Info \<Rightarrow> Device_Info" where
  "emptied n t = t\<lparr>ID := (ID t)(n := 0), Bind_ID := (Bind_ID t)(n := 0), UploadFlag := (UploadFlag t)(n := 0)\<rparr>"

lemma clear_slot_table: "Devices (clear_slot num key g) = emptied num (Devices g)"
  by (simp add: clear_slot_def emptied_def Let_def)

lemma clear_slot_env:
  "env (dev (clear_slot num key g)) = ef_set_env (''upload:'' @ sprintf_ld key) (sprintf_ld 0)
     (ef_set_env (''bind:'' @ sprintf_ld key) (sprintf_ld 0)
       (ef_set_env (sprintf_ld (word_of_nat num)) (sprintf_ld 0) (env (dev g))))"
  by (simp add: clear_slot_def Let_def flash_writes)

lemma clear_slot_rest [simp]: "wifi (clear_slot num key g) = wifi g" "rf (clear_slot num key g) = rf g"
  "Remote_Device (clear_slot num key g) = Remote_Device g"
  by (simp_all add: clear_slot_def Let_def)

lemma table_wf_emptied: "table_wf t \<Longrightarrow> table_wf (emptied n t)"
  unfolding table_wf_def emptied_def by simp

definition less_main :: "u8 \<Rightarrow> u8" where
  "less_main n = n - (if n > 0 then 1 else 0)"

lemma Del_MainNums_table:
  "Global_Device (snd (Del_MainNums d)) = (Global_Device d)\<lparr>MainNum := less_main (MainNum (Global_Device d))\<rparr>"
  by (simp add: Del_MainNums_def Let_def set_MainNum_def less_main_def)

lemma Del_MainNums_env: "key \<noteq> ''Main_Nums'' \<Longrightarrow> env (snd (Del_MainNums d)) key = env d key"
  by (simp add: Del_MainNums_def Let_def set_MainNum_def Flash_MainNums_Change_def ef_set_env_def)

lemma Remote_Device_Delete_keeps [simp]: "dev (Remote_Device_Delete k g) = dev g"
  "wifi (Remote_Device_Delete k g) = wifi g" "rf (Remote_Device_Delete k g) = rf g"
  by (simp_all add: Remote_Device_Delete_def Let_def split: option.split)

definition is_main :: "u32 \<Rightarrow> bool" where
  "is_main k \<longleftrightarrow> k \<ge> 10000000 \<and> k < 20000000"

lemma Del_Device_table:
  assumes "slot_of k (Devices g) = Some n"
  shows "Devices (snd (Del_Device k g)) =
    (emptied n (Devices g))\<lparr>MainNum := (if is_main k then less_main (MainNum (Devices g)) else MainNum (Devices g))\<rparr>"
  using assms
  by (simp add: Del_Device_def Let_def clear_slot_table Del_MainNums_table is_main_def emptied_def)

lemma Del_Device_missing: "slot_of k (Devices g) = None \<Longrightarrow> Del_Device k g = (RT_ERROR, g)"
  by (simp add: Del_Device_def)

lemma less_main_le: "unat (less_main n) \<le> unat n"
proof (cases "n = 0")
  case False
  then have "unat (n - 1) = unat n - 1" by (intro unat_minus_one)
  with False show ?thesis by (simp add: less_main_def word_gt_0)
qed (simp add: less_main_def)

lemma table_wf_MainNum: "table_wf t \<Longrightarrow> unat m \<le> unat (MainNum t) \<Longrightarrow> table_wf (t\<lparr>MainNum := m\<rparr>)"
  unfolding table_wf_def by simp

lemma Del_Device_wf: "table_wf (Devices g) \<Longrightarrow> table_wf (Devices (snd (Del_Device k g)))"
proof (cases "slot_of k (Devices g)")
  case None
  assume "table_wf (Devices g)"
  with None show ?thesis by (simp add: Del_Device_missing)
next
  case (Some n)
  assume "table_wf (Devices g)"
  then show ?thesis unfolding Del_Device_table [OF Some]
    by (intro table_wf_MainNum table_wf_emptied) (simp_all add: less_main_le emptied_def)
qed

lemma slot_of_emptied:
  assumes "table_wf t" "ID t n = k" "k \<noteq> 0" "j \<noteq> 0"
  shows "slot_of j (emptied n t) = (if j = k then None else slot_of j t)"
proof -
  note wf = table_wf_emptied [OF assms(1), of n]
  have eq: "slot_of j (emptied n t) = Some m \<longleftrightarrow> j \<noteq> k \<and> slot_of j t = Some m" for m
    unfolding slot_of_wf [OF wf assms(4)] slot_of_wf [OF assms(1,4)]
    using assms by (auto simp: emptied_def table_wf_def)
  show ?thesis using eq by (metis option.exhaust)
qed

lemma slot_of_MainNum [simp]: "slot_of j (t\<lparr>MainNum := m\<rparr>) = slot_of j t"
  by (simp add: slot_of_def)

lemma slot_key_0: "1 \<le> n \<Longrightarrow> n < MaxSupport \<Longrightarrow> 1 \<le> i \<Longrightarrow> i < MaxSupport \<Longrightarrow>
  env_number (ef_set_env (sprintf_ld (word_of_nat n)) (sprintf_ld v) e) (sprintf_ld (word_of_nat i)) =
    (if i = n then v else env_number e (sprintf_ld (word_of_nat i)))"
  using slot_key_inj [of n i] by auto

text \<open>Emptying the slot of a device under its own key keeps the flash copy complete.\<close>

lemma mirror_clear_slot:
  assumes "table_wf (Devices g)" "flash_mirror (dev g)" "ID (Devices g) n = k" "k \<noteq> 0"
  shows "flash_mirror (dev (clear_slot n k g))"
proof -
  let ?t = "Devices g" and ?e = "env (dev (clear_slot n k g))"
  note m = assms(2) [unfolded flash_mirror_def Let_def]
  have n: "1 \<le> n" "n \<le> unat (Num ?t)" "unat (Num ?t) < 50"
    using slot_of_Some [of k ?t n] slot_of_wf [OF assms(1,4), of n] assms by (auto simp: table_wf_def)
  have ids: "env_number ?e (sprintf_ld (word_of_nat i)) = ID (emptied n ?t) i" if "1 \<le> i" "i \<le> unat (Num ?t)" for i
    using m that n slot_key_0 [of n i] by (simp add: clear_slot_env emptied_def)
  have slots: "mirrors_slot ?e (emptied n ?t) i" if "ID (emptied n ?t) i \<noteq> 0" for i
  proof -
    have i: "i \<noteq> n" using that by (auto simp: emptied_def)
    with that have nz: "ID ?t i \<noteq> 0" by (simp add: emptied_def)
    then have "ID ?t i \<noteq> k" using assms(1,3) i by (auto simp: table_wf_def)
    moreover have "mirrors_slot (env (dev g)) ?t i" using m nz by blast
    ultimately show ?thesis using i
      by (simp add: mirrors_slot_def emptied_def clear_slot_env sprintf_ld_inj)
  qed
  have keys: "sprintf_ld j \<noteq> ''Learn_Nums''" "sprintf_ld j \<noteq> ''Main_Nums''" for j :: u32 by simp_all
  have "env_number ?e ''Learn_Nums'' = ucast (Num ?t)" "env_number ?e ''Main_Nums'' = ucast (MainNum ?t)"
    using m keys by (simp_all add: clear_slot_env)
  with ids slots show ?thesis
    unfolding flash_mirror_def Let_def clear_slot_table by (simp add: emptied_def)
qed

lemma mirror_Del_MainNums: "flash_mirror d \<Longrightarrow> flash_mirror (snd (Del_MainNums d))"
proof -
  have keys: "sprintf_ld j \<noteq> ''Main_Nums''" for j :: u32 by simp
  assume "flash_mirror d"
  with keys show ?thesis
    by (auto simp: Del_MainNums_def Let_def Flash_MainNums_Change_def set_MainNum_def flash_mirror_def mirrors_slot_def)
qed

definition idle_gateway :: gateway where
  "idle_gateway = \<lparr>dev = empty_store, Remote_Device = \<lparr>Remote_Num = 0, Remote_ID = (\<lambda>_. 0)\<rparr>,
     wifi = \<lparr>wifi_uart_tx_buf = (\<lambda>_. 0), uart_out = [], stop_update_flag = 0, reset_wifi_flag = 0, set_wifimode_flag = 0,
       wifi_work_state = 0xff, if_subdev_net_in = 0, firm_size = 0, firm_length = 0, firm_update_flag = 0\<rparr>,
     rf = idle_radio, board = dark_board, downloads = fresh_ota, Sync_Counter = 1, Sync_Once_Sem = 0, Sync_Recv = 0,
     Sync_Start = 0, Sync_Timeout_t = False, wifi_status = 0xff, wifi_connected = 0, WiFi_FactoryFlag = 0,
     Reset_WiFi_Counter = 0, wifi_rst_timer = False, wifi_test_timer = False, rf_factoryflag = 0\<rparr>"

text \<open>A gateway with main unit 10000001 in slot 1 and water sensor 20000001, bound to it, in slot 2.\<close>

definition small_table :: Device_Info where
  "small_table = Device_Info_zero\<lparr>Num := 2, MainNum := 1, ID := (\<lambda>_. 0)(1 := 10000001, 2 := 20000001),
     Bind_ID := (\<lambda>_. 0)(2 := 10000001), Heart := (\<lambda>_. 0)(1 := 1, 2 := 1)\<rparr>"

definition small_gateway :: gateway where
  "small_gateway = idle_gateway\<lparr>dev := \<lparr>Global_Device = small_table, env = Map.empty\<rparr>\<rparr>"

lemma small_table_wf: "table_wf small_table"
  by (auto simp: table_wf_def small_table_def Device_Info_zero_def)

lemma small_slots:
  "slot_of 10000001 small_table = Some 1" "slot_of 20000001 small_table = Some 2"
  using slot_of_wf [OF small_table_wf, of 10000001 1] slot_of_wf [OF small_table_wf, of 20000001 2]
  by (simp_all add: small_table_def)

section \<open>Properties of deletion\<close>

text \<open>Property C30. Deleting a device removes exactly it: in its slot the identifier, the binding and the upload flag become 0 and
  nothing else in the table changes but the count of main units, which goes down by one for a main unit; in flash the same
  three entries become 0 and no other entry but that count changes. So the table stays well formed, the device is unknown
  afterwards, every other device keeps its slot, and a flash copy that was complete still is.\<close>

theorem Del_Device_removes:
  assumes "table_wf (Devices g)" and "slot_of k (Devices g) = Some n" and "k \<noteq> 0"
  defines "g' \<equiv> snd (Del_Device k g)"
  shows "table_wf (Devices g') \<and> Flash_Get_Key_Valid k (dev g') = RT_ERROR \<and>
    (\<forall>j. j = 0 \<or> j = k \<or> slot_of j (Devices g') = slot_of j (Devices g)) \<and>
    Devices g' = (Devices g)\<lparr>ID := (ID (Devices g))(n := 0), Bind_ID := (Bind_ID (Devices g))(n := 0),
      UploadFlag := (UploadFlag (Devices g))(n := 0),
      MainNum := (if is_main k then less_main (MainNum (Devices g)) else MainNum (Devices g))\<rparr> \<and>
    (\<forall>key \<in> {sprintf_ld (word_of_nat n), ''bind:'' @ sprintf_ld k, ''upload:'' @ sprintf_ld k}. env (dev g') key = Some (sprintf_ld 0)) \<and>
    (\<forall>key. key \<in> {sprintf_ld (word_of_nat n), ''bind:'' @ sprintf_ld k, ''upload:'' @ sprintf_ld k} \<or> is_main k \<and> key = ''Main_Nums'' \<or>
      env (dev g') key = env (dev g) key) \<and>
    (flash_mirror (dev g) \<longrightarrow> flash_mirror (dev g'))"
proof (intro conjI impI)
  have idn: "ID (Devices g) n = k" using slot_of_Some [OF assms(2)] by simp
  note t = Del_Device_table [OF assms(2), folded g'_def]
  show "table_wf (Devices g')" unfolding g'_def by (rule Del_Device_wf [OF assms(1)])
  have slot: "slot_of j (Devices g') = (if j = k then None else slot_of j (Devices g))" if "j \<noteq> 0" for j
    using slot_of_emptied [OF assms(1) idn assms(3) that] by (simp add: t)
  show "Flash_Get_Key_Valid k (dev g') = RT_ERROR" using slot [OF assms(3)] by (simp add: Flash_Get_Key_Valid_def)
  show "\<forall>j. j = 0 \<or> j = k \<or> slot_of j (Devices g') = slot_of j (Devices g)" using slot by metis
  show "Devices g' = (Devices g)\<lparr>ID := (ID (Devices g))(n := 0), Bind_ID := (Bind_ID (Devices g))(n := 0),
      UploadFlag := (UploadFlag (Devices g))(n := 0),
      MainNum := (if is_main k then less_main (MainNum (Devices g)) else MainNum (Devices g))\<rparr>"
    by (simp add: t emptied_def)
  let ?h = "if is_main k then on_dev (\<lambda>d. snd (Del_MainNums d)) g else g"
  have g': "g' = clear_slot n k (Remote_Device_Delete k ?h)"
    by (simp add: g'_def Del_Device_def assms(2) is_main_def Let_def)
  show "\<forall>key \<in> {sprintf_ld (word_of_nat n), ''bind:'' @ sprintf_ld k, ''upload:'' @ sprintf_ld k}. env (dev g') key = Some (sprintf_ld 0)"
    by (simp add: g' clear_slot_env ef_set_env_def)
  show "\<forall>key. key \<in> {sprintf_ld (word_of_nat n), ''bind:'' @ sprintf_ld k, ''upload:'' @ sprintf_ld k} \<or> is_main k \<and> key = ''Main_Nums'' \<or>
      env (dev g') key = env (dev g) key"
  proof
    fix key
    show "key \<in> {sprintf_ld (word_of_nat n), ''bind:'' @ sprintf_ld k, ''upload:'' @ sprintf_ld k} \<or> is_main k \<and> key = ''Main_Nums'' \<or>
        env (dev g') key = env (dev g) key"
      using Del_MainNums_env [of key "dev g"] by (auto simp: g' clear_slot_env ef_set_env_def)
  qed
  assume m: "flash_mirror (dev g)"
  show "flash_mirror (dev g')" unfolding g'
  proof (rule mirror_clear_slot)
    show "flash_mirror (dev (Remote_Device_Delete k ?h))" using m mirror_Del_MainNums by simp
    show "table_wf (Devices (Remote_Device_Delete k ?h))"
      using assms(1) by (auto simp: Del_MainNums_table intro!: table_wf_MainNum less_main_le)
    show "ID (Devices (Remote_Device_Delete k ?h)) n = k" using idn by (simp add: Del_MainNums_table)
  qed (rule assms(3))
qed

theorem Del_Device_removes_witness:
  "Flash_Get_Key_Valid 10000001 (dev (snd (Del_Device 10000001 small_gateway))) = RT_ERROR \<and>
    env (dev (snd (Del_Device 10000001 small_gateway))) (''bind:'' @ sprintf_ld 10000001) = Some (sprintf_ld 0)"
  using Del_Device_removes [of small_gateway 10000001 1] small_table_wf small_slots
  by (simp add: small_gateway_def)

section \<open>Deleting a main unit with everything bound to it\<close>

definition bound_to :: "u32 \<Rightarrow> Device_Info \<Rightarrow> nat \<Rightarrow> bool" where
  "bound_to k t i \<longleftrightarrow> Bind_ID t i = k \<or> ID t i = k"

definition del_bind_table :: "u32 \<Rightarrow> nat \<Rightarrow> Device_Info \<Rightarrow> Device_Info" where
  "del_bind_table k num t = (if bound_to k t num
     then (emptied num t)\<lparr>MainNum := (if is_main k then less_main (MainNum t) else MainNum t)\<rparr> else t)"

lemma del_bind_step_table: "Devices (del_bind_step k num g) = del_bind_table k num (Devices g)"
  by (auto simp: del_bind_step_def del_bind_table_def bound_to_def clear_slot_table Del_MainNums_table
      is_main_def emptied_def Let_def)

lemma Del_MainBind_table:
  "Devices (snd (Del_MainBind k g)) = down_fold (del_bind_table k) (unat (Num (Devices g))) (Devices g)"
  unfolding Del_MainBind_def snd_conv by (rule down_fold_sim) (rule del_bind_step_table)

lemma del_bind_fold:
  fixes k :: u32
  defines "r \<equiv> \<lambda>n t. down_fold (del_bind_table k) n t"
  shows "Num (r n t) = Num t \<and>
    (\<forall>i. ID (r n t) i = (if 1 \<le> i \<and> i \<le> n \<and> bound_to k t i then 0 else ID t i)) \<and>
    (\<forall>i. Bind_ID (r n t) i = (if 1 \<le> i \<and> i \<le> n \<and> bound_to k t i then 0 else Bind_ID t i)) \<and>
    MainNum (r n t) = (if is_main k then (less_main ^^ length (filter (bound_to k t) [1..<n + 1])) (MainNum t) else MainNum t)"
proof (induction n arbitrary: t)
  case 0
  then show ?case by (simp add: r_def)
next
  case (Suc n)
  let ?t = "del_bind_table k (Suc n) t"
  have r: "r (Suc n) t = r n ?t" by (simp add: r_def)
  have same: "bound_to k ?t i = bound_to k t i" if "i \<noteq> Suc n" for i
    using that by (simp add: del_bind_table_def bound_to_def emptied_def)
  have f: "filter (bound_to k ?t) [1..<n + 1] = filter (bound_to k t) [1..<n + 1]"
    using same by (intro filter_cong) auto
  have len: "length (filter (bound_to k t) [1..<Suc n + 1]) =
    length (filter (bound_to k t) [1..<n + 1]) + (if bound_to k t (Suc n) then 1 else 0)" by simp
  have main: "MainNum ?t = (if bound_to k t (Suc n) \<and> is_main k then less_main (MainNum t) else MainNum t)"
    by (simp add: del_bind_table_def)
  have ids: "ID ?t i = (if i = Suc n \<and> bound_to k t i then 0 else ID t i)"
    "Bind_ID ?t i = (if i = Suc n \<and> bound_to k t i then 0 else Bind_ID t i)" for i
    by (auto simp: del_bind_table_def emptied_def)
  have "Num ?t = Num t" by (simp add: del_bind_table_def emptied_def)
  with Suc.IH [of ?t] show ?case
    unfolding r f len main ids using same by (auto simp: le_Suc_eq funpow_swap1 Suc_le_eq)
qed

lemma less_main_iter: "unat ((less_main ^^ n) m) = unat m - n"
proof (induction n)
  case (Suc n)
  have "unat (less_main x) = unat x - 1" for x :: u8
    by (cases "x = 0") (simp_all add: less_main_def word_gt_0 unat_minus_one)
  with Suc show ?case by simp
qed simp

lemma table_wf_shrink:
  assumes "table_wf t" "Num t' = Num t" "unat (MainNum t') \<le> unat (MainNum t)" "\<And>i. ID t' i = ID t i \<or> ID t' i = 0"
  shows "table_wf t'"
  using assms unfolding table_wf_def by (metis (no_types, lifting) le_trans)

lemma Del_MainBind_wf:
  assumes "table_wf (Devices g)"
  shows "table_wf (Devices (snd (Del_MainBind k g)))"
  unfolding Del_MainBind_table
  using del_bind_fold [of k "unat (Num (Devices g))" "Devices g"] assms
  by (intro table_wf_shrink [OF assms]) (auto simp: less_main_iter)

text \<open>Deleting a main unit clears it and everything bound to it: afterwards no slot holds or is
  bound to the unit, every slot that had nothing to do with it keeps its device and binding, and the
  table stays well formed.\<close>

lemma Del_MainBind_clears:
  assumes "table_wf (Devices g)" and "k \<noteq> 0"
  defines "t \<equiv> Devices g" and "t' \<equiv> Devices (snd (Del_MainBind k g))"
  shows "table_wf t' \<and>
    (\<forall>i. 1 \<le> i \<and> i \<le> unat (Num t') \<longrightarrow> \<not> bound_to k t' i) \<and>
    (\<forall>i. bound_to k t i \<or> (ID t' i = ID t i \<and> Bind_ID t' i = Bind_ID t i))"
proof (intro conjI)
  note f = del_bind_fold [of k "unat (Num t)" t]
  have t': "t' = down_fold (del_bind_table k) (unat (Num t)) t"
    unfolding t'_def t_def by (rule Del_MainBind_table)
  show "table_wf t'" unfolding t'_def by (rule Del_MainBind_wf [OF assms(1)])
  show "\<forall>i. 1 \<le> i \<and> i \<le> unat (Num t') \<longrightarrow> \<not> bound_to k t' i"
    using f assms(2) unfolding t' by (auto simp: bound_to_def)
  show "\<forall>i. bound_to k t i \<or> (ID t' i = ID t i \<and> Bind_ID t' i = Bind_ID t i)"
    using f unfolding t' by auto
qed

text \<open>The count of main units goes wrong: deleting a main unit with everything bound to it
  subtracts one for every slot that is emptied, sensors and doors included, not one for the main
  unit.\<close>

lemma Del_MainBind_miscounts:
  assumes "is_main k"
  shows "unat (MainNum (Devices (snd (Del_MainBind k g)))) =
    unat (MainNum (Devices g)) - length (filter (bound_to k (Devices g)) [1..<unat (Num (Devices g)) + 1])"
  using assms del_bind_fold [of k "unat (Num (Devices g))" "Devices g"]
  by (simp add: Del_MainBind_table less_main_iter)

text \<open>Two main units and a sensor of the first: after the first is deleted the count is 0, although the
  second is still there.\<close>

definition two_mains :: gateway where
  "two_mains = idle_gateway\<lparr>dev := \<lparr>Global_Device = small_table\<lparr>Num := 3, MainNum := 2,
     ID := (ID small_table)(3 := 10000002)\<rparr>, env = Map.empty\<rparr>\<rparr>"

section \<open>Online state of the bound units\<close>

lemma Device_Down_out [wire]:
  "uart_out (wifi (Device_Down i g)) = uart_out (wifi g) @ json_frame 0x2a (online_text (sprintf_ld i) 0)"
  using sprintf_ld_length [of i] by (simp add: Device_Down_def user_updata_subden_online_state_out)

lemma Device_Up_out [wire]:
  "uart_out (wifi (Device_Up i g)) = uart_out (wifi g) @ json_frame 0x0a (heart_text (sprintf_ld i)) @
     json_frame 0x2a (online_text (sprintf_ld i) 1)"
  using sprintf_ld_length [of i]
  by (simp add: Device_Up_def Let_def user_updata_subden_online_state_out heart_beat_report_out)

definition offline_messages :: "u32 \<Rightarrow> Device_Info \<Rightarrow> nat \<Rightarrow> bytes" where
  "offline_messages k t n = concat (map (\<lambda>i. json_frame 0x2a (online_text (sprintf_ld (ID t i)) 0))
     (filter (\<lambda>i. Bind_ID t i = k) (rev [1..<n + 1])))"

lemma slave_heart_fold:
  "uart_out (wifi (down_fold (slave_heart_step k 0) n g)) = uart_out (wifi g) @ offline_messages k (Devices g) n"
proof (induction n arbitrary: g)
  case 0
  then show ?case by (simp add: offline_messages_def)
next
  case (Suc n)
  have "dev (slave_heart_step k 0 (Suc n) g) = dev g"
    by (simp add: slave_heart_step_def)
  then show ?case using Suc.IH [of "slave_heart_step k 0 (Suc n) g"]
    by (simp add: offline_messages_def slave_heart_step_def Device_Down_out)
qed

text \<open>A main unit that goes offline takes its units along: the first time it is marked offline the
  gateway reports every unit bound to it offline, in descending order of slots and with nothing
  else sent, stores the state in flash, and changes no other entry; marking it again does nothing.\<close>

lemma Flash_Set_Heart_offline:
  assumes "slot_of k (Devices g) = Some n" and "Heart (Devices g) n \<noteq> 0"
  defines "g' \<equiv> snd (Flash_Set_Heart k 0 g)"
  shows "uart_out (wifi g') = uart_out (wifi g) @ offline_messages k (Devices g) (unat (Num (Devices g))) \<and>
    Devices g' = (Devices g)\<lparr>Heart := (Heart (Devices g))(n := 0)\<rparr> \<and>
    env_number (env (dev g')) (''heart:'' @ sprintf_ld k) = 0 \<and>
    Flash_Set_Heart k 0 g' = (RT_EOK, g')"
proof (intro conjI)
  have g': "g' = set_Heart n 0 (on_dev (Flash_Heart_Change k 0) (Set_Slave_Heart k 0 g))"
    using assms by (simp add: Flash_Set_Heart_def Let_def)
  show "uart_out (wifi g') = uart_out (wifi g) @ offline_messages k (Devices g) (unat (Num (Devices g)))"
    unfolding g' by (simp add: set_Heart_def Set_Slave_Heart_def slave_heart_fold)
  show t: "Devices g' = (Devices g)\<lparr>Heart := (Heart (Devices g))(n := 0)\<rparr>"
    unfolding g' by (simp add: set_Heart_def)
  show "env_number (env (dev g')) (''heart:'' @ sprintf_ld k) = 0"
    unfolding g' by (simp add: set_Heart_def Flash_Heart_Change_def)
  have "slot_of k (Devices g') = Some n" using assms(1) unfolding t by (simp add: slot_of_def)
  then show "Flash_Set_Heart k 0 g' = (RT_EOK, g')"
    by (simp add: Flash_Set_Heart_def t)
qed

section \<open>The invariant of the gateway\<close>

definition gateway_wf :: "gateway \<Rightarrow> bool" where
  "gateway_wf g \<longleftrightarrow> table_wf (Devices g) \<and> queue_wf (rf g) \<and> led_wf (board g) \<and> unat (Remote_Num (Remote_Device g)) < MaxSupport"

lemma gateway_wf_reports: "reports g g' \<Longrightarrow> gateway_wf g' = gateway_wf g"
  by (simp add: gateway_wf_def reports_keep)

lemma reports_wfI: "gateway_wf g \<Longrightarrow> reports g g' \<Longrightarrow> gateway_wf g'"
  by (simp add: gateway_wf_reports)

lemma queue_wf_enqueue:
  "queue_wf r \<Longrightarrow> queue_wf (GatewayDataEnqueue a b c e f r)" "queue_wf r \<Longrightarrow> queue_wf (RadioEnqueue a c e f r)"
  using enqueue_queue(1) [of r "Gateway_Msg a b c e f"] enqueue_queue(1) [of r "Normal_Msg a c e f"] by simp_all

lemma gateway_wf_radio:
  "gateway_wf g \<Longrightarrow> gateway_wf (on_rf (GatewayDataEnqueue a b c e f) g)"
  "gateway_wf g \<Longrightarrow> gateway_wf (on_rf (RadioEnqueue a c e f) g)"
  by (simp_all add: gateway_wf_def queue_wf_enqueue)

lemma gateway_wf_board: "gateway_wf g \<Longrightarrow> led_wf (f (board g)) \<Longrightarrow> gateway_wf (on_board f g)"
  by (simp add: gateway_wf_def)

lemma gateway_wf_dev:
  "gateway_wf g \<Longrightarrow> table_wf (Global_Device (f (dev g))) \<Longrightarrow> gateway_wf (on_dev f g)"
  by (simp add: gateway_wf_def)

text \<open>Changes of the columns that the invariant does not read.\<close>

lemma table_wf_columns [simp]:
  "table_wf (t\<lparr>Rssi := a\<rparr>) = table_wf t" "table_wf (t\<lparr>Moto := a\<rparr>) = table_wf t" "table_wf (t\<lparr>Heart := a\<rparr>) = table_wf t"
  "table_wf (t\<lparr>HeartRecv := a\<rparr>) = table_wf t" "table_wf (t\<lparr>HeartRetry := a\<rparr>) = table_wf t"
  "table_wf (t\<lparr>HeartCount := a\<rparr>) = table_wf t" "table_wf (t\<lparr>UploadFlag := a\<rparr>) = table_wf t"
  "table_wf (t\<lparr>SyncRetry := a\<rparr>) = table_wf t"
  by (simp_all add: table_wf_def)

lemma table_wf_setters:
  "table_wf (Global_Device d) \<Longrightarrow> table_wf (Global_Device (snd (Flash_Set_Rssi k b d)))"
  "table_wf (Global_Device d) \<Longrightarrow> table_wf (Global_Device (snd (Flash_Set_Moto k b d)))"
  "table_wf (Global_Device d) \<Longrightarrow> table_wf (Global_Device (snd (Flash_Set_UploadFlag k b d)))"
  by (simp_all add: Flash_Set_Rssi_def Flash_Set_Moto_def Flash_Set_UploadFlag_def Let_def split: option.split)

lemma gateway_wf_devices: "gateway_wf g \<Longrightarrow> table_wf t \<Longrightarrow> gateway_wf (set_Devices t g)"
  by (simp add: gateway_wf_def)

lemma gateway_wf_slaves: "gateway_wf g \<Longrightarrow> gateway_wf (Set_Slave_Heart k h g)"
  by (rule reports_wfI [OF _ reports_slaves])

lemma gateway_wf_Heart: "gateway_wf g \<Longrightarrow> gateway_wf (set_Heart n v g)"
  unfolding set_Heart_def by (rule gateway_wf_devices) (simp_all add: gateway_wf_def)

lemma gateway_wf_Set_Heart: "gateway_wf g \<Longrightarrow> gateway_wf (snd (Flash_Set_Heart k h g))"
proof -
  assume wf: "gateway_wf g"
  have online: "gateway_wf (set_Heart n v (on_dev (Flash_Heart_Change k v') (Set_Slave_Heart k h' g')))"
    if "gateway_wf g'" for n v v' h' g'
    using gateway_wf_slaves [OF that, of k h']
    by (intro gateway_wf_Heart gateway_wf_dev) (simp_all add: gateway_wf_def)
  have recv: "gateway_wf (set_Devices ((Devices g)\<lparr>HeartRecv := a\<rparr>) g)" for a
    using wf by (intro gateway_wf_devices) (simp_all add: gateway_wf_def)
  show ?thesis
    using wf recv online [OF wf] online [OF recv]
    by (simp add: Flash_Set_Heart_def Let_def split: option.split)
qed

lemma gateway_wf_Remote_Delete: "gateway_wf g \<Longrightarrow> gateway_wf (Remote_Device_Delete k g)"
  by (simp add: gateway_wf_def Remote_Device_Delete_def Let_def split: option.split)

lemma board_clear_slot [simp]: "board (clear_slot n k g) = board g"
  by (simp add: clear_slot_def Let_def)

lemma gateway_wf_clear_slot: "gateway_wf g \<Longrightarrow> gateway_wf (clear_slot n k g)"
  by (simp add: gateway_wf_def clear_slot_table table_wf_emptied)

lemma gateway_wf_Del_Device: "gateway_wf g \<Longrightarrow> gateway_wf (snd (Del_Device k g))"
proof -
  assume wf: "gateway_wf g"
  have "gateway_wf (on_dev (\<lambda>d. snd (Del_MainNums d)) g)"
    using wf by (intro gateway_wf_dev) (auto simp: Del_MainNums_table gateway_wf_def intro!: table_wf_MainNum less_main_le)
  with wf show ?thesis
    by (simp add: Del_Device_def Let_def gateway_wf_clear_slot gateway_wf_Remote_Delete split: option.split)
qed

lemma gateway_wf_del_step: "gateway_wf g \<Longrightarrow> gateway_wf (del_bind_step k n g)"
proof -
  assume wf: "gateway_wf g"
  have main: "gateway_wf (on_dev (\<lambda>d. snd (Del_MainNums d)) g)"
    using wf by (intro gateway_wf_dev) (auto simp: Del_MainNums_table gateway_wf_def intro!: table_wf_MainNum less_main_le)
  show ?thesis
    using wf main by (simp add: del_bind_step_def Let_def gateway_wf_clear_slot reports_wfI [OF _ reports_ops(20)])
qed

lemma gateway_wf_Del_MainBind: "gateway_wf g \<Longrightarrow> gateway_wf (snd (Del_MainBind k g))"
  unfolding Del_MainBind_def snd_conv by (rule down_fold_inv [where I = gateway_wf]) (simp_all add: gateway_wf_del_step)

section \<open>Adding keeps the invariant\<close>

lemma add_cases:
  obtains (full) "table_full t" | (free) n where "free_slot t n"
  using table_full_free by blast

lemma table_wf_SlaveAdd:
  assumes "table_wf (Global_Device d)" "k \<noteq> 0" "Flash_Get_Key_Valid k d = RT_ERROR"
  shows "table_wf (Global_Device (snd (SlaveAdd_Flash k b d)))"
proof (cases rule: add_cases [of "Global_Device d"])
  case full
  with assms show ?thesis by (simp add: SlaveAdd_full)
next
  case (free n)
  have "\<And>i. ID (Global_Device d) i \<noteq> k"
    using assms(3) slot_of_None [OF assms(1,2)] by (auto simp: Flash_Get_Key_Valid_def split: option.splits)
  with free assms show ?thesis by (simp add: SlaveAdd_free(2) table_wf_added)
qed

lemma table_wf_Add_MainNums: "table_wf (Global_Device d) \<Longrightarrow> table_wf (Global_Device (snd (Add_MainNums d)))"
proof -
  assume wf: "table_wf (Global_Device d)"
  have "unat (MainNum (Global_Device d) + 1) \<le> 3" if "MainNum (Global_Device d) < 3"
    using that unat8_add [of "MainNum (Global_Device d)" 1] by (simp add: word_less_nat_alt)
  with wf show ?thesis
    by (simp add: Add_MainNums_def Let_def set_MainNum_def table_wf_def)
qed

lemma table_wf_MainAdd:
  assumes "table_wf (Global_Device d)" "k \<noteq> 0" "Flash_Get_Key_Valid k d = RT_ERROR"
  shows "table_wf (Global_Device (snd (MainAdd_Flash k d)))"
  using table_wf_SlaveAdd [OF assms, of 0]
  by (auto simp: MainAdd_SlaveAdd table_wf_Add_MainNums split: prod.split)

lemma gateway_wf_add_kind:
  assumes "gateway_wf g" "Flash_Get_Key_Valid k (dev g) = RT_ERROR \<Longrightarrow> table_wf (Global_Device (snd (add (dev g))))"
    and "\<And>h. reports h (announce k h)"
  shows "gateway_wf (add_kind add announce k g)"
proof -
  define h where "h = (if Flash_Get_Key_Valid k (dev g) = RT_ERROR then on_dev (\<lambda>d. snd (add d)) g else g)"
  have "gateway_wf h" using assms(1,2) by (simp add: h_def gateway_wf_dev)
  moreover from this have "gateway_wf (on_dev (\<lambda>d. snd (Flash_Set_UploadFlag k 0 d)) h)"
    by (intro gateway_wf_dev table_wf_setters) (simp_all add: gateway_wf_def)
  ultimately show ?thesis
    using assms(3) by (auto simp: add_kind_def h_def [symmetric] Let_def intro: reports_wfI)
qed

lemma gateway_wf_Add2Flash: "gateway_wf g \<Longrightarrow> gateway_wf (Device_Add2Flash_Wifi k m g)"
proof -
  assume wf: "gateway_wf g"
  have t: "table_wf (Devices g)" using wf by (simp add: gateway_wf_def)
  consider (main) "is_main k" | (other) "k \<noteq> 0" "\<not> is_main k" | (zero) "k = 0" by blast
  then show ?thesis
  proof cases
    case main
    then have "k \<noteq> 0" "\<not> 20000000 \<le> k" "\<not> 30000000 \<le> k" by (auto simp: is_main_def word_le_nat_alt word_less_nat_alt)
    with main t wf show ?thesis
      by (auto simp: Device_Add2Flash_Wifi_def is_main_def intro!: gateway_wf_add_kind table_wf_MainAdd reports_ops)
  next
    case other
    with t wf show ?thesis
      by (auto simp: Device_Add2Flash_Wifi_def is_main_def DoorAdd_SlaveAdd intro!: gateway_wf_add_kind table_wf_SlaveAdd reports_ops)
  next
    case zero
    with wf show ?thesis by (simp add: Device_Add2Flash_Wifi_def)
  qed
qed

lemma gateway_wf_misc:
  assumes "gateway_wf g"
  shows "gateway_wf (Slave_Heart k b g)" "gateway_wf (MotoUpload k b g)" "gateway_wf (DeviceCheck k m g)"
    "gateway_wf (Heart_Upload k h g)" "gateway_wf (Moto_CloseRemote k g)" "gateway_wf (Moto_OpenRemote k g)"
    "gateway_wf (Delay_CloseRemote k g)" "gateway_wf (Delay_OpenRemote k g)" "gateway_wf (Ack_Report k g)"
proof -
  have dev: "gateway_wf (on_dev (\<lambda>d. snd (Flash_Set_Rssi k b d)) g')" "gateway_wf (on_dev (\<lambda>d. snd (Flash_Set_Moto k b d)) g')"
    if "gateway_wf g'" for g' :: gateway
    using that by (auto simp: gateway_wf_def intro!: table_wf_setters)
  show "gateway_wf (Slave_Heart k b g)" "gateway_wf (MotoUpload k b g)"
    using assms unfolding Slave_Heart_def MotoUpload_def Let_def
    by (auto intro!: dev reports_wfI [OF _ reports_wifi(2)] reports_wfI [OF _ reports_wifi(1)] reports_wfI [OF _ reports_ops(5)])
  show "gateway_wf (DeviceCheck k m g)" unfolding DeviceCheck_def by (rule gateway_wf_Set_Heart [OF assms])
  show "gateway_wf (Heart_Upload k h g)" unfolding Heart_Upload_def Let_def
    by (intro gateway_wf_Set_Heart reports_wfI [OF _ reports_wifi(4)] assms)
qed (use assms in \<open>simp_all add: Moto_CloseRemote_def Moto_OpenRemote_def Delay_CloseRemote_def
    Delay_OpenRemote_def Ack_Report_def gateway_wf_radio\<close>)

lemmas gateway_wf_ops = gateway_wf_misc gateway_wf_Add2Flash gateway_wf_Del_MainBind gateway_wf_Del_Device
  gateway_wf_Set_Heart gateway_wf_radio reports_ops [THEN [2] reports_wfI]

end
