(* ===== verification/Radio_Decoder.thy ===== *)
theory Radio_Decoder
  imports Gateway_Devices
begin

text \<open>
  The receive side of the radio (\<open>src/radio/Radio_Decoder.c\<close>): every packet goes to
  \<open>rf433_rx_callback\<close>, which dispatches on the first character to the learning protocol and to the
  three kinds of messages a main unit sends. The fields of a \<open>Message\<close> are uninitialised locals
  that \<open>sscanf\<close> fills up to the first mismatch; \<open>junk\<close> is what they hold before. A packet is the
  64-byte receive buffer, zeroed before the packet is read; cell 0 is the length byte. The cells from 64 on are the
  memory behind the buffer, and \<open>rx_before\<close> of \<open>junk\<close> is the byte in front of it (the field \<open>TxLen\<close> of the driver),
  which \<open>NormalSolve\<close> reads when the length is 0: such reads are not faults of the model, their values are arbitrary.
\<close>

section \<open>Messages\<close>

record Message =
  rx_ack :: int
  rx_type :: int
  rx_Target_ID :: int
  rx_From_ID :: int
  rx_Device_ID :: int
  rx_Counter :: int
  rx_Command :: int
  rx_Data :: int
  rx_Rssi :: int
  rx_before :: u8

definition set_ack :: "int \<Rightarrow> Message \<Rightarrow> Message" where "set_ack v m = m\<lparr>rx_ack := v\<rparr>"
definition set_type :: "int \<Rightarrow> Message \<Rightarrow> Message" where "set_type v m = m\<lparr>rx_type := v\<rparr>"
definition set_Target_ID :: "int \<Rightarrow> Message \<Rightarrow> Message" where "set_Target_ID v m = m\<lparr>rx_Target_ID := v\<rparr>"
definition set_From_ID :: "int \<Rightarrow> Message \<Rightarrow> Message" where "set_From_ID v m = m\<lparr>rx_From_ID := v\<rparr>"
definition set_Device_ID :: "int \<Rightarrow> Message \<Rightarrow> Message" where "set_Device_ID v m = m\<lparr>rx_Device_ID := v\<rparr>"
definition set_Counter :: "int \<Rightarrow> Message \<Rightarrow> Message" where "set_Counter v m = m\<lparr>rx_Counter := v\<rparr>"
definition set_Command :: "int \<Rightarrow> Message \<Rightarrow> Message" where "set_Command v m = m\<lparr>rx_Command := v\<rparr>"
definition set_Data :: "int \<Rightarrow> Message \<Rightarrow> Message" where "set_Data v m = m\<lparr>rx_Data := v\<rparr>"
definition set_Rssi :: "int \<Rightarrow> Message \<Rightarrow> Message" where "set_Rssi v m = m\<lparr>rx_Rssi := v\<rparr>"

lemmas message_setters = set_ack_def set_type_def set_Target_ID_def set_From_ID_def set_Device_ID_def
  set_Counter_def set_Command_def set_Data_def set_Rssi_def

definition RX_BUFF :: nat where "RX_BUFF = 64"

definition rx_text :: "memory \<Rightarrow> nat \<Rightarrow> string" where
  "rx_text rx_buffer at = map char_of_byte (takeWhile (\<lambda>b. b \<noteq> 0) (map rx_buffer [at..<RX_BUFF]))"

text \<open>\<open>sscanf\<close> into the listed fields.\<close>

definition scan_into :: "(int \<Rightarrow> Message \<Rightarrow> Message) list \<Rightarrow> string \<Rightarrow> Message \<Rightarrow> Message" where
  "scan_into fs s m = fold (\<lambda>(f, v). f v) (zip fs (sscanf_braces s (length fs))) m"

abbreviation (input) u32_of :: "int \<Rightarrow> u32" where "u32_of \<equiv> word_of_int"
abbreviation (input) u8_of :: "int \<Rightarrow> u8" where "u8_of \<equiv> word_of_int"

definition Check_Valid :: "u32 \<Rightarrow> gateway \<Rightarrow> u8" where
  "Check_Valid From_id g = Flash_Get_Key_Valid From_id (dev g)"

section \<open>Learning\<close>

definition Device_Learn :: "Message \<Rightarrow> gateway \<Rightarrow> gateway" where
  "Device_Learn buf g =
    (if Flash_Get_Key_Valid (u32_of (rx_From_ID buf)) (dev g) \<noteq> RT_EOK \<and> Get_MainNums (dev g) \<noteq> RT_EOK
     then on_board learn_fail g
     else if rx_From_ID buf \<ge> 10000000 \<and> rx_From_ID buf < 20000000 then
       (if rx_Data buf = 1 then on_rf (RadioEnqueue (u32_of (rx_From_ID buf)) (u8_of (rx_Counter buf)) 3 2) g
        else if rx_Data buf = 2 then
          (let g = snd (Del_Device (u32_of (rx_From_ID buf)) g);
               g = Device_Add2Flash_Wifi (u32_of (rx_From_ID buf)) 0 g
           in on_board learn_success g)
        else g)
     else g)"

definition rf_clear :: "gateway \<Rightarrow> gateway" where
  "rf_clear g = g\<lparr>rf_factoryflag := 1\<rparr>"

definition rf_refresh :: "gateway \<Rightarrow> gateway" where
  "rf_refresh g = g\<lparr>rf_factoryflag := 0\<rparr>"

definition normal_message :: "memory \<Rightarrow> Message \<Rightarrow> Message" where
  "normal_message rx_buffer junk =
    scan_into [set_Target_ID, set_From_ID, set_Counter, set_Command, set_Data] (rx_text rx_buffer 1) junk"

definition NormalSolve :: "Message \<Rightarrow> int \<Rightarrow> memory \<Rightarrow> u8 \<Rightarrow> gateway \<Rightarrow> gateway" where
  "NormalSolve junk rssi rx_buffer rx_len g =
    (if rx_buffer (unat rx_len) = 0x0A \<and> (if rx_len = 0 then rx_before junk else rx_buffer (unat rx_len - 1)) = 0x0D then
       (let m = normal_message rx_buffer junk
        in if u32_of (rx_Target_ID m) = Self_Id (rf g) then
             (if rx_From_ID m = 98989898 then
                (let g = rf_refresh g
                 in if rssi > -70 then on_board (rf_led_factory 2) g else on_board (rf_led_factory 1) g)
              else
                (let g = on_board (rf_led 3) g;
                     g = (if rx_Command m = 3 then Device_Learn m g else g)
                 in Heart_Upload (u32_of (rx_From_ID m)) 1 g))
           else g)
     else g)"

section \<open>Messages of the main units\<close>

definition sync_message :: "memory \<Rightarrow> Message \<Rightarrow> Message" where
  "sync_message rx_buffer junk = scan_into [set_ack, set_type, set_Target_ID, set_From_ID, set_Device_ID, set_Rssi, set_Data]
     (rx_text rx_buffer 2) junk"

definition event_message :: "memory \<Rightarrow> Message \<Rightarrow> Message" where
  "event_message rx_buffer junk = scan_into [set_ack, set_Target_ID, set_From_ID, set_Device_ID, set_Rssi, set_Command, set_Data]
     (rx_text rx_buffer 2) junk"

definition send_ack :: "Message \<Rightarrow> gateway \<Rightarrow> gateway" where
  "send_ack m g = (if rx_ack m \<noteq> 0 then on_rf (GatewayDataEnqueue (u32_of (rx_From_ID m)) 0 0 7 0) g else g)"

definition Sync_Refresh :: "gateway \<Rightarrow> gateway" where
  "Sync_Refresh g =
    (if Sync_Start g \<noteq> 0 then
       (let g = g\<lparr>Sync_Recv := 1\<rparr>;
            g = set_Devices ((Devices g)\<lparr>SyncRetry := (SyncRetry (Devices g))(unat (Sync_Counter g) := 0)\<rparr>) g
        in g\<lparr>Sync_Timeout_t := True\<rparr>)
     else g)"

definition GatewaySyncSolve :: "Message \<Rightarrow> int \<Rightarrow> memory \<Rightarrow> u8 \<Rightarrow> gateway \<Rightarrow> gateway" where
  "GatewaySyncSolve junk rssi rx_buffer rx_len g =
    (if rx_buffer (unat rx_len) = byte_of (CHR ''A'') then
       (let m = sync_message rx_buffer junk;
            from_id = u32_of (rx_From_ID m);
            device_id = u32_of (rx_Device_ID m)
        in if u32_of (rx_Target_ID m) = Self_Id (rf g) \<and> Check_Valid from_id g = RT_EOK then
             (let g = on_board (rf_led 3) g;
                  g = send_ack m g;
                  g = Main_Rssi_Report from_id rssi g;
                  g = Heart_Upload from_id 1 g
              in if rx_type m = 1 then
                   (let g = DeviceCheck device_id from_id g
                    in Slave_Heart device_id (u8_of (rx_Rssi m)) g)
                 else if rx_type m = 2 then
                   (let g = Local_Delete device_id g
                    in snd (Del_Device device_id g))
                 else if rx_type m = 3 then
                   (let g = Sync_Refresh g;
                        g = Device_Add2Flash_Wifi device_id from_id g;
                        g = snd (Flash_Set_Heart device_id 1 g);
                        g = Device_Up device_id g;
                        g = Slave_Heart device_id (u8_of (rx_Rssi m)) g
                    in WariningUpload from_id device_id 2 (u8_of (rx_Data m)) g)
                 else if rx_type m = 4 then snd (Del_MainBind from_id g)
                 else if rx_type m = 5 then
                   (let g = Sync_Refresh g;
                        g = Device_Add2Flash_Wifi device_id from_id g;
                        g = snd (Flash_Set_Heart device_id 0 g);
                        g = Slave_Heart device_id (u8_of (rx_Rssi m)) g
                    in WariningUpload from_id device_id 2 (u8_of (rx_Data m)) g)
                 else if rx_type m = 6 then
                   (let g = Device_Add2Flash_Wifi device_id from_id g;
                        g = snd (Flash_Set_Heart device_id 1 g);
                        g = Device_Up device_id g;
                        g = Slave_Heart device_id (u8_of (rx_Rssi m)) g
                    in WariningUpload from_id device_id 2 (u8_of (rx_Data m)) g)
                 else g)
           else g)
     else g)"

definition GatewayWarningSolve :: "Message \<Rightarrow> int \<Rightarrow> memory \<Rightarrow> u8 \<Rightarrow> gateway \<Rightarrow> gateway" where
  "GatewayWarningSolve junk rssi rx_buffer rx_len g =
    (if rx_buffer (unat rx_len) = byte_of (CHR ''B'') then
       (let m = event_message rx_buffer junk;
            from_id = u32_of (rx_From_ID m);
            device_id = u32_of (rx_Device_ID m);
            dat = u8_of (rx_Data m)
        in if u32_of (rx_Target_ID m) = Self_Id (rf g) \<and> Check_Valid from_id g = RT_EOK then
             (let g = on_board (rf_led 3) g;
                  g = send_ack m g;
                  g = Heart_Upload from_id 1 g;
                  g = Main_Rssi_Report from_id rssi g
              in if rx_Command m = 1 then WariningUpload from_id device_id 1 dat g
                 else if rx_Command m = 2 then WariningUpload from_id device_id 0 dat g
                 else if rx_Command m = 3 then WariningUpload from_id device_id 2 dat g
                 else if rx_Command m = 4 then snd (Flash_Set_Heart device_id 0 g)
                 else if rx_Command m = 5 then
                   (let g = DeviceCheck device_id from_id g;
                        g = Slave_Heart device_id (u8_of (rx_Rssi m)) g;
                        g = WariningUpload from_id device_id 1 dat g
                    in MotoUpload from_id 0 g)
                 else if rx_Command m = 6 then
                   (let g = DeviceCheck device_id from_id g;
                        g = Slave_Heart device_id (u8_of (rx_Rssi m)) g
                    in WariningUpload from_id device_id 2 dat g)
                 else if rx_Command m = 7 then InitWarn_Main from_id g
                 else if rx_Command m = 8 then WariningUpload from_id device_id 3 dat g
                 else if rx_Command m = 9 then WariningUpload from_id device_id 3 dat g
                 else g)
           else g)
     else g)"

definition GatewayControlSolve :: "Message \<Rightarrow> int \<Rightarrow> memory \<Rightarrow> u8 \<Rightarrow> gateway \<Rightarrow> gateway" where
  "GatewayControlSolve junk rssi rx_buffer rx_len g =
    (if rx_buffer (unat rx_len) = byte_of (CHR ''C'') then
       (let m = event_message rx_buffer junk;
            from_id = u32_of (rx_From_ID m);
            device_id = u32_of (rx_Device_ID m);
            dat = u8_of (rx_Data m)
        in if u32_of (rx_Target_ID m) = Self_Id (rf g) \<and> Check_Valid from_id g = RT_EOK then
             (let g = on_board (rf_led 3) g;
                  g = send_ack m g;
                  g = Main_Rssi_Report from_id rssi g;
                  g = Heart_Upload from_id 1 g
              in if rx_Command m = 1 then
                   (let g = MotoUpload from_id dat g
                    in if rx_Data m = 0 then CloseWarn_Main from_id g else g)
                 else if rx_Command m = 2 then
                   (let g = DeviceCheck device_id from_id g;
                        g = Slave_Heart device_id (u8_of (rx_Rssi m)) g
                    in if rx_Data m = 0 \<or> rx_Data m = 1 then
                         (let g = MotoUpload from_id dat g
                          in if rx_Data m = 0 then CloseWarn_Slave device_id g else g)
                       else MotoUpload from_id 0 g)
                 else if rx_Command m = 3 then
                   (if rx_Device_ID m \<noteq> 0 then
                      (let g = Door_Delay_WiFi from_id device_id dat g;
                           g = DeviceCheck device_id from_id g
                       in Slave_Heart device_id (u8_of (rx_Rssi m)) g)
                    else g)
                 else if rx_Command m = 4 then MotoUpload from_id dat g
                 else if rx_Command m = 5 then
                   (let g = Sync_Refresh g;
                        g = MotoUpload from_id dat g;
                        g = Ack_Report from_id g
                    in InitWarn_Main from_id g)
                 else if rx_Command m = 6 then
                   (let g = DoorUpload device_id dat g;
                        g = DeviceCheck device_id from_id g;
                        g = Slave_Heart device_id (u8_of (rx_Rssi m)) g;
                        g = MotoUpload from_id dat g
                    in if rx_Data m = 0 then CloseWarn_Slave device_id g else g)
                 else g)
           else g)
     else g)"

definition rf433_rx_callback :: "Message \<Rightarrow> int \<Rightarrow> memory \<Rightarrow> u8 \<Rightarrow> gateway \<Rightarrow> gateway" where
  "rf433_rx_callback junk rssi buffer len g =
    (if buffer 1 = byte_of (CHR ''{'') then NormalSolve junk rssi buffer len g
     else if buffer 1 = byte_of (CHR ''A'') then GatewaySyncSolve junk rssi buffer len g
     else if buffer 1 = byte_of (CHR ''B'') then GatewayWarningSolve junk rssi buffer len g
     else if buffer 1 = byte_of (CHR ''C'') then GatewayControlSolve junk rssi buffer len g
     else g)"

section \<open>The invariant\<close>

lemma gateway_wf_led: "gateway_wf g \<Longrightarrow> gateway_wf (on_board (rf_led t) g)"
  "gateway_wf g \<Longrightarrow> gateway_wf (on_board (rf_led_factory t) g)" "gateway_wf g \<Longrightarrow> gateway_wf (on_board learn_fail g)"
  "gateway_wf g \<Longrightarrow> gateway_wf (on_board learn_success g)"
  by (simp_all add: gateway_wf_def led_wf_patterns)

lemma gateway_wf_ack: "gateway_wf g \<Longrightarrow> gateway_wf (send_ack m g)"
  by (simp add: send_ack_def gateway_wf_radio)

lemma gateway_wf_Refresh: "gateway_wf g \<Longrightarrow> gateway_wf (Sync_Refresh g)"
  by (simp add: gateway_wf_def Sync_Refresh_def Let_def)

lemma gateway_wf_flag: "gateway_wf g \<Longrightarrow> gateway_wf (rf_refresh g)"
  by (simp add: gateway_wf_def rf_refresh_def)

lemmas gateway_wf_rx = gateway_wf_led gateway_wf_ack gateway_wf_Refresh gateway_wf_flag gateway_wf_ops

lemma gateway_wf_Learn: "gateway_wf g \<Longrightarrow> gateway_wf (Device_Learn m g)"
  by (simp add: Device_Learn_def Let_def gateway_wf_rx)

lemma gateway_wf_solve:
  assumes "gateway_wf g"
  shows "gateway_wf (NormalSolve junk rssi buf n g)" "gateway_wf (GatewaySyncSolve junk rssi buf n g)"
    "gateway_wf (GatewayWarningSolve junk rssi buf n g)" "gateway_wf (GatewayControlSolve junk rssi buf n g)"
  using assms
  by (simp_all add: NormalSolve_def GatewaySyncSolve_def GatewayWarningSolve_def GatewayControlSolve_def Let_def
      gateway_wf_rx gateway_wf_Learn)

section \<open>What a message changes\<close>

text \<open>Marking a device online changes no identifier and no binding.\<close>

definition same_slots :: "Device_Info \<Rightarrow> Device_Info \<Rightarrow> bool" where
  "same_slots t t' \<longleftrightarrow> Num t' = Num t \<and> MainNum t' = MainNum t \<and> ID t' = ID t \<and> Bind_ID t' = Bind_ID t"

lemma same_slots_heart: "same_slots (Devices g) (Devices (snd (Flash_Set_Heart k h g)))"
  by (simp add: same_slots_def Flash_Set_Heart_def set_Heart_def Let_def split: option.split)

lemma same_slots_upload: "same_slots (Devices g) (Devices (Heart_Upload k h g))"
  using same_slots_heart [of "on_wifi (heart_beat_report (sprintf_ld k) 0) g"] by (simp add: Heart_Upload_def)

lemma same_slots_slot_of: "same_slots t t' \<Longrightarrow> slot_of k t' = slot_of k t"
  by (simp add: same_slots_def slot_of_def)

lemma dev_send_ack [simp]: "dev (send_ack m g) = dev g"
  by (simp add: send_ack_def)

text \<open>A packet in the receive buffer: the text from cell 1 on, zeros behind it.\<close>

definition rx_packet :: "string \<Rightarrow> memory" where
  "rx_packet s i = (if i = 0 then word_of_nat (length s) else if i \<le> length s then byte_of (s ! (i - 1)) else 0)"

lemma takeWhile_stop: "(\<forall>x \<in> set xs. P x) \<Longrightarrow> \<not> P y \<Longrightarrow> takeWhile P (xs @ y # ys) = xs"
  by (induction xs) auto

definition no_nul :: "string \<Rightarrow> bool" where
  "no_nul s \<longleftrightarrow> list_all (\<lambda>c. byte_of c \<noteq> 0) s"

lemma rx_text_packet:
  assumes "length s < RX_BUFF - 1" "no_nul s" "1 \<le> k"
  shows "rx_text (rx_packet s) k = drop (k - 1) s"
proof -
  have d: "takeWhile (\<lambda>b. b \<noteq> 0) (map (rx_packet s) [k..<RX_BUFF]) = map byte_of (drop (k - 1) s)"
  proof (cases "k \<le> length s")
    case True
    then have split: "[k..<RX_BUFF] = [k..<Suc (length s)] @ Suc (length s) # [Suc (Suc (length s))..<RX_BUFF]"
      using assms(1) upt_add_eq_append [of k "Suc (length s)" "RX_BUFF - Suc (length s)"]
      by (simp add: upt_conv_Cons)
    have "map (rx_packet s) [k..<Suc (length s)] = map byte_of (drop (k - 1) s)"
      using assms(3) True by (intro nth_equalityI) (auto simp: rx_packet_def simp del: upt_Suc)
    moreover have "\<forall>b \<in> set (map byte_of (drop (k - 1) s)). b \<noteq> 0"
      using assms(2) by (auto simp: no_nul_def list_all_iff dest: in_set_dropD)
    moreover have "rx_packet s (Suc (length s)) = 0" by (simp add: rx_packet_def)
    ultimately show ?thesis unfolding split map_append list.map
      by (metis (mono_tags, lifting) takeWhile_stop)
  next
    case False
    then have "takeWhile (\<lambda>b. b \<noteq> 0) (map (rx_packet s) [k..<RX_BUFF]) = []"
      using assms(3) by (cases "k < RX_BUFF") (simp_all add: rx_packet_def upt_conv_Cons)
    with False show ?thesis by simp
  qed
  show ?thesis unfolding rx_text_def d by (simp add: o_def)
qed

section \<open>Properties\<close>

lemma gateway_wf_packet: "gateway_wf g \<Longrightarrow> gateway_wf (rf433_rx_callback junk rssi buffer len g)"
  using gateway_wf_solve [of g] by (simp add: rf433_rx_callback_def)

text \<open>Property C25. No packet can break the gateway: whatever arrives, with whatever length, signal strength and
  uninitialised locals, the table of devices, the radio queue, the lights and the list of remote
  devices stay well formed.\<close>

theorem rf433_rx_callback_wf:
  assumes "gateway_wf g"
  shows "gateway_wf (rf433_rx_callback junk rssi buffer len g)"
  using assms by (rule gateway_wf_packet)

lemma small_gateway_wf: "gateway_wf small_gateway"
  using small_table_wf
  by (simp add: gateway_wf_def small_gateway_def idle_gateway_def queue_wf_def idle_radio_def)

definition zero_message :: Message where
  "zero_message = \<lparr>rx_ack = 0, rx_type = 0, rx_Target_ID = 0, rx_From_ID = 0, rx_Device_ID = 0, rx_Counter = 0,
     rx_Command = 0, rx_Data = 0, rx_Rssi = 0, rx_before = 0\<rparr>"

theorem rf433_rx_callback_wf_witness:
  "gateway_wf (rf433_rx_callback zero_message (-60) (rx_packet ''A{1,4,40000000,10000001,0,0,0}A'') 31 small_gateway)"
  by (rule rf433_rx_callback_wf [OF small_gateway_wf])

text \<open>The message of a packet of a main unit.\<close>

definition main_message :: "memory \<Rightarrow> Message \<Rightarrow> Message" where
  "main_message buffer junk = (if buffer 1 = byte_of (CHR ''A'') then sync_message buffer junk else event_message buffer junk)"

lemma letters [simp]:
  "byte_of (CHR ''A'') \<noteq> byte_of (CHR ''B'')" "byte_of (CHR ''A'') \<noteq> byte_of (CHR ''C'')"
  "byte_of (CHR ''A'') \<noteq> byte_of (CHR ''{'')" "byte_of (CHR ''B'') \<noteq> byte_of (CHR ''{'')"
  "byte_of (CHR ''C'') \<noteq> byte_of (CHR ''{'')" "byte_of (CHR ''B'') \<noteq> byte_of (CHR ''C'')"
  "byte_of (CHR ''B'') \<noteq> byte_of (CHR ''A'')" "byte_of (CHR ''C'') \<noteq> byte_of (CHR ''A'')"
  "byte_of (CHR ''C'') \<noteq> byte_of (CHR ''B'')"
  by (simp_all add: byte_of_def)

text \<open>The forged packet of the next properties, as \<open>sscanf\<close> reads it.\<close>

definition forged :: memory where
  "forged = rx_packet ''A{1,4,40000000,0,0,0,0}A''"

lemma forged_scan: "sscanf_braces ''{1,4,40000000,0,0,0,0}A'' 7 = [1, 4, 40000000, 0, 0, 0, 0]"
proof -
  have n: "(7 :: nat) = Suc (Suc (Suc (Suc (Suc (Suc (Suc 0))))))" by simp
  show ?thesis unfolding n
    by (simp add: sscanf_braces_def strtol_def scan_sign_def is_space_def is_digit_def digit_val_def clamp32_def)
qed

lemma forged_text: "rx_text forged 2 = ''{1,4,40000000,0,0,0,0}A''"
  unfolding forged_def by (subst rx_text_packet) (simp_all add: RX_BUFF_def no_nul_def byte_of_def)

lemma forged_message:
  "sync_message forged junk = \<lparr>rx_ack = 1, rx_type = 4, rx_Target_ID = 40000000, rx_From_ID = 0, rx_Device_ID = 0,
     rx_Counter = rx_Counter junk, rx_Command = rx_Command junk, rx_Data = 0, rx_Rssi = 0,
     rx_before = rx_before junk\<rparr>"
proof -
  have n: "length [set_ack, set_type, set_Target_ID, set_From_ID, set_Device_ID, set_Rssi, set_Data] = 7" by simp
  show ?thesis
    unfolding sync_message_def scan_into_def n forged_text forged_scan by (cases junk) (simp add: message_setters)
qed

lemma forged_cells: "forged 1 = byte_of (CHR ''A'')" "forged 24 = byte_of (CHR ''A'')" "forged (Suc 0) = byte_of (CHR ''A'')"
  by (simp_all add: forged_def rx_packet_def)

lemma main_message_forged: "main_message forged junk = sync_message forged junk"
  by (simp add: main_message_def forged_cells)

text \<open>Strangers are ignored: a synchronisation, warning or control message that is addressed to
  another gateway, or whose sender is not in the table, changes nothing at all.\<close>

lemma stranger_ignored:
  assumes "buffer 1 = byte_of (CHR ''A'') \<or> buffer 1 = byte_of (CHR ''B'') \<or> buffer 1 = byte_of (CHR ''C'')"
    and "word_of_int (rx_Target_ID (main_message buffer junk)) \<noteq> Self_Id (rf g) \<or>
      slot_of (word_of_int (rx_From_ID (main_message buffer junk))) (Devices g) = None"
  shows "rf433_rx_callback junk rssi buffer len g = g"
proof -
  let ?m = "main_message buffer junk"
  have no: "\<not> (word_of_int (rx_Target_ID ?m) = Self_Id (rf g) \<and> Check_Valid (word_of_int (rx_From_ID ?m)) g = RT_EOK)"
    using assms(2) by (auto simp: Check_Valid_def Flash_Get_Key_Valid_def)
  from assms(1) show ?thesis
  proof (elim disjE)
    assume b: "buffer 1 = byte_of (CHR ''A'')"
    then have "?m = sync_message buffer junk" by (simp add: main_message_def)
    with no have "GatewaySyncSolve junk rssi buffer len g = g"
      unfolding GatewaySyncSolve_def Let_def by (simp only: if_False if_cancel)
    with b show ?thesis by (simp add: rf433_rx_callback_def)
  next
    assume b: "buffer 1 = byte_of (CHR ''B'')"
    then have "?m = event_message buffer junk" by (simp add: main_message_def)
    with no have "GatewayWarningSolve junk rssi buffer len g = g"
      unfolding GatewayWarningSolve_def Let_def by (simp only: if_False if_cancel)
    with b show ?thesis by (simp add: rf433_rx_callback_def)
  next
    assume b: "buffer 1 = byte_of (CHR ''C'')"
    then have "?m = event_message buffer junk" by (simp add: main_message_def)
    with no have "GatewayControlSolve junk rssi buffer len g = g"
      unfolding GatewayControlSolve_def Let_def by (simp only: if_False if_cancel)
    with b show ?thesis by (simp add: rf433_rx_callback_def)
  qed
qed

text \<open>Property C40. A message from sender 0 can wipe the installation: once a slot below \<open>Num\<close> is empty, identifier
  0 passes for a known sender, and its request to delete everything bound to it empties every slot
  whose binding is 0, that is, every main unit.\<close>

theorem sender_zero_deletes_mains:
  assumes "buffer 1 = byte_of (CHR ''A'')" and "buffer (unat len) = byte_of (CHR ''A'')"
    and "word_of_int (rx_Target_ID (sync_message buffer junk)) = Self_Id (rf g)"
    and "word_of_int (rx_From_ID (sync_message buffer junk)) = (0 :: u32)" and "rx_type (sync_message buffer junk) = 4"
    and "1 \<le> e" "e \<le> unat (Num (Devices g))" "ID (Devices g) e = 0"
    and "1 \<le> i" "i \<le> unat (Num (Devices g))" "Bind_ID (Devices g) i = 0"
  shows "ID (Devices (rf433_rx_callback junk rssi buffer len g)) i = 0"
proof -
  define h where "h = Heart_Upload 0 1 (Main_Rssi_Report 0 rssi (send_ack (sync_message buffer junk) (on_board (rf_led 3) g)))"
  have "slot_of 0 (Devices g) \<noteq> None"
    using assms(6-8) by (simp add: slot_of_def down_find_None) blast
  then have "Check_Valid 0 g = RT_EOK" by (auto simp: Check_Valid_def Flash_Get_Key_Valid_def split: option.split)
  then have r: "rf433_rx_callback junk rssi buffer len g = snd (Del_MainBind 0 h)"
    using assms(1-5) by (simp add: rf433_rx_callback_def GatewaySyncSolve_def Let_def h_def)
  have "same_slots (Devices g) (Devices h)"
    unfolding h_def using same_slots_upload [of "Main_Rssi_Report 0 rssi (send_ack (sync_message buffer junk) (on_board (rf_led 3) g))" 0 1] by simp
  then have "Num (Devices h) = Num (Devices g)" "Bind_ID (Devices h) i = 0" using assms(11) by (simp_all add: same_slots_def)
  then show ?thesis
    unfolding r Del_MainBind_table
    using del_bind_fold [of 0 "unat (Num (Devices h))" "Devices h"] assms(9,10) by (simp add: bound_to_def)
qed

text \<open>Two main units, one deleted: the forged message deletes the other.\<close>

definition one_gone :: gateway where
  "one_gone = idle_gateway\<lparr>dev := \<lparr>Global_Device = Device_Info_zero\<lparr>Num := 2, MainNum := 1, ID := (\<lambda>_. 0)(2 := 10000002)\<rparr>,
     env = Map.empty\<rparr>\<rparr>"

theorem sender_zero_deletes_mains_witness:
  "ID (Devices one_gone) 2 = 10000002 \<and> ID (Devices (rf433_rx_callback zero_message (-60) forged 24 one_gone)) 2 = 0"
proof -
  have "word_of_int (rx_Target_ID (sync_message forged zero_message)) = Self_Id (rf one_gone)"
    "word_of_int (rx_From_ID (sync_message forged zero_message)) = (0 :: u32)" "rx_type (sync_message forged zero_message) = 4"
    by (simp_all add: forged_message one_gone_def idle_gateway_def idle_radio_def)
  from sender_zero_deletes_mains [OF forged_cells(1) _ this, of 24 1 2 "-60"] show ?thesis
    by (simp add: forged_cells one_gone_def Device_Info_zero_def)
qed

section \<open>Learning a main unit\<close>

lemma SlaveAdd_known:
  assumes "table_wf (Global_Device d)" "k \<noteq> 0" "slot_of k (Global_Device d) = None" "\<not> table_full (Global_Device d)"
  shows "slot_of k (Global_Device (snd (SlaveAdd_Flash k b d))) \<noteq> None"
proof -
  obtain n where n: "free_slot (Global_Device d) n" using assms(4) table_full_free by blast
  have "\<And>i. ID (Global_Device d) i \<noteq> k" using slot_of_None [OF assms(1,2)] assms(3) by blast
  with slot_of_added [OF assms(1) n assms(2) _ assms(2)] n show ?thesis by (simp add: SlaveAdd_free(2))
qed

lemma slot_of_Add_MainNums [simp]: "slot_of k (Global_Device (snd (Add_MainNums d))) = slot_of k (Global_Device d)"
  by (simp add: Add_MainNums_def Let_def set_MainNum_def)

lemma slot_of_UploadFlag [simp]:
  "slot_of k (Global_Device (snd (Flash_Set_UploadFlag j b d))) = slot_of k (Global_Device d)"
  by (simp add: Flash_Set_UploadFlag_def Let_def slot_of_def split: option.split)

lemma Add2Flash_main_known:
  assumes "table_wf (Devices g)" "is_main k" "slot_of k (Devices g) \<noteq> None \<or> \<not> table_full (Devices g)"
  shows "slot_of k (Devices (Device_Add2Flash_Wifi k m g)) \<noteq> None"
proof -
  have k: "k \<noteq> 0" "\<not> 20000000 \<le> k" "\<not> 30000000 \<le> k"
    using assms(2) by (auto simp: is_main_def word_le_nat_alt word_less_nat_alt)
  have "slot_of k (Global_Device (snd (MainAdd_Flash k (dev g)))) \<noteq> None" if "slot_of k (Devices g) = None"
    using SlaveAdd_known [OF assms(1) k(1) that, of 0] assms(3) that
    by (cases "SlaveAdd_Flash k 0 (dev g)") (auto simp: MainAdd_SlaveAdd)
  with assms(2) k show ?thesis
    by (auto simp: Device_Add2Flash_Wifi_def is_main_def add_kind_def Flash_Get_Key_Valid_def Let_def
        split: option.split)
qed

lemma Del_Device_frees:
  assumes "table_wf (Devices g)" "k \<noteq> 0"
  shows "slot_of k (Devices (snd (Del_Device k g))) = None"
    and "slot_of k (Devices g) \<noteq> None \<or> \<not> table_full (Devices g) \<Longrightarrow> \<not> table_full (Devices (snd (Del_Device k g)))"
proof (goal_cases)
  case 1
  show ?case
  proof (cases "slot_of k (Devices g)")
    case None
    then show ?thesis by (simp add: Del_Device_missing)
  next
    case (Some n)
    have "ID (Devices g) n = k" using slot_of_Some [OF Some] by simp
    then show ?thesis using slot_of_emptied [OF assms(1) _ assms(2,2)] by (simp add: Del_Device_table [OF Some])
  qed
next
  case 2
  show ?case
  proof (cases "slot_of k (Devices g)")
    case None
    with 2 show ?thesis by (simp add: Del_Device_missing)
  next
    case (Some n)
    have "1 \<le> n" "n < 50" using slot_of_Some [OF Some] assms(1) by (auto simp: table_wf_def)
    then show ?thesis unfolding Del_Device_table [OF Some] table_full_def emptied_def by (auto intro!: exI [of _ n])
  qed
qed

text \<open>Learning works: the second learning message of a main unit that is already known, or of a new
  one while fewer than three are registered and a slot is free, leaves the unit in the table.\<close>

lemma Device_Learn_enters:
  assumes "gateway_wf g" and "rx_From_ID m \<ge> 10000000" "rx_From_ID m < 20000000" and "rx_Data m = 2"
    and "slot_of (word_of_int (rx_From_ID m)) (Devices g) \<noteq> None \<or>
      (MainNum (Devices g) < 3 \<and> \<not> table_full (Devices g))"
  shows "Flash_Get_Key_Valid (word_of_int (rx_From_ID m)) (dev (Device_Learn m g)) = RT_EOK"
proof -
  let ?k = "word_of_int (rx_From_ID m) :: u32"
  have u: "uint ?k = rx_From_ID m" using assms(2,3) by (simp add: unsigned_of_int take_bit_int_eq_self)
  then have main: "is_main ?k" using assms(2,3) by (simp add: is_main_def word_le_def word_less_def)
  then have nz: "?k \<noteq> 0" by (auto simp: is_main_def)
  have wf: "table_wf (Devices g)" using assms(1) by (simp add: gateway_wf_def)
  have "\<not> (Flash_Get_Key_Valid ?k (dev g) \<noteq> RT_EOK \<and> Get_MainNums (dev g) \<noteq> RT_EOK)"
    using assms(5) by (auto simp: Flash_Get_Key_Valid_def Get_MainNums_def split: option.splits)
  then have r: "Device_Learn m g = on_board learn_success (Device_Add2Flash_Wifi ?k 0 (snd (Del_Device ?k g)))"
    using assms(2-4) by (auto simp: Device_Learn_def Let_def)
  have "slot_of ?k (Devices (Device_Add2Flash_Wifi ?k 0 (snd (Del_Device ?k g)))) \<noteq> None"
    using Add2Flash_main_known [OF Del_Device_wf [OF wf] main] Del_Device_frees [OF wf nz] assms(5) by blast
  then show ?thesis unfolding r by (auto simp: Flash_Get_Key_Valid_def split: option.split)
qed

text \<open>At most three main units are learnt: a learning message of a unit that is not in the table,
  while three are registered, only sounds the buzzer; table, flash, radio queue and serial line stay
  as they are.\<close>

lemma Device_Learn_refused:
  assumes "slot_of (word_of_int (rx_From_ID m)) (Devices g) = None" and "MainNum (Devices g) \<ge> 3"
  shows "Device_Learn m g = on_board learn_fail g"
  using assms by (simp add: Device_Learn_def Flash_Get_Key_Valid_def Get_MainNums_def not_less)

end
