(* ===== verification/Sync.thy ===== *)
theory Sync
  imports Radio_Decoder
begin

text \<open>
  Synchronisation with the main units (\<open>src/wifi/wifi-api.c\<close>): on request of the cloud a thread asks
  one main unit after the other, from high slots to low, for the state of its units, three times at
  most each; the answers restart a timer (\<open>Sync_Refresh\<close>) whose expiry moves on to the next unit.
  The thread is a step function over its position between two waits.
\<close>

definition Get_Main_Valid :: "u32 \<Rightarrow> u32 \<Rightarrow> u8" where
  "Get_Main_Valid device_id bind_id =
    (if device_id > 0 \<and> device_id < 20000000 \<and> bind_id = 0 then RT_EOK else RT_ERROR)"

text \<open>\<open>while(Num--) if(P(Num)) \<dots>\<close>: the first index below \<open>Num\<close>, downwards, with \<open>P\<close>.\<close>

primrec before_find :: "(nat \<Rightarrow> bool) \<Rightarrow> nat \<Rightarrow> nat option" where
  "before_find P 0 = None"
| "before_find P (Suc n) = (if P n then Some n else before_find P n)"

definition main_slot :: "Device_Info \<Rightarrow> nat \<Rightarrow> bool" where
  "main_slot t n \<longleftrightarrow> Get_Main_Valid (ID t n) (Bind_ID t n) = RT_EOK"

definition Get_Next_Main :: "gateway \<Rightarrow> u8 \<times> gateway" where
  "Get_Next_Main g =
    (case before_find (main_slot (Devices g)) (unat (Sync_Counter g)) of
       None \<Rightarrow> (RT_ERROR, g)
     | Some n \<Rightarrow> (RT_EOK, g\<lparr>Sync_Counter := word_of_nat n\<rparr>))"

definition sem_release :: "gateway \<Rightarrow> gateway" where
  "sem_release g = g\<lparr>Sync_Once_Sem := Sync_Once_Sem g + 1\<rparr>"

definition Sync_Timeout_Callback :: "gateway \<Rightarrow> gateway" where
  "Sync_Timeout_Callback g =
    (case Get_Next_Main g of (r, g) \<Rightarrow> if r = RT_EOK then sem_release g else g\<lparr>Sync_Start := 0\<rparr>)"

definition Sync_Request :: "gateway \<Rightarrow> gateway" where
  "Sync_Request g =
    (let g = g\<lparr>Sync_Timeout_t := False\<rparr>;
         g = g\<lparr>Sync_Counter := Num (Devices g)\<rparr>;
         g = snd (Get_Next_Main g)
     in sem_release g)"

text \<open>The three places where the thread waits: for the semaphore, for ten seconds before a request, for
  ten seconds after it.\<close>

datatype sync_pc = Sync_Take | Sync_Delay | Sync_Answer

abbreviation sync_device :: "gateway \<Rightarrow> u32" where
  "sync_device g \<equiv> ID (Devices g) (unat (Sync_Counter g))"

definition set_SyncRetry :: "u8 \<Rightarrow> gateway \<Rightarrow> gateway" where
  "set_SyncRetry v g = set_Devices ((Devices g)\<lparr>SyncRetry := (SyncRetry (Devices g))(unat (Sync_Counter g) := v)\<rparr>) g"

definition Sync_t_Callback :: "sync_pc \<times> gateway \<Rightarrow> sync_pc \<times> gateway" where
  "Sync_t_Callback s = (case s of
     (Sync_Take, g) \<Rightarrow>
       if Sync_Once_Sem g = 0 then (Sync_Take, g)
       else (Sync_Delay, g\<lparr>Sync_Once_Sem := Sync_Once_Sem g - 1, Sync_Start := 1\<rparr>)
   | (Sync_Delay, g) \<Rightarrow>
       if sync_device g = 0 then (Sync_Take, g)
       else
         (let g = Device_Add2Flash_Wifi (sync_device g) 0 g
          in if SyncRetry (Devices g) (unat (Sync_Counter g)) < 3 then
               (let g = g\<lparr>Sync_Recv := 0\<rparr>
                in (Sync_Answer, on_rf (GatewayDataEnqueue (sync_device g) 0 0 4 0) g))
             else
               (let g = g\<lparr>Sync_Timeout_t := False\<rparr>
                in case Get_Next_Main g of (r, g) \<Rightarrow>
                     if r = RT_EOK then (Sync_Take, sem_release g) else (Sync_Take, set_SyncRetry 0 g)))
   | (Sync_Answer, g) \<Rightarrow>
       if Sync_Recv g = 0
       then (Sync_Take, sem_release (set_SyncRetry (SyncRetry (Devices g) (unat (Sync_Counter g)) + 1) g))
       else (Sync_Take, g))"

section \<open>The order of the requests\<close>

lemma before_find_hd: "before_find P n = (case rev (filter P [0..<n]) of [] \<Rightarrow> None | k # _ \<Rightarrow> Some k)"
  by (induction n) auto

lemma before_find_less: "before_find P n = Some k \<Longrightarrow> k < n \<and> P k"
  by (induction n) (auto split: if_splits simp: less_Suc_eq)

text \<open>The units still to be asked, in order.\<close>

definition agenda :: "gateway \<Rightarrow> nat list" where
  "agenda g = rev (filter (main_slot (Devices g)) [0..<unat (Sync_Counter g)])"

lemma filter_below:
  assumes "rev (filter P [0..<n]) = k # ks"
  shows "rev (filter P [0..<k]) = ks" "k < n"
proof -
  have "before_find P n = Some k" using assms by (simp add: before_find_hd)
  note k = before_find_less [OF this]
  then show "k < n" by simp
  have none: "\<not> P j" if "k < j" "j < n" for j
  proof
    assume "P j"
    then have "j \<in> set (rev (filter P [0..<n]))" using that by simp
    then have "j \<in> set ks" using assms that by auto
    moreover have "sorted (rev (k # ks))" unfolding assms [symmetric] by (simp add: sorted_wrt_filter)
    ultimately show False using that by (auto simp: sorted_append)
  qed
  have "[0..<n] = [0..<k] @ k # [Suc k..<n]"
    using k upt_add_eq_append [of 0 k "n - k"] by (simp add: upt_conv_Cons)
  moreover have "filter P [Suc k..<n] = []" using none by (simp add: filter_empty_conv)
  ultimately have "rev (filter P [0..<n]) = k # rev (filter P [0..<k])" using k by simp
  with assms show "rev (filter P [0..<k]) = ks" by simp
qed

lemma Get_Next_Main_agenda:
  "agenda g = [] \<Longrightarrow> Get_Next_Main g = (RT_ERROR, g)"
  "agenda g = n # ns \<Longrightarrow> fst (Get_Next_Main g) = RT_EOK \<and> unat (Sync_Counter (snd (Get_Next_Main g))) = n \<and>
     agenda (snd (Get_Next_Main g)) = ns \<and> dev (snd (Get_Next_Main g)) = dev g"
proof -
  show "agenda g = [] \<Longrightarrow> Get_Next_Main g = (RT_ERROR, g)"
    by (simp add: agenda_def Get_Next_Main_def before_find_hd del: rev_is_Nil_conv)
  assume a: "agenda g = n # ns"
  note below = filter_below [OF a [unfolded agenda_def]]
  have "n < 256" using below(2) u8_lt [of "Sync_Counter g"] by simp
  then have u: "unat (word_of_nat n :: u8) = n" by (simp add: unsigned_of_nat take_bit_nat_eq_self)
  have "before_find (main_slot (Devices g)) (unat (Sync_Counter g)) = Some n"
    using a by (simp add: before_find_hd agenda_def)
  with u below(1) show "fst (Get_Next_Main g) = RT_EOK \<and> unat (Sync_Counter (snd (Get_Next_Main g))) = n \<and>
     agenda (snd (Get_Next_Main g)) = ns \<and> dev (snd (Get_Next_Main g)) = dev g"
    by (simp add: Get_Next_Main_def agenda_def)
qed

text \<open>Following the timer to the end.\<close>

lemma timeout_walk:
  assumes "k < length (agenda g)"
  shows "unat (Sync_Counter ((Sync_Timeout_Callback ^^ Suc k) g)) = agenda g ! k"
    and "Sync_Once_Sem ((Sync_Timeout_Callback ^^ Suc k) g) = Sync_Once_Sem g + Suc k"
proof -
  have "k < length (agenda g) \<Longrightarrow>
    unat (Sync_Counter ((Sync_Timeout_Callback ^^ Suc k) g)) = agenda g ! k \<and>
    Sync_Once_Sem ((Sync_Timeout_Callback ^^ Suc k) g) = Sync_Once_Sem g + Suc k" for g
  proof (induction k arbitrary: g)
    case 0
    then obtain n ns where a: "agenda g = n # ns" by (cases "agenda g") auto
    obtain h where "Get_Next_Main g = (RT_EOK, h)" using Get_Next_Main_agenda(2) [OF a] by (metis prod.collapse)
    with Get_Next_Main_agenda(2) [OF a] a show ?case
      by (auto simp: Sync_Timeout_Callback_def sem_release_def Get_Next_Main_def split: option.splits)
  next
    case (Suc k)
    then obtain n ns where a: "agenda g = n # ns" by (cases "agenda g") auto
    note next_main = Get_Next_Main_agenda(2) [OF a]
    let ?h = "Sync_Timeout_Callback g"
    have h: "?h = sem_release (snd (Get_Next_Main g))"
      using next_main by (simp add: Sync_Timeout_Callback_def case_prod_beta)
    have sem: "Sync_Once_Sem (snd (Get_Next_Main g)) = Sync_Once_Sem g"
      by (simp add: Get_Next_Main_def split: option.split)
    have "agenda ?h = ns" "Sync_Once_Sem ?h = Suc (Sync_Once_Sem g)"
      using next_main sem by (auto simp: h sem_release_def agenda_def)
    with Suc.IH [of ?h] Suc.prems a show ?case
      by (simp add: funpow_swap1 del: funpow.simps) (simp add: funpow_swap1)
  qed
  with assms show "unat (Sync_Counter ((Sync_Timeout_Callback ^^ Suc k) g)) = agenda g ! k"
    "Sync_Once_Sem ((Sync_Timeout_Callback ^^ Suc k) g) = Sync_Once_Sem g + Suc k" by blast+
qed

lemma Sync_Request_start:
  "Sync_Request g = sem_release (snd (Get_Next_Main (g\<lparr>Sync_Timeout_t := False, Sync_Counter := Num (Devices g)\<rparr>)))"
  by (simp add: Sync_Request_def Let_def)

definition mains_below :: "gateway \<Rightarrow> nat list" where
  "mains_below g = rev (filter (main_slot (Devices g)) [0..<unat (Num (Devices g))])"

lemma Sync_Request_agenda:
  assumes "mains_below g = n # ns"
  shows "unat (Sync_Counter (Sync_Request g)) = n" "agenda (Sync_Request g) = ns" "Devices (Sync_Request g) = Devices g"
proof -
  let ?g = "g\<lparr>Sync_Timeout_t := False, Sync_Counter := Num (Devices g)\<rparr>"
  have "agenda ?g = n # ns" using assms by (simp add: agenda_def mains_below_def)
  from Get_Next_Main_agenda(2) [OF this]
  show "unat (Sync_Counter (Sync_Request g)) = n" "agenda (Sync_Request g) = ns" "Devices (Sync_Request g) = Devices g"
    by (auto simp: Sync_Request_start sem_release_def agenda_def)
qed

lemma Sync_Timeout_counter: "unat (Sync_Counter (Sync_Timeout_Callback g)) \<le> unat (Sync_Counter g)"
proof (cases "agenda g")
  case Nil
  then show ?thesis by (simp add: Sync_Timeout_Callback_def Get_Next_Main_agenda(1))
next
  case (Cons n ns)
  note m = Get_Next_Main_agenda(2) [OF Cons]
  have "n < unat (Sync_Counter g)" using filter_below(2) [OF Cons [unfolded agenda_def]] .
  with m show ?thesis by (auto simp: Sync_Timeout_Callback_def sem_release_def case_prod_beta)
qed

section \<open>A silent main unit\<close>

text \<open>A main unit that both the table and the cloud know, so that the thread only asks it.\<close>

definition settled :: "gateway \<Rightarrow> bool" where
  "settled g \<longleftrightarrow> slot_of (sync_device g) (Devices g) \<noteq> None \<and> Remote_Get_Key_Valid (sync_device g) g = RT_EOK \<and> sync_device g \<noteq> 0"

lemma add_settled: "settled g \<Longrightarrow> Device_Add2Flash_Wifi (sync_device g) m g = g"
  by (auto simp: settled_def Device_Add2Flash_Wifi_def add_kind_def Flash_Get_Key_Valid_def split: option.splits)

definition sync_ask :: "gateway \<Rightarrow> radio_msg" where
  "sync_ask g = Gateway_Msg (sync_device g) 0 0 4 0"

text \<open>One unanswered round: three steps of the thread.\<close>

lemma silent_round:
  assumes "settled g" "SyncRetry (Devices g) (unat (Sync_Counter g)) = r" "r < 3" "Sync_Once_Sem g = 1"
  defines "g' \<equiv> snd ((Sync_t_Callback ^^ 3) (Sync_Take, g))"
  shows "fst ((Sync_t_Callback ^^ 3) (Sync_Take, g)) = Sync_Take" and "settled g'"
    and "SyncRetry (Devices g') (unat (Sync_Counter g')) = r + 1" and "Sync_Once_Sem g' = 1"
    and "rf g' = radio_enqueue (sync_ask g) (rf g)" and "sync_ask g' = sync_ask g"
proof -
  let ?h = "g\<lparr>Sync_Once_Sem := 0, Sync_Start := 1\<rparr>"
  have "settled ?h" using assms(1) by (simp add: settled_def Remote_Get_Key_Valid_def)
  from add_settled [OF this, of 0] have add: "Device_Add2Flash_Wifi (sync_device g) 0 ?h = ?h" by simp
  have nz: "sync_device g \<noteq> 0" using assms(1) by (simp add: settled_def)
  let ?q = "on_rf (GatewayDataEnqueue (sync_device g) 0 0 4 0) (?h\<lparr>Sync_Recv := 0\<rparr>)"
  have "(Sync_t_Callback ^^ 3) (Sync_Take, g) = (Sync_Take, sem_release (set_SyncRetry (r + 1) ?q))"
    using assms(2-4) nz by (simp add: numeral_3_eq_3 Sync_t_Callback_def add Let_def on_rf_def)
  then show "fst ((Sync_t_Callback ^^ 3) (Sync_Take, g)) = Sync_Take" "settled g'"
    "SyncRetry (Devices g') (unat (Sync_Counter g')) = r + 1" "Sync_Once_Sem g' = 1"
    "rf g' = radio_enqueue (sync_ask g) (rf g)" "sync_ask g' = sync_ask g"
    using assms(1) unfolding g'_def
    by (simp_all add: sem_release_def set_SyncRetry_def settled_def sync_ask_def Remote_Get_Key_Valid_def on_rf_def
        set_Devices_def slot_of_def)
qed

section \<open>Properties\<close>

text \<open>Synchronisation walks through the main units: after a request the thread is pointed at the
  highest main unit below slot \<open>Num\<close>, and the \<open>k\<close>-th expiry of the timer points it at the \<open>k\<close>-th
  next one, in descending order of slots, none left out.\<close>

lemma Sync_Request_walks:
  assumes "k < length (mains_below g)"
  shows "unat (Sync_Counter ((Sync_Timeout_Callback ^^ k) (Sync_Request g))) = mains_below g ! k"
proof -
  obtain n ns where m: "mains_below g = n # ns" using assms by (cases "mains_below g") auto
  note start = Sync_Request_agenda [OF m]
  show ?thesis
  proof (cases k)
    case 0
    with start m show ?thesis by simp
  next
    case (Suc j)
    with assms m start(2) have "j < length (agenda (Sync_Request g))" by simp
    from timeout_walk(1) [OF this] show ?thesis using Suc m start(2) by simp
  qed
qed

text \<open>A main unit in the last slot is passed over: the search starts below slot \<open>Num\<close>, so when there
  is a main unit in a lower slot, the thread is never pointed at slot \<open>Num\<close>, whatever it holds.\<close>

lemma Sync_Request_skips_last:
  assumes "main_slot (Devices g) i" and "i < unat (Num (Devices g))"
  shows "unat (Sync_Counter ((Sync_Timeout_Callback ^^ k) (Sync_Request g))) < unat (Num (Devices g))"
proof (induction k)
  case 0
  have "i \<in> set (mains_below g)" using assms by (simp add: mains_below_def)
  then obtain n ns where m: "mains_below g = n # ns" by (cases "mains_below g") auto
  then have "n < unat (Num (Devices g))" using filter_below(2) by (simp add: mains_below_def)
  with Sync_Request_agenda(1) [OF m] show ?case by simp
next
  case (Suc k)
  then show ?case using Sync_Timeout_counter [of "(Sync_Timeout_Callback ^^ k) (Sync_Request g)"] by simp
qed

text \<open>A silent main unit is asked three times: for a unit known to table and cloud whose retry count
  is 0, nine steps of the thread without an answer queue exactly three requests for it, and then
  the retries are used up.\<close>

lemma sync_three_requests:
  assumes "settled g" and "SyncRetry (Devices g) (unat (Sync_Counter g)) = 0" and "Sync_Once_Sem g = 1"
  defines "g' \<equiv> snd ((Sync_t_Callback ^^ 9) (Sync_Take, g))"
  shows "rf g' = fold radio_enqueue [sync_ask g, sync_ask g, sync_ask g] (rf g) \<and>
    SyncRetry (Devices g') (unat (Sync_Counter g')) = 3"
proof (intro conjI)
  define s where "s = (Sync_t_Callback ^^ 3)"
  let ?g1 = "snd (s (Sync_Take, g))"
  let ?g2 = "snd (s (Sync_Take, ?g1))"
  let ?g3 = "snd (s (Sync_Take, ?g2))"
  have lt: "(0 :: u8) < 3" "(0 + 1 :: u8) < 3" "(0 + 1 + 1 :: u8) < 3" by simp_all
  note r1 = silent_round [OF assms(1,2) lt(1) assms(3), folded s_def]
  note r2 = silent_round [OF r1(2,3) lt(2) r1(4), folded s_def]
  note r3 = silent_round [OF r2(2,3) lt(3) r2(4), folded s_def]
  have nine: "(9 :: nat) = 3 + (3 + 3)" by simp
  have "(Sync_t_Callback ^^ 9) (Sync_Take, g) = s (s (s (Sync_Take, g)))"
    unfolding nine funpow_add s_def by simp
  also have "\<dots> = s (s (Sync_Take, ?g1))" using r1(1) by (metis prod.collapse)
  also have "\<dots> = s (Sync_Take, ?g2)" using r2(1) by (metis prod.collapse)
  finally have g': "g' = ?g3" unfolding g'_def by simp
  show "rf g' = fold radio_enqueue [sync_ask g, sync_ask g, sync_ask g] (rf g)"
    unfolding g' by (simp add: r1 r2 r3)
  show "SyncRetry (Devices g') (unat (Sync_Counter g')) = 3"
    unfolding g' using r3(3) by simp
qed

definition sync_ready :: gateway where
  "sync_ready = small_gateway\<lparr>Sync_Once_Sem := 1, Remote_Device := \<lparr>Remote_Num = 1, Remote_ID = (\<lambda>_. 10000001)\<rparr>\<rparr>"

end
