(* ===== verification/Wifi_Uart_Rx.thy ===== *)
theory Wifi_Uart_Rx
  imports Wifi_Frame Fifo
begin

text \<open>
  The receiving half of the serial protocol (\<open>src/wifi/mcu_api.c\<close>, \<open>src/wifi/system.c\<close>): the byte
  ring filled by the serial interrupt, its reader, and \<open>wifi_uart_service\<close>, which assembles frames
  in a process buffer and hands each to \<open>data_handle\<close>. The handler is an argument here; the
  protocol theory supplies the model of \<open>data_handle\<close>.
\<close>

section \<open>State\<close>

text \<open>The pointers \<open>queue_in\<close> and \<open>queue_out\<close> are offsets into \<open>wifi_uart_rx_buf\<close>; an offset equal to
  the size of the buffer is the one-past-the-end pointer the code lets both of them reach. Both
  buffers have \<open>PROTOCOL_HEAD + 4096\<close> bytes. \<open>rx_in\<close> is the static counter of \<open>wifi_uart_service\<close>.\<close>

record uart_rx =
  wifi_uart_rx_buf :: memory
  queue_in :: nat
  queue_out :: nat
  wifi_data_process_buf :: memory
  rx_in :: nat

abbreviation (input) RX_SIZE :: nat where "RX_SIZE \<equiv> 4103"
abbreviation (input) PROCESS_SIZE :: nat where "PROCESS_SIZE \<equiv> 4103"
abbreviation (input) WIFI_SATE_UNKNOW :: u8 where "WIFI_SATE_UNKNOW \<equiv> 0xff"

section \<open>The ring\<close>

definition wifi_protocol_init :: "uart_rx \<times> wifi_sys \<Rightarrow> uart_rx \<times> wifi_sys" where
  "wifi_protocol_init sw = (case sw of (s, w) \<Rightarrow>
    (s\<lparr>queue_in := 0, queue_out := 0\<rparr>,
     w\<lparr>stop_update_flag := DISABLE, wifi_work_state := WIFI_SATE_UNKNOW\<rparr>))"

text \<open>The pointer differences of the source are signed, so \<open>queue_out - queue_in\<close> is written over
  the integers.\<close>

definition uart_receive_input :: "u8 \<Rightarrow> uart_rx \<Rightarrow> uart_rx" where
  "uart_receive_input value s =
    (if 1 = int (queue_out s) - int (queue_in s) then s
     else if queue_in s > queue_out s \<and> queue_in s - queue_out s \<ge> PROCESS_SIZE then s
     else
       (let s = (if queue_in s \<ge> RX_SIZE then s\<lparr>queue_in := 0\<rparr> else s)
        in s\<lparr>wifi_uart_rx_buf := (wifi_uart_rx_buf s)(queue_in s := value),
             queue_in := queue_in s + 1\<rparr>))"

definition get_queue_total_data :: "uart_rx \<Rightarrow> u8" where
  "get_queue_total_data s = (if queue_in s \<noteq> queue_out s then 1 else 0)"

text \<open>On an empty queue \<open>Queue_Read_Byte\<close> returns its uninitialised local: \<open>None\<close>.\<close>

definition Queue_Read_Byte :: "uart_rx \<Rightarrow> u8 option \<times> uart_rx" where
  "Queue_Read_Byte s =
    (if queue_out s \<noteq> queue_in s then
       (let s = (if queue_out s \<ge> RX_SIZE then s\<lparr>queue_out := 0\<rparr> else s)
        in (Some (wifi_uart_rx_buf s (queue_out s)), s\<lparr>queue_out := queue_out s + 1\<rparr>))
     else (None, s))"

section \<open>The parser\<close>

lemma Queue_Read_Byte_rx_in [simp]: "rx_in (snd (Queue_Read_Byte s)) = rx_in s"
  by (simp add: Queue_Read_Byte_def Let_def)

text \<open>The first loop of \<open>wifi_uart_service\<close>: move queued bytes to the process buffer.\<close>

function rx_fill :: "uart_rx \<Rightarrow> uart_rx" where
  "rx_fill s =
    (if rx_in s < PROCESS_SIZE \<and> get_queue_total_data s > 0 then
       (case Queue_Read_Byte s of (v, s) \<Rightarrow>
          rx_fill (s\<lparr>wifi_data_process_buf := (wifi_data_process_buf s)(rx_in s := the v),
                     rx_in := rx_in s + 1\<rparr>))
     else s)"
  by pat_completeness auto

termination
proof (relation "measure (\<lambda>s. PROCESS_SIZE - rx_in s)")
  fix s v t
  assume "rx_in s < 4103 \<and> get_queue_total_data s > 0" and "(v, t) = Queue_Read_Byte s"
  then have "rx_in t = rx_in s" by (metis Queue_Read_Byte_rx_in snd_conv)
  with \<open>rx_in s < 4103 \<and> get_queue_total_data s > 0\<close>
  show "(t\<lparr>wifi_data_process_buf := (wifi_data_process_buf t)(rx_in t := the v), rx_in := rx_in t + 1\<rparr>, s)
    \<in> measure (\<lambda>s. 4103 - rx_in s)" by (simp, arith)
qed simp

declare rx_fill.simps [simp del]

text \<open>The total length of a frame, computed in an \<open>unsigned short\<close>.\<close>

definition rx_value_len :: "memory \<Rightarrow> nat \<Rightarrow> u16" where
  "rx_value_len buf offset =
    (let n = ucast (buf (offset + LENGTH_HIGH)) * 0x100
     in n + (ucast (buf (offset + LENGTH_LOW)) + PROTOCOL_HEAD))"

lemma unat_pred_u16: "n \<noteq> 0 \<Longrightarrow> unat (n - 1 :: u16) = unat n - 1"
  by (simp add: unat_minus_one)

lemma rx_len_pos:
  assumes "unat n \<le> 4103" "off + unat (n - 1 :: u16) < 4103"
  shows "0 < unat n"
proof (rule ccontr)
  assume "\<not> 0 < unat n"
  then have "n = 0" by (simp add: unat_eq_zero)
  with assms(2) show False by (simp add: unsigned_minus_1_eq_mask mask_eq_exp_minus_1)
qed

text \<open>The second loop. Its bytes are \<open>buf\<close>, of which \<open>rxin\<close> are valid; the result is the offset it
  stopped at and the state of the handler, or the fault that stopped the program. The checksum
  runs over \<open>(unsigned short)(rx_value_len - 1)\<close> bytes, which must lie inside the buffer.\<close>

function rx_scan :: "(memory \<Rightarrow> nat \<Rightarrow> 'g \<Rightarrow> c_fault + 'g) \<Rightarrow> memory \<Rightarrow> nat \<Rightarrow> nat \<Rightarrow> 'g \<Rightarrow> c_fault + nat \<times> 'g" where
  "rx_scan handler buf rxin offset g =
    (if rxin < offset + 7 then Inr (offset, g)
     else if buf (offset + HEAD_FIRST) \<noteq> FRAME_FIRST then rx_scan handler buf rxin (offset + 1) g
     else if buf (offset + HEAD_SECOND) \<noteq> FRAME_SECOND then rx_scan handler buf rxin (offset + 1) g
     else
       (let len = rx_value_len buf offset
        in if unat len > PROCESS_SIZE then rx_scan handler buf rxin (offset + 3) g
           else if rxin - offset < unat len then Inr (offset, g)
           else if offset + unat (len - 1) \<ge> PROCESS_SIZE then Inl Out_Of_Bounds
           else if get_check_sum buf offset (unat (len - 1)) \<noteq> buf (offset + unat (len - 1))
             then rx_scan handler buf rxin (offset + 3) g
           else
             (case handler buf offset g of
                Inl e \<Rightarrow> Inl e
              | Inr g' \<Rightarrow> rx_scan handler buf rxin (offset + unat len) g')))"
  by pat_completeness auto

termination
proof (relation "measure (\<lambda>(handler, buf, rxin, offset, g). rxin - offset)")
  fix handler :: "memory \<Rightarrow> nat \<Rightarrow> 'g \<Rightarrow> c_fault + 'g" and buf rxin offset g g' and x :: u16
  assume "\<not> rxin < offset + 7" "x = rx_value_len buf offset" "\<not> 4103 < unat x"
    "\<not> 4103 \<le> offset + unat (x - 1)" "\<not> rxin - offset < unat x"
  moreover have "0 < unat x" using rx_len_pos [of x offset] calculation by simp
  ultimately show "((handler, buf, rxin, offset + unat x, g'), handler, buf, rxin, offset, g)
    \<in> measure (\<lambda>(handler, buf, rxin, offset, g). rxin - offset)" by simp
qed simp_all

declare rx_scan.simps [simp del]

definition wifi_uart_service ::
  "(memory \<Rightarrow> nat \<Rightarrow> 'g \<Rightarrow> c_fault + 'g) \<Rightarrow> uart_rx \<Rightarrow> 'g \<Rightarrow> c_fault + uart_rx \<times> 'g" where
  "wifi_uart_service handler s g =
    (let s = rx_fill s
     in if rx_in s < 7 then Inr (s, g)
        else
          (case rx_scan handler (wifi_data_process_buf s) (rx_in s) 0 g of
             Inl e \<Rightarrow> Inl e
           | Inr (offset, g') \<Rightarrow>
               (let s = s\<lparr>rx_in := rx_in s - offset\<rparr>
                in if rx_in s > 0
                   then Inr (s\<lparr>wifi_data_process_buf := my_memcpy (wifi_data_process_buf s) 0 offset (rx_in s)\<rparr>, g')
                   else Inr (s, g'))))"

section \<open>The ring is a queue\<close>

text \<open>The bytes between the two pointers, in reading order.\<close>

definition rx_contents :: "uart_rx \<Rightarrow> bytes" where
  "rx_contents s =
    (if queue_out s \<le> queue_in s then map (wifi_uart_rx_buf s) [queue_out s..<queue_in s]
     else map (wifi_uart_rx_buf s) [queue_out s..<RX_SIZE] @ map (wifi_uart_rx_buf s) [0..<queue_in s])"

definition rx_wf :: "uart_rx \<Rightarrow> bool" where
  "rx_wf s \<longleftrightarrow> queue_in s \<le> RX_SIZE \<and> queue_out s \<le> RX_SIZE \<and> rx_in s \<le> PROCESS_SIZE
     \<and> (queue_in s < queue_out s \<longrightarrow> 0 < queue_in s)"

text \<open>Where an offered byte is kept: the ring is not at one of the two full positions the code
  recognises, and not at the full position it overlooks, the write pointer at the very end with
  the read pointer on the second cell.\<close>

definition rx_full :: "uart_rx \<Rightarrow> bool" where
  "rx_full s \<longleftrightarrow> queue_out s = queue_in s + 1 \<or> queue_in s = queue_out s + RX_SIZE"

definition rx_blind_spot :: "uart_rx \<Rightarrow> bool" where
  "rx_blind_spot s \<longleftrightarrow> queue_in s = RX_SIZE \<and> queue_out s = 1"

definition rx_room :: "uart_rx \<Rightarrow> bool" where
  "rx_room s \<longleftrightarrow> \<not> rx_full s \<and> \<not> rx_blind_spot s"

lemma length_rx_contents:
  "length (rx_contents s) = (if queue_out s \<le> queue_in s then queue_in s - queue_out s
     else RX_SIZE - queue_out s + queue_in s)"
  by (simp add: rx_contents_def)

lemma rx_contents_Nil: "rx_wf s \<Longrightarrow> rx_contents s = [] \<longleftrightarrow> queue_in s = queue_out s"
  by (auto simp: rx_contents_def rx_wf_def)

lemma map_upd_upt: "j \<le> i \<or> i < k \<Longrightarrow> map (m(i := v)) [k..<j] = map m [k..<j]"
  by auto

lemma uart_receive_input_full:
  assumes "rx_wf s" "rx_full s"
  shows "uart_receive_input v s = s"
  using assms by (auto simp: uart_receive_input_def rx_full_def rx_wf_def)

lemma uart_receive_input_not_full:
  assumes "rx_wf s" "\<not> rx_full s"
  shows "uart_receive_input v s =
    (let i = (if queue_in s = RX_SIZE then 0 else queue_in s)
     in s\<lparr>wifi_uart_rx_buf := (wifi_uart_rx_buf s)(i := v), queue_in := i + 1\<rparr>)"
proof -
  have "\<not> 1 = int (queue_out s) - int (queue_in s)"
    "\<not> (queue_in s > queue_out s \<and> queue_in s - queue_out s \<ge> 4103)"
    using assms by (auto simp: rx_full_def rx_wf_def)
  with assms(1) show ?thesis
    unfolding uart_receive_input_def Let_def by (auto simp: rx_wf_def)
qed

lemma rx_wf_receive: "rx_wf s \<Longrightarrow> rx_wf (uart_receive_input v s)"
proof (cases "rx_full s")
  case False
  assume "rx_wf s"
  with False show ?thesis
    by (auto simp: uart_receive_input_not_full Let_def rx_wf_def)
qed (simp add: uart_receive_input_full)

lemma rx_contents_receive:
  assumes "rx_wf s" "rx_room s"
  shows "rx_contents (uart_receive_input v s) = rx_contents s @ [v]"
proof -
  have nf: "\<not> rx_full s" and nb: "\<not> rx_blind_spot s" using assms(2) by (auto simp: rx_room_def)
  show ?thesis
  proof (cases "queue_in s = 4103")
    case True
    show ?thesis
    proof (cases "queue_out s = 4103")
      case out: True
      with True show ?thesis
        by (simp add: uart_receive_input_not_full [OF assms(1) nf] rx_contents_def)
    next
      case False
      with assms(1) True nf nb have out: "1 < queue_out s" "queue_out s < 4103"
        by (auto simp: rx_wf_def rx_full_def rx_blind_spot_def)
      with True show ?thesis
        by (simp add: uart_receive_input_not_full [OF assms(1) nf] rx_contents_def map_upd_upt)
    qed
  next
    case False
    with assms(1) nf show ?thesis
      by (auto simp: uart_receive_input_not_full Let_def rx_contents_def map_upd_upt rx_full_def rx_wf_def)
  qed
qed

lemma rx_read:
  assumes "rx_wf s"
  shows "rx_wf (snd (Queue_Read_Byte s))"
    and "rx_contents s = [] \<Longrightarrow> Queue_Read_Byte s = (None, s)"
    and "rx_contents s = a # as \<Longrightarrow>
      fst (Queue_Read_Byte s) = Some a \<and> rx_contents (snd (Queue_Read_Byte s)) = as"
proof -
  show "rx_wf (snd (Queue_Read_Byte s))"
    using assms by (auto simp: Queue_Read_Byte_def Let_def rx_wf_def)
  show "rx_contents s = [] \<Longrightarrow> Queue_Read_Byte s = (None, s)"
    using assms by (simp add: rx_contents_Nil Queue_Read_Byte_def)
  assume c: "rx_contents s = a # as"
  then have ne: "queue_out s \<noteq> queue_in s" using rx_contents_Nil [OF assms] by auto
  show "fst (Queue_Read_Byte s) = Some a \<and> rx_contents (snd (Queue_Read_Byte s)) = as"
  proof (cases "queue_out s = 4103")
    case True
    with ne assms c have "queue_in s < 4103" "0 < queue_in s" "map (wifi_uart_rx_buf s) [0..<queue_in s] = a # as"
      by (auto simp: rx_wf_def rx_contents_def)
    with True ne show ?thesis
      by (auto simp: Queue_Read_Byte_def Let_def rx_contents_def upt_conv_Cons)
  next
    case False
    with assms have "queue_out s < 4103" by (simp add: rx_wf_def)
    with ne c assms show ?thesis
      by (auto simp: Queue_Read_Byte_def Let_def rx_contents_def upt_conv_Cons rx_wf_def split: if_splits)
  qed
qed

interpretation uart_ring: bounded_fifo rx_contents rx_wf rx_room uart_receive_input Queue_Read_Byte 4102
proof unfold_locales
  fix s :: uart_rx
  assume "rx_wf s" "length (rx_contents s) < 4102"
  then show "rx_room s"
    by (auto simp: length_rx_contents rx_room_def rx_full_def rx_blind_spot_def rx_wf_def split: if_splits)
qed (use rx_read in \<open>simp_all add: rx_wf_receive rx_contents_receive\<close>)

lemma rx_fold_receive:
  assumes "rx_wf s" and "length (rx_contents s) + length bs \<le> 4102"
  shows "rx_contents (fold uart_receive_input bs s) = rx_contents s @ bs"
    and "rx_wf (fold uart_receive_input bs s)"
proof -
  have feed: "uart_ring.feed bs t = fold uart_receive_input bs t" for t
    by (induction bs arbitrary: t) simp_all
  show "rx_contents (fold uart_receive_input bs s) = rx_contents s @ bs"
    "rx_wf (fold uart_receive_input bs s)"
    using uart_ring.feed_below [OF assms] uart_ring.feed_invar [OF assms(1), of bs] by (simp_all add: feed)
qed

section \<open>Filling the process buffer\<close>

text \<open>Every byte received and not yet consumed, oldest first.\<close>

definition rx_pending :: "uart_rx \<Rightarrow> bytes" where
  "rx_pending s = map (wifi_data_process_buf s) [0..<rx_in s] @ rx_contents s"

lemma Queue_Read_Byte_process [simp]:
  "wifi_data_process_buf (snd (Queue_Read_Byte s)) = wifi_data_process_buf s"
  by (simp add: Queue_Read_Byte_def Let_def)

lemma rx_contents_process [simp]:
  "rx_contents (s\<lparr>wifi_data_process_buf := b, rx_in := n\<rparr>) = rx_contents s"
  "rx_contents (s\<lparr>rx_in := n\<rparr>) = rx_contents s"
  "rx_contents (s\<lparr>wifi_data_process_buf := b\<rparr>) = rx_contents s"
  by (simp_all add: rx_contents_def)

lemma rx_fill_pending:
  assumes "rx_wf s"
  shows "rx_wf (rx_fill s) \<and> rx_pending (rx_fill s) = rx_pending s \<and>
    (rx_contents (rx_fill s) = [] \<or> rx_in (rx_fill s) = PROCESS_SIZE)"
  using assms
proof (induction s rule: rx_fill.induct)
  case (1 s)
  show ?case
  proof (cases "rx_in s < 4103 \<and> get_queue_total_data s > 0")
    case False
    with "1.prems" rx_contents_Nil [OF "1.prems"] show ?thesis
      by (auto simp: rx_fill.simps [of s] get_queue_total_data_def rx_wf_def)
  next
    case True
    then have "rx_contents s \<noteq> []"
      using rx_contents_Nil [OF "1.prems"] by (auto simp: get_queue_total_data_def)
    then obtain v as where c: "rx_contents s = v # as" by (cases "rx_contents s") auto
    obtain t where t: "Queue_Read_Byte s = (Some v, t)" "rx_contents t = as" "rx_wf t"
      using rx_read [OF "1.prems"] c by (metis prod.collapse)
    then have keep: "rx_in t = rx_in s" "wifi_data_process_buf t = wifi_data_process_buf s"
      by (metis Queue_Read_Byte_rx_in snd_conv, metis Queue_Read_Byte_process snd_conv)
    let ?u = "t\<lparr>wifi_data_process_buf := (wifi_data_process_buf t)(rx_in t := v), rx_in := rx_in t + 1\<rparr>"
    have "rx_wf ?u" using t(3) True keep by (auto simp: rx_wf_def)
    moreover have "rx_pending ?u = rx_pending s"
      by (simp add: rx_pending_def keep c t(2))
    ultimately show ?thesis
      using "1.IH" [OF True t(1) [symmetric]] True by (simp add: rx_fill.simps [of s] t(1))
  qed
qed

text \<open>When everything pending fits, one fill takes all of it.\<close>

lemma rx_fill_all:
  assumes "rx_wf s" and "length (rx_pending s) \<le> PROCESS_SIZE"
  shows "rx_contents (rx_fill s) = []" and "rx_in (rx_fill s) = length (rx_pending s)"
    and "map (wifi_data_process_buf (rx_fill s)) [0..<length (rx_pending s)] = rx_pending s"
proof -
  let ?t = "rx_fill s"
  have p: "rx_pending ?t = rx_pending s" using rx_fill_pending [OF assms(1)] by simp
  then have len: "rx_in ?t + length (rx_contents ?t) = length (rx_pending s)"
    by (metis diff_zero length_append length_map length_upt rx_pending_def)
  show c: "rx_contents ?t = []"
  proof (rule ccontr)
    assume "rx_contents ?t \<noteq> []"
    with rx_fill_pending [OF assms(1)] have "rx_in ?t = 4103" by blast
    moreover have "0 < length (rx_contents ?t)" using \<open>rx_contents ?t \<noteq> []\<close> by simp
    ultimately show False using len assms(2) by linarith
  qed
  with len show n: "rx_in ?t = length (rx_pending s)" by simp
  show "map (wifi_data_process_buf ?t) [0..<length (rx_pending s)] = rx_pending s"
    using p c unfolding rx_pending_def [of ?t] n by simp
qed

section \<open>Scanning\<close>

text \<open>\<open>at_offset buf off bs\<close>: the bytes \<open>bs\<close> stand at \<open>off\<close>.\<close>

definition at_offset :: "memory \<Rightarrow> nat \<Rightarrow> bytes \<Rightarrow> bool" where
  "at_offset buf off bs \<longleftrightarrow> (\<forall>i < length bs. buf (off + i) = bs ! i)"

lemma at_offset_append:
  "at_offset buf off (as @ bs) \<longleftrightarrow> at_offset buf off as \<and> at_offset buf (off + length as) bs"
proof
  assume *: "at_offset buf off (as @ bs)"
  have "buf (off + length as + i) = bs ! i" if "i < length bs" for i
    using * that unfolding at_offset_def
    by (metis add.assoc length_append nat_add_left_cancel_less nth_append_length_plus)
  with * show "at_offset buf off as \<and> at_offset buf (off + length as) bs"
    by (auto simp: at_offset_def nth_append)
next
  assume "at_offset buf off as \<and> at_offset buf (off + length as) bs"
  then show "at_offset buf off (as @ bs)"
    by (auto simp: at_offset_def nth_append)
       (metis add.assoc add_less_cancel_left le_add_diff_inverse not_less)
qed

lemma at_offset_map: "at_offset buf off bs \<longleftrightarrow> map (\<lambda>i. buf (off + i)) [0..<length bs] = bs"
proof
  assume "at_offset buf off bs"
  then show "map (\<lambda>i. buf (off + i)) [0..<length bs] = bs"
    by (intro nth_equalityI) (simp_all add: at_offset_def)
next
  assume eq: "map (\<lambda>i. buf (off + i)) [0..<length bs] = bs"
  show "at_offset buf off bs"
    unfolding at_offset_def
  proof (intro allI impI)
    fix i assume "i < length bs"
    then have "map (\<lambda>i. buf (off + i)) [0..<length bs] ! i = buf (off + i)" by simp
    with eq show "buf (off + i) = bs ! i" by simp
  qed
qed

lemma rx_value_len_frame:
  assumes "buf (off + 4) = word_of_nat (k div 256)" "buf (off + 5) = word_of_nat (k mod 256)" "k \<le> 4096"
  shows "unat (rx_value_len buf off) = k + 7"
proof -
  have up: "(ucast (word_of_nat n :: u8) :: u16) = word_of_nat n" if "n < 256" for n
    using that by (simp add: unsigned_of_nat take_bit_nat_eq_self)
  have "rx_value_len buf off = word_of_nat (k div 256) * word_of_nat 256 + (word_of_nat (k mod 256) + word_of_nat 7)"
    using assms(3) by (simp add: rx_value_len_def assms(1,2) up)
  also have "\<dots> = word_of_nat (k div 256 * 256 + (k mod 256 + 7))"
    by (simp only: of_nat_add of_nat_mult)
  also have "k div 256 * 256 + (k mod 256 + 7) = k + 7" by simp
  finally show ?thesis using assms(3) by (simp only: unsigned_of_nat) (simp add: take_bit_nat_eq_self)
qed

lemma rx_scan_frame:
  assumes "at_offset buf off (uart_frame v t ps)" and "length ps \<le> 4096"
    and "off + length ps + 7 \<le> rxin" and "rxin \<le> 4103"
  shows "rx_scan handler buf rxin off g =
    (case handler buf off g of Inl e \<Rightarrow> Inl e
     | Inr g' \<Rightarrow> rx_scan handler buf rxin (off + length ps + 7) g')"
proof -
  let ?k = "length ps"
  define body where "body = [0x55, 0xaa, v, t, word_of_nat (?k div 256), word_of_nat (?k mod 256)] @ ps"
  have len_body: "length body = ?k + 6" by (simp add: body_def)
  have f: "uart_frame v t ps = body @ [sum_list body]" by (simp add: uart_frame_def body_def Let_def)
  with assms(1) have ab: "at_offset buf off body" and as: "at_offset buf (off + length body) [sum_list body]"
    by (simp_all add: at_offset_append)
  then have cs: "buf (off + (?k + 6)) = sum_list body" by (simp add: at_offset_def len_body)
  have nth: "buf (off + i) = body ! i" if "i < ?k + 6" for i
    using ab that by (simp add: at_offset_def len_body)
  have hd: "buf off = 0x55" "buf (off + 1) = 0xaa" "buf (off + 4) = word_of_nat (?k div 256)"
    "buf (off + 5) = word_of_nat (?k mod 256)"
    using nth [of 0] nth [of 1] nth [of 4] nth [of 5] by (simp_all add: body_def nth_append)
  have len: "unat (rx_value_len buf off) = ?k + 7"
    by (rule rx_value_len_frame [OF hd(3,4) assms(2)])
  then have "rx_value_len buf off \<noteq> 0" by auto
  with len have len1: "unat (rx_value_len buf off - 1) = ?k + 6" by (simp add: unat_pred_u16)
  have sum: "get_check_sum buf off (?k + 6) = sum_list body"
    using ab by (simp add: get_check_sum_sum at_offset_map len_body)
  have fits: "\<not> rxin < off + 7" "\<not> 4103 < ?k + 7" "\<not> rxin - off < ?k + 7" "\<not> 4103 \<le> off + (?k + 6)"
    using assms(2-4) by simp_all
  show ?thesis
    unfolding rx_scan.simps [of handler buf rxin off] Let_def len len1 sum cs
    using hd(1,2) fits by (simp add: add.assoc split: sum.split)
qed

text \<open>Handing over a run of frames, one call of the handler each, at the offset where each starts.\<close>

fun deliver :: "(memory \<Rightarrow> nat \<Rightarrow> 'g \<Rightarrow> c_fault + 'g) \<Rightarrow> memory \<Rightarrow> nat \<Rightarrow> bytes list \<Rightarrow> 'g \<Rightarrow> c_fault + 'g" where
  "deliver handler buf off [] g = Inr g"
| "deliver handler buf off (f # fs) g =
    (case handler buf off g of Inl e \<Rightarrow> Inl e | Inr g' \<Rightarrow> deliver handler buf (off + length f) fs g')"

lemma rx_scan_frames:
  assumes "\<And>f. f \<in> set fs \<Longrightarrow> \<exists>v t ps. f = uart_frame v t ps \<and> length ps \<le> 4096"
    and "at_offset buf off (concat fs)" and "off + length (concat fs) = rxin" and "rxin \<le> 4103"
  shows "rx_scan handler buf rxin off g =
    (case deliver handler buf off fs g of Inl e \<Rightarrow> Inl e | Inr g' \<Rightarrow> Inr (rxin, g'))"
  using assms
proof (induction fs arbitrary: off g)
  case Nil
  then show ?case by (simp add: rx_scan.simps)
next
  case (Cons f fs)
  from Cons.prems(1) [of f] obtain v t ps where f: "f = uart_frame v t ps" and ps: "length ps \<le> 4096" by auto
  have here: "at_offset buf off (uart_frame v t ps)" and rest: "at_offset buf (off + length f) (concat fs)"
    using Cons.prems(2) by (simp_all add: at_offset_append f)
  have "off + length ps + 7 \<le> rxin" using Cons.prems(3) by (simp add: f)
  note step = rx_scan_frame [OF here ps this Cons.prems(4)]
  have len: "off + length ps + 7 = off + length f" by (simp add: f)
  have sum: "off + length f + length (concat fs) = rxin" using Cons.prems(3) by simp
  have "rx_scan handler buf rxin (off + length f) g' =
    (case deliver handler buf (off + length f) fs g' of Inl e \<Rightarrow> Inl e | Inr g'' \<Rightarrow> Inr (rxin, g''))" for g'
    using Cons.IH [OF _ rest sum Cons.prems(4)] Cons.prems(1) by simp
  then show ?case unfolding step len by (simp split: sum.split)
qed

text \<open>The scan never leaves the valid bytes.\<close>

lemma rx_scan_bound:
  assumes "rx_scan handler buf rxin off g = Inr (off', g')" and "off \<le> rxin"
  shows "off \<le> off' \<and> off' \<le> rxin"
  using assms
proof (induction handler buf rxin off g rule: rx_scan.induct)
  case (1 handler buf rxin off g)
  note def = rx_scan.simps [of handler buf rxin off]
  let ?len = "rx_value_len buf off"
  consider (stop) "rxin < off + 7"
    | (skip) "\<not> rxin < off + 7" "buf (off + 0) \<noteq> 0x55"
    | (skip2) "\<not> rxin < off + 7" "buf (off + 0) = 0x55" "buf (off + 1) \<noteq> 0xaa"
    | (head) "\<not> rxin < off + 7" "buf (off + 0) = 0x55" "buf (off + 1) = 0xaa" by blast
  then show ?case
  proof cases
    case stop
    with "1.prems" show ?thesis by (simp add: def)
  next
    case skip
    with "1.IH"(1) [OF skip] "1.prems" show ?thesis by (simp add: def)
  next
    case skip2
    with "1.IH"(2) "1.prems" show ?thesis by (simp add: def)
  next
    case head
    then have "\<not> (buf (off + 0) \<noteq> 0x55)" "\<not> (buf (off + 1) \<noteq> 0xaa)" by simp_all
    note ih = "1.IH"(3-) [OF head(1) this refl]
    show ?thesis
    proof (cases "4103 < unat ?len \<or> rxin - off < unat ?len \<or> 4103 \<le> off + unat (?len - 1)
        \<or> get_check_sum buf off (unat (?len - 1)) \<noteq> buf (off + unat (?len - 1))")
      case True
      with head "1.prems" ih(1,2) show ?thesis by (auto simp: def Let_def split: if_splits)
    next
      case False
      with head "1.prems" obtain g1 where g1: "handler buf off g = Inr g1"
        "rx_scan handler buf rxin (off + unat ?len) g1 = Inr (off', g')"
        by (auto simp: def Let_def split: sum.splits)
      moreover have "off + unat ?len \<le> rxin" using False head(1) by linarith
      ultimately show ?thesis using ih(3) [OF _ _ _ _ g1(1)] False by auto
    qed
  qed
qed

section \<open>The service\<close>

lemma rx_wf_rx_in [simp]: "rx_wf s \<Longrightarrow> n \<le> rx_in s \<Longrightarrow> rx_wf (s\<lparr>rx_in := n\<rparr>)"
  by (simp add: rx_wf_def)

lemma rx_wf_process [simp]: "rx_wf (s\<lparr>wifi_data_process_buf := b\<rparr>) = rx_wf s"
  by (simp add: rx_wf_def)

lemma service_move:
  assumes "off \<le> n"
  shows "map (my_memcpy m 0 off (n - off)) [0..<n - off] = drop off (map m [0..<n])"
  unfolding my_memcpy_def using assms
  by (intro nth_equalityI) (auto simp: fold_upd_forward)

section \<open>Properties\<close>

text \<open>Property C26. Up to 4102 bytes the receive ring is a first-in first-out queue: whatever the
  positions of its two pointers, bytes that arrive are appended and none is lost or reordered.\<close>

theorem uart_ring_fifo:
  assumes "rx_wf s" and "length (rx_contents s) + length bs \<le> 4102"
  shows "rx_contents (fold uart_receive_input bs s) = rx_contents s @ bs \<and>
    rx_wf (fold uart_receive_input bs s)"
  using rx_fold_receive [OF assms] by blast

theorem uart_ring_fifo_witness:
  "rx_contents (fold uart_receive_input [1, 2] \<lparr>wifi_uart_rx_buf = (\<lambda>_. 9), queue_in = 4103, queue_out = 4102,
     wifi_data_process_buf = (\<lambda>_. 0), rx_in = 0\<rparr>) = [9, 1, 2]"
proof -
  let ?s = "\<lparr>wifi_uart_rx_buf = (\<lambda>_. 9), queue_in = 4103, queue_out = 4102,
     wifi_data_process_buf = (\<lambda>_. 0 :: u8), rx_in = 0\<rparr>"
  have c: "rx_contents ?s = [9]" by (simp add: rx_contents_def upt_conv_Cons)
  have "rx_wf ?s" by (simp add: rx_wf_def)
  from uart_ring_fifo [OF this, of "[1, 2]"] show ?thesis unfolding c by simp
qed

text \<open>The full test of the ring overlooks one position: with the write pointer past the last
  cell and the read pointer on the second one, 4102 bytes are waiting, the next byte is accepted,
  the pointers meet, and all of them are gone.\<close>

lemma uart_ring_overrun:
  assumes "rx_wf s" and "rx_blind_spot s"
  shows "length (rx_contents s) = 4102 \<and> rx_contents (uart_receive_input v s) = []"
proof -
  have io: "queue_in s = 4103" "queue_out s = 1" using assms(2) by (simp_all add: rx_blind_spot_def)
  then have "\<not> rx_full s" by (simp add: rx_full_def)
  from uart_receive_input_not_full [OF assms(1) this] io show ?thesis
    by (simp add: length_rx_contents rx_contents_def)
qed

text \<open>One run of the service over complete frames.\<close>

lemma service_frames:
  assumes "rx_wf s" and "rx_pending s = concat fs" and "fs \<noteq> []" and "length (concat fs) \<le> 4103"
    and "\<And>f. f \<in> set fs \<Longrightarrow> \<exists>v t ps. f = uart_frame v t ps \<and> length ps \<le> 4096"
  shows "\<exists>buf. map buf [0..<length (concat fs)] = concat fs \<and>
    (case deliver handler buf 0 fs g of
       Inl e \<Rightarrow> wifi_uart_service handler s g = Inl e
     | Inr g' \<Rightarrow> \<exists>s'. wifi_uart_service handler s g = Inr (s', g') \<and> rx_wf s' \<and> rx_pending s' = [])"
proof -
  let ?t = "rx_fill s" and ?n = "length (concat fs)"
  let ?buf = "wifi_data_process_buf ?t"
  note fill = rx_fill_all [OF assms(1), unfolded assms(2), OF assms(4)]
  obtain f fs' where fs: "fs = f # fs'" using assms(3) by (cases fs) auto
  with assms(5) have n: "7 \<le> ?n" by (metis append_eq_conv_conj concat.simps(2) length_append length_uart_frame
    list.set_intros(1) le_add2 trans_le_add1)
  have at: "at_offset ?buf 0 (concat fs)" using fill(3) by (simp add: at_offset_map)
  have scan: "rx_scan handler ?buf ?n 0 g =
    (case deliver handler ?buf 0 fs g of Inl e \<Rightarrow> Inl e | Inr g' \<Rightarrow> Inr (?n, g'))"
    by (rule rx_scan_frames [OF assms(5) at _ assms(4)]) simp_all
  have wf: "rx_wf ?t" using rx_fill_pending [OF assms(1)] by simp
  have drop: "rx_pending (?t\<lparr>rx_in := 0\<rparr>) = []" by (simp add: rx_pending_def fill(1))
  show ?thesis
  proof (intro exI [of _ ?buf] conjI)
    show "map ?buf [0..<?n] = concat fs" by (rule fill(3))
    show "case deliver handler ?buf 0 fs g of Inl e \<Rightarrow> wifi_uart_service handler s g = Inl e
      | Inr g' \<Rightarrow> \<exists>s'. wifi_uart_service handler s g = Inr (s', g') \<and> rx_wf s' \<and> rx_pending s' = []"
      using n wf drop by (auto simp: wifi_uart_service_def Let_def fill(2) scan split: sum.split)
  qed
qed

text \<open>Property C1. Round trip of the wire format: when the bytes waiting are a sequence of frames as the
  frame writer builds them, one run of the service calls the handler once per frame, in order, each
  time at the offset where that frame starts, and consumes everything.\<close>

theorem service_delivers_frames:
  assumes "rx_wf s" and "rx_pending s = concat fs" and "fs \<noteq> []" and "length (concat fs) \<le> 4103"
    and "\<And>f. f \<in> set fs \<Longrightarrow> \<exists>v t ps. f = uart_frame v t ps \<and> length ps \<le> 4096"
  shows "\<exists>buf. map buf [0..<length (concat fs)] = concat fs \<and>
    (case deliver handler buf 0 fs g of
       Inl e \<Rightarrow> wifi_uart_service handler s g = Inl e
     | Inr g' \<Rightarrow> \<exists>s'. wifi_uart_service handler s g = Inr (s', g') \<and> rx_wf s' \<and> rx_pending s' = [])"
  by (rule service_frames [OF assms])

theorem service_delivers_frames_witness:
  "\<exists>s'. wifi_uart_service (\<lambda>buf off g. Inr (g @ [buf (off + FRAME_TYPE)]))
      (fold uart_receive_input (uart_frame 0 4 [] @ uart_frame 3 5 [1])
         \<lparr>wifi_uart_rx_buf = (\<lambda>_. 0), queue_in = 4100, queue_out = 4100, wifi_data_process_buf = (\<lambda>_. 0), rx_in = 0\<rparr>) []
    = Inr (s', [4, 5])"
proof -
  let ?init = "\<lparr>wifi_uart_rx_buf = (\<lambda>_. 0), queue_in = 4100, queue_out = 4100,
     wifi_data_process_buf = (\<lambda>_. 0 :: u8), rx_in = 0\<rparr>"
  let ?fs = "[uart_frame 0 4 [], uart_frame 3 5 [1]]"
  let ?s = "fold uart_receive_input (concat ?fs) ?init"
  have s0: "rx_wf ?init" "rx_contents ?init = []" by (simp_all add: rx_wf_def rx_contents_def)
  have rx_in: "rx_in (fold uart_receive_input bs t) = rx_in t" for bs t
    by (induction bs arbitrary: t) (simp_all add: uart_receive_input_def Let_def)
  have len: "length (concat ?fs) \<le> 4102" by simp
  have s: "rx_wf ?s" "rx_contents ?s = concat ?fs"
    using rx_fold_receive [OF s0(1), of "concat ?fs"] s0(2) len by (simp_all only: list.size append_Nil add_0)
  have fr: "\<exists>v t ps. f = uart_frame v t ps \<and> length ps \<le> 4096" if "f \<in> set ?fs" for f
  proof -
    from that consider "f = uart_frame 0 4 []" | "f = uart_frame 3 5 [1]" by auto
    then show ?thesis
    proof cases
      case 1
      show ?thesis by (intro exI conjI, rule 1) simp
    next
      case 2
      show ?thesis by (intro exI conjI, rule 2) simp
    qed
  qed
  have "rx_pending ?s = concat ?fs" using s(2) by (simp add: rx_pending_def rx_in)
  from service_delivers_frames [OF s(1) this _ _ fr,
    of "\<lambda>buf off g. Inr (g @ [buf (off + 3)])" "[]"]
  obtain buf where buf: "map buf [0..<length (concat ?fs)] = concat ?fs"
    and ok: "\<exists>s'. wifi_uart_service (\<lambda>buf off g. Inr (g @ [buf (off + 3)])) ?s [] =
      Inr (s', [buf 3, buf 10])"
    by auto
  from buf have "at_offset buf 0 (concat ?fs)" by (simp only: at_offset_map add_0)
  then have nth: "i < 15 \<Longrightarrow> buf i = concat ?fs ! i" for i unfolding at_offset_def by simp
  from nth [of 3] nth [of 10] have "buf 3 = 4" "buf 10 = 5"
    by (simp_all add: uart_frame_def nth_append)
  with ok show ?thesis by simp
qed

lemma service_prefix:
  assumes "rx_wf s" and "wifi_uart_service handler s g = Inr (s', g')"
  shows "rx_wf s' \<and> (\<exists>k. rx_pending s' = drop k (rx_pending s))"
proof -
  let ?t = "rx_fill s"
  have t: "rx_wf ?t" and p: "rx_pending ?t = rx_pending s"
    using rx_fill_pending [OF assms(1)] by auto
  show ?thesis
  proof (cases "rx_in ?t < 7")
    case True
    with assms(2) t p have "s' = ?t" by (simp add: wifi_uart_service_def)
    with t p show ?thesis by (metis drop_0)
  next
    case False
    with assms(2) obtain off where scan: "rx_scan handler (wifi_data_process_buf ?t) (rx_in ?t) 0 g = Inr (off, g')"
      and s': "s' = (if rx_in ?t - off > 0
        then ?t\<lparr>rx_in := rx_in ?t - off, wifi_data_process_buf := my_memcpy (wifi_data_process_buf ?t) 0 off (rx_in ?t - off)\<rparr>
        else ?t\<lparr>rx_in := rx_in ?t - off\<rparr>)"
      by (auto simp: wifi_uart_service_def Let_def split: sum.splits prod.splits if_splits)
    from rx_scan_bound [OF scan] have off: "off \<le> rx_in ?t" by simp
    then have "rx_pending s' = drop off (rx_pending ?t)"
      by (auto simp: s' rx_pending_def service_move)
    with p t s' show ?thesis by (auto simp: rx_wf_def)
  qed
qed

text \<open>Property C27. The service keeps the receive state well formed (pointers and counter inside their
  buffers) and consumes only from the front: what is pending afterwards is a suffix of what was
  pending before, so an incomplete frame waits for its remaining bytes.\<close>

theorem service_consumes_prefix:
  assumes "rx_wf s" and "wifi_uart_service handler s g = Inr (s', g')"
  shows "rx_wf s' \<and> (\<exists>k. rx_pending s' = drop k (rx_pending s))"
  using assms by (rule service_prefix)

theorem service_consumes_prefix_witness:
  "\<exists>s'. wifi_uart_service (\<lambda>buf off g. Inr g)
     \<lparr>wifi_uart_rx_buf = (\<lambda>_. 1), queue_in = 3, queue_out = 1, wifi_data_process_buf = (\<lambda>_. 0), rx_in = 0\<rparr> () = Inr (s', ())
     \<and> rx_wf s'"
proof -
  let ?s = "\<lparr>wifi_uart_rx_buf = (\<lambda>_. 1), queue_in = 3, queue_out = 1,
     wifi_data_process_buf = (\<lambda>_. 0 :: u8), rx_in = 0\<rparr>"
  have wf: "rx_wf ?s" by (simp add: rx_wf_def)
  have "rx_pending ?s = [1, 1]" by (simp add: rx_pending_def rx_contents_def upt_conv_Cons)
  with rx_fill_all(2) [OF wf] have "rx_in (rx_fill ?s) = 2" by simp
  then have run: "wifi_uart_service (\<lambda>buf off g. Inr g) ?s () = Inr (rx_fill ?s, ())"
    by (simp add: wifi_uart_service_def)
  from service_consumes_prefix [OF wf run] run show ?thesis by blast
qed

text \<open>Property C38. The length of a frame is kept in 16 bits including the seven header bytes, so the
  announced lengths \<open>0xFFF9\<close> to \<open>0xFFFF\<close> wrap to totals of 0 to 6 and pass the size check: with
  \<open>0xFFF9\<close> the checksum loop runs over 65535 bytes, out of the buffer.\<close>

theorem service_length_wrap_oob:
  assumes "rx_wf s" and "rx_pending s = [0x55, 0xaa, ver, cmd, 0xff, 0xf9, x]"
  shows "wifi_uart_service handler s g = Inl Out_Of_Bounds"
proof -
  let ?b = "wifi_data_process_buf (rx_fill s)"
  note fill = rx_fill_all [OF assms(1), unfolded assms(2)]
  have "at_offset ?b 0 [0x55, 0xaa, ver, cmd, 0xff, 0xf9, x]" using fill(3) by (simp add: at_offset_map)
  then have b: "?b 0 = 0x55" "?b 1 = 0xaa" "?b 4 = 0xff" "?b 5 = 0xf9"
    by (simp_all add: at_offset_def numeral_eq_Suc less_Suc_eq all_conj_distrib)
  then have len: "rx_value_len ?b 0 = 0" by (simp add: rx_value_len_def)
  have "unat (- 1 :: u16) = 65535" by (simp add: unsigned_minus_1_eq_mask mask_eq_exp_minus_1)
  with b len have "rx_scan handler ?b 7 0 g = Inl Out_Of_Bounds"
    by (simp add: rx_scan.simps Let_def)
  moreover have "rx_in (rx_fill s) = 7" using fill(2) by simp
  ultimately show ?thesis by (simp add: wifi_uart_service_def Let_def)
qed

theorem service_length_wrap_oob_witness:
  "wifi_uart_service (\<lambda>buf off g. Inr g)
     \<lparr>wifi_uart_rx_buf = (\<lambda>_. 0), queue_in = 0, queue_out = 0,
      wifi_data_process_buf = (\<lambda>i. [0x55, 0xaa, 0, 3, 0xff, 0xf9, 0] ! i), rx_in = 7\<rparr> () = Inl Out_Of_Bounds"
  by (rule service_length_wrap_oob [where ver = 0 and cmd = 3 and x = 0])
    (simp_all add: rx_wf_def rx_pending_def rx_contents_def upt_rec nth_Cons')

end
