(* ===== verification/Wifi_Service.thy ===== *)
theory Wifi_Service
  imports Sync Wifi_Uart_Rx
begin

text \<open>
  The WiFi module as the gateway runs it (\<open>src/wifi/wifi-uart.c\<close>, \<open>src/wifi/wifi-service.c\<close>,
  \<open>factory_refresh\<close> of \<open>src/applications/factory.c\<close>): its power pin, the reaction to a change of the
  network state, the reset request with its retries, the factory test, and one turn of the service
  thread. Software timers are flags: a callback runs while its flag is set. The handler of received
  frames is an argument of the service thread; \<open>Protocol\<close> supplies it.
\<close>

section \<open>Network state\<close>

definition wifi_status_change :: "u8 \<Rightarrow> gateway \<Rightarrow> gateway" where
  "wifi_status_change result g =
    (if WiFi_FactoryFlag g \<noteq> 0 then g
     else if wifi_status g \<noteq> result then
       (let g = on_board (wifi_led result) g;
            g = g\<lparr>wifi_status := result\<rparr>
        in if result = 1 then g\<lparr>wifi_connected := 0\<rparr>
           else if result = 2 then g\<lparr>wifi_connected := 0\<rparr>
           else if result = 3 then g
           else if result = 4 then
             (if wifi_connected g = 0 then
                (let g = g\<lparr>wifi_connected := 1\<rparr>;
                     g = Remote_Device_Clear g
                 in on_wifi qur_subdev_list g)
              else g)
           else g)
     else g)"

abbreviation (input) WIFI_EN :: nat where "WIFI_EN \<equiv> 21"

definition wifi_power_on :: "gateway \<Rightarrow> gateway" where
  "wifi_power_on g = on_board (write_pin WIFI_EN True) g"

definition wifi_power_off :: "gateway \<Rightarrow> gateway" where
  "wifi_power_off g = on_board (write_pin WIFI_EN False) g"

section \<open>Reset of the module\<close>

definition Reset_WiFi :: "gateway \<Rightarrow> gateway" where
  "Reset_WiFi g =
    (let g = on_wifi mcu_reset_wifi g;
         g = g\<lparr>Reset_WiFi_Counter := 0\<rparr>
     in g\<lparr>wifi_rst_timer := True\<rparr>)"

definition Reset_WiFi_Callback :: "gateway \<Rightarrow> gateway" where
  "Reset_WiFi_Callback g =
    (if Reset_WiFi_Counter g < 3 \<and> mcu_get_reset_wifi_flag (wifi g) \<noteq> 1 then
       on_wifi mcu_reset_wifi (g\<lparr>Reset_WiFi_Counter := Reset_WiFi_Counter g + 1\<rparr>)
     else if Reset_WiFi_Counter g < 3 \<and> mcu_get_reset_wifi_flag (wifi g) = 1 then
       g\<lparr>Reset_WiFi_Counter := Reset_WiFi_Counter g + 1, wifi_rst_timer := False\<rparr>
     else if Reset_WiFi_Counter g \<ge> 3 then g\<lparr>wifi_rst_timer := False\<rparr>
     else g)"

text \<open>One period of the timer: the callback runs if the timer does.\<close>

definition rst_timer_tick :: "gateway \<Rightarrow> gateway" where
  "rst_timer_tick g = (if wifi_rst_timer g then Reset_WiFi_Callback g else g)"

section \<open>Factory test\<close>

definition factory_refresh :: "gateway \<Rightarrow> gateway" where
  "factory_refresh g =
    (let g = (if rf_factoryflag g = 1 then on_board (rf_led_factory 0) g else g);
         g = on_rf (RadioEnqueue 98989898 1 9 0) g;
         g = g\<lparr>rf_factoryflag := 1\<rparr>
     in on_wifi mcu_start_wifitest g)"

definition wifi_test :: "gateway \<Rightarrow> gateway" where
  "wifi_test g = g\<lparr>wifi_test_timer := True\<rparr>"

definition wifi_test_callback :: "gateway \<Rightarrow> gateway" where
  "wifi_test_callback g = factory_refresh g"

section \<open>Start and service thread\<close>

text \<open>The state of the serial receiver beside the gateway.\<close>

type_synonym wifi_link = "uart_rx \<times> gateway"

definition wifi_start :: "wifi_link \<Rightarrow> wifi_link" where
  "wifi_start sg = (case sg of (s, g) \<Rightarrow>
    (case wifi_protocol_init (s, wifi g) of (s, w) \<Rightarrow> (s, g\<lparr>wifi := w\<rparr>)))"

text \<open>The new timers do not run yet.\<close>

definition wifi_service_init :: "gateway \<Rightarrow> gateway" where
  "wifi_service_init g = g\<lparr>wifi_rst_timer := False, wifi_test_timer := False\<rparr>"

definition WiFi_Init :: "wifi_link \<Rightarrow> wifi_link" where
  "WiFi_Init sg = (case sg of (s, g) \<Rightarrow>
    (case wifi_start (s, wifi_power_off g) of (s, g) \<Rightarrow> (s, wifi_service_init g)))"

definition WiFi_FactoryInit :: "wifi_link \<Rightarrow> wifi_link" where
  "WiFi_FactoryInit sg = (case sg of (s, g) \<Rightarrow>
    (case wifi_start (s, wifi_power_off (g\<lparr>WiFi_FactoryFlag := 1\<rparr>)) of
       (s, g) \<Rightarrow> (s, wifi_test (wifi_service_init g))))"

definition data_parsing :: "u8 \<Rightarrow> wifi_link \<Rightarrow> wifi_link" where
  "data_parsing ch sg = (case sg of (s, g) \<Rightarrow> (uart_receive_input ch s, g))"

text \<open>The service thread powers the module, then serves; \<open>False\<close> is its start.\<close>

definition service_callback ::
  "(memory \<Rightarrow> nat \<Rightarrow> gateway \<Rightarrow> c_fault + gateway) \<Rightarrow> bool \<Rightarrow> wifi_link \<Rightarrow> c_fault + wifi_link" where
  "service_callback handler running sg = (case sg of (s, g) \<Rightarrow>
     if running then wifi_uart_service handler s g else Inr (s, wifi_power_on g))"

section \<open>The reset is asked for four times at most\<close>

lemma reset_request_out: "uart_out (mcu_reset_wifi w) = uart_out w @ uart_frame 0 4 []"
  by (simp add: mcu_reset_wifi_def write_frame_out [OF loaded_0])

lemma reset_request_flag: "reset_wifi_flag (mcu_reset_wifi w) = 0"
  by (simp add: mcu_reset_wifi_def wifi_uart_write_data_def Let_def wifi_uart_write_frame.simps)

lemmas reset_request [simp] = reset_request_out reset_request_flag

lemma rst_tick_silent:
  assumes "wifi_rst_timer g" "reset_wifi_flag (wifi g) \<noteq> 1"
  shows "uart_out (wifi (rst_timer_tick g)) =
      uart_out (wifi g) @ (if Reset_WiFi_Counter g < 3 then uart_frame 0 4 [] else [])"
    and "Reset_WiFi_Counter (rst_timer_tick g) =
      (if Reset_WiFi_Counter g < 3 then Reset_WiFi_Counter g + 1 else Reset_WiFi_Counter g)"
    and "wifi_rst_timer (rst_timer_tick g) = (Reset_WiFi_Counter g < 3)"
    and "reset_wifi_flag (wifi (rst_timer_tick g)) \<noteq> 1"
  using assms by (auto simp: rst_timer_tick_def Reset_WiFi_Callback_def mcu_get_reset_wifi_flag_def on_wifi_def)

lemma rst_tick_stopped: "\<not> wifi_rst_timer g \<Longrightarrow> (rst_timer_tick ^^ n) g = g"
  by (induction n) (simp_all add: rst_timer_tick_def)

lemma rst_ticks_silent:
  fixes g :: gateway
  assumes "k \<le> 3"
  defines "h \<equiv> (rst_timer_tick ^^ k) (Reset_WiFi g)"
  shows "wifi_rst_timer h \<and> reset_wifi_flag (wifi h) \<noteq> 1 \<and> unat (Reset_WiFi_Counter h) = k \<and>
    uart_out (wifi h) = uart_out (wifi g) @ concat (replicate (Suc k) (uart_frame 0 4 []))"
  using assms(1) unfolding h_def
proof (induction k)
  case 0
  then show ?case by (simp add: Reset_WiFi_def on_wifi_def Let_def)
next
  case (Suc k)
  let ?h = "(rst_timer_tick ^^ k) (Reset_WiFi g)"
  from Suc have h: "wifi_rst_timer ?h" "reset_wifi_flag (wifi ?h) \<noteq> 1" "unat (Reset_WiFi_Counter ?h) = k"
    "uart_out (wifi ?h) = uart_out (wifi g) @ concat (replicate (Suc k) (uart_frame 0 4 []))" by simp_all
  then have lt: "Reset_WiFi_Counter ?h < 3" using Suc.prems by (simp add: word_less_nat_alt)
  have "unat (Reset_WiFi_Counter ?h + 1) = Suc k" using unat8_add [of "Reset_WiFi_Counter ?h" 1] h(3) Suc.prems by simp
  moreover have "concat (replicate (Suc j) x) = concat (replicate j x) @ x" for j and x :: bytes
    by (induction j) simp_all
  ultimately show ?case using rst_tick_silent [OF h(1,2)] lt h(4) by simp
qed

text \<open>Property C31. The reset of the WiFi module is tried a bounded number of times: if the module never
  answers, four requests go out in all, one at once and one in each of the next three periods of
  the timer, and the fourth period stops the timer; later periods do nothing.\<close>

theorem Reset_WiFi_gives_up:
  "uart_out (wifi ((rst_timer_tick ^^ (n + 4)) (Reset_WiFi g))) =
     uart_out (wifi g) @ concat (replicate 4 (uart_frame 0 4 [])) \<and>
   \<not> wifi_rst_timer ((rst_timer_tick ^^ (n + 4)) (Reset_WiFi g))"
proof -
  let ?h = "(rst_timer_tick ^^ 3) (Reset_WiFi g)"
  have four: "(4 :: nat) = Suc 3" by simp
  have h: "wifi_rst_timer ?h" "reset_wifi_flag (wifi ?h) \<noteq> 1" "\<not> Reset_WiFi_Counter ?h < 3"
    "uart_out (wifi ?h) = uart_out (wifi g) @ concat (replicate 4 (uart_frame 0 4 []))"
    using rst_ticks_silent [of 3 g] unfolding four by (simp_all add: word_less_nat_alt)
  note s = rst_tick_silent [OF h(1,2)]
  have "\<not> wifi_rst_timer (rst_timer_tick ?h)" using s(3) h(3) by simp
  from rst_tick_stopped [OF this, of n]
  have "(rst_timer_tick ^^ (n + 4)) (Reset_WiFi g) = rst_timer_tick ?h"
    unfolding four funpow_add funpow.simps(2) comp_apply .
  with s h show ?thesis by simp
qed

section \<open>The invariant of the gateway is kept\<close>

lemma gateway_wf_plain [simp]:
  "gateway_wf (g\<lparr>wifi := w\<rparr>) = gateway_wf g" "gateway_wf (on_wifi f g) = gateway_wf g"
  "gateway_wf (g\<lparr>wifi_status := a\<rparr>) = gateway_wf g" "gateway_wf (g\<lparr>wifi_connected := a\<rparr>) = gateway_wf g"
  "gateway_wf (g\<lparr>rf_factoryflag := a\<rparr>) = gateway_wf g" "gateway_wf (g\<lparr>downloads := d\<rparr>) = gateway_wf g"
  "gateway_wf (g\<lparr>Reset_WiFi_Counter := a\<rparr>) = gateway_wf g" "gateway_wf (g\<lparr>wifi_rst_timer := b\<rparr>) = gateway_wf g"
  by (simp_all add: gateway_wf_def on_wifi_def)

lemma gateway_wf_Clear: "gateway_wf g \<Longrightarrow> gateway_wf (Remote_Device_Clear g)"
  by (simp add: gateway_wf_def Remote_Device_Clear_def)

lemma led_wf_of: "gateway_wf g \<Longrightarrow> led_wf (board g)"
  by (simp add: gateway_wf_def)

lemma gateway_wf_status: "gateway_wf g \<Longrightarrow> gateway_wf (wifi_status_change s g)"
  by (simp add: wifi_status_change_def Let_def gateway_wf_Clear gateway_wf_board led_wf_patterns led_wf_of)

lemma gateway_wf_reset: "gateway_wf (Reset_WiFi g) = gateway_wf g" "gateway_wf (Reset_WiFi_Callback g) = gateway_wf g"
  by (simp_all add: Reset_WiFi_def Reset_WiFi_Callback_def Let_def)

lemma gateway_wf_factory: "gateway_wf g \<Longrightarrow> gateway_wf (factory_refresh g)"
  by (simp add: factory_refresh_def Let_def gateway_wf_radio gateway_wf_board led_wf_patterns led_wf_of)

end
