(* ===== verification/Protocol.thy ===== *)
theory Protocol
  imports Wifi_Service
begin

unbundle bit_operations_syntax

text \<open>
  What the gateway does with a frame from the WiFi module (\<open>data_handle\<close> of \<open>src/wifi/system.c\<close> and
  the handlers of \<open>src/wifi/protocol.c\<close>). The process buffer is memory of which 4103 cells exist; a
  handler that would read behind them, overrun a local buffer, read a string through a null pointer,
  restart the processor or never return ends in the corresponding fault. Payload strings are copied
  to local arrays in the source, on the stack of the service thread; here they are the lists of their
  characters, and an array larger than that stack is out of bounds.
\<close>

section \<open>Reading the frame\<close>

text \<open>\<open>need n r\<close>: \<open>r\<close>, provided the cells below \<open>n\<close> belong to the process buffer.\<close>

definition need :: "nat \<Rightarrow> c_fault + 'a \<Rightarrow> c_fault + 'a" where
  "need n r = (if n \<le> PROCESS_SIZE then r else Inl Out_Of_Bounds)"

text \<open>Two and four bytes, most significant first.\<close>

definition frame_half :: "memory \<Rightarrow> nat \<Rightarrow> u16" where
  "frame_half buf at = push_bit 8 (ucast (buf at)) OR ucast (buf (at + 1))"

definition frame_total_len :: "memory \<Rightarrow> nat \<Rightarrow> u16" where
  "frame_total_len buf offset = frame_half buf (offset + LENGTH_HIGH)"

definition frame_word :: "memory \<Rightarrow> nat \<Rightarrow> u32" where
  "frame_word buf at = byte_to_int (\<lambda>i. buf (at + i))"

definition chars_at :: "memory \<Rightarrow> nat \<Rightarrow> nat \<Rightarrow> string" where
  "chars_at buf at n = map (\<lambda>i. char_of_byte (buf (at + i))) [0..<n]"

text \<open>The copy \<open>pstr\<close> of a payload, as the C string it is. The array is sized and filled by the length the
  frame announces; \<open>wifi_service_init\<close> gives the thread 2048 bytes of stack.\<close>

abbreviation (input) SERVICE_STACK :: nat where "SERVICE_STACK \<equiv> 2048"

definition payload_text :: "memory \<Rightarrow> nat \<Rightarrow> u16 \<Rightarrow> c_fault + string" where
  "payload_text buf at data_len =
    (if unat data_len + 1 > SERVICE_STACK then Inl Out_Of_Bounds
     else need (at + unat data_len) (Inr (takeWhile (\<lambda>c. of_char c \<noteq> (0 :: nat)) (chars_at buf at (unat data_len)))))"

definition with_text :: "memory \<Rightarrow> nat \<Rightarrow> u16 \<Rightarrow> (string \<Rightarrow> c_fault + 'a) \<Rightarrow> c_fault + 'a" where
  "with_text buf at data_len k = (case payload_text buf at data_len of Inl e \<Rightarrow> Inl e | Inr pstr \<Rightarrow> k pstr)"

text \<open>\<open>atol\<close> on a buffer that may lack a terminator: does it read all of it and go on behind it?\<close>

definition atol_runs_out :: "string \<Rightarrow> bool" where
  "atol_runs_out s \<longleftrightarrow> snd (scan_nat 0 (snd (scan_sign (dropWhile is_space s)))) = []"

section \<open>Data points from the app\<close>

definition download_cmd :: "(u8 \<times> u8) list" where
  "download_cmd =
    [(101, DP_TYPE_BOOL), (102, DP_TYPE_BOOL), (103, DP_TYPE_BOOL), (104, DP_TYPE_BOOL), (105, DP_TYPE_ENUM),
     (106, DP_TYPE_BOOL), (107, DP_TYPE_BOOL), (108, DP_TYPE_VALUE), (109, DP_TYPE_BOOL), (110, DP_TYPE_ENUM),
     (111, DP_TYPE_BOOL), (112, DP_TYPE_VALUE), (113, DP_TYPE_BOOL), (114, DP_TYPE_BOOL), (115, DP_TYPE_BOOL)]"

definition get_download_cmd_total :: u8 where
  "get_download_cmd_total = word_of_nat (length download_cmd)"

text \<open>The index behind the table when the data point is unknown.\<close>

definition get_dowmload_dpid_index :: "u8 \<Rightarrow> nat" where
  "get_dowmload_dpid_index dpid = length (takeWhile (\<lambda>e. fst e \<noteq> dpid) (take (unat get_download_cmd_total) download_cmd))"

abbreviation (input) BUF_SIZE :: nat where "BUF_SIZE \<equiv> 50"

definition dp_download_control_state_handle :: "memory \<Rightarrow> u16 \<Rightarrow> string \<Rightarrow> u8 \<Rightarrow> gateway \<Rightarrow> c_fault + u8 \<times> gateway" where
  "dp_download_control_state_handle val len sub_id_buf sub_id_len g =
    (if length sub_id_buf = BUF_SIZE \<and> atol_runs_out sub_id_buf then Inl Out_Of_Bounds
     else
       (let device_id = atol sub_id_buf;
            control_state = mcu_get_dp_download_bool val len;
            g = (if control_state = 0 then Moto_CloseRemote device_id g else Moto_OpenRemote device_id g)
        in case mcu_dp_bool_update DPID_CONTROL_STATE control_state sub_id_buf sub_id_len (wifi g) of
             (ret, w) \<Rightarrow> Inr (if ret = SUCCESS then SUCCESS else ERROR, g\<lparr>wifi := w\<rparr>)))"

text \<open>\<open>None\<close> is the uninitialised \<open>ret\<close> of the other data points. The value starts at cell \<open>at\<close>.\<close>

definition dp_download_handle :: "u8 \<Rightarrow> memory \<Rightarrow> nat \<Rightarrow> u16 \<Rightarrow> string \<Rightarrow> u8 \<Rightarrow> gateway \<Rightarrow> c_fault + u8 option \<times> gateway" where
  "dp_download_handle dpid buf at len sub_id_buf sub_id_len g =
    (if dpid = DPID_CONTROL_STATE then
       need (at + 1)
         (case dp_download_control_state_handle (\<lambda>i. buf (at + i)) len sub_id_buf sub_id_len g of
            Inl e \<Rightarrow> Inl e | Inr (ret, g) \<Rightarrow> Inr (Some ret, g))
     else Inr (None, g))"

definition dp_length :: "memory \<Rightarrow> nat \<Rightarrow> u16" where
  "dp_length buf at = push_bit 8 (ucast (buf (at + 2))) + ucast (buf (at + 3))"

definition data_point_handle :: "memory \<Rightarrow> nat \<Rightarrow> string \<Rightarrow> u8 \<Rightarrow> gateway \<Rightarrow> c_fault + u8 option \<times> gateway" where
  "data_point_handle buf at sub_id_buf sub_id_len g =
    (let dp_id = buf at;
         dp_type = buf (at + 1);
         dp_len = dp_length buf at;
         index = get_dowmload_dpid_index dp_id
     in if index \<ge> length download_cmd then Inl Out_Of_Bounds
        else if dp_type \<noteq> snd (download_cmd ! index) then Inr (Some 0, g)
        else dp_download_handle dp_id buf (at + 4) dp_len sub_id_buf sub_id_len g)"

text \<open>The loop over the data points of one command; \<open>i\<close> is an \<open>unsigned short\<close> and wraps. \<open>None\<close> is a
  loop that never ends.\<close>

partial_function (option) issued_points ::
  "memory \<Rightarrow> nat \<Rightarrow> u16 \<Rightarrow> string \<Rightarrow> u8 \<Rightarrow> u16 \<Rightarrow> gateway \<Rightarrow> (c_fault + gateway) option" where
  "issued_points buf data total_len sub_id_buf sub_id_len i g =
    (if i < total_len then
       (let at = data + unat i in
        if at + 4 > PROCESS_SIZE then Some (Inl Out_Of_Bounds)
        else case data_point_handle buf at sub_id_buf sub_id_len g of
          Inl e \<Rightarrow> Some (Inl e)
        | Inr (ret, g) \<Rightarrow> issued_points buf data total_len sub_id_buf sub_id_len (i + (frame_half buf (at + 2) + 4)) g)
     else Some (Inr g))"

text \<open>The identifier at the head of a payload, copied to a local buffer of 50 bytes.\<close>

definition with_sub_id :: "memory \<Rightarrow> nat \<Rightarrow> (string \<Rightarrow> u8 \<Rightarrow> c_fault + 'a) \<Rightarrow> c_fault + 'a" where
  "with_sub_id buf data k =
    (let sub_id_len = buf data
     in if unat sub_id_len > BUF_SIZE then Inl Out_Of_Bounds
        else need (data + 1 + unat sub_id_len) (k (chars_at buf (data + 1) (unat sub_id_len)) sub_id_len))"

definition data_issued :: "memory \<Rightarrow> nat \<Rightarrow> gateway \<Rightarrow> c_fault + gateway" where
  "data_issued buf offset g =
    (let total_len = frame_total_len buf offset;
         data = offset + DATA_START
     in with_sub_id buf data (\<lambda>sub_id_buf sub_id_len.
          case issued_points buf data total_len sub_id_buf sub_id_len (1 + ucast sub_id_len) g of
            None \<Rightarrow> Inl Endless_Loop | Some r \<Rightarrow> r))"

section \<open>Requests with a JSON payload\<close>

definition subdevice_delete :: "string \<Rightarrow> gateway \<Rightarrow> c_fault + gateway" where
  "subdevice_delete pstr g =
    (case cJSON_Parse pstr of
       Inl e \<Rightarrow> Inl e
     | Inr None \<Rightarrow> Inr g
     | Inr (Some root) \<Rightarrow>
         (case cJSON_GetObjectItem root ''sub_id'' of
            None \<Rightarrow> Inr g
          | Some item \<Rightarrow>
              (case cJSON_GetObjectItem root ''tp'' of
                 None \<Rightarrow> Inr g
               | Some tp \<Rightarrow>
                   (case valuestring item of
                      None \<Rightarrow> Inl Null_Pointer
                    | Some sub_id \<Rightarrow> Inr (Remote_Delete (atol sub_id) g)))))"

definition heart_beat_check :: "string \<Rightarrow> gateway \<Rightarrow> c_fault + gateway" where
  "heart_beat_check pstr g =
    (case cJSON_Parse pstr of
       Inl e \<Rightarrow> Inl e
     | Inr None \<Rightarrow> Inr g
     | Inr (Some root) \<Rightarrow>
         (case cJSON_GetObjectItem root ''sub_id'' of
            None \<Rightarrow> Inr g
          | Some item \<Rightarrow>
              (case valuestring item of
                 None \<Rightarrow> Inl Null_Pointer
               | Some sub_id \<Rightarrow> Inr (Heart_Request sub_id g))))"

definition qur_subdev_ver_get :: "string \<Rightarrow> gateway \<Rightarrow> c_fault + gateway" where
  "qur_subdev_ver_get pstr g = (case cJSON_Parse pstr of Inl e \<Rightarrow> Inl e | Inr root \<Rightarrow> Inr g)"

definition qur_subdev_ver_report :: "string \<Rightarrow> string \<Rightarrow> wifi_sys \<Rightarrow> wifi_sys" where
  "qur_subdev_ver_report sub_id mcu_ver w =
    (let root = cJSON_AddStringToObject cJSON_CreateObject ''sub_id'' sub_id;
         root = cJSON_AddStringToObject root ''ver'' mcu_ver
     in send_json 0x21 root w)"

section \<open>Notifications\<close>

definition wifi_test_result :: "u8 \<Rightarrow> u8 \<Rightarrow> gateway \<Rightarrow> gateway" where
  "wifi_test_result result rssi g =
    (if result = 0 then (if rssi = 0 then on_board (wifi_led_factory 1) g else g)
     else if rssi < 10 then on_board (wifi_led_factory 2) g
     else on_board (wifi_led_factory 3) g)"

text \<open>With the restart, if there is one; the flash is what survives it.\<close>

definition inform_dev_del_status :: "u8 \<Rightarrow> gateway \<Rightarrow> c_fault option \<times> gateway" where
  "inform_dev_del_status result g =
    (if result = 0 then (Some Cpu_Reset, g)
     else if result = 3 then (Some Cpu_Reset, on_dev (\<lambda>d. d\<lparr>env := ef_env_set_default\<rparr>) g)
     else (None, g))"

section \<open>The list of sub-devices\<close>

text \<open>The loop over the nodes: \<open>i\<close> of \<open>num\<close> are done, the next one starts at byte \<open>off\<close> of the payload.
  A node is a length byte and that many characters; it is copied to element \<open>i\<close> of an array of 33-byte
  elements. \<open>off\<close> is an \<open>unsigned char\<close>.\<close>

abbreviation (input) SUB_NODE :: nat where "SUB_NODE \<equiv> 33"

function subdev_nodes :: "memory \<Rightarrow> nat \<Rightarrow> nat \<Rightarrow> nat \<Rightarrow> u8 \<Rightarrow> memory \<Rightarrow> gateway \<Rightarrow> c_fault + gateway" where
  "subdev_nodes buf data num i off sub_node g =
    (if i < num then
       (let at = data + unat off;
            n = unat (buf at) + 1
        in if at + n > PROCESS_SIZE \<or> SUB_NODE * i + n > SUB_NODE * num then Inl Out_Of_Bounds
           else
             (let sub_node = blit sub_node (SUB_NODE * i) (\<lambda>j. buf (at + j)) n;
                  off = off + (buf at + 1);
                  node_id = chars_at sub_node (SUB_NODE * i + 1) (SUB_NODE * num - (SUB_NODE * i + 1))
              in if atol_runs_out node_id then Inl Out_Of_Bounds
                 else case Remote_Device_Add (atol node_id) g of
                   Inl e \<Rightarrow> Inl e
                 | Inr g \<Rightarrow> subdev_nodes buf data num (i + 1) off sub_node g))
     else Inr g)"
  by pat_completeness auto

termination by (relation "measure (\<lambda>(buf, data, num, i, off, sub_node, g). num - i)") auto

declare subdev_nodes.simps [simp del]

text \<open>An empty list allocates no memory, which the code takes for a failed allocation.\<close>

definition local_subdev_list :: "memory \<Rightarrow> nat \<Rightarrow> gateway \<Rightarrow> c_fault + gateway" where
  "local_subdev_list buf data g =
    need (data + 2)
      (let next_package_flag = drop_bit 7 (buf data) AND 1;
           sub_node_num = buf (data + 1)
       in if sub_node_num = 0 then Inr (Sync_Request g)
          else case subdev_nodes buf data (unat sub_node_num) 0 2 (\<lambda>_. 0) g of
            Inl e \<Rightarrow> Inl e
          | Inr g \<Rightarrow> Inr (if next_package_flag = 0 then Sync_Request g else g))"

section \<open>Firmware\<close>

definition upgrade_package_choose :: "u8 \<Rightarrow> wifi_sys \<Rightarrow> wifi_sys" where
  "upgrade_package_choose package_sz w =
    wifi_uart_write_frame 0x1d MCU_TX_VER (set_wifi_uart_byte package_sz (0, w))"

definition subdev_upgrade_package_choose :: "u8 \<Rightarrow> wifi_sys \<Rightarrow> wifi_sys" where
  "subdev_upgrade_package_choose package_sz w =
    wifi_uart_write_frame 0x1f MCU_TX_VER (set_wifi_uart_byte package_sz (0, w))"

text \<open>The packet starts at cell \<open>at\<close>. It is read only when \<open>wifi_ota_receive\<close> gets as far as writing it.\<close>

definition mcu_firm_update_handle :: "memory \<Rightarrow> nat \<Rightarrow> u32 \<Rightarrow> u16 \<Rightarrow> gateway \<Rightarrow> c_fault + u8 \<times> gateway" where
  "mcu_firm_update_handle buf at position len g =
    (if len = 0 then
       (case wifi_ota_end (downloads g) of Inl e \<Rightarrow> Inl e | Inr d \<Rightarrow> Inr (SUCCESS, g\<lparr>downloads := d\<rparr>))
     else if update_file_cur_size (wifi_dl (downloads g)) = position \<and> position + ucast len \<le> dl_len
         \<and> at + unat len > PROCESS_SIZE then Inl Out_Of_Bounds
     else Inr (SUCCESS, g\<lparr>downloads :=
       wifi_ota_receive (map (\<lambda>i. buf (at + i)) [0..<unat len]) position (ucast len) (downloads g)\<rparr>))"

definition subdev_firm_update_handle :: "u32 \<Rightarrow> u16 \<Rightarrow> gateway \<Rightarrow> u8 \<times> gateway" where
  "subdev_firm_update_handle position len g = (SUCCESS, g)"

abbreviation (input) UPDATE_START_CMD :: u8 where "UPDATE_START_CMD \<equiv> 0x1d"
abbreviation (input) UPDATE_TRANS_CMD :: u8 where "UPDATE_TRANS_CMD \<equiv> 0x1e"
abbreviation (input) SUBDEV_START_UPGRADE_CMD :: u8 where "SUBDEV_START_UPGRADE_CMD \<equiv> 0x1f"
abbreviation (input) SUBDEV_TRANS_CMD :: u8 where "SUBDEV_TRANS_CMD \<equiv> 0x20"
abbreviation (input) PACKAGE_SIZE :: u8 where "PACKAGE_SIZE \<equiv> 2"

definition package_bytes :: "u8 \<Rightarrow> u16 \<Rightarrow> u16" where
  "package_bytes firm_flag old =
    (if firm_flag = 0 then 256 else if firm_flag = 1 then 512 else if firm_flag = 2 then 1024 else old)"

definition update_start :: "memory \<Rightarrow> nat \<Rightarrow> gateway \<Rightarrow> c_fault + gateway" where
  "update_start buf offset g =
    need (offset + DATA_START + 4)
      (let g = on_wifi (\<lambda>w. w\<lparr>firm_size := package_bytes PACKAGE_SIZE (firm_size w)\<rparr>) g;
           g = on_wifi (\<lambda>w. w\<lparr>firm_length := frame_word buf (offset + DATA_START)\<rparr>) g;
           g = on_wifi (upgrade_package_choose PACKAGE_SIZE) g;
           g = on_wifi (\<lambda>w. w\<lparr>firm_update_flag := UPDATE_START_CMD\<rparr>) g
       in Inr (g\<lparr>downloads := wifi_ota_begin (firm_length (wifi g)) (downloads g)\<rparr>))"

definition update_trans :: "memory \<Rightarrow> nat \<Rightarrow> gateway \<Rightarrow> c_fault + gateway" where
  "update_trans buf offset g =
    (if firm_update_flag (wifi g) = UPDATE_START_CMD then
       need (offset + DATA_START + 4)
         (let g = on_wifi (\<lambda>w. w\<lparr>stop_update_flag := ENABLE\<rparr>) g;
              total_len = frame_total_len buf offset;
              dp_len_up = frame_word buf (offset + DATA_START);
              at = offset + DATA_START + 4;
              r = (if total_len = 4 \<and> dp_len_up = firm_length (wifi g) then
                     (case mcu_firm_update_handle buf at dp_len_up 0 g of
                        Inl e \<Rightarrow> Inl e
                      | Inr (ret, g) \<Rightarrow> Inr (ret, on_wifi (\<lambda>w. w\<lparr>firm_update_flag := 0\<rparr>) g))
                   else if uint total_len - 4 \<le> uint (firm_size (wifi g)) then
                     mcu_firm_update_handle buf at dp_len_up (total_len - 4) g
                   else Inr (ERROR, on_wifi (\<lambda>w. w\<lparr>firm_update_flag := 0\<rparr>) g))
          in case r of
               Inl e \<Rightarrow> Inl e
             | Inr (ret, g) \<Rightarrow>
                 (let g = (if ret = SUCCESS
                           then on_wifi (\<lambda>w. wifi_uart_write_frame UPDATE_TRANS_CMD MCU_TX_VER (0, w)) g else g)
                  in Inr (on_wifi (\<lambda>w. w\<lparr>stop_update_flag := DISABLE\<rparr>) g)))
     else Inr g)"

definition subdev_start :: "memory \<Rightarrow> nat \<Rightarrow> gateway \<Rightarrow> c_fault + gateway" where
  "subdev_start buf offset g =
    (let data = offset + DATA_START;
         g = on_wifi (\<lambda>w. w\<lparr>firm_size := package_bytes PACKAGE_SIZE (firm_size w)\<rparr>) g
     in with_sub_id buf data (\<lambda>sub_id_buf sub_id_len.
          need (data + 5 + unat sub_id_len)
            (let g = on_wifi (\<lambda>w. w\<lparr>firm_length := frame_word buf (data + 1 + unat sub_id_len)\<rparr>) g;
                 g = on_wifi (subdev_upgrade_package_choose PACKAGE_SIZE) g
             in Inr (on_wifi (\<lambda>w. w\<lparr>firm_update_flag := SUBDEV_START_UPGRADE_CMD\<rparr>) g))))"

definition subdev_trans :: "memory \<Rightarrow> nat \<Rightarrow> gateway \<Rightarrow> c_fault + gateway" where
  "subdev_trans buf offset g =
    (if firm_update_flag (wifi g) = SUBDEV_START_UPGRADE_CMD then
       (let data = offset + DATA_START;
            g = on_wifi (\<lambda>w. w\<lparr>stop_update_flag := ENABLE\<rparr>) g;
            total_len = frame_total_len buf offset
        in with_sub_id buf data (\<lambda>sub_id_buf sub_id_len.
             need (data + 5 + unat sub_id_len)
               (let dp_len_up = frame_word buf (data + 1 + unat sub_id_len);
                    rest = uint total_len - 4 - uint sub_id_len - 1;
                    (ret, g) =
                      (if rest = 0 \<and> dp_len_up = firm_length (wifi g) then
                         (case subdev_firm_update_handle dp_len_up 0 g of
                            (ret, g) \<Rightarrow> (ret, on_wifi (\<lambda>w. w\<lparr>firm_update_flag := 0\<rparr>) g))
                       else if rest \<le> uint (firm_size (wifi g)) then
                         subdev_firm_update_handle dp_len_up (word_of_int rest) g
                       else (ERROR, on_wifi (\<lambda>w. w\<lparr>firm_update_flag := 0\<rparr>) g));
                    g = (if ret = SUCCESS
                         then on_wifi (\<lambda>w. wifi_uart_write_frame SUBDEV_TRANS_CMD MCU_TX_VER (0, w)) g else g)
                in Inr (on_wifi (\<lambda>w. w\<lparr>stop_update_flag := DISABLE\<rparr>) g))))
     else Inr g)"

section \<open>The dispatcher\<close>

definition get_mcu_wifi_mode :: "wifi_sys \<Rightarrow> wifi_sys" where
  "get_mcu_wifi_mode w = wifi_uart_write_frame 0x02 MCU_TX_VER (0, w)"

text \<open>An empty answer frame.\<close>

definition answer :: "u8 \<Rightarrow> gateway \<Rightarrow> gateway" where
  "answer cmd g = on_wifi (\<lambda>w. wifi_uart_write_frame cmd MCU_TX_VER (0, w)) g"

text \<open>The commands 08, 0b, 16, 19, 1a, 2a and 33 have handlers that do nothing; all others not named
  here are not compiled in.\<close>

definition data_handle :: "memory \<Rightarrow> nat \<Rightarrow> gateway \<Rightarrow> c_fault + gateway" where
  "data_handle buf offset g =
    (let cmd_type = buf (offset + FRAME_TYPE);
         data = offset + DATA_START;
         total_len = frame_total_len buf offset
     in if cmd_type = 0x01 then Inr (on_wifi (product_info_update (buf (offset + PROTOCOL_VERSION))) g)
        else if cmd_type = 0x02 then Inr (on_wifi get_mcu_wifi_mode g)
        else if cmd_type = 0x03 then
          (let g = on_wifi (\<lambda>w. w\<lparr>wifi_work_state := buf data\<rparr>) g;
               g = answer 0x03 g
           in Inr (wifi_status_change (wifi_work_state (wifi g)) g))
        else if cmd_type = 0x04 then Inr (on_wifi (\<lambda>w. w\<lparr>reset_wifi_flag := 1\<rparr>) g)
        else if cmd_type = 0x05 then Inr (on_wifi (\<lambda>w. w\<lparr>set_wifimode_flag := 1\<rparr>) g)
        else if cmd_type = 0x06 then Inr (answer 0x06 (on_wifi (\<lambda>w. w\<lparr>if_subdev_net_in := 1\<rparr>) g))
        else if cmd_type = 0x07 then Inr (answer 0x07 (on_wifi (\<lambda>w. w\<lparr>if_subdev_net_in := 0\<rparr>) g))
        else if cmd_type = 0x09 then
          with_text buf data total_len
            (\<lambda>pstr. case subdevice_delete pstr g of Inl e \<Rightarrow> Inl e | Inr g \<Rightarrow> Inr (answer 0x09 g))
        else if cmd_type = 0x0a then with_text buf data total_len (\<lambda>pstr. heart_beat_check pstr g)
        else if cmd_type = 0x0c then data_issued buf offset g
        else if cmd_type = 0x15 then need (data + 2) (Inr (wifi_test_result (buf data) (buf (data + 1)) g))
        else if cmd_type = 0x18 then
          (case inform_dev_del_status (buf data) g of (Some e, g) \<Rightarrow> Inl e | (None, g) \<Rightarrow> Inr g)
        else if cmd_type = 0x1c then local_subdev_list buf data g
        else if cmd_type = UPDATE_START_CMD then update_start buf offset g
        else if cmd_type = UPDATE_TRANS_CMD then update_trans buf offset g
        else if cmd_type = SUBDEV_START_UPGRADE_CMD then subdev_start buf offset g
        else if cmd_type = SUBDEV_TRANS_CMD then subdev_trans buf offset g
        else if cmd_type = 0x21 then with_text buf data total_len (\<lambda>pstr. qur_subdev_ver_get pstr g)
        else Inr g)"

end
