(* ===== verification/Commands.thy ===== *)
theory Commands
  imports Protocol
begin

unbundle bit_operations_syntax

text \<open>
  What the frames from the WiFi module bring about: the invariant of the gateway holds whatever arrives,
  commands of the app reach the radio, deletions and firmware arrive as sent, and the inputs
  that stop the program.
\<close>

section \<open>The fields of a frame\<close>

lemma at_offset_Nil [simp]: "at_offset buf off []"
  by (simp add: at_offset_def)

lemma at_offset_Cons: "at_offset buf off (b # bs) \<longleftrightarrow> buf off = b \<and> at_offset buf (off + 1) bs"
  using at_offset_append [of buf off "[b]" bs] by (simp add: at_offset_def [of buf off "[b]"])

lemma frame_at:
  assumes "at_offset buf off (uart_frame v t ps)" and "i < length ps + 6"
  shows "buf (off + i) = ([0x55, 0xaa, v, t, word_of_nat (length ps div 256), word_of_nat (length ps mod 256)] @ ps) ! i"
proof -
  let ?body = "[0x55, 0xaa, v, t, word_of_nat (length ps div 256), word_of_nat (length ps mod 256)] @ ps"
  have "uart_frame v t ps = ?body @ [sum_list ?body]" by (simp add: uart_frame_def)
  with assms(1) have "at_offset buf off ?body" by (simp only: at_offset_append)
  with assms(2) show ?thesis unfolding at_offset_def by simp
qed

lemma frame_half_nat:
  assumes "buf at = word_of_nat (k div 256)" "buf (at + 1) = word_of_nat (k mod 256)" "k < 65536"
  shows "frame_half buf at = word_of_nat k"
proof -
  have up: "(ucast (word_of_nat n :: u8) :: u16) = word_of_nat n" if "n < 256" for n
    using that by (simp add: unsigned_of_nat take_bit_nat_eq_self)
  have and0: "push_bit 8 (ucast (a :: u8) :: u16) AND ucast (b :: u8) = 0" for a b
    by (rule bit_word_eqI) (auto simp: bit_simps dest: bit_imp_le_length)
  have "frame_half buf at = push_bit 8 (word_of_nat (k div 256)) + word_of_nat (k mod 256)"
    using assms word_plus_and_or [of "push_bit 8 (ucast (buf at)) :: u16" "ucast (buf (at + 1))"]
    unfolding frame_half_def and0 by (simp add: up)
  also have "\<dots> = word_of_nat (256 * (k div 256) + k mod 256)"
    unfolding of_nat_add of_nat_mult by (simp add: push_bit_eq_mult)
  finally show ?thesis by simp
qed

lemma frame_fields:
  assumes "at_offset buf off (uart_frame v t ps)" and "length ps \<le> 4096"
  shows "buf (off + FRAME_TYPE) = t" and "frame_total_len buf off = word_of_nat (length ps)"
    and "\<And>i. i < length ps \<Longrightarrow> buf (off + DATA_START + i) = ps ! i"
proof -
  note at = frame_at [OF assms(1)]
  show "buf (off + FRAME_TYPE) = t" using at [of 3] by simp
  have five: "off + 4 + 1 = off + 5" by simp
  show "frame_total_len buf off = word_of_nat (length ps)"
    unfolding frame_total_len_def using at [of 4] at [of 5] assms(2) by (intro frame_half_nat, unfold five) simp_all
  show "buf (off + DATA_START + i) = ps ! i" if "i < length ps" for i
    using at [of "6 + i"] that by (simp add: add.assoc)
qed

lemma frame_len_unat: "length ps \<le> 4096 \<Longrightarrow> unat (word_of_nat (length ps) :: u16) = length ps"
  by (simp add: unsigned_of_nat take_bit_nat_eq_self)

section \<open>Every frame keeps the invariant\<close>

lemma gateway_wf_Bind_Upload: "gateway_wf g \<Longrightarrow> gateway_wf (Self_Bind_Upload k g)"
proof -
  assume wf: "gateway_wf g"
  then have "gateway_wf (on_dev (\<lambda>d. snd (Flash_Set_UploadFlag k 1 d)) g)"
    by (intro gateway_wf_dev table_wf_setters) (simp_all add: gateway_wf_def)
  with wf show ?thesis
    by (simp add: Self_Bind_Upload_def Let_def gateway_wf_ops)
qed

lemma gateway_wf_Heart_Request: "gateway_wf g \<Longrightarrow> gateway_wf (Heart_Request s g)"
  by (simp add: Heart_Request_def Let_def gateway_wf_Bind_Upload gateway_wf_ops)

lemma gateway_wf_Remote_Del: "gateway_wf g \<Longrightarrow> gateway_wf (Remote_Delete k g)"
  by (simp add: Remote_Delete_def Let_def gateway_wf_ops reports_wfI [OF _ reports_wifi(3)])

lemma gateway_wf_Remote_Add: "gateway_wf g \<Longrightarrow> Remote_Device_Add k g = Inr g' \<Longrightarrow> gateway_wf g'"
  by (auto simp: Remote_Device_Add_def Let_def gateway_wf_def split: if_splits)

lemma gateway_wf_Sync_Request: "gateway_wf g \<Longrightarrow> gateway_wf (Sync_Request g)"
  by (simp add: Sync_Request_def Get_Next_Main_def sem_release_def Let_def gateway_wf_def split: option.split)

lemma need_Inr: "need n r = Inr x \<longleftrightarrow> n \<le> PROCESS_SIZE \<and> r = Inr x"
  by (simp add: need_def)

lemma with_text_Inr: "with_text buf data n k = Inr x \<Longrightarrow> \<exists>s. k s = Inr x"
  by (auto simp: with_text_def split: sum.splits)

lemma with_sub_id_Inr:
  "with_sub_id buf data k = Inr x \<longleftrightarrow> unat (buf data) \<le> BUF_SIZE \<and> data + 1 + unat (buf data) \<le> PROCESS_SIZE \<and>
     k (chars_at buf (data + 1) (unat (buf data))) (buf data) = Inr x"
  by (auto simp: with_sub_id_def need_Inr Let_def)

lemma gateway_wf_point:
  assumes "gateway_wf g" and "data_point_handle buf at s n g = Inr (r, g')"
  shows "gateway_wf g'"
  using assms
  by (auto simp: data_point_handle_def dp_download_handle_def dp_download_control_state_handle_def need_Inr Let_def
      gateway_wf_ops split: if_splits sum.splits prod.splits)

text \<open>What holds of one data point and is passed on holds of the loop.\<close>

lemma issued_points_inv:
  assumes "issued_points buf data n s l i g = Some (Inr g')" and "I g"
    and step: "\<And>buf at s l g r g'. I g \<Longrightarrow> data_point_handle buf at s l g = Inr (r, g') \<Longrightarrow> I g'"
  shows "I g'"
proof -
  let ?P = "\<lambda>buf data n s l i g (r :: c_fault + gateway). I g \<longrightarrow> (\<forall>g'. r = Inr g' \<longrightarrow> I g')"
  have "?P buf data n s l i g (Inr g')"
  proof (rule issued_points.raw_induct [where P = ?P, OF _ assms(1)])
    fix rec buf data n s l i g r
    assume IH: "\<And>buf data n s l i g r. rec buf data n s l i g = Some r \<Longrightarrow> ?P buf data n s l i g r"
      and eq: "(if i < n then
          (let at = data + unat i in
           if 4103 < at + 4 then Some (Inl Out_Of_Bounds)
           else case data_point_handle buf at s l g of
             Inl e \<Rightarrow> Some (Inl e)
           | Inr (ret, g) \<Rightarrow> rec buf data n s l (i + (frame_half buf (at + 2) + 4)) g)
        else Some (Inr g)) = Some r"
    show "?P buf data n s l i g r"
    proof (cases "i < n \<and> \<not> 4103 < data + unat i + 4")
      case True
      show ?thesis
      proof (cases "data_point_handle buf (data + unat i) s l g")
        case (Inl e)
        with True eq show ?thesis by (auto simp: Let_def)
      next
        case (Inr x)
        then obtain v h where x: "data_point_handle buf (data + unat i) s l g = Inr (v, h)" by (cases x) auto
        with True eq have "rec buf data n s l (i + (frame_half buf (data + unat i + 2) + 4)) h = Some r"
          by (simp add: Let_def)
        from IH [OF this] step [OF _ x] show ?thesis by blast
      qed
    next
      case False
      with eq show ?thesis by (auto simp: Let_def split: if_splits)
    qed
  qed
  with assms(2) show ?thesis by blast
qed

lemma gateway_wf_issued:
  assumes "issued_points buf data n s l i g = Some (Inr g')" and "gateway_wf g"
  shows "gateway_wf g'"
  using issued_points_inv [where I = gateway_wf, OF assms gateway_wf_point] .

lemma gateway_wf_nodes:
  assumes "subdev_nodes buf data num i off m g = Inr g'" and "gateway_wf g"
  shows "gateway_wf g'"
  using assms
proof (induction buf data num i off m g rule: subdev_nodes.induct)
  case (1 buf data num i off m g)
  let ?at = "data + unat off"
  let ?m = "blit m (33 * i) (\<lambda>j. buf (?at + j)) (unat (buf ?at) + 1)"
  let ?s = "chars_at ?m (33 * i + 1) (33 * num - (33 * i + 1))"
  show ?case
  proof (cases "i < num")
    case True
    then have "\<not> (?at + (unat (buf ?at) + 1) > 4103 \<or> 33 * i + (unat (buf ?at) + 1) > 33 * num)"
      and "\<not> atol_runs_out ?s"
      using 1(2) by (auto simp: subdev_nodes.simps [of buf data num i off m g] Let_def split: if_splits)
    note step = True this
    then obtain h where h: "Remote_Device_Add (atol ?s) g = Inr h"
      "subdev_nodes buf data num (i + 1) (off + (buf ?at + 1)) ?m h = Inr g'"
      using 1(2) by (auto simp: subdev_nodes.simps [of buf data num i off m g] Let_def split: sum.splits)
    with 1(1) [OF step(1) refl refl step(2) refl refl refl step(3), of h] gateway_wf_Remote_Add [OF 1(3)]
    show ?thesis by blast
  next
    case False
    with 1(2,3) show ?thesis by (simp add: subdev_nodes.simps)
  qed
qed

lemma gateway_wf_firm:
  "gateway_wf g \<Longrightarrow> mcu_firm_update_handle buf at p n g = Inr (r, g') \<Longrightarrow> gateway_wf g'"
  by (auto simp: mcu_firm_update_handle_def wifi_ota_end_def split: if_splits)

lemma gateway_wf_update:
  assumes "gateway_wf g" and "update_trans buf off g = Inr g'"
  shows "gateway_wf g'"
  using assms gateway_wf_firm [of "on_wifi (\<lambda>w. w\<lparr>stop_update_flag := 1\<rparr>) g"]
  by (auto simp: update_trans_def need_Inr Let_def split: if_splits sum.splits prod.splits)

lemma gateway_wf_test: "gateway_wf g \<Longrightarrow> gateway_wf (wifi_test_result a b g)"
  by (simp add: wifi_test_result_def gateway_wf_board led_wf_patterns led_wf_of)

lemma gateway_wf_requests:
  assumes "gateway_wf g"
  shows "subdevice_delete s g = Inr g' \<Longrightarrow> gateway_wf g'" "heart_beat_check s g = Inr g' \<Longrightarrow> gateway_wf g'"
    "qur_subdev_ver_get s g = Inr g' \<Longrightarrow> gateway_wf g'" "data_issued buf off g = Inr g' \<Longrightarrow> gateway_wf g'"
    "local_subdev_list buf off g = Inr g' \<Longrightarrow> gateway_wf g'" "update_start buf off g = Inr g' \<Longrightarrow> gateway_wf g'"
    "subdev_start buf off g = Inr g' \<Longrightarrow> gateway_wf g'" "subdev_trans buf off g = Inr g' \<Longrightarrow> gateway_wf g'"
  using assms
  by (auto simp: subdevice_delete_def heart_beat_check_def qur_subdev_ver_get_def data_issued_def local_subdev_list_def
      update_start_def subdev_start_def subdev_trans_def subdev_firm_update_handle_def need_Inr with_sub_id_Inr Let_def
      gateway_wf_Remote_Del gateway_wf_Heart_Request gateway_wf_Sync_Request
      split: sum.splits option.splits if_splits prod.splits dest: gateway_wf_issued gateway_wf_nodes)

lemma gateway_wf_data_handle:
  assumes "gateway_wf g" and "data_handle buf off g = Inr g'"
  shows "gateway_wf g'"
  using assms gateway_wf_requests [OF assms(1)] gateway_wf_update [OF assms(1)]
  unfolding data_handle_def Let_def need_Inr
  by (auto simp: answer_def inform_dev_del_status_def gateway_wf_status gateway_wf_test need_Inr
      split: if_splits sum.splits dest!: with_text_Inr)

text \<open>What every call of the handler keeps, the service keeps.\<close>

lemma rx_scan_inv:
  assumes "rx_scan handler buf rxin off g = Inr (off', g')" and "I g"
    and step: "\<And>off g g'. I g \<Longrightarrow> handler buf off g = Inr g' \<Longrightarrow> I g'"
  shows "I g'"
  using assms(1,2)
proof (induction "rxin - off" arbitrary: off g rule: less_induct)
  case less
  note def = rx_scan.simps [of handler buf rxin off g]
  let ?len = "rx_value_len buf off"
  show ?case
  proof (cases "rxin < off + 7")
    case True
    with less.prems show ?thesis by (simp add: def)
  next
    case False
    have on: "I g'" if "rx_scan handler buf rxin (off + k) h = Inr (off', g')" "0 < k" "I h" for k h
      using less.hyps [OF _ that(1,3)] that(2) False by simp
    show ?thesis
    proof (cases "buf off = 0x55 \<and> buf (off + 1) = 0xaa \<and> \<not> 4103 < unat ?len \<and> \<not> rxin - off < unat ?len \<and>
        \<not> 4103 \<le> off + unat (?len - 1) \<and> get_check_sum buf off (unat (?len - 1)) = buf (off + unat (?len - 1))")
      case True
      with False less.prems(1) obtain h where h: "handler buf off g = Inr h"
        "rx_scan handler buf rxin (off + unat ?len) h = Inr (off', g')"
        by (auto simp: def Let_def split: sum.splits)
      moreover have "0 < unat ?len" using True rx_len_pos [of ?len off] by simp
      ultimately show ?thesis using on step [OF less.prems(2)] by blast
    next
      case bad: False
      from less.prems(1) False bad have "rx_scan handler buf rxin (off + 1) g = Inr (off', g') \<or>
        rx_scan handler buf rxin (off + 3) g = Inr (off', g') \<or> g' = g"
        unfolding def Let_def by (simp split: if_splits)
      with on less.prems(2) show ?thesis by (metis zero_less_numeral zero_less_one)
    qed
  qed
qed

lemma service_inv:
  assumes "wifi_uart_service handler s g = Inr (s', g')" and "I g"
    and "\<And>buf off g g'. I g \<Longrightarrow> handler buf off g = Inr g' \<Longrightarrow> I g'"
  shows "I g'"
proof -
  have "I h" if "rx_scan handler buf n off g = Inr (off', h)" for buf n off off' h
    using rx_scan_inv [where I = I, OF that assms(2) assms(3)] .
  with assms(1,2) show ?thesis
    by (auto simp: wifi_uart_service_def Let_def split: if_splits sum.splits)
qed

lemma gateway_wf_service:
  assumes "gateway_wf g" and "service_callback data_handle r (s, g) = Inr (s', g')"
  shows "gateway_wf g' \<and> (rx_wf s \<longrightarrow> rx_wf s')"
proof (cases r)
  case True
  with assms(2) have run: "wifi_uart_service data_handle s g = Inr (s', g')" by (simp add: service_callback_def)
  from service_inv [OF this, of gateway_wf] assms(1) gateway_wf_data_handle have "gateway_wf g'" by blast
  moreover have "rx_wf s'" if "rx_wf s" using service_prefix [OF that run] by blast
  ultimately show ?thesis by blast
next
  case False
  with assms show ?thesis by (auto simp: service_callback_def wifi_power_on_def gateway_wf_board led_wf_of)
qed

text \<open>Property C24. Whatever arrives on the serial line, a run of the service thread that comes to an end
  without a fault leaves the gateway well formed: the device table and the list of the cloud's devices
  within their arrays and without duplicates, the radio queue within its arrays, the player's list
  consistent, the serial ring and the process buffer within their bounds. Frames that overrun a buffer or
  the stack, restart the processor, read through a null pointer or never end are the faults.\<close>

theorem serial_input_wf:
  assumes "gateway_wf g" and "service_callback data_handle r (s, g) = Inr (s', g')"
  shows "gateway_wf g' \<and> (rx_wf s \<longrightarrow> rx_wf s')"
  using assms by (rule gateway_wf_service)

section \<open>Commands of the app reach the radio\<close>

text \<open>The data point that switches a valve, and what it asks for.\<close>

definition control_point :: "u8 \<Rightarrow> bytes" where
  "control_point x = [DPID_CONTROL_STATE, DP_TYPE_BOOL, 0, 1, x]"

definition control_valve :: "string \<Rightarrow> u8 \<Rightarrow> u8 \<Rightarrow> gateway \<Rightarrow> gateway" where
  "control_valve sub l x g =
    on_wifi (\<lambda>w. snd (mcu_dp_bool_update DPID_CONTROL_STATE x sub l w))
      (on_rf (GatewayDataEnqueue (atol sub) 0 0 2 (if x = 0 then 0 else 1)) g)"

lemma length_control_point: "length (control_point x) = 5"
  by (simp add: control_point_def)

lemma point_known: "get_dowmload_dpid_index DPID_CONTROL_STATE = 3"
  by (simp add: get_dowmload_dpid_index_def get_download_cmd_total_def download_cmd_def)

lemma control_point_handle:
  assumes "at_offset buf at (control_point x)" and "at + 5 \<le> 4103"
    and "length sub < 50 \<or> \<not> atol_runs_out sub"
  shows "\<exists>r. data_point_handle buf at sub l g = Inr (r, control_valve sub l x g)"
    and "frame_half buf (at + 2) = 1"
proof -
  have b: "buf at = 104" "buf (at + 1) = 1" "buf (at + 2) = 0" "buf (at + 3) = 1" "buf (at + 4) = x"
    using assms(1) by (auto simp: at_offset_def control_point_def less_Suc_eq numeral_eq_Suc)
  have three: "at + 2 + 1 = at + 3" by simp
  show "frame_half buf (at + 2) = 1" using frame_half_nat [of buf "at + 2" 1, unfolded three] b by simp
  show "\<exists>r. data_point_handle buf at sub l g = Inr (r, control_valve sub l x g)"
    using assms(2,3) b
    by (auto simp: data_point_handle_def point_known download_cmd_def dp_download_handle_def need_def
        dp_download_control_state_handle_def mcu_get_dp_download_bool_def control_valve_def Let_def
        Moto_CloseRemote_def Moto_OpenRemote_def on_wifi_def split: prod.split)
qed

lemma issued_controls:
  assumes "at_offset buf (data + unat i) (concat (map control_point xs))" and "unat i + 5 * length xs = unat n"
    and "data + unat n \<le> 4103" and "length sub < 50 \<or> \<not> atol_runs_out sub"
  shows "issued_points buf data n sub l i g = Some (Inr (fold (control_valve sub l) xs g))"
  using assms(1,2)
proof (induction xs arbitrary: i g)
  case Nil
  then have "\<not> i < n" by (simp add: word_less_nat_alt)
  then show ?case by (simp add: issued_points.simps)
next
  case (Cons x xs)
  let ?at = "data + unat i"
  have lt: "i < n" using Cons.prems(2) by (simp add: word_less_nat_alt)
  have p: "at_offset buf ?at (control_point x)" and rest: "at_offset buf (?at + 5) (concat (map control_point xs))"
    using Cons.prems(1) by (simp_all add: at_offset_append length_control_point)
  have fits: "?at + 5 \<le> 4103" using Cons.prems(2) assms(3) by simp
  from control_point_handle(1) [OF p fits assms(4)] obtain r where
    r: "data_point_handle buf ?at sub l g = Inr (r, control_valve sub l x g)" by blast
  have five: "unat (i + 5) = unat i + 5"
    using unat16_add [of i 5] Cons.prems(2) u16_lt [of n] by simp
  have "issued_points buf data n sub l (i + 5) (control_valve sub l x g) =
      Some (Inr (fold (control_valve sub l) xs (control_valve sub l x g)))"
    using Cons.IH [of "i + 5" "control_valve sub l x g"] rest Cons.prems(2) by (simp add: five add.assoc)
  then show ?case
    using lt fits control_point_handle(2) [OF p fits assms(4)] r
    by (subst issued_points.simps) (simp add: Let_def)
qed

text \<open>What a sequence of switches leaves behind.\<close>

lemma control_valve_step:
  "rf (control_valve sub l x g) = GatewayDataEnqueue (atol sub) 0 0 2 (if x = 0 then 0 else 1) (rf g)"
  "dev (control_valve sub l x g) = dev g"
  "unat l \<le> length sub \<Longrightarrow> uart_out (wifi (control_valve sub l x g)) = uart_out (wifi g) @
     dp_report (wifi g) sub l DPID_CONTROL_STATE DP_TYPE_BOOL [if x = 0 then 0 else 1]"
  "dp_report (wifi (control_valve sub l x g)) = dp_report (wifi g)"
proof -
  have "stop_update_flag (wifi (control_valve sub l x g)) = stop_update_flag (wifi g)"
    using tx_only_fields(1) [OF tx_only_reports(2)] by (simp add: control_valve_def)
  then show "dp_report (wifi (control_valve sub l x g)) = dp_report (wifi g)" by (intro ext) (simp add: dp_report_def)
qed (simp_all add: control_valve_def mcu_dp_bool_update_out)

lemma control_valve_effect:
  "rf (fold (control_valve sub l) xs g) =
     fold (\<lambda>x. GatewayDataEnqueue (atol sub) 0 0 2 (if x = 0 then 0 else 1)) xs (rf g)"
  "dev (fold (control_valve sub l) xs g) = dev g"
  "unat l \<le> length sub \<Longrightarrow> uart_out (wifi (fold (control_valve sub l) xs g)) = uart_out (wifi g) @
     concat (map (\<lambda>x. dp_report (wifi g) sub l DPID_CONTROL_STATE DP_TYPE_BOOL [if x = 0 then 0 else 1]) xs)"
  by (induction xs arbitrary: g) (simp_all add: control_valve_step)

text \<open>The payload of a command: the device and its data points.\<close>

definition issue_payload :: "string \<Rightarrow> bytes \<Rightarrow> bytes" where
  "issue_payload sub points = word_of_nat (length sub) # bytes_of sub @ points"

lemma chars_at_bytes:
  assumes "at_offset buf at (bytes_of s)"
  shows "chars_at buf at (length s) = s"
  using assms by (intro nth_equalityI) (simp_all add: chars_at_def at_offset_def bytes_of_def)

lemma data_issued_controls:
  assumes "at_offset buf off (uart_frame v 0x0c (issue_payload sub (concat (map control_point xs))))"
    and "length sub < 50" and "off + 8 + length sub + 5 * length xs \<le> 4103"
  shows "data_handle buf off g = Inr (fold (control_valve sub (word_of_nat (length sub))) xs g)"
proof -
  let ?ps = "issue_payload sub (concat (map control_point xs))"
  let ?l = "word_of_nat (length sub) :: u8"
  have cl: "length (concat (map control_point xs)) = 5 * length xs"
    by (induction xs) (simp_all add: control_point_def)
  then have len: "length ?ps = 1 + length sub + 5 * length xs" by (simp add: issue_payload_def)
  then have le: "length ?ps \<le> 4096" using assms(3) by simp
  note f = frame_fields [OF assms(1) le]
  have l: "unat ?l = length sub" using assms(2) by (simp add: unsigned_of_nat take_bit_nat_eq_self)
  have at: "at_offset buf (off + 6) ?ps" unfolding at_offset_def using f(3) by simp
  have seven: "off + 6 + 1 = off + 7" by simp
  from at have parts: "buf (off + 6) = ?l" "at_offset buf (off + 7) (bytes_of sub)"
    "at_offset buf (off + 7 + length sub) (concat (map control_point xs))"
    unfolding issue_payload_def at_offset_Cons at_offset_append seven by simp_all
  have i: "unat (1 + ucast ?l :: u16) = 1 + length sub"
    using unat16_add [of 1 "ucast ?l"] l assms(2) by simp
  have "issued_points buf (off + 6) (frame_total_len buf off) sub ?l (1 + ucast ?l) g =
      Some (Inr (fold (control_valve sub ?l) xs g))"
  proof (rule issued_controls)
    show "at_offset buf (off + 6 + unat (1 + ucast ?l :: u16)) (concat (map control_point xs))"
      using parts(3) i by (simp add: add.commute add.left_commute)
    show "unat (1 + ucast ?l :: u16) + 5 * length xs = unat (frame_total_len buf off)"
      using f(2) frame_len_unat [OF le] i len by simp
    show "off + 6 + unat (frame_total_len buf off) \<le> 4103"
      using f(2) frame_len_unat [OF le] len assms(3) by simp
  qed (use assms(2) in simp)
  moreover have "chars_at buf (off + 6 + 1) (unat ?l) = sub"
    unfolding seven using chars_at_bytes [OF parts(2)] l by simp
  ultimately show ?thesis
    using f(1) parts(1) l assms(2,3)
    by (simp add: data_handle_def data_issued_def with_sub_id_def need_def Let_def)
qed

text \<open>One frame on the line and nothing else: the service hands it over.\<close>

lemma service_one_frame:
  assumes "rx_wf s" and "rx_pending s = uart_frame v t ps" and "length ps \<le> 4096"
    and "\<And>buf. at_offset buf 0 (uart_frame v t ps) \<Longrightarrow> handler buf 0 g = Inr g'"
  shows "\<exists>s'. wifi_uart_service handler s g = Inr (s', g') \<and> rx_pending s' = []"
proof -
  have "\<exists>buf. map buf [0..<length (concat [uart_frame v t ps])] = concat [uart_frame v t ps] \<and>
    (case deliver handler buf 0 [uart_frame v t ps] g of
       Inl e \<Rightarrow> wifi_uart_service handler s g = Inl e
     | Inr g' \<Rightarrow> \<exists>s'. wifi_uart_service handler s g = Inr (s', g') \<and> rx_wf s' \<and> rx_pending s' = [])"
    using assms(1-3) by (intro service_frames) (auto intro!: exI)
  then obtain buf where buf: "map buf [0..<length (uart_frame v t ps)] = uart_frame v t ps" and
    ok: "case deliver handler buf 0 [uart_frame v t ps] g of
       Inl e \<Rightarrow> wifi_uart_service handler s g = Inl e
     | Inr g' \<Rightarrow> \<exists>s'. wifi_uart_service handler s g = Inr (s', g') \<and> rx_wf s' \<and> rx_pending s' = []" by auto
  from buf have "at_offset buf 0 (uart_frame v t ps)" by (simp add: at_offset_map)
  from assms(4) [OF this] ok show ?thesis by auto
qed

lemma service_controls:
  assumes "rx_wf s"
    and "rx_pending s = uart_frame v 0x0c (issue_payload (sprintf_ld k) (concat (map control_point xs)))"
    and "length xs \<le> 800"
  shows "\<exists>s'. wifi_uart_service data_handle s g =
    Inr (s', fold (control_valve (sprintf_ld k) (word_of_nat (length (sprintf_ld k)))) xs g) \<and> rx_pending s' = []"
proof (rule service_one_frame [OF assms(1,2)])
  have "length (concat (map control_point xs)) = 5 * length xs"
    by (induction xs) (simp_all add: length_control_point)
  with sprintf_ld_length [of k] assms(3)
  show "length (issue_payload (sprintf_ld k) (concat (map control_point xs))) \<le> 4096" by (simp add: issue_payload_def)
  fix buf
  assume "at_offset buf 0 (uart_frame v 12 (issue_payload (sprintf_ld k) (concat (map control_point xs))))"
  from data_issued_controls [OF this, of g] sprintf_ld_length [of k] assms(3)
  show "data_handle buf 0 g = Inr (fold (control_valve (sprintf_ld k) (word_of_nat (length (sprintf_ld k)))) xs g)" by simp
qed

lemma control_messages:
  "fold (\<lambda>x. GatewayDataEnqueue k 0 0 2 (if x = 0 then 0 else 1)) xs r =
     fold radio_enqueue (map (\<lambda>x. Gateway_Msg k 0 0 2 (if x = 0 then 0 else 1)) xs) r"
  by (induction xs arbitrary: r) simp_all

text \<open>Property C2. Commands of the app end to end: when the bytes waiting on the serial line are a frame
  with switch commands for device \<open>k\<close>, one run of the service appends one radio message to \<open>k\<close>
  for each of them to the send queue, in their order (0 closes, anything else opens the valve), as far as
  the thirty entries of the queue reach: the commands beyond them are dropped. Each new state, of a dropped
  command too, is reported back, and the device table and the rest of the radio are left alone.\<close>

theorem app_command_reaches_radio:
  assumes "rx_wf s"
    and "rx_pending s = uart_frame v 0x0c (issue_payload (sprintf_ld k) (concat (map control_point xs)))"
    and "length xs \<le> 800" and "queue_wf (rf g)"
  shows "\<exists>s' g'. wifi_uart_service data_handle s g = Inr (s', g') \<and> rx_pending s' = [] \<and> dev g' = dev g \<and>
    queued (rf g') = queued (rf g) @
      take (30 - unat (TargetNum (Queue_433 (rf g)))) (map (\<lambda>x. Gateway_Msg k 0 0 2 (if x = 0 then 0 else 1)) xs) \<and>
    queue_wf (rf g') \<and> queue_only (rf g) (rf g') \<and>
    uart_out (wifi g') = uart_out (wifi g) @
      concat (map (\<lambda>x. dp_report (wifi g) (sprintf_ld k) (word_of_nat (length (sprintf_ld k)))
        DPID_CONTROL_STATE DP_TYPE_BOOL [if x = 0 then 0 else 1]) xs)"
proof -
  let ?sub = "sprintf_ld k" and ?l = "word_of_nat (length (sprintf_ld k)) :: u8"
  let ?ms = "map (\<lambda>x. Gateway_Msg k 0 0 2 (if x = 0 then 0 else 1)) xs" and ?g = "fold (control_valve ?sub ?l) xs g"
  note run = service_controls [OF assms(1-3), of g]
  have l: "unat ?l \<le> length ?sub"
    using sprintf_ld_length [of k] by (simp add: unsigned_of_nat take_bit_nat_eq_self)
  have rf: "rf ?g = fold radio_enqueue ?ms (rf g)"
    using control_valve_effect(1) [where sub = ?sub and l = ?l and xs = xs and g = g] control_messages [of k xs "rf g"] by simp
  have "queue_wf (rf ?g)" unfolding rf feed_fold [symmetric] by (rule radio_fifo.feed_invar [OF assms(4)])
  moreover have "queued (rf ?g) = queued (rf g) @ take (30 - unat (TargetNum (Queue_433 (rf g)))) ?ms"
    unfolding rf by (rule enqueue_contents [OF assms(4)])
  moreover have "queue_only (rf g) (rf ?g)" unfolding rf by (rule queue_only_fold)
  ultimately show ?thesis
    using control_valve_effect(2,3) [where sub = ?sub and l = ?l and xs = xs and g = g] run l by auto
qed

text \<open>A gateway on which the app opens the valve of main unit 10000001.\<close>

definition waiting :: "bytes \<Rightarrow> uart_rx" where
  "waiting bs = \<lparr>wifi_uart_rx_buf = (\<lambda>_. 0), queue_in = 0, queue_out = 0,
     wifi_data_process_buf = (\<lambda>i. if i < length bs then bs ! i else 0), rx_in = length bs\<rparr>"

lemma waiting_rx:
  assumes "length bs \<le> 4103"
  shows "rx_wf (waiting bs)" "rx_pending (waiting bs) = bs"
proof -
  show "rx_wf (waiting bs)" using assms by (simp add: rx_wf_def waiting_def)
  have "map (\<lambda>i. if i < length bs then bs ! i else 0) [0..<length bs] = bs" by (rule nth_equalityI) simp_all
  then show "rx_pending (waiting bs) = bs" by (simp add: rx_pending_def rx_contents_def waiting_def)
qed

theorem app_command_reaches_radio_witness:
  "\<exists>s' g'. wifi_uart_service data_handle
      (waiting (uart_frame 0 0x0c (issue_payload (sprintf_ld 10000001) (control_point 1)))) small_gateway = Inr (s', g') \<and>
    queued (rf g') = [Gateway_Msg 10000001 0 0 2 1]"
proof -
  let ?f = "uart_frame 0 0x0c (issue_payload (sprintf_ld 10000001) (concat (map control_point [1])))"
  have "length ?f \<le> 4103"
    using sprintf_ld_length [of 10000001] by (simp add: issue_payload_def length_control_point)
  have q: "queue_wf (rf small_gateway)" "queued (rf small_gateway) = []" "TargetNum (Queue_433 (rf small_gateway)) = 0"
    using small_gateway_wf by (simp_all add: gateway_wf_def small_gateway_def idle_gateway_def idle_radio_def queued_def)
  from app_command_reaches_radio [OF waiting_rx [OF \<open>length ?f \<le> 4103\<close>], of small_gateway] q show ?thesis by auto
qed

theorem serial_input_wf_witness:
  "\<exists>s' g'. service_callback data_handle True
      (waiting (uart_frame 0 0x0c (issue_payload (sprintf_ld 10000001) (control_point 1))), small_gateway) = Inr (s', g') \<and>
    gateway_wf g' \<and> rx_wf s'"
proof -
  let ?f = "uart_frame 0 0x0c (issue_payload (sprintf_ld 10000001) (concat (map control_point [1])))"
  have "length ?f \<le> 4103"
    using sprintf_ld_length [of 10000001] by (simp add: issue_payload_def length_control_point)
  from service_controls [OF waiting_rx [OF this], of small_gateway]
  show ?thesis
    using serial_input_wf [OF small_gateway_wf, of True "waiting ?f"] waiting_rx(1) [OF \<open>length ?f \<le> 4103\<close>]
    by (auto simp: service_callback_def)
qed

text \<open>A process buffer with one frame at its start.\<close>

definition framed :: "u8 \<Rightarrow> bytes \<Rightarrow> memory" where
  "framed cmd ps i = (let f = uart_frame 0 cmd ps in if i < length f then f ! i else 0)"

lemma framed_at: "at_offset (framed cmd ps) 0 (uart_frame 0 cmd ps)"
  by (simp add: at_offset_def framed_def)

section \<open>A command that never ends\<close>

lemma issued_points_loop:
  assumes "i < n" and "data + unat i + 4 \<le> 4103" and "data_point_handle buf (data + unat i) s l g = Inr (r, g)"
    and "frame_half buf (data + unat i + 2) + 4 = 0"
  shows "issued_points buf data n s l i g = None"
proof (rule ccontr)
  let ?here = "(buf, data, n, s, l, i, g)"
  let ?P = "\<lambda>buf data n s l i g (r :: c_fault + gateway). (buf, data, n, s, l, i, g) \<noteq> ?here"
  assume "issued_points buf data n s l i g \<noteq> None"
  then obtain x where "issued_points buf data n s l i g = Some x" by blast
  then have "?P buf data n s l i g x"
  proof (rule issued_points.raw_induct [where P = ?P, rotated])
    fix rec buf' data' n' s' l' i' g' x
    assume IH: "\<And>buf data n s l i g r. rec buf data n s l i g = Some r \<Longrightarrow> ?P buf data n s l i g r"
      and eq: "(if i' < n' then
          (let at = data' + unat i' in
           if 4103 < at + 4 then Some (Inl Out_Of_Bounds)
           else case data_point_handle buf' at s' l' g' of
             Inl e \<Rightarrow> Some (Inl e)
           | Inr (ret, g) \<Rightarrow> rec buf' data' n' s' l' (i' + (frame_half buf' (at + 2) + 4)) g)
        else Some (Inr g')) = Some x"
    show "?P buf' data' n' s' l' i' g' x"
    proof
      assume "(buf', data', n', s', l', i', g') = ?here"
      with eq assms have "rec buf data n s l i g = Some x" by (simp add: Let_def)
      from IH [OF this] show False by simp
    qed
  qed
  then show False by simp
qed

text \<open>Property C36. A data point with the length 0xFFFC hangs the gateway: the 16-bit index of the loop
  comes back to where it was, for every data point the table knows but the gateway does not act on,
  and the service thread never returns.\<close>

theorem issued_endless_loop:
  assumes "at_offset buf off (uart_frame v 0x0c (issue_payload sub [d, ty, 0xff, 0xfc]))"
    and "length sub \<le> 50" and "off + 12 + length sub \<le> 4103"
    and "d \<in> set (map fst download_cmd)" and "d \<noteq> DPID_CONTROL_STATE"
  shows "data_handle buf off g = Inl Endless_Loop"
proof -
  let ?ps = "issue_payload sub [d, ty, 0xff, 0xfc]"
  let ?l = "word_of_nat (length sub) :: u8"
  have len: "length ?ps = 5 + length sub" by (simp add: issue_payload_def)
  then have le: "length ?ps \<le> 4096" using assms(2) by simp
  note f = frame_fields [OF assms(1) le]
  have l: "unat ?l = length sub" using assms(2) by (simp add: unsigned_of_nat take_bit_nat_eq_self)
  have seven: "off + 6 + 1 = off + 7" by simp
  have "at_offset buf (off + 6) ?ps" unfolding at_offset_def using f(3) by simp
  then have parts: "buf (off + 6) = ?l" "at_offset buf (off + 7) (bytes_of sub)"
    "at_offset buf (off + 7 + length sub) [d, ty, 0xff, 0xfc]"
    unfolding issue_payload_def at_offset_Cons at_offset_append seven by simp_all
  let ?i = "1 + ucast ?l :: u16" and ?at = "off + 7 + length sub"
  have i: "unat ?i = 1 + length sub" using unat16_add [of 1 "ucast ?l"] l assms(2) by simp
  have at: "off + 6 + unat ?i = ?at" using i by simp
  have b: "buf ?at = d" "buf (?at + 2) = 0xff" "buf (?at + 3) = 0xfc"
    using parts(3) by (auto simp: at_offset_def less_Suc_eq numeral_eq_Suc)
  have three: "?at + 2 + 1 = ?at + 3" by simp
  have half: "frame_half buf (?at + 2) + 4 = 0" unfolding frame_half_def three b by simp
  from assms(4,5) have "\<exists>r. data_point_handle buf ?at sub ?l g = Inr (r, g)"
    by (auto simp: data_point_handle_def b(1) get_dowmload_dpid_index_def get_download_cmd_total_def download_cmd_def
        dp_download_handle_def Let_def)
  then obtain r where r: "data_point_handle buf ?at sub ?l g = Inr (r, g)" by blast
  have "?i < frame_total_len buf off"
    using i f(2) frame_len_unat [OF le] len by (simp add: word_less_nat_alt)
  then have "issued_points buf (off + 6) (frame_total_len buf off) sub ?l ?i g = None"
    by (rule issued_points_loop) (unfold at, use r half assms(3) in auto)
  moreover have "chars_at buf (off + 6 + 1) (unat ?l) = sub"
    unfolding seven using chars_at_bytes [OF parts(2)] l by simp
  ultimately show ?thesis
    using f(1) parts(1) l assms(2,3)
    by (simp add: data_handle_def data_issued_def with_sub_id_def need_def Let_def)
qed

theorem issued_endless_loop_witness:
  "data_handle (framed 0x0c (issue_payload ''10000001'' [101, 1, 0xff, 0xfc])) 0 small_gateway = Inl Endless_Loop"
  by (rule issued_endless_loop [OF framed_at]) (simp_all add: download_cmd_def)

section \<open>Requests in JSON\<close>

text \<open>The text of a request to remove a device, with the identifier as a string, as the module sends it,
  or as a number.\<close>

definition remove_text :: "string \<Rightarrow> u8 \<Rightarrow> string" where
  "remove_text sid n = ''{'' @ [QUOTE] @ ''sub_id'' @ [QUOTE] @ '':'' @ sid @ '','' @
     [QUOTE] @ ''tp'' @ [QUOTE] @ '':'' @ (if n = 0 then ''0'' else dec_nat (unat n)) @ ''}''"





text \<open>The numbers of JSON: a sign, an integer part without leading zeros, a fraction, an exponent.\<close>

definition json_int :: "string \<Rightarrow> bool" where
  "json_int s \<longleftrightarrow> s = ''0'' \<or> s \<noteq> [] \<and> list_all is_digit s \<and> hd s \<noteq> CHR ''0''"

definition json_frac :: "string \<Rightarrow> bool" where
  "json_frac s \<longleftrightarrow> (case s of [] \<Rightarrow> True | c # ds \<Rightarrow> c = CHR ''.'' \<and> ds \<noteq> [] \<and> list_all is_digit ds)"

definition json_exp :: "string \<Rightarrow> bool" where
  "json_exp s \<longleftrightarrow> (case s of [] \<Rightarrow> True | c # r \<Rightarrow> (c = CHR ''e'' \<or> c = CHR ''E'') \<and>
     (let ds = (case r of [] \<Rightarrow> [] | x # r' \<Rightarrow> if x = CHR ''+'' \<or> x = CHR ''-'' then r' else r)
      in ds \<noteq> [] \<and> list_all is_digit ds))"

definition json_number :: "string \<Rightarrow> bool" where
  "json_number s \<longleftrightarrow> (\<exists>i f e. (s = i @ f @ e \<or> s = CHR ''-'' # i @ f @ e) \<and> json_int i \<and> json_frac f \<and> json_exp e)"

definition no_digit :: "string \<Rightarrow> bool" where
  "no_digit s \<longleftrightarrow> (case s of [] \<Rightarrow> True | c # _ \<Rightarrow> \<not> is_digit c)"

lemma scan_digits: "list_all is_digit ds \<Longrightarrow> no_digit rest \<Longrightarrow> \<exists>n. scan_nat a (ds @ rest) = (n, rest)"
  using scan_nat_digits [of ds a rest] scan_nat_stop [of rest] by (simp add: list_all_iff no_digit_def)

lemma number_int_read:
  assumes "json_int i" "no_digit rest"
  shows "\<exists>n. number_int (i @ rest) = (n, rest)"
proof (cases "i = ''0''")
  case True
  then show ?thesis using assms(2) by (auto simp: number_int_def no_digit_def split: list.split)
next
  case False
  then obtain c ds where i: "i = c # ds" "is_digit c" "c \<noteq> CHR ''0''" "list_all is_digit i"
    using assms(1) by (cases i) (auto simp: json_int_def)
  then show ?thesis using scan_digits [OF i(4) assms(2), of 0] by (simp add: number_int_def del: scan_nat.simps)
qed

lemma number_frac_read:
  assumes "json_frac f" "no_digit rest" "\<not> (\<exists>t. rest = CHR ''.'' # t)"
  shows "\<exists>m k. number_frac n (f @ rest) = (m, k, rest)"
proof (cases f)
  case Nil
  then show ?thesis using assms(3) by (auto simp: number_frac_def split: list.split)
next
  case (Cons c ds)
  then obtain d ds' where d: "c = CHR ''.''" "ds = d # ds'" "is_digit d" "list_all is_digit ds"
    using assms(1) by (cases ds) (auto simp: json_frac_def)
  then show ?thesis using Cons scan_digits [OF d(4) assms(2), of n] by (auto simp: number_frac_def simp del: scan_nat.simps)
qed

lemma number_exp_read:
  assumes "json_exp e" "json_end rest"
  shows "\<exists>k. number_exp (e @ rest) = (k, rest)"
proof (cases e)
  case Nil
  then show ?thesis using assms(2) by (auto simp: number_exp_def json_end_def split: list.split)
next
  case (Cons c r)
  have nd: "no_digit rest" using json_end_no_digit [OF assms(2)] by (simp add: no_digit_def)
  obtain x r' where r: "r = x # r'" using assms(1) Cons by (cases r) (auto simp: json_exp_def)
  let ?ds = "if x = CHR ''+'' \<or> x = CHR ''-'' then r' else r"
  have "c = CHR ''e'' \<or> c = CHR ''E''" "list_all is_digit ?ds" using assms(1) Cons r by (auto simp: json_exp_def Let_def)
  then show ?thesis using Cons r scan_digits [OF _ nd, of ?ds 0] by (auto simp: number_exp_def split: if_splits)
qed

lemma json_starts:
  "json_exp e \<Longrightarrow> json_end rest \<Longrightarrow> no_digit (e @ rest) \<and> \<not> (\<exists>t. e @ rest = CHR ''.'' # t)"
  "json_frac f \<Longrightarrow> no_digit r \<Longrightarrow> no_digit (f @ r)"
  by (cases e; cases rest; auto simp: json_exp_def no_digit_def json_end_def is_digit_def)
    (cases f; auto simp: json_frac_def no_digit_def is_digit_def)

lemma json_number_read:
  assumes "json_number p" "json_end rest"
  shows "\<exists>i d. parse_number (p @ rest) = (CJSON cJSON_Number None i d None [], rest)"
    and "\<exists>c r. p = c # r \<and> (c = CHR ''-'' \<or> is_digit c)"
proof -
  obtain i f e where p: "p = i @ f @ e \<or> p = CHR ''-'' # i @ f @ e" and ok: "json_int i" "json_frac f" "json_exp e"
    using assms(1) by (auto simp: json_number_def)
  note st = json_starts(1) [OF ok(3) assms(2)]
  obtain n where n: "number_int (i @ f @ e @ rest) = (n, f @ e @ rest)"
    using number_int_read [OF ok(1) json_starts(2) [OF ok(2)]] st by blast
  obtain m k where m: "number_frac n (f @ e @ rest) = (m, k, e @ rest)" using number_frac_read [OF ok(2)] st by blast
  obtain x where x: "number_exp (e @ rest) = (x, rest)" using number_exp_read [OF ok(3) assms(2)] by blast
  obtain c r where i: "i = c # r" "is_digit c" using ok(1) by (cases i) (auto simp: json_int_def is_digit_def)
  then have "c \<noteq> CHR ''-''" by (auto simp: is_digit_def)
  then have sg: "number_sign (i @ t) = (False, i @ t)" "number_sign (CHR ''-'' # t) = (True, t)" for t
    by (simp_all add: i(1) number_sign_def)
  show "\<exists>i d. parse_number (p @ rest) = (CJSON cJSON_Number None i d None [], rest)"
    using p n m x sg(1) [of "f @ e @ rest"] sg(2) [of "i @ f @ e @ rest"] by (auto simp: parse_number_def Let_def)
  show "\<exists>c r. p = c # r \<and> (c = CHR ''-'' \<or> is_digit c)" using p i by auto
qed

lemma number_value_read:
  assumes "json_number p" "json_end rest"
  shows "\<exists>i d. parse_value (Suc m) (p @ rest) = Inr (Some (CJSON cJSON_Number None i d None [], rest))"
    and "json_skip (p @ rest) = p @ rest"
proof -
  obtain c r where p: "p = c # r" "c = CHR ''-'' \<or> is_digit c" using json_number_read(2) [OF assms] by blast
  note c = digit_start [OF p(2)]
  have "parse_value (Suc m) (p @ rest) = parse_punct m c (r @ rest) (p @ rest)" using p(1) c by (intro parse_value_start) simp_all
  then show "\<exists>i d. parse_value (Suc m) (p @ rest) = Inr (Some (CJSON cJSON_Number None i d None [], rest))"
    using json_number_read(1) [OF assms] c p(2) by (auto simp: parse_punct_def)
  show "json_skip (p @ rest) = p @ rest" using p(1) c by (simp add: json_skip_def)
qed

text \<open>One member of an object whose value is a number.\<close>

lemma number_member_read:
  assumes "json_plain k" "json_number p" "json_end rest"
  obtains i d where "\<And>f. parse_members (Suc (Suc m)) (print_string_ptr k @ CHR '':'' # p @ rest) =
    (let c = CJSON cJSON_Number None i d (Some k) [] in
     if take 1 rest = '','' then parse_then (parse_members (Suc m) (drop 1 rest)) (\<lambda>cs rest. Inr (Some (c # cs, rest)))
     else Inr (Some ([c], rest)))"
proof -
  obtain i d where id: "parse_value (Suc m) (p @ rest) = Inr (Some (CJSON cJSON_Number None i d None [], rest))"
    using number_value_read(1) [OF assms(2,3)] by blast
  have key: "json_skip (print_string_ptr k @ CHR '':'' # p @ rest) = print_string_ptr k @ CHR '':'' # p @ rest"
    by (rule json_skip_start [OF print_string_ptr_start])
  have colon: "json_skip (CHR '':'' # p @ rest) = CHR '':'' # p @ rest" by (simp add: json_skip_def)
  show thesis
    by (rule that [of i d])
      (simp only: parse_members.simps(2) key parse_string_print [OF assms(1)] parse_then_Inr colon Let_def,
       simp add: number_value_read(2) [OF assms(2,3)] id set_item_string_def assms(3) del: parse_value.simps parse_members.simps)
qed

lemma remove_text_members:
  "remove_text p n = CHR ''{'' # print_string_ptr ''sub_id'' @ CHR '':'' # p @ CHR '','' # print_string_ptr ''tp'' @ CHR '':'' #
     (if n = 0 then ''0'' else dec_nat (unat n)) @ ''}''"
  by (simp add: remove_text_def print_string_ptr_def needs_escape_def)

lemma u8_number: "json_number (if n = 0 then ''0'' else dec_nat (unat (n :: u8)))"
proof -
  have "n \<noteq> 0 \<Longrightarrow> hd (dec_nat (unat n)) \<noteq> CHR ''0''" using dec_nat_hd [of "unat n"] by (simp add: unat_gt_0)
  then have "json_int (if n = 0 then ''0'' else dec_nat (unat n))" using dec_nat_digits by (auto simp: json_int_def list_all_iff)
  then show ?thesis unfolding json_number_def
    by (intro exI [of _ "if n = 0 then ''0'' else dec_nat (unat n)"] exI [of _ "[]"]) (simp add: json_frac_def json_exp_def)
qed

lemma remove_number_parses:
  assumes "json_number p"
  shows "\<exists>i d j e. cJSON_Parse (remove_text p n) = Inr (Some (CJSON cJSON_Object None 0 (Dec False 0 0) None
    [CJSON cJSON_Number None i d (Some ''sub_id'') [], CJSON cJSON_Number None j e (Some ''tp'') []]))"
proof -
  let ?q = "if n = 0 then ''0'' else dec_nat (unat n)"
  let ?tail = "print_string_ptr ''tp'' @ CHR '':'' # ?q @ ''}''"
  let ?body = "print_string_ptr ''sub_id'' @ CHR '':'' # p @ CHR '','' # ?tail"
  have plain: "json_plain ''sub_id''" "json_plain ''tp''" by (simp_all add: json_plain_def)
  have ends: "json_end (CHR '','' # ?tail)" "json_end ''}''" by simp_all
  define m where "m = 2 * length (remove_text p n) - 2"
  have fuel: "2 * length (remove_text p n) + 2 = Suc (Suc (Suc (Suc m)))" by (simp add: m_def remove_text_def)
  obtain i d where 1: "parse_members (Suc (Suc (Suc m))) ?body = (let c = CJSON cJSON_Number None i d (Some ''sub_id'') [] in
     if take 1 (CHR '','' # ?tail) = '','' then parse_then (parse_members (Suc (Suc m)) (drop 1 (CHR '','' # ?tail))) (\<lambda>cs rest. Inr (Some (c # cs, rest)))
     else Inr (Some ([c], CHR '','' # ?tail)))"
    using number_member_read [OF plain(1) assms ends(1)] by metis
  obtain j e where 2: "parse_members (Suc (Suc m)) ?tail = (let c = CJSON cJSON_Number None j e (Some ''tp'') [] in
     if take 1 ''}'' = '','' then parse_then (parse_members (Suc m) (drop 1 ''}'')) (\<lambda>cs rest. Inr (Some (c # cs, rest)))
     else Inr (Some ([c], ''}'')))"
    using number_member_read [OF plain(2) u8_number [of n] ends(2)] by metis
  have both: "parse_members (Suc (Suc (Suc m))) ?body = Inr (Some ([CJSON cJSON_Number None i d (Some ''sub_id'') [],
      CJSON cJSON_Number None j e (Some ''tp'') []], ''}''))"
    unfolding 1 Let_def using 2 by (simp del: parse_members.simps)
  have skip: "json_skip ?body = ?body" "take 1 ?body = [QUOTE]" "json_skip (remove_text p n) = remove_text p n"
    using json_skip_start [OF print_string_ptr_start] by (simp_all add: print_string_ptr_escape remove_text_def json_skip_def)
  have "parse_value (Suc (Suc (Suc (Suc m)))) (remove_text p n) = parse_punct (Suc (Suc (Suc m))) (CHR ''{'') ?body (remove_text p n)"
    by (intro parse_value_start) (simp_all add: remove_text_members)
  also have "\<dots> = Inr (Some (CJSON cJSON_Object None 0 (Dec False 0 0) None
    [CJSON cJSON_Number None i d (Some ''sub_id'') [], CJSON cJSON_Number None j e (Some ''tp'') []], []))"
    unfolding parse_punct_def Let_def skip(1) skip(2) both by (simp add: is_digit_def)
  finally show ?thesis unfolding cJSON_Parse_def cJSON_ParseWithOpts_def fuel skip(3) by (auto simp del: parse_value.simps)
qed



lemma payload_text_frame:
  assumes "at_offset buf off (uart_frame v t (bytes_of msg))" and "length msg < 2048" and "off + length (uart_frame v t (bytes_of msg)) \<le> 4103"
    and "\<And>c. c \<in> set msg \<Longrightarrow> of_char c \<noteq> (0 :: nat)"
  shows "payload_text buf (off + 6) (frame_total_len buf off) = Inr msg"
proof -
  have len: "length (bytes_of msg) \<le> 4096" using assms(2) by simp
  note f = frame_fields [OF assms(1) len]
  have n: "unat (frame_total_len buf off) = length msg" using f(2) frame_len_unat [OF len] by simp
  have "at_offset buf (off + 6) (bytes_of msg)" unfolding at_offset_def using f(3) by simp
  from chars_at_bytes [OF this] have "chars_at buf (off + 6) (unat (frame_total_len buf off)) = msg" using n by simp
  with assms(2-4) n show ?thesis by (simp add: payload_text_def need_def takeWhile_eq_all_conv)
qed

lemma dec_nat_no_nul: "c \<in> set (dec_nat n) \<Longrightarrow> of_char c \<noteq> (0 :: nat)"
  using dec_nat_digits [of c n] by (auto simp: is_digit_def)

lemma remove_text_frame:
  assumes "at_offset buf off (uart_frame v 0x09 (bytes_of (remove_text sid n)))" and "length sid \<le> 2000"
    and "off + length (uart_frame v 0x09 (bytes_of (remove_text sid n))) \<le> 4103"
    and "\<And>c. c \<in> set sid \<Longrightarrow> of_char c \<noteq> (0 :: nat)"
  shows "data_handle buf off g =
    (case subdevice_delete (remove_text sid n) g of Inl e \<Rightarrow> Inl e | Inr g \<Rightarrow> Inr (answer 0x09 g))"
proof -
  have "length (dec_nat (unat n)) \<le> Suc 2" using u8_lt [of n] by (intro dec_nat_length) simp
  then have len: "length (remove_text sid n) < 2048" using assms(2) by (simp add: remove_text_def)
  have "of_char c \<noteq> (0 :: nat)" if "c \<in> set (remove_text sid n)" for c
    using that assms(4) dec_nat_no_nul by (auto simp: remove_text_def split: if_splits)
  from payload_text_frame [OF assms(1) len assms(3) this] frame_fields(1) [OF assms(1)] len
  show ?thesis by (simp add: data_handle_def with_text_def Let_def)
qed






lemma framed_fits: "length ps \<le> 4096 \<Longrightarrow> 0 + length (uart_frame 0 cmd ps) \<le> PROCESS_SIZE"
  by simp

lemma remove_text_length: "length (remove_text p n) \<le> length p + 30"
proof -
  have "length (dec_nat (unat n)) \<le> Suc 2" using u8_lt [of n] by (intro dec_nat_length) simp
  then show ?thesis by (simp add: remove_text_def)
qed


lemma json_number_no_nul: "json_number p \<Longrightarrow> c \<in> set p \<Longrightarrow> of_char c \<noteq> (0 :: nat)"
proof -
  have digits: "list_all is_digit ds \<Longrightarrow> c \<in> set ds \<Longrightarrow> of_char c \<noteq> (0 :: nat)" for ds
    by (auto simp: list_all_iff is_digit_def)
  have "json_int i \<Longrightarrow> c \<in> set i \<Longrightarrow> of_char c \<noteq> (0 :: nat)" for i using digits by (auto simp: json_int_def)
  moreover have "json_frac f \<Longrightarrow> c \<in> set f \<Longrightarrow> of_char c \<noteq> (0 :: nat)" for f
    using digits by (cases f) (auto simp: json_frac_def)
  moreover have "json_exp e \<Longrightarrow> c \<in> set e \<Longrightarrow> of_char c \<noteq> (0 :: nat)" for e
    using digits digits [of "[c]"] by (cases e; cases "tl e") (auto simp: json_exp_def Let_def split: if_splits)
  ultimately show "json_number p \<Longrightarrow> c \<in> set p \<Longrightarrow> of_char c \<noteq> (0 :: nat)" by (fastforce simp: json_number_def)
qed

text \<open>Property C37. A request to remove a device whose identifier is a number instead of a string stops the
  gateway, whatever number of JSON it is (eight-digit identifiers, negative numbers, fractions, exponents): the
  JSON text is well formed, the item has no string, and \<open>atol\<close> reads through the null pointer.\<close>

theorem delete_number_null:
  assumes "json_number p" "length p \<le> 2000"
    and "at_offset buf off (uart_frame v 0x09 (bytes_of (remove_text p n)))"
    and "off + length (uart_frame v 0x09 (bytes_of (remove_text p n))) \<le> PROCESS_SIZE"
  shows "data_handle buf off g = Inl Null_Pointer"
proof -
  have "subdevice_delete (remove_text p n) g = Inl Null_Pointer"
    using remove_number_parses [OF assms(1), of n] by (auto simp: subdevice_delete_def cJSON_GetObjectItem_def tolower_def)
  then show ?thesis using remove_text_frame [OF assms(3,2,4)] json_number_no_nul [OF assms(1)] by simp
qed

theorem delete_number_null_witness:
  "data_handle (framed 0x09 (bytes_of (remove_text ''20000001'' 0))) 0 small_gateway = Inl Null_Pointer"
proof -
  have "json_number ''20000001''"
    unfolding json_number_def
    by (intro exI [of _ "''20000001''"] exI [of _ "[]"]) (simp add: json_int_def json_frac_def json_exp_def is_digit_def)
  moreover have "length (bytes_of (remove_text ''20000001'' 0)) \<le> 4096" using remove_text_length [of "''20000001''" 0] by simp
  ultimately show ?thesis using delete_number_null [OF _ _ framed_at framed_fits] by simp
qed

text \<open>A frame that announces 0xFFFD bytes passes the check of its size, which wraps to 4, and a handler that
  copies the payload leaves its stack and the process buffer.\<close>

lemma announced_length_overflows:
  assumes "frame_total_len buf off \<ge> 2048" "buf (off + FRAME_TYPE) \<in> {0x09, 0x0a, 0x21}"
  shows "data_handle buf off g = Inl Out_Of_Bounds"
proof -
  have "unat (frame_total_len buf off) + 1 > 2048" using assms(1) by (simp add: word_le_nat_alt)
  then show ?thesis using assms(2) by (auto simp: data_handle_def with_text_def payload_text_def Let_def)
qed

lemma announced_length_stops_service:
  assumes "rx_wf s" and "rx_pending s = [0x55, 0xaa, 0x0a, 0x09, 0xff, 0xfd, x]"
  shows "wifi_uart_service data_handle s g = Inl Out_Of_Bounds"
proof -
  let ?b = "wifi_data_process_buf (rx_fill s)"
  note fill = rx_fill_all [OF assms(1), unfolded assms(2)]
  have "at_offset ?b 0 [0x55, 0xaa, 0x0a, 0x09, 0xff, 0xfd, x]" using fill(3) by (simp add: at_offset_map)
  then have b: "?b 0 = 0x55" "?b 1 = 0xaa" "?b 2 = 0x0a" "?b 3 = 0x09" "?b 4 = 0xff" "?b 5 = 0xfd"
    by (simp_all add: at_offset_def numeral_eq_Suc less_Suc_eq all_conj_distrib)
  then have len: "rx_value_len ?b 0 = 4" by (simp add: rx_value_len_def)
  have three: "[0..<3] = [0, 1, 2 :: nat]" by code_simp
  have sum: "get_check_sum ?b 0 3 = ?b 3" unfolding get_check_sum_def three using b by simp
  have "frame_total_len ?b 0 = 0xfffd" using b by (simp add: frame_total_len_def frame_half_def)
  then have "data_handle ?b 0 g = Inl Out_Of_Bounds" using b(4) by (intro announced_length_overflows) simp_all
  with b len sum have "rx_scan data_handle ?b 7 0 g = Inl Out_Of_Bounds"
    by (simp add: rx_scan.simps [of data_handle ?b 7 0 g] Let_def)
  moreover have "rx_in (rx_fill s) = 7" using fill(2) by simp
  ultimately show ?thesis by (simp add: wifi_uart_service_def Let_def)
qed

end
