(* ===== verification/Subdev_List.thy ===== *)
theory Subdev_List
  imports Commands
begin

unbundle bit_operations_syntax

text \<open>
  The list of sub-devices the WiFi module sends after the gateway has come online
  (\<open>local_subdev_list\<close> of \<open>src/wifi/protocol.c\<close>): the identifiers end up in \<open>Remote_Device\<close> as sent, as
  long as the list is no longer than the 8-bit offset of the loop can tell.
\<close>

section \<open>Numbers in buffers\<close>

lemma strtol_rest: "strtol s = Some (v, rest) \<Longrightarrow> atol_runs_out s \<longleftrightarrow> rest = []"
  by (auto simp: strtol_def atol_runs_out_def split: prod.splits list.splits if_splits)

lemma atol_terminated:
  assumes "\<not> is_digit c"
  shows "atol (sprintf_ld k @ c # rest) = k" and "\<not> atol_runs_out (sprintf_ld k @ c # rest)"
proof -
  have s: "strtol (sprintf_ld k @ c # rest) = Some (sint k, c # rest)"
    using assms by (intro strtol_sprintf_ld) simp
  then show "atol (sprintf_ld k @ c # rest) = k" by (simp add: atol_def)
  from strtol_rest [OF s] show "\<not> atol_runs_out (sprintf_ld k @ c # rest)" by simp
qed

section \<open>One node\<close>

definition list_node :: "u32 \<Rightarrow> bytes" where
  "list_node k = word_of_nat (length (sprintf_ld k)) # bytes_of (sprintf_ld k)"

lemma length_list_node: "length (list_node k) = length (sprintf_ld k) + 1"
  by (simp add: list_node_def)

text \<open>The text of a node in the zeroed array: the identifier, then zeros.\<close>

lemma node_text:
  assumes "at_offset buf at (list_node k)" and "\<forall>j \<ge> 33 * i. m j = 0" and "i < num"
  defines "m' \<equiv> blit m (33 * i) (\<lambda>j. buf (at + j)) (length (sprintf_ld k) + 1)"
  shows "\<exists>rest. chars_at m' (33 * i + 1) (33 * num - (33 * i + 1)) = sprintf_ld k @ CHR 0x00 # rest"
    and "\<forall>j \<ge> 33 * (i + 1). m' j = 0"
proof -
  let ?s = "sprintf_ld k" and ?n = "33 * num - (33 * i + 1)"
  have len: "length ?s \<le> 11" by (rule sprintf_ld_length)
  have ge: "33 * (i + 1) \<le> 33 * num" using assms(3) by simp
  have ntext: "chars_at buf (at + 1) (length ?s) = ?s"
    using assms(1) by (intro chars_at_bytes) (simp add: list_node_def at_offset_Cons)
  have split: "chars_at m' p (a + b) = chars_at m' p a @ chars_at m' (p + a) b" for p a b
    unfolding chars_at_def upt_add_eq_append [OF le0] map_append
    by (simp, rule nth_equalityI) (simp_all add: add.assoc)
  have head: "chars_at m' (33 * i + 1) (length ?s) = ?s"
  proof -
    have "m' (33 * i + 1 + x) = buf (at + 1 + x)" if "x < length ?s" for x
      using that by (simp add: m'_def blit_def add.assoc)
    then have "chars_at m' (33 * i + 1) (length ?s) = chars_at buf (at + 1) (length ?s)"
      by (simp add: chars_at_def)
    then show ?thesis using ntext by simp
  qed
  have "?n = length ?s + (Suc (?n - length ?s - 1))" using ge len by simp
  then have "chars_at m' (33 * i + 1) ?n = ?s @ chars_at m' (33 * i + 1 + length ?s) (Suc (?n - length ?s - 1))"
    using split [of "33 * i + 1" "length ?s"] head by metis
  moreover have "m' (33 * i + 1 + length ?s) = 0" using assms(2) by (simp add: m'_def blit_def)
  then have "chars_at m' (33 * i + 1 + length ?s) (Suc (?n - length ?s - 1)) =
      CHR 0x00 # chars_at m' (33 * i + 2 + length ?s) (?n - length ?s - 1)"
    by (simp add: chars_at_def char_of_byte_def char_of_def upt_conv_Cons map_Suc_upt [symmetric] del: upt_Suc)
  ultimately show "\<exists>rest. chars_at m' (33 * i + 1) ?n = ?s @ CHR 0x00 # rest" by auto
  show "\<forall>j \<ge> 33 * (i + 1). m' j = 0"
    using len assms(2) by (simp add: m'_def blit_def)
qed

section \<open>The whole list\<close>

definition remote_entry :: "u32 \<Rightarrow> gateway \<Rightarrow> gateway" where
  "remote_entry k g = g\<lparr>Remote_Device := (let r = Remote_Device g
     in r\<lparr>Remote_Num := Remote_Num r + 1, Remote_ID := (Remote_ID r)(unat (Remote_Num r + 1) := k)\<rparr>)\<rparr>"

lemma Remote_Device_Add_room:
  assumes "unat (Remote_Num (Remote_Device g)) + 1 < 50"
  shows "Remote_Device_Add k g = Inr (remote_entry k g)"
    and "unat (Remote_Num (Remote_Device (remote_entry k g))) = unat (Remote_Num (Remote_Device g)) + 1"
proof -
  have "unat (Remote_Num (Remote_Device g) + 1) = unat (Remote_Num (Remote_Device g)) + 1"
    using assms unat8_add [of "Remote_Num (Remote_Device g)" 1] by simp
  with assms show "Remote_Device_Add k g = Inr (remote_entry k g)"
    "unat (Remote_Num (Remote_Device (remote_entry k g))) = unat (Remote_Num (Remote_Device g)) + 1"
    by (simp_all add: Remote_Device_Add_def remote_entry_def Let_def)
qed

lemma subdev_nodes_list:
  assumes "at_offset buf (data + unat off) (concat (map list_node ks))" and "i + length ks = num"
    and "unat off + length (concat (map list_node ks)) \<le> 256"
    and "data + unat off + length (concat (map list_node ks)) \<le> 4103"
    and "\<forall>j \<ge> 33 * i. m j = 0" and "unat (Remote_Num (Remote_Device g)) + length ks < 50"
  shows "subdev_nodes buf data num i off m g = Inr (fold remote_entry ks g)"
  using assms
proof (induction ks arbitrary: i off m g)
  case Nil
  then show ?case by (simp add: subdev_nodes.simps)
next
  case (Cons k ks)
  let ?s = "sprintf_ld k" and ?at = "data + unat off"
  let ?m = "blit m (33 * i) (\<lambda>j. buf (?at + j)) (length ?s + 1)"
  let ?off = "off + (buf ?at + 1)"
  have len: "length ?s \<le> 11" by (rule sprintf_ld_length)
  have here: "at_offset buf ?at (list_node k)"
    and rest: "at_offset buf (?at + (length ?s + 1)) (concat (map list_node ks))"
    using Cons.prems(1) by (simp_all add: at_offset_append length_list_node)
  have b: "unat (buf ?at) = length ?s"
    using here len by (simp add: list_node_def at_offset_Cons unsigned_of_nat take_bit_nat_eq_self)
  have lt: "i < num" using Cons.prems(2) by simp
  obtain r where ntext: "chars_at ?m (33 * i + 1) (33 * num - (33 * i + 1)) = ?s @ CHR 0x00 # r"
    using node_text(1) [OF here Cons.prems(5) lt] by blast
  have nd: "\<not> is_digit (CHR 0x00)" by (simp add: is_digit_def)
  have fits: "\<not> (?at + (length ?s + 1) > 4103 \<or> 33 * i + (length ?s + 1) > 33 * num)"
    using Cons.prems(4) lt len by (auto simp: length_list_node)
  note add = Remote_Device_Add_room [of g k]
  have step: "subdev_nodes buf data num i off m g = subdev_nodes buf data num (i + 1) ?off ?m (remote_entry k g)"
    unfolding subdev_nodes.simps [of buf data num i off m g] Let_def b ntext
    using lt fits add(1) Cons.prems(6) atol_terminated [OF nd, of k r] by simp
  show ?case
  proof (cases ks)
    case Nil
    then show ?thesis unfolding step using Cons.prems(2) by (simp add: subdev_nodes.simps)
  next
    case (Cons k' ks')
    then have "unat off + (length ?s + 1) < 256" using Cons.prems(3) by (simp add: length_list_node)
    then have off: "unat ?off = unat off + (length ?s + 1)"
      using unat8_add [of "buf ?at" 1] unat8_add [of off "buf ?at + 1"] b by simp
    have "subdev_nodes buf data num (i + 1) ?off ?m (remote_entry k g) = Inr (fold remote_entry ks (remote_entry k g))"
    proof (rule Cons.IH)
      show "at_offset buf (data + unat ?off) (concat (map list_node ks))" using rest by (simp add: off add.assoc)
      show "\<forall>j \<ge> 33 * (i + 1). ?m j = 0" by (rule node_text(2) [OF here Cons.prems(5) lt])
    qed (use Cons.prems add in \<open>simp_all add: off length_list_node\<close>)
    then show ?thesis unfolding step by simp
  qed
qed

lemma fold_remote_entry:
  assumes "unat (Remote_Num (Remote_Device g)) + length ks < 50"
  defines "r \<equiv> Remote_Device g" and "r' \<equiv> Remote_Device (fold remote_entry ks g)"
  shows "unat (Remote_Num r') = unat (Remote_Num r) + length ks \<and>
    (\<forall>j. Remote_ID r' j = (if unat (Remote_Num r) < j \<and> j \<le> unat (Remote_Num r) + length ks
       then ks ! (j - unat (Remote_Num r) - 1) else Remote_ID r j))"
  using assms(1) unfolding r_def r'_def
proof (induction ks arbitrary: g)
  case (Cons k ks)
  let ?h = "remote_entry k g"
  have n: "unat (Remote_Num (Remote_Device ?h)) = unat (Remote_Num (Remote_Device g)) + 1"
    using Remote_Device_Add_room(2) [of g k] Cons.prems by simp
  have id: "Remote_ID (Remote_Device ?h) j =
      (if j = unat (Remote_Num (Remote_Device g)) + 1 then k else Remote_ID (Remote_Device g) j)" for j
    using n by (simp add: remote_entry_def Let_def)
  show ?case using Cons.IH [of ?h] Cons.prems unfolding fold_simps n id by (auto simp: nth_Cons')
qed auto

text \<open>Property C29. The device list of the module arrives as sent: for a list of up to 254 bytes of nodes
  that fits the gateway's array, every identifier is entered behind the ones already there, in
  order, nothing else of the list changes, and after the last package of the list the
  synchronisation with the main units is started.\<close>

theorem local_subdev_list_adds:
  assumes "at_offset buf off (uart_frame v 0x1c (flags # word_of_nat (length ks) # concat (map list_node ks)))"
    and "ks \<noteq> []" and "length (concat (map list_node ks)) \<le> 254" and "off + 6 + 256 \<le> 4103"
    and "unat (Remote_Num (Remote_Device g)) + length ks < 50"
  defines "n \<equiv> unat (Remote_Num (Remote_Device g))"
  shows "\<exists>g'. data_handle buf off g = Inr (if drop_bit 7 flags AND 1 = 0 then Sync_Request g' else g') \<and>
    unat (Remote_Num (Remote_Device g')) = n + length ks \<and>
    (\<forall>j. Remote_ID (Remote_Device g') j =
       (if n < j \<and> j \<le> n + length ks then ks ! (j - n - 1) else Remote_ID (Remote_Device g) j))"
proof -
  let ?ps = "flags # word_of_nat (length ks) # concat (map list_node ks)"
  have le: "length ?ps \<le> 4096" using assms(3) by simp
  note f = frame_fields [OF assms(1) le]
  have "at_offset buf (off + 6) ?ps" unfolding at_offset_def using f(3) by simp
  then have b: "buf (off + 6) = flags" "buf (off + 6 + 1) = word_of_nat (length ks)"
    "at_offset buf (off + 6 + 2) (concat (map list_node ks))"
    by (simp_all add: at_offset_Cons)
  have num: "unat (word_of_nat (length ks) :: u8) = length ks"
    using assms(5) by (simp add: unsigned_of_nat take_bit_nat_eq_self)
  then have nz: "(word_of_nat (length ks) :: u8) \<noteq> 0" using assms(2) by auto
  have "subdev_nodes buf (off + 6) (length ks) 0 2 (\<lambda>_. 0) g = Inr (fold remote_entry ks g)"
    by (rule subdev_nodes_list) (use b(3) assms(3-5) in simp_all)
  then have "data_handle buf off g =
      Inr (if drop_bit 7 flags AND 1 = 0 then Sync_Request (fold remote_entry ks g) else fold remote_entry ks g)"
    unfolding data_handle_def Let_def f(1) local_subdev_list_def b(1,2)
    using num nz assms(4) by (simp add: need_def)
  then show ?thesis using fold_remote_entry [OF assms(5)] unfolding n_def by blast
qed

theorem local_subdev_list_adds_witness:
  "\<exists>g'. data_handle (framed 0x1c (0 # word_of_nat (length [10000001, 20000001 :: u32]) #
       concat (map list_node [10000001, 20000001]))) 0 idle_gateway = Inr (Sync_Request g') \<and>
     Remote_ID (Remote_Device g') 2 = 20000001"
proof -
  have len: "length (concat (map list_node [10000001, 20000001])) \<le> 254"
    using sprintf_ld_length [of 10000001] sprintf_ld_length [of 20000001] by (simp add: length_list_node)
  have idle: "Remote_Num (Remote_Device idle_gateway) = 0" by (simp add: idle_gateway_def)
  show ?thesis
    using local_subdev_list_adds [OF framed_at _ len, where flags = 0 and g = idle_gateway] by (auto simp: idle)
qed

end
