(* ===== verification/Firmware.thy ===== *)
theory Firmware
  imports Commands
begin

unbundle bit_operations_syntax

text \<open>
  The firmware download as it arrives, frame by frame, from the serial line to the flash: \<open>update_start\<close>
  and \<open>update_trans\<close> (\<open>data_handle\<close> in \<open>src/wifi/system.c\<close>) on top of \<open>src/ota/wifi_ota.c\<close>.
\<close>

section \<open>Frames of a download\<close>

definition start_frame :: "u8 \<Rightarrow> u32 \<Rightarrow> bytes" where
  "start_frame v tot = uart_frame v UPDATE_START_CMD (int_to_byte tot)"

definition packet_frame :: "u8 \<Rightarrow> bytes \<times> u32 \<Rightarrow> bytes" where
  "packet_frame v p = uart_frame v UPDATE_TRANS_CMD (int_to_byte (snd p) @ fst p)"

text \<open>Frames the service finds one after the other, each in a process buffer at some offset.\<close>

fun handle_frames :: "(memory \<times> nat) list \<Rightarrow> gateway \<Rightarrow> c_fault + gateway" where
  "handle_frames [] g = Inr g"
| "handle_frames (p # ps) g = (case data_handle (fst p) (snd p) g of Inl e \<Rightarrow> Inl e | Inr g \<Rightarrow> handle_frames ps g)"

definition holds_frame :: "memory \<times> nat \<Rightarrow> bytes \<Rightarrow> bool" where
  "holds_frame p f \<longleftrightarrow> at_offset (fst p) (snd p) f \<and> snd p + length f \<le> PROCESS_SIZE"

lemma length_int_to_byte [simp]: "length (int_to_byte v) = 4"
  by (simp add: int_to_byte_def)

lemma frame_word_at:
  assumes "at_offset buf at (int_to_byte v)"
  shows "frame_word buf at = v"
proof -
  have at: "buf (at + i) = int_to_byte v ! i" if "i < 4" for i
    using assms that by (simp add: at_offset_def)
  have "frame_word buf at = byte_to_int (\<lambda>i. int_to_byte v ! i)"
    unfolding frame_word_def byte_to_int_def by (simp only: at [of 0] at [of 1] at [of 2] at [of 3])
  then show ?thesis by (simp add: byte_to_int_int_to_byte)
qed

section \<open>The start\<close>

text \<open>What the start leaves in the SDK.\<close>

definition updating :: "gateway \<Rightarrow> bool" where
  "updating g \<longleftrightarrow> firm_update_flag (wifi g) = UPDATE_START_CMD \<and> firm_size (wifi g) = 1024"

lemma package_answer_keeps: "tx_only w (upgrade_package_choose n w)"
  by (simp add: upgrade_package_choose_def tx_only_set)

lemma update_start_frame:
  assumes "at_offset buf off (start_frame v tot)" and "off + 10 \<le> 4103"
  shows "\<exists>g'. data_handle buf off g = Inr g' \<and> updating g' \<and> firm_length (wifi g') = tot \<and>
    downloads g' = wifi_ota_begin tot (downloads g)"
proof -
  have le: "length (int_to_byte tot) \<le> 4096" by simp
  note f = frame_fields [OF assms(1) [unfolded start_frame_def] le]
  have "at_offset buf (off + 6) (int_to_byte tot)" unfolding at_offset_def using f(3) by simp
  then have word: "frame_word buf (off + 6) = tot" by (rule frame_word_at)
  let ?w = "(wifi g)\<lparr>firm_size := 1024, firm_length := tot\<rparr>"
  have "data_handle buf off g = Inr (g\<lparr>wifi := (upgrade_package_choose 2 ?w)\<lparr>firm_update_flag := 0x1d\<rparr>,
      downloads := wifi_ota_begin (firm_length (upgrade_package_choose 2 ?w)) (downloads g)\<rparr>)"
    using f(1) assms(2) word
    by (simp add: data_handle_def update_start_def need_def package_bytes_def on_wifi_def Let_def)
  with tx_only_fields(6,7) [OF package_answer_keeps [of ?w 2]] show ?thesis by (simp add: updating_def)
qed

section \<open>A packet\<close>

lemma packet_fields:
  assumes "at_offset buf off (packet_frame v (c, p))" and "length c \<le> 1024"
  shows "buf (off + FRAME_TYPE) = 0x1e" "unat (frame_total_len buf off) = 4 + length c"
    "frame_word buf (off + 6) = p" "map (\<lambda>i. buf (off + 10 + i)) [0..<length c] = c"
proof -
  let ?ps = "int_to_byte p @ c"
  have le: "length ?ps \<le> 4096" using assms(2) by simp
  note f = frame_fields [OF assms(1) [unfolded packet_frame_def fst_conv snd_conv] le]
  show "buf (off + FRAME_TYPE) = 0x1e" by (rule f(1))
  show "unat (frame_total_len buf off) = 4 + length c" using f(2) frame_len_unat [OF le] by simp
  have "at_offset buf (off + 6) ?ps" unfolding at_offset_def using f(3) by simp
  then have parts: "at_offset buf (off + 6) (int_to_byte p)" "at_offset buf (off + 6 + 4) c"
    by (simp_all add: at_offset_append)
  show "frame_word buf (off + 6) = p" by (rule frame_word_at [OF parts(1)])
  have ten: "off + 6 + 4 = off + 10" by simp
  show "map (\<lambda>i. buf (off + 10 + i)) [0..<length c] = c" using parts(2) unfolding ten by (simp add: at_offset_map)
qed

lemma update_packet_frame:
  assumes "at_offset buf off (packet_frame v (c, p))" and "off + 11 + length c \<le> 4103"
    and "c \<noteq> []" "length c \<le> 1024" and "updating g"
  shows "\<exists>g'. data_handle buf off g = Inr g' \<and> updating g' \<and> firm_length (wifi g') = firm_length (wifi g) \<and>
    downloads g' = receive_packet (c, p) (downloads g)"
proof -
  note f = packet_fields [OF assms(1,4)]
  let ?n = "frame_total_len buf off"
  have n: "?n = 4 + word_of_nat (length c)"
    using f(2) assms(4) by (simp add: word_unat_eq_iff unsigned_of_nat unat_word_ariths take_bit_nat_eq_self)
  have len: "unat (?n - 4) = length c"
    using assms(4) by (simp add: n unsigned_of_nat take_bit_nat_eq_self)
  then have ne: "?n \<noteq> 4" "?n - 4 \<noteq> 0" using assms(3) by auto
  have small: "uint ?n - 4 \<le> 1024" using f(2) assms(4) by (simp add: uint_nat)
  have uc: "(ucast (?n - 4) :: u32) = word_of_nat (length c)" by (simp add: ucast_word_of_nat len)
  have ten: "off + 6 + 4 = off + 10" by simp
  let ?g = "on_wifi (\<lambda>w. w\<lparr>stop_update_flag := 1\<rparr>) g"
  let ?d = "wifi_ota_receive c p (word_of_nat (length c)) (downloads g)"
  have handle: "mcu_firm_update_handle buf (off + 6 + 4) p (?n - 4) ?g = Inr (1, ?g\<lparr>downloads := ?d\<rparr>)"
    unfolding mcu_firm_update_handle_def uc len ten f(4)
    using ne(2) assms(2) by (simp add: on_wifi_def)
  let ?h = "?g\<lparr>downloads := ?d\<rparr>"
  have "data_handle buf off g = Inr (on_wifi (\<lambda>w. w\<lparr>stop_update_flag := 0\<rparr>)
      (on_wifi (\<lambda>w. wifi_uart_write_frame 0x1e 0 (0, w)) ?h))"
    using f(1,3) assms(2,5) ne(1) small handle
    by (simp add: data_handle_def update_trans_def need_def updating_def Let_def)
  moreover have "tx_only (wifi ?h) (wifi_uart_write_frame 0x1e 0 (0, wifi ?h))" by (simp add: tx_only_set)
  note tx_only_fields(6-8) [OF this]
  ultimately show ?thesis
    using assms(5) by (simp add: updating_def on_wifi_def receive_packet_def)
qed

section \<open>The whole download\<close>

definition end_frame :: "u8 \<Rightarrow> u32 \<Rightarrow> bytes" where
  "end_frame v tot = uart_frame v UPDATE_TRANS_CMD (int_to_byte tot)"

lemma length_frames [simp]:
  "length (start_frame v tot) = 11" "length (packet_frame v (c, p)) = 11 + length c" "length (end_frame v tot) = 11"
  by (simp_all add: start_frame_def packet_frame_def end_frame_def uart_frame_def)

lemma update_end_frame:
  assumes "at_offset buf off (end_frame v (firm_length (wifi g)))" and "off + 10 \<le> 4103" and "updating g"
  shows "data_handle buf off g = Inl Cpu_Reset"
proof -
  have frame: "at_offset buf off (packet_frame v ([], firm_length (wifi g)))"
    using assms(1) by (simp add: packet_frame_def end_frame_def)
  note f = packet_fields [OF frame]
  have n: "frame_total_len buf off = 4" using f(2) by (simp add: word_unat_eq_iff)
  from f(1,3) n assms(2,3) show ?thesis
    by (simp add: data_handle_def update_trans_def need_def updating_def on_wifi_def Let_def
        mcu_firm_update_handle_def wifi_ota_end_def)
qed

lemma handle_packets:
  assumes "list_all2 holds_frame ps (map (packet_frame v) qs)"
    and "\<forall>q \<in> set qs. fst q \<noteq> [] \<and> length (fst q) \<le> 1024" and "updating g"
  shows "\<exists>g'. handle_frames ps g = Inr g' \<and> updating g' \<and> firm_length (wifi g') = firm_length (wifi g) \<and>
    downloads g' = fold receive_packet qs (downloads g)"
  using assms
proof (induction qs arbitrary: ps g)
  case Nil
  then show ?case by simp
next
  case (Cons q qs)
  then obtain p rest where ps: "ps = p # rest" "holds_frame p (packet_frame v q)"
    "list_all2 holds_frame rest (map (packet_frame v) qs)" by (auto simp: list_all2_Cons2)
  obtain c at where q: "q = (c, at)" by (cases q)
  have "\<exists>g'. data_handle (fst p) (snd p) g = Inr g' \<and> updating g' \<and> firm_length (wifi g') = firm_length (wifi g) \<and>
    downloads g' = receive_packet q (downloads g)"
    unfolding q using ps(2) Cons.prems(2,3) by (intro update_packet_frame [of _ _ v]) (auto simp: q holds_frame_def)
  then obtain g' where g': "data_handle (fst p) (snd p) g = Inr g'" "updating g'"
    "firm_length (wifi g') = firm_length (wifi g)" "downloads g' = receive_packet q (downloads g)" by blast
  from Cons.IH [OF ps(3) _ g'(2)] Cons.prems(2) obtain h where
    "handle_frames rest g' = Inr h" "updating h" "firm_length (wifi h) = firm_length (wifi g')"
    "downloads h = fold receive_packet qs (downloads g')" by auto
  with ps(1) g' show ?case by simp
qed

lemma packets_chunks: "q \<in> set (packets n cs) \<Longrightarrow> \<exists>c \<in> set cs. fst q = fst c"
  by (induction cs arbitrary: n) auto

section \<open>Property\<close>

definition at_start :: "bytes \<Rightarrow> memory \<times> nat" where
  "at_start f = ((\<lambda>i. f ! i), 0)"

lemma holds_at_start: "length f \<le> 4103 \<Longrightarrow> holds_frame (at_start f) f"
  by (simp add: holds_frame_def at_start_def at_offset_def)

text \<open>Property C18. A firmware download over the serial line stores the image: after a start-up, the start
  frame with a size that fits the partition and the packet frames of an image in order, each possibly
  sent several times, are all handled without a fault and leave exactly the concatenated packets at the
  start of the download partition; the closing frame then restarts the gateway.\<close>

theorem firmware_frames_store_image:
  assumes "tot \<le> dl_len" "\<not> dead (flash (downloads g))" "update_file_cur_size (wifi_dl (downloads g)) = 0"
    and "\<forall>c \<in> set cs. fst c \<noteq> [] \<and> length (fst c) \<le> 1024"
    and "length (concat (map fst cs)) \<le> unat tot"
    and "list_all2 holds_frame ps (start_frame v tot # map (packet_frame v) (packets 0 cs))"
    and "holds_frame (buf, off) (end_frame v tot)"
  shows "\<exists>g'. handle_frames ps g = Inr g' \<and>
    (\<forall>i < length (concat (map fst cs)).
       cells (flash (downloads g')) (dl_offset + i) = concat (map fst cs) ! i) \<and>
    data_handle buf off g' = Inl Cpu_Reset"
proof -
  obtain p rest where ps: "ps = p # rest" "holds_frame p (start_frame v tot)"
    "list_all2 holds_frame rest (map (packet_frame v) (packets 0 cs))"
    using assms(6) by (auto simp: list_all2_Cons2)
  obtain h where h: "data_handle (fst p) (snd p) g = Inr h" "updating h" "firm_length (wifi h) = tot"
    "downloads h = wifi_ota_begin tot (downloads g)"
    using update_start_frame [of "fst p" "snd p" v tot g] ps(2) by (auto simp: holds_frame_def)
  have "\<forall>q \<in> set (packets 0 cs). fst q \<noteq> [] \<and> length (fst q) \<le> 1024"
    using assms(4) packets_chunks by fastforce
  from handle_packets [OF ps(3) this h(2)] obtain g' where g': "handle_frames rest h = Inr g'" "updating g'"
    "firm_length (wifi g') = tot" "downloads g' = fold receive_packet (packets 0 cs) (wifi_ota_begin tot (downloads g))"
    using h(3,4) by auto
  have "download_state tot (concat (map fst cs)) (downloads g')"
    using receive_packets [OF begin_state [OF assms(1-3)], of cs] assms(5) g'(4) by simp
  then have "\<forall>i < length (concat (map fst cs)).
       cells (flash (downloads g')) (dl_offset + i) = concat (map fst cs) ! i"
    by (simp add: download_state_def dl_holds_def nor.holds_def)
  moreover have "data_handle buf off g' = Inl Cpu_Reset"
    using assms(7) g'(2,3) by (intro update_end_frame [of _ _ v]) (simp_all add: holds_frame_def)
  ultimately show ?thesis using ps(1) h(1) g'(1) by auto
qed

theorem firmware_frames_store_image_witness:
  "\<exists>g'. handle_frames (map at_start [start_frame 0 3, packet_frame 0 ([7, 8], 0), packet_frame 0 ([7, 8], 0),
        packet_frame 0 ([9], 2)]) small_gateway = Inr g' \<and>
     cells (flash (downloads g')) (dl_offset + 2) = 9"
proof -
  let ?cs = "[([7, 8], 1), ([9], 0)] :: (bytes \<times> nat) list"
  have frames: "list_all2 holds_frame (map at_start (start_frame 0 3 # map (packet_frame 0) (packets 0 ?cs)))
      (start_frame 0 3 # map (packet_frame 0) (packets 0 ?cs))"
    by (simp add: holds_at_start)
  have close: "holds_frame ((\<lambda>i. end_frame 0 3 ! i), 0) (end_frame 0 3)"
    using holds_at_start [of "end_frame 0 3"] by (simp add: at_start_def)
  have "\<exists>g'. handle_frames (map at_start (start_frame 0 3 # map (packet_frame 0) (packets 0 ?cs))) small_gateway = Inr g' \<and>
    (\<forall>i < length (concat (map fst ?cs)). cells (flash (downloads g')) (dl_offset + i) = concat (map fst ?cs) ! i) \<and>
    data_handle (\<lambda>i. end_frame 0 3 ! i) 0 g' = Inl Cpu_Reset"
    by (rule firmware_frames_store_image [OF _ _ _ _ _ frames close])
      (simp_all add: small_gateway_def idle_gateway_def fresh_ota_def)
  then obtain g' where
    h: "handle_frames (map at_start (start_frame 0 3 # map (packet_frame 0) (packets 0 ?cs))) small_gateway = Inr g'"
    and c: "\<forall>i < length (concat (map fst ?cs)). cells (flash (downloads g')) (dl_offset + i) = concat (map fst ?cs) ! i"
    by blast
  from c [rule_format, of 2] have "cells (flash (downloads g')) (dl_offset + 2) = 9" by simp
  with h show ?thesis by (auto simp: numeral_2_eq_2)
qed

end
