(* ===== verification/Heart_Poll.thy ===== *)
theory Heart_Poll
  imports Radio_Decoder
begin

text \<open>
  The heart beat thread (\<open>src/applications/heart.c\<close>): every fifteen minutes it polls the main units in
  turn, at full transmit power, and waits two seconds for the answer. A unit that stays silent is
  polled up to seven times per sweep, and after six silent sweeps it is marked offline. The thread is
  a step function over its position between two delays. The increment of the retry counter stands
  in the argument of a log macro, which is compiled in with the log level of the file.
\<close>

datatype heart_pc = Heart_Sleep | Heart_At u8 | Heart_Answer u8

definition set_column :: "(Device_Info \<Rightarrow> Device_Info) \<Rightarrow> gateway \<Rightarrow> gateway" where
  "set_column f g = set_Devices (f (Devices g)) g"

text \<open>After the two seconds.\<close>

definition heart_answer :: "u8 \<Rightarrow> gateway \<Rightarrow> heart_pc \<times> gateway" where
  "heart_answer num g =
    (let n = unat num;
         g = on_rf BackNormalPower g
     in if HeartRecv (Devices g) n \<noteq> 0 then
          (let g = set_column (\<lambda>t. t\<lparr>HeartCount := (HeartCount t)(n := 0), HeartRetry := (HeartRetry t)(n := 0)\<rparr>) g
           in (Heart_At (num + 1), Heart_Upload (ID (Devices g) n) 1 g))
        else if HeartRetry (Devices g) n < 6 then
          (Heart_At num, set_column (\<lambda>t. t\<lparr>HeartRetry := (HeartRetry t)(n := HeartRetry t n + 1)\<rparr>) g)
        else
          (let g = (if HeartCount (Devices g) n < 5
                    then set_column (\<lambda>t. t\<lparr>HeartCount := (HeartCount t)(n := HeartCount t n + 1)\<rparr>) g
                    else snd (Flash_Set_Heart (ID (Devices g) n) 0
                           (set_column (\<lambda>t. t\<lparr>HeartCount := (HeartCount t)(n := 0)\<rparr>) g)))
           in (Heart_At (num + 1), set_column (\<lambda>t. t\<lparr>HeartRetry := (HeartRetry t)(n := 0)\<rparr>) g)))"

definition heart_callback :: "heart_pc \<times> gateway \<Rightarrow> heart_pc \<times> gateway" where
  "heart_callback s = (case s of
     (Heart_Sleep, g) \<Rightarrow> (Heart_At 1, g)
   | (Heart_At num, g) \<Rightarrow>
       if num \<le> Num (Devices g) then
         (let n = unat num
          in if ID (Devices g) n \<noteq> 0 \<and> Bind_ID (Devices g) n = 0 then
               (let g = set_column (\<lambda>t. t\<lparr>HeartRecv := (HeartRecv t)(n := 0)\<rparr>) g;
                    g = on_rf ChangeMaxPower g
                in (Heart_Answer num, on_rf (GatewayDataEnqueue (ID (Devices g) n) 0 0 3 0) g))
             else (Heart_At (num + 1), g))
       else (Heart_Sleep, g)
   | (Heart_Answer num, g) \<Rightarrow> heart_answer num g)"

section \<open>Invariant\<close>

text \<open>Full power is on exactly while the thread waits for an answer.\<close>

definition heart_wf :: "heart_pc \<times> gateway \<Rightarrow> bool" where
  "heart_wf s \<longleftrightarrow> gateway_wf (snd s) \<and>
     (case fst s of Heart_Answer num \<Rightarrow> axradio_power_now (rf (snd s)) = 1 | _ \<Rightarrow> axradio_power_now (rf (snd s)) = 0)"

lemma gateway_wf_column:
  assumes "gateway_wf g" "table_wf (f (Devices g))"
  shows "gateway_wf (set_column f g)"
  using assms by (simp add: set_column_def gateway_wf_devices)

lemma column_fields [simp]: "rf (set_column f g) = rf g" "Devices (set_column f g) = f (Devices g)"
  "wifi (set_column f g) = wifi g" "env (dev (set_column f g)) = env (dev g)"
  by (simp_all add: set_column_def)

lemma rf_Set_Heart [simp]: "rf (snd (Flash_Set_Heart k h g)) = rf g"
  by (simp add: Flash_Set_Heart_def set_Heart_def Let_def split: option.split)

lemma rf_Heart_Upload [simp]: "rf (Heart_Upload k h g) = rf g"
  by (simp add: Heart_Upload_def)

lemma power_simps [simp]:
  "axradio_power_now (BackNormalPower r) = 0" "axradio_power_now r = 0 \<Longrightarrow> axradio_power_now (ChangeMaxPower r) = 1"
  "axradio_power_now (GatewayDataEnqueue a b c e f r) = axradio_power_now r"
  "Queue_433 (BackNormalPower r) = Queue_433 r" "Queue_433 (ChangeMaxPower r) = Queue_433 r"
  by (simp_all add: BackNormalPower_def ChangeMaxPower_def GatewayDataEnqueue_def Let_def)

lemma gateway_wf_power: "gateway_wf g \<Longrightarrow> gateway_wf (on_rf BackNormalPower g)" "gateway_wf g \<Longrightarrow> gateway_wf (on_rf ChangeMaxPower g)"
  by (simp_all add: gateway_wf_def queue_wf_def)

lemma table_wf_of: "gateway_wf g \<Longrightarrow> table_wf (Devices g)"
  by (simp add: gateway_wf_def)

lemma heart_wf_answer:
  assumes "gateway_wf g"
  shows "gateway_wf (snd (heart_answer num g))" "axradio_power_now (rf (snd (heart_answer num g))) = 0"
proof -
  let ?g = "on_rf BackNormalPower g"
  have wf: "gateway_wf ?g" by (rule gateway_wf_power(1) [OF assms])
  have t: "table_wf (Devices ?g)" by (rule table_wf_of [OF wf])
  have offline: "gateway_wf (snd (Flash_Set_Heart k h (set_column (\<lambda>t. t\<lparr>HeartCount := (HeartCount t)(n := 0)\<rparr>) ?g)))" for k h n
    by (intro gateway_wf_Set_Heart gateway_wf_column wf) (use t in simp)
  show "gateway_wf (snd (heart_answer num g))"
    unfolding heart_answer_def Let_def
    using t table_wf_of [OF offline]
    by (auto intro!: gateway_wf_misc(4) gateway_wf_column wf offline)
  show "axradio_power_now (rf (snd (heart_answer num g))) = 0"
    unfolding heart_answer_def Let_def by auto
qed

lemma heart_wf_step: "heart_wf s \<Longrightarrow> heart_wf (heart_callback s)"
proof -
  assume wf: "heart_wf s"
  obtain pc g where s: "s = (pc, g)" by (cases s)
  have g: "gateway_wf g" using wf by (simp add: heart_wf_def s)
  show ?thesis
  proof (cases pc)
    case (Heart_Answer num)
    have "fst (heart_answer num g) = Heart_At num \<or> fst (heart_answer num g) = Heart_At (num + 1)"
      by (auto simp: heart_answer_def Let_def)
    with heart_wf_answer [OF g, of num] show ?thesis
      by (auto simp: heart_wf_def s Heart_Answer heart_callback_def)
  next
    case (Heart_At num)
    have "gateway_wf (on_rf ChangeMaxPower (set_column (\<lambda>t. t\<lparr>HeartRecv := (HeartRecv t)(unat num := 0)\<rparr>) g))"
      by (intro gateway_wf_power gateway_wf_column g) (simp add: table_wf_of [OF g])
    then show ?thesis using wf g
      by (auto simp: heart_wf_def s Heart_At heart_callback_def Let_def intro!: gateway_wf_radio)
  qed (use wf in \<open>simp add: heart_wf_def s heart_callback_def\<close>)
qed

section \<open>Counting silent polls\<close>

text \<open>The polls a unit has left unanswered, from its two counters.\<close>

definition silent_polls :: "Device_Info \<Rightarrow> nat \<Rightarrow> nat" where
  "silent_polls t n = 7 * unat (HeartCount t n) + unat (HeartRetry t n)"

lemma unat_suc_small: "x < 6 \<Longrightarrow> unat (x + 1 :: u8) = unat x + 1"
  by (simp add: word_less_nat_alt unat8_add)

lemma heart_columns:
  "HeartRetry (Devices (snd (Flash_Set_Heart k h g))) = HeartRetry (Devices g)"
  "HeartCount (Devices (snd (Flash_Set_Heart k h g))) = HeartCount (Devices g)"
  by (simp_all add: Flash_Set_Heart_def set_Heart_def Let_def split: option.split)

lemma Heart_after_set:
  "slot_of k (Devices g) = Some n \<Longrightarrow> Heart (Devices (snd (Flash_Set_Heart k 0 g))) n = 0"
  by (simp add: Flash_Set_Heart_def set_Heart_def Let_def)

section \<open>Properties\<close>

text \<open>The heart beat thread keeps the gateway well formed, and full transmit power is on exactly
  while it waits for an answer: every step restores or requests the power as it should.\<close>

lemma heart_callback_wf:
  assumes "heart_wf s"
  shows "heart_wf ((heart_callback ^^ k) s)"
  using assms by (induction k) (simp_all add: heart_wf_step)

text \<open>A silent main unit is given up after exactly 42 polls: while fewer than 41 polls are unanswered,
  one more only increases their number and leaves the online state of every device alone; the 42nd
  marks the unit offline and starts the count again.\<close>

lemma silent_poll_counts:
  assumes "gateway_wf g" and "HeartRecv (Devices g) (unat num) = 0" and "ID (Devices g) (unat num) \<noteq> 0"
    and "HeartRetry (Devices g) (unat num) \<le> 6" and "HeartCount (Devices g) (unat num) \<le> 5"
  defines "n \<equiv> unat num" and "g' \<equiv> snd (heart_answer num g)"
  shows "(silent_polls (Devices g) n < 41 \<longrightarrow>
      silent_polls (Devices g') n = silent_polls (Devices g) n + 1 \<and> Heart (Devices g') = Heart (Devices g)) \<and>
    (silent_polls (Devices g) n = 41 \<longrightarrow> silent_polls (Devices g') n = 0 \<and> Heart (Devices g') n = 0)"
proof -
  let ?t = "Devices g"
  have le: "unat (HeartRetry ?t n) \<le> 6" "unat (HeartCount ?t n) \<le> 5"
    using assms(4,5) by (simp_all add: n_def word_le_nat_alt)
  consider (again) "HeartRetry ?t n < 6" | (sweep) "\<not> HeartRetry ?t n < 6" "HeartCount ?t n < 5"
    | (gone) "\<not> HeartRetry ?t n < 6" "\<not> HeartCount ?t n < 5" by blast
  then show ?thesis
  proof cases
    case again
    then have "Devices g' = ?t\<lparr>HeartRetry := (HeartRetry ?t)(n := HeartRetry ?t n + 1)\<rparr>"
      using assms(2) by (simp add: g'_def heart_answer_def n_def Let_def)
    moreover have "unat (HeartRetry ?t n) < 6" using again by (simp add: word_less_nat_alt)
    ultimately show ?thesis
      using le unat_suc_small [OF again] by (auto simp: silent_polls_def)
  next
    case sweep
    then have "Devices g' = ?t\<lparr>HeartCount := (HeartCount ?t)(n := HeartCount ?t n + 1), HeartRetry := (HeartRetry ?t)(n := 0)\<rparr>"
      using assms(2) by (simp add: g'_def heart_answer_def n_def Let_def)
    moreover have "unat (HeartRetry ?t n) = 6" "unat (HeartCount ?t n) < 5"
      using sweep le by (simp_all add: word_less_nat_alt)
    moreover have "HeartCount ?t n < 6" using sweep(2) by (simp add: word_less_nat_alt)
    ultimately show ?thesis
      by (auto simp: silent_polls_def unat_suc_small)
  next
    case gone
    then have "silent_polls ?t n = 41" using le by (simp add: silent_polls_def word_less_nat_alt)
    let ?h = "set_column (\<lambda>t. t\<lparr>HeartCount := (HeartCount t)(n := 0)\<rparr>) (on_rf BackNormalPower g)"
    have "slot_of (ID ?t n) ?t = Some n"
      using slot_of_wf [OF table_wf_of [OF assms(1)] assms(3)] by (simp add: n_def)
    then have "slot_of (ID ?t n) (Devices ?h) = Some n" by (simp add: slot_of_def)
    note off = Heart_after_set [OF this]
    have "Devices g' = (\<lambda>t. t\<lparr>HeartRetry := (HeartRetry t)(n := 0)\<rparr>) (Devices (snd (Flash_Set_Heart (ID ?t n) 0 ?h)))"
      using assms(2) gone by (simp add: g'_def heart_answer_def n_def Let_def)
    then have "silent_polls (Devices g') n = 0" "Heart (Devices g') n = 0"
      using off by (simp_all add: silent_polls_def heart_columns)
    with \<open>silent_polls ?t n = 41\<close> show ?thesis by auto
  qed
qed

end
