(* ===== verification/Buttons.thy ===== *)
theory Buttons
  imports Prelude
begin

text \<open>
  The button package (\<open>src/packages/button-v1.0.1/button.c\<close>) as \<open>src/rtconfig.h\<close> configures it:
  debounce time 1, long press after 200 samples and then every 25, double click within 15, none of the
  triggers \<open>CONTINUOS_TRIGGER\<close>, \<open>LONG_FREE_TRIGGER\<close>, \<open>SINGLE_AND_DOUBLE_TRIGGER\<close>. A button reads its level
  from a state \<open>'s\<close> and its callbacks change that state; the buttons are linked through their \<open>Next\<close>
  fields, addresses being numbers. The sections end with the well-formedness of a button, the number
  of callbacks of a press of any length, and the operations on the list.
\<close>

section \<open>Data\<close>

datatype Button_Event = BUTTON_DOWM | BUTTON_UP | BUTTON_DOUBLE | BUTTON_LONG | BUTTON_LONG_FREE
  | BUTTON_CONTINUOS | BUTTON_CONTINUOS_FREE | BUTTON_ALL_RIGGER | number_of_event | NONE_TRIGGER

record 's Button_t =
  Read_Button_Level :: "'s \<Rightarrow> u8"
  Name :: string
  Button_State :: Button_Event
  Button_Last_State :: Button_Event
  Button_Trigger_Level :: "2 word"
  Button_Last_Level :: "2 word"
  Button_Trigger_Event :: Button_Event
  CallBack_Function :: "Button_Event \<Rightarrow> ('s \<Rightarrow> 's) option"
  Button_Cycle :: u8
  Timer_Count :: u8
  Debounce_Time :: u8
  Long_Time :: u8
  Long_Flag :: u8
  Next :: "nat option"

record 's buttons =
  btn :: "nat \<Rightarrow> 's Button_t"
  Head_Button :: "nat option"

definition set_btn :: "nat \<Rightarrow> 's Button_t \<Rightarrow> 's buttons \<Rightarrow> 's buttons" where
  "set_btn i b bs = bs\<lparr>btn := (btn bs)(i := b)\<rparr>"

abbreviation (input) BUTTON_DEBOUNCE_TIME :: u8 where "BUTTON_DEBOUNCE_TIME \<equiv> 1"
abbreviation (input) BUTTON_LONG_CYCLE :: u8 where "BUTTON_LONG_CYCLE \<equiv> 25"
abbreviation (input) BUTTON_DOUBLE_TIME :: u8 where "BUTTON_DOUBLE_TIME \<equiv> 15"
abbreviation (input) BUTTON_LONG_TIME :: u8 where "BUTTON_LONG_TIME \<equiv> 200"
abbreviation (input) BTN_NAME_MAX :: nat where "BTN_NAME_MAX \<equiv> 32"

section \<open>Creating, attaching, deleting\<close>

text \<open>What \<open>StrnCopy\<close> writes to its \<open>n\<close> characters, for a source without its terminator.\<close>

fun StrnCopy :: "string \<Rightarrow> nat \<Rightarrow> string" where
  "StrnCopy src 0 = []"
| "StrnCopy [] (Suc n) = CHR 0x00 # replicate n (CHR 0x00)"
| "StrnCopy (c # src) (Suc n) = c # StrnCopy src n"

text \<open>\<open>while(pass_btn) pass_btn = pass_btn->Next;\<close>\<close>

partial_function (option) walk :: "'s buttons \<Rightarrow> nat option \<Rightarrow> unit option" where
  "walk bs p = (case p of None \<Rightarrow> Some () | Some i \<Rightarrow> walk bs (Next (btn bs i)))"

definition Add_Button :: "nat \<Rightarrow> 's buttons \<Rightarrow> 's buttons option" where
  "Add_Button i bs = (case walk bs (Head_Button bs) of
     None \<Rightarrow> None
   | Some _ \<Rightarrow> Some (set_btn i ((btn bs i)\<lparr>Next := Head_Button bs\<rparr>) bs\<lparr>Head_Button := Some i\<rparr>))"

definition Button_Create :: "string \<Rightarrow> nat \<Rightarrow> ('s \<Rightarrow> u8) \<Rightarrow> u8 \<Rightarrow> 's buttons \<Rightarrow> 's buttons option" where
  "Button_Create name i read_btn_level btn_trigger_level bs =
    Add_Button i (set_btn i
      \<lparr>Read_Button_Level = read_btn_level, Name = StrnCopy name BTN_NAME_MAX,
       Button_State = NONE_TRIGGER, Button_Last_State = NONE_TRIGGER,
       Button_Trigger_Level = ucast btn_trigger_level, Button_Last_Level = 1,
       Button_Trigger_Event = NONE_TRIGGER, CallBack_Function = (\<lambda>_. None),
       Button_Cycle = 0, Timer_Count = 0, Debounce_Time = 0, Long_Time = 0, Long_Flag = 0, Next = None\<rparr> bs)"

definition all_events :: "Button_Event list" where
  "all_events = [BUTTON_DOWM, BUTTON_UP, BUTTON_DOUBLE, BUTTON_LONG, BUTTON_LONG_FREE, BUTTON_CONTINUOS,
     BUTTON_CONTINUOS_FREE]"

definition Button_Attach :: "nat \<Rightarrow> Button_Event \<Rightarrow> ('s \<Rightarrow> 's) \<Rightarrow> 's buttons \<Rightarrow> 's buttons" where
  "Button_Attach i btn_event btn_callback bs =
    (let b = btn bs i
     in if btn_event = BUTTON_ALL_RIGGER
        then set_btn i (b\<lparr>CallBack_Function :=
          fold (\<lambda>e f. f(e := Some btn_callback)) all_events (CallBack_Function b)\<rparr>) bs
        else set_btn i (b\<lparr>CallBack_Function := (CallBack_Function b)(btn_event := Some btn_callback)\<rparr>) bs)"

text \<open>The pointer \<open>curr\<close> of \<open>Button_Delete\<close>, here \<open>cur\<close>, points to \<open>Head_Button\<close> (\<open>None\<close>) or to the \<open>Next\<close> field of a
  button.\<close>

definition link_of :: "'s buttons \<Rightarrow> nat option \<Rightarrow> nat option" where
  "link_of bs cur = (case cur of None \<Rightarrow> Head_Button bs | Some j \<Rightarrow> Next (btn bs j))"

definition set_link :: "nat option \<Rightarrow> nat option \<Rightarrow> 's buttons \<Rightarrow> 's buttons" where
  "set_link cur p bs = (case cur of None \<Rightarrow> bs\<lparr>Head_Button := p\<rparr>
     | Some j \<Rightarrow> set_btn j ((btn bs j)\<lparr>Next := p\<rparr>) bs)"

partial_function (option) delete_at :: "nat \<Rightarrow> nat option \<Rightarrow> 's buttons \<Rightarrow> 's buttons option" where
  "delete_at i cur bs = (case link_of bs cur of
     None \<Rightarrow> Some bs
   | Some entry \<Rightarrow>
       if entry = i then delete_at i cur (set_link cur (Next (btn bs entry)) bs)
       else delete_at i (Some entry) bs)"

definition Button_Delete :: "nat \<Rightarrow> 's buttons \<Rightarrow> 's buttons option" where
  "Button_Delete i bs = delete_at i None bs"

primrec event_code :: "Button_Event \<Rightarrow> u8" where
  "event_code BUTTON_DOWM = 0"
| "event_code BUTTON_UP = 1"
| "event_code BUTTON_DOUBLE = 2"
| "event_code BUTTON_LONG = 3"
| "event_code BUTTON_LONG_FREE = 4"
| "event_code BUTTON_CONTINUOS = 5"
| "event_code BUTTON_CONTINUOS_FREE = 6"
| "event_code BUTTON_ALL_RIGGER = 7"
| "event_code number_of_event = 8"
| "event_code NONE_TRIGGER = 9"

definition Get_Button_Event :: "'s Button_t \<Rightarrow> u8" where
  "Get_Button_Event b = event_code (Button_Trigger_Event b)"

definition Get_Button_State :: "'s Button_t \<Rightarrow> u8" where
  "Get_Button_State b = event_code (Button_State b)"

section \<open>One sample of a button\<close>

definition TRIGGER_CB :: "Button_Event \<Rightarrow> 's Button_t \<Rightarrow> 's \<Rightarrow> 's" where
  "TRIGGER_CB event b s = (case CallBack_Function b event of None \<Rightarrow> s | Some f \<Rightarrow> f s)"

definition button_edge :: "u8 \<Rightarrow> 's Button_t \<Rightarrow> 's Button_t" where
  "button_edge current_level b =
    (if current_level \<noteq> ucast (Button_Last_Level b) then
       (let b = b\<lparr>Debounce_Time := Debounce_Time b + 1\<rparr>
        in if Debounce_Time b \<ge> BUTTON_DEBOUNCE_TIME then
             (let b = b\<lparr>Button_Last_Level := ucast current_level, Debounce_Time := 0\<rparr>
              in if Button_State b = NONE_TRIGGER \<or> Button_State b = BUTTON_DOUBLE
                 then b\<lparr>Button_State := BUTTON_DOWM\<rparr>
                 else if Button_State b = BUTTON_DOWM then b\<lparr>Button_State := BUTTON_UP\<rparr>
                 else b)
           else b)
     else b)"

definition button_down :: "'s Button_t \<Rightarrow> 's \<Rightarrow> 's Button_t \<times> 's" where
  "button_down b s =
    (if Button_Last_Level b = Button_Trigger_Level b then
       (let b = b\<lparr>Button_Trigger_Event := BUTTON_DOWM\<rparr>;
            b = b\<lparr>Long_Time := Long_Time b + 1\<rparr>
        in if Long_Time b \<ge> BUTTON_LONG_TIME then
             (let b = b\<lparr>Button_Cycle := Button_Cycle b + 1\<rparr>;
                  (b, s) =
                    (if Button_Cycle b \<ge> BUTTON_LONG_CYCLE then
                       (let b = b\<lparr>Button_Cycle := 0, Button_Trigger_Event := BUTTON_LONG\<rparr>;
                            s = TRIGGER_CB BUTTON_LONG b s
                        in (b\<lparr>Long_Flag := 1\<rparr>, s))
                     else (b, s));
                  b = (if Long_Time b = 0xFF then b\<lparr>Long_Time := BUTTON_LONG_TIME\<rparr> else b)
              in (b, s))
           else (b, s))
     else (b, s))"

definition button_up :: "'s Button_t \<Rightarrow> 's \<Rightarrow> 's Button_t \<times> 's" where
  "button_up b s =
    (if Long_Flag b \<noteq> 0 then
       (let b = b\<lparr>Long_Flag := 0\<rparr>;
            s = TRIGGER_CB BUTTON_LONG_FREE b s
        in (b\<lparr>Long_Time := 0, Button_State := NONE_TRIGGER, Button_Last_State := BUTTON_LONG\<rparr>, s))
     else if Button_Trigger_Event b = BUTTON_DOWM then
       (if Timer_Count b \<le> BUTTON_DOUBLE_TIME \<and> Button_Last_State b = BUTTON_DOUBLE then
          (let b = b\<lparr>Button_Trigger_Event := BUTTON_DOUBLE\<rparr>;
               s = TRIGGER_CB BUTTON_DOUBLE b s
           in (b\<lparr>Button_State := NONE_TRIGGER, Button_Last_State := NONE_TRIGGER\<rparr>, s))
        else
          (let b = b\<lparr>Timer_Count := 0, Long_Time := 0\<rparr>;
               s = TRIGGER_CB BUTTON_DOWM b s
           in (b\<lparr>Button_State := BUTTON_DOUBLE, Button_Last_State := BUTTON_DOUBLE\<rparr>, s)))
     else (b, s))"

definition button_double :: "'s Button_t \<Rightarrow> 's Button_t" where
  "button_double b =
    (let b = b\<lparr>Timer_Count := Timer_Count b + 1\<rparr>
     in if Timer_Count b \<ge> BUTTON_DOUBLE_TIME
        then b\<lparr>Button_State := NONE_TRIGGER, Button_Last_State := NONE_TRIGGER\<rparr> else b)"

definition Button_Cycle_Process :: "'s Button_t \<Rightarrow> 's \<Rightarrow> 's Button_t \<times> 's" where
  "Button_Cycle_Process b s =
    (let b = button_edge (Read_Button_Level b s) b
     in case Button_State b of
          BUTTON_DOWM \<Rightarrow> button_down b s
        | BUTTON_UP \<Rightarrow> button_up b s
        | BUTTON_DOUBLE \<Rightarrow> (button_double b, s)
        | _ \<Rightarrow> (b, s))"

section \<open>All buttons\<close>

partial_function (option) process_from :: "nat option \<Rightarrow> 's buttons \<times> 's \<Rightarrow> ('s buttons \<times> 's) option" where
  "process_from pass_btn st = (case pass_btn of
     None \<Rightarrow> Some st
   | Some i \<Rightarrow>
       (case Button_Cycle_Process (btn (fst st) i) (snd st) of
          (b, s) \<Rightarrow> process_from (Next b) (set_btn i b (fst st), s)))"

definition Button_Process :: "'s buttons \<times> 's \<Rightarrow> ('s buttons \<times> 's) option" where
  "Button_Process st = process_from (Head_Button (fst st)) st"

section \<open>Well-formed buttons\<close>

text \<open>Between two samples a button triggered by level 0 is never in the state \<open>BUTTON_UP\<close>, its state and its
  debounced level agree, and its counters are in range.\<close>

definition button_wf :: "'s Button_t \<Rightarrow> bool" where
  "button_wf b \<longleftrightarrow> Button_Trigger_Level b = 0 \<and> Debounce_Time b = 0 \<and> Long_Time b < 255 \<and> Button_Cycle b < 25 \<and>
     Button_State b \<in> {NONE_TRIGGER, BUTTON_DOWM, BUTTON_DOUBLE} \<and>
     Button_Last_Level b = (if Button_State b = BUTTON_DOWM then 0 else 1) \<and>
     (Button_State b = BUTTON_DOUBLE \<longrightarrow> Timer_Count b < 15) \<and>
     (Long_Flag b = 0 \<or> Long_Flag b = 1 \<and> Button_State b = BUTTON_DOWM) \<and>
     (Button_State b = BUTTON_DOWM \<and> Long_Flag b = 0 \<longrightarrow> Button_Trigger_Event b = BUTTON_DOWM)"

definition pressed :: "'s Button_t \<Rightarrow> 's Button_t" where
  "pressed b = b\<lparr>Button_State := BUTTON_DOWM, Button_Last_Level := 0\<rparr>"

lemma edge_down: "button_wf b \<Longrightarrow> button_edge 0 b = pressed b"
  by (cases b) (auto simp: button_edge_def button_wf_def pressed_def)

lemma edge_up:
  "button_wf b \<Longrightarrow> button_edge 1 b =
    (if Button_State b = BUTTON_DOWM then b\<lparr>Button_State := BUTTON_UP, Button_Last_Level := 1\<rparr> else b)"
  by (cases b) (auto simp: button_edge_def button_wf_def)

lemma sample_down:
  "button_wf b \<Longrightarrow> Read_Button_Level b s = 0 \<Longrightarrow> Button_Cycle_Process b s = button_down (pressed b) s"
  by (simp add: Button_Cycle_Process_def edge_down Let_def) (simp add: pressed_def)

lemma sample_up:
  "button_wf b \<Longrightarrow> Read_Button_Level b s = 1 \<Longrightarrow> Button_Cycle_Process b s =
    (case Button_State b of BUTTON_DOWM \<Rightarrow> button_up (b\<lparr>Button_State := BUTTON_UP, Button_Last_Level := 1\<rparr>) s
     | BUTTON_DOUBLE \<Rightarrow> (button_double b, s) | _ \<Rightarrow> (b, s))"
  by (auto simp: Button_Cycle_Process_def edge_up Let_def button_wf_def)

text \<open>A sample of a pressed button, in closed form: the two counters and the callback.\<close>

lemma down_pressed:
  assumes "button_wf b"
  defines "L \<equiv> Long_Time b + 1" and "C \<equiv> Button_Cycle b + 1"
  shows "button_down (pressed b) s =
    (if L < 200 then ((pressed b)\<lparr>Button_Trigger_Event := BUTTON_DOWM, Long_Time := L\<rparr>, s)
     else ((pressed b)\<lparr>Button_Trigger_Event := (if C < 25 then BUTTON_DOWM else BUTTON_LONG),
             Long_Time := (if L = 255 then 200 else L), Button_Cycle := (if C < 25 then C else 0),
             Long_Flag := (if C < 25 then Long_Flag b else 1)\<rparr>,
           if C < 25 then s else TRIGGER_CB BUTTON_LONG b s))"
  using assms(1) unfolding L_def C_def
  by (cases "Long_Time b + 1 < 200"; cases "Button_Cycle b + 1 < 25"; cases "Long_Time b + 1 = 255")
    (simp_all add: button_down_def pressed_def button_wf_def TRIGGER_CB_def Let_def not_less [symmetric] del: not_less)

lemma unat_Suc_small: "a < 255 \<Longrightarrow> unat (a + 1 :: u8) = Suc (unat a)"
  by (simp add: unat_word_ariths word_less_nat_alt)

lemma wf_down: "button_wf b \<Longrightarrow> button_wf (fst (button_down (pressed b) s))"
proof -
  assume wf: "button_wf b"
  then have "Long_Time b < 255" "Button_Cycle b < 255" by (auto simp: button_wf_def word_less_nat_alt)
  note s = unat_Suc_small [OF this(1)] unat_Suc_small [OF this(2)]
  from wf show ?thesis
    unfolding down_pressed [OF wf]
    by (auto simp: button_wf_def pressed_def word_less_nat_alt word_unat_eq_iff s split: if_splits)
qed

lemma wf_up: "button_wf b \<Longrightarrow> Button_State b = BUTTON_DOWM \<Longrightarrow>
  button_wf (fst (button_up (b\<lparr>Button_State := BUTTON_UP, Button_Last_Level := 1\<rparr>) s))"
  by (auto simp: button_up_def button_wf_def Let_def)

lemma wf_double: "button_wf b \<Longrightarrow> Button_State b = BUTTON_DOUBLE \<Longrightarrow> button_wf (button_double b)"
  by (auto simp: button_double_def button_wf_def Let_def not_le)

lemma button_sample_keeps_wf:
  assumes "button_wf b" "Read_Button_Level b s \<in> {0, 1}"
  shows "button_wf (fst (Button_Cycle_Process b s))"
proof (cases "Read_Button_Level b s = 0")
  case True
  with assms(1) show ?thesis by (simp add: sample_down wf_down)
next
  case False
  with assms have "Read_Button_Level b s = 1" by simp
  with assms(1) show ?thesis
    using wf_up [OF assms(1)] wf_double [OF assms(1)]
    by (auto simp: sample_up button_wf_def split: Button_Event.split)
qed

text \<open>A sample of a free button: at most one callback, and the long press is over.\<close>

lemma double_fields: "Button_Cycle (button_double b) = Button_Cycle b" "Long_Flag (button_double b) = Long_Flag b"
  by (simp_all add: button_double_def Let_def)

lemma sample_free:
  fixes b :: "'s Button_t" and s :: 's
  assumes "button_wf b" "Read_Button_Level b s = 1"
  defines "q \<equiv> Button_Cycle_Process b s"
  shows "snd q = (if Long_Flag b \<noteq> 0 then TRIGGER_CB BUTTON_LONG_FREE b s
       else if Button_State b \<noteq> BUTTON_DOWM then s
       else if Timer_Count b \<le> 15 \<and> Button_Last_State b = BUTTON_DOUBLE then TRIGGER_CB BUTTON_DOUBLE b s
       else TRIGGER_CB BUTTON_DOWM b s)"
    and "Button_Cycle (fst q) = Button_Cycle b" and "Long_Flag (fst q) = 0"
  unfolding q_def sample_up [OF assms(1,2)] using assms(1)
  by (auto simp: button_wf_def button_up_def double_fields TRIGGER_CB_def Let_def)

text \<open>The second click of a double click leaves the press duration where it is, so that the next press of the
  key counts on from there.\<close>

lemma double_click_keeps_time:
  assumes "button_wf b" "Read_Button_Level b s = 1" "Button_State b = BUTTON_DOWM" "Long_Flag b = 0"
    "Timer_Count b \<le> 15" "Button_Last_State b = BUTTON_DOUBLE"
  shows "Long_Time (fst (Button_Cycle_Process b s)) = Long_Time b"
    and "Button_State (fst (Button_Cycle_Process b s)) = NONE_TRIGGER"
  using assms by (simp_all add: sample_up button_up_def button_wf_def Let_def)

section \<open>A press of any length\<close>

definition sample :: "'s Button_t \<times> 's \<Rightarrow> 's Button_t \<times> 's" where
  "sample p = Button_Cycle_Process (fst p) (snd p)"

lemma down_counts:
  fixes b :: "'s Button_t" and s :: 's
  assumes wf: "button_wf b"
  defines "b' \<equiv> fst (button_down (pressed b) s)" and "fires \<equiv> 199 \<le> unat (Long_Time b) \<and> unat (Button_Cycle b) = 24"
  shows "unat (Long_Time b') = (if unat (Long_Time b) = 254 then 200 else Suc (unat (Long_Time b)))"
    and "unat (Button_Cycle b') = (if unat (Long_Time b) < 199 then unat (Button_Cycle b) else Suc (unat (Button_Cycle b)) mod 25)"
    and "Long_Flag b' = (if fires then 1 else Long_Flag b)"
    and "snd (button_down (pressed b) s) = (if fires then TRIGGER_CB BUTTON_LONG b s else s)"
    and "Button_State b' = BUTTON_DOWM" "CallBack_Function b' = CallBack_Function b"
      "Read_Button_Level b' = Read_Button_Level b" "Next b' = Next b"
proof -
  have c: "Long_Time b < 255" "Button_Cycle b < 255" "unat (Button_Cycle b) < 25"
    using wf by (auto simp: button_wf_def word_less_nat_alt)
  note s = unat_Suc_small [OF c(1)] unat_Suc_small [OF c(2)]
  note d = down_pressed [OF wf, of s]
  show "unat (Long_Time b') = (if unat (Long_Time b) = 254 then 200 else Suc (unat (Long_Time b)))"
    unfolding b'_def d by (simp add: word_less_nat_alt word_unat_eq_iff s)
  have "Suc (unat (Button_Cycle b)) mod 25 = (if unat (Button_Cycle b) < 24 then Suc (unat (Button_Cycle b)) else 0)"
    using c(3) by (cases "unat (Button_Cycle b) = 24") auto
  then show "unat (Button_Cycle b') = (if unat (Long_Time b) < 199 then unat (Button_Cycle b) else Suc (unat (Button_Cycle b)) mod 25)"
    unfolding b'_def d by (simp add: word_less_nat_alt s pressed_def)
  show "Long_Flag b' = (if fires then 1 else Long_Flag b)"
    "snd (button_down (pressed b) s) = (if fires then TRIGGER_CB BUTTON_LONG b s else s)"
    unfolding b'_def fires_def d using c(3) by (auto simp: word_less_nat_alt s pressed_def)
  show "Button_State b' = BUTTON_DOWM" "CallBack_Function b' = CallBack_Function b"
      "Read_Button_Level b' = Read_Button_Level b" "Next b' = Next b"
    unfolding b'_def d by (simp_all add: pressed_def)
qed

text \<open>The samples of a press of \<open>n\<close> samples that count towards the long press.\<close>

definition long_samples :: "'s Button_t \<Rightarrow> nat \<Rightarrow> nat" where
  "long_samples b n = unat (Button_Cycle b) + (n - (199 - unat (Long_Time b)))"

text \<open>The callback of the long press does not touch the key.\<close>

definition keeps_level :: "'s Button_t \<Rightarrow> bool" where
  "keeps_level b \<longleftrightarrow> (\<forall>f s. CallBack_Function b BUTTON_LONG = Some f \<longrightarrow> Read_Button_Level b (f s) = Read_Button_Level b s)"

lemma trigger_reads:
  "keeps_level b \<Longrightarrow> Read_Button_Level b ((TRIGGER_CB BUTTON_LONG b ^^ k) s) = Read_Button_Level b s"
  by (induction k) (auto simp: TRIGGER_CB_def keeps_level_def split: option.split)

lemma Suc_div_25: "Suc k div 25 = (if k mod 25 = 24 then Suc (k div 25) else k div 25)"
  by (simp add: div_Suc mod_Suc)

lemma Suc_reach_25: "25 \<le> Suc k \<longleftrightarrow> k mod 25 = 24 \<or> 25 \<le> k"
  by (cases "k < 25") auto

lemma hold_counts:
  fixes b :: "'s Button_t" and s :: 's
  assumes wf: "button_wf b" and low: "Read_Button_Level b s = 0"
    and reads: "keeps_level b"
  defines "q n \<equiv> (sample ^^ n) (b, s)"
  shows "button_wf (fst (q n)) \<and> unat (Button_Cycle (fst (q n))) = long_samples b n mod 25 \<and>
    Long_Flag (fst (q n)) = (if 25 \<le> long_samples b n then 1 else Long_Flag b) \<and>
    snd (q n) = (TRIGGER_CB BUTTON_LONG b ^^ (long_samples b n div 25)) s \<and>
    (if unat (Long_Time b) + n < 200 then unat (Long_Time (fst (q n))) = unat (Long_Time b) + n
     else 200 \<le> unat (Long_Time (fst (q n)))) \<and>
    CallBack_Function (fst (q n)) = CallBack_Function b \<and> Read_Button_Level (fst (q n)) = Read_Button_Level b \<and>
    Next (fst (q n)) = Next b"
proof (induction n)
  case 0
  have "unat (Button_Cycle b) < 25" using wf by (simp add: button_wf_def word_less_nat_alt)
  with wf show ?case by (simp add: q_def long_samples_def)
next
  case (Suc n)
  let ?b = "fst (q n)" and ?s = "snd (q n)"
  have wf': "button_wf ?b" using Suc by blast
  have low': "Read_Button_Level ?b ?s = 0" using Suc low trigger_reads [OF reads] by simp
  have step: "q (Suc n) = button_down (pressed ?b) ?s"
    using sample_down [OF wf' low'] by (simp add: q_def sample_def)
  have cb: "TRIGGER_CB BUTTON_LONG ?b = TRIGGER_CB BUTTON_LONG b" using Suc by (simp add: TRIGGER_CB_def fun_eq_iff)
  note d = down_counts [OF wf', of ?s, folded step]
  have long: "199 \<le> unat (Long_Time ?b) \<longleftrightarrow> 199 \<le> unat (Long_Time b) + n"
    using Suc by (auto split: if_splits)
  have e: "long_samples b (Suc n) = (if 199 \<le> unat (Long_Time b) + n then Suc (long_samples b n) else long_samples b n)"
    by (auto simp: long_samples_def)
  have small: "long_samples b n < 25" if "unat (Long_Time b) + n < 199"
    using that wf by (simp add: long_samples_def button_wf_def word_less_nat_alt)
  show ?case
  proof (cases "199 \<le> unat (Long_Time b) + n")
    case False
    with Suc d long e small [simplified] wf_down [OF wf', of ?s] step show ?thesis by simp
  next
    case True
    let ?k = "long_samples b n"
    from Suc True have ih: "unat (Button_Cycle ?b) = ?k mod 25" "Long_Flag ?b = (if 25 \<le> ?k then 1 else Long_Flag b)"
      "?s = (TRIGGER_CB BUTTON_LONG b ^^ (?k div 25)) s" "199 \<le> unat (Long_Time ?b)" by (auto split: if_splits)
    have div: "Suc ?k div 25 = (if ?k mod 25 = 24 then Suc (?k div 25) else ?k div 25)"
      by (rule Suc_div_25)
    have reach: "25 \<le> Suc ?k \<longleftrightarrow> ?k mod 25 = 24 \<or> 25 \<le> ?k" by (rule Suc_reach_25)
    have "unat (Button_Cycle (fst (q (Suc n)))) = Suc ?k mod 25"
      using d(2) ih(1,4) by (simp add: mod_Suc_eq)
    moreover have "snd (q (Suc n)) = (TRIGGER_CB BUTTON_LONG b ^^ (Suc ?k div 25)) s"
      by (simp add: d(4) div cb ih(1,3,4))
    moreover have "Long_Flag (fst (q (Suc n))) = (if 25 \<le> Suc ?k then 1 else Long_Flag b)"
      by (simp add: d(3) ih(1,2,4) reach)
    moreover have "200 \<le> unat (Long_Time (fst (q (Suc n))))" using d(1) ih(4) by simp
    moreover have "button_wf (fst (q (Suc n)))" using wf_down [OF wf', of ?s] step by simp
    ultimately show ?thesis using Suc True d(6-8) e by simp
  qed
qed

section \<open>The list of buttons\<close>

text \<open>The buttons \<open>xs\<close> are linked from the pointer \<open>p\<close> on.\<close>

primrec linked :: "'s buttons \<Rightarrow> nat option \<Rightarrow> nat list \<Rightarrow> bool" where
  "linked bs p [] \<longleftrightarrow> p = None"
| "linked bs p (x # xs) \<longleftrightarrow> p = Some x \<and> linked bs (Next (btn bs x)) xs"

lemma set_btn_simps [simp]:
  "btn (set_btn i b bs) = (btn bs)(i := b)" "Head_Button (set_btn i b bs) = Head_Button bs"
  by (simp_all add: set_btn_def)

lemma linked_other: "i \<notin> set xs \<Longrightarrow> linked (set_btn i b bs) p xs = linked bs p xs"
  by (induction xs arbitrary: p) auto

lemma linked_Head [simp]: "linked (bs\<lparr>Head_Button := h\<rparr>) p xs = linked bs p xs"
  by (induction xs arbitrary: p) auto

lemma walk_ends: "linked bs p xs \<Longrightarrow> walk bs p = Some ()"
  by (induction xs arbitrary: p) (simp_all add: walk.simps)

lemma Button_Create_adds:
  assumes "linked bs (Head_Button bs) xs" "i \<notin> set xs"
  shows "\<exists>bs'. Button_Create name i rd lv bs = Some bs' \<and> linked bs' (Head_Button bs') (i # xs)"
proof -
  have w: "walk (set_btn i b bs) (Head_Button bs) = Some ()" for b
    using walk_ends linked_other [OF assms(2)] assms(1) by blast
  from assms show ?thesis by (simp add: Button_Create_def Add_Button_def w linked_other)
qed

lemma set_link_other: "(case cur of None \<Rightarrow> True | Some j \<Rightarrow> j \<notin> set xs) \<Longrightarrow> linked (set_link cur p bs) q xs = linked bs q xs"
  by (simp add: set_link_def linked_other split: option.splits)

lemma link_of_set: "link_of (set_link cur p bs) cur = p"
  by (simp add: link_of_def set_link_def split: option.split)

text \<open>A sample leaves the link, the callbacks and the reader alone.\<close>

definition same_config :: "'s Button_t \<Rightarrow> 's Button_t \<Rightarrow> bool" where
  "same_config b c \<longleftrightarrow> Next c = Next b \<and> CallBack_Function c = CallBack_Function b \<and>
     Read_Button_Level c = Read_Button_Level b"

lemma cycle_keeps: "same_config b (fst (Button_Cycle_Process b s))"
proof -
  have edge: "same_config b (button_edge l b)" for l by (simp add: same_config_def button_edge_def Let_def)
  have "same_config c (fst (button_down c s))" "same_config c (fst (button_up c s))" "same_config c (button_double c)" for c
    by (simp_all add: same_config_def button_down_def button_up_def button_double_def Let_def)
  with edge show ?thesis by (simp add: Button_Cycle_Process_def same_config_def Let_def split: Button_Event.split)
qed

lemma cycle_keeps_next: "Next (fst (Button_Cycle_Process b s)) = Next b"
  using cycle_keeps [of b s] by (simp add: same_config_def)

lemma linked_cong: "(\<And>i. Next (btn bs' i) = Next (btn bs i)) \<Longrightarrow> linked bs' p xs = linked bs p xs"
  by (induction xs arbitrary: p) auto

lemma process_linked:
  assumes "linked bs p xs"
  shows "\<exists>bs' s'. process_from p (bs, s) = Some (bs', s') \<and> Head_Button bs' = Head_Button bs \<and>
    (\<forall>i. Next (btn bs' i) = Next (btn bs i))"
  using assms
proof (induction xs arbitrary: p bs s)
  case Nil
  then show ?case by (simp add: process_from.simps)
next
  case (Cons x xs)
  obtain b s1 where c: "Button_Cycle_Process (btn bs x) s = (b, s1)" by fastforce
  then have nx: "Next b = Next (btn bs x)" using cycle_keeps_next [of "btn bs x" s] by simp
  let ?bs = "set_btn x b bs"
  have keep: "Next (btn ?bs i) = Next (btn bs i)" for i using nx by simp
  then have "linked ?bs (Next b) xs" using Cons.prems nx linked_cong [of ?bs bs] by simp
  from Cons.IH [OF this] obtain bs' s' where
    r: "process_from (Next b) (?bs, s1) = Some (bs', s')" "Head_Button bs' = Head_Button bs"
      "\<And>i. Next (btn bs' i) = Next (btn ?bs i)"
    by fastforce
  then have "\<forall>i. Next (btn bs' i) = Next (btn bs i)" using keep by (simp only:) simp
  with r(1,2) Cons.prems c show ?case by (subst process_from.simps) simp
qed

text \<open>Deleting a button unlinks it and nothing else.\<close>

lemma delete_linked:
  assumes "linked bs (link_of bs cur) xs" "distinct xs" "case cur of None \<Rightarrow> True | Some j \<Rightarrow> j \<notin> set xs"
  shows "\<exists>bs'. delete_at i cur bs = Some bs' \<and> linked bs' (link_of bs' cur) (remove1 i xs) \<and>
    (cur \<noteq> None \<longrightarrow> Head_Button bs' = Head_Button bs) \<and>
    (\<forall>j. j \<notin> set xs \<longrightarrow> cur \<noteq> Some j \<longrightarrow> btn bs' j = btn bs j)"
  using assms
proof (induction xs arbitrary: cur bs)
  case Nil
  then show ?case by (simp add: delete_at.simps)
next
  case (Cons x xs)
  have lx: "link_of bs cur = Some x" "linked bs (Next (btn bs x)) xs" using Cons.prems(1) by simp_all
  show ?case
  proof (cases "x = i")
    case True
    let ?bs = "set_link cur (Next (btn bs x)) bs"
    have side: "case cur of None \<Rightarrow> True | Some j \<Rightarrow> j \<notin> set xs" using Cons.prems(3) by (simp split: option.splits)
    have "linked ?bs (link_of ?bs cur) xs" using lx(2) side by (simp add: link_of_set set_link_other)
    from Cons.IH [OF this _ side] Cons.prems(2) obtain bs' where
      r: "delete_at i cur ?bs = Some bs'" "linked bs' (link_of bs' cur) (remove1 i xs)"
        "cur \<noteq> None \<longrightarrow> Head_Button bs' = Head_Button ?bs" "\<And>j. j \<notin> set xs \<Longrightarrow> cur \<noteq> Some j \<Longrightarrow> btn bs' j = btn ?bs j"
      by auto
    have "remove1 i xs = remove1 i (x # xs)" using True Cons.prems(2) by (simp add: remove1_idem)
    moreover have "cur \<noteq> None \<longrightarrow> Head_Button ?bs = Head_Button bs" "cur \<noteq> Some j \<Longrightarrow> btn ?bs j = btn bs j" for j
      by (auto simp: set_link_def split: option.split)
    ultimately show ?thesis using r lx(1) True by (subst delete_at.simps) auto
  next
    case False
    have "linked bs (link_of bs (Some x)) xs" using lx(2) by (simp add: link_of_def)
    from Cons.IH [OF this] Cons.prems(2) obtain bs' where
      r: "delete_at i (Some x) bs = Some bs'" "linked bs' (Next (btn bs' x)) (remove1 i xs)"
        "Head_Button bs' = Head_Button bs" "\<And>j. j \<notin> set xs \<Longrightarrow> j \<noteq> x \<Longrightarrow> btn bs' j = btn bs j"
      by (auto simp: link_of_def)
    have "link_of bs' cur = Some x" using lx(1) r(3,4) Cons.prems(3) by (auto simp: link_of_def split: option.splits)
    with r lx(1) False show ?thesis by (subst delete_at.simps) auto
  qed
qed

lemma Button_Delete_removes:
  assumes "linked bs (Head_Button bs) xs" "distinct xs"
  shows "\<exists>bs'. Button_Delete i bs = Some bs' \<and> linked bs' (Head_Button bs') (remove1 i xs)"
  using delete_linked [of bs None xs i] assms by (auto simp: Button_Delete_def link_of_def)

text \<open>Two buttons, the one created last first.\<close>

lemma process_two:
  assumes "linked bs (Head_Button bs) [1, 0]"
  shows "Button_Process (bs, s) =
    (case Button_Cycle_Process (btn bs 1) s of (b1, s) \<Rightarrow>
       (case Button_Cycle_Process (btn bs 0) s of (b0, s) \<Rightarrow> Some (set_btn 0 b0 (set_btn 1 b1 bs), s)))"
proof -
  obtain b1 s1 where c1: "Button_Cycle_Process (btn bs 1) s = (b1, s1)" by fastforce
  obtain b0 s0 where c0: "Button_Cycle_Process (btn bs 0) s1 = (b0, s0)" by fastforce
  have "Next b1 = Some 0" "Next b0 = None"
    using cycle_keeps_next [of "btn bs 1" s] cycle_keeps_next [of "btn bs 0" s1] c1 c0 assms by simp_all
  with assms c1 c0 show ?thesis by (simp add: Button_Process_def process_from.simps)
qed

end
