(* ===== verification/Keys.thy ===== *)
theory Keys
  imports Buttons Wifi_Service
begin

text \<open>
  The two keys of the gateway (\<open>src/applications/device.c\<close>, \<open>src/applications/key.c\<close>): callbacks of the
  button package count long presses and release semaphores, a second thread takes the semaphores and acts.
  A \<open>panel\<close> holds the levels of the two pins, the semaphores, the counters and the gateway; one call of
  \<open>Button_Process\<close> and one turn of the key thread are its steps.
\<close>

section \<open>State\<close>

record panel =
  Key0_level :: u8
  Key1_level :: u8
  K0_Sem :: nat
  K0_Long_Sem :: nat
  K1_Sem :: nat
  K1_Long_Sem :: nat
  K0_K1_Long_Sem :: nat
  K0_Long_Sem_Counter :: u16
  K1_Long_Sem_Counter :: u16
  K0_OnceFlag :: u8
  K1_OnceFlag :: u8
  K0_K1_OnceFlag :: u8
  K0_Status :: u8
  K0_Long_Status :: u8
  K1_Status :: u8
  K1_Long_Status :: u8
  K0_K1_Status :: u8
  gw :: gateway

text \<open>The kernel's semaphores: a value up to 65535; taking without waiting gives \<open>RT_EOK\<close> or
  \<open>-RT_ETIMEOUT\<close>.\<close>

definition rt_sem_release :: "nat \<Rightarrow> nat" where
  "rt_sem_release v = (if v < 65535 then v + 1 else v)"

definition rt_sem_take :: "nat \<Rightarrow> u8 \<times> nat" where
  "rt_sem_take v = (if v > 0 then (RT_EOK, v - 1) else (- 2, v))"

section \<open>Callbacks of the keys\<close>

definition Key_SemInit :: "panel \<Rightarrow> panel" where
  "Key_SemInit p = p\<lparr>K0_Sem := 0, K0_Long_Sem := 0, K1_Sem := 0, K1_Long_Sem := 0, K0_K1_Long_Sem := 0\<rparr>"

definition K0_Sem_Release :: "panel \<Rightarrow> panel" where
  "K0_Sem_Release p = p\<lparr>K0_Sem := rt_sem_release (K0_Sem p)\<rparr>"

definition K1_Sem_Release :: "panel \<Rightarrow> panel" where
  "K1_Sem_Release p = p\<lparr>K1_Sem := rt_sem_release (K1_Sem p)\<rparr>"

definition K0_Factory_Kick :: "panel \<Rightarrow> panel" where
  "K0_Factory_Kick p = p\<lparr>gw := on_board beep_kick (gw p)\<rparr>"

definition K1_Factory_Kick :: "panel \<Rightarrow> panel" where
  "K1_Factory_Kick p = p\<lparr>gw := on_board beep_kick (gw p)\<rparr>"

definition K0_LongSem_Release :: "panel \<Rightarrow> panel" where
  "K0_LongSem_Release p =
    (if K0_OnceFlag p = 0 then
       if K0_Long_Sem_Counter p > 6 then
         if K1_Long_Sem_Counter p = 0
         then p\<lparr>K0_OnceFlag := 1, K0_Long_Sem := rt_sem_release (K0_Long_Sem p)\<rparr>
         else p
       else p\<lparr>K0_Long_Sem_Counter := K0_Long_Sem_Counter p + 1\<rparr>
     else p)"

definition K1_LongSem_Release :: "panel \<Rightarrow> panel" where
  "K1_LongSem_Release p =
    (if K1_OnceFlag p = 0 then
       if K1_Long_Sem_Counter p > 6 then
         (let p = p\<lparr>K1_OnceFlag := 1\<rparr>
          in if K0_Long_Sem_Counter p > 5
             then p\<lparr>K0_K1_Long_Sem := rt_sem_release (K0_K1_Long_Sem p)\<rparr>
             else p\<lparr>K1_Long_Sem := rt_sem_release (K1_Long_Sem p)\<rparr>)
       else p\<lparr>K1_Long_Sem_Counter := K1_Long_Sem_Counter p + 1\<rparr>
     else p)"

definition k0_K1_LongSem_Release :: "panel \<Rightarrow> panel" where
  "k0_K1_LongSem_Release p =
    (if K0_K1_OnceFlag p = 0
     then p\<lparr>K0_K1_OnceFlag := 1, K0_K1_Long_Sem := rt_sem_release (K0_K1_Long_Sem p)\<rparr> else p)"

definition K0_LongFree_Release :: "panel \<Rightarrow> panel" where
  "K0_LongFree_Release p = p\<lparr>K0_OnceFlag := 0, K0_K1_OnceFlag := 0, K0_Long_Sem_Counter := 0\<rparr>"

definition K1_LongFree_Release :: "panel \<Rightarrow> panel" where
  "K1_LongFree_Release p = p\<lparr>K1_OnceFlag := 0, K1_Long_Sem_Counter := 0\<rparr>"

definition Read_K0_Level :: "panel \<Rightarrow> u8" where
  "Read_K0_Level p = Key0_level p"

definition Read_K1_Level :: "panel \<Rightarrow> u8" where
  "Read_K1_Level p = Key1_level p"

definition Detect_KO_K1 :: "panel \<Rightarrow> panel" where
  "Detect_KO_K1 p =
    (if K1_Long_Sem_Counter p > 5 \<and> K0_Long_Sem_Counter p > 5
     then k0_K1_LongSem_Release (p\<lparr>K0_OnceFlag := 1, K1_OnceFlag := 1\<rparr>) else p)"

section \<open>Start\<close>

abbreviation (input) Key0 :: nat where "Key0 \<equiv> 0"
abbreviation (input) Key1 :: nat where "Key1 \<equiv> 1"

definition create_keys :: "panel buttons \<Rightarrow> panel buttons option" where
  "create_keys bs = (case Button_Create ''Key0'' Key0 Read_K0_Level 0 bs of
     None \<Rightarrow> None | Some bs \<Rightarrow> Button_Create ''Key1'' Key1 Read_K1_Level 0 bs)"

definition button_Init :: "panel buttons \<Rightarrow> panel buttons option" where
  "button_Init bs = (case create_keys bs of
     None \<Rightarrow> None
   | Some bs \<Rightarrow>
       (let bs = Button_Attach Key0 BUTTON_DOWM K0_Sem_Release bs;
            bs = Button_Attach Key1 BUTTON_DOWM K1_Sem_Release bs;
            bs = Button_Attach Key0 BUTTON_LONG K0_LongSem_Release bs;
            bs = Button_Attach Key1 BUTTON_LONG K1_LongSem_Release bs;
            bs = Button_Attach Key0 BUTTON_LONG_FREE K0_LongFree_Release bs
        in Some (Button_Attach Key1 BUTTON_LONG_FREE K1_LongFree_Release bs)))"

definition factory_button_detect :: "panel \<Rightarrow> u8" where
  "factory_button_detect p = (if Read_K0_Level p = 0 \<and> Read_K1_Level p = 0 then 1 else 0)"

definition factory_button_init :: "panel buttons \<Rightarrow> panel buttons option" where
  "factory_button_init bs = (case create_keys bs of
     None \<Rightarrow> None
   | Some bs \<Rightarrow>
       Some (Button_Attach Key1 BUTTON_DOWM K1_Factory_Kick (Button_Attach Key0 BUTTON_DOWM K0_Factory_Kick bs)))"

section \<open>The key thread\<close>

text \<open>One turn of the loop: all five semaphores are taken, then the first branch that applies acts.\<close>

definition take_keys :: "panel \<Rightarrow> panel" where
  "take_keys p =
    (let (r, v) = rt_sem_take (K0_Sem p); p = p\<lparr>K0_Status := r, K0_Sem := v\<rparr>;
         (r, v) = rt_sem_take (K0_Long_Sem p); p = p\<lparr>K0_Long_Status := r, K0_Long_Sem := v\<rparr>;
         (r, v) = rt_sem_take (K1_Sem p); p = p\<lparr>K1_Status := r, K1_Sem := v\<rparr>;
         (r, v) = rt_sem_take (K1_Long_Sem p); p = p\<lparr>K1_Long_Status := r, K1_Long_Sem := v\<rparr>;
         (r, v) = rt_sem_take (K0_K1_Long_Sem p)
     in p\<lparr>K0_K1_Status := r, K0_K1_Long_Sem := v\<rparr>)"

definition local_reset :: "gateway \<Rightarrow> gateway" where
  "local_reset g =
    (let g = on_board (beep_start 5) g;
         g = on_dev (\<lambda>d. d\<lparr>env := ef_env_set_default\<rparr>) g
     in on_wifi reset_factory_setting g)"

definition Key_Reponse_Callback :: "panel \<Rightarrow> panel" where
  "Key_Reponse_Callback p =
    (let p = take_keys p
     in if K0_Status p = RT_EOK then p
        else if K1_Status p = RT_EOK then p
        else if K0_K1_Status p = RT_EOK then p\<lparr>gw := local_reset (gw p)\<rparr>
        else if K0_Long_Status p = RT_EOK then p\<lparr>gw := on_rf Start_Learn (gw p)\<rparr>
        else if K1_Long_Status p = RT_EOK then p\<lparr>gw := on_board (beep_start 3) (Reset_WiFi (gw p))\<rparr>
        else p)"

section \<open>A key and its counter\<close>

text \<open>A counter \<open>k\<close> of long presses of a button that has been held for \<open>h\<close> samples: 25 samples for every
  count, at most 7, and none once the button is free.\<close>

definition key_count :: "nat \<Rightarrow> panel Button_t \<Rightarrow> u16 \<Rightarrow> bool" where
  "key_count h b k \<longleftrightarrow> 25 * unat k + unat (Button_Cycle b) \<le> 24 + h \<and> unat k \<le> 7 \<and> (k \<noteq> 0 \<longrightarrow> Long_Flag b = 1)"

locale counted_key =
  fixes level :: "panel \<Rightarrow> u8" and count :: "panel \<Rightarrow> u16" and click long free :: "panel \<Rightarrow> panel"
  assumes count_click: "count (click p) = count p"
    and count_long: "unat (count p) \<le> 7 \<Longrightarrow> unat (count (long p)) \<le> 7 \<and> unat (count (long p)) \<le> Suc (unat (count p))"
    and count_free: "count (free p) = 0"
begin

definition key_button :: "panel Button_t \<Rightarrow> bool" where
  "key_button b \<longleftrightarrow> button_wf b \<and> Read_Button_Level b = level \<and>
     CallBack_Function b = (\<lambda>_. None)(BUTTON_DOWM := Some click, BUTTON_LONG := Some long, BUTTON_LONG_FREE := Some free)"

lemma key_button_sample:
  assumes "key_button b" "level p \<in> {0, 1}"
  shows "key_button (fst (Button_Cycle_Process b p))"
  using assms button_sample_keeps_wf [of b p] cycle_keeps [of b p]
  by (simp add: key_button_def same_config_def)

lemma trigger:
  assumes "key_button b"
  shows "TRIGGER_CB BUTTON_DOWM b p = click p" "TRIGGER_CB BUTTON_LONG b p = long p"
    "TRIGGER_CB BUTTON_LONG_FREE b p = free p" "TRIGGER_CB BUTTON_DOUBLE b p = p"
  using assms by (simp_all add: key_button_def TRIGGER_CB_def)

lemma key_down:
  assumes "key_button b" "level p = 0" "key_count h b (count p)"
  shows "key_count (Suc h) (fst (Button_Cycle_Process b p)) (count (snd (Button_Cycle_Process b p)))"
    and "snd (Button_Cycle_Process b p) = p \<or>
      snd (Button_Cycle_Process b p) = long p \<and> unat (Button_Cycle b) = 24"
proof -
  have wf: "button_wf b" and low: "Read_Button_Level b p = 0" using assms(1,2) by (simp_all add: key_button_def)
  note d = down_counts [OF wf, of p, folded sample_down [OF wf low]]
  show "snd (Button_Cycle_Process b p) = p \<or> snd (Button_Cycle_Process b p) = long p \<and> unat (Button_Cycle b) = 24"
    using d(4) trigger(2) [OF assms(1)] by simp
  have "unat (Button_Cycle b) < 25" using wf by (simp add: button_wf_def word_less_nat_alt)
  then show "key_count (Suc h) (fst (Button_Cycle_Process b p)) (count (snd (Button_Cycle_Process b p)))"
    using d(2,3,4) assms(3) trigger(2) [OF assms(1)] count_long [of p]
    by (auto simp: key_count_def mod_Suc split: if_splits)
qed

lemma key_up:
  assumes "key_button b" "level p = 1" "key_count h b (count p)"
  shows "key_count 0 (fst (Button_Cycle_Process b p)) (count (snd (Button_Cycle_Process b p)))"
    and "snd (Button_Cycle_Process b p) = p \<or> snd (Button_Cycle_Process b p) = click p \<or> snd (Button_Cycle_Process b p) = free p"
proof -
  have wf: "button_wf b" and high: "Read_Button_Level b p = 1" using assms(1,2) by (simp_all add: key_button_def)
  note s = sample_free [OF wf high]
  show "snd (Button_Cycle_Process b p) = p \<or> snd (Button_Cycle_Process b p) = click p \<or> snd (Button_Cycle_Process b p) = free p"
    using s(1) trigger [OF assms(1)] by simp
  have "unat (Button_Cycle b) < 25" using wf by (simp add: button_wf_def word_less_nat_alt)
  moreover have "Long_Flag b = 0 \<Longrightarrow> count p = 0" using assms(3) by (auto simp: key_count_def)
  ultimately show "key_count 0 (fst (Button_Cycle_Process b p)) (count (snd (Button_Cycle_Process b p)))"
    using s trigger [OF assms(1)] by (simp add: key_count_def count_free count_click)
qed

lemma key_sample:
  assumes "key_button b" "level p \<in> {0, 1}" "key_count h b (count p)"
  shows "key_count (if level p = 0 then Suc h else 0) (fst (Button_Cycle_Process b p)) (count (snd (Button_Cycle_Process b p)))"
    and "snd (Button_Cycle_Process b p) \<in> {p, click p, free p} \<or>
      snd (Button_Cycle_Process b p) = long p \<and> level p = 0 \<and> unat (Button_Cycle b) = 24"
  using key_down [OF assms(1) _ assms(3)] key_up [OF assms(1) _ assms(3)] assms(2) by auto

end

lemmas key_ops = K0_Sem_Release_def K1_Sem_Release_def K0_LongSem_Release_def K1_LongSem_Release_def
  K0_LongFree_Release_def K1_LongFree_Release_def

lemma unat16_count: "\<not> 6 < (a :: u16) \<Longrightarrow> unat (a + 1) = Suc (unat a) \<and> unat a \<le> 6"
  by (simp add: unat_word_ariths word_less_nat_alt)

interpretation k0: counted_key Read_K0_Level K0_Long_Sem_Counter K0_Sem_Release K0_LongSem_Release K0_LongFree_Release
  by unfold_locales (auto simp: key_ops dest: unat16_count)

interpretation k1: counted_key Read_K1_Level K1_Long_Sem_Counter K1_Sem_Release K1_LongSem_Release K1_LongFree_Release
  by unfold_locales (auto simp: key_ops Let_def dest: unat16_count)

section \<open>Everything the panel can reach\<close>

text \<open>\<open>h0\<close> and \<open>h1\<close> count the samples for which the keys have been held.\<close>

definition blank_button :: "panel Button_t" where
  "blank_button = \<lparr>Read_Button_Level = (\<lambda>_. 0), Name = [], Button_State = BUTTON_DOWM, Button_Last_State = BUTTON_DOWM,
     Button_Trigger_Level = 0, Button_Last_Level = 0, Button_Trigger_Event = BUTTON_DOWM, CallBack_Function = (\<lambda>_. None),
     Button_Cycle = 0, Timer_Count = 0, Debounce_Time = 0, Long_Time = 0, Long_Flag = 0, Next = None\<rparr>"

definition no_buttons :: "panel buttons" where
  "no_buttons = \<lparr>btn = (\<lambda>_. blank_button), Head_Button = None\<rparr>"

definition start_panel :: "gateway \<Rightarrow> panel" where
  "start_panel g = \<lparr>Key0_level = 1, Key1_level = 1, K0_Sem = 0, K0_Long_Sem = 0, K1_Sem = 0, K1_Long_Sem = 0,
     K0_K1_Long_Sem = 0, K0_Long_Sem_Counter = 0, K1_Long_Sem_Counter = 0, K0_OnceFlag = 0, K1_OnceFlag = 0,
     K0_K1_OnceFlag = 0, K0_Status = 0, K0_Long_Status = 0, K1_Status = 0, K1_Long_Status = 0, K0_K1_Status = 0,
     gw = g\<rparr>"

definition set_levels :: "u8 \<Rightarrow> u8 \<Rightarrow> panel \<Rightarrow> panel" where
  "set_levels l0 l1 p = p\<lparr>Key0_level := l0, Key1_level := l1\<rparr>"

inductive panel_reach :: "nat \<Rightarrow> nat \<Rightarrow> panel buttons \<Rightarrow> panel \<Rightarrow> bool" where
  start: "button_Init no_buttons = Some bs \<Longrightarrow> panel_reach 0 0 bs (set_levels l0 l1 (start_panel g))"
| sampled: "panel_reach h0 h1 bs p \<Longrightarrow> l0 \<in> {0, 1} \<Longrightarrow> l1 \<in> {0, 1} \<Longrightarrow>
    Button_Process (bs, set_levels l0 l1 p) = Some (bs', p') \<Longrightarrow>
    panel_reach (if l0 = 0 then Suc h0 else 0) (if l1 = 0 then Suc h1 else 0) bs' p'"
| served: "panel_reach h0 h1 bs p \<Longrightarrow> panel_reach h0 h1 bs (Key_Reponse_Callback p)"
| elsewhere: "panel_reach h0 h1 bs p \<Longrightarrow> panel_reach h0 h1 bs (p\<lparr>gw := g\<rparr>)"

definition panel_inv :: "nat \<Rightarrow> nat \<Rightarrow> panel buttons \<Rightarrow> panel \<Rightarrow> bool" where
  "panel_inv h0 h1 bs p \<longleftrightarrow> linked bs (Head_Button bs) [1, 0] \<and> k0.key_button (btn bs 0) \<and> k1.key_button (btn bs 1) \<and>
     key_count h0 (btn bs 0) (K0_Long_Sem_Counter p) \<and> key_count h1 (btn bs 1) (K1_Long_Sem_Counter p)"

lemma attach_linked [simp]: "linked (Button_Attach i e f bs) p xs = linked bs p xs" "Head_Button (Button_Attach i e f bs) = Head_Button bs"
  by (auto simp: Button_Attach_def Let_def intro!: linked_cong)

lemma walk_short: "walk bs None = Some ()" "Next (btn bs 0) = None \<Longrightarrow> walk bs (Some 0) = Some ()"
  by (rule walk_ends [of _ _ "[]"] walk_ends [of _ _ "[0]"], simp)+

definition new_key :: "string \<Rightarrow> (panel \<Rightarrow> u8) \<Rightarrow> nat option \<Rightarrow> (Button_Event \<Rightarrow> (panel \<Rightarrow> panel) option) \<Rightarrow> panel Button_t" where
  "new_key name rd nx cb = \<lparr>Read_Button_Level = rd, Name = StrnCopy name BTN_NAME_MAX, Button_State = NONE_TRIGGER,
     Button_Last_State = NONE_TRIGGER, Button_Trigger_Level = 0, Button_Last_Level = 1,
     Button_Trigger_Event = NONE_TRIGGER, CallBack_Function = cb, Button_Cycle = 0, Timer_Count = 0,
     Debounce_Time = 0, Long_Time = 0, Long_Flag = 0, Next = nx\<rparr>"

lemma new_key_simps [simp]:
  "CallBack_Function (new_key name rd nx cb) = cb" "(new_key name rd nx cb)\<lparr>CallBack_Function := cb'\<rparr> = new_key name rd nx cb'"
  "Next (new_key name rd nx cb) = nx" "(new_key name rd nx cb)\<lparr>Next := nx'\<rparr> = new_key name rd nx' cb"
  "Button_State (new_key name rd nx cb) = NONE_TRIGGER" "Button_Cycle (new_key name rd nx cb) = 0"
  "Long_Time (new_key name rd nx cb) = 0" "Read_Button_Level (new_key name rd nx cb) = rd"
  "button_wf (new_key name rd nx cb)"
  by (simp_all add: new_key_def button_wf_def)

lemma Button_Create_new_key:
  "Button_Create name i rd 0 bs = Add_Button i (set_btn i (new_key name rd None (\<lambda>_. None)) bs)"
  by (simp add: Button_Create_def new_key_def)

lemma create_keys_start:
  "create_keys no_buttons = Some \<lparr>btn = (\<lambda>_. blank_button)(
     0 := new_key ''Key0'' Read_K0_Level None (\<lambda>_. None), 1 := new_key ''Key1'' Read_K1_Level (Some 0) (\<lambda>_. None)),
     Head_Button = Some 1\<rparr>"
  by (simp add: create_keys_def Button_Create_new_key Add_Button_def no_buttons_def walk_short set_btn_def)

lemma button_Init_start:
  "\<exists>bs. button_Init no_buttons = Some bs \<and> linked bs (Head_Button bs) [1, 0] \<and>
    btn bs 0 = new_key ''Key0'' Read_K0_Level None ((\<lambda>_. None)(BUTTON_DOWM := Some K0_Sem_Release,
      BUTTON_LONG := Some K0_LongSem_Release, BUTTON_LONG_FREE := Some K0_LongFree_Release)) \<and>
    btn bs 1 = new_key ''Key1'' Read_K1_Level (Some 0) ((\<lambda>_. None)(BUTTON_DOWM := Some K1_Sem_Release,
      BUTTON_LONG := Some K1_LongSem_Release, BUTTON_LONG_FREE := Some K1_LongFree_Release))"
  by (simp add: button_Init_def create_keys_start Button_Attach_def Let_def)

lemma button_Init_inv:
  assumes "button_Init no_buttons = Some bs"
  shows "panel_inv 0 0 bs (set_levels l0 l1 (start_panel g))"
  using button_Init_start assms
  by (auto simp: panel_inv_def key_count_def start_panel_def set_levels_def k0.key_button_def k1.key_button_def)

lemma sample_effect:
  assumes inv: "panel_inv h0 h1 bs p" and l: "l0 \<in> {0, 1}" "l1 \<in> {0, 1}"
    and step: "Button_Process (bs, set_levels l0 l1 p) = Some (bs', p')"
  shows "panel_inv (if l0 = 0 then Suc h0 else 0) (if l1 = 0 then Suc h1 else 0) bs' p'"
    and "gw p' = gw p"
    and "K0_K1_Long_Sem p < K0_K1_Long_Sem p' \<Longrightarrow> l1 = 0 \<and> 125 < h0 \<and> 175 < Suc h1"
proof -
  let ?p = "set_levels l0 l1 p"
  obtain b1 p1 where c1: "Button_Cycle_Process (btn bs 1) ?p = (b1, p1)" by fastforce
  obtain b0 p0 where c0: "Button_Cycle_Process (btn bs 0) p1 = (b0, p0)" by fastforce
  have linked: "linked bs (Head_Button bs) [1, 0]" using inv by (simp add: panel_inv_def)
  from step c1 c0 have r: "bs' = set_btn 0 b0 (set_btn 1 b1 bs)" "p' = p0"
    unfolding process_two [OF linked] by simp_all
  have k: "k0.key_button (btn bs 0)" "k1.key_button (btn bs 1)" "key_count h0 (btn bs 0) (K0_Long_Sem_Counter p)"
    "key_count h1 (btn bs 1) (K1_Long_Sem_Counter p)" using inv by (simp_all add: panel_inv_def)
  have lev: "Read_K1_Level ?p = l1" "Read_K1_Level ?p \<in> {0, 1}" "K1_Long_Sem_Counter ?p = K1_Long_Sem_Counter p"
    using l by (simp_all add: Read_K1_Level_def set_levels_def)
  note s1 = k1.key_sample [OF k(2) lev(2), of h1, unfolded lev c1 fst_conv snd_conv, OF k(4)]
  have p1: "Read_K0_Level p1 = l0" "K0_Long_Sem_Counter p1 = K0_Long_Sem_Counter p"
    using s1(2) by (auto simp: key_ops Let_def Read_K0_Level_def set_levels_def)
  have lev0: "Read_K0_Level p1 \<in> {0, 1}" using l p1 by simp
  note s0 = k0.key_sample [OF k(1) lev0, of h0, unfolded p1 c0 fst_conv snd_conv, OF k(3)]
  have p0: "K1_Long_Sem_Counter p0 = K1_Long_Sem_Counter p1" "K0_K1_Long_Sem p0 = K0_K1_Long_Sem p1"
    using s0(2) by (auto simp: key_ops)
  have "linked bs' (Head_Button bs') [1, 0]"
    using linked cycle_keeps_next [of "btn bs 1" ?p] cycle_keeps_next [of "btn bs 0" p1] c1 c0 by (simp add: r)
  then show "panel_inv (if l0 = 0 then Suc h0 else 0) (if l1 = 0 then Suc h1 else 0) bs' p'"
    using s1(1) s0(1) k0.key_button_sample [OF k(1) lev0] k1.key_button_sample [OF k(2) lev(2)] c1 c0 p0
    by (simp add: panel_inv_def r)
  have "gw p1 = gw ?p" "gw p0 = gw p1" using s1(2) s0(2) by (auto simp: key_ops Let_def)
  then show "gw p' = gw p" by (simp add: r set_levels_def)
  assume "K0_K1_Long_Sem p < K0_K1_Long_Sem p'"
  then have more: "K0_K1_Long_Sem ?p < K0_K1_Long_Sem p1" using r p0 by (simp add: set_levels_def)
  then have "p1 = K1_LongSem_Release ?p" and cyc: "l1 = 0" "unat (Button_Cycle (btn bs 1)) = 24"
    using s1(2) by (auto simp: key_ops)
  with more have "6 < K1_Long_Sem_Counter p" "5 < K0_Long_Sem_Counter p"
    by (auto simp: K1_LongSem_Release_def set_levels_def Let_def split: if_splits)
  with k(3,4) cyc show "l1 = 0 \<and> 125 < h0 \<and> 175 < Suc h1"
    by (simp add: key_count_def word_less_nat_alt)
qed

lemma rt_sem_take_eq: "rt_sem_take v = (if 0 < v then 0 else - 2, v - 1)"
  by (simp add: rt_sem_take_def)

lemma take_keys_simps [simp]:
  "K0_Long_Sem_Counter (take_keys p) = K0_Long_Sem_Counter p" "K1_Long_Sem_Counter (take_keys p) = K1_Long_Sem_Counter p"
  "K0_Status (take_keys p) = (if 0 < K0_Sem p then 0 else - 2)" "K1_Status (take_keys p) = (if 0 < K1_Sem p then 0 else - 2)"
  "K0_Long_Status (take_keys p) = (if 0 < K0_Long_Sem p then 0 else - 2)"
  "K1_Long_Status (take_keys p) = (if 0 < K1_Long_Sem p then 0 else - 2)"
  "K0_K1_Status (take_keys p) = (if 0 < K0_K1_Long_Sem p then 0 else - 2)"
  "K0_Sem (take_keys p) = K0_Sem p - 1" "K1_Sem (take_keys p) = K1_Sem p - 1"
  "K0_Long_Sem (take_keys p) = K0_Long_Sem p - 1" "K1_Long_Sem (take_keys p) = K1_Long_Sem p - 1"
  "K0_K1_Long_Sem (take_keys p) = K0_K1_Long_Sem p - 1" "gw (take_keys p) = gw p"
  by (simp_all add: take_keys_def rt_sem_take_eq Let_def)

text \<open>A turn of the key thread, in closed form: every semaphore that can be taken is, one action is done.\<close>

lemma served_gw:
  "gw (Key_Reponse_Callback p) =
    (if 0 < K0_Sem p \<or> 0 < K1_Sem p then gw p else if 0 < K0_K1_Long_Sem p then local_reset (gw p)
     else if 0 < K0_Long_Sem p then on_rf Start_Learn (gw p)
     else if 0 < K1_Long_Sem p then on_board (beep_start 3) (Reset_WiFi (gw p)) else gw p)"
  by (simp add: Key_Reponse_Callback_def Let_def)

lemma served_sems:
  "K0_Sem (Key_Reponse_Callback p) = K0_Sem p - 1" "K1_Sem (Key_Reponse_Callback p) = K1_Sem p - 1"
  "K0_K1_Long_Sem (Key_Reponse_Callback p) = K0_K1_Long_Sem p - 1"
  "K0_Long_Sem (Key_Reponse_Callback p) = K0_Long_Sem p - 1" "K1_Long_Sem (Key_Reponse_Callback p) = K1_Long_Sem p - 1"
  by (simp_all add: Key_Reponse_Callback_def Let_def)

lemma served_counters:
  "K0_Long_Sem_Counter (Key_Reponse_Callback p) = K0_Long_Sem_Counter p"
  "K1_Long_Sem_Counter (Key_Reponse_Callback p) = K1_Long_Sem_Counter p"
  by (simp_all add: Key_Reponse_Callback_def Let_def)

lemma panel_inv_served: "panel_inv h0 h1 bs (Key_Reponse_Callback p) = panel_inv h0 h1 bs p"
  by (simp add: panel_inv_def served_counters)

lemma panel_inv_elsewhere [simp]: "panel_inv h0 h1 bs (p\<lparr>gw := g\<rparr>) = panel_inv h0 h1 bs p"
  by (simp add: panel_inv_def)

lemma panel_reach_inv: "panel_reach h0 h1 bs p \<Longrightarrow> panel_inv h0 h1 bs p"
proof (induction rule: panel_reach.induct)
  case (start bs l0 l1 g)
  then show ?case by (rule button_Init_inv)
next
  case (sampled h0 h1 bs p l0 l1 bs' p')
  then show ?case using sample_effect(1) by blast
next
  case (served h0 h1 bs p)
  then show ?case by (simp add: panel_inv_served)
next
  case (elsewhere h0 h1 bs p g)
  then show ?case by simp
qed

section \<open>Holding the keys\<close>

text \<open>\<open>n\<close> samples with constant levels.\<close>

primrec samples :: "u8 \<Rightarrow> u8 \<Rightarrow> nat \<Rightarrow> panel buttons \<times> panel \<Rightarrow> (panel buttons \<times> panel) option" where
  "samples l0 l1 0 st = Some st"
| "samples l0 l1 (Suc n) st = (case samples l0 l1 n st of
     None \<Rightarrow> None | Some st \<Rightarrow> Button_Process (fst st, set_levels l0 l1 (snd st)))"

lemma levels_idem: "Key0_level p = l0 \<Longrightarrow> Key1_level p = l1 \<Longrightarrow> set_levels l0 l1 p = p"
  by (simp add: set_levels_def)

lemma samples_reach:
  assumes "panel_reach 0 0 bs p" "l0 \<in> {0, 1}" "l1 \<in> {0, 1}" "samples l0 l1 n (bs, p) = Some (bs', p')"
  shows "panel_reach (if l0 = 0 then n else 0) (if l1 = 0 then n else 0) bs' p'"
  using assms(4)
proof (induction n arbitrary: bs' p')
  case 0
  with assms(1) show ?case by simp
next
  case (Suc n)
  then obtain bs1 p1 where s: "samples l0 l1 n (bs, p) = Some (bs1, p1)"
    "Button_Process (bs1, set_levels l0 l1 p1) = Some (bs', p')" by (auto split: option.splits)
  from panel_reach.sampled [OF Suc.IH [OF s(1)] assms(2,3) s(2)] show ?case by (simp split: if_splits)
qed

lemma LongSem_levels:
  "Key0_level (K0_LongSem_Release p) = Key0_level p" "Key1_level (K0_LongSem_Release p) = Key1_level p"
  by (simp_all add: K0_LongSem_Release_def)

lemma LongSem_iter_levels:
  "Key0_level ((K0_LongSem_Release ^^ k) p) = Key0_level p \<and> Key1_level ((K0_LongSem_Release ^^ k) p) = Key1_level p"
  by (induction k) (simp_all add: LongSem_levels)

lemma counter_6: "k \<le> 7 \<Longrightarrow> 6 < (word_of_nat k :: u16) \<longleftrightarrow> k = 7"
  by (simp add: word_less_nat_alt unsigned_of_nat take_bit_nat_eq_self) auto

lemma LongSem_iter:
  assumes "K0_OnceFlag p = 0" "K0_Long_Sem_Counter p = 0" "K1_Long_Sem_Counter p = 0"
  shows "(K0_LongSem_Release ^^ k) p =
    (if k \<le> 7 then p\<lparr>K0_Long_Sem_Counter := word_of_nat k\<rparr>
     else p\<lparr>K0_Long_Sem_Counter := 7, K0_OnceFlag := 1, K0_Long_Sem := rt_sem_release (K0_Long_Sem p)\<rparr>)"
proof (induction k)
  case 0
  then show ?case using assms by simp
next
  case (Suc k)
  consider "k \<le> 6" | "k = 7" | "7 < k" by linarith
  then show ?case
  proof cases
    case 1
    with Suc assms counter_6 [of k] show ?thesis by (simp add: K0_LongSem_Release_def [of "p\<lparr>K0_Long_Sem_Counter := word_of_nat k\<rparr>"] add.commute)
  next
    case 2
    with Suc have "(K0_LongSem_Release ^^ k) p = p\<lparr>K0_Long_Sem_Counter := 7\<rparr>" by simp
    with 2 assms show ?thesis unfolding funpow.simps(2) comp_apply by (simp add: K0_LongSem_Release_def)
  next
    case 3
    with Suc show ?thesis by (simp add: K0_LongSem_Release_def [of "p\<lparr>K0_Long_Sem_Counter := 7, K0_OnceFlag := 1, K0_Long_Sem := rt_sem_release (K0_Long_Sem p)\<rparr>"])
  qed
qed

lemma LongSem_trigger: "k0.key_button b \<Longrightarrow> TRIGGER_CB BUTTON_LONG b = K0_LongSem_Release"
  using k0.trigger(2) by (simp add: fun_eq_iff)

lemma samples_hold:
  fixes p :: panel
  assumes lk: "linked bs (Head_Button bs) [1, 0]" and k0: "k0.key_button (btn bs 0)"
    and k1: "k1.key_button (btn bs 1)" "Button_State (btn bs 1) = NONE_TRIGGER"
    and lv: "Key0_level p = 0" "Key1_level p = 1"
  shows "\<exists>bs'. samples 0 1 n (bs, p) = Some (bs', snd ((sample ^^ n) (btn bs 0, p))) \<and>
    linked bs' (Head_Button bs') [1, 0] \<and> btn bs' 0 = fst ((sample ^^ n) (btn bs 0, p)) \<and> btn bs' 1 = btn bs 1"
proof (induction n)
  case 0
  with lk show ?case by simp
next
  case (Suc n)
  let ?q = "(sample ^^ n) (btn bs 0, p)"
  from Suc obtain bs' where r: "samples 0 1 n (bs, p) = Some (bs', snd ?q)" "linked bs' (Head_Button bs') [1, 0]"
    "btn bs' 0 = fst ?q" "btn bs' 1 = btn bs 1" by blast
  have wf: "button_wf (btn bs 0)" "Read_Button_Level (btn bs 0) p = 0" "keeps_level (btn bs 0)"
    using k0 lv by (auto simp: k0.key_button_def Read_K0_Level_def keeps_level_def LongSem_levels)
  have "snd ?q = (TRIGGER_CB BUTTON_LONG (btn bs 0) ^^ (long_samples (btn bs 0) n div 25)) p"
    using hold_counts [OF wf, of n] by blast
  then have lev: "Key0_level (snd ?q) = 0" "Key1_level (snd ?q) = 1"
    using LongSem_iter_levels lv by (simp_all add: LongSem_trigger [OF k0])
  have one: "Button_Cycle_Process (btn bs' 1) (snd ?q) = (btn bs' 1, snd ?q)"
    using k1 lev sample_up [of "btn bs' 1" "snd ?q"] r(4) by (simp add: k1.key_button_def Read_K1_Level_def)
  have "Button_Process (bs', snd ?q) = Some (set_btn 0 (fst (sample ?q)) (set_btn 1 (btn bs' 1) bs'), snd (sample ?q))"
    unfolding process_two [OF r(2)] one by (simp add: r(3) sample_def split_beta)
  moreover have "Next (fst (sample ?q)) = Next (btn bs' 0)" by (simp add: sample_def cycle_keeps_next r(3))
  ultimately show ?case using r levels_idem [OF lev] by simp
qed

lemma hold_first:
  assumes init: "button_Init no_buttons = Some bs"
  shows "\<exists>bs'. samples 0 1 n (bs, set_levels 0 1 (start_panel g)) =
    Some (bs', (K0_LongSem_Release ^^ ((n - 199) div 25)) (set_levels 0 1 (start_panel g)))"
proof -
  let ?p = "set_levels 0 1 (start_panel g)"
  have b: "linked bs (Head_Button bs) [1, 0]" "k0.key_button (btn bs 0)" "k1.key_button (btn bs 1)"
    "Button_State (btn bs 1) = NONE_TRIGGER" "Long_Time (btn bs 0) = 0" "Button_Cycle (btn bs 0) = 0"
    using button_Init_start init button_Init_inv [OF init] by (auto simp: panel_inv_def)
  have "\<exists>bs'. samples 0 1 n (bs, ?p) = Some (bs', snd ((sample ^^ n) (btn bs 0, ?p)))"
    using samples_hold [OF b(1-4), of ?p n] by (auto simp: set_levels_def)
  moreover have "snd ((sample ^^ n) (btn bs 0, ?p)) = (K0_LongSem_Release ^^ ((n - 199) div 25)) ?p"
    using hold_counts [of "btn bs 0" ?p n] b(2,5,6)
    by (auto simp: k0.key_button_def Read_K0_Level_def keeps_level_def LongSem_levels LongSem_trigger set_levels_def long_samples_def)
  ultimately show ?thesis by simp
qed

text \<open>Holding the first key alone starts the learning of a device, once: from the start of the
  gateway on, after fewer than 399 samples nothing has been asked for; after 399 samples or more, however
  many, the key thread has exactly one request, and serving it sends the learn packet and nothing else.\<close>

lemma hold_key0_learns_once:
  "\<exists>bs. button_Init no_buttons = Some bs \<and> (\<forall>n g. \<exists>bs' p'.
     samples 0 1 n (bs, set_levels 0 1 (start_panel g)) = Some (bs', p') \<and>
     gw (Key_Reponse_Callback p') = (if 399 \<le> n then on_rf Start_Learn g else g) \<and>
     gw (Key_Reponse_Callback (Key_Reponse_Callback p')) = gw (Key_Reponse_Callback p'))"
proof -
  obtain bs where init: "button_Init no_buttons = Some bs" using button_Init_start by blast
  have "\<exists>bs' p'. samples 0 1 n (bs, set_levels 0 1 (start_panel g)) = Some (bs', p') \<and>
     gw (Key_Reponse_Callback p') = (if 399 \<le> n then on_rf Start_Learn g else g) \<and>
     gw (Key_Reponse_Callback (Key_Reponse_Callback p')) = gw (Key_Reponse_Callback p')" for n g
  proof -
    let ?p = "set_levels 0 1 (start_panel g)" and ?k = "(n - 199) div 25"
    let ?q = "(K0_LongSem_Release ^^ ?k) ?p"
    obtain bs' where s: "samples 0 1 n (bs, ?p) = Some (bs', (K0_LongSem_Release ^^ ?k) ?p)"
      using hold_first [OF init] by blast
    have "?k \<le> 7 \<longleftrightarrow> n < 399" by auto
    then have q: "gw ?q = g" "K0_Sem ?q = 0" "K1_Sem ?q = 0" "K1_Long_Sem ?q = 0" "K0_K1_Long_Sem ?q = 0"
      "K0_Long_Sem ?q = (if n < 399 then 0 else 1)"
      using LongSem_iter [of ?p ?k] by (simp_all add: set_levels_def start_panel_def rt_sem_release_def)
    have one: "gw (Key_Reponse_Callback ?q) = (if 399 \<le> n then on_rf Start_Learn g else g)"
      using q by (simp add: served_gw)
    have "gw (Key_Reponse_Callback (Key_Reponse_Callback ?q)) = gw (Key_Reponse_Callback ?q)"
      using q by (simp add: served_gw [of "Key_Reponse_Callback ?q"] served_sems)
    with s one show ?thesis by blast
  qed
  with init show ?thesis by blast
qed

section \<open>Holding both keys\<close>

definition both_long :: "panel \<Rightarrow> panel" where
  "both_long p = K0_LongSem_Release (K1_LongSem_Release p)"

lemma both_levels:
  "Key0_level ((both_long ^^ k) p) = Key0_level p \<and> Key1_level ((both_long ^^ k) p) = Key1_level p"
  by (induction k) (simp_all add: both_long_def K0_LongSem_Release_def K1_LongSem_Release_def Let_def)

lemma both_iter:
  assumes "K0_OnceFlag p = 0" "K1_OnceFlag p = 0" "K0_Long_Sem_Counter p = 0" "K1_Long_Sem_Counter p = 0"
  shows "(both_long ^^ k) p =
    (if k \<le> 7 then p\<lparr>K0_Long_Sem_Counter := word_of_nat k, K1_Long_Sem_Counter := word_of_nat k\<rparr>
     else p\<lparr>K0_Long_Sem_Counter := 7, K1_Long_Sem_Counter := 7, K1_OnceFlag := 1,
            K0_K1_Long_Sem := rt_sem_release (K0_K1_Long_Sem p)\<rparr>)"
proof (induction k)
  case 0
  then show ?case using assms by simp
next
  case (Suc k)
  consider "k \<le> 6" | "k = 7" | "7 < k" by linarith
  then show ?case
  proof cases
    case 1
    then have n: "\<not> 6 < (word_of_nat k :: u16)" using counter_6 [of k] by simp
    have "both_long (p\<lparr>K0_Long_Sem_Counter := word_of_nat k, K1_Long_Sem_Counter := word_of_nat k\<rparr>) =
        p\<lparr>K0_Long_Sem_Counter := word_of_nat (Suc k), K1_Long_Sem_Counter := word_of_nat (Suc k)\<rparr>"
      using n assms by (simp add: both_long_def K0_LongSem_Release_def K1_LongSem_Release_def add.commute)
    with Suc 1 show ?thesis by simp
  next
    case 2
    with Suc have "(both_long ^^ k) p = p\<lparr>K0_Long_Sem_Counter := 7, K1_Long_Sem_Counter := 7\<rparr>" by simp
    with 2 assms show ?thesis unfolding funpow.simps(2) comp_apply
      by (simp add: both_long_def K0_LongSem_Release_def K1_LongSem_Release_def)
  next
    case 3
    let ?q = "p\<lparr>K0_Long_Sem_Counter := 7, K1_Long_Sem_Counter := 7, K1_OnceFlag := 1,
      K0_K1_Long_Sem := rt_sem_release (K0_K1_Long_Sem p)\<rparr>"
    have "both_long ?q = ?q" by (simp add: both_long_def K0_LongSem_Release_def K1_LongSem_Release_def)
    with Suc 3 show ?thesis by simp
  qed
qed

text \<open>A button after \<open>n\<close> samples of a press that began with both of its counters at zero.\<close>

definition held :: "nat \<Rightarrow> panel Button_t \<Rightarrow> bool" where
  "held n b \<longleftrightarrow> button_wf b \<and> unat (Button_Cycle b) = (n - 199) mod 25 \<and>
     (if n < 200 then unat (Long_Time b) = n else 200 \<le> unat (Long_Time b))"

lemma over_199: "Suc n - 199 = (if n < 199 then 0 else Suc (n - 199))"
  by auto

lemma held_step:
  assumes "held n b" "Read_Button_Level b s = 0"
  shows "held (Suc n) (fst (Button_Cycle_Process b s))"
    and "snd (Button_Cycle_Process b s) = (if (Suc n - 199) div 25 = (n - 199) div 25 then s else TRIGGER_CB BUTTON_LONG b s)"
proof -
  have wf: "button_wf b" using assms(1) by (simp add: held_def)
  note d = down_counts [OF wf, of s, folded sample_down [OF wf assms(2)]]
  have long: "199 \<le> unat (Long_Time b) \<longleftrightarrow> 199 \<le> n" using assms(1) by (auto simp: held_def split: if_splits)
  show "snd (Button_Cycle_Process b s) = (if (Suc n - 199) div 25 = (n - 199) div 25 then s else TRIGGER_CB BUTTON_LONG b s)"
    unfolding d(4) over_199 long using assms(1) by (simp add: held_def Suc_div_25)
  have "button_wf (fst (Button_Cycle_Process b s))" using button_sample_keeps_wf [OF wf] assms(2) by simp
  then show "held (Suc n) (fst (Button_Cycle_Process b s))"
    unfolding held_def d(2) over_199 using d(1) assms(1) long by (auto simp: held_def mod_Suc_eq split: if_splits)
qed

lemma samples_both:
  assumes lk: "linked bs (Head_Button bs) [1, 0]" and kb: "k0.key_button (btn bs 0)" "k1.key_button (btn bs 1)"
    and h: "held 0 (btn bs 0)" "held 0 (btn bs 1)" and lv: "Key0_level p = 0" "Key1_level p = 0"
  shows "\<exists>bs'. samples 0 0 n (bs, p) = Some (bs', (both_long ^^ ((n - 199) div 25)) p) \<and>
    linked bs' (Head_Button bs') [1, 0] \<and> k0.key_button (btn bs' 0) \<and> k1.key_button (btn bs' 1) \<and>
    held n (btn bs' 0) \<and> held n (btn bs' 1)"
proof (induction n)
  case 0
  with lk kb h show ?case by simp
next
  case (Suc n)
  let ?q = "(both_long ^^ ((n - 199) div 25)) p"
  from Suc obtain bs' where r: "samples 0 0 n (bs, p) = Some (bs', ?q)" "linked bs' (Head_Button bs') [1, 0]"
    "k0.key_button (btn bs' 0)" "k1.key_button (btn bs' 1)" "held n (btn bs' 0)" "held n (btn bs' 1)" by blast
  have lev: "Key0_level ?q = 0" "Key1_level ?q = 0" using both_levels lv by simp_all
  obtain b1 p1 where c1: "Button_Cycle_Process (btn bs' 1) ?q = (b1, p1)" by fastforce
  obtain b0 p0 where c0: "Button_Cycle_Process (btn bs' 0) p1 = (b0, p0)" by fastforce
  have rd1: "Read_Button_Level (btn bs' 1) ?q = 0" using r(4) lev by (simp add: k1.key_button_def Read_K1_Level_def)
  note s1 = held_step [OF r(6) rd1, unfolded c1 fst_conv snd_conv k1.trigger(2) [OF r(4)]]
  have "Key0_level p1 = 0" using s1(2) lev by (simp add: K1_LongSem_Release_def Let_def)
  then have rd0: "Read_Button_Level (btn bs' 0) p1 = 0" using r(3) by (simp add: k0.key_button_def Read_K0_Level_def)
  note s0 = held_step [OF r(5) rd0, unfolded c0 fst_conv snd_conv k0.trigger(2) [OF r(3)]]
  have step: "(Suc n - 199) div 25 = (n - 199) div 25 \<or> (Suc n - 199) div 25 = Suc ((n - 199) div 25)"
    unfolding over_199 by (simp add: Suc_div_25)
  have p0: "p0 = (both_long ^^ ((Suc n - 199) div 25)) p" using step s1(2) s0(2) by (auto simp: both_long_def)
  have "Next b1 = Next (btn bs' 1)" "Next b0 = Next (btn bs' 0)"
    using cycle_keeps_next [of "btn bs' 1" ?q] cycle_keeps_next [of "btn bs' 0" p1] c1 c0 by simp_all
  moreover have "k0.key_button b0" "k1.key_button b1"
    using k0.key_button_sample [OF r(3), of p1] k1.key_button_sample [OF r(4), of ?q] c0 c1 lev \<open>Key0_level p1 = 0\<close>
    by (simp_all add: Read_K0_Level_def Read_K1_Level_def)
  ultimately show ?case
    using r(1,2) c1 c0 p0 s1(1) s0(1) by (simp add: levels_idem [OF lev] process_two [OF r(2)])
qed

lemma hold_both:
  assumes init: "button_Init no_buttons = Some bs"
  shows "\<exists>bs'. samples 0 0 n (bs, set_levels 0 0 (start_panel g)) =
    Some (bs', (both_long ^^ ((n - 199) div 25)) (set_levels 0 0 (start_panel g)))"
proof -
  have b: "linked bs (Head_Button bs) [1, 0]" "k0.key_button (btn bs 0)" "k1.key_button (btn bs 1)"
    "held 0 (btn bs 0)" "held 0 (btn bs 1)"
    using button_Init_start init button_Init_inv [OF init] by (auto simp: panel_inv_def held_def)
  from samples_both [OF this, of "set_levels 0 0 (start_panel g)" n] show ?thesis by (auto simp: set_levels_def)
qed

lemma both_start:
  fixes n :: nat and g :: gateway
  defines "q \<equiv> (both_long ^^ ((n - 199) div 25)) (set_levels 0 0 (start_panel g))"
  shows "gw q = g" "K0_Sem q = 0" "K1_Sem q = 0" "K0_Long_Sem q = 0" "K1_Long_Sem q = 0"
    "K0_K1_Long_Sem q = (if n < 399 then 0 else 1)"
proof -
  have "(n - 199) div 25 \<le> 7 \<longleftrightarrow> n < 399" by auto
  then show "gw q = g" "K0_Sem q = 0" "K1_Sem q = 0" "K0_Long_Sem q = 0" "K1_Long_Sem q = 0"
    "K0_K1_Long_Sem q = (if n < 399 then 0 else 1)"
    using both_iter [of "set_levels 0 0 (start_panel g)" "(n - 199) div 25"]
    by (simp_all add: q_def set_levels_def start_panel_def rt_sem_release_def)
qed

lemma local_reset_forgets:
  "\<exists>d. LoadDevice2Memory (dev (local_reset g)) = Inr d \<and> Global_Device d = Device_Info_zero"
proof -
  have "env_number ef_env_set_default ''Learn_Nums'' = 0" "env_number ef_env_set_default ''Main_Nums'' = 0"
    by (simp_all add: env_number_def ef_env_set_default_def ef_get_env_blob_def)
  then show ?thesis
    by (simp add: local_reset_def on_dev_def on_board_def on_wifi_def LoadDevice2Memory_def Flash_Get_Learn_Nums_def
        Flash_Get_Main_Nums_def set_Num_def set_MainNum_def Device_Info_zero_def Let_def)
qed

text \<open>Property C23. Holding both keys resets the gateway, once: from the start of the gateway on, 399 samples or
  more of both keys down, however many, give exactly one local reset and no other action; before, nothing
  happens. The reset empties the store, so that the next start-up finds no device.\<close>

theorem hold_both_resets_once:
  "\<exists>bs. button_Init no_buttons = Some bs \<and> (\<forall>n g. \<exists>bs' p'.
     samples 0 0 n (bs, set_levels 0 0 (start_panel g)) = Some (bs', p') \<and>
     gw (Key_Reponse_Callback p') = (if 399 \<le> n then local_reset g else g) \<and>
     gw (Key_Reponse_Callback (Key_Reponse_Callback p')) = gw (Key_Reponse_Callback p') \<and>
     (\<exists>d. LoadDevice2Memory (dev (local_reset g)) = Inr d \<and> Global_Device d = Device_Info_zero))"
proof -
  obtain bs where init: "button_Init no_buttons = Some bs" using button_Init_start by blast
  have "\<exists>bs' p'. samples 0 0 n (bs, set_levels 0 0 (start_panel g)) = Some (bs', p') \<and>
     gw (Key_Reponse_Callback p') = (if 399 \<le> n then local_reset g else g) \<and>
     gw (Key_Reponse_Callback (Key_Reponse_Callback p')) = gw (Key_Reponse_Callback p') \<and>
     (\<exists>d. LoadDevice2Memory (dev (local_reset g)) = Inr d \<and> Global_Device d = Device_Info_zero)" for n g
  proof -
    obtain bs' q where s: "samples 0 0 n (bs, set_levels 0 0 (start_panel g)) = Some (bs', q)"
      and q: "gw q = g" "K0_Sem q = 0" "K1_Sem q = 0" "K0_Long_Sem q = 0" "K1_Long_Sem q = 0"
        "K0_K1_Long_Sem q = (if n < 399 then 0 else 1)"
      using hold_both [OF init, of n g] both_start [of n g] by blast
    have one: "gw (Key_Reponse_Callback q) = (if 399 \<le> n then local_reset g else g)" by (simp add: served_gw q)
    have "gw (Key_Reponse_Callback (Key_Reponse_Callback q)) = gw (Key_Reponse_Callback q)"
      by (simp add: served_gw [of "Key_Reponse_Callback q"] served_sems q)
    with s one local_reset_forgets [of g] show ?thesis by blast
  qed
  with init show ?thesis by blast
qed

text \<open>Property C22. A local reset takes both keys: whatever the keys did before, a sample that asks for the
  local reset has the second key down for at least 176 samples in a row and the first key for at least
  126.\<close>

theorem local_reset_needs_both:
  assumes "panel_reach h0 h1 bs p" "l0 \<in> {0, 1}" "l1 \<in> {0, 1}"
    and "Button_Process (bs, set_levels l0 l1 p) = Some (bs', p')" "K0_K1_Long_Sem p < K0_K1_Long_Sem p'"
  shows "l1 = 0 \<and> 176 \<le> Suc h1 \<and> 126 \<le> h0"
  using sample_effect(3) [OF panel_reach_inv [OF assms(1)] assms(2-5)] by simp

theorem local_reset_needs_both_witness:
  "\<exists>bs p bs' p'. panel_reach 398 398 bs p \<and> Button_Process (bs, set_levels 0 0 p) = Some (bs', p') \<and>
    K0_K1_Long_Sem p < K0_K1_Long_Sem p' \<and> (0 :: u8) = 0 \<and> (176 :: nat) \<le> Suc 398 \<and> (126 :: nat) \<le> 398"
proof -
  obtain bs0 where init: "button_Init no_buttons = Some bs0" using button_Init_start by blast
  let ?g = small_gateway and ?p = "\<lambda>n. (both_long ^^ ((n - 199) div 25)) (set_levels 0 0 (start_panel small_gateway))"
  obtain bs where s: "samples 0 0 398 (bs0, set_levels 0 0 (start_panel ?g)) = Some (bs, ?p 398)"
    using hold_both [OF init] by blast
  obtain bs' where s': "samples 0 0 (Suc 398) (bs0, set_levels 0 0 (start_panel ?g)) = Some (bs', ?p (Suc 398))"
    using hold_both [OF init] by blast
  have start: "panel_reach 0 0 bs0 (set_levels 0 0 (start_panel ?g))"
    by (rule panel_reach.start [OF init])
  have r: "panel_reach 398 398 bs (?p 398)" using samples_reach [OF start _ _ s] by simp
  have step: "Button_Process (bs, set_levels 0 0 (?p 398)) = Some (bs', ?p (Suc 398))" using s' unfolding samples.simps(2) s by simp
  have less: "K0_K1_Long_Sem (?p 398) < K0_K1_Long_Sem (?p (Suc 398))"
    using both_start(6) [of 398 ?g] both_start(6) [of "Suc 398" ?g] by simp
  from local_reset_needs_both [OF r _ _ step less] r step less show ?thesis by blast
qed

end
