(* ===== verification/System.thy ===== *)
theory System
  imports Heart_Poll Commands Keys
begin

text \<open>
  The gateway as a whole: \<open>main\<close> of \<open>src/applications/main.c\<close> with the factory mode of
  \<open>src/applications/factory.c\<close>, and the threads, timers and interrupts it starts as one step relation. A step
  is what a thread does between two of its waits, one timer callback, one byte of the serial interrupt
  or one radio packet; steps interleave in any order. Preemption inside a step is not part of the model.
  A step that faults, or a loop that does not end, leads to the state \<open>Inl\<close> of that fault, which has no successor.
\<close>

section \<open>State and start-up\<close>

record system =
  keys :: "panel buttons"
  face :: panel
  line :: uart_rx
  sync_at :: sync_pc
  heart_at :: heart_pc

abbreviation gate :: "system \<Rightarrow> gateway" where "gate s \<equiv> gw (face s)"

definition on_gate :: "(gateway \<Rightarrow> gateway) \<Rightarrow> system \<Rightarrow> system" where
  "on_gate f s = s\<lparr>face := (face s)\<lparr>gw := f (gate s)\<rparr>\<rparr>"

definition on_link :: "(wifi_link \<Rightarrow> wifi_link) \<Rightarrow> system \<Rightarrow> system" where
  "on_link f s = (case f (line s, gate s) of (rx, g) \<Rightarrow> on_gate (\<lambda>_. g) (s\<lparr>line := rx\<rparr>))"










section \<open>Steps\<close>




section \<open>The invariant of the gateway under every step\<close>


lemma on_gate_simps [simp]:
  "gate (on_gate f s) = f (gate s)" "line (on_gate f s) = line s" "keys (on_gate f s) = keys s"
  "face (on_gate f s) = (face s)\<lparr>gw := f (gate s)\<rparr>"
  by (simp_all add: on_gate_def)

lemma on_link_simps [simp]:
  "gate (on_link f s) = snd (f (line s, gate s))" "line (on_link f s) = fst (f (line s, gate s))"
  "keys (on_link f s) = keys s" "face (on_link f s) = (face s)\<lparr>gw := snd (f (line s, gate s))\<rparr>"
  by (simp_all add: on_link_def split_beta)








lemma gateway_wf_sync_retry [simp]: "gateway_wf (set_SyncRetry v g) = gateway_wf g"
  by (simp add: set_SyncRetry_def gateway_wf_def table_wf_def)



















section \<open>Property\<close>





end
