(* ===== verification/Ef_Flash.thy ===== *)
theory Ef_Flash
  imports Ef_Crc Ota
begin

unbundle bit_operations_syntax

text \<open>
  The flash store EasyFlash (\<open>src/packages/EasyFlash-v4.1.0/src/ef_env.c\<close>), as \<open>src/rtconfig.h\<close> configures it:
  write granularity of one byte, sectors of 128 KB, caches of 16 nodes and 4 sectors, its partition at the
  start of the NOR flash (\<open>src/storage/fal_cfg.h\<close>). Here its port to the flash and its status tables. All
  addresses are below 256 KB, so they are natural numbers here where no sentinel is needed.
\<close>

section \<open>The port\<close>

abbreviation (input) ef_len :: nat where "ef_len \<equiv> 1024 * 1024"
abbreviation (input) FAILED_ADDR :: u32 where "FAILED_ADDR \<equiv> 0xFFFFFFFF"
abbreviation (input) SECTOR_SIZE :: nat where "SECTOR_SIZE \<equiv> 131072"
abbreviation (input) ENV_MAGIC_OFFSET :: nat where "ENV_MAGIC_OFFSET \<equiv> 8"
abbreviation (input) ENV_HDR_DATA_SIZE :: nat where "ENV_HDR_DATA_SIZE \<equiv> 28"
abbreviation (input) EF_ENV_NAME_MAX :: nat where "EF_ENV_NAME_MAX \<equiv> 32"
abbreviation (input) ENV_MAGIC_WORD :: u32 where "ENV_MAGIC_WORD \<equiv> 0x3034564B"

datatype EfErrCode = EF_NO_ERR | EF_ERASE_ERR | EF_READ_ERR | EF_WRITE_ERR | EF_ENV_NAME_ERR | EF_ENV_NAME_EXIST
  | EF_ENV_FULL | EF_ENV_INIT_FAILED

text \<open>Inside the partition; a read behind its end leaves the caller's buffer as it was.\<close>

definition ef_port_read :: "nat \<Rightarrow> nat \<Rightarrow> nor \<Rightarrow> bytes" where
  "ef_port_read addr n f = map (\<lambda>i. cells f (addr + i)) [0..<n]"

definition ef_port_write :: "nat \<Rightarrow> bytes \<Rightarrow> nor \<Rightarrow> EfErrCode \<times> nor" where
  "ef_port_write addr buf f =
    (if addr + length buf > ef_len then (EF_WRITE_ERR, f)
     else case nor_write addr buf f of (ok, f) \<Rightarrow> (if ok then EF_NO_ERR else EF_WRITE_ERR, f))"

definition ef_port_erase :: "nat \<Rightarrow> nat \<Rightarrow> nor \<Rightarrow> EfErrCode \<times> nor" where
  "ef_port_erase addr sz f =
    (if addr + sz > ef_len then (EF_ERASE_ERR, f)
     else case nor_erase addr sz f of (ok, f) \<Rightarrow> (if ok then EF_NO_ERR else EF_ERASE_ERR, f))"

lemma ef_port_write_ok:
  "addr + length buf \<le> ef_len \<Longrightarrow> \<not> dead f \<Longrightarrow> ef_port_write addr buf f = (EF_NO_ERR, snd (nor_write addr buf f))"
  by (simp add: ef_port_write_def nor_write_def)

lemma ef_port_read_add: "ef_port_read a (m + n) f = ef_port_read a m f @ ef_port_read (a + m) n f"
  by (rule nth_equalityI) (auto simp: ef_port_read_def nth_append)

lemma ef_port_read_length [simp]: "length (ef_port_read a n f) = n"
  by (simp add: ef_port_read_def)

lemma ef_port_read_nth [simp]: "i < n \<Longrightarrow> ef_port_read a n f ! i = cells f (a + i)"
  by (simp add: ef_port_read_def)

section \<open>Status tables\<close>

text \<open>With the index of the changed byte; status 0 changes none.\<close>

definition set_status :: "nat \<Rightarrow> nat \<Rightarrow> nat option \<times> bytes" where
  "set_status status_num status_index =
    (let status_table = replicate (status_num - 1) 0xFF
     in if status_index > 0 then (Some (status_index - 1), status_table[status_index - 1 := 0])
        else (None, status_table))"

fun status_loop :: "bytes \<Rightarrow> nat \<Rightarrow> nat \<Rightarrow> nat" where
  "status_loop status_table 0 i = i"
| "status_loop status_table (Suc status_num) i =
     (if status_table ! status_num = 0 then i else status_loop status_table status_num (i + 1))"

definition get_status :: "bytes \<Rightarrow> nat \<Rightarrow> nat" where
  "get_status status_table status_num =
    (let status_num_bak = status_num - 1 in status_num_bak - status_loop status_table status_num_bak 0)"

definition write_status :: "nat \<Rightarrow> nat \<Rightarrow> nat \<Rightarrow> nor \<Rightarrow> EfErrCode \<times> nor" where
  "write_status addr status_num status_index f =
    (case set_status status_num status_index of
       (None, _) \<Rightarrow> (EF_NO_ERR, f)
     | (Some byte_index, status_table) \<Rightarrow> ef_port_write (addr + byte_index) [status_table ! byte_index] f)"

definition read_status :: "nat \<Rightarrow> nat \<Rightarrow> nor \<Rightarrow> nat" where
  "read_status addr total_num f = get_status (ef_port_read addr (total_num - 1) f) total_num"

section \<open>A status only grows\<close>

primrec last_zero :: "bytes \<Rightarrow> nat \<Rightarrow> nat" where
  "last_zero tab 0 = 0"
| "last_zero tab (Suc n) = (if tab ! n = 0 then Suc n else last_zero tab n)"

lemma last_zero_le: "last_zero tab n \<le> n"
  by (induction n) auto

lemma status_loop_zero: "status_loop tab n i + last_zero tab n = i + n"
  by (induction n arbitrary: i) auto

lemma get_status_zero: "get_status tab n = last_zero tab (n - 1)"
  using status_loop_zero [of tab "n - 1" 0] by (simp add: get_status_def Let_def)

text \<open>The table at \<open>addr\<close> after the statuses \<open>W\<close> were written to it.\<close>

definition status_written :: "nat \<Rightarrow> nat \<Rightarrow> nat set \<Rightarrow> nor \<Rightarrow> bool" where
  "status_written addr num W f \<longleftrightarrow> \<not> dead f \<and> (\<forall>j < num - 1. cells f (addr + j) = (if Suc j \<in> W then 0 else 0xFF))"

lemma write_status_written:
  assumes "status_written addr num W f" "s < num" "addr + num \<le> ef_len"
  shows "fst (write_status addr num s f) = EF_NO_ERR" "status_written addr num (insert s W) (snd (write_status addr num s f))"
    and "a < addr \<or> addr + num \<le> a + 1 \<Longrightarrow> cells (snd (write_status addr num s f)) a = cells f a"
proof -
  have "write_status addr num s f = (EF_NO_ERR, if s = 0 then f else snd (nor_write (addr + (s - 1)) [0] f))"
    using assms by (auto simp: write_status_def set_status_def ef_port_write_ok status_written_def Let_def)
  then show "fst (write_status addr num s f) = EF_NO_ERR" "status_written addr num (insert s W) (snd (write_status addr num s f))"
    "a < addr \<or> addr + num \<le> a + 1 \<Longrightarrow> cells (snd (write_status addr num s f)) a = cells f a"
    using assms by (auto simp: status_written_def nor_write_def)
qed

lemma last_zero_max:
  assumes "\<And>j. j < n \<Longrightarrow> tab ! j = 0 \<longleftrightarrow> Suc j \<in> W"
  shows "last_zero tab n = Max (insert 0 {s \<in> W. s \<le> n})"
  using assms
proof (induction n)
  case 0
  have "insert 0 {s \<in> W. s \<le> 0} = {0}" by auto
  then show ?case by (simp only: last_zero.simps Max_singleton)
next
  case (Suc n)
  have fin: "finite {s \<in> W. s \<le> m}" for m by simp
  show ?case
  proof (cases "Suc n \<in> W")
    case True
    then have "{s \<in> W. s \<le> Suc n} = insert (Suc n) {s \<in> W. s \<le> n}" by (auto simp: le_Suc_eq)
    moreover have "Max (insert 0 (insert (Suc n) {s \<in> W. s \<le> n})) = Suc n"
      by (rule Max_eqI) auto
    ultimately show ?thesis using Suc.prems True by simp
  next
    case False
    then have "{s \<in> W. s \<le> Suc n} = {s \<in> W. s \<le> n}" by (auto simp: le_Suc_eq)
    with Suc False show ?thesis by simp
  qed
qed

lemma read_status_written:
  assumes "status_written addr num W f" "0 < num" "\<And>s. s \<in> W \<Longrightarrow> s < num"
  shows "read_status addr num f = Max (insert 0 W)"
proof -
  have "{s \<in> W. s \<le> num - 1} = W" using assms(2,3) by fastforce
  moreover have "ef_port_read addr (num - 1) f ! j = 0 \<longleftrightarrow> Suc j \<in> W" if "j < num - 1" for j
    using assms(1) that by (simp add: ef_port_read_def status_written_def)
  ultimately show ?thesis using last_zero_max [of "num - 1" "ef_port_read addr (num - 1) f" W]
    by (simp add: read_status_def get_status_zero)
qed

definition write_all :: "nat \<Rightarrow> nat \<Rightarrow> nat list \<Rightarrow> nor \<Rightarrow> nor" where
  "write_all addr num ss f = fold (\<lambda>s f. snd (write_status addr num s f)) ss f"

lemma write_all_written:
  assumes "status_written addr num W f" "\<forall>s \<in> set ss. s < num" "addr + num \<le> ef_len"
  shows "status_written addr num (set ss \<union> W) (write_all addr num ss f)"
  using assms
proof (induction ss arbitrary: f W)
  case Nil
  then show ?case by (simp add: write_all_def)
next
  case (Cons s ss)
  have "status_written addr num (insert s W) (snd (write_status addr num s f))"
    using write_status_written(2) Cons.prems by simp
  from Cons.IH [OF this] Cons.prems show ?case by (simp add: write_all_def)
qed

text \<open>A status in flash survives interruptions: on an erased status table every sequence of status
  writes, also one that is cut short or repeats itself, reads back as the greatest status written, or as 0.\<close>

lemma status_reads_greatest:
  assumes "\<not> dead f" "\<forall>j < num. cells f (addr + j) = 0xFF" "0 < num" "addr + num \<le> ef_len" "\<forall>s \<in> set ss. s < num"
  shows "read_status addr num (write_all addr num ss f) = fold max ss 0"
proof -
  have "status_written addr num {} f" using assms(1,2) by (simp add: status_written_def)
  from write_all_written [OF this assms(5,4)]
  have "read_status addr num (write_all addr num ss f) = Max (insert 0 (set ss))"
    using read_status_written [OF _ assms(3), of addr "set ss"] assms(5) by simp
  also have "\<dots> = fold max ss 0" using Max.set_eq_fold [of 0 ss] by simp
  finally show ?thesis .
qed

end
