(* ===== verification/Ef_Cache.thy ===== *)
theory Ef_Cache
  imports Ef_Flash
begin

unbundle bit_operations_syntax

text \<open>
  The two caches of \<open>ef_env.c\<close>: the addresses of the nodes used last, by a checksum of their names, and the
  first free address of the sectors in use. Both are small tables that are searched from their start; the
  theorems say that they are maps.
\<close>

section \<open>Caches\<close>

record env_cache_node =
  name_crc :: u16
  ec_active :: u16
  ec_addr :: u32

record sector_cache_node =
  sc_addr :: u32
  empty_addr :: u32

abbreviation (input) EF_ENV_CACHE_TABLE_SIZE :: nat where "EF_ENV_CACHE_TABLE_SIZE \<equiv> 16"
abbreviation (input) EF_SECTOR_CACHE_TABLE_SIZE :: nat where "EF_SECTOR_CACHE_TABLE_SIZE \<equiv> 4"

definition crc_of_name :: "bytes \<Rightarrow> u16" where
  "crc_of_name name = ucast (drop_bit 16 (ef_calc_crc32 0 name))"

text \<open>The loop of \<open>update_sector_cache\<close>: the table, whether it returned, and \<open>empty_index\<close>.\<close>

fun sector_scan :: "u32 \<Rightarrow> u32 \<Rightarrow> nat \<Rightarrow> nat \<Rightarrow> sector_cache_node list \<Rightarrow> sector_cache_node list \<times> bool \<times> nat" where
  "sector_scan sec_addr em i empty_index [] = ([], False, empty_index)"
| "sector_scan sec_addr em i empty_index (n # ns) =
    (if em > sec_addr \<and> em < sec_addr + 131072 then
       if sc_addr n = sec_addr then (n\<lparr>sc_addr := sec_addr, empty_addr := em\<rparr> # ns, True, empty_index)
       else (case sector_scan sec_addr em (i + 1)
               (if sc_addr n = FAILED_ADDR \<and> empty_index = EF_SECTOR_CACHE_TABLE_SIZE then i else empty_index) ns of
               (ns, r) \<Rightarrow> (n # ns, r))
     else if sc_addr n = sec_addr then (n\<lparr>sc_addr := FAILED_ADDR\<rparr> # ns, True, empty_index)
     else (case sector_scan sec_addr em (i + 1) empty_index ns of (ns, r) \<Rightarrow> (n # ns, r)))"

definition update_sector_cache :: "u32 \<Rightarrow> u32 \<Rightarrow> sector_cache_node list \<Rightarrow> sector_cache_node list" where
  "update_sector_cache sec_addr em t =
    (case sector_scan sec_addr em 0 EF_SECTOR_CACHE_TABLE_SIZE t of
       (t, returned, empty_index) \<Rightarrow>
         if \<not> returned \<and> empty_index < EF_SECTOR_CACHE_TABLE_SIZE
         then t[empty_index := (t ! empty_index)\<lparr>sc_addr := sec_addr, empty_addr := em\<rparr>] else t)"

definition get_sector_from_cache :: "u32 \<Rightarrow> sector_cache_node list \<Rightarrow> u32 option" where
  "get_sector_from_cache sec_addr t = map_option empty_addr (find (\<lambda>n. sc_addr n = sec_addr) t)"

text \<open>A round of the loop of \<open>update_env_cache\<close> over a node with another name: the node, \<open>empty_index\<close>,
  \<open>min_activity_index\<close> and \<open>min_activity\<close>.\<close>

definition env_visit :: "u32 \<Rightarrow> nat \<Rightarrow> env_cache_node \<Rightarrow> nat \<Rightarrow> nat \<Rightarrow> u16 \<Rightarrow> env_cache_node \<times> nat \<times> nat \<times> u16" where
  "env_visit addr i n empty_index min_index min_activity =
    (if addr \<noteq> FAILED_ADDR then
       if ec_addr n = FAILED_ADDR \<and> empty_index = EF_ENV_CACHE_TABLE_SIZE then (n, i, min_index, min_activity)
       else if ec_addr n \<noteq> FAILED_ADDR then
         (let n = (if ec_active n > 0 then n\<lparr>ec_active := ec_active n - 1\<rparr> else n)
          in if ec_active n < min_activity then (n, empty_index, i, ec_active n)
             else (n, empty_index, min_index, min_activity))
       else (n, empty_index, min_index, min_activity)
     else (n, empty_index, min_index, min_activity))"

text \<open>The loop: the table, whether it returned, \<open>empty_index\<close> and \<open>min_activity_index\<close>.\<close>

fun env_scan :: "u16 \<Rightarrow> u32 \<Rightarrow> nat \<Rightarrow> nat \<Rightarrow> nat \<Rightarrow> u16 \<Rightarrow> env_cache_node list \<Rightarrow> env_cache_node list \<times> bool \<times> nat \<times> nat" where
  "env_scan crc addr i empty_index min_index min_activity [] = ([], False, empty_index, min_index)"
| "env_scan crc addr i empty_index min_index min_activity (n # ns) =
    (if name_crc n = crc then
       ((if addr \<noteq> FAILED_ADDR then n\<lparr>ec_addr := addr\<rparr> else n\<lparr>ec_addr := FAILED_ADDR, ec_active := 0\<rparr>) # ns,
        True, empty_index, min_index)
     else (case env_visit addr i n empty_index min_index min_activity of
       (n, empty_index, min_index, min_activity) \<Rightarrow>
         (case env_scan crc addr (i + 1) empty_index min_index min_activity ns of (ns, r) \<Rightarrow> (n # ns, r))))"

definition update_env_cache :: "bytes \<Rightarrow> u32 \<Rightarrow> env_cache_node list \<Rightarrow> env_cache_node list" where
  "update_env_cache name addr t =
    (let crc = crc_of_name name;
         new = \<lparr>name_crc = crc, ec_active = 0, ec_addr = addr\<rparr>
     in case env_scan crc addr 0 EF_ENV_CACHE_TABLE_SIZE EF_ENV_CACHE_TABLE_SIZE 0xFFFF t of
          (t, returned, empty_index, min_index) \<Rightarrow>
            if returned then t
            else if empty_index < EF_ENV_CACHE_TABLE_SIZE then t[empty_index := new]
            else if min_index < EF_ENV_CACHE_TABLE_SIZE then t[min_index := new]
            else t)"

text \<open>\<open>strncmp\<close> of a name of at most 32 characters with the bytes in flash.\<close>

definition cache_hit :: "bytes \<Rightarrow> nor \<Rightarrow> env_cache_node \<Rightarrow> bool" where
  "cache_hit name f n \<longleftrightarrow> ec_addr n \<noteq> FAILED_ADDR \<and> name_crc n = crc_of_name name \<and>
     take (length name) (ef_port_read (unat (ec_addr n) + ENV_HDR_DATA_SIZE) EF_ENV_NAME_MAX f) = name"

primrec get_env_from_cache :: "bytes \<Rightarrow> nor \<Rightarrow> env_cache_node list \<Rightarrow> u32 option \<times> env_cache_node list" where
  "get_env_from_cache name f [] = (None, [])"
| "get_env_from_cache name f (n # ns) =
    (if cache_hit name f n then
       (Some (ec_addr n),
        n\<lparr>ec_active := (if ec_active n \<ge> 0xFFFF - 16 then 0xFFFF else ec_active n + 16)\<rparr> # ns)
     else (case get_env_from_cache name f ns of (r, ns) \<Rightarrow> (r, n # ns)))"

section \<open>The node cache\<close>

text \<open>What the node cache remembers, without the degrees of activity.\<close>

definition cached :: "env_cache_node list \<Rightarrow> (u16 \<times> u32) list" where
  "cached t = map (\<lambda>n. (name_crc n, ec_addr n)) t"

primrec set_first :: "'a \<Rightarrow> 'b \<Rightarrow> ('a \<times> 'b) list \<Rightarrow> ('a \<times> 'b) list" where
  "set_first k v [] = []"
| "set_first k v (x # xs) = (if fst x = k then (k, v) # xs else x # set_first k v xs)"

lemma env_visit_cached:
  "env_visit addr i n e m a = (n', r) \<Longrightarrow> name_crc n' = name_crc n \<and> ec_addr n' = ec_addr n"
  by (auto simp: env_visit_def Let_def split: if_splits)

lemma env_scan_cached:
  "env_scan crc addr i e m a t = (t', r, e', m') \<Longrightarrow>
     cached t' = set_first crc addr (cached t) \<and> (r \<longleftrightarrow> crc \<in> name_crc ` set t)"
  by (induction crc addr i e m a t arbitrary: t' r e' m' rule: env_scan.induct)
    (auto simp: cached_def split: if_splits prod.splits dest: env_visit_cached)

lemma u16_less_max: "x < 0xFFFF \<longleftrightarrow> x \<noteq> 0xFFFF" for x :: u16
proof -
  have "(0xFFFF :: u16) = - 1" by simp
  then show ?thesis using word_order.not_eq_extremum [of x] by (simp only:)
qed

lemma env_visit_free:
  assumes "env_visit addr i n e m a = (n', e', m', a')" "addr \<noteq> FAILED_ADDR" "e \<le> 16" "m \<le> 16" "i < 16"
    "m = 16 \<Longrightarrow> a = 0xFFFF"
  shows "e' \<le> 16 \<and> m' \<le> 16 \<and> (e < 16 \<longrightarrow> e' < 16) \<and> (m < 16 \<longrightarrow> m' < 16) \<and> (e' < 16 \<or> m' < 16) \<and> (m' = 16 \<longrightarrow> a' = 0xFFFF)"
proof -
  have "(if ec_active n > 0 then ec_active n - 1 else ec_active n) \<noteq> 0xFFFF"
    by (cases "ec_active n = 0") (auto simp: word_gt_0 diff_eq_eq)
  then have "(if ec_active n > 0 then ec_active n - 1 else ec_active n) < 0xFFFF" by (rule iffD2 [OF u16_less_max])
  with assms show ?thesis by (auto simp: env_visit_def Let_def split: if_splits)
qed

lemma env_scan_free:
  "\<lbrakk>env_scan crc addr i e m a t = (t', False, e', m'); addr \<noteq> FAILED_ADDR; e \<le> 16; m \<le> 16; i + length t \<le> 16;
    m = 16 \<Longrightarrow> a = 0xFFFF\<rbrakk> \<Longrightarrow>
     e' \<le> 16 \<and> m' \<le> 16 \<and> (e < 16 \<or> m < 16 \<or> t \<noteq> [] \<longrightarrow> e' < 16 \<or> m' < 16)"
proof (induction t arbitrary: i e m a t' e' m')
  case Nil
  then show ?case by simp
next
  case (Cons n ns)
  obtain n1 e1 m1 a1 where v: "env_visit addr i n e m a = (n1, e1, m1, a1)" by (metis prod_cases4)
  then have "e1 \<le> 16 \<and> m1 \<le> 16 \<and> (e1 < 16 \<or> m1 < 16) \<and> (m1 = 16 \<longrightarrow> a1 = 0xFFFF)"
    using env_visit_free [OF v] Cons.prems by simp
  with Cons.prems v Cons.IH [of "i + 1" e1 m1 a1] show ?case by (auto split: if_splits prod.splits)
qed

text \<open>Of the entries with one checksum only the first is in use.\<close>

primrec once :: "(u16 \<times> u32) list \<Rightarrow> bool" where
  "once [] = True"
| "once (x # xs) = ((\<forall>y \<in> set xs. fst y = fst x \<longrightarrow> snd y = FAILED_ADDR) \<and> once xs)"

definition cache_wf :: "env_cache_node list \<Rightarrow> bool" where
  "cache_wf t \<longleftrightarrow> length t = EF_ENV_CACHE_TABLE_SIZE \<and> once (cached t)"

lemma get_env_from_cache_cached:
  "fst (get_env_from_cache name f t)
     = map_option snd (find (\<lambda>(c, a). cache_hit name f \<lparr>name_crc = c, ec_active = 0, ec_addr = a\<rparr>) (cached t))"
  "cached (snd (get_env_from_cache name f t)) = cached t"
  by (induction t) (auto simp: cached_def cache_hit_def split: prod.splits)

lemma set_first_length [simp]: "length (set_first k v xs) = length xs"
  by (induction xs) auto

lemma set_first_absent: "k \<notin> fst ` set xs \<Longrightarrow> set_first k v xs = xs"
  by (induction xs) auto

lemma find_set_first:
  "k \<in> fst ` set xs \<Longrightarrow> (\<And>x. P x \<Longrightarrow> fst x = k) \<Longrightarrow> P (k, v) \<Longrightarrow> find P (set_first k v xs) = Some (k, v)"
  by (induction xs) auto

lemma find_update:
  "i < length xs \<Longrightarrow> (\<And>x. x \<in> set xs \<Longrightarrow> \<not> P x) \<Longrightarrow> P v \<Longrightarrow> find P (xs[i := v]) = Some v"
  by (induction xs arbitrary: i) (auto simp: nth_Cons split: nat.splits)

text \<open>A new node always finds a place: the entry of its name, a free one, or the least active one.\<close>

lemma update_env_cache_cached:
  assumes "length t = 16" "addr \<noteq> FAILED_ADDR"
  obtains "crc_of_name name \<in> fst ` set (cached t)"
      "cached (update_env_cache name addr t) = set_first (crc_of_name name) addr (cached t)"
  | i where "i < 16" "crc_of_name name \<notin> fst ` set (cached t)"
      "cached (update_env_cache name addr t) = (cached t)[i := (crc_of_name name, addr)]"
proof -
  obtain t' r e m where s: "env_scan (crc_of_name name) addr 0 16 16 0xFFFF t = (t', r, e, m)" by (metis prod_cases4)
  from env_scan_cached [OF s]
  have c: "cached t' = set_first (crc_of_name name) addr (cached t)" "r \<longleftrightarrow> crc_of_name name \<in> fst ` set (cached t)"
    by (force simp: cached_def)+
  show thesis
  proof (cases r)
    case True
    with c s show thesis by (intro that(1)) (auto simp: update_env_cache_def)
  next
    case False
    with s have s': "env_scan (crc_of_name name) addr 0 16 16 0xFFFF t = (t', False, e, m)" by simp
    from env_scan_free [OF s'] assms have "e < 16 \<or> m < 16" by auto
    with False c s show thesis
      by (intro that(2) [of "if e < 16 then e else m"])
        (auto simp: update_env_cache_def set_first_absent cached_def map_update)
  qed
qed

text \<open>What is put into the node cache is found there: after \<open>update_env_cache\<close> with the address of a
  node that carries the name in flash, \<open>get_env_from_cache\<close> returns that address, also when the table was
  full and whatever its entries and their degrees of activity were.\<close>

lemma cached_node_found:
  assumes "length t = EF_ENV_CACHE_TABLE_SIZE" "addr \<noteq> FAILED_ADDR"
    "take (length name) (ef_port_read (unat addr + ENV_HDR_DATA_SIZE) EF_ENV_NAME_MAX f) = name"
  shows "fst (get_env_from_cache name f (update_env_cache name addr t)) = Some addr"
  using assms(1,2)
proof (cases rule: update_env_cache_cached [of t addr name])
  case 1
  then have "find (\<lambda>(c, a). cache_hit name f \<lparr>name_crc = c, ec_active = 0, ec_addr = a\<rparr>)
      (set_first (crc_of_name name) addr (cached t)) = Some (crc_of_name name, addr)"
    using assms by (intro find_set_first) (auto simp: cache_hit_def)
  with 1 show ?thesis by (simp add: get_env_from_cache_cached(1))
next
  case (2 i)
  then have "find (\<lambda>(c, a). cache_hit name f \<lparr>name_crc = c, ec_active = 0, ec_addr = a\<rparr>)
      ((cached t)[i := (crc_of_name name, addr)]) = Some (crc_of_name name, addr)"
    using assms by (intro find_update) (force simp: cached_def cache_hit_def)+
  with 2 show ?thesis by (simp add: get_env_from_cache_cached(1))
qed

lemma once_set_first: "once xs \<Longrightarrow> once (set_first k v xs)"
proof (induction xs)
  case (Cons x xs)
  have "set (set_first k v xs) \<subseteq> insert (k, v) (set xs)" for xs by (induction xs) auto
  then show ?case using Cons by fastforce
qed simp

lemma once_update: "once xs \<Longrightarrow> k \<notin> fst ` set xs \<Longrightarrow> once (xs[i := (k, v)])"
proof (induction xs arbitrary: i)
  case (Cons x xs)
  then show ?case using set_update_subset_insert [of xs _ "(k, v)"]
    by (cases i) fastforce+
qed simp

lemma update_env_cache_failed:
  "cached (update_env_cache name FAILED_ADDR t) = set_first (crc_of_name name) FAILED_ADDR (cached t)"
proof -
  obtain t' r e m where s: "env_scan (crc_of_name name) FAILED_ADDR 0 16 16 0xFFFF t = (t', r, e, m)"
    by (metis prod_cases4)
  have "env_scan c FAILED_ADDR i 16 16 a t = (t', r, e, m) \<Longrightarrow> e = 16 \<and> m = 16" for c i a t t' r e m
    by (induction t arbitrary: i t') (auto simp: env_visit_def split: if_splits prod.splits)
  from this [OF s] s env_scan_cached [OF s] show ?thesis by (auto simp: update_env_cache_def Let_def)
qed

lemma cache_wf_cached: "cache_wf t \<longleftrightarrow> length (cached t) = 16 \<and> once (cached t)"
  by (simp add: cache_wf_def cached_def)

lemma cache_wf_update:
  assumes "cache_wf t"
  shows "cache_wf (update_env_cache name addr t)"
proof (cases "addr = FAILED_ADDR")
  case True
  with assms show ?thesis by (simp add: cache_wf_cached update_env_cache_failed once_set_first)
next
  case False
  have "length t = 16" using assms by (simp add: cache_wf_def)
  then show ?thesis using False
  proof (cases rule: update_env_cache_cached [of t addr name])
    case 1
    with assms show ?thesis by (simp add: cache_wf_cached once_set_first)
  next
    case (2 i)
    with assms show ?thesis by (simp add: cache_wf_cached once_update)
  qed
qed

lemma cache_wf_get: "cache_wf t \<Longrightarrow> cache_wf (snd (get_env_from_cache name f t))"
  by (simp add: cache_wf_cached get_env_from_cache_cached(2))

lemma find_set_first_failed:
  "once xs \<Longrightarrow> (\<And>x. P x \<Longrightarrow> fst x = k \<and> snd x \<noteq> FAILED_ADDR) \<Longrightarrow> find P (set_first k FAILED_ADDR xs) = None"
proof (induction xs)
  case (Cons x xs)
  have ih: "find P (set_first k FAILED_ADDR xs) = None" using Cons by simp
  have "\<not> P x" if "fst x \<noteq> k" using Cons.prems(2) that by blast
  moreover have "\<not> P y" if "fst x = k" "y \<in> set xs" for y using Cons.prems that by fastforce
  moreover have "\<not> P (k, FAILED_ADDR)" using Cons.prems(2) by fastforce
  ultimately show ?case using ih by (cases "fst x = k") (auto simp: find_None_iff)
qed simp

text \<open>A deleted node is gone from the cache: in every table the cache can be in, after
  \<open>update_env_cache\<close> with no address the name is not found, and the table keeps its invariant.\<close>

lemma deleted_node_gone:
  assumes "cache_wf t"
  shows "fst (get_env_from_cache name f (update_env_cache name FAILED_ADDR t)) = None
    \<and> cache_wf (update_env_cache name FAILED_ADDR t)"
proof -
  have "find (\<lambda>(c, a). cache_hit name f \<lparr>name_crc = c, ec_active = 0, ec_addr = a\<rparr>)
      (set_first (crc_of_name name) FAILED_ADDR (cached t)) = None"
    using assms by (intro find_set_first_failed) (auto simp: cache_wf_def cache_hit_def)
  then show ?thesis using assms
    by (simp add: get_env_from_cache_cached(1) update_env_cache_failed cache_wf_update)
qed

section \<open>The sector cache\<close>

definition in_sector :: "u32 \<Rightarrow> u32 \<Rightarrow> bool" where
  "in_sector sec em \<longleftrightarrow> sec < em \<and> em < sec + 131072"

definition sectors_wf :: "sector_cache_node list \<Rightarrow> bool" where
  "sectors_wf t \<longleftrightarrow> length t = EF_SECTOR_CACHE_TABLE_SIZE \<and>
     (\<forall>i < length t. \<forall>j < length t. sc_addr (t ! i) = sc_addr (t ! j) \<longrightarrow> sc_addr (t ! j) \<noteq> FAILED_ADDR \<longrightarrow> i = j)"

definition sector_entry :: "u32 \<Rightarrow> u32 \<Rightarrow> sector_cache_node \<Rightarrow> sector_cache_node" where
  "sector_entry sec em n =
    (if in_sector sec em then n\<lparr>sc_addr := sec, empty_addr := em\<rparr> else n\<lparr>sc_addr := FAILED_ADDR\<rparr>)"

lemma sector_scan_found:
  "sec \<in> sc_addr ` set t \<Longrightarrow> \<exists>k e'. k < length t \<and> sc_addr (t ! k) = sec \<and>
     sector_scan sec em i e t = (t[k := sector_entry sec em (t ! k)], True, e')"
proof (induction t arbitrary: i e)
  case (Cons n ns)
  show ?case
  proof (cases "sc_addr n = sec")
    case True
    then have "sector_scan sec em i e (n # ns) = ((n # ns)[0 := sector_entry sec em ((n # ns) ! 0)], True, e)"
      by (simp add: sector_entry_def in_sector_def)
    with True show ?thesis by fastforce
  next
    case False
    with Cons.prems have "sec \<in> sc_addr ` set ns" by auto
    from Cons.IH [OF this, of "i + 1"
        "if in_sector sec em \<and> sc_addr n = FAILED_ADDR \<and> e = 4 then i else e"] obtain k e' where
      "k < length ns" "sc_addr (ns ! k) = sec"
      "sector_scan sec em (i + 1) (if in_sector sec em \<and> sc_addr n = FAILED_ADDR \<and> e = 4 then i else e) ns
        = (ns[k := sector_entry sec em (ns ! k)], True, e')" by blast
    with False show ?thesis by (intro exI [of _ "Suc k"] exI [of _ e']) (auto simp: in_sector_def)
  qed
qed simp

lemma sector_scan_absent:
  "sec \<notin> sc_addr ` set t \<Longrightarrow> \<exists>e'. sector_scan sec em i e t = (t, False, e') \<and>
     (\<not> in_sector sec em \<or> e \<noteq> 4 \<longrightarrow> e' = e) \<and>
     (in_sector sec em \<and> e = 4 \<and> i + length t \<le> 4 \<and> FAILED_ADDR \<in> sc_addr ` set t \<longrightarrow>
        i \<le> e' \<and> e' < i + length t \<and> sc_addr (t ! (e' - i)) = FAILED_ADDR)"
proof (induction t arbitrary: i e)
  case (Cons n ns)
  then have ne: "sc_addr n \<noteq> sec" "sec \<notin> sc_addr ` set ns" by auto
  let ?e = "if in_sector sec em \<and> sc_addr n = FAILED_ADDR \<and> e = 4 then i else e"
  from Cons.IH [OF ne(2), of "i + 1" ?e] obtain e' where e': "sector_scan sec em (i + 1) ?e ns = (ns, False, e')"
    "\<not> in_sector sec em \<or> ?e \<noteq> 4 \<longrightarrow> e' = ?e"
    "in_sector sec em \<and> ?e = 4 \<and> i + 1 + length ns \<le> 4 \<and> FAILED_ADDR \<in> sc_addr ` set ns \<longrightarrow>
       i + 1 \<le> e' \<and> e' < i + 1 + length ns \<and> sc_addr (ns ! (e' - (i + 1))) = FAILED_ADDR" by blast
  have "sector_scan sec em i e (n # ns) = (n # ns, False, e')"
    using ne e'(1) by (auto simp: in_sector_def split: if_splits)
  then show ?case using e'(2,3) by (auto simp: nth_Cons' split: if_splits)
qed simp

text \<open>Where an update changes the table.\<close>

lemma update_sector_cache_changed:
  assumes "length t = 4" "sec \<noteq> FAILED_ADDR" "FAILED_ADDR \<in> sc_addr ` set t \<or> sec \<in> sc_addr ` set t"
  obtains k where "k < 4" "sc_addr (t ! k) = sec \<or> sec \<notin> sc_addr ` set t \<and> in_sector sec em \<and> sc_addr (t ! k) = FAILED_ADDR"
      "update_sector_cache sec em t = t[k := sector_entry sec em (t ! k)]"
  | "sec \<notin> sc_addr ` set t" "\<not> in_sector sec em" "update_sector_cache sec em t = t"
proof (cases "sec \<in> sc_addr ` set t")
  case True
  from sector_scan_found [OF this, of em 0 4] assms show thesis
    by (auto simp: update_sector_cache_def intro: that(1))
next
  case False
  from sector_scan_absent [OF this, of em 0 4] assms False obtain e where
    "sector_scan sec em 0 4 t = (t, False, e)" "\<not> in_sector sec em \<longrightarrow> e = 4"
    "in_sector sec em \<longrightarrow> e < 4 \<and> sc_addr (t ! e) = FAILED_ADDR" by auto
  with False assms show thesis
    by (cases "in_sector sec em") (auto simp: update_sector_cache_def sector_entry_def intro: that)
qed

lemma sectors_wfD:
  "sectors_wf t \<Longrightarrow> i < 4 \<Longrightarrow> j < 4 \<Longrightarrow> sc_addr (t ! i) = sc_addr (t ! j) \<Longrightarrow> sc_addr (t ! j) \<noteq> FAILED_ADDR \<Longrightarrow> i = j"
  unfolding sectors_wf_def by metis

lemma sector_lookup:
  assumes "sectors_wf t" "k < 4" "sc_addr (t ! k) = sec" "sec \<noteq> FAILED_ADDR"
  shows "get_sector_from_cache sec t = Some (empty_addr (t ! k))"
proof -
  have "sc_addr (t ! j) \<noteq> sec" if "j < k" for j
    using sectors_wfD [OF assms(1), of j k] that assms(2,3,4) by auto
  moreover have "length t = 4" using assms(1) by (simp add: sectors_wf_def)
  ultimately have "find (\<lambda>n. sc_addr n = sec) t = Some (t ! k)"
    using assms(2,3) by (subst find_Some_iff) (auto intro!: exI [of _ k])
  then show ?thesis by (simp add: get_sector_from_cache_def)
qed

lemma sector_missing: "sec \<notin> sc_addr ` set t \<Longrightarrow> get_sector_from_cache sec t = None"
  by (auto simp: get_sector_from_cache_def find_None_iff)

lemma sectors_wf_put:
  assumes wf: "sectors_wf t" and k: "k < 4"
    and n: "sc_addr n = FAILED_ADDR \<or> (\<forall>i < 4. i \<noteq> k \<longrightarrow> sc_addr (t ! i) \<noteq> sc_addr n)"
  shows "sectors_wf (t[k := n])"
  unfolding sectors_wf_def
proof (intro conjI allI impI)
  have len: "length t = 4" using wf by (simp add: sectors_wf_def)
  then show "length (t[k := n]) = 4" by simp
  fix i j
  assume ij: "i < length (t[k := n])" "j < length (t[k := n])" "sc_addr (t[k := n] ! i) = sc_addr (t[k := n] ! j)"
    "sc_addr (t[k := n] ! j) \<noteq> FAILED_ADDR"
  show "i = j"
  proof (cases "i = k \<or> j = k")
    case True
    then show ?thesis using ij n len k by (auto simp: nth_list_update split: if_splits)
  next
    case False
    then show ?thesis using ij sectors_wfD [OF wf, of i j] len by simp
  qed
qed

lemma sector_lookup_other:
  assumes "sc_addr (t ! k) \<noteq> other" "sc_addr n \<noteq> other"
  shows "get_sector_from_cache other (t[k := n]) = get_sector_from_cache other t"
  using assms unfolding get_sector_from_cache_def
  by (induction t arbitrary: k) (auto split: nat.splits)

lemma update_sector_cache_map:
  assumes wf: "sectors_wf t" and sec: "sec \<noteq> FAILED_ADDR" and other: "other \<noteq> FAILED_ADDR"
    and room: "FAILED_ADDR \<in> sc_addr ` set t \<or> sec \<in> sc_addr ` set t"
  shows "sectors_wf (update_sector_cache sec em t) \<and>
    get_sector_from_cache other (update_sector_cache sec em t) =
      (if other \<noteq> sec then get_sector_from_cache other t else if in_sector sec em then Some em else None)"
proof -
  have len: "length t = 4" using wf by (simp add: sectors_wf_def)
  then show ?thesis using sec room
  proof (cases rule: update_sector_cache_changed [of t sec em])
    case (1 k)
    let ?t = "t[k := sector_entry sec em (t ! k)]"
    have unique: "sc_addr (t ! i) \<noteq> sec" if "i < 4" "i \<noteq> k" for i
      using 1(2) that sectors_wfD [OF wf, of i k] 1(1) sec len by (metis image_eqI nth_mem)
    have k: "sc_addr (?t ! k) = (if in_sector sec em then sec else FAILED_ADDR)" "in_sector sec em \<longrightarrow> empty_addr (?t ! k) = em"
      using 1(1) len by (auto simp: sector_entry_def)
    have wf': "sectors_wf ?t"
      using unique by (intro sectors_wf_put [OF wf 1(1)]) (auto simp: sector_entry_def)
    have "get_sector_from_cache sec ?t = Some em" if "in_sector sec em"
      using sector_lookup [OF wf' 1(1) _ sec] k that by simp
    moreover have "get_sector_from_cache sec ?t = None" if "\<not> in_sector sec em"
    proof (rule sector_missing)
      have "sc_addr (?t ! i) \<noteq> sec" if "i < 4" for i
        using unique [OF that] k(1) \<open>\<not> in_sector sec em\<close> sec by (cases "i = k") auto
      then show "sec \<notin> sc_addr ` set ?t" using len by (metis imageE in_set_conv_nth length_list_update)
    qed
    moreover have "get_sector_from_cache other ?t = get_sector_from_cache other t" if "other \<noteq> sec"
      using 1(2) other that by (intro sector_lookup_other) (auto simp: sector_entry_def)
    ultimately show ?thesis using 1(3) wf' by auto
  next
    case 2
    then show ?thesis using wf by (simp add: sector_missing)
  qed
qed

text \<open>The sector cache is a small map from sectors to their first free address: an update keeps
  its invariant, makes the address the one that is found for the sector when it lies in it and forgets the
  sector when it does not (that is how the caller deletes an entry), and leaves every other sector alone.\<close>

lemma sector_cache_map:
  assumes wf: "sectors_wf t" and sec: "sec \<noteq> FAILED_ADDR" and other: "other \<noteq> FAILED_ADDR"
    and room: "FAILED_ADDR \<in> sc_addr ` set t \<or> sec \<in> sc_addr ` set t"
  shows "sectors_wf (update_sector_cache sec em t) \<and>
    get_sector_from_cache other (update_sector_cache sec em t) =
      (if other \<noteq> sec then get_sector_from_cache other t else if in_sector sec em then Some em else None)"
  by (rule update_sector_cache_map [OF assms])

end
