(* ===== verification/Ef_Scan.thy ===== *)
theory Ef_Scan
  imports Ef_Cache
begin

unbundle bit_operations_syntax

text \<open>
  The two scans of \<open>ef_env.c\<close> over the flash, for the free bytes at the end of a sector and for the next node,
  and what each finds.
\<close>

section \<open>Scans over the flash\<close>

text \<open>The inner loop of \<open>continue_ff_addr\<close> over the bytes of a buffer read from \<open>start\<close>.\<close>

fun ff_bytes :: "nat \<Rightarrow> bytes \<Rightarrow> u8 \<times> nat \<Rightarrow> u8 \<times> nat" where
  "ff_bytes start [] (last_data, addr) = (last_data, addr)"
| "ff_bytes start (b # bs) (last_data, addr) =
     ff_bytes (start + 1) bs (b, if last_data \<noteq> 0xFF \<and> b = 0xFF then start else addr)"

function ff_loop :: "nat \<Rightarrow> nat \<Rightarrow> nor \<Rightarrow> u8 \<times> nat \<Rightarrow> u8 \<times> nat" where
  "ff_loop start fin f st =
    (if start < fin then
       (let read_size = (if start + 32 < fin then 32 else fin - start)
        in ff_loop (start + 32) fin f (ff_bytes start (ef_port_read start read_size f) st))
     else st)"
  by pat_completeness auto

termination by (relation "measure (\<lambda>(start, fin, f, st). fin - start)") auto

declare ff_loop.simps [simp del]

definition continue_ff_addr :: "nat \<Rightarrow> nat \<Rightarrow> nor \<Rightarrow> nat" where
  "continue_ff_addr start fin f =
    (case ff_loop start fin f (0, start) of (last_data, addr) \<Rightarrow> if last_data = 0xFF then addr else fin)"

definition magic_of :: "bytes \<Rightarrow> nat \<Rightarrow> u32" where
  "magic_of buf i = ucast (buf ! i) + push_bit 8 (ucast (buf ! (i + 1))) + push_bit 16 (ucast (buf ! (i + 2))) +
     push_bit 24 (ucast (buf ! (i + 3)))"

text \<open>The difference of the source is unsigned.\<close>

definition env_before :: "nat \<Rightarrow> nat" where
  "env_before a = (a + 2 ^ 32 - ENV_MAGIC_OFFSET) mod 2 ^ 32"

function magic_inner :: "bytes \<Rightarrow> nat \<Rightarrow> nat \<Rightarrow> nat \<Rightarrow> nat \<Rightarrow> nat option" where
  "magic_inner buf start start_bak fin i =
    (if i < 28 \<and> start + i < fin then
       if magic_of buf i = ENV_MAGIC_WORD \<and> env_before (start + i) \<ge> start_bak then Some (env_before (start + i))
       else magic_inner buf start start_bak fin (i + 1)
     else None)"
  by pat_completeness auto

termination by (relation "measure (\<lambda>(buf, start, start_bak, fin, i). 28 - i)") auto

declare magic_inner.simps [simp del]

function magic_outer :: "nat \<Rightarrow> nat \<Rightarrow> nat \<Rightarrow> nor \<Rightarrow> nat option" where
  "magic_outer start start_bak fin f =
    (if start < fin then
       (case magic_inner (ef_port_read start 32 f) start start_bak fin 0 of
          Some a \<Rightarrow> Some a
        | None \<Rightarrow> magic_outer (start + 28) start_bak fin f)
     else None)"
  by pat_completeness auto

termination by (relation "measure (\<lambda>(start, start_bak, fin, f). fin - start)") auto

declare magic_outer.simps [simp del]

definition find_next_env_addr :: "nat \<Rightarrow> nat \<Rightarrow> sector_cache_node list \<Rightarrow> nor \<Rightarrow> nat option" where
  "find_next_env_addr start fin t f =
    (if get_sector_from_cache (word_of_nat (start - start mod SECTOR_SIZE)) t = Some (word_of_nat start) then None
     else magic_outer start start fin f)"

section \<open>The scans against their specification\<close>

lemma ff_bytes_append: "ff_bytes s (xs @ ys) st = ff_bytes (s + length xs) ys (ff_bytes s xs st)"
  by (induction s xs st rule: ff_bytes.induct) auto

lemma ff_loop_bytes: "ff_loop start fin f st = ff_bytes start (ef_port_read start (fin - start) f) st"
proof (induction start fin f st rule: ff_loop.induct)
  case (1 start fin f st)
  consider "start \<ge> fin" | "start < fin" "fin \<le> start + 32" | "start + 32 < fin" by linarith
  then show ?case
  proof cases
    case 1
    then show ?thesis by (cases st) (simp add: ff_loop.simps [of start] ef_port_read_def)
  next
    case 2
    then show ?thesis by (simp add: ff_loop.simps [of start] ff_loop.simps [of "start + 32"])
  next
    case 3
    then have "fin - start = 32 + (fin - (start + 32))" by simp
    then have "ef_port_read start (fin - start) f
        = ef_port_read start 32 f @ ef_port_read (start + 32) (fin - (start + 32)) f"
      by (simp only: ef_port_read_add)
    with 3 "1" [OF _ refl] show ?thesis by (simp add: ff_loop.simps [of start] ff_bytes_append)
  qed
qed

lemma ff_bytes_tail:
  "fst (ff_bytes s xs (0, s)) = (if xs = [] then 0 else last xs)"
  "(if fst (ff_bytes s xs (0, s)) = 0xFF then snd (ff_bytes s xs (0, s)) else s + length xs)
     = s + length xs - length (takeWhile (\<lambda>b. b = 0xFF) (rev xs))"
proof (induction xs rule: rev_induct)
  case Nil
  case 1 show ?case by simp
  case 2 show ?case by simp
next
  case (snoc b xs)
  obtain l a where st: "ff_bytes s xs (0, s) = (l, a)" by fastforce
  case 1 show ?case by (simp add: ff_bytes_append st)
  have le: "length (takeWhile (\<lambda>b. b = 0xFF) (rev xs)) \<le> length xs"
    using length_takeWhile_le [of _ "rev xs"] by simp
  case 2 show ?case using snoc.IH(2) le by (auto simp: ff_bytes_append st split: if_splits)
qed

text \<open>The free space of a sector: \<open>continue_ff_addr\<close>, which reads the flash in pieces of 32 bytes,
  returns the start of the erased bytes at the very end of the range, or the end when its last byte is written.\<close>

lemma continue_ff_addr_tail:
  assumes "start \<le> fin"
  shows "continue_ff_addr start fin f
    = fin - length (takeWhile (\<lambda>b. b = 0xFF) (rev (ef_port_read start (fin - start) f)))"
  using ff_bytes_tail(2) [of start "ef_port_read start (fin - start) f"] assms
  by (simp add: continue_ff_addr_def ff_loop_bytes case_prod_beta split: if_splits)

definition magic_at :: "nor \<Rightarrow> nat \<Rightarrow> u32" where
  "magic_at f a = magic_of (ef_port_read a 4 f) 0"

lemma magic_of_read: "i < 29 \<Longrightarrow> magic_of (ef_port_read a 32 f) i = magic_at f (a + i)"
  by (simp add: magic_of_def magic_at_def add.assoc)

definition next_magic :: "nat \<Rightarrow> nat \<Rightarrow> nat \<Rightarrow> nor \<Rightarrow> nat option" where
  "next_magic start_bak start fin f =
    map_option env_before (find (\<lambda>a. magic_at f a = ENV_MAGIC_WORD \<and> start_bak \<le> env_before a) [start..<fin])"

lemma find_append: "find P (xs @ ys) = (case find P xs of None \<Rightarrow> find P ys | Some x \<Rightarrow> Some x)"
  by (induction xs) auto

lemma next_magic_split:
  assumes "start \<le> mid" "mid \<le> fin"
  shows "next_magic bak start fin f
    = (case next_magic bak start mid f of None \<Rightarrow> next_magic bak mid fin f | Some a \<Rightarrow> Some a)"
proof -
  have "[start..<fin] = [start..<mid] @ [mid..<fin]"
    using assms upt_add_eq_append [of start mid "fin - mid"] by simp
  then show ?thesis by (simp add: next_magic_def find_append split: option.splits)
qed

lemma magic_inner_next:
  "magic_inner (ef_port_read start 32 f) start bak fin i = next_magic bak (start + i) (min fin (start + 28)) f"
proof (induction "ef_port_read start 32 f" start bak fin i rule: magic_inner.induct)
  case (1 start bak fin i)
  show ?case
  proof (cases "i < 28 \<and> start + i < fin")
    case True
    then have "[start + i..<min fin (start + 28)] = (start + i) # [start + (i + 1)..<min fin (start + 28)]"
      by (simp add: upt_conv_Cons)
    with True 1 show ?thesis
      by (simp add: magic_inner.simps [of _ start bak fin i] next_magic_def magic_of_read)
  next
    case False
    then show ?thesis by (auto simp: magic_inner.simps [of _ start bak fin i] next_magic_def)
  qed
qed

lemma magic_outer_next: "magic_outer start bak fin f = next_magic bak start fin f"
proof (induction start bak fin f rule: magic_outer.induct)
  case (1 start bak fin f)
  show ?case
  proof (cases "start < fin")
    case True
    show ?thesis
    proof (cases "fin \<le> start + 28")
      case True
      then show ?thesis using \<open>start < fin\<close> 1
        by (auto simp: magic_outer.simps [of start] magic_inner_next min_def next_magic_def split: option.splits)
    next
      case False
      with \<open>start < fin\<close> 1 show ?thesis
        by (auto simp: magic_outer.simps [of start] magic_inner_next min_def next_magic_split [of start "start + 28" fin]
            split: option.splits)
    qed
  next
    case False
    then show ?thesis by (simp add: magic_outer.simps [of start] next_magic_def)
  qed
qed

text \<open>The next node: \<open>find_next_env_addr\<close>, which reads overlapping pieces of 32 bytes, finds the
  first address of the range that holds the magic word and whose node does not start before the range; it
  does not search when the sector cache says that the range starts behind the last node.\<close>

lemma find_next_env_addr_first:
  "find_next_env_addr start fin t f =
    (if get_sector_from_cache (word_of_nat (start - start mod SECTOR_SIZE)) t = Some (word_of_nat start) then None
     else map_option env_before
       (find (\<lambda>a. magic_at f a = ENV_MAGIC_WORD \<and> start \<le> env_before a) [start..<fin]))"
  by (simp add: find_next_env_addr_def magic_outer_next next_magic_def)

end
