(* ===== verification/Ef_Node.thy ===== *)
theory Ef_Node
  imports Ef_Scan "HOL-Library.Monad_Syntax"
begin

unbundle bit_operations_syntax

text \<open>
  One entry of the flash store, a node: its header, how \<open>create_env_blob\<close> of
  \<open>src/packages/EasyFlash-v4.1.0/src/ef_env.c\<close> writes it and how \<open>read_env\<close> reads and checks it. \<open>None\<close> stands for the assertion that
  loops for ever and for a name that does not fit its buffer.
\<close>

abbreviation (input) ENV_AREA_SIZE :: nat where "ENV_AREA_SIZE \<equiv> 262144"
abbreviation (input) SECTOR_HDR_DATA_SIZE :: nat where "SECTOR_HDR_DATA_SIZE \<equiv> 20"
abbreviation (input) ENV_NAME_LEN_OFFSET :: nat where "ENV_NAME_LEN_OFFSET \<equiv> 20"
abbreviation (input) ENV_UNUSED :: nat where "ENV_UNUSED \<equiv> 0"
abbreviation (input) ENV_PRE_WRITE :: nat where "ENV_PRE_WRITE \<equiv> 1"
abbreviation (input) ENV_WRITE :: nat where "ENV_WRITE \<equiv> 2"
abbreviation (input) ENV_PRE_DELETE :: nat where "ENV_PRE_DELETE \<equiv> 3"
abbreviation (input) ENV_DELETED :: nat where "ENV_DELETED \<equiv> 4"
abbreviation (input) ENV_ERR_HDR :: nat where "ENV_ERR_HDR \<equiv> 5"
abbreviation (input) ENV_STATUS_NUM :: nat where "ENV_STATUS_NUM \<equiv> 6"

record env_hdr_data =
  h_status_table :: bytes
  h_magic :: u32
  h_len :: u32
  h_crc32 :: u32
  h_name_len :: u8
  h_value_len :: u32

record env_node_obj =
  nd_status :: nat
  crc_is_ok :: bool
  nd_name_len :: u8
  nd_len :: u32
  nd_value_len :: u32
  nd_name :: bytes
  addr_start :: u32
  addr_value :: u32

text \<open>The layout of the header: 28 bytes, three of padding behind the status table and behind \<open>name_len\<close>.\<close>

definition env_hdr_of :: "bytes \<Rightarrow> env_hdr_data" where
  "env_hdr_of buf = \<lparr>h_status_table = take 5 buf, h_magic = magic_of buf 8, h_len = magic_of buf 12,
     h_crc32 = magic_of buf 16, h_name_len = buf ! 20, h_value_len = magic_of buf 24\<rparr>"

definition le32 :: "u32 \<Rightarrow> bytes" where
  "le32 w = [ucast w, ucast (drop_bit 8 w), ucast (drop_bit 16 w), ucast (drop_bit 24 w)]"

text \<open>The header from \<open>name_len\<close> on, and from the magic word on.\<close>

definition hdr_tail :: "env_hdr_data \<Rightarrow> bytes" where
  "hdr_tail h = [h_name_len h, 0xFF, 0xFF, 0xFF] @ le32 (h_value_len h)"

definition hdr_body :: "env_hdr_data \<Rightarrow> bytes" where
  "hdr_body h = le32 (h_magic h) @ le32 (h_len h) @ le32 (h_crc32 h) @ hdr_tail h"

section \<open>Reading\<close>

function crc_loop :: "nat \<Rightarrow> nat \<Rightarrow> nat \<Rightarrow> nor \<Rightarrow> u32 \<Rightarrow> u32" where
  "crc_loop len crc_data_len base f calc_crc32 =
    (if len < crc_data_len then
       (let sz = (if len + 32 < crc_data_len then 32 else crc_data_len - len)
        in crc_loop (len + sz) crc_data_len base f (ef_calc_crc32 calc_crc32 (ef_port_read (base + len) sz f)))
     else calc_crc32)"
  by pat_completeness auto

termination by (relation "measure (\<lambda>(len, crc_data_len, base, f, c). crc_data_len - len)") auto

declare crc_loop.simps [simp del]

definition read_env :: "env_node_obj \<Rightarrow> nor \<Rightarrow> (EfErrCode \<times> env_node_obj \<times> nor) option" where
  "read_env env f =
    (let start = unat (addr_start env);
         env_hdr = env_hdr_of (ef_port_read start ENV_HDR_DATA_SIZE f);
         env = env\<lparr>nd_status := get_status (h_status_table env_hdr) ENV_STATUS_NUM, nd_len := h_len env_hdr\<rparr>
     in if nd_len env = 0xFFFFFFFF \<or> unat (nd_len env) > ENV_AREA_SIZE \<or> unat (nd_len env) < ENV_NAME_LEN_OFFSET then
          (let env = env\<lparr>nd_len := 28\<rparr>
           in if nd_status env \<noteq> ENV_ERR_HDR
              then Some (EF_READ_ERR, env\<lparr>nd_status := ENV_ERR_HDR, crc_is_ok := False\<rparr>,
                     snd (write_status start ENV_STATUS_NUM ENV_ERR_HDR f))
              else Some (EF_READ_ERR, env\<lparr>crc_is_ok := False\<rparr>, f))
        else if unat (nd_len env) > SECTOR_SIZE - SECTOR_HDR_DATA_SIZE \<and> unat (nd_len env) < ENV_AREA_SIZE then None
        else if crc_loop 0 (unat (nd_len env) - ENV_NAME_LEN_OFFSET) (start + ENV_NAME_LEN_OFFSET) f 0 \<noteq> h_crc32 env_hdr
        then Some (EF_READ_ERR, env\<lparr>crc_is_ok := False\<rparr>, f)
        else
          (let env_name_addr = start + ENV_HDR_DATA_SIZE; n = unat (h_name_len env_hdr)
           in if n > EF_ENV_NAME_MAX then None
              else Some (EF_NO_ERR, env\<lparr>crc_is_ok := True,
                     nd_name := ef_port_read env_name_addr n f @ drop n (nd_name env),
                     addr_value := word_of_nat (env_name_addr + n), nd_value_len := h_value_len env_hdr,
                     nd_name_len := h_name_len env_hdr\<rparr>, f)))"

section \<open>Writing\<close>

definition write_env_hdr :: "nat \<Rightarrow> env_hdr_data \<Rightarrow> nor \<Rightarrow> EfErrCode \<times> nor" where
  "write_env_hdr addr env_hdr f =
    (case write_status addr ENV_STATUS_NUM ENV_PRE_WRITE f of
       (result, f) \<Rightarrow> if result \<noteq> EF_NO_ERR then (result, f) else ef_port_write (addr + ENV_MAGIC_OFFSET) (hdr_body env_hdr) f)"

text \<open>With a granularity of one byte nothing remains to be padded.\<close>

definition align_write :: "nat \<Rightarrow> bytes \<Rightarrow> nor \<Rightarrow> EfErrCode \<times> nor" where
  "align_write addr buf f = ef_port_write addr buf f"

text \<open>The header of a new node: before and with its checksum.\<close>

definition new_env_hdr :: "bytes \<Rightarrow> nat \<Rightarrow> env_hdr_data" where
  "new_env_hdr key len = \<lparr>h_status_table = replicate 5 0xFF, h_magic = ENV_MAGIC_WORD,
     h_len = word_of_nat (ENV_HDR_DATA_SIZE + unat (word_of_nat (length key) :: u8) + unat (word_of_nat len :: u32)),
     h_crc32 = 0xFFFFFFFF, h_name_len = word_of_nat (length key), h_value_len = word_of_nat len\<rparr>"

definition sealed_hdr :: "bytes \<Rightarrow> bytes \<Rightarrow> env_hdr_data" where
  "sealed_hdr key v =
    (let h = new_env_hdr key (length v)
     in h\<lparr>h_crc32 := ef_calc_crc32 (ef_calc_crc32 (ef_calc_crc32 0 (hdr_tail h)) key) v\<rparr>)"

text \<open>The writes of \<open>create_env_blob\<close> for one node, each only when those before it succeeded.\<close>

definition write_node :: "nat \<Rightarrow> bytes \<Rightarrow> bytes \<Rightarrow> nor \<Rightarrow> EfErrCode \<times> nor" where
  "write_node env_addr key v f =
    (case write_env_hdr env_addr (sealed_hdr key v) f of (result, f) \<Rightarrow>
     case (if result = EF_NO_ERR then align_write (env_addr + ENV_HDR_DATA_SIZE) key f else (result, f)) of (result, f) \<Rightarrow>
     case (if result = EF_NO_ERR then align_write (env_addr + ENV_HDR_DATA_SIZE + length key) v f else (result, f)) of
       (result, f) \<Rightarrow>
     if result = EF_NO_ERR then write_status env_addr ENV_STATUS_NUM ENV_WRITE f else (result, f))"

section \<open>A node is read as it was written\<close>

lemma or_disjoint: "\<lbrakk>\<And>n. n < 32 \<Longrightarrow> bit a n \<Longrightarrow> bit b n \<Longrightarrow> False\<rbrakk> \<Longrightarrow> a + b = a OR b" for a b :: u32
  by (rule disjunctive_add_eq_or) (auto intro!: bit_word_eqI simp: bit_simps)

lemma magic_of_le32: "magic_of (xs @ le32 w @ ys) (length xs) = w"
proof -
  let ?p = "\<lambda>k. push_bit k (ucast (ucast (drop_bit k w) :: u8)) :: u32"
  have "magic_of (xs @ le32 w @ ys) (length xs) = ?p 0 + ?p 8 + ?p 16 + ?p 24"
    by (simp add: magic_of_def le32_def nth_append)
  also have "\<dots> = ((?p 0 OR ?p 8) + ?p 16) + ?p 24"
    by (subst or_disjoint [of "?p 0"]) (auto simp: bit_simps)
  also have "\<dots> = (?p 0 OR ?p 8 OR ?p 16) + ?p 24"
    by (subst or_disjoint [of "?p 0 OR ?p 8"]) (auto simp: bit_simps or.assoc)
  also have "\<dots> = ?p 0 OR ?p 8 OR ?p 16 OR ?p 24"
    by (subst or_disjoint [of "?p 0 OR ?p 8 OR ?p 16"]) (auto simp: bit_simps or.assoc)
  also have "\<dots> = w"
  proof (rule bit_word_eqI)
    fix n
    assume "n < LENGTH(32)"
    then show "bit (?p 0 OR ?p 8 OR ?p 16 OR ?p 24) n \<longleftrightarrow> bit w n" by (cases "24 \<le> n"; cases "16 \<le> n") (auto simp: bit_simps)
  qed
  finally show ?thesis .
qed

lemma crc_loop_all: "crc_loop len n base f c = ef_calc_crc32 c (ef_port_read (base + len) (n - len) f)"
proof (induction len n base f c rule: crc_loop.induct)
  case (1 len n base f c)
  consider "n \<le> len" | "len < n" "n \<le> len + 32" | "len + 32 < n" by linarith
  then show ?case
  proof cases
    case 1
    then show ?thesis by (simp add: crc_loop.simps [of len] ef_port_read_def ef_calc_crc32_def)
  next
    case 2
    then have "\<not> len + 32 < n" "len + (n - len) = n" by auto
    with 2 show ?thesis by (simp add: crc_loop.simps [of len] crc_loop.simps [of n])
  next
    case 3
    then have "n - len = 32 + (n - (len + 32))" by simp
    then have "ef_port_read (base + len) (n - len) f
        = ef_port_read (base + len) 32 f @ ef_port_read (base + (len + 32)) (n - (len + 32)) f"
      by (simp only: ef_port_read_add add.assoc)
    with 3 "1" [OF _ refl] show ?thesis by (simp add: crc_loop.simps [of len] ef_calc_crc32_append)
  qed
qed

text \<open>Writes and reads of the flash.\<close>

definition blank :: "nat \<Rightarrow> nat \<Rightarrow> nor \<Rightarrow> bool" where
  "blank a n f \<longleftrightarrow> ef_port_read a n f = replicate n 0xFF"

lemma blank_split: "blank a (m + n) f \<longleftrightarrow> blank a m f \<and> blank (a + m) n f"
  by (simp add: blank_def ef_port_read_add replicate_add)

lemma write_alive [simp]: "dead (snd (nor_write a buf f)) = dead f"
  by (simp add: nor_write_def)

lemma read_written: "\<not> dead f \<Longrightarrow> blank a (length buf) f \<Longrightarrow> ef_port_read a (length buf) (snd (nor_write a buf f)) = buf"
  by (rule nth_equalityI) (auto simp: blank_def nor_write_def list_eq_iff_nth_eq)

lemma read_apart:
  "b + n \<le> a \<or> a + length buf \<le> b \<Longrightarrow> ef_port_read b n (snd (nor_write a buf f)) = ef_port_read b n f"
  by (rule nth_equalityI) (auto simp: nor_write_def)

lemma blank_apart: "b + n \<le> a \<or> a + length buf \<le> b \<Longrightarrow> blank b n (snd (nor_write a buf f)) = blank b n f"
  by (simp add: blank_def read_apart)


text \<open>The bytes of a node as a program of writes, and the program cut off after some bytes.\<close>

definition node_program :: "nat \<Rightarrow> bytes \<Rightarrow> bytes \<Rightarrow> (nat \<times> bytes) list" where
  "node_program addr key v =
    [(addr, [0]), (addr + 8, hdr_body (sealed_hdr key v)), (addr + 28, key), (addr + 28 + length key, v), (addr + 1, [0])]"

definition apply_writes :: "(nat \<times> bytes) list \<Rightarrow> nor \<Rightarrow> nor" where
  "apply_writes ws f = fold (\<lambda>(a, buf) f. snd (nor_write a buf f)) ws f"

fun cut :: "nat \<Rightarrow> (nat \<times> bytes) list \<Rightarrow> (nat \<times> bytes) list" where
  "cut n [] = []"
| "cut n ((a, buf) # ws) = (a, take n buf) # cut (n - length buf) ws"

lemma hdr_lengths [simp]: "length (le32 w) = 4" "length (hdr_tail h) = 8" "length (hdr_body h) = 20"
  by (simp_all add: le32_def hdr_tail_def hdr_body_def)

lemma write_node_program:
  assumes "\<not> dead f" "addr + 28 + length key + length v \<le> ef_len"
  shows "write_node addr key v f = (EF_NO_ERR, apply_writes (node_program addr key v) f)"
  using assms
  by (simp add: write_node_def write_env_hdr_def align_write_def write_status_def set_status_def ef_port_write_ok
      node_program_def apply_writes_def)

text \<open>A node in flash, with the five bytes of its status table.\<close>

definition node_image :: "bytes \<Rightarrow> bytes \<Rightarrow> bytes \<Rightarrow> bytes" where
  "node_image tab key v = tab @ replicate 3 0xFF @ hdr_body (sealed_hdr key v) @ key @ v"

abbreviation (input) written_tab :: bytes where
  "written_tab \<equiv> [0, 0, 0xFF, 0xFF, 0xFF]"

lemma replicate_6: "replicate 6 x = x # x # x # replicate 3 x"
  by (simp add: numeral_eq_Suc)

lemma node_program_image:
  assumes "\<not> dead f" "blank addr (28 + length key + length v) f"
  shows "ef_port_read addr (28 + length key + length v) (apply_writes (node_program addr key v) f)
    = node_image written_tab key v"
proof -
  have "28 + length key + length v = 1 + (1 + (6 + (20 + (length key + length v))))" by simp
  then have split: "ef_port_read addr (28 + length key + length v) g = ef_port_read addr 1 g @ ef_port_read (addr + 1) 1 g @
      ef_port_read (addr + 2) 6 g @ ef_port_read (addr + 8) 20 g @ ef_port_read (addr + 28) (length key) g @
      ef_port_read (addr + 28 + length key) (length v) g" for g
    by (simp only: ef_port_read_add add.assoc) (simp add: add.assoc)
  have b: "blank addr 1 f" "blank (addr + 1) 1 f" "blank (addr + 2) 6 f" "blank (addr + 8) 20 f"
    "blank (addr + 28) (length key) f" "blank (addr + 28 + length key) (length v) f"
    using assms(2) unfolding \<open>28 + length key + length v = _\<close> blank_split by (simp_all add: ac_simps)
  show ?thesis unfolding split
    using assms(1) b read_written [of _ _ "[0]"] read_written [of _ _ "hdr_body (sealed_hdr key v)"]
    by (simp add: apply_writes_def node_program_def node_image_def read_apart blank_apart read_written
        blank_def [of "Suc (Suc addr)"] numeral_eq_Suc [of "num.Bit0 num.One"] replicate_6)
qed


lemma unat_word_of_nat: "n < 2 ^ LENGTH('a) \<Longrightarrow> unat (word_of_nat n :: 'a::len word) = n"
  by (simp add: unsigned_of_nat take_bit_nat_eq_self)

lemma read_part: "k + m \<le> n \<Longrightarrow> ef_port_read (a + k) m f = take m (drop k (ef_port_read a n f))"
  by (rule nth_equalityI) (auto simp: add.assoc)

lemma sealed_hdr_simps [simp]:
  "h_magic (sealed_hdr key v) = ENV_MAGIC_WORD" "h_name_len (sealed_hdr key v) = word_of_nat (length key)"
  "h_value_len (sealed_hdr key v) = word_of_nat (length v)"
  by (simp_all add: sealed_hdr_def new_env_hdr_def Let_def)

lemma sealed_hdr_len:
  assumes "length key \<le> 32" "28 + length key + length v \<le> SECTOR_SIZE - SECTOR_HDR_DATA_SIZE"
  shows "h_len (sealed_hdr key v) = word_of_nat (28 + length key + length v)"
  using assms unat_word_of_nat [where 'a = 8, of "length key"] unat_word_of_nat [where 'a = 32, of "length v"]
  by (simp add: sealed_hdr_def new_env_hdr_def Let_def)

lemma sealed_hdr_crc: "h_crc32 (sealed_hdr key v) = ef_calc_crc32 0 (hdr_tail (sealed_hdr key v) @ key @ v)"
  by (simp add: sealed_hdr_def hdr_tail_def Let_def ef_calc_crc32_append)

lemma env_hdr_of_image:
  assumes "length st = 8"
  shows "env_hdr_of (st @ hdr_body h) = h\<lparr>h_status_table := take 5 st\<rparr>"
proof -
  have m: "magic_of (st @ xs @ le32 w @ ys) i = w" if "i = 8 + length xs" for xs ys w i
    using magic_of_le32 [of "st @ xs" w ys] assms that by simp
  have "magic_of (st @ hdr_body h) 8 = h_magic h" "magic_of (st @ hdr_body h) 12 = h_len h"
    "magic_of (st @ hdr_body h) 16 = h_crc32 h" "magic_of (st @ hdr_body h) 24 = h_value_len h"
    using m [of 8 "[]" "h_magic h"] m [of 12 "le32 (h_magic h)" "h_len h"]
      m [of 16 "le32 (h_magic h) @ le32 (h_len h)" "h_crc32 h"]
      m [of 24 "le32 (h_magic h) @ le32 (h_len h) @ le32 (h_crc32 h) @ [h_name_len h, 0xFF, 0xFF, 0xFF]" "h_value_len h" "[]"]
    by (simp_all add: hdr_body_def hdr_tail_def)
  moreover have "(st @ hdr_body h) ! 20 = h_name_len h"
    using assms by (simp add: hdr_body_def hdr_tail_def nth_append)
  ultimately show ?thesis using assms by (simp add: env_hdr_of_def)
qed

lemma node_image_value: "length tab = 5 \<Longrightarrow> drop (28 + length key) (node_image tab key v) = v"
proof -
  assume "length tab = 5"
  have "node_image tab key v = (tab @ replicate 3 0xFF @ hdr_body (sealed_hdr key v) @ key) @ v"
    by (simp add: node_image_def)
  moreover have "28 + length key = length (tab @ replicate 3 0xFF @ hdr_body (sealed_hdr key v) @ key)"
    using \<open>length tab = 5\<close> by simp
  ultimately show ?thesis by (metis append_eq_conv_conj)
qed

lemma image_hdr:
  assumes "ef_port_read addr n f = node_image tab key v" "28 + length key + length v = n" "length tab = 5"
  shows "env_hdr_of (ef_port_read addr 28 f) = (sealed_hdr key v)\<lparr>h_status_table := tab\<rparr>"
proof -
  have "ef_port_read addr 28 f = (tab @ replicate 3 0xFF) @ hdr_body (sealed_hdr key v)"
    using read_part [of 0 28 n addr f] assms by (simp add: node_image_def)
  moreover have "env_hdr_of ((tab @ replicate 3 0xFF) @ hdr_body (sealed_hdr key v))
      = (sealed_hdr key v)\<lparr>h_status_table := take 5 (tab @ replicate 3 0xFF)\<rparr>"
    using assms(3) by (intro env_hdr_of_image) simp
  ultimately show ?thesis using assms(3) by simp
qed

lemma image_crc:
  assumes "ef_port_read addr n f = node_image tab key v" "28 + length key + length v = n" "length tab = 5"
  shows "crc_loop 0 (n - 20) (addr + 20) f 0 = h_crc32 (sealed_hdr key v)"
proof -
  have "ef_port_read (addr + 20) (n - 20) f = hdr_tail (sealed_hdr key v) @ key @ v"
    using read_part [of 20 "n - 20" n addr f] assms by (simp add: node_image_def hdr_body_def)
  then show ?thesis by (simp add: crc_loop_all sealed_hdr_crc)
qed

lemma read_env_image:
  assumes key: "length key \<le> 32" and n: "28 + length key + length v = n" "n \<le> SECTOR_SIZE - SECTOR_HDR_DATA_SIZE"
    and start: "unat (addr_start env) = addr" and image: "ef_port_read addr n f = node_image tab key v" "length tab = 5"
  shows "read_env env f = Some (EF_NO_ERR, env\<lparr>nd_status := get_status tab ENV_STATUS_NUM, crc_is_ok := True,
      nd_name_len := word_of_nat (length key), nd_len := word_of_nat n,
      nd_value_len := word_of_nat (length v), nd_name := key @ drop (length key) (nd_name env),
      addr_value := word_of_nat (addr + 28 + length key)\<rparr>, f)"
proof -
  define w where "w = (word_of_nat n :: u32)"
  have w: "unat w = n" "unat (word_of_nat (length key) :: u8) = length key"
    using n(2) key unfolding w_def by (intro unat_word_of_nat; simp)+
  have hlen: "h_len (sealed_hdr key v) = w" using sealed_hdr_len [OF key] n by (simp only: w_def)
  have name: "ef_port_read (addr + 28) (length key) f = key"
    using read_part [of 28 "length key" n addr f] image n(1) by (simp add: node_image_def)
  have "w \<noteq> 0xFFFFFFFF" using w(1) n(2) by auto
  then show ?thesis
    using n key image_crc [OF image(1) n(1) image(2)] name w hlen start image_hdr [OF image(1) n(1) image(2)] w_def [symmetric]
    by (simp add: read_env_def Let_def add.assoc)
qed

text \<open>Property C16. A node round trip: in an erased piece of the flash, the writes of \<open>create_env_blob\<close> succeed,
  and \<open>read_env\<close> then accepts the checksum and returns the name, the status of a finished node and the place
  where exactly the value is.\<close>

theorem node_roundtrip:
  assumes alive: "\<not> dead f" and blank: "blank addr (28 + length key + length v) f"
    and key: "length key \<le> EF_ENV_NAME_MAX" and fit: "28 + length key + length v \<le> SECTOR_SIZE - SECTOR_HDR_DATA_SIZE"
    and inside: "addr + 28 + length key + length v \<le> ENV_AREA_SIZE" and start: "addr_start env = word_of_nat addr"
  shows "\<exists>f' env'. write_node addr key v f = (EF_NO_ERR, f') \<and> read_env env f' = Some (EF_NO_ERR, env', f') \<and>
    nd_status env' = ENV_WRITE \<and> crc_is_ok env' \<and> take (unat (nd_name_len env')) (nd_name env') = key \<and>
    ef_port_read (unat (addr_value env')) (unat (nd_value_len env')) f' = v"
proof -
  let ?f = "apply_writes (node_program addr key v) f"
  have image: "ef_port_read addr (28 + length key + length v) ?f = node_image written_tab key v"
    using alive blank by (rule node_program_image)
  have "unat (addr_start env) = addr" "unat (word_of_nat (addr + 28 + length key) :: u32) = addr + 28 + length key"
    "unat (word_of_nat (length v) :: u32) = length v" "unat (word_of_nat (length key) :: u8) = length key"
    using start inside key unfolding start by (intro unat_word_of_nat; simp)+
  moreover have "ef_port_read (addr + 28 + length key) (length v) ?f = v"
    using read_part [of "28 + length key" "length v" "28 + length key + length v" addr ?f] image by (simp add: node_image_value add.assoc)
  moreover have "write_node addr key v f = (EF_NO_ERR, ?f)"
    using alive inside by (intro write_node_program) auto
  moreover have "get_status written_tab 6 = 2" by code_simp
  ultimately show ?thesis using read_env_image [OF key refl fit _ image, of env] by simp
qed

theorem node_roundtrip_witness:
  "\<exists>f' env'. write_node 20 [65] [66, 67] \<lparr>cells = (\<lambda>_. 0xFF), dead = False\<rparr> = (EF_NO_ERR, f') \<and>
    read_env \<lparr>nd_status = 0, crc_is_ok = False, nd_name_len = 0, nd_len = 0, nd_value_len = 0,
      nd_name = replicate 32 0, addr_start = 20, addr_value = 0\<rparr> f' = Some (EF_NO_ERR, env', f') \<and>
    nd_status env' = ENV_WRITE \<and> crc_is_ok env' \<and> take (unat (nd_name_len env')) (nd_name env') = [65] \<and>
    ef_port_read (unat (addr_value env')) (unat (nd_value_len env')) f' = [66, 67]"
  by (rule node_roundtrip) (simp_all add: blank_def ef_port_read_def map_replicate_const)

section \<open>Power loss while a node is written\<close>

definition byte_count :: "(nat \<times> bytes) list \<Rightarrow> nat" where
  "byte_count ws = sum_list (map (\<lambda>(_, buf). length buf) ws)"

text \<open>Property C17. A node that is not complete does not count: writing a node is a fixed sequence of writes, and
  when the power fails after any number of their bytes, its status is unused before the first byte, being
  written from then on, and written, the only one that lookups accept, after the last byte and not before.\<close>

theorem torn_node_status:
  assumes "\<not> dead f" "blank addr (28 + length key + length v) f" "addr + 28 + length key + length v \<le> ef_len"
  shows "write_node addr key v f = (EF_NO_ERR, apply_writes (node_program addr key v) f) \<and>
    read_status addr ENV_STATUS_NUM (apply_writes (cut n (node_program addr key v)) f) =
    (if n = 0 then ENV_UNUSED else if n < byte_count (node_program addr key v) then ENV_PRE_WRITE else ENV_WRITE)"
proof -
  let ?f = "apply_writes (cut n (node_program addr key v)) f"
  have ff: "cells f (addr + j) = 0xFF" if "j < 5" for j
    using assms(2) that by (auto simp: blank_def list_eq_iff_nth_eq)
  have total: "byte_count (node_program addr key v) = 22 + length key + length v"
    by (simp add: byte_count_def node_program_def)
  have "cells ?f (addr + j) = (if j = 0 \<and> 0 < n \<or> j = 1 \<and> 22 + length key + length v \<le> n then 0 else 0xFF)" if "j < 5" for j
    using assms(1) ff [OF that] that
    by (auto simp: apply_writes_def node_program_def nor_write_def)
  then have "status_written addr 6 ((if 0 < n then {1} else {}) \<union> (if 22 + length key + length v \<le> n then {2} else {})) ?f"
    using assms(1) by (auto simp: status_written_def apply_writes_def node_program_def)
  then have "read_status addr 6 ?f
      = Max (insert 0 ((if 0 < n then {1} else {}) \<union> (if 22 + length key + length v \<le> n then {2} else {})))"
    by (rule read_status_written) (auto split: if_splits)
  then show ?thesis unfolding total using write_node_program [OF assms(1,3)] by auto
qed

theorem torn_node_status_witness:
  "read_status 20 ENV_STATUS_NUM (apply_writes (cut 5 (node_program 20 [65] [66])) \<lparr>cells = (\<lambda>_. 0xFF), dead = False\<rparr>) = ENV_PRE_WRITE"
  using torn_node_status [of "\<lparr>cells = (\<lambda>_. 0xFF), dead = False\<rparr>" 20 "[65]" "[66]" 5]
  by (simp add: blank_def ef_port_read_def map_replicate_const byte_count_def node_program_def)

end
