(* ===== verification/Ef_Env.thy ===== *)
theory Ef_Env
  imports Ef_Node
begin

unbundle bit_operations_syntax

text \<open>
  The upper layer of the flash store (\<open>src/packages/EasyFlash-v4.1.0/src/ef_env.c\<close>): sectors and their
  iterators, lookup, allocation, deletion, moving nodes, garbage collection, setting and reading values,
  recovery at start-up. The state is the flash and the statics of the file. \<open>None\<close> stands for a call that
  does not return (see \<open>read_env\<close>). A loop whose rounds depend on the contents of the flash is a partial
  function. Local structures start as \<open>no_env\<close> and \<open>no_sector\<close>: the code sets what it reads of them.
\<close>

abbreviation (input) SECTOR_MAGIC_WORD :: u32 where "SECTOR_MAGIC_WORD \<equiv> 0x30344645"
abbreviation (input) SECTOR_NOT_COMBINED :: u32 where "SECTOR_NOT_COMBINED \<equiv> 0xFFFFFFFF"
abbreviation (input) SEC_SIZE :: u32 where "SEC_SIZE \<equiv> 131072"
abbreviation (input) EF_SEC_REMAIN_THRESHOLD :: u32 where "EF_SEC_REMAIN_THRESHOLD \<equiv> 60"
abbreviation (input) EF_GC_EMPTY_SEC_THRESHOLD :: nat where "EF_GC_EMPTY_SEC_THRESHOLD \<equiv> 1"
abbreviation (input) SECTOR_NUM :: nat where "SECTOR_NUM \<equiv> 2"
abbreviation (input) SECTOR_STORE_UNUSED :: nat where "SECTOR_STORE_UNUSED \<equiv> 0"
abbreviation (input) SECTOR_STORE_EMPTY :: nat where "SECTOR_STORE_EMPTY \<equiv> 1"
abbreviation (input) SECTOR_STORE_USING :: nat where "SECTOR_STORE_USING \<equiv> 2"
abbreviation (input) SECTOR_STORE_FULL :: nat where "SECTOR_STORE_FULL \<equiv> 3"
abbreviation (input) SECTOR_STORE_STATUS_NUM :: nat where "SECTOR_STORE_STATUS_NUM \<equiv> 4"
abbreviation (input) SECTOR_DIRTY_FALSE :: nat where "SECTOR_DIRTY_FALSE \<equiv> 1"
abbreviation (input) SECTOR_DIRTY_TRUE :: nat where "SECTOR_DIRTY_TRUE \<equiv> 2"
abbreviation (input) SECTOR_DIRTY_GC :: nat where "SECTOR_DIRTY_GC \<equiv> 3"
abbreviation (input) SECTOR_DIRTY_STATUS_NUM :: nat where "SECTOR_DIRTY_STATUS_NUM \<equiv> 4"

record sector_meta_data =
  check_ok :: bool
  store :: nat
  dirty :: nat
  sec_addr :: u32
  sec_magic :: u32
  combined :: u32
  remain :: u32
  empty_env :: u32

record ef =
  ef_nor :: nor
  env_cache :: "env_cache_node list"
  sector_cache :: "sector_cache_node list"
  gc_request :: bool
  in_recovery_check :: bool
  last_is_complete_del :: bool
  init_ok :: bool

definition no_env :: env_node_obj where
  "no_env = \<lparr>nd_status = 0, crc_is_ok = False, nd_name_len = 0, nd_len = 0, nd_value_len = 0,
     nd_name = replicate 32 0, addr_start = FAILED_ADDR, addr_value = 0\<rparr>"

definition no_sector :: sector_meta_data where
  "no_sector = \<lparr>check_ok = False, store = 0, dirty = 0, sec_addr = FAILED_ADDR, sec_magic = 0,
     combined = SECTOR_NOT_COMBINED, remain = 0, empty_env = FAILED_ADDR\<rparr>"

definition align_sector :: "u32 \<Rightarrow> u32" where
  "align_sector a = a AND NOT (SEC_SIZE - 1)"

section \<open>The flash and the caches in the state\<close>

definition load_env :: "env_node_obj \<Rightarrow> ef \<Rightarrow> (env_node_obj \<times> ef) option" where
  "load_env env s = do { (_, env, f) \<leftarrow> read_env env (ef_nor s); Some (env, s\<lparr>ef_nor := f\<rparr>) }"

definition on_nor :: "(nor \<Rightarrow> EfErrCode \<times> nor) \<Rightarrow> ef \<Rightarrow> EfErrCode \<times> ef" where
  "on_nor g s = (case g (ef_nor s) of (result, f) \<Rightarrow> (result, s\<lparr>ef_nor := f\<rparr>))"

definition put_status :: "u32 \<Rightarrow> nat \<Rightarrow> nat \<Rightarrow> ef \<Rightarrow> EfErrCode \<times> ef" where
  "put_status addr num i s = on_nor (write_status (unat addr) num i) s"

definition cache_sector :: "u32 \<Rightarrow> u32 \<Rightarrow> ef \<Rightarrow> ef" where
  "cache_sector sec em s = s\<lparr>sector_cache := update_sector_cache sec em (sector_cache s)\<rparr>"

definition cache_env :: "bytes \<Rightarrow> u32 \<Rightarrow> ef \<Rightarrow> ef" where
  "cache_env name addr s = s\<lparr>env_cache := update_env_cache name addr (env_cache s)\<rparr>"

section \<open>Walking over nodes and sectors\<close>

definition get_next_env_addr :: "sector_meta_data \<Rightarrow> env_node_obj \<Rightarrow> ef \<Rightarrow> u32" where
  "get_next_env_addr sector pre_env s =
    (if store sector = SECTOR_STORE_EMPTY then FAILED_ADDR
     else if addr_start pre_env = FAILED_ADDR then sec_addr sector + 20
     else if addr_start pre_env \<le> sec_addr sector + SEC_SIZE then
       (let addr = (if crc_is_ok pre_env then addr_start pre_env + nd_len pre_env else addr_start pre_env + 1);
            addr = (case find_next_env_addr (unat addr) (unat (sec_addr sector + SEC_SIZE - 20)) (sector_cache s) (ef_nor s) of
                      None \<Rightarrow> FAILED_ADDR | Some a \<Rightarrow> word_of_nat a)
        in if addr > sec_addr sector + SEC_SIZE \<or> nd_len pre_env = 0 then FAILED_ADDR else addr)
     else FAILED_ADDR)"

text \<open>The nodes of a sector behind \<open>env\<close>, with a visitor that may stop the walk; \<open>a\<close> is what the visitor
  collects. The result tells whether it stopped.\<close>

partial_function (option) walk_envs ::
  "(env_node_obj \<Rightarrow> 'a \<Rightarrow> ef \<Rightarrow> (bool \<times> 'a \<times> ef) option) \<Rightarrow> sector_meta_data \<Rightarrow> env_node_obj \<Rightarrow> 'a \<Rightarrow> ef
     \<Rightarrow> (bool \<times> env_node_obj \<times> 'a \<times> ef) option" where
  "walk_envs cb sector env a s =
    (let env = env\<lparr>addr_start := get_next_env_addr sector env s\<rparr>
     in if addr_start env = FAILED_ADDR then Some (False, env, a, s)
        else do {
          (env, s) \<leftarrow> load_env env s;
          (stop, a, s) \<leftarrow> cb env a s;
          if stop then Some (True, env, a, s) else walk_envs cb sector env a s
        })"

text \<open>The visitor of \<open>read_sector_meta_data\<close>: the space that remains, the first free address, the result.\<close>

definition measure_env :: "env_node_obj \<Rightarrow> u32 \<times> u32 \<times> EfErrCode \<Rightarrow> ef \<Rightarrow> (bool \<times> (u32 \<times> u32 \<times> EfErrCode) \<times> ef) option" where
  "measure_env env_meta a s =
    (case a of (rem, em, result) \<Rightarrow>
       if \<not> crc_is_ok env_meta \<and> nd_status env_meta \<noteq> ENV_PRE_WRITE \<and> nd_status env_meta \<noteq> ENV_ERR_HDR
       then Some (True, (0, em, EF_READ_ERR), s)
       else Some (False, (rem - nd_len env_meta, em + nd_len env_meta, result), s))"

definition read_sector_hdr :: "u32 \<Rightarrow> sector_meta_data \<Rightarrow> ef \<Rightarrow> EfErrCode \<times> sector_meta_data" where
  "read_sector_hdr addr sector s =
    (let sec_hdr = ef_port_read (unat addr) 20 (ef_nor s);
         sector = sector\<lparr>sec_addr := addr, sec_magic := magic_of sec_hdr 8\<rparr>
     in if sec_magic sector \<noteq> SECTOR_MAGIC_WORD
        then (EF_ENV_INIT_FAILED, sector\<lparr>check_ok := False, combined := SECTOR_NOT_COMBINED\<rparr>)
        else (EF_NO_ERR, sector\<lparr>check_ok := True, combined := magic_of sec_hdr 12,
               store := get_status (take 3 sec_hdr) SECTOR_STORE_STATUS_NUM,
               dirty := get_status (take 3 (drop 3 sec_hdr)) SECTOR_DIRTY_STATUS_NUM\<rparr>))"

definition read_sector_meta_data ::
  "u32 \<Rightarrow> sector_meta_data \<Rightarrow> bool \<Rightarrow> ef \<Rightarrow> (EfErrCode \<times> sector_meta_data \<times> ef) option" where
  "read_sector_meta_data addr sector traversal s =
    (case read_sector_hdr addr sector s of (result, sector) \<Rightarrow>
       if result \<noteq> EF_NO_ERR \<or> \<not> traversal then Some (result, sector, s)
       else
         (let sector = sector\<lparr>remain := 0, empty_env := sec_addr sector + 20\<rparr>
          in if store sector = SECTOR_STORE_EMPTY then Some (result, sector\<lparr>remain := SEC_SIZE - 20\<rparr>, s)
             else if store sector = SECTOR_STORE_USING then
               (case get_sector_from_cache addr (sector_cache s) of
                  Some em \<Rightarrow> Some (result, sector\<lparr>empty_env := em, remain := SEC_SIZE - (em - sec_addr sector)\<rparr>, s)
                | None \<Rightarrow> do {
                    (_, _, (rem, em, result), s) \<leftarrow>
                      walk_envs measure_env sector no_env (SEC_SIZE - 20, empty_env sector, result) s;
                    let ff_addr = word_of_nat (continue_ff_addr (unat em) (unat (sec_addr sector + SEC_SIZE)) (ef_nor s));
                    let sector = (if em \<noteq> ff_addr
                                  then sector\<lparr>empty_env := ff_addr, remain := SEC_SIZE - (ff_addr - sec_addr sector)\<rparr>
                                  else sector\<lparr>empty_env := em, remain := rem\<rparr>);
                    Some (result, sector, cache_sector (sec_addr sector) (empty_env sector) s)
                  })
             else Some (result, sector, s)))"

text \<open>The environment starts at address 0.\<close>

definition get_next_sector_addr :: "sector_meta_data \<Rightarrow> u32" where
  "get_next_sector_addr pre_sec =
    (if sec_addr pre_sec = FAILED_ADDR then 0
     else
       (let next_addr = (if combined pre_sec = SECTOR_NOT_COMBINED then sec_addr pre_sec + SEC_SIZE
                         else sec_addr pre_sec + combined pre_sec * SEC_SIZE)
        in if next_addr < 262144 then next_addr else FAILED_ADDR))"

partial_function (option) walk_all ::
  "(env_node_obj \<Rightarrow> 'a \<Rightarrow> ef \<Rightarrow> (bool \<times> 'a \<times> ef) option) \<Rightarrow> sector_meta_data \<Rightarrow> env_node_obj \<Rightarrow> 'a \<Rightarrow> ef
     \<Rightarrow> (env_node_obj \<times> 'a \<times> ef) option" where
  "walk_all cb sector env a s =
    (let addr = get_next_sector_addr sector
     in if addr = FAILED_ADDR then Some (env, a, s)
        else do {
          (result, sector, s) \<leftarrow> read_sector_meta_data addr sector False s;
          if result = EF_NO_ERR \<and> (store sector = SECTOR_STORE_USING \<or> store sector = SECTOR_STORE_FULL) then do {
            (stop, env, a, s) \<leftarrow> walk_envs cb sector (env\<lparr>addr_start := FAILED_ADDR\<rparr>) a s;
            if stop then Some (env, a, s) else walk_all cb sector env a s
          } else walk_all cb sector env a s
        })"

definition env_iterator ::
  "(env_node_obj \<Rightarrow> 'a \<Rightarrow> ef \<Rightarrow> (bool \<times> 'a \<times> ef) option) \<Rightarrow> env_node_obj \<Rightarrow> 'a \<Rightarrow> ef
     \<Rightarrow> (env_node_obj \<times> 'a \<times> ef) option" where
  "env_iterator cb env a s = walk_all cb no_sector env a s"

partial_function (option) walk_sectors ::
  "(sector_meta_data \<Rightarrow> 'a \<Rightarrow> ef \<Rightarrow> (bool \<times> 'a \<times> ef) option) \<Rightarrow> nat \<Rightarrow> bool \<Rightarrow> sector_meta_data \<Rightarrow> 'a \<Rightarrow> ef
     \<Rightarrow> (sector_meta_data \<times> 'a \<times> ef) option" where
  "walk_sectors cb status traversal_env sector a s =
    (let addr = get_next_sector_addr sector
     in if addr = FAILED_ADDR then Some (sector, a, s)
        else do {
          (_, sector, s) \<leftarrow> read_sector_meta_data addr sector False s;
          if status = SECTOR_STORE_UNUSED \<or> status = store sector then do {
            (_, sector, s) \<leftarrow> (if traversal_env then read_sector_meta_data addr sector True s else Some (EF_NO_ERR, sector, s));
            (stop, a, s) \<leftarrow> cb sector a s;
            if stop then Some (sector, a, s) else walk_sectors cb status traversal_env sector a s
          } else walk_sectors cb status traversal_env sector a s
        })"

definition sector_iterator ::
  "sector_meta_data \<Rightarrow> nat \<Rightarrow> 'a \<Rightarrow> (sector_meta_data \<Rightarrow> 'a \<Rightarrow> ef \<Rightarrow> (bool \<times> 'a \<times> ef) option) \<Rightarrow> bool \<Rightarrow> ef
     \<Rightarrow> (sector_meta_data \<times> 'a \<times> ef) option" where
  "sector_iterator sector status a cb traversal_env s =
     walk_sectors cb status traversal_env (sector\<lparr>sec_addr := FAILED_ADDR\<rparr>) a s"

section \<open>Lookup\<close>

definition find_env_cb :: "bytes \<Rightarrow> env_node_obj \<Rightarrow> bool \<Rightarrow> ef \<Rightarrow> (bool \<times> bool \<times> ef) option" where
  "find_env_cb key env find_ok s =
    (if length key \<noteq> unat (nd_name_len env) then Some (False, find_ok, s)
     else if crc_is_ok env \<and> nd_status env = ENV_WRITE \<and> take (length key) (nd_name env) = key then Some (True, True, s)
     else Some (False, find_ok, s))"

definition find_env_no_cache :: "bytes \<Rightarrow> env_node_obj \<Rightarrow> ef \<Rightarrow> (bool \<times> env_node_obj \<times> ef) option" where
  "find_env_no_cache key env s =
    do { (env, find_ok, s) \<leftarrow> env_iterator (find_env_cb key) env False s; Some (find_ok, env, s) }"

definition find_env :: "bytes \<Rightarrow> env_node_obj \<Rightarrow> ef \<Rightarrow> (bool \<times> env_node_obj \<times> ef) option" where
  "find_env key env s =
    (case get_env_from_cache key (ef_nor s) (env_cache s) of
       (Some addr, t) \<Rightarrow> do {
         (env, s) \<leftarrow> load_env (env\<lparr>addr_start := addr\<rparr>) (s\<lparr>env_cache := t\<rparr>);
         Some (True, env, s)
       }
     | (None, t) \<Rightarrow> do {
         (find_ok, env, s) \<leftarrow> find_env_no_cache key env (s\<lparr>env_cache := t\<rparr>);
         Some (find_ok, env, if find_ok then cache_env key (addr_start env) s else s)
       })"

text \<open>A null pointer for the buffer or for the length is not used by the firmware: the bytes copied and the length
  of the stored value, which stays unset when the name is unknown.\<close>

definition get_env :: "bytes \<Rightarrow> nat \<Rightarrow> ef \<Rightarrow> (bytes \<times> u32 option \<times> ef) option" where
  "get_env key buf_len s = do {
     (found, env, s) \<leftarrow> find_env key no_env s;
     if found then
       (let read_len = (if buf_len > unat (nd_value_len env) then unat (nd_value_len env) else buf_len)
        in Some (ef_port_read (unat (addr_value env)) read_len (ef_nor s), Some (nd_value_len env), s))
     else Some ([], None, s)
   }"

definition ef_get_env_obj :: "bytes \<Rightarrow> ef \<Rightarrow> (bool \<times> env_node_obj \<times> ef) option" where
  "ef_get_env_obj key s = (if \<not> init_ok s then Some (False, no_env, s) else find_env key no_env s)"

definition ef_get_blob :: "bytes \<Rightarrow> nat \<Rightarrow> ef \<Rightarrow> (bytes \<times> u32 option \<times> ef) option" where
  "ef_get_blob key buf_len s = (if \<not> init_ok s then Some ([], None, s) else get_env key buf_len s)"

definition ef_is_str :: "bytes \<Rightarrow> bool" where
  "ef_is_str v \<longleftrightarrow> list_all (\<lambda>c. 32 \<le> c \<and> c < 127) v"

definition ef_get_env :: "bytes \<Rightarrow> ef \<Rightarrow> (bytes option \<times> ef) option" where
  "ef_get_env key s = do {
     (v, _, s) \<leftarrow> ef_get_blob key 128 s;
     Some (if length v > 0 \<and> ef_is_str v then Some v else None, s)
   }"

definition ef_read_env_value :: "env_node_obj \<Rightarrow> nat \<Rightarrow> ef \<Rightarrow> bytes" where
  "ef_read_env_value env buf_len s =
    (if \<not> init_ok s \<or> \<not> crc_is_ok env then []
     else ef_port_read (unat (addr_value env))
       (if buf_len > unat (nd_value_len env) then unat (nd_value_len env) else buf_len) (ef_nor s))"

section \<open>Sectors and space\<close>

definition sector_hdr_bytes :: "u32 \<Rightarrow> bytes" where
  "sector_hdr_bytes combined_value =
     snd (set_status SECTOR_STORE_STATUS_NUM SECTOR_STORE_EMPTY) @ snd (set_status SECTOR_DIRTY_STATUS_NUM SECTOR_DIRTY_FALSE) @
     [0xFF, 0xFF] @ le32 SECTOR_MAGIC_WORD @ le32 combined_value @ le32 0xFFFFFFFF"

definition format_sector :: "u32 \<Rightarrow> u32 \<Rightarrow> ef \<Rightarrow> EfErrCode \<times> ef" where
  "format_sector addr combined_value s =
    (case ef_port_erase (unat addr) SECTOR_SIZE (ef_nor s) of (result, f) \<Rightarrow>
       if result = EF_NO_ERR then
         (case ef_port_write (unat addr) (sector_hdr_bytes combined_value) f of (result, f) \<Rightarrow>
            (result, cache_sector addr (addr + SEC_SIZE) (s\<lparr>ef_nor := f\<rparr>)))
       else (result, s\<lparr>ef_nor := f\<rparr>))"

text \<open>The result, and whether the sector is full.\<close>

definition update_sec_status :: "sector_meta_data \<Rightarrow> u32 \<Rightarrow> ef \<Rightarrow> EfErrCode \<times> bool \<times> ef" where
  "update_sec_status sector new_env_len s =
    (if store sector = SECTOR_STORE_EMPTY then
       (case put_status (sec_addr sector) SECTOR_STORE_STATUS_NUM SECTOR_STORE_USING s of (r, s) \<Rightarrow> (r, False, s))
     else if store sector = SECTOR_STORE_USING then
       if remain sector < EF_SEC_REMAIN_THRESHOLD \<or> remain sector - new_env_len < EF_SEC_REMAIN_THRESHOLD then
         (case put_status (sec_addr sector) SECTOR_STORE_STATUS_NUM SECTOR_STORE_FULL s of
            (r, s) \<Rightarrow> (r, True, cache_sector (sec_addr sector) (sec_addr sector + SEC_SIZE) s))
       else (EF_NO_ERR, False, s)
     else (EF_NO_ERR, False, s))"

definition sector_statistics_cb :: "sector_meta_data \<Rightarrow> nat \<times> nat \<Rightarrow> ef \<Rightarrow> (bool \<times> (nat \<times> nat) \<times> ef) option" where
  "sector_statistics_cb sector a s =
    (case a of (empty_sector, using_sector) \<Rightarrow>
       if check_ok sector \<and> store sector = SECTOR_STORE_EMPTY then Some (False, (empty_sector + 1, using_sector), s)
       else if check_ok sector \<and> store sector = SECTOR_STORE_USING then Some (False, (empty_sector, using_sector + 1), s)
       else Some (False, a, s))"

definition alloc_env_cb :: "u32 \<Rightarrow> sector_meta_data \<Rightarrow> u32 \<Rightarrow> ef \<Rightarrow> (bool \<times> u32 \<times> ef) option" where
  "alloc_env_cb env_size sector em s =
    (if check_ok sector \<and> remain sector > env_size \<and>
        (dirty sector = SECTOR_DIRTY_FALSE \<or> dirty sector = SECTOR_DIRTY_TRUE \<and> \<not> gc_request s)
     then Some (True, empty_env sector, s) else Some (False, em, s))"

definition alloc_env :: "sector_meta_data \<Rightarrow> u32 \<Rightarrow> ef \<Rightarrow> (u32 \<times> sector_meta_data \<times> ef) option" where
  "alloc_env sector env_size s = do {
     (sector, (empty_sector, using_sector), s) \<leftarrow>
       sector_iterator sector SECTOR_STORE_UNUSED (0, 0) sector_statistics_cb False s;
     (sector, em, s) \<leftarrow>
       (if using_sector > 0 then sector_iterator sector SECTOR_STORE_USING FAILED_ADDR (alloc_env_cb env_size) True s
        else Some (sector, FAILED_ADDR, s));
     if empty_sector > 0 \<and> em = FAILED_ADDR then
       if empty_sector > EF_GC_EMPTY_SEC_THRESHOLD \<or> gc_request s then do {
         (sector, em, s) \<leftarrow> sector_iterator sector SECTOR_STORE_EMPTY em (alloc_env_cb env_size) True s;
         Some (em, sector, s)
       } else Some (em, sector, s\<lparr>gc_request := True\<rparr>)
     else Some (em, sector, s)
   }"

section \<open>Deleting and moving\<close>

text \<open>With the node found or given; the name of a node is the part of its buffer in use.\<close>

definition del_found :: "bytes option \<Rightarrow> env_node_obj \<Rightarrow> bool \<Rightarrow> ef \<Rightarrow> EfErrCode \<times> ef" where
  "del_found key old_env complete_del s =
    (case (if \<not> complete_del then
             (case put_status (addr_start old_env) ENV_STATUS_NUM ENV_PRE_DELETE s of
                (result, s) \<Rightarrow> (result, s\<lparr>last_is_complete_del := True\<rparr>))
           else
             (case put_status (addr_start old_env) ENV_STATUS_NUM ENV_DELETED s of
                (result, s) \<Rightarrow>
                  (let s = (if \<not> last_is_complete_del s \<and> result = EF_NO_ERR
                            then cache_env (case key of Some k \<Rightarrow> k | None \<Rightarrow> take (unat (nd_name_len old_env)) (nd_name old_env))
                                   FAILED_ADDR s
                            else s)
                   in (result, s\<lparr>last_is_complete_del := False\<rparr>)))) of
       (result, s) \<Rightarrow>
         (let dirty_status_addr = align_sector (addr_start old_env) + 3
          in if result = EF_NO_ERR \<and> read_status (unat dirty_status_addr) SECTOR_DIRTY_STATUS_NUM (ef_nor s) = SECTOR_DIRTY_FALSE
             then put_status dirty_status_addr SECTOR_DIRTY_STATUS_NUM SECTOR_DIRTY_TRUE s
             else (result, s)))"

definition del_env :: "bytes \<Rightarrow> bool \<Rightarrow> ef \<Rightarrow> (EfErrCode \<times> ef) option" where
  "del_env key complete_del s = do {
     (found, env, s) \<leftarrow> find_env key no_env s;
     Some (if found then del_found (Some key) env complete_del s else (EF_ENV_NAME_ERR, s))
   }"

function copy_loop :: "nat \<Rightarrow> nat \<Rightarrow> nat \<Rightarrow> nat \<Rightarrow> EfErrCode \<times> nor \<Rightarrow> EfErrCode \<times> nor" where
  "copy_loop len env_len src dst st =
    (if len < env_len then
       (let sz = (if len + 32 < env_len then 32 else env_len - len);
            f = snd st
        in copy_loop (len + sz) env_len src dst (ef_port_write (dst + len) (ef_port_read (src + len) sz f) f))
     else st)"
  by pat_completeness auto

termination by (relation "measure (\<lambda>(len, env_len, src, dst, st). env_len - len)") auto

declare copy_loop.simps [simp del]

text \<open>The copy: new sector status, node status, contents, node status, caches.\<close>

definition copy_env :: "env_node_obj \<Rightarrow> sector_meta_data \<Rightarrow> u32 \<Rightarrow> ef \<Rightarrow> EfErrCode \<times> ef" where
  "copy_env env sector env_addr s =
    (let s = snd (snd (update_sec_status sector (nd_len env) s));
         s = snd (put_status env_addr ENV_STATUS_NUM ENV_PRE_WRITE s)
     in case copy_loop 0 (unat (nd_len env - 8)) (unat (addr_start env) + ENV_MAGIC_OFFSET) (unat env_addr + ENV_MAGIC_OFFSET)
               (EF_NO_ERR, ef_nor s) of
          (result, f) \<Rightarrow>
            (let s = snd (put_status env_addr ENV_STATUS_NUM ENV_WRITE (s\<lparr>ef_nor := f\<rparr>));
                 s = cache_sector (align_sector env_addr) (env_addr + 28 + ucast (nd_name_len env) + nd_value_len env) s
             in (result, cache_env (take (unat (nd_name_len env)) (nd_name env)) env_addr s)))"

definition move_env :: "env_node_obj \<Rightarrow> ef \<Rightarrow> (EfErrCode \<times> ef) option" where
  "move_env env s = do {
     let s = (if nd_status env = ENV_WRITE then snd (del_found None env False s) else s);
     (env_addr, sector, s) \<leftarrow> alloc_env no_sector (nd_len env) s;
     if env_addr = FAILED_ADDR then Some (EF_ENV_FULL, s)
     else do {
       (created, s) \<leftarrow>
         (if in_recovery_check s then do {
            (found, _, s) \<leftarrow> find_env_no_cache (takeWhile (\<lambda>c. c \<noteq> 0) (take (unat (nd_name_len env)) (nd_name env))) no_env s;
            Some (found, s)
          } else Some (False, s));
       let (result, s) = (if created then (EF_NO_ERR, s) else copy_env env sector env_addr s);
       Some (result, snd (del_found None env True s))
     }
   }"

section \<open>Garbage collection\<close>

definition gc_check_cb :: "sector_meta_data \<Rightarrow> nat \<Rightarrow> ef \<Rightarrow> (bool \<times> nat \<times> ef) option" where
  "gc_check_cb sector empty_sec s = Some (False, if check_ok sector then empty_sec + 1 else empty_sec, s)"

definition gc_env :: "env_node_obj \<Rightarrow> unit \<Rightarrow> ef \<Rightarrow> (bool \<times> unit \<times> ef) option" where
  "gc_env env a s =
    (if crc_is_ok env \<and> (nd_status env = ENV_WRITE \<or> nd_status env = ENV_PRE_DELETE)
     then do { (_, s) \<leftarrow> move_env env s; Some (False, a, s) } else Some (False, a, s))"

definition do_gc :: "sector_meta_data \<Rightarrow> unit \<Rightarrow> ef \<Rightarrow> (bool \<times> unit \<times> ef) option" where
  "do_gc sector a s =
    (if check_ok sector \<and> (dirty sector = SECTOR_DIRTY_TRUE \<or> dirty sector = SECTOR_DIRTY_GC) then do {
       let s = snd (put_status (sec_addr sector + 3) SECTOR_DIRTY_STATUS_NUM SECTOR_DIRTY_GC s);
       (_, _, _, s) \<leftarrow> walk_envs gc_env sector no_env () s;
       Some (False, a, snd (format_sector (sec_addr sector) SECTOR_NOT_COMBINED s))
     } else Some (False, a, s))"

definition gc_collect :: "ef \<Rightarrow> ef option" where
  "gc_collect s = do {
     (sector, empty_sec, s) \<leftarrow> sector_iterator no_sector SECTOR_STORE_EMPTY 0 gc_check_cb False s;
     s \<leftarrow> (if empty_sec \<le> EF_GC_EMPTY_SEC_THRESHOLD then do {
             (_, _, s) \<leftarrow> sector_iterator sector SECTOR_STORE_UNUSED () do_gc False s;
             Some s
           } else Some s);
     Some (s\<lparr>gc_request := False\<rparr>)
   }"

definition new_env :: "sector_meta_data \<Rightarrow> u32 \<Rightarrow> ef \<Rightarrow> (u32 \<times> sector_meta_data \<times> ef) option" where
  "new_env sector env_size s = do {
     (em, sector, s) \<leftarrow> alloc_env sector env_size s;
     if em = FAILED_ADDR \<and> gc_request s then do { s \<leftarrow> gc_collect s; alloc_env sector env_size s }
     else Some (em, sector, s)
   }"

definition new_env_by_kv :: "sector_meta_data \<Rightarrow> nat \<Rightarrow> nat \<Rightarrow> ef \<Rightarrow> (u32 \<times> sector_meta_data \<times> ef) option" where
  "new_env_by_kv sector key_len buf_len s = new_env sector (word_of_nat (ENV_HDR_DATA_SIZE + key_len + buf_len)) s"

section \<open>Setting\<close>

text \<open>\<open>create_env_blob\<close> once there is a place: sector status, header, name and cache entries, value, node status.\<close>

definition create_at :: "sector_meta_data \<Rightarrow> u32 \<Rightarrow> bytes \<Rightarrow> bytes \<Rightarrow> ef \<Rightarrow> EfErrCode \<times> ef" where
  "create_at sector env_addr key v s =
    (let env_hdr = sealed_hdr key v; at = unat env_addr
     in case update_sec_status sector (h_len env_hdr) s of (result, is_full, s) \<Rightarrow>
        case (if result = EF_NO_ERR then on_nor (write_env_hdr at env_hdr) s else (result, s)) of (result, s) \<Rightarrow>
        case (if result = EF_NO_ERR then
                (case on_nor (align_write (at + ENV_HDR_DATA_SIZE) key) s of (result, s) \<Rightarrow>
                   (let s = (if \<not> is_full
                             then cache_sector (sec_addr sector) (env_addr + 28 + word_of_nat (length key) + word_of_nat (length v)) s
                             else s)
                    in (result, cache_env key env_addr s)))
              else (result, s)) of (result, s) \<Rightarrow>
        case (if result = EF_NO_ERR then on_nor (align_write (at + ENV_HDR_DATA_SIZE + length key) v) s else (result, s)) of
          (result, s) \<Rightarrow>
        case (if result = EF_NO_ERR then put_status env_addr ENV_STATUS_NUM ENV_WRITE s else (result, s)) of (result, s) \<Rightarrow>
        (result, if result = EF_NO_ERR \<and> is_full then s\<lparr>gc_request := True\<rparr> else s))"

definition create_env_blob :: "sector_meta_data \<Rightarrow> bytes \<Rightarrow> bytes \<Rightarrow> ef \<Rightarrow> (EfErrCode \<times> ef) option" where
  "create_env_blob sector key v s =
    (if length key > EF_ENV_NAME_MAX then Some (EF_ENV_NAME_ERR, s)
     else if unat (h_len (new_env_hdr key (length v))) > SECTOR_SIZE - SECTOR_HDR_DATA_SIZE then Some (EF_ENV_FULL, s)
     else do {
       (env_addr, sector, s) \<leftarrow>
         (if empty_env sector \<noteq> FAILED_ADDR then Some (empty_env sector, sector, s)
          else new_env sector (h_len (new_env_hdr key (length v))) s);
       Some (if env_addr \<noteq> FAILED_ADDR then create_at sector env_addr key v s else (EF_ENV_FULL, s))
     })"

text \<open>\<open>value_buf\<close> is \<open>None\<close> for a null pointer.\<close>

definition set_env :: "bytes \<Rightarrow> bytes option \<Rightarrow> ef \<Rightarrow> (EfErrCode \<times> ef) option" where
  "set_env key value_buf s =
    (case value_buf of
       None \<Rightarrow> del_env key True s
     | Some v \<Rightarrow> do {
         (em, sector, s) \<leftarrow> new_env_by_kv no_sector (length key) (length v) s;
         if em = FAILED_ADDR then Some (EF_ENV_FULL, s)
         else do {
           (env_is_found, env, s) \<leftarrow> find_env key no_env s;
           let (result, s) = (if env_is_found then del_found (Some key) env False s else (EF_NO_ERR, s));
           (result, s) \<leftarrow> (if result = EF_NO_ERR then create_env_blob sector key v s else Some (result, s));
           let (result, s) = (if env_is_found \<and> result = EF_NO_ERR then del_found (Some key) env True s else (result, s));
           s \<leftarrow> (if gc_request s then gc_collect s else Some s);
           Some (result, s)
         }
       })"

definition ef_set_env_blob :: "bytes \<Rightarrow> bytes option \<Rightarrow> ef \<Rightarrow> (EfErrCode \<times> ef) option" where
  "ef_set_env_blob key value_buf s = (if \<not> init_ok s then Some (EF_ENV_INIT_FAILED, s) else set_env key value_buf s)"

definition ef_set_text :: "bytes \<Rightarrow> bytes \<Rightarrow> ef \<Rightarrow> (EfErrCode \<times> ef) option" where
  "ef_set_text key v s = ef_set_env_blob key (Some v) s"

definition ef_del_env :: "bytes \<Rightarrow> ef \<Rightarrow> (EfErrCode \<times> ef) option" where
  "ef_del_env key s = (if \<not> init_ok s then Some (EF_ENV_INIT_FAILED, s) else del_env key True s)"

section \<open>Start-up\<close>

text \<open>The default set of \<open>src/storage/ef_fal_port.c\<close> is one text; the result of creating it is not looked at.\<close>

definition ef_set_default :: "ef \<Rightarrow> (EfErrCode \<times> ef) option" where
  "ef_set_default s =
    (case format_sector 0 SECTOR_NOT_COMBINED s of (result, s) \<Rightarrow>
       if result \<noteq> EF_NO_ERR then Some (result, s)
       else
         (case format_sector SEC_SIZE SECTOR_NOT_COMBINED s of (result, s) \<Rightarrow>
            if result \<noteq> EF_NO_ERR then Some (result, s)
            else do {
              (_, s) \<leftarrow> create_env_blob no_sector (bytes_of ''boot_times'') (bytes_of ''0'') s;
              Some (result, s)
            }))"

definition check_sec_hdr_cb :: "sector_meta_data \<Rightarrow> nat \<Rightarrow> ef \<Rightarrow> (bool \<times> nat \<times> ef) option" where
  "check_sec_hdr_cb sector failed_count s =
    (if \<not> check_ok sector then Some (False, failed_count + 1, snd (format_sector (sec_addr sector) SECTOR_NOT_COMBINED s))
     else Some (False, failed_count, s))"

definition check_and_recovery_gc_cb :: "sector_meta_data \<Rightarrow> unit \<Rightarrow> ef \<Rightarrow> (bool \<times> unit \<times> ef) option" where
  "check_and_recovery_gc_cb sector a s =
    (if check_ok sector \<and> dirty sector = SECTOR_DIRTY_GC then do {
       s \<leftarrow> gc_collect (s\<lparr>gc_request := True\<rparr>);
       Some (False, a, s)
     } else Some (False, a, s))"

definition check_and_recovery_env_cb :: "env_node_obj \<Rightarrow> unit \<Rightarrow> ef \<Rightarrow> (bool \<times> unit \<times> ef) option" where
  "check_and_recovery_env_cb env a s =
    (if crc_is_ok env \<and> nd_status env = ENV_PRE_DELETE then do {
       (result, s) \<leftarrow> move_env env s;
       Some (result \<noteq> EF_NO_ERR, a, s)
     } else if nd_status env = ENV_PRE_WRITE then
       Some (True, a, snd (put_status (addr_start env) ENV_STATUS_NUM ENV_ERR_HDR s))
     else Some (False, a, s))"

partial_function (option) recover_envs :: "ef \<Rightarrow> ef option" where
  "recover_envs s = do {
     (_, _, s) \<leftarrow> env_iterator check_and_recovery_env_cb no_env () s;
     if gc_request s then do { s \<leftarrow> gc_collect s; recover_envs s } else Some s
   }"

definition ef_load_env :: "ef \<Rightarrow> ef option" where
  "ef_load_env s = do {
     (sector, check_failed_count, s) \<leftarrow>
       sector_iterator no_sector SECTOR_STORE_UNUSED 0 check_sec_hdr_cb False (s\<lparr>in_recovery_check := True\<rparr>);
     s \<leftarrow> (if check_failed_count = SECTOR_NUM then do { (_, s) \<leftarrow> ef_set_default s; Some s } else Some s);
     (_, _, s) \<leftarrow> sector_iterator sector SECTOR_STORE_UNUSED () check_and_recovery_gc_cb False s;
     s \<leftarrow> recover_envs s;
     Some (s\<lparr>in_recovery_check := False\<rparr>)
   }"

definition ef_env_init :: "ef \<Rightarrow> ef option" where
  "ef_env_init s =
    (if init_ok s then Some s
     else do {
       s \<leftarrow> ef_load_env (s\<lparr>sector_cache := map (\<lambda>n. n\<lparr>sc_addr := FAILED_ADDR\<rparr>) (sector_cache s),
              env_cache := map (\<lambda>n. n\<lparr>ec_addr := FAILED_ADDR\<rparr>) (env_cache s)\<rparr>);
       Some (s\<lparr>init_ok := True\<rparr>)
     })"

end
