(* ===== verification/Ef_Layout.thy ===== *)
theory Ef_Layout
  imports Ef_Env
begin

text \<open>
  A sector as a list of nodes: what the walks of \<open>ef_env.c\<close> see when the nodes lie one behind the other and the
  rest of the sector is erased.
\<close>

type_synonym node = "bytes \<times> bytes \<times> bytes"

fun node_size :: "node \<Rightarrow> nat" where "node_size (tab, key, v) = 28 + length key + length v"
fun node_status :: "node \<Rightarrow> nat" where "node_status (tab, key, v) = get_status tab ENV_STATUS_NUM"
fun node_key :: "node \<Rightarrow> bytes" where "node_key (tab, key, v) = key"
fun node_value :: "node \<Rightarrow> bytes" where "node_value (tab, key, v) = v"

fun node_ok :: "node \<Rightarrow> bool" where
  "node_ok (tab, key, v) \<longleftrightarrow> length tab = 5 \<and> 0 < length key \<and> length key \<le> EF_ENV_NAME_MAX \<and>
     28 + length key + length v \<le> SECTOR_SIZE - SECTOR_HDR_DATA_SIZE"

fun stored :: "nat \<Rightarrow> node \<Rightarrow> nor \<Rightarrow> bool" where
  "stored a (tab, key, v) f \<longleftrightarrow> ef_port_read a (28 + length key + length v) f = node_image tab key v"

primrec layout :: "nat \<Rightarrow> node list \<Rightarrow> nor \<Rightarrow> bool" where
  "layout a [] f \<longleftrightarrow> True"
| "layout a (n # ns) f \<longleftrightarrow> node_ok n \<and> stored a n f \<and> layout (a + node_size n) ns f"

definition layout_end :: "nat \<Rightarrow> node list \<Rightarrow> nat" where
  "layout_end a ns = a + sum_list (map node_size ns)"

lemma layout_end_simps [simp]:
  "layout_end a [] = a" "layout_end a (n # ns) = layout_end (a + node_size n) ns"
  "layout_end a (ns @ ms) = layout_end (layout_end a ns) ms"
  by (simp_all add: layout_end_def)

lemma layout_end_ge: "a \<le> layout_end a ns"
  by (simp add: layout_end_def)

lemma layout_append [simp]: "layout a (ns @ ms) f \<longleftrightarrow> layout a ns f \<and> layout (layout_end a ns) ms f"
  by (induction ns arbitrary: a) auto

text \<open>The object of a node at an address, read into \<open>env\<close>.\<close>

fun node_env :: "env_node_obj \<Rightarrow> nat \<Rightarrow> node \<Rightarrow> env_node_obj" where
  "node_env env a (tab, key, v) = env\<lparr>nd_status := get_status tab ENV_STATUS_NUM, crc_is_ok := True,
     nd_name_len := word_of_nat (length key), nd_len := word_of_nat (28 + length key + length v),
     nd_value_len := word_of_nat (length v), nd_name := key @ drop (length key) (nd_name env),
     addr_start := word_of_nat a, addr_value := word_of_nat (a + 28 + length key)\<rparr>"

lemma node_env_simps [simp]:
  "nd_status (node_env env a n) = node_status n" "crc_is_ok (node_env env a n)"
  "addr_start (node_env env a n) = word_of_nat a" "nd_len (node_env env a n) = word_of_nat (node_size n)"
  "nd_value_len (node_env env a n) = word_of_nat (length (node_value n))"
  "nd_name_len (node_env env a n) = word_of_nat (length (node_key n))"
  "take (length (node_key n)) (nd_name (node_env env a n)) = node_key n"
  "addr_value (node_env env a n) = word_of_nat (a + 28 + length (node_key n))"
  by (cases n; simp)+

lemma load_env_stored:
  assumes "node_ok n" "stored a n (ef_nor s)" "a < 2 ^ 32"
  shows "load_env (env\<lparr>addr_start := word_of_nat a\<rparr>) s = Some (node_env env a n, s)"
proof -
  obtain tab key v where n: "n = (tab, key, v)" by (cases n)
  have a: "unat (addr_start (env\<lparr>addr_start := word_of_nat a\<rparr>)) = a"
    using assms(3) by (simp add: unat_word_of_nat)
  have "read_env (env\<lparr>addr_start := word_of_nat a\<rparr>) (ef_nor s) = Some (EF_NO_ERR, node_env env a n, ef_nor s)"
    using read_env_image [OF _ refl _ a, of key v "ef_nor s" tab] assms(1,2) unfolding n by simp
  then show ?thesis by (simp add: load_env_def)
qed

section \<open>The next node\<close>

lemma magic_stored: "node_ok n \<Longrightarrow> stored a n f \<Longrightarrow> magic_at f (a + 8) = ENV_MAGIC_WORD"
proof (cases n)
  case (fields tab key v)
  assume n: "node_ok n" "stored a n f"
  have "ef_port_read (a + 8) 4 f = le32 ENV_MAGIC_WORD"
    using read_part [of 8 4 "28 + length key + length v" a f] n fields
    by (simp add: node_image_def hdr_body_def)
  then show ?thesis using magic_of_le32 [of "[]" ENV_MAGIC_WORD "[]"] by (simp add: magic_at_def)
qed

lemma env_before_small: "8 \<le> a \<Longrightarrow> a < 2 ^ 32 \<Longrightarrow> env_before a = a - 8"
proof -
  assume "8 \<le> a" "a < 2 ^ 32"
  then have "a + 2 ^ 32 - 8 = (a - 8) + 2 ^ 32" by simp
  then show ?thesis using \<open>a < 2 ^ 32\<close> by (simp only: env_before_def mod_add_self2) simp
qed

lemma find_upt_first:
  assumes "a \<le> m" "m < b" "P m" "\<And>i. a \<le> i \<Longrightarrow> i < m \<Longrightarrow> \<not> P i"
  shows "find P [a..<b] = Some m"
proof -
  have "[a..<b] = [a..<m] @ m # [Suc m..<b]"
    using assms(1,2) upt_add_eq_append [of a m "b - m"] by (simp add: upt_conv_Cons)
  moreover have "find P [a..<m] = None" using assms(4) by (auto simp: find_None_iff)
  ultimately show ?thesis using assms(3) by (simp add: find_append)
qed

lemma next_magic_stored:
  assumes "node_ok n" "stored a n f" "8 \<le> a" "a + 8 < fin" "fin < 2 ^ 32"
  shows "next_magic a a fin f = Some a"
proof -
  have "find (\<lambda>p. magic_at f p = ENV_MAGIC_WORD \<and> a \<le> env_before p) [a..<fin] = Some (a + 8)"
    using assms by (intro find_upt_first) (auto simp: magic_stored env_before_small)
  then show ?thesis using assms by (simp add: next_magic_def env_before_small)
qed

lemma blankD: "blank a n f \<Longrightarrow> a \<le> p \<Longrightarrow> p < a + n \<Longrightarrow> cells f p = 0xFF"
  by (auto simp: blank_def list_eq_iff_nth_eq dest: spec [of _ "p - a"])

lemma next_magic_blank:
  assumes "blank a (fin + 20 - a) f"
  shows "next_magic a a fin f = None"
proof -
  have "magic_at f p \<noteq> ENV_MAGIC_WORD" if "a \<le> p" "p < fin" for p
  proof -
    have "cells f (p + i) = 0xFF" if "i < 4" for i
      using blankD [OF assms, of "p + i"] that \<open>a \<le> p\<close> \<open>p < fin\<close> by simp
    from this [of 0] this [of 1] this [of 2] this [of 3]
    show ?thesis by (simp add: magic_at_def magic_of_def push_bit_eq_mult)
  qed
  then show ?thesis by (auto simp: next_magic_def find_None_iff)
qed


section \<open>A sector\<close>

definition sector_base :: "nat \<Rightarrow> bool" where
  "sector_base sec \<longleftrightarrow> sec = 0 \<or> sec = SECTOR_SIZE"

definition free_at :: "nat \<Rightarrow> node list \<Rightarrow> nat" where
  "free_at sec ns = layout_end (sec + SECTOR_HDR_DATA_SIZE) ns"

definition holds_nodes :: "nat \<Rightarrow> node list \<Rightarrow> nor \<Rightarrow> bool" where
  "holds_nodes sec ns f \<longleftrightarrow> layout (sec + SECTOR_HDR_DATA_SIZE) ns f \<and> free_at sec ns < sec + SECTOR_SIZE \<and>
     blank (free_at sec ns) (sec + SECTOR_SIZE - free_at sec ns) f"

definition sector_cached :: "nat \<Rightarrow> node list \<Rightarrow> sector_cache_node list \<Rightarrow> bool" where
  "sector_cached sec ns t \<longleftrightarrow> (\<forall>em. get_sector_from_cache (word_of_nat sec) t = Some em \<longrightarrow> em = word_of_nat (free_at sec ns))"

lemma unat_u32: "a < 2 ^ 32 \<Longrightarrow> unat (word_of_nat a :: u32) = a"
  by (rule unat_word_of_nat) simp

lemma u32_of_nat_eq: "a < 2 ^ 32 \<Longrightarrow> b < 2 ^ 32 \<Longrightarrow> (word_of_nat a :: u32) = word_of_nat b \<longleftrightarrow> a = b"
  by (metis unat_u32)

lemma u32_of_nat_le: "a < 2 ^ 32 \<Longrightarrow> b < 2 ^ 32 \<Longrightarrow> (word_of_nat a :: u32) \<le> word_of_nat b \<longleftrightarrow> a \<le> b"
  by (simp only: word_le_nat_alt unat_u32)

lemma u32_of_nat_less: "a < 2 ^ 32 \<Longrightarrow> b < 2 ^ 32 \<Longrightarrow> (word_of_nat a :: u32) < word_of_nat b \<longleftrightarrow> a < b"
  by (simp only: word_less_nat_alt unat_u32)

lemma u32_not_failed: "a < 2 ^ 32 - 1 \<Longrightarrow> (word_of_nat a :: u32) \<noteq> FAILED_ADDR"
  using u32_of_nat_eq [of a "2 ^ 32 - 1"] by simp

lemma sector_base_mod:
  assumes "sector_base sec" "sec \<le> a" "a < sec + SECTOR_SIZE"
  shows "a - a mod SECTOR_SIZE = sec"
  unfolding minus_mod_eq_mult_div using assms div_nat_eqI [of 131072 0 a] div_nat_eqI [of 131072 1 a]
  by (auto simp: sector_base_def)

lemma sector_base_words:
  assumes "sector_base sec"
  shows "(word_of_nat sec :: u32) + SEC_SIZE = word_of_nat (sec + SECTOR_SIZE)"
    "(word_of_nat sec :: u32) + SEC_SIZE - 20 = word_of_nat (sec + SECTOR_SIZE - 20)"
    "(word_of_nat sec :: u32) + 20 = word_of_nat (sec + 20)" "sec + SECTOR_SIZE \<le> 262144"
  using assms by (auto simp: sector_base_def)

lemma node_size_ge: "node_ok n \<Longrightarrow> 29 \<le> node_size n"
  by (cases n) (auto simp: Suc_le_eq)

lemma next_of_node:
  assumes sec: "sector_base sec" "sec_addr sector = word_of_nat sec" "store sector \<noteq> SECTOR_STORE_EMPTY"
    and a: "sec + 20 \<le> a" and ns: "layout a (n # ns) (ef_nor s)" "layout_end a (n # ns) < sec + SECTOR_SIZE"
    and free: "blank (layout_end a (n # ns)) (sec + SECTOR_SIZE - layout_end a (n # ns)) (ef_nor s)"
    and cache: "\<forall>em. get_sector_from_cache (word_of_nat sec) (sector_cache s) = Some em \<longrightarrow> em = word_of_nat (layout_end a (n # ns))"
  shows "get_next_env_addr sector (node_env env a n) s
    = (if ns = [] then FAILED_ADDR else word_of_nat (a + node_size n))"
proof -
  let ?b = "a + node_size n"
  note base = sector_base_words [OF sec(1)]
  have size: "28 \<le> node_size n" by (cases n) simp
  have le: "?b \<le> layout_end ?b ns" by (rule layout_end_ge)
  then have b: "?b < sec + SECTOR_SIZE" "a < sec + SECTOR_SIZE" "?b < 262144" using ns(2) base(4) by simp_all
  have mod: "?b - ?b mod SECTOR_SIZE = sec" using sector_base_mod [OF sec(1), of ?b] a b by simp
  have nxt: "find_next_env_addr ?b (sec + SECTOR_SIZE - 20) (sector_cache s) (ef_nor s) = (if ns = [] then None else Some ?b)"
  proof (cases ns)
    case Nil
    then have "next_magic ?b ?b (sec + SECTOR_SIZE - 20) (ef_nor s) = None"
      using free by (intro next_magic_blank) (simp add: add.commute)
    then show ?thesis using Nil by (simp add: find_next_env_addr_def magic_outer_next)
  next
    case (Cons m ms)
    have m: "node_ok m" "stored ?b m (ef_nor s)" using ns(1) Cons by simp_all
    then have "29 \<le> node_size m" by (simp add: node_size_ge)
    then have "?b < layout_end ?b ns" "?b + 29 \<le> layout_end ?b ns"
      using Cons layout_end_ge [of "?b + node_size m" ms] by simp_all
    then have "get_sector_from_cache (word_of_nat sec) (sector_cache s) \<noteq> Some (word_of_nat ?b)"
      using cache u32_of_nat_eq [of ?b "layout_end ?b ns"] b ns(2) base(4) by auto
    moreover have "next_magic ?b ?b (sec + SECTOR_SIZE - 20) (ef_nor s) = Some ?b"
      using m a ns(2) base(4) \<open>?b + 29 \<le> layout_end ?b ns\<close> by (intro next_magic_stored) simp_all
    ultimately show ?thesis using mod Cons by (simp add: find_next_env_addr_def magic_outer_next)
  qed
  have unats: "unat (word_of_nat ?b :: u32) = ?b" "unat (word_of_nat (sec + SECTOR_SIZE - 20) :: u32) = sec + SECTOR_SIZE - 20"
    using b base(4) by (intro unat_u32; simp)+
  have words: "word_of_nat a + word_of_nat (node_size n) = (word_of_nat ?b :: u32)"
    "word_of_nat a \<noteq> FAILED_ADDR" "word_of_nat a \<le> (word_of_nat (sec + SECTOR_SIZE) :: u32)"
    "\<not> word_of_nat ?b > (word_of_nat (sec + SECTOR_SIZE) :: u32)" "word_of_nat (node_size n) \<noteq> (0 :: u32)"
    using b base(4) size u32_not_failed [of a] u32_of_nat_le [of a "sec + SECTOR_SIZE"] u32_of_nat_eq [of "node_size n" 0]
      u32_of_nat_less [of "sec + SECTOR_SIZE" ?b] by simp_all
  show ?thesis
    using words unats nxt sec(2,3) base
    by (cases "ns = []") (simp_all only: get_next_env_addr_def Let_def node_env_simps if_True if_False option.case simp_thms if_cancel)
qed


section \<open>Walks\<close>

text \<open>A visitor that leaves the state alone at nodes with some statuses, as a function; the walk over a list of nodes with it.\<close>

definition pure_visitor ::
  "(nat \<Rightarrow> bool) \<Rightarrow> (env_node_obj \<Rightarrow> 'a \<Rightarrow> ef \<Rightarrow> (bool \<times> 'a \<times> ef) option) \<Rightarrow> (env_node_obj \<Rightarrow> 'a \<Rightarrow> bool \<times> 'a) \<Rightarrow> bool" where
  "pure_visitor P cb g \<longleftrightarrow> (\<forall>env a s. P (nd_status env) \<longrightarrow> cb env a s = Some (fst (g env a), snd (g env a), s))"

lemma pure_visitorD: "pure_visitor P cb g \<Longrightarrow> P (nd_status env) \<Longrightarrow> cb env a s = Some (fst (g env a), snd (g env a), s)"
  by (simp only: pure_visitor_def)

fun visit :: "(env_node_obj \<Rightarrow> 'a \<Rightarrow> bool \<times> 'a) \<Rightarrow> nat \<Rightarrow> node list \<Rightarrow> env_node_obj \<Rightarrow> 'a \<Rightarrow> bool \<times> env_node_obj \<times> 'a" where
  "visit g a [] env x = (False, env\<lparr>addr_start := FAILED_ADDR\<rparr>, x)"
| "visit g a (n # ns) env x =
    (case g (node_env env a n) x of (stop, x) \<Rightarrow>
       if stop then (True, node_env env a n, x) else visit g (a + node_size n) ns (node_env env a n) x)"

lemma walk_from:
  assumes cb: "pure_visitor P cb g"
    and sec: "sector_base sec" "sec_addr sector = word_of_nat sec" "store sector \<noteq> SECTOR_STORE_EMPTY"
  shows "\<lbrakk>get_next_env_addr sector env s = word_of_nat a; sec + 20 \<le> a; layout a (n # ns) (ef_nor s);
      layout_end a (n # ns) < sec + SECTOR_SIZE;
      blank (layout_end a (n # ns)) (sec + SECTOR_SIZE - layout_end a (n # ns)) (ef_nor s);
      \<forall>em. get_sector_from_cache (word_of_nat sec) (sector_cache s) = Some em \<longrightarrow> em = word_of_nat (layout_end a (n # ns));
      \<forall>m \<in> set (n # ns). P (node_status m)\<rbrakk>
    \<Longrightarrow> walk_envs cb sector env x s = (case visit g a (n # ns) env x of (stop, env, x) \<Rightarrow> Some (stop, env, x, s))"
proof (induction ns arbitrary: n a env x)
  case Nil
  have a: "a < 2 ^ 32 - 1" using Nil.prems(4) sector_base_words(4) [OF sec(1)] by simp
  have nxt: "get_next_env_addr sector (node_env env a n) s = FAILED_ADDR"
    using next_of_node [OF sec Nil.prems(2-6), of env] by simp
  have "load_env (env\<lparr>addr_start := word_of_nat a\<rparr>) s = Some (node_env env a n, s)"
    using Nil.prems(3) a by (intro load_env_stored) auto
  then show ?case
    using Nil.prems(1) nxt u32_not_failed [OF a] pure_visitorD [OF cb, of "node_env env a n" x s] Nil.prems(7)
    by (simp add: walk_envs.simps [of cb sector env] walk_envs.simps [of cb sector "node_env env a n"] case_prod_beta)
next
  case (Cons m ns)
  have "a + node_size n \<le> layout_end (a + node_size n) (m # ns)" by (rule layout_end_ge)
  then have a: "a < 2 ^ 32 - 1" using Cons.prems(4) sector_base_words(4) [OF sec(1)] by simp
  have nxt: "get_next_env_addr sector (node_env env a n) s = word_of_nat (a + node_size n)"
    using next_of_node [OF sec Cons.prems(2-6), of env] by simp
  have ld: "load_env (env\<lparr>addr_start := word_of_nat a\<rparr>) s = Some (node_env env a n, s)"
    using Cons.prems(3) a by (intro load_env_stored) auto
  have IH: "walk_envs cb sector (node_env env a n) y s =
      (case visit g (a + node_size n) (m # ns) (node_env env a n) y of (stop, env, x) \<Rightarrow> Some (stop, env, x, s))" for y
    by (rule Cons.IH [OF nxt]) (use Cons.prems in auto)
  show ?case
    using Cons.prems(1) ld u32_not_failed [OF a] IH pure_visitorD [OF cb, of "node_env env a n" x s] Cons.prems(7)
    by (simp add: walk_envs.simps [of cb sector env] visit.simps(2) [of g a n] case_prod_beta del: visit.simps(2) of_nat_add)
qed

text \<open>From the start of a sector.\<close>

lemma walk_sector:
  assumes cb: "pure_visitor P cb g" and sec: "sector_base sec" "sec_addr sector = word_of_nat sec" "store sector \<noteq> SECTOR_STORE_EMPTY"
    and start: "addr_start env = FAILED_ADDR" and ns: "ns \<noteq> []" "holds_nodes sec ns (ef_nor s)" "sector_cached sec ns (sector_cache s)"
    and st: "\<forall>n \<in> set ns. P (node_status n)"
  shows "walk_envs cb sector env x s = (case visit g (sec + 20) ns env x of (stop, env, x) \<Rightarrow> Some (stop, env, x, s))"
proof -
  obtain n ms where n: "ns = n # ms" using ns(1) by (cases ns) auto
  have "get_next_env_addr sector env s = word_of_nat (sec + 20)"
    using start sec sector_base_words(3) [OF sec(1)] by (simp add: get_next_env_addr_def)
  then show ?thesis unfolding n
    using ns(2,3) st by (intro walk_from [OF cb sec]) (auto simp: holds_nodes_def sector_cached_def free_at_def n)
qed

end
