(* ===== verification/Ef_Sectors.thy ===== *)
theory Ef_Sectors
  imports Ef_Layout
begin

text \<open>
  Sector headers, status writes and the iterators over sectors, on a store of two sectors of which one is in use.
\<close>

section \<open>Status writes\<close>

lemma last_zero_update: "k < length tab \<Longrightarrow> last_zero (tab[k := 0]) m = max (if k < m then Suc k else 0) (last_zero tab m)"
proof (induction m)
  case (Suc m)
  then show ?case using last_zero_le [of tab m] by (auto simp: nth_list_update max_def)
qed simp

lemma get_status_update:
  assumes "0 < i" "i < num" "length tab = num - 1"
  shows "get_status (tab[i - 1 := 0]) num = max i (get_status tab num)"
  using assms by (simp add: get_status_zero last_zero_update)

lemma read_touch:
  assumes "\<not> dead f" "a \<le> p" "p < a + n"
  shows "ef_port_read a n (snd (nor_write p [0] f)) = (ef_port_read a n f)[p - a := 0]"
  using assms by (intro nth_equalityI) (auto simp: nor_write_def nth_list_update)

lemma put_status_eq:
  assumes "\<not> dead (ef_nor s)" "0 < i" "i < num" "unat addr + num \<le> ef_len"
  shows "put_status addr num i s = (EF_NO_ERR, s\<lparr>ef_nor := snd (nor_write (unat addr + (i - 1)) [0] (ef_nor s))\<rparr>)"
  using assms by (simp add: put_status_def on_nor_def write_status_def set_status_def ef_port_write_ok Let_def)

section \<open>Sector headers\<close>

definition hdr_is :: "nat \<Rightarrow> bytes \<Rightarrow> bytes \<Rightarrow> nor \<Rightarrow> bool" where
  "hdr_is sec tab1 tab2 f \<longleftrightarrow> length tab1 = 3 \<and> length tab2 = 3 \<and>
     ef_port_read sec 20 f = tab1 @ tab2 @ [0xFF, 0xFF] @ le32 SECTOR_MAGIC_WORD @ le32 SECTOR_NOT_COMBINED @ le32 0xFFFFFFFF"

definition meta :: "nat \<Rightarrow> bytes \<Rightarrow> bytes \<Rightarrow> sector_meta_data \<Rightarrow> sector_meta_data" where
  "meta sec tab1 tab2 sector = sector\<lparr>check_ok := True, store := get_status tab1 SECTOR_STORE_STATUS_NUM,
     dirty := get_status tab2 SECTOR_DIRTY_STATUS_NUM, sec_addr := word_of_nat sec, sec_magic := SECTOR_MAGIC_WORD,
     combined := SECTOR_NOT_COMBINED\<rparr>"

lemma read_sector_hdr_is:
  assumes "sector_base sec" "hdr_is sec tab1 tab2 (ef_nor s)"
  shows "read_sector_hdr (word_of_nat sec) sector s = (EF_NO_ERR, meta sec tab1 tab2 sector)"
proof -
  have "unat (word_of_nat sec :: u32) = sec" using assms(1) by (intro unat_u32) (auto simp: sector_base_def)
  moreover have "magic_of (ef_port_read sec 20 (ef_nor s)) 8 = SECTOR_MAGIC_WORD"
    "magic_of (ef_port_read sec 20 (ef_nor s)) 12 = SECTOR_NOT_COMBINED"
    using assms(2) magic_of_le32 [of "tab1 @ tab2 @ [0xFF, 0xFF]" SECTOR_MAGIC_WORD "le32 SECTOR_NOT_COMBINED @ le32 0xFFFFFFFF"]
      magic_of_le32 [of "tab1 @ tab2 @ [0xFF, 0xFF] @ le32 SECTOR_MAGIC_WORD" SECTOR_NOT_COMBINED "le32 0xFFFFFFFF"]
    by (simp_all add: hdr_is_def)
  ultimately show ?thesis using assms(2)
    by (simp add: read_sector_hdr_def meta_def hdr_is_def Let_def)
qed

lemma read_sector_plain:
  assumes "sector_base sec" "hdr_is sec tab1 tab2 (ef_nor s)"
  shows "read_sector_meta_data (word_of_nat sec) sector False s = Some (EF_NO_ERR, meta sec tab1 tab2 sector, s)"
  using read_sector_hdr_is [OF assms] by (simp add: read_sector_meta_data_def)

lemma hdr_is_touch:
  assumes "hdr_is sec tab1 tab2 f" "\<not> dead f" "j < 3"
  shows "hdr_is sec (tab1[j := 0]) tab2 (snd (nor_write (sec + j) [0] f))"
    "hdr_is sec tab1 (tab2[j := 0]) (snd (nor_write (sec + 3 + j) [0] f))"
  using assms read_touch [of f sec "sec + j" 20] read_touch [of f sec "sec + 3 + j" 20]
  by (auto simp: hdr_is_def list_update_append)

lemma hdr_is_apart:
  "hdr_is sec tab1 tab2 f \<Longrightarrow> sec + 20 \<le> a \<or> a + length buf \<le> sec \<Longrightarrow> hdr_is sec tab1 tab2 (snd (nor_write a buf f))"
  by (auto simp: hdr_is_def read_apart)

section \<open>Two sectors\<close>

lemma next_sector:
  "get_next_sector_addr (sector\<lparr>sec_addr := FAILED_ADDR\<rparr>) = word_of_nat 0" "get_next_sector_addr no_sector = word_of_nat 0"
  "get_next_sector_addr (meta 0 tab1 tab2 sector) = word_of_nat SECTOR_SIZE"
  "get_next_sector_addr (meta SECTOR_SIZE tab1 tab2 sector) = FAILED_ADDR"
  by (simp_all add: get_next_sector_addr_def meta_def no_sector_def)


definition other_sector :: "nat \<Rightarrow> nat" where
  "other_sector cur = SECTOR_SIZE - cur"

definition two_sectors :: "nat \<Rightarrow> bytes \<Rightarrow> bytes \<Rightarrow> bytes \<Rightarrow> bytes \<Rightarrow> nor \<Rightarrow> bool" where
  "two_sectors cur t1 t2 u1 u2 f \<longleftrightarrow> sector_base cur \<and> hdr_is cur t1 t2 f \<and> hdr_is (other_sector cur) u1 u2 f \<and>
     (get_status t1 SECTOR_STORE_STATUS_NUM = SECTOR_STORE_USING \<or> get_status t1 SECTOR_STORE_STATUS_NUM = SECTOR_STORE_FULL) \<and>
     get_status u1 SECTOR_STORE_STATUS_NUM = SECTOR_STORE_EMPTY \<and> get_status u2 SECTOR_DIRTY_STATUS_NUM = SECTOR_DIRTY_FALSE \<and>
     blank (other_sector cur + 20) (SECTOR_SIZE - 20) f"

text \<open>The status of a sector as the flash has it.\<close>

abbreviation (input) store_status :: "nat \<Rightarrow> nor \<Rightarrow> nat" where
  "store_status cur f \<equiv> read_status cur SECTOR_STORE_STATUS_NUM f"

abbreviation (input) dirty_status :: "nat \<Rightarrow> nor \<Rightarrow> nat" where
  "dirty_status cur f \<equiv> read_status (cur + 3) SECTOR_DIRTY_STATUS_NUM f"

lemma hdr_is_status:
  assumes "hdr_is cur t1 t2 f"
  shows "store_status cur f = get_status t1 4" "dirty_status cur f = get_status t2 4"
  using assms read_part [of 0 3 20 cur f] read_part [of 3 3 20 cur f] by (simp_all add: hdr_is_def read_status_def)

lemma status_cong:
  assumes "\<And>p. cur \<le> p \<Longrightarrow> p < cur + 20 \<Longrightarrow> cells f' p = cells f p"
  shows "store_status cur f' = store_status cur f" "dirty_status cur f' = dirty_status cur f"
  using assms by (auto simp: read_status_def intro!: arg_cong2 [where f = get_status] nth_equalityI)

lemma meta_simps [simp]:
  "check_ok (meta sec t1 t2 m)" "store (meta sec t1 t2 m) = get_status t1 SECTOR_STORE_STATUS_NUM"
  "dirty (meta sec t1 t2 m) = get_status t2 SECTOR_DIRTY_STATUS_NUM" "sec_addr (meta sec t1 t2 m) = word_of_nat sec"
  "combined (meta sec t1 t2 m) = SECTOR_NOT_COMBINED" "remain (meta sec t1 t2 m) = remain m" "empty_env (meta sec t1 t2 m) = empty_env m"
  by (simp_all add: meta_def)

lemma get_next_sector_addr_cong:
  "sec_addr m = sec_addr m' \<Longrightarrow> combined m = combined m' \<Longrightarrow> get_next_sector_addr m = get_next_sector_addr m'"
  by (simp add: get_next_sector_addr_def)

lemma walk_all_nodes:
  assumes cb: "pure_visitor P cb g" and two: "two_sectors cur t1 t2 u1 u2 (ef_nor s)"
    and ns: "ns \<noteq> []" "holds_nodes cur ns (ef_nor s)" "sector_cached cur ns (sector_cache s)"
    and vis: "\<forall>n \<in> set ns. P (node_status n)"
  shows "env_iterator cb env a s
    = (case visit g (cur + 20) ns (env\<lparr>addr_start := FAILED_ADDR\<rparr>) a of (stop, env, a) \<Rightarrow> Some (env, a, s))"
proof -
  have base: "sector_base cur" and st: "get_status t1 4 = 2 \<or> get_status t1 4 = 3" "get_status u1 4 = 1" using two by (simp_all add: two_sectors_def)
  have walk: "walk_envs cb (meta cur t1 t2 m) (env\<lparr>addr_start := FAILED_ADDR\<rparr>) a s
      = (case visit g (cur + 20) ns (env\<lparr>addr_start := FAILED_ADDR\<rparr>) a of (stop, env, x) \<Rightarrow> Some (stop, env, x, s))" for m env a
    using base st ns vis by (intro walk_sector [OF cb]) auto
  show ?thesis
  proof (cases "cur = 0")
    case True
    then have h: "hdr_is 0 t1 t2 (ef_nor s)" "hdr_is SECTOR_SIZE u1 u2 (ef_nor s)"
      using two by (simp_all add: two_sectors_def other_sector_def)
    have "sector_base 0" "sector_base SECTOR_SIZE" by (simp_all add: sector_base_def)
    note r = read_sector_plain [OF this(1) h(1)] read_sector_plain [OF this(2) h(2)]
    show ?thesis unfolding env_iterator_def
      using r walk st True by (simp add: walk_all.simps [of cb] next_sector case_prod_beta)
  next
    case False
    then have c: "cur = SECTOR_SIZE" using base by (simp add: sector_base_def)
    then have h: "hdr_is 0 u1 u2 (ef_nor s)" "hdr_is SECTOR_SIZE t1 t2 (ef_nor s)"
      using two by (simp_all add: two_sectors_def other_sector_def)
    have "sector_base 0" "sector_base SECTOR_SIZE" by (simp_all add: sector_base_def)
    note r = read_sector_plain [OF this(1) h(1)] read_sector_plain [OF this(2) h(2)]
    show ?thesis unfolding env_iterator_def
      using r walk st c by (simp add: walk_all.simps [of cb] next_sector case_prod_beta)
  qed
qed


section \<open>The free space of the sector in use\<close>

definition measure_of :: "env_node_obj \<Rightarrow> u32 \<times> u32 \<times> EfErrCode \<Rightarrow> bool \<times> (u32 \<times> u32 \<times> EfErrCode)" where
  "measure_of env a = (case a of (rem, em, result) \<Rightarrow>
     if \<not> crc_is_ok env \<and> nd_status env \<noteq> ENV_PRE_WRITE \<and> nd_status env \<noteq> ENV_ERR_HDR then (True, (0, em, EF_READ_ERR))
     else (False, (rem - nd_len env, em + nd_len env, result)))"

lemma measure_env_pure: "pure_visitor (\<lambda>_. True) measure_env measure_of"
  by (auto simp: pure_visitor_def measure_env_def measure_of_def split: prod.splits)

lemma visit_measure:
  "\<exists>env'. visit measure_of a ns env (rem, em, r)
     = (False, env', (rem - word_of_nat (layout_end 0 ns), em + word_of_nat (layout_end 0 ns), r))"
proof (induction ns arbitrary: a env rem em)
  case (Cons n ns)
  have "layout_end (node_size n) ns = node_size n + layout_end 0 ns" by (simp add: layout_end_def)
  then show ?case using Cons.IH [of "a + node_size n" "node_env env a n" "rem - word_of_nat (node_size n)" "em + word_of_nat (node_size n)"]
    by (simp add: measure_of_def algebra_simps)
qed simp

lemma continue_ff_blank:
  assumes "blank a (fin - a) f" "a \<le> fin"
  shows "continue_ff_addr a fin f = a"
proof -
  have "takeWhile (\<lambda>b. b = 0xFF) (rev (ef_port_read a (fin - a) f)) = replicate (fin - a) 0xFF"
    using assms(1) by (simp add: blank_def takeWhile_replicate)
  with assms(2) continue_ff_addr_tail [OF assms(2), of f] show ?thesis by simp
qed

lemma free_at_sum: "free_at sec ns = sec + 20 + layout_end 0 ns"
  by (simp add: free_at_def layout_end_def)

text \<open>The sector in use as the traversal describes it.\<close>

definition using_meta :: "nat \<Rightarrow> bytes \<Rightarrow> bytes \<Rightarrow> node list \<Rightarrow> sector_meta_data \<Rightarrow> sector_meta_data" where
  "using_meta cur t1 t2 ns m = (meta cur t1 t2 m)\<lparr>remain := word_of_nat (cur + SECTOR_SIZE - free_at cur ns),
     empty_env := word_of_nat (free_at cur ns)\<rparr>"

lemma read_sector_using:
  assumes base: "sector_base cur" and hdr: "hdr_is cur t1 t2 (ef_nor s)" and st: "get_status t1 4 = SECTOR_STORE_USING"
    and ns: "ns \<noteq> []" "holds_nodes cur ns (ef_nor s)" "sector_cached cur ns (sector_cache s)"
  shows "\<exists>s'. read_sector_meta_data (word_of_nat cur) m True s = Some (EF_NO_ERR, using_meta cur t1 t2 ns m, s') \<and>
    (s' = s \<or> s' = cache_sector (word_of_nat cur) (word_of_nat (free_at cur ns)) s)"
proof -
  let ?e = "free_at cur ns" and ?m = "(meta cur t1 t2 m)\<lparr>remain := 0, empty_env := word_of_nat cur + 20\<rparr>"
  have e: "?e < cur + SECTOR_SIZE" "cur + 20 \<le> ?e" using ns(2) by (simp_all add: holds_nodes_def free_at_sum)
  have small: "cur + SECTOR_SIZE < 2 ^ 32" using base by (auto simp: sector_base_def)
  have remw: "SEC_SIZE - (word_of_nat ?e - word_of_nat cur) = (word_of_nat (cur + SECTOR_SIZE - ?e) :: u32)"
    using e by (simp add: of_nat_diff)
  show ?thesis
  proof (cases "get_sector_from_cache (word_of_nat cur) (sector_cache s)")
    case (Some em)
    then have "em = word_of_nat ?e" using ns(3) by (simp add: sector_cached_def)
    then show ?thesis using read_sector_hdr_is [OF base hdr, of m] st Some remw
      by (simp add: read_sector_meta_data_def using_meta_def Let_def del: of_nat_diff)
  next
    case None
    have walk: "walk_envs measure_env ?m no_env x s = (case visit measure_of (cur + 20) ns no_env x of (stop, env, x) \<Rightarrow> Some (stop, env, x, s))" for x
      using base st ns by (intro walk_sector [OF measure_env_pure]) (simp_all add: no_env_def)
    obtain env' where v: "visit measure_of (cur + 20) ns no_env (SEC_SIZE - 20, word_of_nat cur + 20, EF_NO_ERR)
        = (False, env', (SEC_SIZE - 20 - word_of_nat (layout_end 0 ns), word_of_nat cur + 20 + word_of_nat (layout_end 0 ns), EF_NO_ERR))"
      using visit_measure by blast
    have em: "word_of_nat cur + 20 + word_of_nat (layout_end 0 ns) = (word_of_nat ?e :: u32)" by (simp add: free_at_sum)
    have rem: "SEC_SIZE - 20 - word_of_nat (layout_end 0 ns) = (word_of_nat (cur + SECTOR_SIZE - ?e) :: u32)"
      using remw by (simp add: free_at_sum del: of_nat_diff)
    have "continue_ff_addr ?e (cur + SECTOR_SIZE) (ef_nor s) = ?e"
      using ns(2) e by (intro continue_ff_blank) (simp_all add: holds_nodes_def)
    moreover have "unat (word_of_nat ?e :: u32) = ?e" "unat (word_of_nat (cur + SECTOR_SIZE) :: u32) = cur + SECTOR_SIZE"
      using e small by (intro unat_u32; simp)+
    ultimately have ff: "continue_ff_addr (unat (word_of_nat ?e :: u32)) (unat (word_of_nat (cur + SECTOR_SIZE) :: u32)) (ef_nor s) = ?e"
      by (simp only:)
    show ?thesis
      using read_sector_hdr_is [OF base hdr, of m] st None walk v em rem ff sector_base_words(1) [OF base]
      by (simp add: read_sector_meta_data_def using_meta_def Let_def del: of_nat_diff of_nat_add)
  qed
qed


section \<open>Allocation\<close>

lemma two_sectors_cases:
  assumes "two_sectors cur t1 t2 u1 u2 f"
  obtains "cur = 0" "hdr_is 0 t1 t2 f" "hdr_is SECTOR_SIZE u1 u2 f"
  | "cur = SECTOR_SIZE" "hdr_is 0 u1 u2 f" "hdr_is SECTOR_SIZE t1 t2 f"
  using assms by (auto simp: two_sectors_def sector_base_def other_sector_def)

lemma sector_base_simps [simp]: "sector_base 0" "sector_base SECTOR_SIZE"
  by (simp_all add: sector_base_def)

lemma statistics_two:
  assumes "two_sectors cur t1 t2 u1 u2 (ef_nor s)"
  shows "\<exists>m'. sector_iterator m SECTOR_STORE_UNUSED (0, 0) sector_statistics_cb False s
    = Some (m', (1, if get_status t1 4 = SECTOR_STORE_USING then 1 else 0), s)"
proof -
  have st: "get_status t1 4 = 2 \<or> get_status t1 4 = 3" "get_status u1 4 = 1" using assms by (simp_all add: two_sectors_def)
  from assms show ?thesis
    by (cases rule: two_sectors_cases)
      (use st in \<open>auto simp: sector_iterator_def walk_sectors.simps [of sector_statistics_cb] next_sector
         read_sector_plain [of 0, simplified] read_sector_plain [of SECTOR_SIZE, simplified] sector_statistics_cb_def\<close>)
qed

lemma alloc_env_using:
  assumes two: "two_sectors cur t1 t2 u1 u2 (ef_nor s)" and clean: "get_status t2 4 = SECTOR_DIRTY_FALSE \<or> get_status t2 4 = SECTOR_DIRTY_TRUE"
    and ns: "ns \<noteq> []" "holds_nodes cur ns (ef_nor s)" "sector_cached cur ns (sector_cache s)"
    and gc: "\<not> gc_request s" and open_sector: "get_status t1 4 = SECTOR_STORE_USING" and fit: "free_at cur ns + sz < cur + SECTOR_SIZE"
  shows "\<exists>m' s'. alloc_env m (word_of_nat sz) s = Some (word_of_nat (free_at cur ns), using_meta cur t1 t2 ns m', s') \<and>
    (s' = s \<or> s' = cache_sector (word_of_nat cur) (word_of_nat (free_at cur ns)) s)"
proof -
  have base: "sector_base cur" and st: "get_status t1 4 = 2" "get_status u1 4 = 1" and hdr: "hdr_is cur t1 t2 (ef_nor s)"
    using two open_sector by (simp_all add: two_sectors_def)
  have small: "cur + SECTOR_SIZE \<le> 262144" using base by (rule sector_base_words)
  have room: "word_of_nat sz < (word_of_nat (cur + SECTOR_SIZE - free_at cur ns) :: u32)"
    using fit small by (subst u32_of_nat_less) auto
  have ne: "word_of_nat (free_at cur ns) \<noteq> FAILED_ADDR" using fit small by (intro u32_not_failed) simp
  have cb: "alloc_env_cb (word_of_nat sz) (using_meta cur t1 t2 ns m) em s'' = Some (True, word_of_nat (free_at cur ns), s'')"
    if "s'' = s \<or> s'' = cache_sector (word_of_nat cur) (word_of_nat (free_at cur ns)) s" for m em s''
    using that clean gc room by (auto simp: alloc_env_cb_def using_meta_def cache_sector_def)
  have iter: "\<exists>m' s'. sector_iterator m SECTOR_STORE_USING FAILED_ADDR (alloc_env_cb (word_of_nat sz)) True s
      = Some (using_meta cur t1 t2 ns m', word_of_nat (free_at cur ns), s') \<and>
      (s' = s \<or> s' = cache_sector (word_of_nat cur) (word_of_nat (free_at cur ns)) s)" for m
  proof -
    obtain r where r: "\<And>m. read_sector_meta_data (word_of_nat cur) m True s = Some (EF_NO_ERR, using_meta cur t1 t2 ns m, r m)"
      "\<And>m. r m = s \<or> r m = cache_sector (word_of_nat cur) (word_of_nat (free_at cur ns)) s"
      using read_sector_using [OF base hdr st(1) ns] by metis
    from two show ?thesis
      by (cases rule: two_sectors_cases)
        (use st r cb [OF r(2)] in \<open>auto simp: sector_iterator_def walk_sectors.simps [of "alloc_env_cb (word_of_nat sz)"] next_sector
           read_sector_plain [of 0, simplified] read_sector_plain [of SECTOR_SIZE, simplified]\<close>)
  qed
  obtain m1 where "sector_iterator m SECTOR_STORE_UNUSED (0, 0) sector_statistics_cb False s = Some (m1, (1, 1), s)"
    using statistics_two [OF two, of m] st by auto
  moreover obtain m2 s2 where "sector_iterator m1 SECTOR_STORE_USING FAILED_ADDR (alloc_env_cb (word_of_nat sz)) True s
      = Some (using_meta cur t1 t2 ns m2, word_of_nat (free_at cur ns), s2)"
      "s2 = s \<or> s2 = cache_sector (word_of_nat cur) (word_of_nat (free_at cur ns)) s" using iter by blast
  ultimately show ?thesis using ne by (auto simp: alloc_env_def)
qed

end
