(* ===== verification/Ef_Frame.thy ===== *)
theory Ef_Frame
  imports Ef_Sectors
begin

text \<open>
  How the writes of \<open>ef_env.c\<close> change a sector of nodes: a status write changes one byte of one node or of the header,
  a new node is appended, and everything else stays as it was.
\<close>

lemma read_cong: "(\<And>p. a \<le> p \<Longrightarrow> p < a + n \<Longrightarrow> cells f' p = cells f p) \<Longrightarrow> ef_port_read a n f' = ef_port_read a n f"
  by (intro nth_equalityI) auto

lemma cells_write: "p < a \<or> a + length buf \<le> p \<Longrightarrow> cells (snd (nor_write a buf f)) p = cells f p"
  by (auto simp: nor_write_def)

lemma stored_cong:
  "(\<And>p. a \<le> p \<Longrightarrow> p < a + node_size n \<Longrightarrow> cells f' p = cells f p) \<Longrightarrow> stored a n f' = stored a n f"
  by (cases n) (simp add: read_cong [of a _ f' f])

lemma layout_cong:
  "(\<And>p. a \<le> p \<Longrightarrow> p < layout_end a ns \<Longrightarrow> cells f' p = cells f p) \<Longrightarrow> layout a ns f' = layout a ns f"
proof (induction ns arbitrary: a)
  case (Cons n ns)
  have ge: "a + node_size n \<le> layout_end (a + node_size n) ns" by (rule layout_end_ge)
  have "stored a n f' = stored a n f" using Cons.prems ge by (intro stored_cong) auto
  moreover have "layout (a + node_size n) ns f' = layout (a + node_size n) ns f"
    using Cons.prems by (intro Cons.IH) auto
  ultimately show ?case by simp
qed simp

lemma blank_cong: "(\<And>p. a \<le> p \<Longrightarrow> p < a + n \<Longrightarrow> cells f' p = cells f p) \<Longrightarrow> blank a n f' = blank a n f"
  by (simp add: blank_def read_cong [of a n f' f])

lemma hdr_is_cong:
  "(\<And>p. sec \<le> p \<Longrightarrow> p < sec + 20 \<Longrightarrow> cells f' p = cells f p) \<Longrightarrow> hdr_is sec t1 t2 f' = hdr_is sec t1 t2 f"
  by (simp add: hdr_is_def read_cong [of sec 20 f' f])

lemma holds_nodes_cong:
  assumes "\<And>p. sec + 20 \<le> p \<Longrightarrow> p < sec + SECTOR_SIZE \<Longrightarrow> cells f' p = cells f p"
  shows "holds_nodes sec ns f' = holds_nodes sec ns f"
proof (cases "free_at sec ns < sec + SECTOR_SIZE")
  case True
  have "sec + 20 \<le> free_at sec ns" by (simp add: free_at_sum)
  with True assms have "layout (sec + 20) ns f' = layout (sec + 20) ns f"
    "blank (free_at sec ns) (sec + SECTOR_SIZE - free_at sec ns) f' = blank (free_at sec ns) (sec + SECTOR_SIZE - free_at sec ns) f"
    by (auto intro!: layout_cong blank_cong simp: free_at_def)
  then show ?thesis by (simp add: holds_nodes_def)
qed (simp add: holds_nodes_def)

section \<open>The status of a node\<close>

fun touch :: "nat \<Rightarrow> node \<Rightarrow> node" where
  "touch j (tab, key, v) = (tab[j - 1 := 0], key, v)"

lemma touch_simps [simp]:
  "node_size (touch j n) = node_size n" "node_key (touch j n) = node_key n" "node_value (touch j n) = node_value n"
  "node_ok (touch j n) = node_ok n"
  by (cases n; simp)+

lemma node_status_touch: "node_ok n \<Longrightarrow> 0 < j \<Longrightarrow> j < 6 \<Longrightarrow> node_status (touch j n) = max j (node_status n)"
  by (cases n) (use get_status_update [of j 6] in simp)

lemma stored_touch:
  assumes "stored a n f" "node_ok n" "\<not> dead f" "0 < j" "j < 6"
  shows "stored a (touch j n) (snd (nor_write (a + (j - 1)) [0] f))"
proof -
  obtain tab key v where n: "n = (tab, key, v)" by (cases n)
  have "ef_port_read a (28 + length key + length v) (snd (nor_write (a + (j - 1)) [0] f))
      = (ef_port_read a (28 + length key + length v) f)[j - 1 := 0]"
    using assms(3-5) read_touch [of f a "a + (j - 1)" "28 + length key + length v"] by simp
  also have "\<dots> = node_image (tab[j - 1 := 0]) key v"
    using assms(1,2,4,5) n by (auto simp: node_image_def list_update_append)
  finally show ?thesis by (simp add: n)
qed

lemma holds_touch:
  assumes "holds_nodes sec (xs @ n # ys) f" "\<not> dead f" "0 < j" "j < 6"
  shows "holds_nodes sec (xs @ touch j n # ys) (snd (nor_write (layout_end (sec + 20) xs + (j - 1)) [0] f))"
proof -
  let ?a = "layout_end (sec + 20) xs" and ?f = "snd (nor_write (layout_end (sec + 20) xs + (j - 1)) [0] f)"
  have lay: "layout (sec + 20) xs f" "node_ok n" "stored ?a n f" "layout (?a + node_size n) ys f"
    and free: "free_at sec (xs @ n # ys) < sec + SECTOR_SIZE"
      "blank (free_at sec (xs @ n # ys)) (sec + SECTOR_SIZE - free_at sec (xs @ n # ys)) f"
    using assms(1) by (simp_all add: holds_nodes_def)
  have ends: "29 \<le> node_size n" "?a + node_size n \<le> layout_end (?a + node_size n) ys"
    using lay(2) layout_end_ge by (simp_all add: node_size_ge)
  have "layout (sec + 20) xs ?f = layout (sec + 20) xs f" by (intro layout_cong cells_write) auto
  moreover have "layout (?a + node_size n) ys ?f = layout (?a + node_size n) ys f"
    using ends(1) assms(4) by (intro layout_cong cells_write) auto
  moreover have "stored ?a (touch j n) ?f" using lay assms(2-4) by (intro stored_touch)
  moreover have at: "free_at sec (xs @ touch j n # ys) = free_at sec (xs @ n # ys)" by (simp add: free_at_def)
  moreover have "blank (free_at sec (xs @ n # ys)) (sec + SECTOR_SIZE - free_at sec (xs @ n # ys)) ?f"
    using free(2) ends assms(4) by (subst blank_cong [where f = f]) (auto simp: free_at_def intro!: cells_write)
  ultimately show ?thesis using lay free(1) by (simp add: holds_nodes_def)
qed

section \<open>A new node\<close>

lemma node_program_frame:
  assumes "p < a \<or> a + 28 + length key + length v \<le> p"
  shows "cells (apply_writes (node_program a key v) f) p = cells f p"
  using assms by (auto simp: apply_writes_def node_program_def cells_write)

lemma holds_nodes_append:
  assumes "holds_nodes sec ns f" "\<not> dead f" "node_ok (written_tab, key, v)"
    "free_at sec ns + 28 + length key + length v < sec + SECTOR_SIZE"
  shows "holds_nodes sec (ns @ [(written_tab, key, v)]) (apply_writes (node_program (free_at sec ns) key v) f)"
proof -
  let ?e = "free_at sec ns" and ?f = "apply_writes (node_program (free_at sec ns) key v) f"
  let ?n = "28 + length key + length v"
  have ns: "layout (sec + 20) ns f" "blank ?e (sec + SECTOR_SIZE - ?e) f" using assms(1) by (simp_all add: holds_nodes_def)
  have "sec + SECTOR_SIZE - ?e = ?n + (sec + SECTOR_SIZE - (?e + ?n))" using assms(4) by simp
  with ns(2) have blank: "blank ?e ?n f" "blank (?e + ?n) (sec + SECTOR_SIZE - (?e + ?n)) f"
    by (simp_all only: blank_split)
  have "layout (sec + 20) ns ?f = layout (sec + 20) ns f"
    by (intro layout_cong node_program_frame) (auto simp: free_at_def)
  moreover have "stored ?e (written_tab, key, v) ?f" using node_program_image [OF assms(2) blank(1)] by simp
  moreover have "blank (?e + ?n) (sec + SECTOR_SIZE - (?e + ?n)) ?f"
    using blank(2) by (subst blank_cong [where f = f]) (auto intro!: node_program_frame)
  moreover have "free_at sec (ns @ [(written_tab, key, v)]) = ?e + ?n" by (simp add: free_at_def)
  ultimately show ?thesis using ns(1) assms(3,4)
    by (simp add: holds_nodes_def free_at_def [symmetric] add.assoc)
qed

end
