(* ===== verification/Ef_Store.thy ===== *)
theory Ef_Store
  imports Ef_Frame
begin

text \<open>
  The flash store as a map from names to values: the invariant of a store with one sector in use, and lookup, setting
  and deletion against the map.
\<close>

section \<open>Places\<close>

fun placed :: "nat \<Rightarrow> node list \<Rightarrow> (nat \<times> node) list" where
  "placed a [] = []"
| "placed a (n # ns) = (a, n) # placed (a + node_size n) ns"

lemma placed_append [simp]: "placed a (xs @ ys) = placed a xs @ placed (layout_end a xs) ys"
  by (induction xs arbitrary: a) auto

lemma placed_split:
  assumes "(p, n) \<in> set (placed a ns)"
  obtains xs ys where "ns = xs @ n # ys" "p = layout_end a xs"
  using assms
proof (induction ns arbitrary: a thesis)
  case (Cons m ns)
  show ?case
  proof (cases "(p, n) = (a, m)")
    case True
    then show ?thesis using Cons.prems(1) [of "[]" ns] by simp
  next
    case False
    then have "(p, n) \<in> set (placed (a + node_size m) ns)" using Cons.prems(2) by auto
    then obtain xs ys where "ns = xs @ n # ys" "p = layout_end (a + node_size m) xs" using Cons.IH by blast
    then show ?thesis using Cons.prems(1) [of "m # xs" ys] by simp
  qed
qed simp

lemma placed_node: "(p, n) \<in> set (placed a ns) \<Longrightarrow> n \<in> set ns"
  by (induction ns arbitrary: a) auto

lemma placed_place: "n \<in> set ns \<Longrightarrow> \<exists>p. (p, n) \<in> set (placed a ns)"
  by (induction ns arbitrary: a) auto

lemma placed_bounds:
  assumes "holds_nodes cur ns f" "(p, n) \<in> set (placed (cur + 20) ns)"
  shows "cur + 20 \<le> p" "p + node_size n \<le> free_at cur ns" "node_ok n" "stored p n f"
proof -
  obtain xs ys where x: "ns = xs @ n # ys" "p = layout_end (cur + 20) xs" using assms(2) by (rule placed_split)
  show "node_ok n" "stored p n f" using assms(1) x by (simp_all add: holds_nodes_def)
  show "cur + 20 \<le> p" unfolding x by (rule layout_end_ge)
  show "p + node_size n \<le> free_at cur ns" unfolding x by (simp add: free_at_def layout_end_ge)
qed

section \<open>What is stored\<close>

definition live :: "node list \<Rightarrow> node list" where
  "live ns = filter (\<lambda>n. node_status n = ENV_WRITE) ns"

definition contents :: "node list \<Rightarrow> bytes \<Rightarrow> bytes option" where
  "contents ns = map_of (map (\<lambda>n. (node_key n, node_value n)) (live ns))"

lemma contents_live:
  assumes "distinct (map node_key (live ns))" "n \<in> set ns" "node_status n = ENV_WRITE"
  shows "contents ns (node_key n) = Some (node_value n)"
proof -
  have "(node_key n, node_value n) \<in> set (map (\<lambda>n. (node_key n, node_value n)) (live ns))" using assms(2,3) by (auto simp: live_def)
  then show ?thesis using assms(1) by (auto simp: contents_def comp_def intro!: map_of_is_SomeI)
qed

lemma contents_none: "contents ns key = None \<longleftrightarrow> (\<forall>n \<in> set ns. node_status n = ENV_WRITE \<longrightarrow> node_key n \<noteq> key)"
  by (force simp: contents_def live_def map_of_eq_None_iff)

text \<open>Every entry of the node cache in use leads to a node that is in use and has its checksum.\<close>

definition env_cached :: "nat \<Rightarrow> node list \<Rightarrow> env_cache_node list \<Rightarrow> bool" where
  "env_cached cur ns t \<longleftrightarrow> cache_wf t \<and> (\<forall>(c, a) \<in> set (cached t). a \<noteq> FAILED_ADDR \<longrightarrow>
     (\<exists>(p, n) \<in> set (placed (cur + 20) ns). a = word_of_nat p \<and> node_status n = ENV_WRITE \<and> c = crc_of_name (node_key n)))"

definition kept :: "nat \<Rightarrow> node list \<Rightarrow> ef \<Rightarrow> bool" where
  "kept cur ns s \<longleftrightarrow> (\<exists>t1 t2 u1 u2. two_sectors cur t1 t2 u1 u2 (ef_nor s) \<and>
       (get_status t2 SECTOR_DIRTY_STATUS_NUM = SECTOR_DIRTY_FALSE \<or> get_status t2 SECTOR_DIRTY_STATUS_NUM = SECTOR_DIRTY_TRUE)) \<and>
     \<not> dead (ef_nor s) \<and> ns \<noteq> [] \<and> holds_nodes cur ns (ef_nor s) \<and>
     sectors_wf (sector_cache s) \<and> sc_addr ` set (sector_cache s) \<subseteq> {word_of_nat cur, FAILED_ADDR} \<and> sector_cached cur ns (sector_cache s) \<and>
     init_ok s \<and> \<not> in_recovery_check s"

text \<open>A sector with nodes that are no longer in use is marked as dirty.\<close>

definition marked :: "nat \<Rightarrow> node list \<Rightarrow> nor \<Rightarrow> bool" where
  "marked cur ns f \<longleftrightarrow> (\<exists>n \<in> set ns. node_status n \<noteq> ENV_WRITE) \<longrightarrow> dirty_status cur f = SECTOR_DIRTY_TRUE"

text \<open>Between two operations no node is half written or half deleted, and no name is in use twice.\<close>

definition settled_nodes :: "node list \<Rightarrow> bool" where
  "settled_nodes ns \<longleftrightarrow> (\<forall>n \<in> set ns. node_status n = ENV_WRITE \<or> node_status n = ENV_DELETED) \<and> distinct (map node_key (live ns))"

definition store_kept :: "nat \<Rightarrow> node list \<Rightarrow> ef \<Rightarrow> bool" where
  "store_kept cur ns s \<longleftrightarrow> kept cur ns s \<and> env_cached cur ns (env_cache s) \<and> \<not> last_is_complete_del s \<and> settled_nodes ns \<and>
     marked cur ns (ef_nor s)"

text \<open>A store at rest: the sector is open, no collection is due.\<close>

definition store_ok :: "nat \<Rightarrow> node list \<Rightarrow> ef \<Rightarrow> bool" where
  "store_ok cur ns s \<longleftrightarrow> store_kept cur ns s \<and> \<not> gc_request s \<and> store_status cur (ef_nor s) = SECTOR_STORE_USING"

lemma store_okD:
  assumes "store_ok cur ns s"
  shows "kept cur ns s" "env_cached cur ns (env_cache s)" "\<not> last_is_complete_del s" "settled_nodes ns" "marked cur ns (ef_nor s)"
    "\<not> gc_request s" "store_status cur (ef_nor s) = SECTOR_STORE_USING"
  using assms by (simp_all add: store_ok_def store_kept_def)

text \<open>The checksums of the names in use, and of one more, differ: the cache compares only a part of the names.\<close>

definition crc_apart :: "bytes \<Rightarrow> node list \<Rightarrow> bool" where
  "crc_apart key ns \<longleftrightarrow> (\<forall>n \<in> set (live ns). crc_of_name (node_key n) = crc_of_name key \<longrightarrow> node_key n = key)"

section \<open>Lookup\<close>

definition find_of :: "bytes \<Rightarrow> env_node_obj \<Rightarrow> bool \<Rightarrow> bool \<times> bool" where
  "find_of key env ok =
    (if length key = unat (nd_name_len env) \<and> crc_is_ok env \<and> nd_status env = ENV_WRITE \<and> take (length key) (nd_name env) = key
     then (True, True) else (False, ok))"

lemma find_env_cb_pure: "pure_visitor (\<lambda>_. True) (find_env_cb key) (find_of key)"
  by (auto simp: pure_visitor_def find_env_cb_def find_of_def)

lemma find_of_node:
  assumes "node_ok n"
  shows "find_of key (node_env env a n) ok = (if node_status n = ENV_WRITE \<and> node_key n = key then (True, True) else (False, ok))"
proof -
  obtain tab k v where n: "n = (tab, k, v)" by (cases n)
  have "unat (word_of_nat (length k) :: u8) = length k" using assms n by (intro unat_word_of_nat) simp
  moreover have "length key = length k \<and> take (length key) (k @ xs) = key \<longleftrightarrow> k = key" for xs by auto
  ultimately show ?thesis unfolding n by (simp add: find_of_def) blast
qed

lemma visit_find:
  assumes "\<forall>n \<in> set ns. node_ok n"
  shows "case find (\<lambda>(p, n). node_status n = ENV_WRITE \<and> node_key n = key) (placed a ns) of
      None \<Rightarrow> \<exists>env'. visit (find_of key) a ns env False = (False, env', False)
    | Some (p, n) \<Rightarrow> \<exists>e. visit (find_of key) a ns env False = (True, node_env e p n, True)"
  using assms
proof (induction ns arbitrary: a env)
  case (Cons m ns)
  show ?case
  proof (cases "node_status m = ENV_WRITE \<and> node_key m = key")
    case True
    then show ?thesis using Cons.prems by (auto simp: find_of_node)
  next
    case False
    then have eq: "visit (find_of key) a (m # ns) env False = visit (find_of key) (a + node_size m) ns (node_env env a m) False"
      "find (\<lambda>(p, n). node_status n = ENV_WRITE \<and> node_key n = key) (placed a (m # ns))
        = find (\<lambda>(p, n). node_status n = ENV_WRITE \<and> node_key n = key) (placed (a + node_size m) ns)"
      using Cons.prems by (auto simp: find_of_node)
    have "\<forall>n \<in> set ns. node_ok n" using Cons.prems by simp
    from Cons.IH [OF this, of "a + node_size m" "node_env env a m"] show ?thesis unfolding eq .
  qed
qed simp

lemma env_cached_get: "env_cached cur ns t \<Longrightarrow> env_cached cur ns (snd (get_env_from_cache key f t))"
  by (simp add: env_cached_def cache_wf_get get_env_from_cache_cached(2))

lemma set_first_subset: "set (set_first k v xs) \<subseteq> insert (k, v) (set xs)"
  by (induction xs) auto

lemma cached_update_subset:
  assumes "cache_wf t"
  shows "set (cached (update_env_cache key addr t)) \<subseteq> insert (crc_of_name key, addr) (set (cached t))"
proof (cases "addr = FAILED_ADDR")
  case True
  then show ?thesis by (simp add: update_env_cache_failed set_first_subset)
next
  case False
  have "length t = 16" using assms by (simp add: cache_wf_def)
  then show ?thesis using False
    by (cases rule: update_env_cache_cached [of t addr key])
      (simp_all add: set_first_subset set_update_subset_insert)
qed

lemma env_cached_put:
  assumes "env_cached cur ns t" "(p, n) \<in> set (placed (cur + 20) ns)" "node_status n = ENV_WRITE"
  shows "env_cached cur ns (update_env_cache (node_key n) (word_of_nat p) t)"
proof -
  have wf: "cache_wf t" using assms(1) by (simp add: env_cached_def)
  have "\<exists>(p, n) \<in> set (placed (cur + 20) ns). a = word_of_nat p \<and> node_status n = ENV_WRITE \<and> c = crc_of_name (node_key n)"
    if "(c, a) \<in> set (cached (update_env_cache (node_key n) (word_of_nat p) t))" "a \<noteq> FAILED_ADDR" for c a
  proof (cases "(c, a) = (crc_of_name (node_key n), word_of_nat p)")
    case True
    then show ?thesis using assms(2,3) by blast
  next
    case False
    then have "(c, a) \<in> set (cached t)" using that(1) cached_update_subset [OF wf] by blast
    then show ?thesis using assms(1) that(2) unfolding env_cached_def by blast
  qed
  then show ?thesis using wf cache_wf_update unfolding env_cached_def by blast
qed

text \<open>What \<open>find_env\<close> returns: the object of the node in use with the name, or nothing.\<close>

definition finds :: "nat \<Rightarrow> node list \<Rightarrow> bytes \<Rightarrow> bool \<Rightarrow> env_node_obj \<Rightarrow> bool" where
  "finds cur ns key found env \<longleftrightarrow>
    (if found then \<exists>e p n. env = node_env e p n \<and> (p, n) \<in> set (placed (cur + 20) ns) \<and> node_status n = ENV_WRITE \<and> node_key n = key
     else contents ns key = None)"

lemma finds_node:
  "(p, n) \<in> set (placed (cur + 20) ns) \<Longrightarrow> node_status n = ENV_WRITE \<Longrightarrow> node_key n = key \<Longrightarrow> finds cur ns key True (node_env e p n)"
  unfolding finds_def by (simp only: if_True) blast

lemma finds_found:
  assumes "finds cur ns key found env" "found"
  obtains e p n where "env = node_env e p n" "(p, n) \<in> set (placed (cur + 20) ns)" "node_status n = ENV_WRITE" "node_key n = key"
  using assms unfolding finds_def by (simp only: if_True) blast

lemma cache_hit_node:
  assumes cache: "env_cached cur ns t" and crc: "crc_apart key ns" and hit: "fst (get_env_from_cache key f t) = Some addr"
  obtains p n where "(p, n) \<in> set (placed (cur + 20) ns)" "addr = word_of_nat p" "node_status n = ENV_WRITE" "node_key n = key"
proof -
  obtain c where "(c, addr) \<in> set (cached t)" "addr \<noteq> FAILED_ADDR" "c = crc_of_name key"
    using hit by (auto simp: get_env_from_cache_cached(1) find_Some_iff cache_hit_def dest!: nth_mem)
  with cache obtain p n where n: "(p, n) \<in> set (placed (cur + 20) ns)" "addr = word_of_nat p" "node_status n = ENV_WRITE"
    "crc_of_name key = crc_of_name (node_key n)" by (fastforce simp: env_cached_def)
  have "n \<in> set (live ns)" using placed_node [OF n(1)] n(3) by (simp add: live_def)
  then have "node_key n = key" using crc n(4) unfolding crc_apart_def by metis
  with n that show thesis by blast
qed

lemma find_env_no_cache_result:
  assumes two: "two_sectors cur t1 t2 u1 u2 (ef_nor s)"
    and ns: "ns \<noteq> []" "holds_nodes cur ns (ef_nor s)" "sector_cached cur ns (sector_cache s)"
  shows "\<exists>found env'. find_env_no_cache key env s = Some (found, env', s) \<and> finds cur ns key found env'"
proof -
  let ?env = "env\<lparr>addr_start := FAILED_ADDR\<rparr>"
  have iter: "env_iterator (find_env_cb key) env False s
      = (case visit (find_of key) (cur + 20) ns ?env False of (stop, env, a) \<Rightarrow> Some (env, a, s))"
    using two ns by (intro walk_all_nodes [OF find_env_cb_pure]) simp_all
  have ok: "\<forall>n \<in> set ns. node_ok n"
    using placed_bounds(3) [OF ns(2)] placed_place by blast
  show ?thesis
  proof (cases "find (\<lambda>(p, n). node_status n = ENV_WRITE \<and> node_key n = key) (placed (cur + 20) ns)")
    case None
    then have "contents ns key = None" unfolding contents_none find_None_iff using placed_place by blast
    moreover obtain env' where "visit (find_of key) (cur + 20) ns ?env False = (False, env', False)"
      using visit_find [OF ok, of key "cur + 20" ?env] None by auto
    ultimately show ?thesis using iter
      by (intro exI [of _ False] exI [of _ env']) (simp add: find_env_no_cache_def finds_def)
  next
    case (Some q)
    obtain p n where q: "q = (p, n)" by (cases q)
    have n: "(p, n) \<in> set (placed (cur + 20) ns)" "node_status n = ENV_WRITE" "node_key n = key"
      using Some q by (auto simp: find_Some_iff dest: nth_mem)
    obtain e where "visit (find_of key) (cur + 20) ns ?env False = (True, node_env e p n, True)"
      using visit_find [OF ok, of key "cur + 20" ?env] Some q by auto
    then have "find_env_no_cache key env s = Some (True, node_env e p n, s)" using iter by (simp add: find_env_no_cache_def)
    then show ?thesis using finds_node [OF n] by blast
  qed
qed

lemma find_env_result:
  assumes kept: "kept cur ns s" and cache: "env_cached cur ns (env_cache s)" and crc: "crc_apart key ns"
  shows "\<exists>found env' t. find_env key env s = Some (found, env', s\<lparr>env_cache := t\<rparr>) \<and> env_cached cur ns t \<and> finds cur ns key found env'"
proof -
  obtain t1 t2 u1 u2 where two: "two_sectors cur t1 t2 u1 u2 (ef_nor s)" using kept by (auto simp: kept_def)
  have ns: "ns \<noteq> []" "holds_nodes cur ns (ef_nor s)" "sector_cached cur ns (sector_cache s)" using kept by (simp_all add: kept_def)
  have base: "cur + SECTOR_SIZE \<le> 262144" using two sector_base_words(4) by (simp add: two_sectors_def)
  obtain r t where g: "get_env_from_cache key (ef_nor s) (env_cache s) = (r, t)" by fastforce
  have t: "env_cached cur ns t" using env_cached_get [OF cache, of key "ef_nor s"] g by simp
  show ?thesis
  proof (cases r)
    case (Some addr)
    then have "fst (get_env_from_cache key (ef_nor s) (env_cache s)) = Some addr" using g by simp
    then obtain p n where n: "(p, n) \<in> set (placed (cur + 20) ns)" "addr = word_of_nat p" "node_status n = ENV_WRITE" "node_key n = key"
      by (rule cache_hit_node [OF cache crc])
    note b = placed_bounds [OF ns(2) n(1)]
    have "p < 2 ^ 32" using b(2) ns(2) base by (simp add: holds_nodes_def)
    then have "load_env (env\<lparr>addr_start := addr\<rparr>) (s\<lparr>env_cache := t\<rparr>) = Some (node_env env p n, s\<lparr>env_cache := t\<rparr>)"
      using b(3,4) unfolding n(2) by (intro load_env_stored) simp_all
    then have "find_env key env s = Some (True, node_env env p n, s\<lparr>env_cache := t\<rparr>)"
      using g Some by (simp add: find_env_def)
    then show ?thesis using t finds_node [OF n(1,3,4)] by blast
  next
    case None
    have "\<exists>found env'. find_env_no_cache key env (s\<lparr>env_cache := t\<rparr>) = Some (found, env', s\<lparr>env_cache := t\<rparr>) \<and> finds cur ns key found env'"
      using two ns by (intro find_env_no_cache_result [of cur t1 t2 u1 u2]) simp_all
    then obtain found env' where f: "find_env_no_cache key env (s\<lparr>env_cache := t\<rparr>) = Some (found, env', s\<lparr>env_cache := t\<rparr>)"
      "finds cur ns key found env'" by blast
    let ?t = "if found then update_env_cache key (addr_start env') t else t"
    have "find_env key env s = Some (found, env', s\<lparr>env_cache := ?t\<rparr>)"
      using g None f(1) by (simp add: find_env_def cache_env_def)
    moreover have "env_cached cur ns ?t"
    proof (cases found)
      case True
      then obtain e p n where n: "env' = node_env e p n" "(p, n) \<in> set (placed (cur + 20) ns)" "node_status n = ENV_WRITE" "node_key n = key"
        using f(2) by (elim finds_found) simp_all
      show ?thesis using env_cached_put [OF t n(2,3)] n(1,4) True by (simp del: node_env.simps)
    qed (simp add: t)
    ultimately show ?thesis using f(2) by blast
  qed
qed

end
