(* ===== verification/Ef_Ops.thy ===== *)
theory Ef_Ops
  imports Ef_Store
begin

unbundle bit_operations_syntax

text \<open>
  The operations of the flash store against the map of its contents: reading, deleting and setting a value while the
  sector in use has room.
\<close>

section \<open>Reading\<close>

lemma stored_value:
  assumes "stored p n f" "node_ok n" "k \<le> length (node_value n)"
  shows "ef_port_read (p + 28 + length (node_key n)) k f = take k (node_value n)"
proof -
  obtain tab key v where n: "n = (tab, key, v)" by (cases n)
  have "ef_port_read (p + (28 + length key)) k f = take k (drop (28 + length key) (ef_port_read p (28 + length key + length v) f))"
    using assms(3) n by (intro read_part) simp
  then show ?thesis using assms(1,2) n by (simp add: node_image_value add.assoc)
qed

lemma kept_cong:
  assumes "kept cur ns s" "ef_nor s' = ef_nor s" "sector_cache s' = sector_cache s" "init_ok s' = init_ok s"
    "in_recovery_check s' = in_recovery_check s"
  shows "kept cur ns s'"
  using assms by (simp add: kept_def)

lemma kept_base:
  assumes "kept cur ns s"
  shows "sector_base cur" "cur + SECTOR_SIZE \<le> 262144" "holds_nodes cur ns (ef_nor s)" "\<not> dead (ef_nor s)" "free_at cur ns < cur + SECTOR_SIZE"
  using assms sector_base_words(4) by (auto simp: kept_def two_sectors_def holds_nodes_def)

lemma get_blob_result:
  assumes ok: "store_ok cur ns s" and crc: "crc_apart key ns"
  shows "\<exists>len t. ef_get_blob key k s = Some (case contents ns key of None \<Rightarrow> [] | Some v \<Rightarrow> take k v, len, s\<lparr>env_cache := t\<rparr>) \<and>
    store_ok cur ns (s\<lparr>env_cache := t\<rparr>)"
proof -
  note kept = store_okD(1) [OF ok] and cache = store_okD(2) [OF ok]
  obtain found env t where f: "find_env key no_env s = Some (found, env, s\<lparr>env_cache := t\<rparr>)" "env_cached cur ns t" "finds cur ns key found env"
    using find_env_result [OF kept cache crc] by blast
  have init: "init_ok s" using kept by (simp add: kept_def)
  have ok': "store_ok cur ns (s\<lparr>env_cache := t\<rparr>)"
    using ok f(2) kept_cong [OF kept, of "s\<lparr>env_cache := t\<rparr>"] by (simp add: store_ok_def store_kept_def)
  show ?thesis
  proof (cases found)
    case True
    then obtain e p n where n: "env = node_env e p n" "(p, n) \<in> set (placed (cur + 20) ns)" "node_status n = ENV_WRITE" "node_key n = key"
      using f(3) by (elim finds_found) simp_all
    note b = placed_bounds [OF kept_base(3) [OF kept] n(2)]
    have size: "node_size n = 28 + length (node_key n) + length (node_value n)" by (cases n) simp
    have lens: "unat (word_of_nat (length (node_value n)) :: u32) = length (node_value n)"
      "unat (word_of_nat (p + 28 + length (node_key n)) :: u32) = p + 28 + length (node_key n)"
      using b(2) size kept_base(2,5) [OF kept] by (intro unat_u32; simp)+
    have v: "contents ns key = Some (node_value n)"
      using contents_live [OF _ placed_node [OF n(2)] n(3)] store_okD(4) [OF ok] n(4) by (simp add: settled_nodes_def)
    have "ef_port_read (p + 28 + length (node_key n)) (if k > length (node_value n) then length (node_value n) else k) (ef_nor s)
        = take k (node_value n)"
      using stored_value [OF b(4,3), of "if k > length (node_value n) then length (node_value n) else k"] by auto
    then have "ef_get_blob key k s = Some (take k (node_value n), Some (word_of_nat (length (node_value n))), s\<lparr>env_cache := t\<rparr>)"
      using f(1) True init lens unfolding n(1) by (simp add: ef_get_blob_def get_env_def Let_def del: node_env.simps of_nat_add split: if_splits)
    then show ?thesis using ok' v by auto
  next
    case False
    then show ?thesis using f init ok' by (auto simp: ef_get_blob_def get_env_def finds_def)
  qed
qed

section \<open>Deleting\<close>

lemma align_sector_word:
  assumes "sector_base cur" "cur \<le> p" "p < cur + SECTOR_SIZE"
  shows "align_sector (word_of_nat p) = word_of_nat cur"
proof -
  have p: "p < 2 ^ 32" "unat (word_of_nat p :: u32) = p" using assms by (auto simp: sector_base_def intro!: unat_u32)
  have "align_sector (word_of_nat p) = push_bit 17 (drop_bit 17 (word_of_nat p :: u32))"
  proof -
    have mask: "SEC_SIZE - 1 = (mask 17 :: u32)" by (simp add: mask_eq_exp_minus_1)
    have "a AND NOT (mask 17) = push_bit 17 (drop_bit 17 a)" for a :: u32
      by (rule bit_word_eqI) (auto simp: bit_simps not_less)
    then show ?thesis by (simp only: align_sector_def mask)
  qed
  also have "drop_bit 17 (word_of_nat p :: u32) = word_of_nat (p div 2 ^ 17)"
    unfolding drop_bit_eq_div word_arith_nat_div p(2) by simp
  also have "p div 2 ^ 17 = cur div 2 ^ 17" using assms div_nat_eqI [of 131072 0 p] div_nat_eqI [of 131072 1 p] by (auto simp: sector_base_def)
  also have "push_bit 17 (word_of_nat (cur div 2 ^ 17) :: u32) = word_of_nat cur" using assms(1) by (auto simp: sector_base_def push_bit_eq_mult)
  finally show ?thesis .
qed


lemma two_sectors_cong:
  assumes "two_sectors cur t1 t2 u1 u2 f" "\<And>p. p < cur + 20 \<or> cur + SECTOR_SIZE \<le> p \<Longrightarrow> cells f' p = cells f p"
  shows "two_sectors cur t1 t2 u1 u2 f'"
proof -
  have "hdr_is cur t1 t2 f' = hdr_is cur t1 t2 f" using assms(2) by (intro hdr_is_cong) auto
  moreover have "hdr_is (other_sector cur) u1 u2 f' = hdr_is (other_sector cur) u1 u2 f"
    using assms by (intro hdr_is_cong) (auto simp: two_sectors_def sector_base_def other_sector_def)
  moreover have "blank (other_sector cur + 20) (SECTOR_SIZE - 20) f' = blank (other_sector cur + 20) (SECTOR_SIZE - 20) f"
    using assms by (intro blank_cong) (auto simp: two_sectors_def sector_base_def other_sector_def)
  ultimately show ?thesis using assms(1) by (simp add: two_sectors_def)
qed

text \<open>The nodes change, the headers do not.\<close>

lemma kept_nodes:
  assumes kept: "kept cur ns s" and ns: "ns' \<noteq> []" "holds_nodes cur ns' f'" "free_at cur ns' = free_at cur ns"
    and alive: "\<not> dead f'" and frame: "\<And>p. p < cur + 20 \<or> cur + SECTOR_SIZE \<le> p \<Longrightarrow> cells f' p = cells (ef_nor s) p"
  shows "kept cur ns' (s\<lparr>ef_nor := f'\<rparr>)"
proof -
  obtain t1 t2 u1 u2 where "two_sectors cur t1 t2 u1 u2 (ef_nor s)" "get_status t2 4 = 1 \<or> get_status t2 4 = 2"
    using kept by (auto simp: kept_def)
  moreover have "two_sectors cur t1 t2 u1 u2 f'" using \<open>two_sectors cur t1 t2 u1 u2 (ef_nor s)\<close> frame by (rule two_sectors_cong)
  ultimately show ?thesis using kept ns alive by (auto simp: kept_def sector_cached_def)
qed

lemma kept_node_status:
  assumes kept: "kept cur (xs @ n # ys) s" and j: "0 < j" "j < 6" and p: "p = layout_end (cur + 20) xs"
  shows "\<exists>f'. put_status (word_of_nat p) ENV_STATUS_NUM j s = (EF_NO_ERR, s\<lparr>ef_nor := f'\<rparr>) \<and> kept cur (xs @ touch j n # ys) (s\<lparr>ef_nor := f'\<rparr>) \<and>
    store_status cur f' = store_status cur (ef_nor s)"
proof -
  let ?f = "snd (nor_write (p + (j - 1)) [0] (ef_nor s))"
  have mem: "(p, n) \<in> set (placed (cur + 20) (xs @ n # ys))" unfolding p by simp
  note b = placed_bounds [OF kept_base(3) [OF kept] mem] and k = kept_base [OF kept]
  have size: "29 \<le> node_size n" using b(3) by (rule node_size_ge)
  have "unat (word_of_nat p :: u32) = p" using b(2) k(2,5) by (intro unat_u32) simp
  moreover have "p + 6 \<le> ef_len" using b(2) size k(2,5) by simp
  ultimately have "put_status (word_of_nat p) ENV_STATUS_NUM j s = (EF_NO_ERR, s\<lparr>ef_nor := ?f\<rparr>)"
    using put_status_eq [OF k(4) j, of "word_of_nat p"] by simp
  moreover have "kept cur (xs @ touch j n # ys) (s\<lparr>ef_nor := ?f\<rparr>)"
  proof (rule kept_nodes [OF kept])
    show "holds_nodes cur (xs @ touch j n # ys) ?f" unfolding p by (rule holds_touch [OF k(3,4) j])
    show "cells ?f q = cells (ef_nor s) q" if "q < cur + 20 \<or> cur + SECTOR_SIZE \<le> q" for q
      using that b(1,2) size k(5) j by (intro cells_write) auto
  qed (use k(4) in \<open>simp_all add: free_at_def\<close>)
  moreover have "store_status cur ?f = store_status cur (ef_nor s)" using b(1) by (intro status_cong cells_write) simp
  ultimately show ?thesis by blast
qed

lemma kept_dirty:
  assumes kept: "kept cur ns s"
  shows "\<exists>f'. (if read_status (unat (word_of_nat cur + 3 :: u32)) SECTOR_DIRTY_STATUS_NUM (ef_nor s) = SECTOR_DIRTY_FALSE
      then put_status (word_of_nat cur + 3) SECTOR_DIRTY_STATUS_NUM SECTOR_DIRTY_TRUE s else (EF_NO_ERR, s)) = (EF_NO_ERR, s\<lparr>ef_nor := f'\<rparr>) \<and>
    kept cur ns (s\<lparr>ef_nor := f'\<rparr>) \<and> store_status cur f' = store_status cur (ef_nor s) \<and> dirty_status cur f' = SECTOR_DIRTY_TRUE"
proof -
  obtain t1 t2 u1 u2 where two: "two_sectors cur t1 t2 u1 u2 (ef_nor s)" "get_status t2 4 = 1 \<or> get_status t2 4 = 2"
    using kept by (auto simp: kept_def)
  note k = kept_base [OF kept]
  have w: "unat (word_of_nat cur + 3 :: u32) = cur + 3"
    using unat_u32 [of "cur + 3"] k(2) by simp
  have hdr: "hdr_is cur t1 t2 (ef_nor s)" using two(1) by (simp add: two_sectors_def)
  have rd: "read_status (cur + 3) 4 (ef_nor s) = get_status t2 4"
    using hdr read_part [of 3 3 20 cur "ef_nor s"] by (simp add: hdr_is_def read_status_def)
  show ?thesis
  proof (cases "get_status t2 4 = 1")
    case True
    let ?f = "snd (nor_write (cur + 3 + 1) [0] (ef_nor s))"
    have "put_status (word_of_nat cur + 3) 4 2 s = (EF_NO_ERR, s\<lparr>ef_nor := ?f\<rparr>)"
      using put_status_eq [OF k(4), of 2 4 "word_of_nat cur + 3"] w k(2) by simp
    moreover have hdr': "hdr_is cur t1 (t2[1 := 0]) ?f" using hdr_is_touch(2) [OF hdr k(4), of 1] by simp
    moreover have st: "get_status (t2[1 := 0]) 4 = 2" using get_status_update [of 2 4 t2] hdr True by (simp add: hdr_is_def)
    moreover have "kept cur ns (s\<lparr>ef_nor := ?f\<rparr>)"
    proof -
      note hdr'
      moreover have "hdr_is (other_sector cur) u1 u2 ?f"
        using two(1) by (intro hdr_is_apart) (auto simp: two_sectors_def other_sector_def sector_base_def)
      moreover have "blank (other_sector cur + 20) (SECTOR_SIZE - 20) ?f"
        using two(1) by (subst blank_cong [where f = "ef_nor s"]) (auto simp: two_sectors_def other_sector_def sector_base_def intro!: cells_write)
      moreover note st
      moreover have "holds_nodes cur ns ?f" using k(3) by (subst holds_nodes_cong [where f = "ef_nor s"]) (auto intro!: cells_write)
      ultimately show ?thesis using kept two(1) k(4) by (auto simp: kept_def two_sectors_def)
    qed
    ultimately show ?thesis using True rd w hdr_is_status [OF hdr] hdr_is_status [OF hdr'] by auto
  next
    case False
    then show ?thesis using kept rd w two(2) hdr_is_status [OF hdr] by (intro exI [of _ "ef_nor s"]) simp
  qed
qed

text \<open>Deleting a node: its status, the cache unless a new node was made in between, the sector's dirty flag.\<close>

lemma del_found_result:
  assumes kept: "kept cur (xs @ n # ys) s" and env: "addr_start env = word_of_nat p" "p = layout_end (cur + 20) xs"
  shows "\<exists>f'. del_found (Some key) env complete s
      = (EF_NO_ERR, s\<lparr>ef_nor := f',
           env_cache := (if complete \<and> \<not> last_is_complete_del s then update_env_cache key FAILED_ADDR (env_cache s) else env_cache s),
           last_is_complete_del := \<not> complete\<rparr>) \<and>
    kept cur (xs @ touch (if complete then ENV_DELETED else ENV_PRE_DELETE) n # ys) (s\<lparr>ef_nor := f'\<rparr>) \<and>
    store_status cur f' = store_status cur (ef_nor s) \<and> dirty_status cur f' = SECTOR_DIRTY_TRUE"
proof -
  let ?j = "if complete then ENV_DELETED else ENV_PRE_DELETE"
  have "0 < ?j" "?j < 6" by simp_all
  from kept_node_status [OF kept this env(2)] obtain f1 where
    f1: "put_status (word_of_nat p) ENV_STATUS_NUM ?j s = (EF_NO_ERR, s\<lparr>ef_nor := f1\<rparr>)"
    "kept cur (xs @ touch ?j n # ys) (s\<lparr>ef_nor := f1\<rparr>)" "store_status cur f1 = store_status cur (ef_nor s)" by blast
  have mem: "(p, n) \<in> set (placed (cur + 20) (xs @ n # ys))" unfolding env(2) by simp
  note b = placed_bounds [OF kept_base(3) [OF kept] mem] and k = kept_base [OF kept]
  have align: "align_sector (word_of_nat p) = word_of_nat cur"
    using b(1,2) node_size_ge [OF b(3)] k(5) by (intro align_sector_word [OF k(1)]) simp_all
  define s1 where "s1 = s\<lparr>ef_nor := f1,
      env_cache := (if complete \<and> \<not> last_is_complete_del s then update_env_cache key FAILED_ADDR (env_cache s) else env_cache s),
      last_is_complete_del := \<not> complete\<rparr>"
  have del: "del_found (Some key) env complete s =
      (if read_status (unat (word_of_nat cur + 3 :: u32)) SECTOR_DIRTY_STATUS_NUM (ef_nor s1) = SECTOR_DIRTY_FALSE
       then put_status (word_of_nat cur + 3) SECTOR_DIRTY_STATUS_NUM SECTOR_DIRTY_TRUE s1 else (EF_NO_ERR, s1))"
    using f1(1) align env(1) unfolding s1_def
    by (cases complete; cases "last_is_complete_del s") (simp_all add: del_found_def cache_env_def Let_def)
  have "kept cur (xs @ touch ?j n # ys) s1" by (rule kept_cong [OF f1(2)]) (simp_all add: s1_def cache_env_def)
  from kept_dirty [OF this] obtain f2 where f2: "del_found (Some key) env complete s = (EF_NO_ERR, s1\<lparr>ef_nor := f2\<rparr>)"
    "kept cur (xs @ touch ?j n # ys) (s1\<lparr>ef_nor := f2\<rparr>)" "store_status cur f2 = store_status cur (ef_nor s1)" "dirty_status cur f2 = SECTOR_DIRTY_TRUE"
    unfolding del by blast
  have "kept cur (xs @ touch ?j n # ys) (s\<lparr>ef_nor := f2\<rparr>)" by (rule kept_cong [OF f2(2)]) (simp_all add: s1_def cache_env_def)
  then show ?thesis using f1(3) f2(1,3,4) by (intro exI [of _ f2]) (simp add: s1_def)
qed

end
