(* ===== verification/Ef_Set.thy ===== *)
theory Ef_Set
  imports Ef_Ops
begin

unbundle bit_operations_syntax

text \<open>
  Setting a value: the new node is written behind the others, between the two steps in which the old one is deleted.
\<close>

section \<open>The caches\<close>

lemma sector_cache_room:
  assumes "sectors_wf t" "sc_addr ` set t \<subseteq> {a, b, FAILED_ADDR}"
  shows "FAILED_ADDR \<in> sc_addr ` set t"
proof (rule ccontr)
  assume none: "FAILED_ADDR \<notin> sc_addr ` set t"
  have len: "length t = 4" using assms(1) by (simp add: sectors_wf_def)
  have "inj_on (\<lambda>i. sc_addr (t ! i)) {..<4}"
  proof (rule inj_onI)
    fix i j :: nat
    assume ij: "i \<in> {..<4}" "j \<in> {..<4}" "sc_addr (t ! i) = sc_addr (t ! j)"
    have "sc_addr (t ! j) \<noteq> FAILED_ADDR" using none ij(2) len by (metis image_eqI lessThan_iff nth_mem)
    then show "i = j" using sectors_wfD [OF assms(1), of i j] ij by simp
  qed
  moreover have "(\<lambda>i. sc_addr (t ! i)) ` {..<4} \<subseteq> {a, b}"
    using assms(2) none len by (auto simp: image_subset_iff)
  ultimately have "card {..<4 :: nat} \<le> card {a, b}" by (intro card_inj_on_le) auto
  moreover have "card {a, b} \<le> 2" by (simp add: card_insert_if)
  ultimately show False by simp
qed

text \<open>An update of one of at most two sectors.\<close>

lemma sector_cache_upd:
  assumes t: "sectors_wf t" "sc_addr ` set t \<subseteq> {a, b, FAILED_ADDR}" and cur: "sector_base cur"
  shows "sectors_wf (update_sector_cache (word_of_nat cur) em t)"
    "sc_addr ` set (update_sector_cache (word_of_nat cur) em t) \<subseteq> insert (word_of_nat cur) (sc_addr ` set t)"
    "get_sector_from_cache (word_of_nat cur) (update_sector_cache (word_of_nat cur) em t) = (if in_sector (word_of_nat cur) em then Some em else None)"
    "x \<noteq> FAILED_ADDR \<Longrightarrow> x \<noteq> word_of_nat cur \<Longrightarrow>
      get_sector_from_cache x (update_sector_cache (word_of_nat cur) em t) = get_sector_from_cache x t"
proof -
  have ne: "(word_of_nat cur :: u32) \<noteq> FAILED_ADDR" using cur by (intro u32_not_failed) (auto simp: sector_base_def)
  have len: "length t = 4" using t(1) by (simp add: sectors_wf_def)
  have failed: "FAILED_ADDR \<in> sc_addr ` set t" using t by (rule sector_cache_room)
  then have room: "FAILED_ADDR \<in> sc_addr ` set t \<or> word_of_nat cur \<in> sc_addr ` set t" by simp
  show "sectors_wf (update_sector_cache (word_of_nat cur) em t)"
    "get_sector_from_cache (word_of_nat cur) (update_sector_cache (word_of_nat cur) em t) = (if in_sector (word_of_nat cur) em then Some em else None)"
    using update_sector_cache_map [OF t(1) ne ne room, of em] by simp_all
  show "get_sector_from_cache x (update_sector_cache (word_of_nat cur) em t) = get_sector_from_cache x t"
    if "x \<noteq> FAILED_ADDR" "x \<noteq> word_of_nat cur" using update_sector_cache_map [OF t(1) ne that(1) room, of em] that(2) by simp
  show "sc_addr ` set (update_sector_cache (word_of_nat cur) em t) \<subseteq> insert (word_of_nat cur) (sc_addr ` set t)"
    using len ne room
  proof (cases rule: update_sector_cache_changed [of t "word_of_nat cur" em])
    case (1 k)
    have "sc_addr (sector_entry (word_of_nat cur) em (t ! k)) \<in> insert (word_of_nat cur) (sc_addr ` set t)"
      using failed by (simp add: sector_entry_def)
    moreover have "set (t[k := x]) \<subseteq> insert x (set t)" for x by (rule set_update_subset_insert)
    ultimately show ?thesis unfolding 1(3) by fastforce
  qed auto
qed

lemma in_sector_words:
  assumes "sector_base cur" "cur < e" "e < cur + SECTOR_SIZE"
  shows "in_sector (word_of_nat cur) (word_of_nat e)" "\<not> in_sector (word_of_nat cur) (word_of_nat (cur + SECTOR_SIZE))"
proof -
  have "e < 2 ^ 32" "cur < 2 ^ 32" "cur + SECTOR_SIZE < 2 ^ 32" using assms sector_base_words(4) [OF assms(1)] by simp_all
  then show "in_sector (word_of_nat cur) (word_of_nat e)" "\<not> in_sector (word_of_nat cur) (word_of_nat (cur + SECTOR_SIZE))"
    unfolding in_sector_def sector_base_words(1) [OF assms(1)] using assms(2,3) by (simp_all only: u32_of_nat_less less_irrefl simp_thms)
qed

lemma sector_cache_kept:
  assumes t: "sectors_wf t" "sc_addr ` set t \<subseteq> {word_of_nat cur, FAILED_ADDR}" and cur: "sector_base cur"
    and e: "cur < e" "e < cur + SECTOR_SIZE"
  shows "sectors_wf (update_sector_cache (word_of_nat cur) (word_of_nat e) t)"
    "sc_addr ` set (update_sector_cache (word_of_nat cur) (word_of_nat e) t) \<subseteq> {word_of_nat cur, FAILED_ADDR}"
    "get_sector_from_cache (word_of_nat cur) (update_sector_cache (word_of_nat cur) (word_of_nat e) t) = Some (word_of_nat e)"
  using sector_cache_upd [OF t(1) _ cur, of "word_of_nat cur" "word_of_nat cur" "word_of_nat e"] t(2) in_sector_words(1) [OF cur e] by auto

lemma sector_cache_dropped:
  assumes t: "sectors_wf t" "sc_addr ` set t \<subseteq> {word_of_nat cur, FAILED_ADDR}" and cur: "sector_base cur"
  shows "sectors_wf (update_sector_cache (word_of_nat cur) (word_of_nat (cur + SECTOR_SIZE)) t)"
    "sc_addr ` set (update_sector_cache (word_of_nat cur) (word_of_nat (cur + SECTOR_SIZE)) t) \<subseteq> {word_of_nat cur, FAILED_ADDR}"
    "get_sector_from_cache (word_of_nat cur) (update_sector_cache (word_of_nat cur) (word_of_nat (cur + SECTOR_SIZE)) t) = None"
  using sector_cache_upd [OF t(1) _ cur, of "word_of_nat cur" "word_of_nat cur" "word_of_nat (cur + SECTOR_SIZE)"] t(2)
    in_sector_words(2) [OF cur, of "cur + 1"] by auto

lemma kept_cache_sector:
  assumes "kept cur ns s"
  shows "kept cur ns (cache_sector (word_of_nat cur) (word_of_nat (free_at cur ns)) s)"
proof -
  have "cur < free_at cur ns" by (simp add: free_at_sum)
  then show ?thesis
    using assms kept_base(1,5) [OF assms] sector_cache_kept [of "sector_cache s" cur "free_at cur ns"]
    by (auto simp: kept_def cache_sector_def sector_cached_def)
qed

text \<open>The cache against the nodes of any number of sectors; the entries of all names but one are right.\<close>

definition leads :: "(nat \<times> node) list \<Rightarrow> u16 \<Rightarrow> u32 \<Rightarrow> bool" where
  "leads L c a \<longleftrightarrow> (\<exists>p n. (p, n) \<in> set L \<and> a = word_of_nat p \<and> node_status n = ENV_WRITE \<and> c = crc_of_name (node_key n))"

definition cached_in :: "(nat \<times> node) list \<Rightarrow> env_cache_node list \<Rightarrow> bool" where
  "cached_in L t \<longleftrightarrow> cache_wf t \<and> (\<forall>c a. (c, a) \<in> set (cached t) \<longrightarrow> a \<noteq> FAILED_ADDR \<longrightarrow> leads L c a)"

definition cached_but :: "u16 \<Rightarrow> (nat \<times> node) list \<Rightarrow> env_cache_node list \<Rightarrow> bool" where
  "cached_but k L t \<longleftrightarrow> cache_wf t \<and> (\<forall>c a. (c, a) \<in> set (cached t) \<longrightarrow> a \<noteq> FAILED_ADDR \<longrightarrow> c \<noteq> k \<longrightarrow> leads L c a)"

lemma env_cached_in: "env_cached cur ns t \<longleftrightarrow> cached_in (placed (cur + 20) ns) t"
  unfolding env_cached_def cached_in_def leads_def by blast

lemma cached_weaken: "cached_in L t \<Longrightarrow> cached_but k L t"
  unfolding cached_in_def cached_but_def by blast

lemma leads_set: "set L \<subseteq> set M \<Longrightarrow> leads L c a \<Longrightarrow> leads M c a"
  unfolding leads_def by blast

lemma cached_mono: "set L \<subseteq> set M \<Longrightarrow> cached_in L t \<Longrightarrow> cached_in M t" "set L \<subseteq> set M \<Longrightarrow> cached_but k L t \<Longrightarrow> cached_but k M t"
  unfolding cached_in_def cached_but_def using leads_set by blast+

lemma leads_touch:
  "leads (placed b (xs @ n # ys) @ M) c a \<Longrightarrow> c \<noteq> crc_of_name (node_key n) \<Longrightarrow> leads (placed b (xs @ touch j n # ys) @ M) c a"
  unfolding leads_def by auto

lemma cached_but_touch:
  "cached_but (crc_of_name (node_key n)) (placed b (xs @ n # ys) @ M) t \<Longrightarrow>
    cached_but (crc_of_name (node_key n)) (placed b (xs @ touch j n # ys) @ M) t"
  unfolding cached_but_def using leads_touch by blast

lemmas env_cached_but_touch = cached_but_touch [where M = "[]", unfolded append_Nil2]

lemma once_first:
  "once xs \<Longrightarrow> k \<in> fst ` set xs \<Longrightarrow> (k, a) \<in> set (set_first k v xs) \<Longrightarrow> a \<noteq> FAILED_ADDR \<Longrightarrow> a = v"
  by (induction xs) (auto split: if_splits)

text \<open>After an update the name's entry is the new one, or none.\<close>

lemma cached_update_key:
  assumes "cache_wf t" "(crc_of_name key, a) \<in> set (cached (update_env_cache key addr t))" "a \<noteq> FAILED_ADDR"
  shows "a = addr"
proof (cases "addr = FAILED_ADDR")
  case True
  have "\<not> (k, a) \<in> set (set_first k FAILED_ADDR xs)" if "once xs" for k xs
    using that assms(3) by (induction xs) (auto split: if_splits)
  then show ?thesis using assms True by (simp add: update_env_cache_failed cache_wf_def)
next
  case False
  have len: "length t = 16" and once: "once (cached t)" using assms(1) by (simp_all add: cache_wf_def)
  from len False show ?thesis
  proof (cases rule: update_env_cache_cached [of t addr key])
    case 1
    then show ?thesis using once_first [OF once 1(1)] assms(2,3) by simp
  next
    case (2 i)
    then have "(crc_of_name key, a) \<in> insert (crc_of_name key, addr) (set (cached t))"
      using assms(2) set_update_subset_insert [of "cached t" i] by auto
    then show ?thesis using 2(2) by force
  qed
qed

lemma cached_update:
  assumes "cached_but (crc_of_name key) L t" "addr \<noteq> FAILED_ADDR \<Longrightarrow> leads L (crc_of_name key) addr"
  shows "cached_in L (update_env_cache key addr t)"
  unfolding cached_in_def
proof (intro conjI allI impI)
  have wf: "cache_wf t" using assms(1) by (simp add: cached_but_def)
  then show "cache_wf (update_env_cache key addr t)" by (rule cache_wf_update)
  fix c a
  assume ca: "(c, a) \<in> set (cached (update_env_cache key addr t))" "a \<noteq> FAILED_ADDR"
  show "leads L c a"
  proof (cases "c = crc_of_name key")
    case True
    then show ?thesis using cached_update_key [OF wf] ca assms(2) by blast
  next
    case False
    then have "(c, a) \<in> set (cached t)" using cached_update_subset [OF wf] ca(1) by blast
    then show ?thesis using assms(1) ca(2) False unfolding cached_but_def by blast
  qed
qed


section \<open>A new node\<close>

lemma update_sec_status_room:
  assumes "sector = using_meta cur t1 t2 ns m" "get_status t1 4 = SECTOR_STORE_USING" "sector_base cur"
    "free_at cur ns + sz + 60 \<le> cur + SECTOR_SIZE"
  shows "update_sec_status sector (word_of_nat sz) s = (EF_NO_ERR, False, s)"
proof -
  let ?r = "cur + SECTOR_SIZE - free_at cur ns"
  have le: "sz \<le> ?r" "60 \<le> ?r - sz" "?r < 2 ^ 32" using assms(4) sector_base_words(4) [OF assms(3)] by simp_all
  have "(word_of_nat ?r :: u32) - word_of_nat sz = word_of_nat (?r - sz)" using le(1) by (rule of_nat_diff [symmetric])
  moreover have "\<not> word_of_nat ?r < (word_of_nat 60 :: u32)" "\<not> word_of_nat (?r - sz) < (word_of_nat 60 :: u32)"
    using le by (subst u32_of_nat_less; simp)+
  ultimately show ?thesis using assms(1,2) by (simp add: update_sec_status_def using_meta_def del: of_nat_diff)
qed

text \<open>A node that leaves less than the threshold closes the sector.\<close>

lemma update_sec_status_full:
  assumes "sector = using_meta cur t1 t2 ns m" "get_status t1 4 = SECTOR_STORE_USING" "sector_base cur"
    "free_at cur ns + sz < cur + SECTOR_SIZE" "\<not> free_at cur ns + sz + 60 \<le> cur + SECTOR_SIZE" "\<not> dead (ef_nor s)"
  shows "update_sec_status sector (word_of_nat sz) s = (EF_NO_ERR, True,
    s\<lparr>ef_nor := snd (nor_write (cur + 2) [0] (ef_nor s)),
      sector_cache := update_sector_cache (word_of_nat cur) (word_of_nat (cur + SECTOR_SIZE)) (sector_cache s)\<rparr>)"
proof -
  let ?r = "cur + SECTOR_SIZE - free_at cur ns"
  have small: "cur + SECTOR_SIZE \<le> 262144" using assms(3) by (rule sector_base_words)
  have le: "sz \<le> ?r" "?r - sz < 60" "?r < 2 ^ 32" using assms(4,5) small by simp_all
  have "(word_of_nat ?r :: u32) - word_of_nat sz = word_of_nat (?r - sz)" using le(1) by (rule of_nat_diff [symmetric])
  moreover have "word_of_nat (?r - sz) < (word_of_nat 60 :: u32)" using le by (subst u32_of_nat_less) simp_all
  moreover have "unat (word_of_nat cur :: u32) = cur" using small by (intro unat_u32) simp
  ultimately show ?thesis using assms(1,2) put_status_eq [OF assms(6), of 3 4 "word_of_nat cur"] small sector_base_words(1) [OF assms(3)]
    by (simp add: update_sec_status_def using_meta_def cache_sector_def del: of_nat_diff)
qed

text \<open>The sector is closed, its nodes stay.\<close>

lemma kept_closed:
  assumes kept: "kept cur ns s"
  defines "s' \<equiv> s\<lparr>ef_nor := snd (nor_write (cur + 2) [0] (ef_nor s)),
    sector_cache := update_sector_cache (word_of_nat cur) (word_of_nat (cur + SECTOR_SIZE)) (sector_cache s)\<rparr>"
  shows "kept cur ns s'" "dirty_status cur (ef_nor s') = dirty_status cur (ef_nor s)"
proof -
  let ?f = "snd (nor_write (cur + 2) [0] (ef_nor s))"
  obtain t1 t2 u1 u2 where two: "two_sectors cur t1 t2 u1 u2 (ef_nor s)" "get_status t2 4 = 1 \<or> get_status t2 4 = 2"
    using kept by (auto simp: kept_def)
  note k = kept_base [OF kept]
  have hdr: "hdr_is cur t1 t2 (ef_nor s)" using two(1) by (simp add: two_sectors_def)
  have hdr': "hdr_is cur (t1[2 := 0]) t2 ?f" using hdr_is_touch(1) [OF hdr k(4), of 2] by simp
  have "get_status (t1[2 := 0]) 4 = 3"
    using get_status_update [of 3 4 t1] hdr two(1) by (auto simp: hdr_is_def two_sectors_def)
  moreover have "hdr_is (other_sector cur) u1 u2 ?f" "blank (other_sector cur + 20) (SECTOR_SIZE - 20) ?f"
    using two(1) by (auto simp: two_sectors_def other_sector_def sector_base_def intro!: hdr_is_apart cells_write
        blank_cong [where f = "ef_nor s", THEN iffD2])
  ultimately have "two_sectors cur (t1[2 := 0]) t2 u1 u2 ?f" using two(1) hdr' by (simp add: two_sectors_def)
  moreover have "holds_nodes cur ns ?f" using k(3) by (subst holds_nodes_cong [where f = "ef_nor s"]) (auto intro!: cells_write)
  ultimately show "kept cur ns s'"
    using kept two(2) k(4) sector_cache_dropped [OF _ _ k(1), of "sector_cache s"] by (auto simp: kept_def s'_def sector_cached_def)
  show "dirty_status cur (ef_nor s') = dirty_status cur (ef_nor s)"
    using hdr_is_status(2) [OF hdr] hdr_is_status(2) [OF hdr'] by (simp add: s'_def)
qed

text \<open>Whatever the sector's status becomes.\<close>

lemma create_at_status:
  assumes st: "update_sec_status sector (word_of_nat (28 + length key + length v)) s = (EF_NO_ERR, full, s1)"
    and sec: "sec_addr sector = word_of_nat cur" and cur: "sector_base cur" and e: "cur + 20 \<le> e" and key: "length key \<le> 32"
    and fit: "e + (28 + length key + length v) \<le> cur + SECTOR_SIZE" and alive: "\<not> dead (ef_nor s1)"
  shows "create_at sector (word_of_nat e) key v s
    = (EF_NO_ERR, s1\<lparr>sector_cache := (if full then sector_cache s1
          else update_sector_cache (word_of_nat cur) (word_of_nat (e + (28 + length key + length v))) (sector_cache s1)),
        env_cache := update_env_cache key (word_of_nat e) (env_cache s1), ef_nor := apply_writes (node_program e key v) (ef_nor s1),
        gc_request := gc_request s1 \<or> full\<rparr>)"
proof -
  have small: "cur + SECTOR_SIZE \<le> 262144" using cur by (rule sector_base_words)
  have len: "h_len (sealed_hdr key v) = word_of_nat (28 + length key + length v)"
    using key fit e by (intro sealed_hdr_len) simp_all
  have at: "unat (word_of_nat e :: u32) = e" using fit small by (intro unat_u32) simp
  have "word_of_nat e + 28 + word_of_nat (length key) + word_of_nat (length v) = (word_of_nat (e + (28 + length key + length v)) :: u32)"
    by simp
  then show ?thesis using alive fit small
    by (simp only: create_at_def len st at sec Let_def prod.case simp_thms if_True)
      (simp add: on_nor_def write_env_hdr_def align_write_def put_status_def write_status_def set_status_def at ef_port_write_ok
        cache_sector_def cache_env_def node_program_def apply_writes_def)
qed

lemma new_node_len:
  assumes "node_ok (written_tab, key, v)"
  shows "h_len (new_env_hdr key (length v)) = word_of_nat (28 + length key + length v)"
    "unat (word_of_nat (28 + length key + length v) :: u32) = 28 + length key + length v"
proof -
  have "h_len (new_env_hdr key (length v)) = h_len (sealed_hdr key v)" by (simp add: sealed_hdr_def Let_def)
  then show "h_len (new_env_hdr key (length v)) = word_of_nat (28 + length key + length v)" using sealed_hdr_len [of key v] assms by simp
  show "unat (word_of_nat (28 + length key + length v) :: u32) = 28 + length key + length v" using assms by (intro unat_u32) simp
qed

lemma kept_append:
  assumes kept: "kept cur ns s" and new: "node_ok (written_tab, key, v)" and fit: "free_at cur ns + node_size (written_tab, key, v) < cur + SECTOR_SIZE"
    and t: "t = sector_cache s \<and> get_sector_from_cache (word_of_nat cur) t = None \<or>
      t = update_sector_cache (word_of_nat cur) (word_of_nat (free_at cur ns + (28 + length key + length v))) (sector_cache s)"
  defines "f \<equiv> apply_writes (node_program (free_at cur ns) key v) (ef_nor s)"
  shows "kept cur (ns @ [(written_tab, key, v)]) (s\<lparr>sector_cache := t, ef_nor := f\<rparr>)"
    "store_status cur f = store_status cur (ef_nor s)" "dirty_status cur f = dirty_status cur (ef_nor s)"
proof -
  note k = kept_base [OF kept]
  let ?e = "free_at cur ns" and ?n = "28 + length key + length v"
  have free: "free_at cur (ns @ [(written_tab, key, v)]) = ?e + ?n" by (simp add: free_at_def)
  have nodes: "holds_nodes cur (ns @ [(written_tab, key, v)]) f"
    unfolding f_def using fit by (intro holds_nodes_append [OF k(3,4) new]) simp
  obtain t1 t2 u1 u2 where two: "two_sectors cur t1 t2 u1 u2 (ef_nor s)" "get_status t2 4 = 1 \<or> get_status t2 4 = 2"
    using kept by (auto simp: kept_def)
  have frame: "cells f p = cells (ef_nor s) p" if "p < cur + 20 \<or> cur + SECTOR_SIZE \<le> p" for p
    unfolding f_def using that fit by (intro node_program_frame) (auto simp: free_at_sum)
  have "two_sectors cur t1 t2 u1 u2 f" using two(1) frame by (rule two_sectors_cong)
  moreover have "\<not> dead f" using k(4) by (simp add: f_def apply_writes_def node_program_def)
  moreover have "sectors_wf t" "sc_addr ` set t \<subseteq> {word_of_nat cur, FAILED_ADDR}" "sector_cached cur (ns @ [(written_tab, key, v)]) t"
    using t kept fit sector_cache_kept [OF _ _ k(1), of "sector_cache s" "?e + ?n"]
    by (auto simp: kept_def free_at_sum free sector_cached_def)
  ultimately show "kept cur (ns @ [(written_tab, key, v)]) (s\<lparr>sector_cache := t, ef_nor := f\<rparr>)"
    using kept two(2) nodes by (auto simp: kept_def)
  show "store_status cur f = store_status cur (ef_nor s)" "dirty_status cur f = dirty_status cur (ef_nor s)"
    using frame by (intro status_cong; simp)+
qed

text \<open>A new node; where it leaves too little room the sector is closed and a collection requested.\<close>

lemma create_result:
  assumes kept: "kept cur ns s" and m: "sector = using_meta cur t1 t2 ns m" "get_status t1 4 = SECTOR_STORE_USING"
    and new: "node_ok (written_tab, key, v)" and fit: "free_at cur ns + node_size (written_tab, key, v) < cur + SECTOR_SIZE"
    and full: "full \<longleftrightarrow> \<not> free_at cur ns + node_size (written_tab, key, v) + 60 \<le> cur + SECTOR_SIZE"
  shows "\<exists>f' t'. create_env_blob sector key v s
      = Some (EF_NO_ERR, s\<lparr>sector_cache := t', env_cache := update_env_cache key (word_of_nat (free_at cur ns)) (env_cache s), ef_nor := f',
          gc_request := gc_request s \<or> full\<rparr>) \<and>
    kept cur (ns @ [(written_tab, key, v)]) (s\<lparr>sector_cache := t', ef_nor := f'\<rparr>) \<and>
    (\<not> full \<longrightarrow> store_status cur f' = store_status cur (ef_nor s)) \<and> dirty_status cur f' = dirty_status cur (ef_nor s)"
proof -
  note k = kept_base [OF kept]
  let ?e = "free_at cur ns" and ?n = "28 + length key + length v"
  have key: "length key \<le> 32" "?n \<le> SECTOR_SIZE - SECTOR_HDR_DATA_SIZE" using new by simp_all
  have em: "empty_env sector = word_of_nat ?e" "(word_of_nat ?e :: u32) \<noteq> FAILED_ADDR"
    using m(1) k(2,5) by (simp_all add: using_meta_def u32_not_failed)
  define s1 where "s1 = (if full then s\<lparr>ef_nor := snd (nor_write (cur + 2) [0] (ef_nor s)),
    sector_cache := update_sector_cache (word_of_nat cur) (word_of_nat (cur + SECTOR_SIZE)) (sector_cache s)\<rparr> else s)"
  have upd: "update_sec_status sector (word_of_nat ?n) s = (EF_NO_ERR, full, s1)"
    using update_sec_status_room [OF m k(1), of ?n s] update_sec_status_full [OF m k(1) _ _ k(4), of ?n] fit full by (simp add: s1_def)
  have k1: "kept cur ns s1" "dirty_status cur (ef_nor s1) = dirty_status cur (ef_nor s)" using kept kept_closed [OF kept] by (simp_all add: s1_def)
  let ?t = "if full then sector_cache s1 else update_sector_cache (word_of_nat cur) (word_of_nat (?e + ?n)) (sector_cache s1)"
  let ?f = "apply_writes (node_program ?e key v) (ef_nor s1)"
  have "create_at sector (word_of_nat ?e) key v s = (EF_NO_ERR, s1\<lparr>sector_cache := ?t,
      env_cache := update_env_cache key (word_of_nat ?e) (env_cache s1), ef_nor := ?f, gc_request := gc_request s1 \<or> full\<rparr>)"
    using fit m(1) kept_base(4) [OF k1(1)]
    by (intro create_at_status [OF upd _ k(1) _ key(1)]) (simp_all add: using_meta_def free_at_sum)
  then have "create_env_blob sector key v s = Some (EF_NO_ERR, s\<lparr>sector_cache := ?t,
      env_cache := update_env_cache key (word_of_nat ?e) (env_cache s), ef_nor := ?f, gc_request := gc_request s \<or> full\<rparr>)"
    using key em new_node_len [OF new] by (simp add: create_env_blob_def s1_def)
  moreover have "?t = sector_cache s1 \<and> get_sector_from_cache (word_of_nat cur) ?t = None \<or>
      ?t = update_sector_cache (word_of_nat cur) (word_of_nat (?e + ?n)) (sector_cache s1)"
    using kept sector_cache_dropped(3) [OF _ _ k(1), of "sector_cache s"] by (auto simp: s1_def kept_def)
  note a = kept_append [OF k1(1) new fit this]
  have "kept cur (ns @ [(written_tab, key, v)]) (s\<lparr>sector_cache := ?t, ef_nor := ?f\<rparr>)"
    by (rule kept_cong [OF a(1)]) (simp_all add: s1_def)
  ultimately show ?thesis using a(2,3) k1(2) by (intro exI [of _ ?f] exI [of _ ?t]) (auto simp: s1_def)
qed

section \<open>Setting\<close>

lemma new_env_room:
  assumes kept: "kept cur ns s" and gc: "\<not> gc_request s" and op: "store_status cur (ef_nor s) = SECTOR_STORE_USING"
    and fit: "free_at cur ns + sz < cur + SECTOR_SIZE"
  shows "\<exists>t1 t2 m t'. new_env no_sector (word_of_nat sz) s
      = Some (word_of_nat (free_at cur ns), using_meta cur t1 t2 ns m, s\<lparr>sector_cache := t'\<rparr>) \<and>
    get_status t1 4 = SECTOR_STORE_USING \<and> kept cur ns (s\<lparr>sector_cache := t'\<rparr>)"
proof -
  obtain t1 t2 u1 u2 where two: "two_sectors cur t1 t2 u1 u2 (ef_nor s)" "get_status t2 4 = 1 \<or> get_status t2 4 = 2"
    using kept by (auto simp: kept_def)
  have "hdr_is cur t1 t2 (ef_nor s)" using two(1) by (simp add: two_sectors_def)
  then have t1: "get_status t1 4 = 2" using hdr_is_status(1) op by metis
  have ns: "ns \<noteq> []" "holds_nodes cur ns (ef_nor s)" "sector_cached cur ns (sector_cache s)"
    using kept by (simp_all add: kept_def)
  from alloc_env_using [OF two ns gc t1 fit, of no_sector] obtain m s' where
    a: "alloc_env no_sector (word_of_nat sz) s = Some (word_of_nat (free_at cur ns), using_meta cur t1 t2 ns m, s')"
      "s' = s \<or> s' = cache_sector (word_of_nat cur) (word_of_nat (free_at cur ns)) s" by blast
  have "(word_of_nat (free_at cur ns) :: u32) \<noteq> FAILED_ADDR" using kept_base(2,5) [OF kept] by (intro u32_not_failed) simp
  then have "new_env no_sector (word_of_nat sz) s = Some (word_of_nat (free_at cur ns), using_meta cur t1 t2 ns m, s')"
    using a(1) by (simp add: new_env_def)
  moreover have "kept cur ns s'" using a(2) kept kept_cache_sector [OF kept] by auto
  moreover have "s' = s\<lparr>sector_cache := sector_cache s'\<rparr>" using a(2) by (auto simp: cache_sector_def)
  ultimately show ?thesis using t1 by metis
qed

lemma written_status: "get_status written_tab 6 = ENV_WRITE"
  by code_simp

text \<open>The three steps of \<open>set_env\<close> behind the allocation.\<close>

lemma replace_node:
  assumes kept: "kept cur ns s" and cache: "env_cached cur ns (env_cache s)" and last: "\<not> last_is_complete_del s"
    and m: "sector = using_meta cur t1 t2 ns m" "get_status t1 4 = SECTOR_STORE_USING"
    and new: "node_ok (written_tab, key, v)" and fit: "free_at cur ns + node_size (written_tab, key, v) < cur + SECTOR_SIZE"
    and full: "full \<longleftrightarrow> \<not> free_at cur ns + node_size (written_tab, key, v) + 60 \<le> cur + SECTOR_SIZE"
    and n: "ns = xs @ n # ys" "addr_start env = word_of_nat p" "p = layout_end (cur + 20) xs" "node_key n = key"
  shows "\<exists>s1 s2 s3. del_found (Some key) env False s = (EF_NO_ERR, s1) \<and> create_env_blob sector key v s1 = Some (EF_NO_ERR, s2) \<and>
    del_found (Some key) env True s2 = (EF_NO_ERR, s3) \<and> (gc_request s3 \<longleftrightarrow> gc_request s \<or> full) \<and> \<not> last_is_complete_del s3 \<and>
    kept cur (xs @ touch ENV_DELETED (touch ENV_PRE_DELETE n) # ys @ [(written_tab, key, v)]) s3 \<and>
    env_cached cur (xs @ touch ENV_DELETED (touch ENV_PRE_DELETE n) # ys @ [(written_tab, key, v)]) (env_cache s3) \<and>
    (\<not> full \<longrightarrow> store_status cur (ef_nor s3) = store_status cur (ef_nor s)) \<and> dirty_status cur (ef_nor s3) = SECTOR_DIRTY_TRUE"
proof -
  let ?new = "(written_tab, key, v)" and ?n1 = "touch ENV_PRE_DELETE n" and ?n2 = "touch ENV_DELETED (touch ENV_PRE_DELETE n)"
  obtain f1 where d1: "del_found (Some key) env False s = (EF_NO_ERR, s\<lparr>ef_nor := f1, last_is_complete_del := True\<rparr>)"
    "kept cur (xs @ ?n1 # ys) (s\<lparr>ef_nor := f1\<rparr>)" "store_status cur f1 = store_status cur (ef_nor s)"
    using del_found_result [OF kept [unfolded n(1)] n(2,3), of key False] by auto
  define s1 where "s1 = s\<lparr>ef_nor := f1, last_is_complete_del := True\<rparr>"
  have k1: "kept cur (xs @ ?n1 # ys) s1" by (rule kept_cong [OF d1(2)]) (simp_all add: s1_def)
  have free: "free_at cur (xs @ ?n1 # ys) = free_at cur ns" by (simp add: free_at_def n(1))
  have m': "sector = using_meta cur t1 t2 (xs @ ?n1 # ys) m" using m(1) by (simp add: using_meta_def free)
  obtain f2 t2' where c: "create_env_blob sector key v s1
      = Some (EF_NO_ERR, s1\<lparr>sector_cache := t2', env_cache := update_env_cache key (word_of_nat (free_at cur ns)) (env_cache s1), ef_nor := f2,
          gc_request := gc_request s1 \<or> full\<rparr>)"
    "kept cur ((xs @ ?n1 # ys) @ [?new]) (s1\<lparr>sector_cache := t2', ef_nor := f2\<rparr>)" "\<not> full \<longrightarrow> store_status cur f2 = store_status cur (ef_nor s1)"
    using create_result [OF k1 m' m(2) new _ full [folded free]] fit free by auto
  define s2 where "s2 = s1\<lparr>sector_cache := t2', env_cache := update_env_cache key (word_of_nat (free_at cur ns)) (env_cache s1), ef_nor := f2,
      gc_request := gc_request s1 \<or> full\<rparr>"
  have k2: "kept cur (xs @ ?n1 # (ys @ [?new])) s2" by (rule kept_cong [of _ _ "s1\<lparr>sector_cache := t2', ef_nor := f2\<rparr>"]) (use c(2) in \<open>simp_all add: s2_def\<close>)
  have last2: "last_is_complete_del s2" by (simp add: s2_def s1_def)
  obtain f3 where d3: "del_found (Some key) env True s2 = (EF_NO_ERR, s2\<lparr>ef_nor := f3, last_is_complete_del := False\<rparr>)"
    "kept cur (xs @ ?n2 # (ys @ [?new])) (s2\<lparr>ef_nor := f3\<rparr>)" "store_status cur f3 = store_status cur (ef_nor s2)"
    "dirty_status cur f3 = SECTOR_DIRTY_TRUE"
    using del_found_result [OF k2 n(2,3), of key True] last2 by auto
  define s3 where "s3 = s2\<lparr>ef_nor := f3, last_is_complete_del := False\<rparr>"
  have k3: "kept cur (xs @ ?n2 # (ys @ [?new])) s3" by (rule kept_cong [OF d3(2)]) (simp_all add: s3_def)
  have "cached_but (crc_of_name key) (placed (cur + 20) (xs @ ?n2 # ys)) (env_cache s)"
    using env_cached_but_touch [of ?n1 "cur + 20" xs ys _ ENV_DELETED] env_cached_but_touch [of n "cur + 20" xs ys _ ENV_PRE_DELETE]
      cached_weaken [OF cache [unfolded env_cached_in]] n(1,4) by simp
  then have "cached_but (crc_of_name key) (placed (cur + 20) (xs @ ?n2 # ys @ [?new])) (env_cache s)"
    by (rule cached_mono(2) [rotated]) auto
  moreover have "leads (placed (cur + 20) (xs @ ?n2 # ys @ [?new])) (crc_of_name key) (word_of_nat (free_at cur ns))"
    unfolding leads_def
    by (intro exI [of _ "free_at cur ns"] exI [of _ ?new]) (simp add: n(1) free_at_def written_status)
  ultimately have "cached_in (placed (cur + 20) (xs @ ?n2 # ys @ [?new])) (update_env_cache key (word_of_nat (free_at cur ns)) (env_cache s))"
    by (intro cached_update) blast+
  then have "env_cached cur (xs @ ?n2 # ys @ [?new]) (env_cache s3)" by (simp add: env_cached_in s3_def s2_def s1_def)
  then show ?thesis using d1(1,3) c(1,3) d3 k3
    by (intro exI [of _ s1] exI [of _ s2] exI [of _ s3])
      (simp add: s1_def [symmetric] s2_def [symmetric] s3_def [symmetric], simp add: s3_def s2_def s1_def)
qed

lemma live_simps [simp]:
  "live [] = []" "live (xs @ ys) = live xs @ live ys"
  "live (n # ns) = (if node_status n = ENV_WRITE then n # live ns else live ns)"
  by (simp_all add: live_def)

lemma contents_append:
  "contents ns key = None \<Longrightarrow> contents (ns @ [(written_tab, key, v)]) = (contents ns)(key \<mapsto> v)"
  by (auto simp: contents_def written_status map_add_def split: option.splits)

lemma contents_removed:
  assumes "distinct (map node_key (live (xs @ n # ys)))" "node_status n = ENV_WRITE" "node_status n' \<noteq> ENV_WRITE"
  shows "contents (xs @ n' # ys) = (contents (xs @ n # ys))(node_key n := None)"
proof
  fix k
  have "node_key n \<notin> node_key ` set (live xs)" "node_key n \<notin> node_key ` set (live ys)"
    using assms(1,2) by simp_all
  then have "map_of (map (\<lambda>n. (node_key n, node_value n)) (live xs)) (node_key n) = None"
    "map_of (map (\<lambda>n. (node_key n, node_value n)) (live ys)) (node_key n) = None"
    by (simp_all add: map_of_eq_None_iff image_image)
  then show "contents (xs @ n' # ys) k = ((contents (xs @ n # ys))(node_key n := None)) k"
    using assms(2,3) by (auto simp: contents_def map_add_def split: option.splits)
qed

lemma live_absent: "contents ns key = None \<longleftrightarrow> key \<notin> node_key ` set (live ns)"
  by (auto simp: contents_none live_def)

lemma deleted_status: "node_ok n \<Longrightarrow> node_status n = ENV_WRITE \<Longrightarrow> node_status (touch ENV_DELETED (touch ENV_PRE_DELETE n)) = ENV_DELETED"
  "node_ok n \<Longrightarrow> node_status n = ENV_WRITE \<Longrightarrow> node_status (touch ENV_DELETED n) = ENV_DELETED"
  by (simp_all add: node_status_touch)

lemma settled_append:
  assumes "settled_nodes ns" "contents ns key = None"
  shows "settled_nodes (ns @ [(written_tab, key, v)])"
  using assms by (auto simp: settled_nodes_def written_status live_absent)

lemma settled_replaced:
  assumes "settled_nodes (xs @ n # ys)" "node_status n = ENV_WRITE" "node_status n' = ENV_DELETED"
  shows "settled_nodes (xs @ n' # ys)" "contents (xs @ n' # ys) = (contents (xs @ n # ys))(node_key n := None)"
  using assms contents_removed [of xs n ys n'] by (auto simp: settled_nodes_def)

text \<open>\<open>set_env\<close> once a place was found, up to the collection at its end.\<close>

lemma set_env_steps:
  assumes ok: "store_ok cur ns s0" and crc: "crc_apart key ns" and new: "node_ok (written_tab, key, v)"
    and a: "new_env_by_kv no_sector (length key) (length v) s = Some (word_of_nat (free_at cur ns), using_meta cur t1 t2 ns m, s0)"
      "get_status t1 4 = SECTOR_STORE_USING"
    and fit: "free_at cur ns + node_size (written_tab, key, v) < cur + SECTOR_SIZE"
    and full: "full \<longleftrightarrow> \<not> free_at cur ns + node_size (written_tab, key, v) + 60 \<le> cur + SECTOR_SIZE"
  shows "\<exists>ns' s'. set_env key (Some v) s = (if full then gc_collect s' else Some s') \<bind> (\<lambda>s. Some (EF_NO_ERR, s)) \<and> store_kept cur ns' s' \<and>
    contents ns' = (contents ns)(key \<mapsto> v) \<and> gc_request s' = full \<and> (\<not> full \<longrightarrow> store_ok cur ns' s') \<and>
    free_at cur ns' = free_at cur ns + node_size (written_tab, key, v)"
proof -
  let ?new = "(written_tab, key, v)"
  note o = store_okD [OF ok]
  have ne: "(word_of_nat (free_at cur ns) :: u32) \<noteq> FAILED_ADDR" using kept_base(2,5) [OF o(1)] by (intro u32_not_failed) simp
  obtain found env t where f: "find_env key no_env s0 = Some (found, env, s0\<lparr>env_cache := t\<rparr>)" "env_cached cur ns t" "finds cur ns key found env"
    using find_env_result [OF o(1,2) crc, of no_env] by auto
  define s1 where "s1 = s0\<lparr>env_cache := t\<rparr>"
  have k1: "kept cur ns s1" by (rule kept_cong [OF o(1)]) (simp_all add: s1_def)
  have c1: "env_cached cur ns (env_cache s1)" and l1: "\<not> last_is_complete_del s1" "\<not> gc_request s1" and e1: "ef_nor s1 = ef_nor s0"
    using f(2) o(3,6) by (simp_all add: s1_def)
  show ?thesis
  proof (cases found)
    case True
    then obtain e p n where n: "env = node_env e p n" "(p, n) \<in> set (placed (cur + 20) ns)" "node_status n = ENV_WRITE" "node_key n = key"
      using f(3) by (elim finds_found) simp_all
    obtain xs ys where x: "ns = xs @ n # ys" "p = layout_end (cur + 20) xs" using n(2) by (rule placed_split)
    have addr: "addr_start env = word_of_nat p" unfolding n(1) by (cases n) simp
    let ?n2 = "touch ENV_DELETED (touch ENV_PRE_DELETE n)"
    let ?ns = "xs @ ?n2 # ys @ [?new]"
    obtain s2 s3 s4 where r: "del_found (Some key) env False s1 = (EF_NO_ERR, s2)" "create_env_blob (using_meta cur t1 t2 ns m) key v s2 = Some (EF_NO_ERR, s3)"
      "del_found (Some key) env True s3 = (EF_NO_ERR, s4)" "gc_request s4 = full" "\<not> last_is_complete_del s4" "kept cur ?ns s4" "env_cached cur ?ns (env_cache s4)"
      "\<not> full \<longrightarrow> store_status cur (ef_nor s4) = store_status cur (ef_nor s0)" "dirty_status cur (ef_nor s4) = SECTOR_DIRTY_TRUE"
      using replace_node [OF k1 c1 l1(1) refl [of "using_meta cur t1 t2 ns m"] a(2) new fit full x(1) addr x(2) n(4)] l1(2) e1 by auto
    have st2: "node_status ?n2 = ENV_DELETED"
      using placed_bounds(3) [OF kept_base(3) [OF o(1)] n(2)] n(3) by (rule deleted_status)
    note gone = settled_replaced [OF o(4) [unfolded x(1)] n(3) st2]
    have none: "contents (xs @ ?n2 # ys) key = None" using gone(2) n(4) by simp
    have "settled_nodes ?ns" using settled_append [OF gone(1) none, of v] by simp
    then have ok4: "store_kept cur ?ns s4" using r(5-9) by (simp add: store_kept_def marked_def)
    moreover have "contents ?ns = (contents ns)(key \<mapsto> v)"
      using contents_append [OF none, of v] gone(2) n(4) x(1) by simp
    moreover have "set_env key (Some v) s = (if full then gc_collect s4 else Some s4) \<bind> (\<lambda>s. Some (EF_NO_ERR, s))"
      using a(1) ne f(1) True r(1-4) by (simp add: set_env_def s1_def)
    moreover have "\<not> full \<longrightarrow> store_ok cur ?ns s4" using ok4 r(4,8) o(7) by (simp add: store_ok_def)
    ultimately show ?thesis using r(4) by (intro exI [of _ ?ns] exI [of _ s4]) (simp add: free_at_def x(1) layout_end_def)
  next
    case False
    then have none: "contents ns key = None" using f(3) by (simp add: finds_def)
    obtain f' t' where c: "create_env_blob (using_meta cur t1 t2 ns m) key v s1
        = Some (EF_NO_ERR, s1\<lparr>sector_cache := t', env_cache := update_env_cache key (word_of_nat (free_at cur ns)) (env_cache s1), ef_nor := f',
            gc_request := gc_request s1 \<or> full\<rparr>)"
      "kept cur (ns @ [?new]) (s1\<lparr>sector_cache := t', ef_nor := f'\<rparr>)"
      "\<not> full \<longrightarrow> store_status cur f' = store_status cur (ef_nor s1)" "dirty_status cur f' = dirty_status cur (ef_nor s1)"
      using create_result [OF k1 refl [of "using_meta cur t1 t2 ns m"] a(2) new fit full] by blast
    define s2 where "s2 = s1\<lparr>sector_cache := t', env_cache := update_env_cache key (word_of_nat (free_at cur ns)) (env_cache s1), ef_nor := f',
        gc_request := gc_request s1 \<or> full\<rparr>"
    have k2: "kept cur (ns @ [?new]) s2" by (rule kept_cong [OF c(2)]) (simp_all add: s2_def)
    have "set_env key (Some v) s = (if full then gc_collect s2 else Some s2) \<bind> (\<lambda>s. Some (EF_NO_ERR, s))"
      using a(1) ne f(1) False c(1) l1(2) by (simp add: set_env_def s1_def [symmetric] s2_def [symmetric], simp add: s2_def)
    moreover have "leads (placed (cur + 20) (ns @ [?new])) (crc_of_name key) (word_of_nat (free_at cur ns))"
      unfolding leads_def by (intro exI [of _ "free_at cur ns"] exI [of _ ?new]) (simp add: free_at_def written_status)
    moreover have "cached_but (crc_of_name key) (placed (cur + 20) (ns @ [?new])) (env_cache s1)"
      by (rule cached_mono(2) [OF _ cached_weaken [OF c1 [unfolded env_cached_in]]]) auto
    ultimately have set: "set_env key (Some v) s = (if full then gc_collect s2 else Some s2) \<bind> (\<lambda>s. Some (EF_NO_ERR, s))"
      and cache: "env_cached cur (ns @ [?new]) (env_cache s2)" by (simp_all add: env_cached_in s2_def cached_update)
    have ok2: "store_kept cur (ns @ [?new]) s2"
      using k2 cache l1(1) settled_append [OF o(4) none] o(5) c(4) e1 by (auto simp: store_kept_def marked_def written_status s2_def)
    moreover have "gc_request s2 = full" using l1(2) by (simp add: s2_def)
    moreover have "\<not> full \<longrightarrow> store_ok cur (ns @ [?new]) s2" using ok2 l1(2) c(3) o(7) e1 by (auto simp: store_ok_def s2_def)
    ultimately show ?thesis using contents_append [OF none] set
      by (intro exI [of _ "ns @ [?new]"] exI [of _ s2]) (simp add: free_at_def layout_end_def)
  qed
qed

lemma store_ok_cong:
  assumes "store_ok cur ns s" "kept cur ns s'" "ef_nor s' = ef_nor s" "env_cache s' = env_cache s" "last_is_complete_del s' = last_is_complete_del s"
    "gc_request s' = gc_request s"
  shows "store_ok cur ns s'"
  using assms by (simp add: store_ok_def store_kept_def)

text \<open>With room in the sector in use.\<close>

lemma set_room:
  assumes ok: "store_ok cur ns s" and crc: "crc_apart key ns" and new: "node_ok (written_tab, key, v)"
    and fit: "free_at cur ns + node_size (written_tab, key, v) < cur + SECTOR_SIZE"
    and full: "full \<longleftrightarrow> \<not> free_at cur ns + node_size (written_tab, key, v) + 60 \<le> cur + SECTOR_SIZE"
  shows "\<exists>ns' s'. set_env key (Some v) s = (if full then gc_collect s' else Some s') \<bind> (\<lambda>s. Some (EF_NO_ERR, s)) \<and> store_kept cur ns' s' \<and>
    contents ns' = (contents ns)(key \<mapsto> v) \<and> gc_request s' = full \<and> (\<not> full \<longrightarrow> store_ok cur ns' s') \<and>
    free_at cur ns' = free_at cur ns + node_size (written_tab, key, v)"
proof -
  note o = store_okD [OF ok]
  obtain t1 t2 m tt where a: "new_env_by_kv no_sector (length key) (length v) s
      = Some (word_of_nat (free_at cur ns), using_meta cur t1 t2 ns m, s\<lparr>sector_cache := tt\<rparr>)"
    "get_status t1 4 = SECTOR_STORE_USING" "kept cur ns (s\<lparr>sector_cache := tt\<rparr>)"
    using new_env_room [OF o(1,6,7), of "28 + length key + length v"] fit by (auto simp: new_env_by_kv_def)
  have "store_ok cur ns (s\<lparr>sector_cache := tt\<rparr>)" by (rule store_ok_cong [OF ok a(3)]) simp_all
  from set_env_steps [OF this crc new a(1,2) fit full] show ?thesis .
qed

end
