(* ===== verification/Ef_Copy.thy ===== *)
theory Ef_Copy
  imports Ef_Set
begin

unbundle bit_operations_syntax

text \<open>
  The copy of a node into another place (\<open>move_env\<close> of \<open>ef_env.c\<close>): the loop over chunks of 32 bytes is one write, and the copy is a node
  as \<open>create_env_blob\<close> would have written it.
\<close>

lemma nor_ext: "cells (f :: nor) = cells g \<Longrightarrow> dead f = dead g \<Longrightarrow> f = g"
  by simp

lemma write_append: "snd (nor_write (a + length x) y (snd (nor_write a x f))) = snd (nor_write a (x @ y) f)"
proof (cases "dead f")
  case True
  then show ?thesis by (simp add: nor_write_def)
next
  case False
  then show ?thesis by (intro nor_ext) (auto simp: nor_write_def fun_eq_iff nth_append)
qed

lemma write_nothing: "snd (nor_write a [] f) = f"
  by (cases "dead f") (auto simp: nor_write_def fun_eq_iff intro!: nor_ext)

lemma copy_loop_write:
  assumes "\<not> dead f" "len \<le> n" "dst + n \<le> ef_len" "src + n \<le> dst \<or> dst + n \<le> src"
  shows "copy_loop len n src dst (EF_NO_ERR, f) = (EF_NO_ERR, snd (nor_write (dst + len) (ef_port_read (src + len) (n - len) f) f))"
  using assms
proof (induction "n - len" arbitrary: len f rule: less_induct)
  case less
  show ?case
  proof (cases "len < n")
    case False
    then show ?thesis using less.prems(2) by (simp add: copy_loop.simps ef_port_read_def write_nothing)
  next
    case True
    define sz where "sz = (if len + 32 < n then 32 else n - len)"
    have sz: "0 < sz" "len + sz \<le> n" using True by (auto simp: sz_def)
    let ?x = "ef_port_read (src + len) sz f"
    let ?f = "snd (nor_write (dst + len) ?x f)"
    have one: "ef_port_write (dst + len) ?x f = (EF_NO_ERR, ?f)" using less.prems sz by (intro ef_port_write_ok) simp_all
    have "ef_port_read (src + (len + sz)) (n - (len + sz)) ?f = ef_port_read (src + (len + sz)) (n - (len + sz)) f"
      using less.prems(4) sz by (intro read_apart) auto
    then have "copy_loop (len + sz) n src dst (EF_NO_ERR, ?f)
        = (EF_NO_ERR, snd (nor_write (dst + len + length ?x) (ef_port_read (src + len + sz) (n - (len + sz)) f) ?f))"
      using less.hyps [of "len + sz" ?f] less.prems sz by (simp add: add.assoc)
    also have "\<dots> = (EF_NO_ERR, snd (nor_write (dst + len) (?x @ ef_port_read (src + len + sz) (n - (len + sz)) f) f))"
      by (simp only: write_append)
    also have "?x @ ef_port_read (src + len + sz) (n - (len + sz)) f = ef_port_read (src + len) (n - len) f"
      using ef_port_read_add [of "src + len" sz "n - (len + sz)" f] sz by simp
    finally show ?thesis using True one sz by (simp add: copy_loop.simps [of len n] sz_def [symmetric] Let_def)
  qed
qed

text \<open>The writes of a copy are those of a new node.\<close>

lemma node_program_body:
  "apply_writes (node_program e key v) f = apply_writes [(e, [0]), (e + 8, hdr_body (sealed_hdr key v) @ key @ v), (e + 1, [0])] f"
  using write_append [of "e + 8" "hdr_body (sealed_hdr key v)" key "snd (nor_write e [0] f)"]
    write_append [of "e + 8" "hdr_body (sealed_hdr key v) @ key" v "snd (nor_write e [0] f)"]
  by (simp add: apply_writes_def node_program_def algebra_simps)

lemma stored_body:
  assumes "stored p (tab, key, v) f" "length tab = 5"
  shows "ef_port_read (p + 8) (20 + length key + length v) f = hdr_body (sealed_hdr key v) @ key @ v"
  using read_part [of 8 "20 + length key + length v" "28 + length key + length v" p f] assms by (simp add: node_image_def)

lemma copy_env_node:
  assumes st: "update_sec_status sector (word_of_nat (node_size n)) s = (r, full, s1)"
    and n: "node_ok n" "stored p n (ef_nor s1)" "p < 2 ^ 32" and alive: "\<not> dead (ef_nor s1)"
    and dst: "sector_base dst" "dst \<le> e" "e + node_size n \<le> dst + SECTOR_SIZE" "p + node_size n \<le> e \<or> e + node_size n \<le> p"
  shows "copy_env (node_env env p n) sector (word_of_nat e) s =
    (EF_NO_ERR, s1\<lparr>ef_nor := apply_writes (node_program e (node_key n) (node_value n)) (ef_nor s1),
       sector_cache := update_sector_cache (word_of_nat dst) (word_of_nat (e + node_size n)) (sector_cache s1),
       env_cache := update_env_cache (node_key n) (word_of_nat e) (env_cache s1)\<rparr>)"
proof -
  obtain tab key v where nn: "n = (tab, key, v)" by (cases n)
  have size: "29 \<le> node_size n" "node_size n = 28 + length key + length v" using node_size_ge [OF n(1)] nn by simp_all
  have small: "dst + SECTOR_SIZE \<le> 262144" using dst(1) by (rule sector_base_words)
  have at: "unat (word_of_nat e :: u32) = e" "unat (word_of_nat p :: u32) = p" "unat (word_of_nat (length key) :: u8) = length key"
    using dst(3) small n(1,3) nn by (auto intro!: unat_u32 unat_word_of_nat)
  have len: "unat (word_of_nat (node_size n) - 8 :: u32) = 20 + length key + length v"
  proof -
    have "word_of_nat (node_size n) - 8 = (word_of_nat (20 + length key + length v) :: u32)" using size(2) by simp
    then show ?thesis using unat_u32 [of "20 + length key + length v"] size(2) dst(3) small by (simp add: add.assoc)
  qed
  have align: "align_sector (word_of_nat e) = word_of_nat dst" using dst(2,3) size(1) by (intro align_sector_word [OF dst(1)]) simp_all
  have key: "take (length (node_key n)) (nd_name (node_env env p n)) = key" using node_env_simps(7) [of n env p] nn by simp
  let ?f1 = "snd (nor_write e [0] (ef_nor s1))"
  have rd: "ef_port_read (p + 8) (20 + length key + length v) ?f1 = hdr_body (sealed_hdr key v) @ key @ v"
  proof -
    have "ef_port_read (p + 8) (20 + length key + length v) ?f1 = ef_port_read (p + 8) (20 + length key + length v) (ef_nor s1)"
      using dst(4) size by (intro read_apart) auto
    then show ?thesis using stored_body [of p tab key v "ef_nor s1"] n(1,2) nn by simp
  qed
  have copy: "copy_loop 0 (20 + length key + length v) (p + 8) (e + 8) (EF_NO_ERR, ?f1)
      = (EF_NO_ERR, snd (nor_write (e + 8) (hdr_body (sealed_hdr key v) @ key @ v) ?f1))"
    using copy_loop_write [of ?f1 0 "20 + length key + length v" "e + 8" "p + 8"] alive dst(3,4) size small rd by auto
  have e6: "e + 6 \<le> ef_len" using dst(3) size(1) small by simp
  have em: "word_of_nat e + 28 + ucast (word_of_nat (length key) :: u8) + word_of_nat (length v) = (word_of_nat (e + node_size n) :: u32)"
  proof -
    have "ucast (word_of_nat (length key) :: u8) = (word_of_nat (length key) :: u32)" using at(3) by (metis of_nat_unat)
    then show ?thesis using size(2) by simp
  qed
  show ?thesis unfolding node_program_body
    using st alive at len align key copy e6 em nn
    by (simp add: copy_env_def put_status_eq Let_def apply_writes_def cache_sector_def cache_env_def del: node_env.simps of_nat_add)
qed

end
