(* ===== verification/Ef_Gc.thy ===== *)
theory Ef_Gc
  imports Ef_Copy
begin

unbundle bit_operations_syntax

text \<open>
  The garbage collection of \<open>ef_env.c\<close>: the nodes in use of the dirty sector are moved to the empty one, and the dirty
  sector is formatted. What the store holds stays the same.
\<close>

section \<open>A formatted sector\<close>

abbreviation (input) fresh_tab :: bytes where "fresh_tab \<equiv> [0, 0xFF, 0xFF]"

definition fresh :: "nat \<Rightarrow> nor \<Rightarrow> bool" where
  "fresh sec f \<longleftrightarrow> hdr_is sec fresh_tab fresh_tab f \<and> blank (sec + 20) (SECTOR_SIZE - 20) f"

lemma fresh_cong: "(\<And>p. sec \<le> p \<Longrightarrow> p < sec + SECTOR_SIZE \<Longrightarrow> cells f' p = cells f p) \<Longrightarrow> fresh sec f' = fresh sec f"
  using hdr_is_cong [of sec f' f] blank_cong [of "sec + 20" "SECTOR_SIZE - 20" f' f] by (simp add: fresh_def)

lemma fresh_tab_status: "get_status fresh_tab 4 = 1" "get_status [0, 0, 0xFF] 4 = 2"
  by code_simp+

lemma sector_hdr_bytes_eq:
  "sector_hdr_bytes SECTOR_NOT_COMBINED
    = fresh_tab @ fresh_tab @ [0xFF, 0xFF] @ le32 SECTOR_MAGIC_WORD @ le32 SECTOR_NOT_COMBINED @ le32 0xFFFFFFFF"
  by (simp add: sector_hdr_bytes_def set_status_def numeral_3_eq_3)

lemma format_sector_result:
  assumes alive: "\<not> dead (ef_nor s)" and sec: "sector_base sec"
  shows "\<exists>f'. format_sector (word_of_nat sec) SECTOR_NOT_COMBINED s = (EF_NO_ERR, s\<lparr>ef_nor := f',
      sector_cache := update_sector_cache (word_of_nat sec) (word_of_nat (sec + SECTOR_SIZE)) (sector_cache s)\<rparr>) \<and> \<not> dead f' \<and> fresh sec f' \<and>
    (\<forall>p. p < sec \<or> sec + SECTOR_SIZE \<le> p \<longrightarrow> cells f' p = cells (ef_nor s) p)"
proof -
  let ?h = "sector_hdr_bytes SECTOR_NOT_COMBINED"
  let ?g = "snd (nor_erase sec SECTOR_SIZE (ef_nor s))"
  let ?f = "snd (nor_write sec ?h ?g)"
  have len: "length ?h = 20" by (simp add: sector_hdr_bytes_eq le32_def)
  have small: "sec + SECTOR_SIZE \<le> 262144" using sec by (rule sector_base_words)
  have at: "unat (word_of_nat sec :: u32) = sec" using small by (intro unat_u32) simp
  have blocks: "sec div 4096 \<le> p div 4096 \<and> p div 4096 \<le> (131071 + sec) div 4096 \<longleftrightarrow> sec \<le> p \<and> p < sec + SECTOR_SIZE" for p
    using sec less_eq_div_iff_mult_less_eq [of 4096 32 p] div_less_iff_less_mult [of 4096 p 32] div_less_iff_less_mult [of 4096 p 64]
    by (auto simp: sector_base_def)
  have g: "cells ?g p = (if sec \<le> p \<and> p < sec + SECTOR_SIZE then 0xFF else cells (ef_nor s) p)" "\<not> dead ?g" for p
    using alive by (simp_all add: nor_erase_def blocks)
  have f: "cells ?f p = (if sec \<le> p \<and> p < sec + 20 then ?h ! (p - sec) else if sec \<le> p \<and> p < sec + SECTOR_SIZE then 0xFF
      else cells (ef_nor s) p)" "\<not> dead ?f" for p
    using g len by (auto simp: nor_write_def)
  have "ef_port_read sec 20 ?f = ?h" using f(1) len by (intro nth_equalityI) simp_all
  then have "hdr_is sec fresh_tab fresh_tab ?f" by (simp add: hdr_is_def sector_hdr_bytes_eq)
  moreover have "blank (sec + 20) (SECTOR_SIZE - 20) ?f"
    unfolding blank_def using f(1) by (intro nth_equalityI) simp_all
  ultimately show ?thesis using alive small len f sector_base_words(1) [OF sec]
    by (intro exI [of _ ?f]) (simp add: format_sector_def at ef_port_erase_def nor_erase_def cache_sector_def fresh_def ef_port_write_ok)
qed

section \<open>The iterator over the two sectors\<close>

definition visit_sec ::
  "(sector_meta_data \<Rightarrow> 'a \<Rightarrow> ef \<Rightarrow> (bool \<times> 'a \<times> ef) option) \<Rightarrow> nat \<Rightarrow> bool \<Rightarrow> nat \<Rightarrow> sector_meta_data \<Rightarrow> 'a \<Rightarrow> ef
     \<Rightarrow> (bool \<times> sector_meta_data \<times> 'a \<times> ef) option" where
  "visit_sec cb status traversal sec m a s = do {
     (_, m, s) \<leftarrow> read_sector_meta_data (word_of_nat sec) m False s;
     if status = SECTOR_STORE_UNUSED \<or> status = store m then do {
       (_, m, s) \<leftarrow> (if traversal then read_sector_meta_data (word_of_nat sec) m True s else Some (EF_NO_ERR, m, s));
       (stop, a, s) \<leftarrow> cb m a s;
       Some (stop, m, a, s)
     } else Some (False, m, a, s)
   }"

abbreviation (input) single :: "nat \<Rightarrow> sector_meta_data \<Rightarrow> bool" where
  "single sec m \<equiv> sec_addr m = word_of_nat sec \<and> combined m = SECTOR_NOT_COMBINED"

lemma walk_sectors_visit:
  assumes "get_next_sector_addr m = word_of_nat sec" "sector_base sec"
  shows "walk_sectors cb status traversal m a s = do {
    (stop, m, a, s) \<leftarrow> visit_sec cb status traversal sec m a s;
    if stop then Some (m, a, s) else walk_sectors cb status traversal m a s }"
proof -
  have "(word_of_nat sec :: u32) \<noteq> FAILED_ADDR" using assms(2) by (intro u32_not_failed) (auto simp: sector_base_def)
  then show ?thesis using assms(1)
    by (subst walk_sectors.simps) (auto simp: visit_sec_def Let_def split: Option.bind_splits prod.splits)
qed

lemma next_single: "single 0 m \<Longrightarrow> get_next_sector_addr m = word_of_nat SECTOR_SIZE" "single SECTOR_SIZE m \<Longrightarrow> get_next_sector_addr m = FAILED_ADDR"
  by (simp_all add: get_next_sector_addr_def)

lemma sector_iterator_two:
  assumes one: "visit_sec cb status traversal 0 (m\<lparr>sec_addr := FAILED_ADDR\<rparr>) a s = Some (stop1, m1, a1, s1)" "single 0 m1"
    and two: "\<not> stop1 \<Longrightarrow> visit_sec cb status traversal SECTOR_SIZE m1 a1 s1 = Some (stop2, m2, a2, s2)" "\<not> stop1 \<Longrightarrow> single SECTOR_SIZE m2"
  shows "sector_iterator m status a cb traversal s = Some (if stop1 then (m1, a1, s1) else (m2, a2, s2))"
  using assms walk_sectors_visit [of "m\<lparr>sec_addr := FAILED_ADDR\<rparr>" 0 cb status traversal a s]
    walk_sectors_visit [of m1 SECTOR_SIZE cb status traversal a1 s1] walk_sectors.simps [of cb status traversal m2]
  by (simp add: sector_iterator_def next_sector next_single)

text \<open>One sector is passed, the other one stops the iterator, in either order; or both are passed.\<close>

lemma iterate_stop:
  assumes cur: "sector_base cur" and Q: "Q s"
    and pass: "\<And>m s. Q s \<Longrightarrow> \<exists>m' s'. visit_sec cb status traversal cur m a s = Some (False, m', a, s') \<and> single cur m' \<and> Q s'"
    and stop: "\<And>m s. Q s \<Longrightarrow> \<exists>m' s'. visit_sec cb status traversal (other_sector cur) m a s = Some (True, m', a', s') \<and>
      single (other_sector cur) m' \<and> Q s' \<and> R m'"
  shows "\<exists>m' s'. sector_iterator m status a cb traversal s = Some (m', a', s') \<and> Q s' \<and> R m'"
proof (cases "cur = 0")
  case True
  obtain m1 s1 where one: "visit_sec cb status traversal 0 (m\<lparr>sec_addr := FAILED_ADDR\<rparr>) a s = Some (False, m1, a, s1)" "single 0 m1" "Q s1"
    using pass [OF Q] True by blast
  obtain m2 s2 where two: "visit_sec cb status traversal SECTOR_SIZE m1 a s1 = Some (True, m2, a', s2)" "single SECTOR_SIZE m2" "Q s2" "R m2"
    using stop [OF one(3), of m1] True by (auto simp: other_sector_def)
  show ?thesis using sector_iterator_two [OF one(1,2) two(1,2)] two(3,4) by simp
next
  case False
  then have "other_sector cur = 0" using cur by (simp add: sector_base_def other_sector_def)
  then obtain m1 s1 where one: "visit_sec cb status traversal 0 (m\<lparr>sec_addr := FAILED_ADDR\<rparr>) a s = Some (True, m1, a', s1)" "single 0 m1" "Q s1" "R m1"
    using stop [OF Q] by metis
  show ?thesis using sector_iterator_two [OF one(1,2)] one(3,4) by simp
qed

lemma iterate_pass:
  assumes cur: "sector_base cur" and Q: "Q s"
    and a: "\<And>m s. Q s \<Longrightarrow> \<exists>m' s'. visit_sec cb status traversal cur m a s = Some (False, m', a, s') \<and> single cur m' \<and> Q s'"
    and b: "\<And>m s. Q s \<Longrightarrow> \<exists>m' s'. visit_sec cb status traversal (other_sector cur) m a s = Some (False, m', a, s') \<and>
      single (other_sector cur) m' \<and> Q s'"
  shows "\<exists>m' s'. sector_iterator m status a cb traversal s = Some (m', a, s') \<and> Q s'"
proof -
  have each: "\<exists>m' s'. visit_sec cb status traversal sec m a s = Some (False, m', a, s') \<and> single sec m' \<and> Q s'" if "Q s" "sec = 0 \<or> sec = SECTOR_SIZE" for sec m s
    using a [OF that(1)] b [OF that(1)] that(2) cur by (auto simp: sector_base_def other_sector_def)
  obtain m1 s1 where one: "visit_sec cb status traversal 0 (m\<lparr>sec_addr := FAILED_ADDR\<rparr>) a s = Some (False, m1, a, s1)" "single 0 m1" "Q s1"
    using each [OF Q, of 0] by blast
  obtain m2 s2 where two: "visit_sec cb status traversal SECTOR_SIZE m1 a s1 = Some (False, m2, a, s2)" "single SECTOR_SIZE m2" "Q s2"
    using each [OF one(3), of SECTOR_SIZE] by blast
  show ?thesis using sector_iterator_two [OF one(1,2) two(1,2)] two(3) by simp
qed

section \<open>The two sectors during a collection\<close>

definition gc_hdrs :: "nat \<Rightarrow> bytes \<Rightarrow> bytes \<Rightarrow> bytes \<Rightarrow> bytes \<Rightarrow> node list \<Rightarrow> nor \<Rightarrow> bool" where
  "gc_hdrs cur t1 t2 u1 u2 bs f \<longleftrightarrow> hdr_is cur t1 t2 f \<and> hdr_is (other_sector cur) u1 u2 f \<and>
     (get_status t1 SECTOR_STORE_STATUS_NUM = SECTOR_STORE_USING \<or> get_status t1 SECTOR_STORE_STATUS_NUM = SECTOR_STORE_FULL) \<and>
     get_status t2 SECTOR_DIRTY_STATUS_NUM = SECTOR_DIRTY_GC \<and>
     get_status u1 SECTOR_STORE_STATUS_NUM = (if bs = [] then SECTOR_STORE_EMPTY else SECTOR_STORE_USING) \<and>
     get_status u2 SECTOR_DIRTY_STATUS_NUM = SECTOR_DIRTY_FALSE"

definition both_cached :: "nat \<Rightarrow> node list \<Rightarrow> node list \<Rightarrow> sector_cache_node list \<Rightarrow> bool" where
  "both_cached cur ns bs t \<longleftrightarrow> sectors_wf t \<and> sc_addr ` set t \<subseteq> {word_of_nat cur, word_of_nat (other_sector cur), FAILED_ADDR} \<and>
     sector_cached cur ns t \<and> sector_cached (other_sector cur) bs t \<and> (bs = [] \<longrightarrow> word_of_nat (other_sector cur) \<notin> sc_addr ` set t)"

definition moving :: "nat \<Rightarrow> node list \<Rightarrow> node list \<Rightarrow> ef \<Rightarrow> bool" where
  "moving cur ns bs s \<longleftrightarrow> sector_base cur \<and> (\<exists>t1 t2 u1 u2. gc_hdrs cur t1 t2 u1 u2 bs (ef_nor s)) \<and> \<not> dead (ef_nor s) \<and> ns \<noteq> [] \<and>
     holds_nodes cur ns (ef_nor s) \<and> holds_nodes (other_sector cur) bs (ef_nor s) \<and> both_cached cur ns bs (sector_cache s) \<and>
     gc_request s \<and> init_ok s \<and> \<not> in_recovery_check s"

lemma movingD:
  assumes "moving cur ns bs s"
  shows "sector_base cur" "\<not> dead (ef_nor s)" "ns \<noteq> []" "holds_nodes cur ns (ef_nor s)" "holds_nodes (other_sector cur) bs (ef_nor s)"
    "both_cached cur ns bs (sector_cache s)" "gc_request s" "init_ok s" "\<not> in_recovery_check s"
  using assms by (simp_all add: moving_def)

lemma other_base:
  assumes "sector_base cur"
  shows "sector_base (other_sector cur)" "other_sector (other_sector cur) = cur" "(word_of_nat cur :: u32) \<noteq> word_of_nat (other_sector cur)"
    "(word_of_nat cur :: u32) \<noteq> FAILED_ADDR" "(word_of_nat (other_sector cur) :: u32) \<noteq> FAILED_ADDR"
    "cur + SECTOR_SIZE \<le> other_sector cur \<or> other_sector cur + SECTOR_SIZE \<le> cur"
  using assms by (auto simp: sector_base_def other_sector_def)

lemma both_cached_upd:
  assumes t: "both_cached cur ns bs t" and cur: "sector_base cur"
  shows "holds_nodes cur ns' f \<Longrightarrow> both_cached cur ns' bs (update_sector_cache (word_of_nat cur) (word_of_nat (free_at cur ns')) t)"
    "holds_nodes (other_sector cur) bs' f \<Longrightarrow> bs' \<noteq> [] \<Longrightarrow>
      both_cached cur ns bs' (update_sector_cache (word_of_nat (other_sector cur)) (word_of_nat (free_at (other_sector cur) bs')) t)"
proof -
  note o = other_base [OF cur]
  have t': "sectors_wf t" "sc_addr ` set t \<subseteq> {word_of_nat cur, word_of_nat (other_sector cur), FAILED_ADDR}"
    using t by (simp_all add: both_cached_def)
  show "both_cached cur ns' bs (update_sector_cache (word_of_nat cur) (word_of_nat (free_at cur ns')) t)" if "holds_nodes cur ns' f"
  proof -
    have "in_sector (word_of_nat cur) (word_of_nat (free_at cur ns'))"
      using that by (intro in_sector_words(1) [OF cur]) (simp_all add: holds_nodes_def free_at_sum)
    then show ?thesis using sector_cache_upd [OF t' cur, where em = "word_of_nat (free_at cur ns')"]
        sector_cache_upd(4) [OF t' cur o(5), of "word_of_nat (free_at cur ns')"] t o
      by (auto simp: both_cached_def sector_cached_def)
  qed
  show "both_cached cur ns bs' (update_sector_cache (word_of_nat (other_sector cur)) (word_of_nat (free_at (other_sector cur) bs')) t)"
    if "holds_nodes (other_sector cur) bs' f" "bs' \<noteq> []"
  proof -
    have "in_sector (word_of_nat (other_sector cur)) (word_of_nat (free_at (other_sector cur) bs'))"
      using that by (intro in_sector_words(1) [OF o(1)]) (simp_all add: holds_nodes_def free_at_sum)
    then show ?thesis using that(2) sector_cache_upd [OF t' o(1), where em = "word_of_nat (free_at (other_sector cur) bs')"]
        sector_cache_upd(4) [OF t' o(1,4), of "word_of_nat (free_at (other_sector cur) bs')"] t o
      by (auto simp: both_cached_def sector_cached_def)
  qed
qed

lemma moving_cache: "moving cur ns bs s \<Longrightarrow> both_cached cur ns bs t \<Longrightarrow> moving cur ns bs (s\<lparr>sector_cache := t\<rparr>)"
  by (simp add: moving_def)

text \<open>Reading a sector changes at most the sector cache.\<close>

definition recached :: "ef \<Rightarrow> ef \<Rightarrow> bool" where
  "recached s s' \<longleftrightarrow> s' = s\<lparr>sector_cache := sector_cache s'\<rparr>"

lemma recached_refl [simp]: "recached s s" "recached s (cache_sector a b s)"
  by (simp_all add: recached_def cache_sector_def)

lemma recached_trans: "recached s s' \<Longrightarrow> recached s' s'' \<Longrightarrow> recached s s''"
  unfolding recached_def by (metis (no_types, lifting) ef.ext_inject ef.surjective ef.update_convs(3))

lemma recached_nor: "recached s s' \<Longrightarrow> ef_nor s' = ef_nor s"
  unfolding recached_def by (metis ef.ext_inject ef.surjective ef.update_convs(3))

text \<open>The sector that is collected is not used for a new node, the other one is.\<close>

lemma visit_collected:
  assumes mv: "moving cur ns bs s" and st: "status = SECTOR_STORE_USING \<or> status = SECTOR_STORE_EMPTY"
  shows "\<exists>m' s'. visit_sec (alloc_env_cb sz) status True cur m a s = Some (False, m', a, s') \<and> single cur m' \<and> moving cur ns bs s' \<and> recached s s'"
proof -
  obtain t1 t2 u1 u2 where h: "gc_hdrs cur t1 t2 u1 u2 bs (ef_nor s)" using mv by (auto simp: moving_def)
  note d = movingD [OF mv]
  have hdr: "hdr_is cur t1 t2 (ef_nor s)" and gc: "get_status t2 4 = 3" and t1: "get_status t1 4 = 2 \<or> get_status t1 4 = 3"
    using h by (simp_all add: gc_hdrs_def)
  note plain = read_sector_plain [OF d(1) hdr, of m]
  show ?thesis
  proof (cases "get_status t1 4 = status")
    case True
    then have using_st: "get_status t1 4 = 2" using st t1 by auto
    have sc: "sector_cached cur ns (sector_cache s)" using d(6) by (simp add: both_cached_def)
    obtain s' where r: "read_sector_meta_data (word_of_nat cur) (meta cur t1 t2 m) True s = Some (EF_NO_ERR, using_meta cur t1 t2 ns (meta cur t1 t2 m), s')"
      "s' = s \<or> s' = cache_sector (word_of_nat cur) (word_of_nat (free_at cur ns)) s"
      using read_sector_using [OF d(1) hdr using_st d(3,4) sc] by blast
    have "moving cur ns bs s'" using r(2) mv moving_cache [OF mv both_cached_upd(1) [OF d(6,1,4)]] by (auto simp: cache_sector_def)
    moreover have "recached s s'" using r(2) by auto
    moreover have "visit_sec (alloc_env_cb sz) status True cur m a s = Some (False, using_meta cur t1 t2 ns (meta cur t1 t2 m), a, s')"
      using plain r(1) True gc by (simp add: visit_sec_def alloc_env_cb_def using_meta_def)
    ultimately show ?thesis by (auto simp: using_meta_def)
  next
    case False
    then show ?thesis using plain st mv by (auto simp: visit_sec_def)
  qed
qed

lemma visit_target:
  assumes mv: "moving cur ns bs s" and h: "gc_hdrs cur t1 t2 u1 u2 bs (ef_nor s)"
    and fit: "free_at (other_sector cur) bs + sz < other_sector cur + SECTOR_SIZE"
  shows "\<exists>m' s'. visit_sec (alloc_env_cb (word_of_nat sz)) (if bs = [] then SECTOR_STORE_EMPTY else SECTOR_STORE_USING) True (other_sector cur) m a s
      = Some (True, using_meta (other_sector cur) u1 u2 bs m', word_of_nat (free_at (other_sector cur) bs), s') \<and> moving cur ns bs s' \<and> recached s s'"
proof -
  let ?b = "other_sector cur"
  note d = movingD [OF mv] and o = other_base [OF movingD(1) [OF mv]]
  have hdr: "hdr_is ?b u1 u2 (ef_nor s)" and u: "get_status u1 4 = (if bs = [] then 1 else 2)" "get_status u2 4 = 1"
    using h by (simp_all add: gc_hdrs_def)
  note plain = read_sector_plain [OF o(1) hdr, of m]
  have small: "?b + SECTOR_SIZE \<le> 262144" using o(1) by (rule sector_base_words)
  have room: "word_of_nat sz < (word_of_nat (?b + SECTOR_SIZE - free_at ?b bs) :: u32)"
    using fit small by (subst u32_of_nat_less) auto
  have "\<exists>s'. read_sector_meta_data (word_of_nat ?b) (meta ?b u1 u2 m) True s
      = Some (EF_NO_ERR, using_meta ?b u1 u2 bs (meta ?b u1 u2 m), s') \<and> moving cur ns bs s' \<and> recached s s'"
  proof (cases "bs = []")
    case True
    then have "read_sector_meta_data (word_of_nat ?b) (meta ?b u1 u2 m) True s = Some (EF_NO_ERR, using_meta ?b u1 u2 bs (meta ?b u1 u2 m), s)"
      using read_sector_hdr_is [OF o(1) hdr, of "meta ?b u1 u2 m"] u by (simp add: read_sector_meta_data_def using_meta_def free_at_def Let_def)
    then show ?thesis using mv by auto
  next
    case False
    have sc: "sector_cached ?b bs (sector_cache s)" using d(6) by (simp add: both_cached_def)
    obtain s' where r: "read_sector_meta_data (word_of_nat ?b) (meta ?b u1 u2 m) True s = Some (EF_NO_ERR, using_meta ?b u1 u2 bs (meta ?b u1 u2 m), s')"
      "s' = s \<or> s' = cache_sector (word_of_nat ?b) (word_of_nat (free_at ?b bs)) s"
      using read_sector_using [OF o(1) hdr _ False d(5) sc] u False by auto
    have "moving cur ns bs s'" using r(2) mv moving_cache [OF mv both_cached_upd(2) [OF d(6,1,5) False]] by (auto simp: cache_sector_def)
    moreover have "recached s s'" using r(2) by auto
    ultimately show ?thesis using r(1) by blast
  qed
  then obtain s' where r: "read_sector_meta_data (word_of_nat ?b) (meta ?b u1 u2 m) True s = Some (EF_NO_ERR, using_meta ?b u1 u2 bs (meta ?b u1 u2 m), s')"
    "moving cur ns bs s'" "recached s s'" by blast
  then have "visit_sec (alloc_env_cb (word_of_nat sz)) (if bs = [] then 1 else 2) True ?b m a s
      = Some (True, using_meta ?b u1 u2 bs (meta ?b u1 u2 m), word_of_nat (free_at ?b bs), s')"
    using plain u room by (simp add: visit_sec_def alloc_env_cb_def using_meta_def)
  then show ?thesis using r(2,3) by blast
qed

lemma statistics_moving:
  assumes mv: "moving cur ns bs s"
  shows "\<exists>m' u. sector_iterator m SECTOR_STORE_UNUSED (0, 0) sector_statistics_cb False s = Some (m', (if bs = [] then 1 else 0, u), s) \<and>
    (bs \<noteq> [] \<longrightarrow> 0 < u)"
proof -
  obtain t1 t2 u1 u2 where h: "gc_hdrs cur t1 t2 u1 u2 bs (ef_nor s)" using mv by (auto simp: moving_def)
  note d = movingD [OF mv] and o = other_base [OF movingD(1) [OF mv]]
  define ca where "ca = (if get_status t1 4 = 2 then 1 else 0 :: nat)"
  define cb where "cb = (if bs = [] then (1, 0) else (0, 1) :: nat \<times> nat)"
  have a: "visit_sec sector_statistics_cb SECTOR_STORE_UNUSED False cur m (e, u) s = Some (False, meta cur t1 t2 m, (e, u + ca), s)" for m e u
    using read_sector_plain [OF d(1), of t1 t2 s m] h by (auto simp: visit_sec_def gc_hdrs_def sector_statistics_cb_def ca_def)
  have b: "visit_sec sector_statistics_cb SECTOR_STORE_UNUSED False (other_sector cur) m (e, u) s
      = Some (False, meta (other_sector cur) u1 u2 m, (e + fst cb, u + snd cb), s)" for m e u
    using read_sector_plain [OF o(1), of u1 u2 s m] h by (auto simp: visit_sec_def gc_hdrs_def sector_statistics_cb_def cb_def)
  have "\<exists>m'. sector_iterator m SECTOR_STORE_UNUSED (0, 0) sector_statistics_cb False s = Some (m', (fst cb, ca + snd cb), s)"
  proof (cases "cur = 0")
    case True
    then have "other_sector cur = SECTOR_SIZE" by (simp add: other_sector_def)
    then show ?thesis using sector_iterator_two [OF a [of _ 0 0, unfolded True] _ b [of _ 0 "0 + ca", unfolded \<open>other_sector cur = SECTOR_SIZE\<close>]] by simp
  next
    case False
    then have c: "cur = SECTOR_SIZE" "other_sector cur = 0" using d(1) by (simp_all add: sector_base_def other_sector_def)
    show ?thesis using sector_iterator_two [OF b [of _ 0 0, unfolded c(2)] _ a [of _ "0 + fst cb" "0 + snd cb", unfolded c(1)]] by (simp add: add.commute)
  qed
  then show ?thesis by (auto simp: cb_def)
qed

lemma alloc_moving:
  assumes mv: "moving cur ns bs s" and h: "gc_hdrs cur t1 t2 u1 u2 bs (ef_nor s)"
    and fit: "free_at (other_sector cur) bs + sz < other_sector cur + SECTOR_SIZE"
  shows "\<exists>m' s'. alloc_env m (word_of_nat sz) s = Some (word_of_nat (free_at (other_sector cur) bs), using_meta (other_sector cur) u1 u2 bs m', s') \<and>
    moving cur ns bs s' \<and> recached s s'"
proof -
  let ?b = "other_sector cur" and ?Q = "\<lambda>s'. moving cur ns bs s' \<and> recached s s'"
  note d = movingD [OF mv] and o = other_base [OF movingD(1) [OF mv]]
  have q: "?Q s" using mv by simp
  have small: "?b + SECTOR_SIZE \<le> 262144" using o(1) by (rule sector_base_words)
  have ne: "(word_of_nat (free_at ?b bs) :: u32) \<noteq> FAILED_ADDR" using fit small by (intro u32_not_failed) simp
  have pass: "\<exists>m' s2. visit_sec (alloc_env_cb (word_of_nat sz)) status True cur m FAILED_ADDR s1 = Some (False, m', FAILED_ADDR, s2) \<and> single cur m' \<and> ?Q s2"
    if "?Q s1" "status = SECTOR_STORE_USING \<or> status = SECTOR_STORE_EMPTY" for m s1 status
    using visit_collected [of cur ns bs s1 status "word_of_nat sz" m FAILED_ADDR] that recached_trans by blast
  have stop: "\<exists>m' s2. visit_sec (alloc_env_cb (word_of_nat sz)) (if bs = [] then SECTOR_STORE_EMPTY else SECTOR_STORE_USING) True ?b m FAILED_ADDR s1
      = Some (True, m', word_of_nat (free_at ?b bs), s2) \<and> single ?b m' \<and> ?Q s2 \<and> (\<exists>m. m' = using_meta ?b u1 u2 bs m)" if "?Q s1" for m s1
    using visit_target [of cur ns bs s1 t1 t2 u1 u2 sz m FAILED_ADDR] that h fit recached_nor [of s s1] recached_trans [of s s1] by (force simp: using_meta_def)
  have place: "\<exists>m' s2. sector_iterator m (if bs = [] then SECTOR_STORE_EMPTY else SECTOR_STORE_USING) FAILED_ADDR (alloc_env_cb (word_of_nat sz)) True s1
      = Some (m', word_of_nat (free_at ?b bs), s2) \<and> ?Q s2 \<and> (\<exists>m. m' = using_meta ?b u1 u2 bs m)" if "?Q s1" for m s1
    using that by (intro iterate_stop [OF d(1)] pass stop) auto
  obtain m1 u where st: "sector_iterator m SECTOR_STORE_UNUSED (0, 0) sector_statistics_cb False s = Some (m1, (if bs = [] then 1 else 0, u), s)"
    "bs \<noteq> [] \<longrightarrow> 0 < u" using statistics_moving [OF mv, of m] by blast
  show ?thesis
  proof (cases "bs = []")
    case True
    have skip: "\<exists>m' s2. visit_sec (alloc_env_cb (word_of_nat sz)) SECTOR_STORE_USING True ?b m FAILED_ADDR s1 = Some (False, m', FAILED_ADDR, s2) \<and>
        single ?b m' \<and> ?Q s2" if "?Q s1" for m s1
      using read_sector_plain [OF o(1), of u1 u2 s1 m] h recached_nor [of s s1] that True by (auto simp: visit_sec_def gc_hdrs_def)
    have "\<exists>m2 s2. sector_iterator m1 SECTOR_STORE_USING FAILED_ADDR (alloc_env_cb (word_of_nat sz)) True s = Some (m2, FAILED_ADDR, s2) \<and> ?Q s2"
      using q by (intro iterate_pass [OF d(1)] pass skip) auto
    then obtain m2 s2 where two: "(if u > 0 then sector_iterator m1 SECTOR_STORE_USING FAILED_ADDR (alloc_env_cb (word_of_nat sz)) True s
        else Some (m1, FAILED_ADDR, s)) = Some (m2, FAILED_ADDR, s2)" "?Q s2" using q by (cases "u > 0") auto
    obtain m3 s3 where "sector_iterator m2 SECTOR_STORE_EMPTY FAILED_ADDR (alloc_env_cb (word_of_nat sz)) True s2
        = Some (using_meta ?b u1 u2 bs m3, word_of_nat (free_at ?b bs), s3)" "?Q s3"
      using place [OF two(2), of m2] True by auto
    moreover have "gc_request s2" using two(2) by (simp add: moving_def)
    ultimately show ?thesis using st(1) two(1) True by (auto simp: alloc_env_def)
  next
    case False
    then show ?thesis using place [OF q, of m1] st ne by (auto simp: alloc_env_def)
  qed
qed

section \<open>Moving a node\<close>

lemma gc_hdrs_cong:
  assumes "gc_hdrs cur t1 t2 u1 u2 bs f" "\<And>p. cur \<le> p \<Longrightarrow> p < cur + 20 \<Longrightarrow> cells f' p = cells f p"
    "\<And>p. other_sector cur \<le> p \<Longrightarrow> p < other_sector cur + 20 \<Longrightarrow> cells f' p = cells f p"
  shows "gc_hdrs cur t1 t2 u1 u2 bs f'"
  using assms hdr_is_cong [of cur f' f] hdr_is_cong [of "other_sector cur" f' f] by (simp add: gc_hdrs_def)

text \<open>The status of a node of the collected sector.\<close>

lemma moving_touch:
  assumes mv: "moving cur (xs @ n # ys) bs s" and j: "0 < j" "j < 6" and p: "p = layout_end (cur + 20) xs"
  defines "s' \<equiv> s\<lparr>ef_nor := snd (nor_write (p + (j - 1)) [0] (ef_nor s))\<rparr>"
  shows "put_status (word_of_nat p) ENV_STATUS_NUM j s = (EF_NO_ERR, s')" "moving cur (xs @ touch j n # ys) bs s'"
    "dirty_status cur (ef_nor s') = SECTOR_DIRTY_GC" "\<And>t1 t2 u1 u2. gc_hdrs cur t1 t2 u1 u2 bs (ef_nor s) \<Longrightarrow> gc_hdrs cur t1 t2 u1 u2 bs (ef_nor s')"
proof -
  note d = movingD [OF mv] and o = other_base [OF movingD(1) [OF mv]]
  have mem: "(p, n) \<in> set (placed (cur + 20) (xs @ n # ys))" unfolding p by simp
  note b = placed_bounds [OF d(4) mem]
  have small: "cur + SECTOR_SIZE \<le> 262144" using d(1) by (rule sector_base_words)
  have range: "cur + 20 \<le> p" "p + 29 \<le> cur + SECTOR_SIZE" using b(1,2) node_size_ge [OF b(3)] d(4) by (simp_all add: holds_nodes_def)
  have "unat (word_of_nat p :: u32) = p" using range small by (intro unat_u32) simp
  then show "put_status (word_of_nat p) ENV_STATUS_NUM j s = (EF_NO_ERR, s')"
    using put_status_eq [OF d(2) j, of "word_of_nat p"] range small by (simp add: s'_def)
  have frame: "cells (ef_nor s') q = cells (ef_nor s) q" if "q < cur + 20 \<or> cur + SECTOR_SIZE \<le> q" for q
    using that range j cells_write [of q "p + (j - 1)" "[0]" "ef_nor s"] by (auto simp: s'_def)
  show hdrs: "gc_hdrs cur t1 t2 u1 u2 bs (ef_nor s')" if "gc_hdrs cur t1 t2 u1 u2 bs (ef_nor s)" for t1 t2 u1 u2
    using that by (rule gc_hdrs_cong) (use frame o(6) in auto)
  obtain t1 t2 u1 u2 where "gc_hdrs cur t1 t2 u1 u2 bs (ef_nor s)" using mv by (auto simp: moving_def)
  note h' = hdrs [OF this]
  have "holds_nodes cur (xs @ touch j n # ys) (ef_nor s')" unfolding s'_def p using holds_touch [OF d(4,2) j] by simp
  moreover have "holds_nodes (other_sector cur) bs (ef_nor s')"
    using d(5) frame o(6) by (subst holds_nodes_cong [where f = "ef_nor s"]) auto
  moreover have "both_cached cur (xs @ touch j n # ys) bs (sector_cache s')"
    using d(6) by (simp add: both_cached_def sector_cached_def free_at_def s'_def)
  moreover have "\<exists>t1 t2 u1 u2. gc_hdrs cur t1 t2 u1 u2 bs (ef_nor s')" using h' by blast
  ultimately show "moving cur (xs @ touch j n # ys) bs s'" using mv by (simp add: moving_def s'_def)
  show "dirty_status cur (ef_nor s') = SECTOR_DIRTY_GC"
    using hdr_is_status(2) [of cur t1 t2 "ef_nor s'"] h' by (simp add: gc_hdrs_def)
qed

lemma del_moving:
  assumes mv: "moving cur (xs @ n # ys) bs s" and env: "addr_start env = word_of_nat p" "p = layout_end (cur + 20) xs"
    and last: "complete \<longrightarrow> last_is_complete_del s"
  defines "j \<equiv> if complete then ENV_DELETED else ENV_PRE_DELETE"
  shows "del_found key env complete s
      = (EF_NO_ERR, s\<lparr>ef_nor := snd (nor_write (p + (j - 1)) [0] (ef_nor s)), last_is_complete_del := \<not> complete\<rparr>)"
    "moving cur (xs @ touch j n # ys) bs (s\<lparr>ef_nor := snd (nor_write (p + (j - 1)) [0] (ef_nor s)), last_is_complete_del := \<not> complete\<rparr>)"
proof -
  note d = movingD [OF mv]
  have j: "0 < j" "j < 6" by (simp_all add: j_def)
  note t = moving_touch [OF mv j env(2)]
  have mem: "(p, n) \<in> set (placed (cur + 20) (xs @ n # ys))" unfolding env(2) by simp
  note b = placed_bounds [OF d(4) mem]
  have align: "align_sector (word_of_nat p) = word_of_nat cur"
    using b(1,2) node_size_ge [OF b(3)] d(4) by (intro align_sector_word [OF d(1)]) (simp_all add: holds_nodes_def)
  have w: "unat (word_of_nat cur + 3 :: u32) = cur + 3"
    using unat_u32 [of "cur + 3"] sector_base_words(4) [OF d(1)] by simp
  show "del_found key env complete s
      = (EF_NO_ERR, s\<lparr>ef_nor := snd (nor_write (p + (j - 1)) [0] (ef_nor s)), last_is_complete_del := \<not> complete\<rparr>)"
    using t(1,3) align env(1) w last by (cases complete) (simp_all add: del_found_def j_def Let_def)
  show "moving cur (xs @ touch j n # ys) bs (s\<lparr>ef_nor := snd (nor_write (p + (j - 1)) [0] (ef_nor s)), last_is_complete_del := \<not> complete\<rparr>)"
    using t(2) by (simp add: moving_def)
qed

fun renew :: "node \<Rightarrow> node" where
  "renew (tab, key, v) = (written_tab, key, v)"

lemma renew_simps [simp]:
  "node_size (renew n) = node_size n" "node_key (renew n) = node_key n" "node_value (renew n) = node_value n" "node_status (renew n) = ENV_WRITE"
  "node_ok n \<Longrightarrow> node_ok (renew n)" "(written_tab, node_key n, node_value n) = renew n"
  by (cases n; simp add: written_status)+

text \<open>The target is opened with its first node.\<close>

lemma open_target:
  assumes mv: "moving cur ns bs s" and h: "gc_hdrs cur t1 t2 u1 u2 bs (ef_nor s)" and sec: "sector = using_meta (other_sector cur) u1 u2 bs m"
    and room: "free_at (other_sector cur) bs + sz + 60 \<le> other_sector cur + SECTOR_SIZE"
  shows "\<exists>u1' f'. update_sec_status sector (word_of_nat sz) s = (EF_NO_ERR, False, s\<lparr>ef_nor := f'\<rparr>) \<and> \<not> dead f' \<and>
    (\<forall>x. gc_hdrs cur t1 t2 u1' u2 (bs @ [x]) f') \<and> holds_nodes cur ns f' \<and> holds_nodes (other_sector cur) bs f'"
proof (cases "bs = []")
  case False
  then have "update_sec_status sector (word_of_nat sz) s = (EF_NO_ERR, False, s)"
    using h other_base(1) [OF movingD(1) [OF mv]] room by (intro update_sec_status_room [OF sec]) (simp_all add: gc_hdrs_def)
  then show ?thesis using False h movingD [OF mv] by (intro exI [of _ u1] exI [of _ "ef_nor s"]) (simp add: gc_hdrs_def)
next
  case True
  let ?b = "other_sector cur" and ?f = "snd (nor_write (other_sector cur + 1) [0] (ef_nor s))"
  note d = movingD [OF mv] and o = other_base [OF movingD(1) [OF mv]]
  have small: "?b + SECTOR_SIZE \<le> 262144" using o(1) by (rule sector_base_words)
  have "unat (word_of_nat ?b :: u32) = ?b" using small by (intro unat_u32) simp
  then have "update_sec_status sector (word_of_nat sz) s = (EF_NO_ERR, False, s\<lparr>ef_nor := ?f\<rparr>)"
    using True h sec small put_status_eq [OF d(2), of 2 4 "word_of_nat ?b"] by (simp add: update_sec_status_def using_meta_def gc_hdrs_def)
  moreover have "hdr_is ?b (u1[1 := 0]) u2 ?f" "get_status (u1[1 := 0]) 4 = 2"
    using hdr_is_touch(1) [of ?b u1 u2 "ef_nor s" 1] get_status_update [of 2 4 u1] h True d(2) by (simp_all add: gc_hdrs_def hdr_is_def)
  moreover have frame: "cells ?f q = cells (ef_nor s) q" if "q < ?b \<or> ?b + 20 \<le> q" for q using that by (intro cells_write) auto
  have "hdr_is cur t1 t2 ?f" using h frame o(6) by (subst hdr_is_cong [where f = "ef_nor s"]) (auto simp: gc_hdrs_def)
  moreover have "holds_nodes cur ns ?f" using d(4) frame o(6) by (subst holds_nodes_cong [where f = "ef_nor s"]) auto
  moreover have "holds_nodes ?b bs ?f" using d(5) frame by (subst holds_nodes_cong [where f = "ef_nor s"]) auto
  ultimately show ?thesis using h d(2) by (intro exI [of _ "u1[1 := 0]"] exI [of _ ?f]) (simp add: gc_hdrs_def)
qed

lemma copy_touched: "copy_env (node_env env p (touch j n)) = copy_env (node_env env p n)" "renew (touch j n) = renew n"
  by (cases n; simp add: copy_env_def fun_eq_iff)+

lemma copy_moving:
  assumes mv: "moving cur ns bs s" and h: "gc_hdrs cur t1 t2 u1 u2 bs (ef_nor s)" and sec: "sector = using_meta (other_sector cur) u1 u2 bs m"
    and n: "(p, n) \<in> set (placed (cur + 20) ns)"
    and room: "free_at (other_sector cur) bs + node_size n + 60 \<le> other_sector cur + SECTOR_SIZE"
  shows "\<exists>s'. copy_env (node_env env p n) sector (word_of_nat (free_at (other_sector cur) bs)) s = (EF_NO_ERR, s') \<and> moving cur ns (bs @ [renew n]) s' \<and>
    env_cache s' = update_env_cache (node_key n) (word_of_nat (free_at (other_sector cur) bs)) (env_cache s) \<and>
    last_is_complete_del s' = last_is_complete_del s"
proof -
  let ?b = "other_sector cur" and ?e = "free_at (other_sector cur) bs"
  note d = movingD [OF mv] and o = other_base [OF movingD(1) [OF mv]]
  obtain u1' f1 where f1: "update_sec_status sector (word_of_nat (node_size n)) s = (EF_NO_ERR, False, s\<lparr>ef_nor := f1\<rparr>)" "\<not> dead f1"
    "\<And>x. gc_hdrs cur t1 t2 u1' u2 (bs @ [x]) f1" "holds_nodes cur ns f1" "holds_nodes ?b bs f1"
    using open_target [OF mv h sec room] by blast
  note b = placed_bounds [OF f1(4) n]
  let ?f = "apply_writes (node_program ?e (node_key n) (node_value n)) f1"
  let ?t = "update_sector_cache (word_of_nat ?b) (word_of_nat (?e + node_size n)) (sector_cache s)"
  let ?s = "s\<lparr>ef_nor := ?f, sector_cache := ?t, env_cache := update_env_cache (node_key n) (word_of_nat ?e) (env_cache s)\<rparr>"
  have small: "cur + SECTOR_SIZE \<le> 262144" using d(1) by (rule sector_base_words)
  have fin: "?b + 20 \<le> ?e" "free_at cur ns < cur + SECTOR_SIZE" using f1(4) by (simp_all add: free_at_sum holds_nodes_def)
  have size: "node_size n = 28 + length (node_key n) + length (node_value n)" by (cases n) simp
  have copy: "copy_env (node_env env p n) sector (word_of_nat ?e) s = (EF_NO_ERR, ?s)"
    using copy_env_node [OF f1(1) b(3), of p ?b ?e env] b(1,2,4) f1(2) o(1,6) fin room small by auto
  have free: "free_at ?b (bs @ [renew n]) = ?e + node_size n" by (simp add: free_at_def)
  have nodes: "holds_nodes ?b (bs @ [renew n]) ?f"
    using holds_nodes_append [OF f1(5,2), of "node_key n" "node_value n"] b(3) room size by simp
  have frame: "cells ?f q = cells f1 q" if "q < ?b + 20 \<or> ?b + SECTOR_SIZE \<le> q" for q
    using that fin room size by (intro node_program_frame) auto
  have "gc_hdrs cur t1 t2 u1' u2 (bs @ [renew n]) ?f" by (rule gc_hdrs_cong [OF f1(3)]) (use frame o(6) in auto)
  moreover have "holds_nodes cur ns ?f" using f1(4) frame o(6) by (subst holds_nodes_cong [where f = f1]) auto
  moreover have "\<not> dead ?f" using f1(2) by (simp add: apply_writes_def node_program_def)
  moreover have "both_cached cur ns (bs @ [renew n]) ?t" using both_cached_upd(2) [OF d(6,1) nodes] by (simp add: free)
  ultimately have "moving cur ns (bs @ [renew n]) ?s" using mv nodes by (auto simp: moving_def)
  then show ?thesis using copy by (intro exI [of _ ?s]) simp
qed

text \<open>The whole step: the node in use is marked, copied, and deleted; the cache leads to the copy.\<close>

lemma move_env_result:
  assumes mv: "moving cur (xs @ n # ys) bs s" and n: "node_status n = ENV_WRITE" "p = layout_end (cur + 20) xs"
    and cache: "cached_in (placed (cur + 20) (xs @ n # ys) @ placed (other_sector cur + 20) bs) (env_cache s)"
    and room: "free_at (other_sector cur) bs + node_size n + 60 \<le> other_sector cur + SECTOR_SIZE"
  defines "ns' \<equiv> xs @ touch ENV_DELETED (touch ENV_PRE_DELETE n) # ys"
  shows "\<exists>s'. move_env (node_env env p n) s = Some (EF_NO_ERR, s') \<and> moving cur ns' (bs @ [renew n]) s' \<and> \<not> last_is_complete_del s' \<and>
    cached_in (placed (cur + 20) ns' @ placed (other_sector cur + 20) (bs @ [renew n])) (env_cache s')"
proof -
  let ?b = "other_sector cur" and ?e = "free_at (other_sector cur) bs" and ?n1 = "touch ENV_PRE_DELETE n"
  note d = movingD [OF mv] and o = other_base [OF movingD(1) [OF mv]]
  define s1 where "s1 = s\<lparr>ef_nor := snd (nor_write (p + 2) [0] (ef_nor s)), last_is_complete_del := True\<rparr>"
  have d1: "del_found None (node_env env p n) False s = (EF_NO_ERR, s1)" "moving cur (xs @ ?n1 # ys) bs s1"
    using del_moving [OF mv _ n(2), where complete = False and env = "node_env env p n"] by (simp_all add: s1_def)
  obtain t1 t2 u1 u2 where h: "gc_hdrs cur t1 t2 u1 u2 bs (ef_nor s1)" using d1(2) by (auto simp: moving_def)
  obtain m s2 where a: "alloc_env no_sector (word_of_nat (node_size n)) s1 = Some (word_of_nat ?e, using_meta ?b u1 u2 bs m, s2)"
    "moving cur (xs @ ?n1 # ys) bs s2" "recached s1 s2"
    using alloc_moving [OF d1(2) h, of "node_size n" no_sector] room by auto
  have ne: "(word_of_nat ?e :: u32) \<noteq> FAILED_ADDR" using room sector_base_words(4) [OF o(1)] by (intro u32_not_failed) simp
  have s2: "last_is_complete_del s2" "env_cache s2 = env_cache s" "ef_nor s2 = ef_nor s1"
    using a(3) by (auto simp: recached_def s1_def dest: arg_cong [where f = last_is_complete_del] arg_cong [where f = env_cache] arg_cong [where f = ef_nor])
  have "(p, ?n1) \<in> set (placed (cur + 20) (xs @ ?n1 # ys))" by (simp add: n(2))
  then obtain s3 where c: "copy_env (node_env env p n) (using_meta ?b u1 u2 bs m) (word_of_nat ?e) s2 = (EF_NO_ERR, s3)"
    "moving cur (xs @ ?n1 # ys) (bs @ [renew n]) s3" "env_cache s3 = update_env_cache (node_key n) (word_of_nat ?e) (env_cache s2)"
    "last_is_complete_del s3 = last_is_complete_del s2"
    using copy_moving [OF a(2) h [folded s2(3)] refl, of p ?n1 env m] room by (auto simp: copy_touched)
  define s4 where "s4 = s3\<lparr>ef_nor := snd (nor_write (p + 3) [0] (ef_nor s3)), last_is_complete_del := False\<rparr>"
  have d2: "del_found None (node_env env p n) True s3 = (EF_NO_ERR, s4)" "moving cur ns' (bs @ [renew n]) s4"
    using del_moving [OF c(2) _ n(2), where complete = True and env = "node_env env p n"] c(4) s2(1) by (simp_all add: s4_def ns'_def)
  have "move_env (node_env env p n) s = Some (EF_NO_ERR, s4)"
    using d1(1) a(1) ne n(1) c(1) d2(1) movingD(9) [OF a(2)] by (simp add: move_env_def)
  moreover have "cached_in (placed (cur + 20) ns' @ placed (?b + 20) (bs @ [renew n])) (env_cache s4)"
  proof -
    let ?L = "placed (cur + 20) ns' @ placed (?b + 20) (bs @ [renew n])"
    have "cached_but (crc_of_name (node_key n)) (placed (cur + 20) ns' @ placed (?b + 20) bs) (env_cache s)"
      using cached_but_touch [of ?n1 "cur + 20" xs ys _ _ ENV_DELETED] cached_but_touch [of n "cur + 20" xs ys _ _ ENV_PRE_DELETE]
        cached_weaken [OF cache] by (simp add: ns'_def)
    then have "cached_but (crc_of_name (node_key n)) ?L (env_cache s)" by (rule cached_mono(2) [rotated]) auto
    moreover have "leads ?L (crc_of_name (node_key n)) (word_of_nat ?e)"
      unfolding leads_def by (intro exI [of _ ?e] exI [of _ "renew n"]) (simp add: free_at_def)
    ultimately show ?thesis using c(3) s2(2) by (simp add: s4_def cached_update)
  qed
  ultimately show ?thesis using d2(2) by (intro exI [of _ s4]) (simp add: s4_def)
qed

section \<open>Collecting a sector\<close>

lemma next_touched: "get_next_env_addr sector (node_env env p (touch j n)) = get_next_env_addr sector (node_env env p n)"
  by (cases n) (simp add: get_next_env_addr_def fun_eq_iff)

lemma next_moving:
  assumes mv: "moving cur (xs @ n # ys) bs s" and sec: "sec_addr sector = word_of_nat cur" "store sector \<noteq> SECTOR_STORE_EMPTY"
  shows "get_next_env_addr sector (node_env env (layout_end (cur + 20) xs) n) s
    = (if ys = [] then FAILED_ADDR else word_of_nat (layout_end (cur + 20) (xs @ [n])))"
  using movingD(4,6) [OF mv] next_of_node [OF movingD(1) [OF mv] sec, of "layout_end (cur + 20) xs" n ys s env] layout_end_ge [of "cur + 20" xs]
  by (simp add: holds_nodes_def both_cached_def sector_cached_def free_at_def)

text \<open>The nodes behind those that are done; only copies of them, and nothing else, are added to the target.\<close>

definition collected :: "nat \<Rightarrow> node list \<Rightarrow> node list \<Rightarrow> ef \<Rightarrow> bool" where
  "collected cur ns bs s \<longleftrightarrow> moving cur ns bs s \<and> \<not> last_is_complete_del s \<and>
     cached_in (placed (cur + 20) ns @ placed (other_sector cur + 20) bs) (env_cache s)"

lemma gc_env_result:
  assumes c: "collected cur (xs @ n # ys) bs s" and n: "node_status n = ENV_WRITE \<or> node_status n = ENV_DELETED"
    and room: "node_status n = ENV_WRITE \<longrightarrow> free_at (other_sector cur) bs + node_size n + 60 \<le> other_sector cur + SECTOR_SIZE"
  shows "\<exists>n' s'. gc_env (node_env env (layout_end (cur + 20) xs) n) () s = Some (False, (), s') \<and>
    collected cur (xs @ n' # ys) (bs @ map renew (live [n])) s' \<and> node_status n' = ENV_DELETED \<and> node_size n' = node_size n \<and>
    (\<forall>sector env p. get_next_env_addr sector (node_env env p n') = get_next_env_addr sector (node_env env p n))"
proof (cases "node_status n = ENV_WRITE")
  case True
  let ?n = "touch ENV_DELETED (touch ENV_PRE_DELETE n)"
  have mv: "moving cur (xs @ n # ys) bs s" using c by (simp add: collected_def)
  obtain s' where "move_env (node_env env (layout_end (cur + 20) xs) n) s = Some (EF_NO_ERR, s')" "collected cur (xs @ ?n # ys) (bs @ [renew n]) s'"
    using move_env_result [OF mv True refl] c room True by (auto simp: collected_def)
  moreover have "node_ok n" using placed_bounds(3) [OF movingD(4) [OF mv], of "layout_end (cur + 20) xs" n] by simp
  then have "node_status ?n = ENV_DELETED" using True by (rule deleted_status)
  ultimately show ?thesis using True by (intro exI [of _ ?n] exI [of _ s']) (simp add: gc_env_def next_touched)
next
  case False
  then show ?thesis using c n by (intro exI [of _ n] exI [of _ s]) (simp add: gc_env_def)
qed

lemma gc_walk:
  assumes sec: "sec_addr sector = word_of_nat cur" "store sector \<noteq> SECTOR_STORE_EMPTY"
  shows "\<lbrakk>collected cur (xs @ ys) bs s; \<forall>n \<in> set xs. node_status n = ENV_DELETED; \<forall>n \<in> set ys. node_status n = ENV_WRITE \<or> node_status n = ENV_DELETED;
      get_next_env_addr sector env s = (if ys = [] then FAILED_ADDR else word_of_nat (layout_end (cur + 20) xs));
      free_at (other_sector cur) (bs @ live ys) + 60 \<le> other_sector cur + SECTOR_SIZE\<rbrakk>
    \<Longrightarrow> \<exists>env' xs' s'. walk_envs gc_env sector env () s = Some (False, env', (), s') \<and> collected cur xs' (bs @ map renew (live ys)) s' \<and>
      (\<forall>n \<in> set xs'. node_status n = ENV_DELETED)"
proof (induction ys arbitrary: xs bs env s)
  case Nil
  then show ?case by (intro exI [of _ "env\<lparr>addr_start := FAILED_ADDR\<rparr>"] exI [of _ xs] exI [of _ s]) (simp add: walk_envs.simps)
next
  case (Cons n ys)
  let ?p = "layout_end (cur + 20) xs"
  have mv: "moving cur (xs @ n # ys) bs s" using Cons.prems(1) by (simp add: collected_def)
  note b = placed_bounds [OF movingD(4) [OF mv], of ?p n]
  have small: "?p < 2 ^ 32 - 1" using b(2) movingD(4) [OF mv] sector_base_words(4) [OF movingD(1) [OF mv]] by (simp add: holds_nodes_def)
  have ld: "load_env (env\<lparr>addr_start := word_of_nat ?p\<rparr>) s = Some (node_env env ?p n, s)"
    using b(3,4) small by (intro load_env_stored) simp_all
  have fit: "node_status n = ENV_WRITE \<longrightarrow> free_at (other_sector cur) bs + node_size n + 60 \<le> other_sector cur + SECTOR_SIZE"
    using Cons.prems(5) layout_end_ge [of "layout_end (other_sector cur + 20) bs + node_size n" "live ys"] by (auto simp: free_at_def)
  have st: "node_status n = ENV_WRITE \<or> node_status n = ENV_DELETED" using Cons.prems(3) by simp
  obtain n' s' where g: "gc_env (node_env env ?p n) () s = Some (False, (), s')" "collected cur (xs @ n' # ys) (bs @ map renew (live [n])) s'"
    "node_status n' = ENV_DELETED" "node_size n' = node_size n" "get_next_env_addr sector (node_env env ?p n') = get_next_env_addr sector (node_env env ?p n)"
    using gc_env_result [OF Cons.prems(1) st fit, of env] by blast
  have mv': "moving cur (xs @ n' # ys) (bs @ map renew (live [n])) s'" using g(2) by (simp add: collected_def)
  have nxt: "get_next_env_addr sector (node_env env ?p n) s' = (if ys = [] then FAILED_ADDR else word_of_nat (layout_end (cur + 20) (xs @ [n'])))"
    using next_moving [OF mv' sec, of env] g(5) by simp
  have "\<exists>env' xs' s''. walk_envs gc_env sector (node_env env ?p n) () s' = Some (False, env', (), s'') \<and>
      collected cur xs' ((bs @ map renew (live [n])) @ map renew (live ys)) s'' \<and> (\<forall>n \<in> set xs'. node_status n = ENV_DELETED)"
    using Cons.prems(2,3,5) g(2,3) nxt by (intro Cons.IH [of "xs @ [n']"]) (auto simp: free_at_def layout_end_def)
  then show ?case using Cons.prems(4) ld g(1) u32_not_failed [OF small]
    by (subst walk_envs.simps) (auto split: if_splits)
qed

lemma start_collecting:
  assumes kept: "store_kept cur ns s" and gc: "gc_request s" and dirty: "dirty_status cur (ef_nor s) = SECTOR_DIRTY_TRUE"
  shows "\<exists>s'. put_status (word_of_nat cur + 3) SECTOR_DIRTY_STATUS_NUM SECTOR_DIRTY_GC s = (EF_NO_ERR, s') \<and> collected cur ns [] s'"
proof -
  let ?f = "snd (nor_write (cur + 3 + 2) [0] (ef_nor s))" and ?b = "other_sector cur"
  have k: "kept cur ns s" using kept by (simp add: store_kept_def)
  note b = kept_base [OF k] and o = other_base [OF kept_base(1) [OF k]]
  obtain t1 t2 u1 u2 where two: "two_sectors cur t1 t2 u1 u2 (ef_nor s)" using k by (auto simp: kept_def)
  have hdr: "hdr_is cur t1 t2 (ef_nor s)" using two by (simp add: two_sectors_def)
  have w: "unat (word_of_nat cur + 3 :: u32) = cur + 3" using unat_u32 [of "cur + 3"] b(2) by simp
  have frame: "cells ?f q = cells (ef_nor s) q" if "q < cur \<or> cur + 20 \<le> q" for q using that by (intro cells_write) auto
  have "hdr_is cur t1 (t2[2 := 0]) ?f" using hdr_is_touch(2) [OF hdr b(4), of 2] by simp
  moreover have "get_status (t2[2 := 0]) 4 = 3"
    using get_status_update [of 3 4 t2] hdr dirty hdr_is_status(2) [OF hdr] by (simp add: hdr_is_def)
  moreover have "hdr_is ?b u1 u2 ?f" using two frame o(6) by (subst hdr_is_cong [where f = "ef_nor s"]) (auto simp: two_sectors_def)
  ultimately have "gc_hdrs cur t1 (t2[2 := 0]) u1 u2 [] ?f" using two by (simp add: gc_hdrs_def two_sectors_def)
  moreover have "holds_nodes cur ns ?f" using b(3) frame by (subst holds_nodes_cong [where f = "ef_nor s"]) auto
  moreover have "holds_nodes ?b [] ?f"
    using two frame o(6) by (subst holds_nodes_cong [where f = "ef_nor s"]) (auto simp: two_sectors_def holds_nodes_def free_at_def add.commute)
  moreover have "both_cached cur ns [] (sector_cache s)"
  proof -
    have sub: "sc_addr ` set (sector_cache s) \<subseteq> {word_of_nat cur, FAILED_ADDR}" using k by (simp add: kept_def)
    then have "get_sector_from_cache (word_of_nat ?b) (sector_cache s) = None"
      using o(3,5) by (force simp: get_sector_from_cache_def find_None_iff)
    moreover have "word_of_nat ?b \<notin> sc_addr ` set (sector_cache s)" using sub o(3,5) by auto
    ultimately show ?thesis using k sub by (auto simp: both_cached_def kept_def sector_cached_def)
  qed
  ultimately have "moving cur ns [] (s\<lparr>ef_nor := ?f\<rparr>)" using k b(1,4) gc by (auto simp: moving_def kept_def)
  then have "collected cur ns [] (s\<lparr>ef_nor := ?f\<rparr>)" using kept by (simp add: collected_def store_kept_def env_cached_in)
  moreover have "put_status (word_of_nat cur + 3) 4 3 s = (EF_NO_ERR, s\<lparr>ef_nor := ?f\<rparr>)"
    using put_status_eq [OF b(4), of 3 4 "word_of_nat cur + 3"] w b(2) by simp
  ultimately show ?thesis by blast
qed

lemma subset_without: "X \<subseteq> insert a Y \<Longrightarrow> Y \<subseteq> {a, b, c} \<Longrightarrow> a \<notin> X \<Longrightarrow> X \<subseteq> {b, c}"
  by blast

lemma subset_lone: "X \<subseteq> insert a Y \<Longrightarrow> X \<subseteq> {b, c} \<Longrightarrow> a \<noteq> b \<Longrightarrow> b \<notin> Y \<Longrightarrow> X \<subseteq> {c}"
  by blast

text \<open>The collected sector is formatted and leaves the cache.\<close>

lemma format_collected:
  assumes c: "collected cur xs bs s" and xs: "\<forall>n \<in> set xs. node_status n = ENV_DELETED"
  shows "\<exists>u1 u2 f t. format_sector (word_of_nat cur) SECTOR_NOT_COMBINED s = (EF_NO_ERR, s\<lparr>ef_nor := f, sector_cache := t\<rparr>) \<and> \<not> dead f \<and> fresh cur f \<and>
    hdr_is (other_sector cur) u1 u2 f \<and> get_status u1 4 = (if bs = [] then SECTOR_STORE_EMPTY else SECTOR_STORE_USING) \<and>
    get_status u2 4 = SECTOR_DIRTY_FALSE \<and> holds_nodes (other_sector cur) bs f \<and>
    sectors_wf t \<and> sc_addr ` set t \<subseteq> {word_of_nat (other_sector cur), FAILED_ADDR} \<and> sector_cached (other_sector cur) bs t \<and>
    (bs = [] \<longrightarrow> sc_addr ` set t \<subseteq> {FAILED_ADDR}) \<and> cached_in (placed (other_sector cur + 20) bs) (env_cache s)"
proof -
  let ?b = "other_sector cur"
  have mv: "moving cur xs bs s" using c by (simp add: collected_def)
  obtain t1 t2 u1 u2 where h: "gc_hdrs cur t1 t2 u1 u2 bs (ef_nor s)" using mv by (auto simp: moving_def)
  note d = movingD [OF mv] and o = other_base [OF movingD(1) [OF mv]]
  let ?t = "update_sector_cache (word_of_nat cur) (word_of_nat (cur + SECTOR_SIZE)) (sector_cache s)"
  obtain f where f: "format_sector (word_of_nat cur) SECTOR_NOT_COMBINED s = (EF_NO_ERR, s\<lparr>ef_nor := f, sector_cache := ?t\<rparr>)"
    "\<not> dead f" "fresh cur f" "\<And>p. p < cur \<or> cur + SECTOR_SIZE \<le> p \<Longrightarrow> cells f p = cells (ef_nor s) p"
    using format_sector_result [OF d(2,1)] by blast
  have frame: "cells f p = cells (ef_nor s) p" if "?b \<le> p" "p < ?b + SECTOR_SIZE" for p using f(4) [of p] that o(6) by auto
  have hdr: "hdr_is ?b u1 u2 f" using h frame by (subst hdr_is_cong [where f = "ef_nor s"]) (auto simp: gc_hdrs_def)
  have nodes: "holds_nodes ?b bs f" using d(5) frame by (subst holds_nodes_cong [where f = "ef_nor s"]) auto
  have t: "sectors_wf (sector_cache s)" "sc_addr ` set (sector_cache s) \<subseteq> {word_of_nat cur, word_of_nat ?b, FAILED_ADDR}"
    using d(6) by (simp_all add: both_cached_def)
  note u = sector_cache_upd [OF t d(1), where em = "word_of_nat (cur + SECTOR_SIZE)"]
  have drop: "get_sector_from_cache (word_of_nat cur) ?t = None" using u(3) in_sector_words(2) [OF d(1), of "cur + 1"] by simp
  have "word_of_nat cur \<notin> sc_addr ` set ?t" using drop by (auto simp: get_sector_from_cache_def find_None_iff)
  then have sub: "sc_addr ` set ?t \<subseteq> {word_of_nat ?b, FAILED_ADDR}" by (rule subset_without [OF u(2) t(2)])
  have sc: "sector_cached ?b bs ?t" using sector_cache_upd(4) [OF t d(1) o(5)] o(3) d(6) by (simp add: both_cached_def sector_cached_def)
  have none: "bs = [] \<longrightarrow> sc_addr ` set ?t \<subseteq> {FAILED_ADDR}"
    using subset_lone [OF u(2) sub o(3)] d(6) by (simp add: both_cached_def)
  have "leads (placed (?b + 20) bs) k a" if "leads (placed (cur + 20) xs @ placed (?b + 20) bs) k a" for k a
    using that xs placed_node unfolding leads_def by fastforce
  then have "cached_in (placed (?b + 20) bs) (env_cache s)" using c by (auto simp: collected_def cached_in_def)
  then show ?thesis using f(1-3) hdr h nodes u(1) sub sc none
    by (intro exI [of _ u1] exI [of _ u2] exI [of _ f] exI [of _ ?t]) (simp add: gc_hdrs_def)
qed

text \<open>\<open>do_gc\<close> on the dirty sector.\<close>

lemma do_gc_result:
  assumes kept: "store_kept cur ns s" and gc: "gc_request s" and dirty: "dirty_status cur (ef_nor s) = SECTOR_DIRTY_TRUE"
    and fit: "free_at (other_sector cur) (live ns) + 60 \<le> other_sector cur + SECTOR_SIZE" and m: "hdr_is cur t1 t2 (ef_nor s)"
  shows "\<exists>xs s'. do_gc (meta cur t1 t2 m) () s = Some (False, (), snd (format_sector (word_of_nat cur) SECTOR_NOT_COMBINED s')) \<and>
    collected cur xs (map renew (live ns)) s' \<and> (\<forall>n \<in> set xs. node_status n = ENV_DELETED)"
proof -
  have k: "kept cur ns s" and settled: "settled_nodes ns" using kept by (simp_all add: store_kept_def)
  obtain t1' t2' where two: "hdr_is cur t1' t2' (ef_nor s)" "get_status t1' 4 = 2 \<or> get_status t1' 4 = 3" using k by (auto simp: kept_def two_sectors_def)
  have st: "get_status t2 4 = 2" "get_status t1 4 \<noteq> 1" using dirty hdr_is_status [OF m] hdr_is_status [OF two(1)] two(2) by auto
  obtain s1 where s1: "put_status (word_of_nat cur + 3) SECTOR_DIRTY_STATUS_NUM SECTOR_DIRTY_GC s = (EF_NO_ERR, s1)" "collected cur ([] @ ns) [] s1"
    using start_collecting [OF kept gc dirty] by auto
  have ns: "ns \<noteq> []" using k by (simp add: kept_def)
  have "get_next_env_addr (meta cur t1 t2 m) no_env s1 = (if ns = [] then FAILED_ADDR else word_of_nat (layout_end (cur + 20) []))"
    using ns st(2) sector_base_words(3) [OF kept_base(1) [OF k]] by (simp add: get_next_env_addr_def no_env_def)
  then obtain env' xs s2 where w: "walk_envs gc_env (meta cur t1 t2 m) no_env () s1 = Some (False, env', (), s2)"
    "collected cur xs ([] @ map renew (live ns)) s2" "\<forall>n \<in> set xs. node_status n = ENV_DELETED"
    using gc_walk [OF _ _ s1(2), of "meta cur t1 t2 m" no_env] st(2) settled fit by (auto simp: settled_nodes_def)
  then show ?thesis using s1(1) st(1) by (intro exI [of _ xs] exI [of _ s2]) (simp add: do_gc_def)
qed

text \<open>The whole collection.\<close>

lemma gc_collect_steps:
  assumes kept: "store_kept cur ns s" and gc: "gc_request s" and dirty: "dirty_status cur (ef_nor s) = SECTOR_DIRTY_TRUE"
    and fit: "free_at (other_sector cur) (live ns) + 60 \<le> other_sector cur + SECTOR_SIZE"
  shows "\<exists>xs s' s''. gc_collect s = Some (s''\<lparr>gc_request := False\<rparr>) \<and> format_sector (word_of_nat cur) SECTOR_NOT_COMBINED s' = (EF_NO_ERR, s'') \<and>
    collected cur xs (map renew (live ns)) s' \<and> (\<forall>n \<in> set xs. node_status n = ENV_DELETED)"
proof -
  let ?b = "other_sector cur" and ?bs = "map renew (live ns)"
  have k: "kept cur ns s" using kept by (simp add: store_kept_def)
  obtain t1 t2 u1 u2 where two: "two_sectors cur t1 t2 u1 u2 (ef_nor s)" using k by (auto simp: kept_def)
  note o = other_base [OF kept_base(1) [OF k]] and base = kept_base(1) [OF k]
  have hdr: "hdr_is cur t1 t2 (ef_nor s)" "hdr_is ?b u1 u2 (ef_nor s)" using two by (simp_all add: two_sectors_def)
  have st: "get_status t1 4 \<noteq> 1" "get_status u1 4 = 1" "get_status u2 4 = 1" using two by (auto simp: two_sectors_def)
  have ca: "visit_sec gc_check_cb SECTOR_STORE_EMPTY False cur m e s = Some (False, meta cur t1 t2 m, e, s)" for m e
    using read_sector_plain [OF base hdr(1), of m] st by (simp add: visit_sec_def)
  have cb: "visit_sec gc_check_cb SECTOR_STORE_EMPTY False ?b m e s = Some (False, meta ?b u1 u2 m, e + 1, s)" for m e
    using read_sector_plain [OF o(1) hdr(2), of m] st by (simp add: visit_sec_def gc_check_cb_def)
  have gb: "visit_sec do_gc SECTOR_STORE_UNUSED False ?b m () s = Some (False, meta ?b u1 u2 m, (), s)" for m
    using read_sector_plain [OF o(1) hdr(2), of m] st by (simp add: visit_sec_def do_gc_def)
  have ga: "\<exists>xs s' s''. visit_sec do_gc SECTOR_STORE_UNUSED False cur m () s = Some (False, meta cur t1 t2 m, (), s'') \<and>
      format_sector (word_of_nat cur) SECTOR_NOT_COMBINED s' = (EF_NO_ERR, s'') \<and>
      collected cur xs ?bs s' \<and> (\<forall>n \<in> set xs. node_status n = ENV_DELETED)" for m
  proof -
    obtain xs s' where d: "do_gc (meta cur t1 t2 m) () s = Some (False, (), snd (format_sector (word_of_nat cur) SECTOR_NOT_COMBINED s'))"
      "collected cur xs ?bs s'" "\<forall>n \<in> set xs. node_status n = ENV_DELETED"
      using do_gc_result [OF kept gc dirty fit hdr(1)] by blast
    moreover obtain s'' where "format_sector (word_of_nat cur) SECTOR_NOT_COMBINED s' = (EF_NO_ERR, s'')" using format_collected [OF d(2,3)] by blast
    ultimately show ?thesis using read_sector_plain [OF base hdr(1), of m] by (auto simp: visit_sec_def)
  qed
  show ?thesis
  proof (cases "cur = 0")
    case True
    have b: "?b = SECTOR_SIZE" using True by (simp add: other_sector_def)
    obtain m1 where one: "sector_iterator no_sector SECTOR_STORE_EMPTY 0 gc_check_cb False s = Some (m1, 1, s)"
      using sector_iterator_two [OF ca [of _ 0, unfolded True] _ cb [of _ 0, unfolded b]] by auto
    obtain xs s' s'' where g: "visit_sec do_gc SECTOR_STORE_UNUSED False cur (m1\<lparr>sec_addr := FAILED_ADDR\<rparr>) () s
        = Some (False, meta cur t1 t2 (m1\<lparr>sec_addr := FAILED_ADDR\<rparr>), (), s'')"
      "format_sector (word_of_nat cur) SECTOR_NOT_COMBINED s' = (EF_NO_ERR, s'')" "collected cur xs ?bs s'" "\<forall>n \<in> set xs. node_status n = ENV_DELETED"
      using ga by blast
    obtain x1 x2 where x: "hdr_is ?b x1 x2 (ef_nor s'')" "get_status x2 4 = 1" using format_collected [OF g(3,4)] g(2) by auto
    have "visit_sec do_gc SECTOR_STORE_UNUSED False ?b m () s'' = Some (False, meta ?b x1 x2 m, (), s'')" for m
      using read_sector_plain [OF o(1) x(1), of m] x(2) by (simp add: visit_sec_def do_gc_def)
    then obtain m2 where "sector_iterator m1 SECTOR_STORE_UNUSED () do_gc False s = Some (m2, (), s'')"
      using sector_iterator_two [OF g(1) [unfolded True]] b by auto
    then have "gc_collect s = Some (s''\<lparr>gc_request := False\<rparr>)" using one by (simp add: gc_collect_def)
    then show ?thesis using g(2-4) by blast
  next
    case False
    then have c: "cur = SECTOR_SIZE" "?b = 0" using base by (simp_all add: sector_base_def other_sector_def)
    obtain m1 where one: "sector_iterator no_sector SECTOR_STORE_EMPTY 0 gc_check_cb False s = Some (m1, 1, s)"
      using sector_iterator_two [OF cb [of _ 0, unfolded c(2)] _ ca [of _ "0 + 1", unfolded c(1)]] by auto
    let ?m = "meta 0 u1 u2 (m1\<lparr>sec_addr := FAILED_ADDR\<rparr>)"
    obtain xs s' s'' where g: "visit_sec do_gc SECTOR_STORE_UNUSED False cur ?m () s = Some (False, meta cur t1 t2 ?m, (), s'')"
      "format_sector (word_of_nat cur) SECTOR_NOT_COMBINED s' = (EF_NO_ERR, s'')" "collected cur xs ?bs s'" "\<forall>n \<in> set xs. node_status n = ENV_DELETED"
      using ga by blast
    obtain m2 where "sector_iterator m1 SECTOR_STORE_UNUSED () do_gc False s = Some (m2, (), s'')"
      using sector_iterator_two [OF gb [unfolded c(2)] _ g(1) [unfolded c(1)]] by auto
    then have "gc_collect s = Some (s''\<lparr>gc_request := False\<rparr>)" using one by (simp add: gc_collect_def)
    then show ?thesis using g(2-4) by blast
  qed
qed

lemma renew_contents: "contents (map renew (live ns)) = contents ns"
proof -
  have "live (map renew (live ns)) = map renew (live ns)" by (simp add: live_def)
  then show ?thesis by (simp add: contents_def comp_def)
qed

lemma renew_free: "free_at sec (map renew ns) = free_at sec ns"
  by (simp add: free_at_def layout_end_def comp_def)

lemma renew_settled: "settled_nodes ns \<Longrightarrow> settled_nodes (map renew (live ns))"
  by (auto simp: settled_nodes_def live_def comp_def)

text \<open>The outcome when something is in use: the other sector is in use, with the same contents and no garbage.\<close>

lemma gc_collect_result:
  assumes kept: "store_kept cur ns s" and gc: "gc_request s" and dirty: "dirty_status cur (ef_nor s) = SECTOR_DIRTY_TRUE" and live: "live ns \<noteq> []"
    and fit: "free_at (other_sector cur) (live ns) + 60 \<le> other_sector cur + SECTOR_SIZE"
  shows "\<exists>s'. gc_collect s = Some s' \<and> store_ok (other_sector cur) (map renew (live ns)) s'"
proof -
  let ?b = "other_sector cur" and ?bs = "map renew (live ns)"
  have bs: "?bs \<noteq> []" using live by simp
  obtain xs s1 s2 where g: "gc_collect s = Some (s2\<lparr>gc_request := False\<rparr>)" "format_sector (word_of_nat cur) SECTOR_NOT_COMBINED s1 = (EF_NO_ERR, s2)"
    "collected cur xs ?bs s1" "\<forall>n \<in> set xs. node_status n = ENV_DELETED"
    using gc_collect_steps [OF kept gc dirty fit] by blast
  have mv: "moving cur xs ?bs s1" using g(3) by (simp add: collected_def)
  note d = movingD [OF mv] and o = other_base [OF movingD(1) [OF mv]]
  obtain u1 u2 f t where f: "s2 = s1\<lparr>ef_nor := f, sector_cache := t\<rparr>" "\<not> dead f" "fresh cur f" "hdr_is ?b u1 u2 f" "get_status u1 4 = 2" "get_status u2 4 = 1"
    "holds_nodes ?b ?bs f" "sectors_wf t" "sc_addr ` set t \<subseteq> {word_of_nat ?b, FAILED_ADDR}" "sector_cached ?b ?bs t"
    "cached_in (placed (?b + 20) ?bs) (env_cache s1)"
    using format_collected [OF g(3,4)] g(2) live by auto
  have two: "two_sectors ?b u1 u2 fresh_tab fresh_tab f"
    using f(3-6) o(1,2) by (simp add: two_sectors_def fresh_def fresh_tab_status)
  have "kept ?b ?bs (s2\<lparr>gc_request := False\<rparr>)" unfolding kept_def f(1)
    using f(2,6-10) bs d(8,9) by (intro conjI exI [of _ u1] exI [of _ u2] exI [of _ fresh_tab]) (simp_all add: two)
  moreover have "settled_nodes ?bs" using kept by (simp add: store_kept_def renew_settled)
  moreover have "marked ?b ?bs f" by (simp add: marked_def)
  moreover have "store_status ?b f = SECTOR_STORE_USING" using hdr_is_status(1) [OF f(4)] f(5) by simp
  moreover have "\<not> last_is_complete_del s1" using g(3) by (simp add: collected_def)
  ultimately have "store_ok ?b ?bs (s2\<lparr>gc_request := False\<rparr>)" using f(11) by (simp add: store_ok_def store_kept_def env_cached_in f(1))
  then show ?thesis using g(1) by blast
qed

end
