(* ===== verification/Ef_First.thy ===== *)
theory Ef_First
  imports Ef_Gc
begin

unbundle bit_operations_syntax

text \<open>
  A store without a node: both sectors are empty. That is what formatting gives, and a collection of a sector none of
  whose nodes is in use. The first node is written to the first sector.
\<close>

definition empty_hdr :: "nat \<Rightarrow> bytes \<Rightarrow> bytes \<Rightarrow> nor \<Rightarrow> bool" where
  "empty_hdr sec t1 t2 f \<longleftrightarrow> hdr_is sec t1 t2 f \<and> get_status t1 SECTOR_STORE_STATUS_NUM = SECTOR_STORE_EMPTY \<and>
     get_status t2 SECTOR_DIRTY_STATUS_NUM = SECTOR_DIRTY_FALSE"

definition vacant :: "ef \<Rightarrow> bool" where
  "vacant s \<longleftrightarrow> (\<exists>a1 a2. empty_hdr 0 a1 a2 (ef_nor s)) \<and> (\<exists>b1 b2. empty_hdr SECTOR_SIZE b1 b2 (ef_nor s)) \<and>
     blank 20 (SECTOR_SIZE - 20) (ef_nor s) \<and> blank (SECTOR_SIZE + 20) (SECTOR_SIZE - 20) (ef_nor s) \<and> \<not> dead (ef_nor s) \<and>
     sectors_wf (sector_cache s) \<and> sc_addr ` set (sector_cache s) \<subseteq> {FAILED_ADDR} \<and> cached_in [] (env_cache s) \<and>
     \<not> gc_request s \<and> \<not> last_is_complete_del s"

lemma fresh_empty: "fresh sec f \<Longrightarrow> empty_hdr sec fresh_tab fresh_tab f" "fresh sec f \<Longrightarrow> blank (sec + 20) (SECTOR_SIZE - 20) f"
  by (simp_all add: fresh_def empty_hdr_def fresh_tab_status)

text \<open>A collection that finds nothing in use.\<close>

lemma gc_collect_vacant:
  assumes kept: "store_kept cur ns s" and gc: "gc_request s" and dirty: "dirty_status cur (ef_nor s) = SECTOR_DIRTY_TRUE" and live: "live ns = []"
  shows "\<exists>s'. gc_collect s = Some s' \<and> vacant s' \<and> init_ok s' \<and> \<not> in_recovery_check s'"
proof -
  let ?b = "other_sector cur"
  have "free_at ?b (live ns) + 60 \<le> ?b + SECTOR_SIZE" by (simp add: live free_at_def)
  then obtain xs s1 s2 where g: "gc_collect s = Some (s2\<lparr>gc_request := False\<rparr>)" "format_sector (word_of_nat cur) SECTOR_NOT_COMBINED s1 = (EF_NO_ERR, s2)"
    "collected cur xs [] s1" "\<forall>n \<in> set xs. node_status n = ENV_DELETED"
    using gc_collect_steps [OF kept gc dirty] live by auto
  have mv: "moving cur xs [] s1" using g(3) by (simp add: collected_def)
  note d = movingD [OF mv]
  obtain u1 u2 f t where f: "s2 = s1\<lparr>ef_nor := f, sector_cache := t\<rparr>" "\<not> dead f" "fresh cur f" "empty_hdr ?b u1 u2 f"
    "holds_nodes ?b [] f" "sectors_wf t" "sc_addr ` set t \<subseteq> {FAILED_ADDR}" "cached_in [] (env_cache s1)"
    using format_collected [OF g(3,4)] g(2) by (auto simp: empty_hdr_def)
  have ex: "\<exists>a1 a2. empty_hdr cur a1 a2 f" "\<exists>b1 b2. empty_hdr ?b b1 b2 f" using f(4) fresh_empty(1) [OF f(3)] by blast+
  have "blank (?b + 20) (SECTOR_SIZE - 20) f" using f(5) by (simp add: holds_nodes_def free_at_def)
  then have "(\<exists>a1 a2. empty_hdr 0 a1 a2 f) \<and> (\<exists>b1 b2. empty_hdr SECTOR_SIZE b1 b2 f) \<and>
      blank 20 (SECTOR_SIZE - 20) f \<and> blank (SECTOR_SIZE + 20) (SECTOR_SIZE - 20) f"
    using ex fresh_empty(2) [OF f(3)] d(1) unfolding sector_base_def by (elim disjE) (simp_all add: other_sector_def)
  then have "vacant (s2\<lparr>gc_request := False\<rparr>)" unfolding vacant_def f(1) using f(2,6-8) g(3) by (simp add: collected_def)
  then show ?thesis using g(1) d(8,9) f(1) by auto
qed

lemma alloc_vacant:
  assumes s: "vacant s" and sz: "sz < SECTOR_SIZE - 20"
  shows "\<exists>a1 a2 m'. alloc_env m (word_of_nat sz) s = Some (word_of_nat 20, using_meta 0 a1 a2 [] m', s) \<and> empty_hdr 0 a1 a2 (ef_nor s)"
proof -
  obtain a1 a2 b1 b2 where h: "empty_hdr 0 a1 a2 (ef_nor s)" "empty_hdr SECTOR_SIZE b1 b2 (ef_nor s)" using s by (auto simp: vacant_def)
  have hdr: "hdr_is 0 a1 a2 (ef_nor s)" "hdr_is SECTOR_SIZE b1 b2 (ef_nor s)" and st: "get_status a1 4 = 1" "get_status a2 4 = 1" "get_status b1 4 = 1"
    using h by (simp_all add: empty_hdr_def)
  note plain = read_sector_plain [OF _ hdr(1)] read_sector_plain [OF _ hdr(2)]
  have count: "visit_sec sector_statistics_cb SECTOR_STORE_UNUSED False 0 m (0, 0) s = Some (False, meta 0 a1 a2 m, (1, 0), s)"
    "visit_sec sector_statistics_cb SECTOR_STORE_UNUSED False SECTOR_SIZE m (1, 0) s = Some (False, meta SECTOR_SIZE b1 b2 m, (2, 0), s)" for m
    using plain(1) [of m] plain(2) [of m] st by (simp_all add: visit_sec_def sector_statistics_cb_def)
  obtain m1 where one: "sector_iterator m SECTOR_STORE_UNUSED (0, 0) sector_statistics_cb False s = Some (m1, (2, 0), s)"
    using sector_iterator_two [OF count(1) _ count(2)] by auto
  have room: "word_of_nat sz < (word_of_nat (SECTOR_SIZE - 20) :: u32)" using u32_of_nat_less [of sz "SECTOR_SIZE - 20"] sz by simp
  have rd: "read_sector_meta_data (word_of_nat 0) (meta 0 a1 a2 m) True s = Some (EF_NO_ERR, using_meta 0 a1 a2 [] (meta 0 a1 a2 m), s)" for m
    using read_sector_hdr_is [OF _ hdr(1), of "meta 0 a1 a2 m"] st by (simp add: read_sector_meta_data_def using_meta_def free_at_def Let_def)
  have place: "visit_sec (alloc_env_cb (word_of_nat sz)) SECTOR_STORE_EMPTY True 0 m FAILED_ADDR s
      = Some (True, using_meta 0 a1 a2 [] (meta 0 a1 a2 m), word_of_nat 20, s)" for m
    using plain(1) [of m] rd [of m] st room by (simp add: visit_sec_def alloc_env_cb_def using_meta_def free_at_def)
  obtain m2 where "sector_iterator m1 SECTOR_STORE_EMPTY FAILED_ADDR (alloc_env_cb (word_of_nat sz)) True s = Some (using_meta 0 a1 a2 [] m2, word_of_nat 20, s)"
    using sector_iterator_two [OF place] by (auto simp: using_meta_def)
  then show ?thesis using one h(1) by (auto simp: alloc_env_def)
qed

lemma keptI:
  assumes "two_sectors cur t1 t2 u1 u2 (ef_nor s)" "get_status t2 4 = SECTOR_DIRTY_FALSE \<or> get_status t2 4 = SECTOR_DIRTY_TRUE"
    "\<not> dead (ef_nor s)" "ns \<noteq> []" "holds_nodes cur ns (ef_nor s)" "sectors_wf (sector_cache s)"
    "sc_addr ` set (sector_cache s) \<subseteq> {word_of_nat cur, FAILED_ADDR}" "sector_cached cur ns (sector_cache s)" "init_ok s" "\<not> in_recovery_check s"
  shows "kept cur ns s"
  using assms unfolding kept_def by blast

lemma first_node:
  assumes s: "vacant s" and hdr: "empty_hdr 0 a1 a2 (ef_nor s)" and sec: "sector = using_meta 0 a1 a2 [] m"
    and new: "node_ok (written_tab, key, v)" and fit: "node_size (written_tab, key, v) + 80 \<le> SECTOR_SIZE"
  shows "\<exists>s'. create_env_blob sector key v s = Some (EF_NO_ERR, s') \<and> gc_request s' = gc_request s \<and>
    store_ok 0 [(written_tab, key, v)] (s'\<lparr>in_recovery_check := False, init_ok := True\<rparr>) \<and> in_recovery_check s' = in_recovery_check s \<and> init_ok s' = init_ok s"
proof -
  let ?n = "28 + length key + length v" and ?new = "(written_tab, key, v)"
  have alive: "\<not> dead (ef_nor s)" and t: "sectors_wf (sector_cache s)" "sc_addr ` set (sector_cache s) \<subseteq> {word_of_nat 0, FAILED_ADDR}"
    and cache: "cached_in [] (env_cache s)" and gc: "\<not> gc_request s" "\<not> last_is_complete_del s"
    using s by (auto simp: vacant_def)
  obtain b1 b2 where hb: "empty_hdr SECTOR_SIZE b1 b2 (ef_nor s)" using s by (auto simp: vacant_def)
  have key: "length key \<le> 32" "?n \<le> SECTOR_SIZE - SECTOR_HDR_DATA_SIZE" using new by simp_all
  let ?f1 = "snd (nor_write 1 [0] (ef_nor s))"
  let ?f = "apply_writes (node_program 20 key v) ?f1"
  let ?t = "update_sector_cache (word_of_nat 0) (word_of_nat (20 + ?n)) (sector_cache s)"
  have upd: "update_sec_status sector (word_of_nat ?n) s = (EF_NO_ERR, False, s\<lparr>ef_nor := ?f1\<rparr>)"
    using put_status_eq [OF alive, of 2 4 0] hdr sec by (simp add: update_sec_status_def using_meta_def empty_hdr_def del: of_nat_add)
  define s' where "s' = s\<lparr>sector_cache := ?t, env_cache := update_env_cache key (word_of_nat 20) (env_cache s), ef_nor := ?f\<rparr>"
  have "create_at sector (word_of_nat 20) key v s = (EF_NO_ERR, s')"
    using create_at_status [OF upd, of 0 20] key(1) fit alive sec by (simp add: using_meta_def s'_def del: of_nat_add)
  then have create: "create_env_blob sector key v s = Some (EF_NO_ERR, s')"
    using key sec new_node_len [OF new] by (simp add: create_env_blob_def using_meta_def free_at_def)
  have cells: "cells ?f1 p = cells (ef_nor s) p" if "20 \<le> p" for p using that cells_write [of p 1 "[0]" "ef_nor s"] by simp
  have st: "get_status (a1[1 := 0]) 4 = 2" using get_status_update [of 2 4 a1] hdr by (simp add: empty_hdr_def hdr_is_def)
  have hdr1: "hdr_is 0 (a1[1 := 0]) a2 ?f1" using hdr_is_touch(1) [of 0 a1 a2 "ef_nor s" 1] hdr alive by (simp add: empty_hdr_def)
  have "two_sectors 0 (a1[1 := 0]) a2 b1 b2 ?f1"
  proof -
    have "hdr_is SECTOR_SIZE b1 b2 ?f1" using hb cells by (subst hdr_is_cong [where f = "ef_nor s"]) (auto simp: empty_hdr_def)
    moreover have "blank (SECTOR_SIZE + 20) (SECTOR_SIZE - 20) ?f1" using s cells by (subst blank_cong [where f = "ef_nor s"]) (auto simp: vacant_def)
    ultimately show ?thesis using hdr1 hb st by (simp add: two_sectors_def other_sector_def empty_hdr_def)
  qed
  then have two: "two_sectors 0 (a1[1 := 0]) a2 b1 b2 ?f" by (rule two_sectors_cong) (use fit in \<open>auto intro!: node_program_frame\<close>)
  have nodes: "holds_nodes 0 [?new] ?f"
  proof -
    have "blank 20 (SECTOR_SIZE - 20) ?f1" using s cells by (subst blank_cong [where f = "ef_nor s"]) (auto simp: vacant_def)
    then have "holds_nodes 0 [] ?f1" by (simp add: holds_nodes_def free_at_def)
    from holds_nodes_append [OF this _ new] show ?thesis using fit alive by (simp add: free_at_def)
  qed
  have tt: "sectors_wf ?t" "sc_addr ` set ?t \<subseteq> {word_of_nat 0, FAILED_ADDR}" "get_sector_from_cache (word_of_nat 0) ?t = Some (word_of_nat (20 + ?n))"
    using fit t by (intro sector_cache_kept; simp)+
  have dead: "\<not> dead ?f" using alive by (simp add: apply_writes_def node_program_def)
  have sc: "sector_cached 0 [?new] ?t" using tt(3) by (simp add: sector_cached_def free_at_def)
  have a2: "get_status a2 4 = 1" using hdr by (simp add: empty_hdr_def)
  have "kept 0 [?new] (s'\<lparr>in_recovery_check := False, init_ok := True\<rparr>)"
    by (rule keptI [of _ "a1[1 := 0]" a2 b1 b2]) (use two nodes dead tt(1,2) sc a2 in \<open>simp_all add: s'_def\<close>)
  moreover have "env_cached 0 [?new] (env_cache s')"
  proof -
    have "leads (placed (0 + 20) [?new]) (crc_of_name key) (word_of_nat 20)" by (auto simp: leads_def written_status)
    moreover have "cached_but (crc_of_name key) (placed (0 + 20) [?new]) (env_cache s)" by (rule cached_mono(2) [OF _ cached_weaken [OF cache]]) simp
    ultimately show ?thesis unfolding env_cached_in s'_def by (simp add: cached_update)
  qed
  moreover have "settled_nodes [?new]" by (simp add: settled_nodes_def written_status)
  moreover have "store_status 0 ?f = SECTOR_STORE_USING"
    using hdr_is_status(1) [of 0 "a1[1 := 0]" a2 ?f] two st by (simp add: two_sectors_def)
  ultimately have "store_ok 0 [?new] (s'\<lparr>in_recovery_check := False, init_ok := True\<rparr>)"
    using gc by (simp add: store_ok_def store_kept_def marked_def written_status s'_def)
  then show ?thesis using create by (intro exI [of _ s']) (simp add: s'_def)
qed

lemma find_env_vacant:
  assumes s: "vacant s"
  shows "\<exists>env' t. find_env key env s = Some (False, env', s\<lparr>env_cache := t\<rparr>) \<and> vacant (s\<lparr>env_cache := t\<rparr>)"
proof -
  obtain r t where g: "get_env_from_cache key (ef_nor s) (env_cache s) = (r, t)" by fastforce
  have wf: "cache_wf (env_cache s)" and none: "a = FAILED_ADDR" if "(c, a) \<in> set (cached (env_cache s))" for c a
    using s that by (auto simp: vacant_def cached_in_def leads_def)
  have "find (\<lambda>(c, a). cache_hit key (ef_nor s) \<lparr>name_crc = c, ec_active = 0, ec_addr = a\<rparr>) (cached (env_cache s)) = None" using none by (auto simp: find_None_iff cache_hit_def)
  then have r: "r = None" using g get_env_from_cache_cached(1) [of key "ef_nor s" "env_cache s"] by simp
  have "cached_in [] t"
    using s g get_env_from_cache_cached(2) [of key "ef_nor s" "env_cache s"] cache_wf_get [of "env_cache s" key "ef_nor s"]
    by (auto simp: vacant_def cached_in_def)
  then have v: "vacant (s\<lparr>env_cache := t\<rparr>)" using s by (simp add: vacant_def)
  obtain a1 a2 b1 b2 where h: "empty_hdr 0 a1 a2 (ef_nor s)" "empty_hdr SECTOR_SIZE b1 b2 (ef_nor s)" using s by (auto simp: vacant_def)
  have rd: "read_sector_meta_data (word_of_nat 0) m False (s\<lparr>env_cache := t\<rparr>) = Some (EF_NO_ERR, meta 0 a1 a2 m, s\<lparr>env_cache := t\<rparr>)"
    "read_sector_meta_data (word_of_nat SECTOR_SIZE) m False (s\<lparr>env_cache := t\<rparr>) = Some (EF_NO_ERR, meta SECTOR_SIZE b1 b2 m, s\<lparr>env_cache := t\<rparr>)" for m
    using h by (intro read_sector_plain; simp add: empty_hdr_def)+
  have "env_iterator (find_env_cb key) env False (s\<lparr>env_cache := t\<rparr>) = Some (env, False, s\<lparr>env_cache := t\<rparr>)"
    unfolding env_iterator_def using h rd [simplified] by (simp add: walk_all.simps [of "find_env_cb key"] next_sector empty_hdr_def)
  then show ?thesis using g r v by (auto simp: find_env_def find_env_no_cache_def)
qed

end
