(* ===== verification/Ef_Update.thy ===== *)
theory Ef_Update
  imports Ef_First
begin

unbundle bit_operations_syntax

text \<open>
  Setting and deleting a value in a store of any history: as long as what is in use fits, a setting succeeds, whether the
  sector in use has room, gets full, or has to be collected first.
\<close>

section \<open>The space in use\<close>

definition env_size :: "(bytes \<rightharpoonup> bytes) \<Rightarrow> nat" where
  "env_size e = (\<Sum>k \<in> dom e. 28 + length k + length (the (e k)))"

lemma env_size_of_list: "distinct (map node_key L) \<Longrightarrow>
  sum_list (map node_size L) = env_size (map_of (map (\<lambda>n. (node_key n, node_value n)) L))"
proof (induction L)
  case (Cons n L)
  let ?e = "map_of (map (\<lambda>n. (node_key n, node_value n)) L)"
  have new: "node_key n \<notin> dom ?e" using Cons.prems by (simp add: dom_map_of_conv_image_fst image_image)
  have "env_size (?e(node_key n \<mapsto> node_value n)) = (28 + length (node_key n) + length (node_value n)) + env_size ?e"
    using new by (auto simp: env_size_def finite_dom_map_of intro!: sum.cong)
  moreover have "node_size n = 28 + length (node_key n) + length (node_value n)" by (cases n) simp
  ultimately show ?case using Cons by (simp add: fun_upd_def)
qed (simp add: env_size_def)

lemma free_at_live: "settled_nodes ns \<Longrightarrow> free_at sec (live ns) = sec + 20 + env_size (contents ns)"
  by (simp add: settled_nodes_def free_at_def layout_end_def env_size_of_list contents_def)

lemma env_size_put: "finite (dom e) \<Longrightarrow> env_size (e(k \<mapsto> v)) \<le> env_size e + (28 + length k + length v)"
proof -
  assume fin: "finite (dom e)"
  have "env_size (e(k \<mapsto> v)) = (28 + length k + length v) + (\<Sum>j \<in> dom e - {k}. 28 + length j + length (the (e j)))"
    using fin by (simp add: env_size_def sum.insert_remove)
  moreover have "(\<Sum>j \<in> dom e - {k}. 28 + length j + length (the (e j))) \<le> env_size e"
    unfolding env_size_def using fin by (intro sum_mono2) auto
  ultimately show ?thesis by simp
qed

lemma finite_contents [simp]: "finite (dom (contents ns))"
  by (simp add: contents_def finite_dom_map_of)

lemma live_empty: "live ns = [] \<longleftrightarrow> contents ns = Map.empty"
  by (auto simp: contents_def)

text \<open>What lies between the space in use and the end of the nodes is garbage, and the sector is marked for it.\<close>

lemma garbage_dirty:
  assumes "marked cur ns f" "settled_nodes ns" "cur + 20 + env_size (contents ns) < free_at cur ns"
  shows "dirty_status cur f = SECTOR_DIRTY_TRUE"
proof -
  have "live ns \<noteq> ns" using free_at_live [OF assms(2), of cur] assms(3) by auto
  then have "\<exists>n \<in> set ns. node_status n \<noteq> ENV_WRITE" using filter_True [of ns "\<lambda>n. node_status n = ENV_WRITE"] unfolding live_def by blast
  then show ?thesis using assms(1) by (simp add: marked_def)
qed

section \<open>A place for a node\<close>

lemma visit_no_room:
  assumes kept: "kept cur ns s" and st: "store_status cur (ef_nor s) = SECTOR_STORE_USING"
    and full: "cur + SECTOR_SIZE \<le> free_at cur ns + sz" "sz < 2 ^ 32"
  shows "\<exists>m' s'. visit_sec (alloc_env_cb (word_of_nat sz)) SECTOR_STORE_USING True cur m a s = Some (False, m', a, s') \<and> single cur m' \<and>
    kept cur ns s' \<and> recached s s'"
proof -
  obtain t1 t2 u1 u2 where two: "two_sectors cur t1 t2 u1 u2 (ef_nor s)" using kept by (auto simp: kept_def)
  note b = kept_base [OF kept]
  have hdr: "hdr_is cur t1 t2 (ef_nor s)" using two by (simp add: two_sectors_def)
  have t1: "get_status t1 4 = 2" using hdr_is_status(1) [OF hdr] st by simp
  have ns: "ns \<noteq> []" "sector_cached cur ns (sector_cache s)" using kept by (simp_all add: kept_def)
  have room: "\<not> word_of_nat sz < (word_of_nat (cur + SECTOR_SIZE - free_at cur ns) :: u32)"
    using full b(2) by (subst u32_of_nat_less) auto
  obtain s' where r: "read_sector_meta_data (word_of_nat cur) (meta cur t1 t2 m) True s = Some (EF_NO_ERR, using_meta cur t1 t2 ns (meta cur t1 t2 m), s')"
    "s' = s \<or> s' = cache_sector (word_of_nat cur) (word_of_nat (free_at cur ns)) s"
    using read_sector_using [OF b(1) hdr t1 ns(1) b(3) ns(2)] by blast
  have "kept cur ns s'" "recached s s'" using r(2) kept kept_cache_sector [OF kept] by auto
  moreover have "visit_sec (alloc_env_cb (word_of_nat sz)) SECTOR_STORE_USING True cur m a s = Some (False, using_meta cur t1 t2 ns (meta cur t1 t2 m), a, s')"
    using read_sector_plain [OF b(1) hdr, of m] r(1) t1 room by (simp add: visit_sec_def alloc_env_cb_def using_meta_def)
  ultimately show ?thesis by (auto simp: using_meta_def)
qed

text \<open>Without room the allocation only asks for a collection.\<close>

lemma alloc_no_room:
  assumes kept: "kept cur ns s" and gc: "\<not> gc_request s" and st: "store_status cur (ef_nor s) = SECTOR_STORE_USING"
    and full: "cur + SECTOR_SIZE \<le> free_at cur ns + sz" "sz < 2 ^ 32"
  shows "\<exists>m' s'. alloc_env m (word_of_nat sz) s = Some (FAILED_ADDR, m', s'\<lparr>gc_request := True\<rparr>) \<and> kept cur ns s' \<and> recached s s'"
proof -
  let ?Q = "\<lambda>s'. kept cur ns s' \<and> recached s s'"
  obtain t1 t2 u1 u2 where two: "two_sectors cur t1 t2 u1 u2 (ef_nor s)" using kept by (auto simp: kept_def)
  note b = kept_base [OF kept] and o = other_base [OF kept_base(1) [OF kept]]
  have t1: "get_status t1 4 = 2" using hdr_is_status(1) [of cur t1 t2 "ef_nor s"] two st by (simp add: two_sectors_def)
  obtain m1 where one: "sector_iterator m SECTOR_STORE_UNUSED (0, 0) sector_statistics_cb False s = Some (m1, (1, 1), s)"
    using statistics_two [OF two, of m] t1 by auto
  have cur: "\<exists>m' s2. visit_sec (alloc_env_cb (word_of_nat sz)) SECTOR_STORE_USING True cur m FAILED_ADDR s1 = Some (False, m', FAILED_ADDR, s2) \<and>
      single cur m' \<and> ?Q s2" if "?Q s1" for m s1
    using visit_no_room [of cur ns s1 sz m FAILED_ADDR] that st full recached_nor [of s s1] recached_trans [of s s1] by auto
  have other: "\<exists>m' s2. visit_sec (alloc_env_cb (word_of_nat sz)) SECTOR_STORE_USING True (other_sector cur) m FAILED_ADDR s1 = Some (False, m', FAILED_ADDR, s2) \<and>
      single (other_sector cur) m' \<and> ?Q s2" if "?Q s1" for m s1
    using read_sector_plain [OF o(1), of u1 u2 s1 m] two recached_nor [of s s1] that by (auto simp: visit_sec_def two_sectors_def)
  have "\<exists>m2 s2. sector_iterator m1 SECTOR_STORE_USING FAILED_ADDR (alloc_env_cb (word_of_nat sz)) True s = Some (m2, FAILED_ADDR, s2) \<and> ?Q s2"
    using kept by (intro iterate_pass [OF b(1)] cur other) auto
  then obtain m2 s2 where two: "sector_iterator m1 SECTOR_STORE_USING FAILED_ADDR (alloc_env_cb (word_of_nat sz)) True s = Some (m2, FAILED_ADDR, s2)" "?Q s2"
    by blast
  have "gc_request s2 = gc_request s" using two(2) unfolding recached_def by (metis ef.ext_inject ef.surjective ef.update_convs(3))
  then show ?thesis using one two gc by (intro exI [of _ m2] exI [of _ s2]) (simp add: alloc_env_def)
qed

text \<open>The collection that follows, and the second attempt.\<close>

lemma collect_no_room:
  assumes ok: "store_ok cur ns s" and full: "cur + SECTOR_SIZE \<le> free_at cur ns + sz" and fit: "env_size (contents ns) + sz + 80 \<le> SECTOR_SIZE"
  shows "\<exists>m s1. new_env no_sector (word_of_nat sz) s = gc_collect s1 \<bind> alloc_env m (word_of_nat sz) \<and> store_kept cur ns s1 \<and> gc_request s1 \<and>
    dirty_status cur (ef_nor s1) = SECTOR_DIRTY_TRUE"
proof -
  note o = store_okD [OF ok]
  obtain m s1 where a: "alloc_env no_sector (word_of_nat sz) s = Some (FAILED_ADDR, m, s1\<lparr>gc_request := True\<rparr>)" "kept cur ns s1" "recached s s1"
    using alloc_no_room [OF o(1,6,7) full, of no_sector] fit by auto
  have k: "kept cur ns (s1\<lparr>gc_request := True\<rparr>)" by (rule kept_cong [OF a(2)]) simp_all
  have eq: "ef_nor s1 = ef_nor s" "env_cache s1 = env_cache s" "last_is_complete_del s1 = last_is_complete_del s"
    using a(3) unfolding recached_def by (metis ef.ext_inject ef.surjective ef.update_convs(3))+
  have "store_kept cur ns (s1\<lparr>gc_request := True\<rparr>)" using k o(2-5) eq by (simp add: store_kept_def)
  moreover have "dirty_status cur (ef_nor s1) = SECTOR_DIRTY_TRUE" using o(4,5) full fit eq(1) by (intro garbage_dirty [of cur ns]) simp_all
  moreover have "new_env no_sector (word_of_nat sz) s = gc_collect (s1\<lparr>gc_request := True\<rparr>) \<bind> alloc_env m (word_of_nat sz)"
    using a(1) by (simp add: new_env_def)
  ultimately show ?thesis by (intro exI [of _ m] exI [of _ "s1\<lparr>gc_request := True\<rparr>"]) simp
qed

lemma new_env_collected:
  assumes ok: "store_ok cur ns s" and full: "cur + SECTOR_SIZE \<le> free_at cur ns + sz" and fit: "env_size (contents ns) + sz + 80 \<le> SECTOR_SIZE"
    and e: "contents ns \<noteq> Map.empty"
  shows "\<exists>cur' ns' t1 t2 m s'. new_env no_sector (word_of_nat sz) s = Some (word_of_nat (free_at cur' ns'), using_meta cur' t1 t2 ns' m, s') \<and>
    get_status t1 4 = SECTOR_STORE_USING \<and> store_ok cur' ns' s' \<and> contents ns' = contents ns \<and> free_at cur' ns' = cur' + 20 + env_size (contents ns)"
proof -
  let ?b = "other_sector cur" and ?bs = "map renew (live ns)"
  obtain m s1 where c: "new_env no_sector (word_of_nat sz) s = gc_collect s1 \<bind> alloc_env m (word_of_nat sz)" "store_kept cur ns s1" "gc_request s1"
    "dirty_status cur (ef_nor s1) = SECTOR_DIRTY_TRUE" using collect_no_room [OF ok full fit] by blast
  have settled: "settled_nodes ns" using store_okD(4) [OF ok] .
  have free: "free_at ?b ?bs = ?b + 20 + env_size (contents ns)" by (simp add: renew_free free_at_live [OF settled])
  obtain s2 where g: "gc_collect s1 = Some s2" "store_ok ?b ?bs s2"
    using gc_collect_result [OF c(2-4)] e fit by (auto simp: live_empty free_at_live [OF settled])
  note o = store_okD [OF g(2)]
  obtain t1 t2 u1 u2 where two: "two_sectors ?b t1 t2 u1 u2 (ef_nor s2)" "get_status t2 4 = 1 \<or> get_status t2 4 = 2"
    using o(1) by (auto simp: kept_def)
  have t1: "get_status t1 4 = 2" using hdr_is_status(1) [of ?b t1 t2 "ef_nor s2"] two(1) o(7) by (simp add: two_sectors_def)
  have ns: "?bs \<noteq> []" "holds_nodes ?b ?bs (ef_nor s2)" "sector_cached ?b ?bs (sector_cache s2)" using o(1) by (simp_all add: kept_def)
  obtain m' s3 where a: "alloc_env m (word_of_nat sz) s2 = Some (word_of_nat (free_at ?b ?bs), using_meta ?b t1 t2 ?bs m', s3)"
    "s3 = s2 \<or> s3 = cache_sector (word_of_nat ?b) (word_of_nat (free_at ?b ?bs)) s2"
    using alloc_env_using [OF two ns o(6) t1, of sz m] free fit by auto
  have "kept ?b ?bs s3" using a(2) o(1) kept_cache_sector [OF o(1)] by auto
  then have "store_ok ?b ?bs s3" using a(2) by (intro store_ok_cong [OF g(2)]) (auto simp: cache_sector_def)
  then show ?thesis using c(1) g(1) a(1) t1 renew_contents [of ns] free
    by (intro exI [of _ ?b] exI [of _ ?bs] exI [of _ t1] exI [of _ t2] exI [of _ m'] exI [of _ s3]) simp
qed

lemma new_env_vacant:
  assumes ok: "store_ok cur ns s" and full: "cur + SECTOR_SIZE \<le> free_at cur ns + sz" and fit: "sz + 80 \<le> SECTOR_SIZE" and e: "contents ns = Map.empty"
  shows "\<exists>a1 a2 m s'. new_env no_sector (word_of_nat sz) s = Some (word_of_nat 20, using_meta 0 a1 a2 [] m, s') \<and> empty_hdr 0 a1 a2 (ef_nor s') \<and>
    vacant s' \<and> init_ok s' \<and> \<not> in_recovery_check s'"
proof -
  obtain m s1 where c: "new_env no_sector (word_of_nat sz) s = gc_collect s1 \<bind> alloc_env m (word_of_nat sz)" "store_kept cur ns s1" "gc_request s1"
    "dirty_status cur (ef_nor s1) = SECTOR_DIRTY_TRUE" using collect_no_room [OF ok full] fit e by (auto simp: env_size_def)
  obtain s2 where g: "gc_collect s1 = Some s2" "vacant s2" "init_ok s2" "\<not> in_recovery_check s2"
    using gc_collect_vacant [OF c(2-4)] e by (auto simp: live_empty)
  obtain a1 a2 m' where "alloc_env m (word_of_nat sz) s2 = Some (word_of_nat 20, using_meta 0 a1 a2 [] m', s2)" "empty_hdr 0 a1 a2 (ef_nor s2)"
    using alloc_vacant [OF g(2), of sz m] fit by auto
  then show ?thesis using c(1) g by (intro exI [of _ a1] exI [of _ a2] exI [of _ m'] exI [of _ s2]) simp
qed

section \<open>Setting\<close>

lemma set_first:
  assumes a: "new_env_by_kv no_sector (length key) (length v) s = Some (word_of_nat 20, using_meta 0 a1 a2 [] m, s0)"
    and s0: "vacant s0" "empty_hdr 0 a1 a2 (ef_nor s0)" "init_ok s0" "\<not> in_recovery_check s0"
    and new: "node_ok (written_tab, key, v)" and fit: "node_size (written_tab, key, v) + 80 \<le> SECTOR_SIZE"
  shows "\<exists>s'. set_env key (Some v) s = Some (EF_NO_ERR, s') \<and> store_ok 0 [(written_tab, key, v)] s'"
proof -
  obtain env t where f: "find_env key no_env s0 = Some (False, env, s0\<lparr>env_cache := t\<rparr>)" "vacant (s0\<lparr>env_cache := t\<rparr>)"
    using find_env_vacant [OF s0(1)] by blast
  obtain s' where c: "create_env_blob (using_meta 0 a1 a2 [] m) key v (s0\<lparr>env_cache := t\<rparr>) = Some (EF_NO_ERR, s')" "\<not> gc_request s'"
    "store_ok 0 [(written_tab, key, v)] (s'\<lparr>in_recovery_check := False, init_ok := True\<rparr>)" "\<not> in_recovery_check s'" "init_ok s'"
    using first_node [OF f(2) _ refl new fit, of a1 a2 m] s0 by (auto simp: vacant_def)
  have "s'\<lparr>in_recovery_check := False, init_ok := True\<rparr> = s'" using c(4,5) by simp
  moreover have "set_env key (Some v) s = Some (EF_NO_ERR, s')" using a f(1) c(1,2) by (simp add: set_env_def)
  ultimately show ?thesis using c(3) by auto
qed

lemma crc_apart_dom: "crc_apart key ns \<longleftrightarrow> (\<forall>k \<in> dom (contents ns). crc_of_name k = crc_of_name key \<longrightarrow> k = key)"
proof -
  have "dom (contents ns) = node_key ` set (live ns)" by (simp add: contents_def dom_map_of_conv_image_fst image_image)
  then show ?thesis by (simp add: crc_apart_def)
qed

lemma set_result:
  assumes ok: "store_ok cur ns s" and crc: "crc_apart key ns" and key: "0 < length key" "length key \<le> EF_ENV_NAME_MAX"
    and fit: "env_size (contents ns) + (28 + length key + length v) + 80 \<le> SECTOR_SIZE"
  shows "\<exists>cur' ns' s'. set_env key (Some v) s = Some (EF_NO_ERR, s') \<and> store_ok cur' ns' s' \<and> contents ns' = (contents ns)(key \<mapsto> v)"
proof -
  let ?n = "28 + length key + length v"
  have new: "node_ok (written_tab, key, v)" using key fit by simp
  show ?thesis
  proof (cases "free_at cur ns + ?n < cur + SECTOR_SIZE")
    case True
    define full where "full \<longleftrightarrow> \<not> free_at cur ns + ?n + 60 \<le> cur + SECTOR_SIZE"
    obtain ns' s' where r: "set_env key (Some v) s = (if full then gc_collect s' else Some s') \<bind> (\<lambda>s. Some (EF_NO_ERR, s))" "store_kept cur ns' s'"
      "contents ns' = (contents ns)(key \<mapsto> v)" "gc_request s' = full" "\<not> full \<longrightarrow> store_ok cur ns' s'" "free_at cur ns' = free_at cur ns + ?n"
      using set_room [OF ok crc new, of full] True full_def by auto
    show ?thesis
    proof (cases full)
      case False
      then show ?thesis using r(1,3,5) by auto
    next
      case True
      have st: "settled_nodes ns'" "marked cur ns' (ef_nor s')" using r(2) by (simp_all add: store_kept_def)
      have small: "env_size (contents ns') + 80 \<le> SECTOR_SIZE" using env_size_put [of "contents ns" key v] fit r(3) by simp
      have "dirty_status cur (ef_nor s') = SECTOR_DIRTY_TRUE"
        using small True r(6) by (intro garbage_dirty [OF st(2,1)]) (simp add: full_def)
      moreover have "live ns' \<noteq> []" using r(3) by (simp add: live_empty)
      moreover have "free_at (other_sector cur) (live ns') + 60 \<le> other_sector cur + SECTOR_SIZE" using small by (simp add: free_at_live [OF st(1)])
      ultimately obtain s'' where "gc_collect s' = Some s''" "store_ok (other_sector cur) (map renew (live ns')) s''"
        using gc_collect_result [OF r(2)] r(4) True by auto
      then show ?thesis using r(1,3) True renew_contents [of ns'] by (intro exI [of _ "other_sector cur"]) auto
    qed
  next
    case no_room: False
    then have full: "cur + SECTOR_SIZE \<le> free_at cur ns + ?n" by simp
    show ?thesis
    proof (cases "contents ns = Map.empty")
      case True
      obtain a1 a2 m s0 where "new_env_by_kv no_sector (length key) (length v) s = Some (word_of_nat 20, using_meta 0 a1 a2 [] m, s0)"
        "empty_hdr 0 a1 a2 (ef_nor s0)" "vacant s0" "init_ok s0" "\<not> in_recovery_check s0"
        using new_env_vacant [OF ok full _ True] fit by (auto simp: new_env_by_kv_def)
      then obtain s' where "set_env key (Some v) s = Some (EF_NO_ERR, s')" "store_ok 0 [(written_tab, key, v)] s'"
        using set_first [of key v s a1 a2 m s0] new fit by auto
      moreover have "contents [(written_tab, key, v)] = (contents ns)(key \<mapsto> v)" unfolding True by (simp add: contents_def written_status)
      ultimately show ?thesis by blast
    next
      case False
      obtain cur' ns' t1 t2 m s0 where n: "new_env_by_kv no_sector (length key) (length v) s = Some (word_of_nat (free_at cur' ns'), using_meta cur' t1 t2 ns' m, s0)"
        "get_status t1 4 = SECTOR_STORE_USING" "store_ok cur' ns' s0" "contents ns' = contents ns" "free_at cur' ns' = cur' + 20 + env_size (contents ns)"
        using new_env_collected [OF ok full fit False] by (auto simp: new_env_by_kv_def)
      have "crc_apart key ns'" using crc n(4) by (simp add: crc_apart_dom)
      then show ?thesis using set_env_steps [OF n(3) _ new n(1,2), of False] n(4,5) fit by auto
    qed
  qed
qed

section \<open>Deletion\<close>

lemma del_result:
  assumes ok: "store_ok cur ns s" and crc: "crc_apart key ns"
  shows "\<exists>ns' s'. ef_del_env key s = Some (if contents ns key = None then EF_ENV_NAME_ERR else EF_NO_ERR, s') \<and>
    store_ok cur ns' s' \<and> contents ns' = (contents ns)(key := None)"
proof -
  note o = store_okD [OF ok]
  have init: "init_ok s" using o(1) by (simp add: kept_def)
  obtain found env t where f: "find_env key no_env s = Some (found, env, s\<lparr>env_cache := t\<rparr>)" "env_cached cur ns t" "finds cur ns key found env"
    using find_env_result [OF o(1,2) crc] by blast
  have k0: "kept cur ns (s\<lparr>env_cache := t\<rparr>)" by (rule kept_cong [OF o(1)]) simp_all
  show ?thesis
  proof (cases found)
    case True
    then obtain e p n where n: "env = node_env e p n" "(p, n) \<in> set (placed (cur + 20) ns)" "node_status n = ENV_WRITE" "node_key n = key"
      using f(3) by (elim finds_found) simp_all
    obtain xs ys where x: "ns = xs @ n # ys" "p = layout_end (cur + 20) xs" using n(2) by (rule placed_split)
    have addr: "addr_start env = word_of_nat p" unfolding n(1) by (cases n) simp
    let ?n = "touch ENV_DELETED n"
    obtain f' where d: "del_found (Some key) env True (s\<lparr>env_cache := t\<rparr>)
        = (EF_NO_ERR, s\<lparr>ef_nor := f', env_cache := update_env_cache key FAILED_ADDR t, last_is_complete_del := False\<rparr>)"
      "kept cur (xs @ ?n # ys) (s\<lparr>env_cache := t, ef_nor := f'\<rparr>)" "store_status cur f' = store_status cur (ef_nor s)" "dirty_status cur f' = SECTOR_DIRTY_TRUE"
      using del_found_result [OF k0 [unfolded x(1)] addr x(2), of key True] o(3) by auto
    define s' where "s' = s\<lparr>ef_nor := f', env_cache := update_env_cache key FAILED_ADDR t, last_is_complete_del := False\<rparr>"
    have k1: "kept cur (xs @ ?n # ys) s'" by (rule kept_cong [OF d(2)]) (simp_all add: s'_def)
    have st': "node_status ?n = ENV_DELETED"
      using placed_bounds(3) [OF kept_base(3) [OF o(1)] n(2)] n(3) by (rule deleted_status)
    note gone = settled_replaced [OF o(4) [unfolded x(1)] n(3) st']
    have "cached_but (crc_of_name key) (placed (cur + 20) (xs @ ?n # ys)) t"
      using env_cached_but_touch [of n "cur + 20" xs ys t ENV_DELETED] cached_weaken [OF f(2) [unfolded env_cached_in]] x(1) n(4) by simp
    then have "env_cached cur (xs @ ?n # ys) (env_cache s')" by (simp add: s'_def env_cached_in cached_update)
    then have "store_ok cur (xs @ ?n # ys) s'"
      using k1 gone(1) d(3,4) o(6,7) by (simp add: store_ok_def store_kept_def marked_def s'_def)
    moreover have "contents ns key \<noteq> None"
      using contents_live [OF _ placed_node [OF n(2)] n(3)] o(4) n(4) by (simp add: settled_nodes_def)
    moreover have "ef_del_env key s = Some (EF_NO_ERR, s')"
      using init f(1) True d(1) by (simp add: ef_del_env_def del_env_def s'_def)
    ultimately show ?thesis using gone(2) n(4) x(1) by (intro exI [of _ "xs @ ?n # ys"] exI [of _ s']) simp
  next
    case False
    then have none: "contents ns key = None" using f(3) by (simp add: finds_def)
    have "ef_del_env key s = Some (EF_ENV_NAME_ERR, s\<lparr>env_cache := t\<rparr>)"
      using init f(1) False by (simp add: ef_del_env_def del_env_def)
    moreover have "store_ok cur ns (s\<lparr>env_cache := t\<rparr>)" using ok k0 f(2) by (simp add: store_ok_def store_kept_def)
    moreover have "contents ns = (contents ns)(key := None)" using none by auto
    ultimately show ?thesis using none by auto
  qed
qed

end
