(* ===== verification/Ef_Kv.thy ===== *)
theory Ef_Kv
  imports Ef_Update
begin

text \<open>
  The flash store as a store of names and values: the contract of such a store as a locale, sequences of operations
  against a map, and EasyFlash's operations as an instance.
\<close>

section \<open>The contract\<close>

datatype kv_op = Put bytes bytes | Get bytes nat | Remove bytes

datatype kv_reply = Done EfErrCode | Found bytes

text \<open>A sequence of operations, on the code and on a map.\<close>

primrec kv_step ::
  "(bytes \<Rightarrow> bytes \<Rightarrow> 's \<Rightarrow> (EfErrCode \<times> 's) option) \<Rightarrow> (bytes \<Rightarrow> nat \<Rightarrow> 's \<Rightarrow> (bytes \<times> u32 option \<times> 's) option) \<Rightarrow>
   (bytes \<Rightarrow> 's \<Rightarrow> (EfErrCode \<times> 's) option) \<Rightarrow> kv_op \<Rightarrow> 's \<Rightarrow> (kv_reply \<times> 's) option" where
  "kv_step put get rem (Put k v) s = map_option (\<lambda>(r, s). (Done r, s)) (put k v s)"
| "kv_step put get rem (Get k n) s = map_option (\<lambda>(v, _, s). (Found v, s)) (get k n s)"
| "kv_step put get rem (Remove k) s = map_option (\<lambda>(r, s). (Done r, s)) (rem k s)"

primrec kv_run ::
  "(bytes \<Rightarrow> bytes \<Rightarrow> 's \<Rightarrow> (EfErrCode \<times> 's) option) \<Rightarrow> (bytes \<Rightarrow> nat \<Rightarrow> 's \<Rightarrow> (bytes \<times> u32 option \<times> 's) option) \<Rightarrow>
   (bytes \<Rightarrow> 's \<Rightarrow> (EfErrCode \<times> 's) option) \<Rightarrow> kv_op list \<Rightarrow> 's \<Rightarrow> (kv_reply list \<times> 's) option" where
  "kv_run put get rem [] s = Some ([], s)"
| "kv_run put get rem (x # xs) s = do {
     (r, s) \<leftarrow> kv_step put get rem x s;
     (rs, s) \<leftarrow> kv_run put get rem xs s;
     Some (r # rs, s)
   }"

fun map_step :: "kv_op \<Rightarrow> (bytes \<rightharpoonup> bytes) \<Rightarrow> kv_reply \<times> (bytes \<rightharpoonup> bytes)" where
  "map_step (Put k v) e = (Done EF_NO_ERR, e(k \<mapsto> v))"
| "map_step (Get k n) e = (Found (case e k of None \<Rightarrow> [] | Some v \<Rightarrow> take n v), e)"
| "map_step (Remove k) e = (Done (if e k = None then EF_ENV_NAME_ERR else EF_NO_ERR), e(k := None))"

fun map_run :: "kv_op list \<Rightarrow> (bytes \<rightharpoonup> bytes) \<Rightarrow> kv_reply list \<times> (bytes \<rightharpoonup> bytes)" where
  "map_run [] e = ([], e)"
| "map_run (x # xs) e = (case map_step x e of (r, e) \<Rightarrow> case map_run xs e of (rs, e) \<Rightarrow> (r # rs, e))"

primrec op_ok :: "bytes set \<Rightarrow> kv_op \<Rightarrow> bool" where
  "op_ok K (Put k v) \<longleftrightarrow> k \<in> K \<and> 0 < length k \<and> length k \<le> EF_ENV_NAME_MAX"
| "op_ok K (Get k n) \<longleftrightarrow> k \<in> K"
| "op_ok K (Remove k) \<longleftrightarrow> k \<in> K"

text \<open>What a store needs of a sequence of operations: each value set finds room beside what the map holds then.\<close>

primrec fits :: "((bytes \<rightharpoonup> bytes) \<Rightarrow> bytes \<Rightarrow> bytes \<Rightarrow> bool) \<Rightarrow> kv_op list \<Rightarrow> (bytes \<rightharpoonup> bytes) \<Rightarrow> bool" where
  "fits room [] e \<longleftrightarrow> True"
| "fits room (x # xs) e \<longleftrightarrow> (case x of Put k v \<Rightarrow> room e k v | _ \<Rightarrow> True) \<and> fits room xs (snd (map_step x e))"

text \<open>A store that keeps a map under the names \<open>K\<close> as long as there is room: \<open>rel K e s\<close>.\<close>

locale kv_store =
  fixes put :: "bytes \<Rightarrow> bytes \<Rightarrow> 's \<Rightarrow> (EfErrCode \<times> 's) option"
    and get :: "bytes \<Rightarrow> nat \<Rightarrow> 's \<Rightarrow> (bytes \<times> u32 option \<times> 's) option"
    and rem :: "bytes \<Rightarrow> 's \<Rightarrow> (EfErrCode \<times> 's) option"
    and room :: "(bytes \<rightharpoonup> bytes) \<Rightarrow> bytes \<Rightarrow> bytes \<Rightarrow> bool"
    and rel :: "bytes set \<Rightarrow> (bytes \<rightharpoonup> bytes) \<Rightarrow> 's \<Rightarrow> bool"
  assumes put_law: "rel K e s \<Longrightarrow> op_ok K (Put k v) \<Longrightarrow> room e k v \<Longrightarrow> \<exists>s'. put k v s = Some (EF_NO_ERR, s') \<and> rel K (e(k \<mapsto> v)) s'"
    and get_law: "rel K e s \<Longrightarrow> k \<in> K \<Longrightarrow>
      \<exists>len s'. get k n s = Some (case e k of None \<Rightarrow> [] | Some v \<Rightarrow> take n v, len, s') \<and> rel K e s'"
    and rem_law: "rel K e s \<Longrightarrow> k \<in> K \<Longrightarrow>
      \<exists>s'. rem k s = Some (if e k = None then EF_ENV_NAME_ERR else EF_NO_ERR, s') \<and> rel K (e(k := None)) s'"
begin

lemma step_refines:
  assumes "rel K e s" "op_ok K x" "case x of Put k v \<Rightarrow> room e k v | _ \<Rightarrow> True"
  shows "\<exists>s'. kv_step put get rem x s = Some (fst (map_step x e), s') \<and> rel K (snd (map_step x e)) s'"
proof (cases x)
  case (Put k v)
  then show ?thesis using put_law [of K e s k v] assms by fastforce
next
  case (Get k n)
  then show ?thesis using get_law [of K e s k n] assms by fastforce
next
  case (Remove k)
  then show ?thesis using rem_law [of K e s k] assms by fastforce
qed

lemma run_refines:
  "rel K e s \<Longrightarrow> \<forall>x \<in> set xs. op_ok K x \<Longrightarrow> fits room xs e \<Longrightarrow>
    \<exists>s'. kv_run put get rem xs s = Some (fst (map_run xs e), s') \<and> rel K (snd (map_run xs e)) s'"
proof (induction xs arbitrary: e s)
  case (Cons x xs)
  obtain s1 where s1: "kv_step put get rem x s = Some (fst (map_step x e), s1)" "rel K (snd (map_step x e)) s1"
    using step_refines [OF Cons.prems(1), of x] Cons.prems(2,3) by auto
  obtain s2 where "kv_run put get rem xs s1 = Some (fst (map_run xs (snd (map_step x e))), s2)" "rel K (snd (map_run xs (snd (map_step x e)))) s2"
    using Cons.IH [OF s1(2)] Cons.prems(2,3) by auto
  then show ?case using s1(1) by (simp add: case_prod_beta)
qed simp

end

section \<open>The flash store is such a store\<close>

definition ef_rel :: "bytes set \<Rightarrow> (bytes \<rightharpoonup> bytes) \<Rightarrow> ef \<Rightarrow> bool" where
  "ef_rel K e s \<longleftrightarrow> inj_on crc_of_name K \<and> dom e \<subseteq> K \<and> (\<exists>cur ns. store_ok cur ns s \<and> contents ns = e)"

text \<open>A value fits when the nodes in use, the new one, a sector header and the reserve of 60 bytes take no more than a sector.\<close>

definition ef_room :: "(bytes \<rightharpoonup> bytes) \<Rightarrow> bytes \<Rightarrow> bytes \<Rightarrow> bool" where
  "ef_room e k v \<longleftrightarrow> env_size e + (28 + length k + length v) + 80 \<le> SECTOR_SIZE"

lemma ef_relE:
  assumes "ef_rel K e s" "key \<in> K"
  obtains cur ns where "store_ok cur ns s" "contents ns = e" "crc_apart key ns"
  using assms unfolding ef_rel_def crc_apart_dom by (metis inj_on_eq_iff subsetD)

interpretation ef_kv: kv_store ef_set_text ef_get_blob ef_del_env ef_room ef_rel
proof
  fix K :: "bytes set" and e :: "bytes \<rightharpoonup> bytes" and s :: ef and k v :: bytes and n :: nat
  assume rel: "ef_rel K e s"
  then have K: "inj_on crc_of_name K" "dom e \<subseteq> K" by (simp_all add: ef_rel_def)
  show "\<exists>s'. ef_set_text k v s = Some (EF_NO_ERR, s') \<and> ef_rel K (e(k \<mapsto> v)) s'" if op: "op_ok K (Put k v)" "ef_room e k v"
  proof -
    have k: "k \<in> K" using op(1) by simp
    from rel k obtain cur ns where c: "store_ok cur ns s" "contents ns = e" "crc_apart k ns" by (rule ef_relE)
    have "init_ok s" using store_okD(1) [OF c(1)] by (simp add: kept_def)
    then have "\<exists>cur' ns' s'. ef_set_text k v s = Some (EF_NO_ERR, s') \<and> store_ok cur' ns' s' \<and> contents ns' = e(k \<mapsto> v)"
      using set_result [OF c(1,3), of v] op c(2) by (simp add: ef_set_text_def ef_set_env_blob_def ef_room_def)
    then show ?thesis using K k unfolding ef_rel_def by fastforce
  qed
  show "\<exists>len s'. ef_get_blob k n s = Some (case e k of None \<Rightarrow> [] | Some v \<Rightarrow> take n v, len, s') \<and> ef_rel K e s'" if k: "k \<in> K"
  proof -
    from rel k obtain cur ns where c: "store_ok cur ns s" "contents ns = e" "crc_apart k ns" by (rule ef_relE)
    then show ?thesis using get_blob_result [OF c(1,3), of n] K unfolding ef_rel_def by blast
  qed
  show "\<exists>s'. ef_del_env k s = Some (if e k = None then EF_ENV_NAME_ERR else EF_NO_ERR, s') \<and> ef_rel K (e(k := None)) s'" if k: "k \<in> K"
  proof -
    from rel k obtain cur ns where c: "store_ok cur ns s" "contents ns = e" "crc_apart k ns" by (rule ef_relE)
    have "dom (e(k := None)) \<subseteq> K" using K(2) by auto
    then show ?thesis using del_result [OF c(1,3)] c(2) K(1) unfolding ef_rel_def by blast
  qed
qed

section \<open>Room\<close>

text \<open>One name set over and over takes the room of two values, however often.\<close>

lemma fits_repeat:
  assumes "ef_room e k v" "ef_room (e(k \<mapsto> v)) k v"
  shows "fits ef_room (replicate n (Put k v)) e" "map_run (replicate n (Put k v)) e = (replicate n (Done EF_NO_ERR), if n = 0 then e else e(k \<mapsto> v))"
proof -
  have "fits ef_room (replicate n (Put k v)) (e(k \<mapsto> v)) \<and>
      map_run (replicate n (Put k v)) (e(k \<mapsto> v)) = (replicate n (Done EF_NO_ERR), e(k \<mapsto> v))" for n
    using assms(2) by (induction n) auto
  then show "fits ef_room (replicate n (Put k v)) e" "map_run (replicate n (Put k v)) e = (replicate n (Done EF_NO_ERR), if n = 0 then e else e(k \<mapsto> v))"
    using assms(1) by (cases n; simp)+
qed

lemma fits_append: "fits room (xs @ ys) e \<longleftrightarrow> fits room xs e \<and> fits room ys (snd (map_run xs e))"
  by (induction xs arbitrary: e) (auto simp: case_prod_beta)

lemma map_run_append: "map_run (xs @ ys) e = (case map_run xs e of (rs, e) \<Rightarrow> case map_run ys e of (rs', e) \<Rightarrow> (rs @ rs', e))"
  by (induction xs arbitrary: e) (auto simp: case_prod_beta)

end
