(* ===== verification/Ef_Boot.thy ===== *)
theory Ef_Boot
  imports Ef_Kv
begin

unbundle bit_operations_syntax

text \<open>
  The flash store over a restart: the statics start as zeroes, \<open>ef_env_init\<close> reads the flash, and what was stored is
  there again; an erased flash gets the default set.
\<close>

section \<open>A quiet start\<close>

text \<open>The state at power-up: the flash is what is left, the statics have their initial values.\<close>

definition power_up :: "nor \<Rightarrow> ef" where
  "power_up f = \<lparr>ef_nor = f, env_cache = replicate 16 \<lparr>name_crc = 0, ec_active = 0, ec_addr = 0\<rparr>,
     sector_cache = replicate 4 \<lparr>sc_addr = 0, empty_addr = 0\<rparr>, gc_request = False, in_recovery_check = False,
     last_is_complete_del = False, init_ok = False\<rparr>"

definition no_envs_cached :: "env_cache_node list" where
  "no_envs_cached = replicate 16 \<lparr>name_crc = 0, ec_active = 0, ec_addr = FAILED_ADDR\<rparr>"

definition no_sectors_cached :: "sector_cache_node list" where
  "no_sectors_cached = replicate 4 \<lparr>sc_addr = FAILED_ADDR, empty_addr = 0\<rparr>"

lemma ef_env_init_power_up:
  "ef_env_init (power_up f) = map_option (\<lambda>s. s\<lparr>init_ok := True\<rparr>)
     (ef_load_env ((power_up f)\<lparr>sector_cache := no_sectors_cached, env_cache := no_envs_cached\<rparr>))"
  by (simp add: ef_env_init_def power_up_def no_sectors_cached_def no_envs_cached_def map_conv_bind_option comp_def)

lemma no_sectors_cached_simps:
  "sectors_wf no_sectors_cached" "sc_addr ` set no_sectors_cached = {FAILED_ADDR}"
  "a \<noteq> FAILED_ADDR \<Longrightarrow> get_sector_from_cache a no_sectors_cached = None"
  by (auto simp: no_sectors_cached_def sectors_wf_def get_sector_from_cache_def find_None_iff)

lemma no_envs_cached_simps: "cached_in L no_envs_cached"
proof -
  have "once (replicate n (c, FAILED_ADDR))" for n c by (induction n) auto
  then show ?thesis by (auto simp: cached_in_def cache_wf_def cached_def no_envs_cached_def)
qed

lemma check_hdr_two:
  assumes "two_sectors cur t1 t2 u1 u2 (ef_nor s)"
  shows "\<exists>m'. sector_iterator m SECTOR_STORE_UNUSED c check_sec_hdr_cb False s = Some (m', c, s)"
  using assms
  by (cases rule: two_sectors_cases)
    (simp_all add: sector_iterator_def walk_sectors.simps [of check_sec_hdr_cb] next_sector
       read_sector_plain [of 0, simplified] read_sector_plain [of SECTOR_SIZE, simplified] check_sec_hdr_cb_def)

lemma check_gc_two:
  assumes "two_sectors cur t1 t2 u1 u2 (ef_nor s)" "get_status t2 4 = SECTOR_DIRTY_FALSE \<or> get_status t2 4 = SECTOR_DIRTY_TRUE"
  shows "\<exists>m'. sector_iterator m SECTOR_STORE_UNUSED () check_and_recovery_gc_cb False s = Some (m', (), s)"
proof -
  have st: "get_status t2 4 \<noteq> 3" "get_status u2 4 \<noteq> 3" using assms by (auto simp: two_sectors_def)
  from assms(1) show ?thesis
    by (cases rule: two_sectors_cases)
      (use st in \<open>simp_all add: sector_iterator_def walk_sectors.simps [of check_and_recovery_gc_cb] next_sector
         read_sector_plain [of 0, simplified] read_sector_plain [of SECTOR_SIZE, simplified] check_and_recovery_gc_cb_def\<close>)
qed

abbreviation (input) settled :: "nat \<Rightarrow> bool" where
  "settled st \<equiv> st = ENV_WRITE \<or> st = ENV_DELETED"

lemma recovery_pure: "pure_visitor settled check_and_recovery_env_cb (\<lambda>env a. (False, a))"
  by (auto simp: pure_visitor_def check_and_recovery_env_cb_def)

lemma visit_quiet: "\<exists>env'. visit (\<lambda>env a. (False, a)) p ns env a = (False, env', a)"
  by (induction ns arbitrary: p env) auto

lemma recover_quiet:
  assumes two: "two_sectors cur t1 t2 u1 u2 (ef_nor s)"
    and ns: "ns \<noteq> []" "holds_nodes cur ns (ef_nor s)" "sector_cached cur ns (sector_cache s)"
    and st: "\<forall>n \<in> set ns. settled (node_status n)" and gc: "\<not> gc_request s"
  shows "recover_envs s = Some s"
proof -
  obtain env' where "visit (\<lambda>env a. (False, a)) (cur + 20) ns (no_env\<lparr>addr_start := FAILED_ADDR\<rparr>) () = (False, env', ())"
    using visit_quiet [of "cur + 20" ns "no_env\<lparr>addr_start := FAILED_ADDR\<rparr>" "()"] by blast
  then have "env_iterator check_and_recovery_env_cb no_env () s = Some (env', (), s)"
    using walk_all_nodes [OF recovery_pure two ns, of no_env "()"] st by simp
  then show ?thesis using gc by (simp add: recover_envs.simps)
qed

text \<open>The part of \<open>ef_load_env\<close> behind the header check.\<close>

lemma load_settled:
  assumes kept: "kept cur ns (s\<lparr>in_recovery_check := False, init_ok := True\<rparr>)" and st: "\<forall>n \<in> set ns. settled (node_status n)"
    and gc: "\<not> gc_request s"
  shows "\<exists>m'. sector_iterator m SECTOR_STORE_UNUSED () check_and_recovery_gc_cb False s = Some (m', (), s)" "recover_envs s = Some s"
proof -
  obtain t1 t2 u1 u2 where two: "two_sectors cur t1 t2 u1 u2 (ef_nor s)" "get_status t2 4 = 1 \<or> get_status t2 4 = 2"
    using kept by (auto simp: kept_def)
  show "\<exists>m'. sector_iterator m SECTOR_STORE_UNUSED () check_and_recovery_gc_cb False s = Some (m', (), s)"
    by (rule check_gc_two [OF two])
  show "recover_envs s = Some s" using kept by (intro recover_quiet [OF two(1) _ _ _ st gc]) (simp_all add: kept_def)
qed

lemma kept_power_up:
  assumes "kept cur ns s"
  shows "kept cur ns ((power_up (ef_nor s))\<lparr>sector_cache := no_sectors_cached, env_cache := no_envs_cached, init_ok := True\<rparr>)"
proof -
  have "(word_of_nat cur :: u32) \<noteq> FAILED_ADDR" using kept_base(2) [OF assms] by (intro u32_not_failed) simp
  then show ?thesis using assms no_sectors_cached_simps by (auto simp: kept_def power_up_def sector_cached_def)
qed

lemma restart_result:
  assumes ok: "store_ok cur ns s"
  shows "\<exists>s'. ef_env_init (power_up (ef_nor s)) = Some s' \<and> store_ok cur ns s' \<and> ef_nor s' = ef_nor s"
proof -
  note o = store_okD [OF ok]
  have kept: "kept cur ns s" and st: "\<forall>n \<in> set ns. settled (node_status n)" using o(1,4) by (simp_all add: settled_nodes_def)
  define s1 where "s1 = (power_up (ef_nor s))\<lparr>sector_cache := no_sectors_cached, env_cache := no_envs_cached, in_recovery_check := True\<rparr>"
  define s' where "s' = s1\<lparr>in_recovery_check := False, init_ok := True\<rparr>"
  have k: "kept cur ns s'" by (rule kept_cong [OF kept_power_up [OF kept]]) (simp_all add: s1_def s'_def power_up_def)
  obtain t1 t2 u1 u2 where "two_sectors cur t1 t2 u1 u2 (ef_nor s1)" using kept by (auto simp: kept_def s1_def power_up_def)
  then obtain m where h: "sector_iterator no_sector SECTOR_STORE_UNUSED 0 check_sec_hdr_cb False s1 = Some (m, 0, s1)"
    using check_hdr_two by blast
  have gc: "\<not> gc_request s1" by (simp add: s1_def power_up_def)
  note r = load_settled [OF k [unfolded s'_def] st gc]
  have "ef_load_env ((power_up (ef_nor s))\<lparr>sector_cache := no_sectors_cached, env_cache := no_envs_cached\<rparr>)
      = Some (s1\<lparr>in_recovery_check := False\<rparr>)"
    using h r(1) [of m] r(2) by (auto simp: ef_load_env_def s1_def [symmetric])
  then have "ef_env_init (power_up (ef_nor s)) = Some s'" by (simp add: ef_env_init_power_up s'_def)
  moreover have "store_ok cur ns s'"
    using k o(4,5,7) no_envs_cached_simps by (simp add: store_ok_def store_kept_def env_cached_in s'_def s1_def power_up_def)
  ultimately show ?thesis by (intro exI [of _ s']) (simp add: s'_def s1_def power_up_def)
qed

section \<open>A formatted sector\<close>

lemma format_sector_fresh:
  assumes alive: "\<not> dead (ef_nor s)" and sec: "sector_base sec" and cache: "sector_cache s = no_sectors_cached"
  shows "\<exists>f'. format_sector (word_of_nat sec) SECTOR_NOT_COMBINED s = (EF_NO_ERR, s\<lparr>ef_nor := f'\<rparr>) \<and> \<not> dead f' \<and> fresh sec f' \<and>
    (\<forall>p. p < sec \<or> sec + SECTOR_SIZE \<le> p \<longrightarrow> cells f' p = cells (ef_nor s) p)"
proof -
  have ne: "(word_of_nat sec :: u32) \<noteq> FAILED_ADDR" using sector_base_words(4) [OF sec] by (intro u32_not_failed) simp
  have len: "length no_sectors_cached = 4" by (simp add: no_sectors_cached_def)
  have room: "FAILED_ADDR \<in> sc_addr ` set no_sectors_cached \<or> word_of_nat sec \<in> sc_addr ` set no_sectors_cached"
    by (simp add: no_sectors_cached_simps)
  have none: "sc_addr (no_sectors_cached ! k) = FAILED_ADDR" if "k < 4" for k using that by (simp add: no_sectors_cached_def)
  have "\<not> in_sector (word_of_nat sec) (word_of_nat (sec + SECTOR_SIZE))" using in_sector_words(2) [OF sec, of "sec + 1"] by simp
  then have "update_sector_cache (word_of_nat sec) (word_of_nat (sec + SECTOR_SIZE)) (sector_cache s) = sector_cache s"
    unfolding cache using len ne room none
    by (elim update_sector_cache_changed [of no_sectors_cached "word_of_nat sec" "word_of_nat (sec + SECTOR_SIZE)"]) (auto simp del: of_nat_add)
  then show ?thesis using format_sector_result [OF alive sec] by auto
qed

text \<open>Both sectors formatted: the store is empty, and its first node can be made.\<close>

lemma first_default:
  assumes fresh: "fresh 0 (ef_nor s)" "fresh SECTOR_SIZE (ef_nor s)" and alive: "\<not> dead (ef_nor s)"
    and cache: "sector_cache s = no_sectors_cached" "env_cache s = no_envs_cached" and flags: "\<not> gc_request s" "\<not> last_is_complete_del s"
    and new: "node_ok (written_tab, key, v)" and fit: "node_size (written_tab, key, v) + 80 \<le> SECTOR_SIZE"
  shows "\<exists>s'. create_env_blob no_sector key v s = Some (EF_NO_ERR, s') \<and> in_recovery_check s' = in_recovery_check s \<and>
    store_ok 0 [(written_tab, key, v)] (s'\<lparr>in_recovery_check := False, init_ok := True\<rparr>)"
proof -
  have v: "vacant s"
    using fresh_empty [OF fresh(1)] fresh_empty [OF fresh(2)] alive cache flags no_sectors_cached_simps no_envs_cached_simps
    unfolding vacant_def by (intro conjI exI) simp_all
  obtain a1 a2 m where a: "alloc_env no_sector (word_of_nat (28 + length key + length v)) s = Some (word_of_nat 20, using_meta 0 a1 a2 [] m, s)"
    "empty_hdr 0 a1 a2 (ef_nor s)"
    using alloc_vacant [OF v, of "28 + length key + length v" no_sector] fit by auto
  have em: "empty_env no_sector = FAILED_ADDR" "empty_env (using_meta 0 a1 a2 [] m) = word_of_nat 20" by (simp_all add: no_sector_def using_meta_def free_at_def)
  have "create_env_blob no_sector key v s = create_env_blob (using_meta 0 a1 a2 [] m) key v s"
    using a(1) em new new_node_len [OF new] by (simp add: create_env_blob_def new_env_def)
  then show ?thesis using first_node [OF v a(2) refl new fit, of m] by auto
qed

section \<open>A flash without a store\<close>

definition unformatted :: "nat \<Rightarrow> nor \<Rightarrow> bool" where
  "unformatted sec f \<longleftrightarrow> magic_of (ef_port_read sec 20 f) 8 \<noteq> SECTOR_MAGIC_WORD"

lemma read_sector_unformatted:
  assumes "sector_base sec" "unformatted sec (ef_nor s)"
  shows "\<exists>m'. read_sector_meta_data (word_of_nat sec) m False s = Some (EF_ENV_INIT_FAILED, m', s) \<and>
    \<not> check_ok m' \<and> sec_addr m' = word_of_nat sec \<and> combined m' = SECTOR_NOT_COMBINED"
proof -
  have "unat (word_of_nat sec :: u32) = sec" using sector_base_words(4) [OF assms(1)] by (intro unat_u32) simp
  then show ?thesis using assms(2) by (simp add: read_sector_meta_data_def read_sector_hdr_def unformatted_def Let_def)
qed

lemma check_hdr_unformatted:
  assumes alive: "\<not> dead (ef_nor s)" and cache: "sector_cache s = no_sectors_cached"
    and none: "unformatted 0 (ef_nor s)" "unformatted SECTOR_SIZE (ef_nor s)"
  shows "\<exists>m' f'. sector_iterator m SECTOR_STORE_UNUSED 0 check_sec_hdr_cb False s = Some (m', 2, s\<lparr>ef_nor := f'\<rparr>) \<and> \<not> dead f'"
proof -
  obtain m1 where m1: "read_sector_meta_data 0 (m\<lparr>sec_addr := FAILED_ADDR\<rparr>) False s = Some (EF_ENV_INIT_FAILED, m1, s)"
    "\<not> check_ok m1" "sec_addr m1 = 0" "combined m1 = SECTOR_NOT_COMBINED"
    using read_sector_unformatted [of 0] none(1) by fastforce
  obtain f1 where f1: "format_sector 0 SECTOR_NOT_COMBINED s = (EF_NO_ERR, s\<lparr>ef_nor := f1\<rparr>)" "\<not> dead f1"
    "\<forall>p. SECTOR_SIZE \<le> p \<longrightarrow> cells f1 p = cells (ef_nor s) p"
    using format_sector_fresh [OF alive _ cache, of 0] by auto
  have "ef_port_read SECTOR_SIZE 20 f1 = ef_port_read SECTOR_SIZE 20 (ef_nor s)" using f1(3) by (intro read_cong) simp
  then have "unformatted SECTOR_SIZE f1" using none(2) by (simp add: unformatted_def)
  then obtain m2 where m2: "read_sector_meta_data SEC_SIZE m1 False (s\<lparr>ef_nor := f1\<rparr>) = Some (EF_ENV_INIT_FAILED, m2, s\<lparr>ef_nor := f1\<rparr>)"
    "\<not> check_ok m2" "sec_addr m2 = SEC_SIZE" "combined m2 = SECTOR_NOT_COMBINED"
    using read_sector_unformatted [of SECTOR_SIZE "s\<lparr>ef_nor := f1\<rparr>" m1] by auto
  obtain f2 where f2: "format_sector SEC_SIZE SECTOR_NOT_COMBINED (s\<lparr>ef_nor := f1\<rparr>) = (EF_NO_ERR, s\<lparr>ef_nor := f2\<rparr>)" "\<not> dead f2"
    using format_sector_fresh [of "s\<lparr>ef_nor := f1\<rparr>" SECTOR_SIZE] f1(2) cache by auto
  have nxt: "get_next_sector_addr (m\<lparr>sec_addr := FAILED_ADDR\<rparr>) = 0" "get_next_sector_addr m1 = SEC_SIZE" "get_next_sector_addr m2 = FAILED_ADDR"
    using m1(3,4) m2(3,4) by (simp_all add: get_next_sector_addr_def)
  show ?thesis unfolding sector_iterator_def
    using m1 m2 f1(1) f2 nxt
    by (intro exI [of _ m2] exI [of _ f2]) (simp add: walk_sectors.simps [of check_sec_hdr_cb] check_sec_hdr_cb_def)
qed

lemma set_default_fresh:
  assumes alive: "\<not> dead (ef_nor s)" and cache: "sector_cache s = no_sectors_cached" "env_cache s = no_envs_cached"
    and flags: "\<not> gc_request s" "\<not> last_is_complete_del s"
  shows "\<exists>s'. ef_set_default s = Some (EF_NO_ERR, s') \<and> in_recovery_check s' = in_recovery_check s \<and>
    store_ok 0 [(written_tab, bytes_of ''boot_times'', bytes_of ''0'')] (s'\<lparr>in_recovery_check := False, init_ok := True\<rparr>)"
proof -
  obtain f1 where f1: "format_sector 0 SECTOR_NOT_COMBINED s = (EF_NO_ERR, s\<lparr>ef_nor := f1\<rparr>)" "\<not> dead f1" "fresh 0 f1"
    using format_sector_fresh [OF alive _ cache(1), of 0] by auto
  obtain f2 where f2: "format_sector SEC_SIZE SECTOR_NOT_COMBINED (s\<lparr>ef_nor := f1\<rparr>) = (EF_NO_ERR, s\<lparr>ef_nor := f2\<rparr>)" "\<not> dead f2"
    "fresh SECTOR_SIZE f2" "\<forall>p. p < SECTOR_SIZE \<longrightarrow> cells f2 p = cells f1 p"
    using format_sector_fresh [of "s\<lparr>ef_nor := f1\<rparr>" SECTOR_SIZE] f1(2) cache(1) by auto
  have "fresh 0 f2" using f1(3) f2(4) by (subst fresh_cong [where f = f1]) auto
  moreover have "node_ok (written_tab, bytes_of ''boot_times'', bytes_of ''0'')" by simp
  moreover have "node_size (written_tab, bytes_of ''boot_times'', bytes_of ''0'') + 80 \<le> SECTOR_SIZE" by simp
  ultimately obtain s' where
    s': "create_env_blob no_sector (bytes_of ''boot_times'') (bytes_of ''0'') (s\<lparr>ef_nor := f2\<rparr>) = Some (EF_NO_ERR, s')"
    "store_ok 0 [(written_tab, bytes_of ''boot_times'', bytes_of ''0'')] (s'\<lparr>in_recovery_check := False, init_ok := True\<rparr>)"
    "in_recovery_check s' = in_recovery_check s"
    using first_default [of "s\<lparr>ef_nor := f2\<rparr>" "bytes_of ''boot_times''" "bytes_of ''0''"] f2(2,3) cache flags by auto
  then show ?thesis using f1(1) f2(1) by (simp add: ef_set_default_def)
qed

lemma settled_written: "settled (node_status (written_tab, key, v))"
  by (simp add: written_status)

lemma first_start_result:
  assumes alive: "\<not> dead f" and none: "unformatted 0 f" "unformatted SECTOR_SIZE f"
  shows "\<exists>s'. ef_env_init (power_up f) = Some s' \<and> store_ok 0 [(written_tab, bytes_of ''boot_times'', bytes_of ''0'')] s'"
proof -
  let ?ns = "[(written_tab, bytes_of ''boot_times'', bytes_of ''0'')]"
  define s1 where "s1 = (power_up f)\<lparr>sector_cache := no_sectors_cached, env_cache := no_envs_cached, in_recovery_check := True\<rparr>"
  obtain m f1 where h: "sector_iterator no_sector SECTOR_STORE_UNUSED 0 check_sec_hdr_cb False s1 = Some (m, 2, s1\<lparr>ef_nor := f1\<rparr>)" "\<not> dead f1"
    using check_hdr_unformatted [of s1 no_sector] alive none by (auto simp: s1_def power_up_def)
  obtain s2 where s2: "ef_set_default (s1\<lparr>ef_nor := f1\<rparr>) = Some (EF_NO_ERR, s2)"
    "store_ok 0 ?ns (s2\<lparr>in_recovery_check := False, init_ok := True\<rparr>)"
    using set_default_fresh [of "s1\<lparr>ef_nor := f1\<rparr>"] h(2) by (auto simp: s1_def power_up_def)
  have kept: "kept 0 ?ns (s2\<lparr>in_recovery_check := False, init_ok := True\<rparr>)" using store_okD(1) [OF s2(2)] .
  have gc: "\<not> gc_request s2" using store_okD(6) [OF s2(2)] by simp
  have "\<forall>n \<in> set ?ns. settled (node_status n)" using settled_written by (simp only: list.set) blast
  note r = load_settled [OF kept this gc]
  have "ef_load_env ((power_up f)\<lparr>sector_cache := no_sectors_cached, env_cache := no_envs_cached\<rparr>)
      = Some (s2\<lparr>in_recovery_check := False\<rparr>)"
    using h(1) s2(1) r(1) [of m] r(2) by (auto simp: ef_load_env_def s1_def [symmetric])
  then show ?thesis using s2(2) by (simp add: ef_env_init_power_up)
qed

end
