(* ===== verification/Ef_Contract.thy ===== *)
theory Ef_Contract
  imports Ef_Boot Env_Store
begin

text \<open>
  What the flash store promises to its users: its operations against a map of names to values, over restarts, and as
  the store of \<open>Env_Store\<close> the device table is kept in.
\<close>

section \<open>Bytes and texts\<close>

definition text_of :: "bytes \<Rightarrow> string" where
  "text_of b = map char_of_byte b"

lemma text_of_bytes_of [simp]: "text_of (bytes_of s) = s"
  by (simp add: text_of_def bytes_of_def comp_def)

lemma bytes_of_inject [simp]: "bytes_of s = bytes_of t \<longleftrightarrow> s = t"
  by (metis text_of_bytes_of)

lemma bytes_of_text_of [simp]: "bytes_of (text_of b) = b"
proof -
  have "byte_of (char_of_byte c) = c" for c
  proof (rule word_unat_eq_iff [THEN iffD2])
    have "unat c < 256" using unsigned_less [of c] by simp
    then show "unat (byte_of (char_of_byte c)) = unat c" by (simp add: char_of_byte_def)
  qed
  then show ?thesis by (simp add: text_of_def bytes_of_def comp_def)
qed

lemma text_of_eq: "text_of b = s \<longleftrightarrow> b = bytes_of s"
  by (metis text_of_bytes_of bytes_of_text_of)

text \<open>A map of texts as a map of bytes.\<close>

definition bytes_env :: "ef_env \<Rightarrow> bytes \<rightharpoonup> bytes" where
  "bytes_env e k = map_option bytes_of (e (text_of k))"

lemma bytes_env_simps:
  "bytes_env e (bytes_of k) = map_option bytes_of (e k)" "bytes_env (ef_set_env k v e) = (bytes_env e)(bytes_of k \<mapsto> bytes_of v)"
  by (auto simp: bytes_env_def ef_set_env_def text_of_eq)

definition env_rel :: "string set \<Rightarrow> ef_env \<Rightarrow> ef \<Rightarrow> bool" where
  "env_rel K e s \<longleftrightarrow> ef_rel (bytes_of ` K) (bytes_env e) s"

lemma first_start_rel:
  assumes f: "\<not> dead f" "unformatted 0 f" "unformatted SECTOR_SIZE f"
    and K: "inj_on (crc_of_name \<circ> bytes_of) K" "''boot_times'' \<in> K"
  shows "\<exists>s'. ef_env_init (power_up f) = Some s' \<and> env_rel K ef_env_set_default s'"
proof -
  let ?ns = "[(written_tab, bytes_of ''boot_times'', bytes_of ''0'')]"
  obtain s' where s': "ef_env_init (power_up f) = Some s'" "store_ok 0 ?ns s'"
    using first_start_result [OF f] by blast
  have e: "contents ?ns = bytes_env ef_env_set_default"
  proof
    fix k
    show "contents ?ns k = bytes_env ef_env_set_default k"
      by (simp add: contents_def bytes_env_def ef_env_set_default_def written_status text_of_eq)
  qed
  have "dom (bytes_env ef_env_set_default) \<subseteq> bytes_of ` K"
    using K(2) by (auto simp: bytes_env_def ef_env_set_default_def text_of_eq split: if_splits)
  moreover have "inj_on crc_of_name (bytes_of ` K)" using K(1) by (rule inj_on_imageI)
  ultimately show ?thesis using s' e unfolding env_rel_def ef_rel_def by (intro exI [of _ s'] conjI exI [of _ 0] exI [of _ ?ns]) simp_all
qed

lemma default_size: "env_size (bytes_env ef_env_set_default) = 39"
proof -
  have dom: "dom (bytes_env ef_env_set_default) = {bytes_of ''boot_times''}"
    by (auto simp: bytes_env_def ef_env_set_default_def text_of_eq split: if_splits)
  have "bytes_env ef_env_set_default (bytes_of ''boot_times'') = Some (bytes_of ''0'')" by (simp add: bytes_env_def ef_env_set_default_def)
  then show ?thesis unfolding env_size_def dom by simp
qed

section \<open>Concrete stores\<close>

text \<open>An erased chip, and some names of the firmware.\<close>

definition erased_nor :: nor where
  "erased_nor = \<lparr>cells = (\<lambda>_. 0xFF), dead = False\<rparr>"

definition some_names :: "string set" where
  "some_names = {''boot_times'', ''Learn_Nums'', ''Main_Nums''}"

lemma erased_unformatted: "unformatted 0 erased_nor" "unformatted SECTOR_SIZE erased_nor" "\<not> dead erased_nor"
  by (simp_all add: unformatted_def erased_nor_def magic_of_def push_bit_eq_mult)

lemma some_names_crc: "inj_on (crc_of_name \<circ> bytes_of) some_names"
proof -
  have "crc_of_name (bytes_of ''boot_times'') \<noteq> crc_of_name (bytes_of ''Learn_Nums'')"
    "crc_of_name (bytes_of ''boot_times'') \<noteq> crc_of_name (bytes_of ''Main_Nums'')"
    "crc_of_name (bytes_of ''Learn_Nums'') \<noteq> crc_of_name (bytes_of ''Main_Nums'')"
    by code_simp+
  then show ?thesis by (auto simp: some_names_def inj_on_def)
qed

lemma some_store: "\<exists>s. env_rel some_names ef_env_set_default s"
  using first_start_rel [OF erased_unformatted(3,1,2) some_names_crc] by (auto simp: some_names_def)

section \<open>The contract\<close>

text \<open>Property C6. Sequences of settings, lookups and deletions of any length on the flash give the answers of a map of names to
  values, and leave the flash in a state that holds the map's final contents, as long as the names have different checksums
  and, at each setting, the nodes in use and the new one fit in a sector beside its header and a reserve of 60 bytes: every
  operation comes to an end, sets report success, a lookup returns the stored value as far as the buffer reaches, and deleting an
  unknown name is reported. Settings that fill the sector or find it full collect the garbage and go on in the other sector.\<close>

theorem flash_store_refines_map:
  assumes "ef_rel K e s" "\<forall>x \<in> set xs. op_ok K x" "fits ef_room xs e"
  shows "\<exists>s'. kv_run ef_set_text ef_get_blob ef_del_env xs s = Some (fst (map_run xs e), s') \<and> ef_rel K (snd (map_run xs e)) s'"
  using assms by (rule ef_kv.run_refines)

theorem flash_store_refines_map_witness:
  "\<exists>s s'. kv_run ef_set_text ef_get_blob ef_del_env
      (replicate 10000 (Put (bytes_of ''Learn_Nums'') [49]) @
       [Get (bytes_of ''Learn_Nums'') 64, Remove (bytes_of ''Learn_Nums''), Remove (bytes_of ''Learn_Nums'')]) s
    = Some (replicate 10000 (Done EF_NO_ERR) @ [Found [49], Done EF_NO_ERR, Done EF_ENV_NAME_ERR], s')"
proof -
  let ?k = "bytes_of ''Learn_Nums''" and ?e = "bytes_env ef_env_set_default" and ?xs = "replicate 10000 (Put (bytes_of ''Learn_Nums'') [49])"
  obtain s where s: "ef_rel (bytes_of ` some_names) ?e s" using some_store unfolding env_rel_def by blast
  have "finite (dom ?e)" using s finite_contents unfolding ef_rel_def by metis
  then have "env_size (?e(?k \<mapsto> [49])) \<le> 39 + (28 + length ?k + 1)" using env_size_put [of ?e ?k "[49]"] default_size by simp
  then have r: "ef_room ?e ?k [49]" "ef_room (?e(?k \<mapsto> [49])) ?k [49]" by (simp_all add: ef_room_def default_size)
  note rep = fits_repeat [OF r, where n = 10000]
  have "\<forall>x \<in> set (?xs @ [Get ?k 64, Remove ?k, Remove ?k]). op_ok (bytes_of ` some_names) x" by (simp add: some_names_def)
  moreover have "fits ef_room (?xs @ [Get ?k 64, Remove ?k, Remove ?k]) ?e" using rep by (simp only: fits_append) simp
  ultimately obtain s' where "kv_run ef_set_text ef_get_blob ef_del_env (?xs @ [Get ?k 64, Remove ?k, Remove ?k]) s
      = Some (fst (map_run (?xs @ [Get ?k 64, Remove ?k, Remove ?k]) ?e), s')"
    using flash_store_refines_map [OF s] by blast
  then show ?thesis using rep(2) by (intro exI [of _ s] exI [of _ s']) (simp only: map_run_append, simp)
qed

text \<open>Property C7. What is stored survives a restart: initialisation on the flash of a store that holds a map, with all
  statics back at their initial values, comes to an end and gives a store that holds the same map.\<close>

theorem restart_keeps_contents:
  assumes "ef_rel K e s"
  shows "\<exists>s'. ef_env_init (power_up (ef_nor s)) = Some s' \<and> ef_rel K e s'"
  using assms restart_result unfolding ef_rel_def by blast

theorem restart_keeps_contents_witness:
  "\<exists>s s'. ef_rel (bytes_of ` some_names) (bytes_env ef_env_set_default) s \<and> ef_env_init (power_up (ef_nor s)) = Some s' \<and>
    ef_rel (bytes_of ` some_names) (bytes_env ef_env_set_default) s'"
  using restart_keeps_contents some_store unfolding env_rel_def by blast

text \<open>Property C9. On a flash without a sector header, initialisation formats both sectors and stores the default set: the
  result holds the map of \<open>ef_env_set_default\<close>.\<close>

theorem first_start_default:
  assumes "\<not> dead f" "unformatted 0 f" "unformatted SECTOR_SIZE f" "inj_on (crc_of_name \<circ> bytes_of) K" "''boot_times'' \<in> K"
  shows "\<exists>s'. ef_env_init (power_up f) = Some s' \<and> env_rel K ef_env_set_default s'"
  using assms by (rule first_start_rel)

theorem first_start_default_witness:
  "\<exists>s'. ef_env_init (power_up erased_nor) = Some s' \<and> env_rel some_names ef_env_set_default s'"
  using first_start_default [OF erased_unformatted(3,1,2) some_names_crc] by (simp add: some_names_def)

text \<open>Property C8. The store of \<open>Env_Store\<close>, in which the device table is modelled, is what EasyFlash implements: where the
  flash holds the map, \<open>ef_set_env\<close> on the flash succeeds and the flash holds the updated map as long as the texts in use fit in a
  sector, and \<open>ef_get_env_blob\<close> copies the bytes the map gives.\<close>

theorem flash_store_is_env_store:
  assumes "env_rel K e s" "k \<in> K" "0 < length k" "length k \<le> 32" "ef_room (bytes_env e) (bytes_of k) (bytes_of v)"
  shows "\<exists>s1 len s2. ef_set_text (bytes_of k) (bytes_of v) s = Some (EF_NO_ERR, s1) \<and> env_rel K (ef_set_env k v e) s1 \<and>
    ef_get_blob (bytes_of k) n s = Some (bytes_of (ef_get_env_blob e k n), len, s2) \<and> env_rel K e s2"
proof -
  have rel: "ef_rel (bytes_of ` K) (bytes_env e) s" and k: "bytes_of k \<in> bytes_of ` K" using assms by (simp_all add: env_rel_def)
  obtain s1 where "ef_set_text (bytes_of k) (bytes_of v) s = Some (EF_NO_ERR, s1)" "ef_rel (bytes_of ` K) (bytes_env (ef_set_env k v e)) s1"
    using ef_kv.put_law [OF rel, of "bytes_of k" "bytes_of v"] assms k by (auto simp: bytes_env_simps)
  moreover have got: "(case bytes_env e (bytes_of k) of None \<Rightarrow> [] | Some v \<Rightarrow> take n v) = bytes_of (ef_get_env_blob e k n)"
    unfolding bytes_env_simps by (auto simp: ef_get_env_blob_def bytes_of_def take_map split: option.split)
  obtain len s2 where "ef_get_blob (bytes_of k) n s = Some (bytes_of (ef_get_env_blob e k n), len, s2)"
    "ef_rel (bytes_of ` K) (bytes_env e) s2"
    using ef_kv.get_law [OF rel k, of n] unfolding got by blast
  ultimately show ?thesis unfolding env_rel_def by blast
qed

theorem flash_store_is_env_store_witness:
  "\<exists>s s1 len s2. ef_set_text (bytes_of ''Main_Nums'') (bytes_of ''1'') s = Some (EF_NO_ERR, s1) \<and>
    env_rel some_names (ef_set_env ''Main_Nums'' ''1'' ef_env_set_default) s1 \<and>
    ef_get_blob (bytes_of ''Main_Nums'') 64 s = Some (bytes_of (ef_get_env_blob ef_env_set_default ''Main_Nums'' 64), len, s2)"
proof -
  obtain s where "env_rel some_names ef_env_set_default s" using some_store by blast
  from flash_store_is_env_store [OF this, of "''Main_Nums''" "''1''" 64] show ?thesis by (auto simp: some_names_def ef_room_def default_size)
qed

end
