(* ===== verification/Ax5043.thy ===== *)
theory Ax5043
  imports Prelude "HOL-Library.Monad_Syntax"
begin

unbundle bit_operations_syntax

text \<open>
  The driver of the radio chip AX5043 (\<open>src/radio/Radio_Drv.c\<close>, \<open>src/radio/Radio_Common.c\<close>, \<open>src/radio/Radio_433.c\<close>,
  \<open>src/radio/Config_433.h\<close>). The chip and the SPI bus to it are a parameter: a bus sends bytes to the chip, or sends
  bytes and returns an answer, as \<open>rt_spi_send_then_send\<close> and \<open>rt_spi_send_then_recv\<close> do; \<open>socket\<close> is the state of the chip.
  A loop that waits for the chip is a partial function, \<open>None\<close> stands for a wait that does not end. A loop that waits
  for the interrupt thread ends a step. Registers are named as in \<open>AX5043.h\<close> without their prefix.
\<close>

section \<open>Registers and states\<close>

abbreviation (input) REG_PWRMODE :: "'a::numeral" where "REG_PWRMODE \<equiv> 0x2"
abbreviation (input) REG_SCRATCH :: "'a::numeral" where "REG_SCRATCH \<equiv> 0x1"
abbreviation (input) REG_POWSTICKYSTAT :: "'a::numeral" where "REG_POWSTICKYSTAT \<equiv> 0x4"
abbreviation (input) REG_IRQMASK1 :: "'a::numeral" where "REG_IRQMASK1 \<equiv> 0x6"
abbreviation (input) REG_IRQMASK0 :: "'a::numeral" where "REG_IRQMASK0 \<equiv> 0x7"
abbreviation (input) REG_RADIOEVENTMASK0 :: "'a::numeral" where "REG_RADIOEVENTMASK0 \<equiv> 0x9"
abbreviation (input) REG_IRQREQUEST0 :: "'a::numeral" where "REG_IRQREQUEST0 \<equiv> 0xD"
abbreviation (input) REG_RADIOEVENTREQ0 :: "'a::numeral" where "REG_RADIOEVENTREQ0 \<equiv> 0xF"
abbreviation (input) REG_MODULATION :: "'a::numeral" where "REG_MODULATION \<equiv> 0x10"
abbreviation (input) REG_FRAMING :: "'a::numeral" where "REG_FRAMING \<equiv> 0x12"
abbreviation (input) REG_RADIOSTATE :: "'a::numeral" where "REG_RADIOSTATE \<equiv> 0x1C"
abbreviation (input) REG_PINFUNCIRQ :: "'a::numeral" where "REG_PINFUNCIRQ \<equiv> 0x24"
abbreviation (input) REG_FIFOSTAT :: "'a::numeral" where "REG_FIFOSTAT \<equiv> 0x28"
abbreviation (input) REG_FIFODATA :: "'a::numeral" where "REG_FIFODATA \<equiv> 0x29"
abbreviation (input) REG_FIFOFREE1 :: "'a::numeral" where "REG_FIFOFREE1 \<equiv> 0x2C"
abbreviation (input) REG_FIFOFREE0 :: "'a::numeral" where "REG_FIFOFREE0 \<equiv> 0x2D"
abbreviation (input) REG_FIFOTHRESH1 :: "'a::numeral" where "REG_FIFOTHRESH1 \<equiv> 0x2E"
abbreviation (input) REG_FIFOTHRESH0 :: "'a::numeral" where "REG_FIFOTHRESH0 \<equiv> 0x2F"
abbreviation (input) REG_PLLLOOP :: "'a::numeral" where "REG_PLLLOOP \<equiv> 0x30"
abbreviation (input) REG_PLLCPI :: "'a::numeral" where "REG_PLLCPI \<equiv> 0x31"
abbreviation (input) REG_PLLRANGINGA :: "'a::numeral" where "REG_PLLRANGINGA \<equiv> 0x33"
abbreviation (input) REG_PLLRANGINGB :: "'a::numeral" where "REG_PLLRANGINGB \<equiv> 0x3B"
abbreviation (input) REG_FREQA0 :: "'a::numeral" where "REG_FREQA0 \<equiv> 0x37"
abbreviation (input) REG_FREQA1 :: "'a::numeral" where "REG_FREQA1 \<equiv> 0x36"
abbreviation (input) REG_FREQA2 :: "'a::numeral" where "REG_FREQA2 \<equiv> 0x35"
abbreviation (input) REG_FREQA3 :: "'a::numeral" where "REG_FREQA3 \<equiv> 0x34"
abbreviation (input) REG_FSKDEV2 :: "'a::numeral" where "REG_FSKDEV2 \<equiv> 0x161"
abbreviation (input) REG_FSKDEV1 :: "'a::numeral" where "REG_FSKDEV1 \<equiv> 0x162"
abbreviation (input) REG_FSKDEV0 :: "'a::numeral" where "REG_FSKDEV0 \<equiv> 0x163"
abbreviation (input) REG_TXPWRCOEFFB1 :: "'a::numeral" where "REG_TXPWRCOEFFB1 \<equiv> 0x16A"
abbreviation (input) REG_TXPWRCOEFFB0 :: "'a::numeral" where "REG_TXPWRCOEFFB0 \<equiv> 0x16B"
abbreviation (input) REG_PLLVCOI :: "'a::numeral" where "REG_PLLVCOI \<equiv> 0x180"
abbreviation (input) REG_PKTADDRCFG :: "'a::numeral" where "REG_PKTADDRCFG \<equiv> 0x200"
abbreviation (input) REG_PKTLENOFFSET :: "'a::numeral" where "REG_PKTLENOFFSET \<equiv> 0x202"
abbreviation (input) REG_TMGRXAGC :: "'a::numeral" where "REG_TMGRXAGC \<equiv> 0x227"
abbreviation (input) REG_TMGRXPREAMBLE1 :: "'a::numeral" where "REG_TMGRXPREAMBLE1 \<equiv> 0x229"
abbreviation (input) REG_RSSIREFERENCE :: "'a::numeral" where "REG_RSSIREFERENCE \<equiv> 0x22C"
abbreviation (input) REG_PKTMISCFLAGS :: "'a::numeral" where "REG_PKTMISCFLAGS \<equiv> 0x231"
abbreviation (input) REG_PKTSTOREFLAGS :: "'a::numeral" where "REG_PKTSTOREFLAGS \<equiv> 0x232"
abbreviation (input) REG_GPADCCTRL :: "'a::numeral" where "REG_GPADCCTRL \<equiv> 0x300"
abbreviation (input) REG_GPADC13VALUE1 :: "'a::numeral" where "REG_GPADC13VALUE1 \<equiv> 0x308"
abbreviation (input) REG_GPADC13VALUE0 :: "'a::numeral" where "REG_GPADC13VALUE0 \<equiv> 0x309"
abbreviation (input) REG_LPOSCCONFIG :: "'a::numeral" where "REG_LPOSCCONFIG \<equiv> 0x310"
abbreviation (input) REG_F35 :: "'a::numeral" where "REG_F35 \<equiv> 0xF35"

abbreviation (input) trxstate_off :: u8 where "trxstate_off \<equiv> 0x00"
abbreviation (input) trxstate_rx :: u8 where "trxstate_rx \<equiv> 0x01"
abbreviation (input) trxstate_wait_xtal :: u8 where "trxstate_wait_xtal \<equiv> 0x03"
abbreviation (input) trxstate_xtal_ready :: u8 where "trxstate_xtal_ready \<equiv> 0x04"
abbreviation (input) trxstate_pll_ranging :: u8 where "trxstate_pll_ranging \<equiv> 0x05"
abbreviation (input) trxstate_pll_ranging_done :: u8 where "trxstate_pll_ranging_done \<equiv> 0x06"
abbreviation (input) trxstate_pll_settling :: u8 where "trxstate_pll_settling \<equiv> 0x07"
abbreviation (input) trxstate_pll_settled :: u8 where "trxstate_pll_settled \<equiv> 0x08"
abbreviation (input) trxstate_tx_xtalwait :: u8 where "trxstate_tx_xtalwait \<equiv> 0x09"
abbreviation (input) trxstate_tx_longpreamble :: u8 where "trxstate_tx_longpreamble \<equiv> 0x0A"
abbreviation (input) trxstate_tx_shortpreamble :: u8 where "trxstate_tx_shortpreamble \<equiv> 0x0B"
abbreviation (input) trxstate_tx_packet :: u8 where "trxstate_tx_packet \<equiv> 0x0C"
abbreviation (input) trxstate_tx_waitdone :: u8 where "trxstate_tx_waitdone \<equiv> 0x0D"

abbreviation (input) PWRSTATE_POWERDOWN :: u8 where "PWRSTATE_POWERDOWN \<equiv> 0x00"
abbreviation (input) PWRSTATE_XTAL_ON :: u8 where "PWRSTATE_XTAL_ON \<equiv> 0x05"
abbreviation (input) PWRSTATE_FIFO_ON :: u8 where "PWRSTATE_FIFO_ON \<equiv> 0x07"
abbreviation (input) PWRSTATE_FULL_RX :: u8 where "PWRSTATE_FULL_RX \<equiv> 0x09"
abbreviation (input) PWRSTATE_SYNTH_TX :: u8 where "PWRSTATE_SYNTH_TX \<equiv> 0x0C"
abbreviation (input) PWRSTATE_FULL_TX :: u8 where "PWRSTATE_FULL_TX \<equiv> 0x0D"

abbreviation (input) AXRADIO_ERR_NOERROR :: u8 where "AXRADIO_ERR_NOERROR \<equiv> 0"
abbreviation (input) AXRADIO_ERR_RANGING :: u8 where "AXRADIO_ERR_RANGING \<equiv> 6"
abbreviation (input) FIFOCMD_DATA :: u8 where "FIFOCMD_DATA \<equiv> 0x01"
abbreviation (input) FIFOCMD_REPEATDATA :: u8 where "FIFOCMD_REPEATDATA \<equiv> 0x02"
abbreviation (input) FIFOCMD_TIMER :: u8 where "FIFOCMD_TIMER \<equiv> 0x10"
abbreviation (input) FIFOCMD_RSSI :: u8 where "FIFOCMD_RSSI \<equiv> 0x11"
abbreviation (input) FIFOCMD_RFFREQOFFS :: u8 where "FIFOCMD_RFFREQOFFS \<equiv> 0x13"
abbreviation (input) FIFOCMD_ANTRSSI :: u8 where "FIFOCMD_ANTRSSI \<equiv> 0x15"

record 'c spi =
  spi_send :: "bytes \<Rightarrow> 'c \<Rightarrow> 'c"
  spi_recv :: "bytes \<Rightarrow> nat \<Rightarrow> 'c \<Rightarrow> bytes \<times> 'c"

record ax5043_config =
  axradio_phy_vcocalib :: u8
  axradio_phy_preamble_len :: u8
  axradio_framing_synclen :: u8
  axradio_phy_preamble_flags :: u8
  axradio_phy_preamble_byte :: u8
  axradio_phy_preamble_appendbits :: u8
  axradio_phy_preamble_appendpattern :: u8
  axradio_phy_chanfreq :: u32
  axradio_phy_chanvcoiinit :: u8
  axradio_phy_chanpllrnginit :: u8
  axradio_phy_maxfreqoffset :: int
  axradio_phy_rssioffset :: u8
  axradio_phy_rssireference :: u8
  axradio_framing_syncflags :: u8
  axradio_framing_syncword :: bytes

text \<open>The two buffers have 64 cells; there is one channel.\<close>

record 'c ax5043 =
  socket :: 'c
  config :: ax5043_config
  ubRssi :: int
  ubRFState :: u8
  TXBuff :: memory
  TxLen :: u8
  RXBuff :: memory
  RxLen :: u8
  axradio_phy_chanpllrng :: u8
  axradio_phy_chanvcoi :: u8
  dev_power_now :: u8
  RegValue :: "(u16 \<times> u8) list"
  TXRegValue :: "(u16 \<times> u8) list"
  RXRegValue :: "(u16 \<times> u8) list"
  axradio_txbuffer_cnt :: u32

definition set_registers_433 :: "(u16 \<times> u8) list" where
  "set_registers_433 =
    [(0x010, 0x08), (0x011, 0x00), (0x012, 0x26), (0x021, 0x01), (0x022, 0x01), (0x023, 0x01), (0x025, 0x04), (0x026, 0x00),
     (0x06E, 0x01), (0x100, 0x01), (0x101, 0xE4), (0x102, 0x16), (0x103, 0x00), (0x104, 0x3D), (0x105, 0x8D), (0x106, 0x00),
     (0x107, 0x00), (0x108, 0x00), (0x109, 0x80), (0x10A, 0x02), (0x10B, 0x31), (0x10C, 0x00), (0x10D, 0xA6), (0x10E, 0xFF),
     (0x10F, 0x5A), (0x115, 0x00), (0x117, 0xF4), (0x120, 0xC5), (0x121, 0x84), (0x124, 0xF8), (0x125, 0xF2), (0x126, 0xC3),
     (0x127, 0x0F), (0x128, 0x1F), (0x129, 0x08), (0x12A, 0x08), (0x12B, 0x06), (0x12C, 0x00), (0x12D, 0x00), (0x12F, 0x00),
     (0x130, 0xC5), (0x131, 0x84), (0x132, 0x00), (0x133, 0x00), (0x134, 0xF6), (0x135, 0xF1), (0x136, 0xC3), (0x137, 0x0F),
     (0x138, 0x1F), (0x139, 0x08), (0x13A, 0x08), (0x13B, 0x06), (0x13C, 0x00), (0x13D, 0x3E), (0x13E, 0x16), (0x13F, 0x00),
     (0x150, 0xFF), (0x151, 0x84), (0x152, 0x00), (0x153, 0x00), (0x154, 0xF5), (0x155, 0xF0), (0x156, 0xC3), (0x157, 0x0F),
     (0x158, 0x1F), (0x159, 0x0C), (0x15A, 0x0C), (0x15B, 0x06), (0x15C, 0x00), (0x15D, 0x3E), (0x15E, 0x16), (0x15F, 0x00),
     (0x160, 0x00), (0x161, 0x00), (0x162, 0x04), (0x163, 0x2F), (0x164, 0x05), (0x165, 0x00), (0x166, 0x0C), (0x167, 0x19),
     (0x16A, 0x07), (0x16B, 0x00), (0x180, 0x99), (0x183, 0x04), (0x188, 0x0F), (0x189, 0x77), (0x200, 0x00), (0x201, 0x80),
     (0x202, 0x00), (0x203, 0xC8), (0x210, 0xAA), (0x211, 0xCC), (0x212, 0xAA), (0x213, 0xCC), (0x214, 0x9F), (0x216, 0x1F),
     (0x218, 0x55), (0x219, 0x55), (0x21C, 0x8A), (0x21E, 0x0A), (0x220, 0x3E), (0x221, 0x31), (0x223, 0x3E), (0x224, 0x31),
     (0x225, 0x00), (0x226, 0x7F), (0x228, 0x03), (0x22A, 0x35), (0x22D, 0xE0), (0x22F, 0x00), (0x230, 0x0D), (0x233, 0x20),
     (0x330, 0x00), (0x331, 0x00), (0x332, 0x00), (0xF0D, 0x03), (0xF10, 0x04), (0xF11, 0x00), (0xF1C, 0x07), (0xF21, 0x68),
     (0xF22, 0xFF), (0xF23, 0x84), (0xF26, 0x98), (0xF34, 0x28), (0xF35, 0x11), (0xF44, 0x25)]"

definition set_registers_tx_433 :: "(u16 \<times> u8) list" where
  "set_registers_tx_433 = [(0x030, 0x0B), (0x031, 0x10), (0x032, 0x24), (0x184, 0x00), (0xF00, 0x0F), (0xF18, 0x06)]"

definition set_registers_rx_433 :: "(u16 \<times> u8) list" where
  "set_registers_rx_433 = [(0x030, 0x0B), (0x031, 0x10), (0x032, 0x24), (0x184, 0x00), (0xF00, 0x0F), (0xF18, 0x02)]"

section \<open>Register access\<close>

definition Ax5043_Spi_Reset :: "'c spi \<Rightarrow> 'c ax5043 \<Rightarrow> 'c ax5043" where
  "Ax5043_Spi_Reset b dev =
    dev\<lparr>socket := spi_send b [REG_PWRMODE OR 0x80, 0x00] (spi_send b [REG_PWRMODE OR 0x80, 0x80] (socket dev))\<rparr>"

definition SpiWriteSingleAddressRegister :: "'c spi \<Rightarrow> u8 \<Rightarrow> u8 \<Rightarrow> 'c ax5043 \<Rightarrow> 'c ax5043" where
  "SpiWriteSingleAddressRegister b Addr dat dev = dev\<lparr>socket := spi_send b [Addr OR 0x80, dat] (socket dev)\<rparr>"

definition SpiWriteLongAddressRegister :: "'c spi \<Rightarrow> u16 \<Rightarrow> u8 \<Rightarrow> 'c ax5043 \<Rightarrow> 'c ax5043" where
  "SpiWriteLongAddressRegister b Addr dat dev =
    (let ubAddr = Addr OR 0xF000
     in dev\<lparr>socket := spi_send b [ucast (drop_bit 8 (ubAddr AND 0xFF00)), ucast (ubAddr AND 0x00FF), dat] (socket dev)\<rparr>)"

definition SpiWriteData :: "'c spi \<Rightarrow> memory \<Rightarrow> u8 \<Rightarrow> 'c ax5043 \<Rightarrow> 'c ax5043" where
  "SpiWriteData b pBuf len dev =
    dev\<lparr>socket := spi_send b ((REG_FIFODATA OR 0x80) # map pBuf [0..<unat len]) (socket dev)\<rparr>"

definition SpiReadSingleAddressRegister :: "'c spi \<Rightarrow> u8 \<Rightarrow> 'c ax5043 \<Rightarrow> u8 \<times> 'c ax5043" where
  "SpiReadSingleAddressRegister b Addr dev =
    (case spi_recv b [Addr AND 0x7F] 1 (socket dev) of (RcvAddr, c) \<Rightarrow> (hd RcvAddr, dev\<lparr>socket := c\<rparr>))"

definition SpiReadLongAddressRegister :: "'c spi \<Rightarrow> u16 \<Rightarrow> 'c ax5043 \<Rightarrow> u8 \<times> 'c ax5043" where
  "SpiReadLongAddressRegister b Addr dev =
    (let ubAddr = Addr OR 0x7000
     in case spi_recv b [ucast (drop_bit 8 (ubAddr AND 0xFF00)), ucast (ubAddr AND 0x00FF)] 1 (socket dev) of
          (RcvAddr, c) \<Rightarrow> (hd RcvAddr, dev\<lparr>socket := c\<rparr>))"

definition SpiReadData :: "'c spi \<Rightarrow> u8 \<Rightarrow> 'c ax5043 \<Rightarrow> bytes \<times> 'c ax5043" where
  "SpiReadData b len dev =
    (case spi_recv b [REG_FIFODATA AND 0x7F] (unat len) (socket dev) of (bs, c) \<Rightarrow> (bs, dev\<lparr>socket := c\<rparr>))"

text \<open>Several writes in a row.\<close>

definition write_regs :: "'c spi \<Rightarrow> (u8 \<times> u8) list \<Rightarrow> 'c ax5043 \<Rightarrow> 'c ax5043" where
  "write_regs b rs dev = fold (\<lambda>(a, v). SpiWriteSingleAddressRegister b a v) rs dev"

definition write_long_regs :: "'c spi \<Rightarrow> (u16 \<times> u8) list \<Rightarrow> 'c ax5043 \<Rightarrow> 'c ax5043" where
  "write_long_regs b rs dev = fold (\<lambda>(a, v). SpiWriteLongAddressRegister b a v) rs dev"

section \<open>Register sets\<close>

definition axradio_get_pllvcoi :: "'c spi \<Rightarrow> 'c ax5043 \<Rightarrow> u8 \<times> 'c ax5043" where
  "axradio_get_pllvcoi b dev =
    (let cfg = config dev
     in if axradio_phy_vcocalib cfg \<noteq> 0 \<and> axradio_phy_chanvcoi dev AND 0x80 \<noteq> 0 then (axradio_phy_chanvcoi dev, dev)
        else
          (let x = axradio_phy_chanvcoiinit cfg
           in if x AND 0x80 \<noteq> 0 then
                (if axradio_phy_chanpllrnginit cfg AND 0xF0 = 0
                 then ((x + ((axradio_phy_chanpllrng dev AND 0x0F) - (axradio_phy_chanpllrnginit cfg AND 0x0F))) AND 0x3F OR 0x80, dev)
                 else (x, dev))
              else SpiReadLongAddressRegister b REG_PLLVCOI dev))"

definition InitAx5043REG :: "'c spi \<Rightarrow> 'c ax5043 \<Rightarrow> 'c ax5043" where
  "InitAx5043REG b dev =
    (let dev = write_long_regs b (map (\<lambda>i. RegValue dev ! i) [0..<125]) dev;
         (v, dev) = SpiReadLongAddressRegister b REG_PKTLENOFFSET dev;
         dev = SpiWriteLongAddressRegister b REG_PKTLENOFFSET v dev;
         dev = SpiWriteSingleAddressRegister b REG_PINFUNCIRQ 0x03 dev
     in SpiWriteLongAddressRegister b REG_PKTSTOREFLAGS 0x15 dev)"

definition ax5043_init_registers_common :: "'c spi \<Rightarrow> 'c ax5043 \<Rightarrow> u8 \<times> 'c ax5043" where
  "ax5043_init_registers_common b dev =
    (let rng = axradio_phy_chanpllrng dev
     in if rng AND 0x20 \<noteq> 0 then (AXRADIO_ERR_RANGING, dev)
        else
          (let (x, dev) = SpiReadSingleAddressRegister b REG_PLLLOOP dev;
               dev = (if x AND 0x80 \<noteq> 0 then SpiWriteSingleAddressRegister b REG_PLLRANGINGB (rng AND 0x0F) dev
                      else SpiWriteSingleAddressRegister b REG_PLLRANGINGA (rng AND 0x0F) dev);
               (rng, dev) = axradio_get_pllvcoi b dev
           in (AXRADIO_ERR_NOERROR, if rng AND 0x80 \<noteq> 0 then SpiWriteLongAddressRegister b REG_PLLVCOI rng dev else dev)))"

definition Ax5043SetRegisters_TX :: "'c spi \<Rightarrow> 'c ax5043 \<Rightarrow> u8 \<times> 'c ax5043" where
  "Ax5043SetRegisters_TX b dev =
    ax5043_init_registers_common b (write_long_regs b (map (\<lambda>i. TXRegValue dev ! i) [0..<6]) dev)"

definition Ax5043SetRegisters_RX :: "'c spi \<Rightarrow> 'c ax5043 \<Rightarrow> u8 \<times> 'c ax5043" where
  "Ax5043SetRegisters_RX b dev =
    ax5043_init_registers_common b (write_long_regs b (map (\<lambda>i. RXRegValue dev ! i) [0..<6]) dev)"

partial_function (option) scratch_wait :: "'c spi \<Rightarrow> 'c ax5043 \<Rightarrow> 'c ax5043 option" where
  "scratch_wait b dev =
    (case SpiReadSingleAddressRegister b REG_SCRATCH dev of
       (ubAddres, dev) \<Rightarrow> if ubAddres \<noteq> 0x55 then scratch_wait b dev else Some dev)"

definition Ax5043_Reset :: "'c spi \<Rightarrow> 'c ax5043 \<Rightarrow> 'c ax5043 option" where
  "Ax5043_Reset b dev = do {
     dev \<leftarrow> scratch_wait b (write_regs b [(REG_PWRMODE, 0x00), (REG_SCRATCH, 0x55)] (Ax5043_Spi_Reset b dev));
     Some (write_regs b [(REG_PINFUNCIRQ, 0x01), (REG_PINFUNCIRQ, 0x00), (REG_PINFUNCIRQ, 0x03)] dev)
   }"

text \<open>Up to the wait for the interrupt thread.\<close>

definition RadioXtalON :: "'c spi \<Rightarrow> 'c ax5043 \<Rightarrow> 'c ax5043" where
  "RadioXtalON b dev =
    (let (ubTemp, dev) = SpiReadSingleAddressRegister b REG_IRQMASK1 (dev\<lparr>ubRFState := trxstate_wait_xtal\<rparr>)
     in write_regs b [(REG_IRQMASK1, ubTemp OR 0x01), (REG_PWRMODE, PWRSTATE_XTAL_ON)] dev)"

definition AX5043ReceiverON :: "'c spi \<Rightarrow> 'c ax5043 \<Rightarrow> 'c ax5043" where
  "AX5043ReceiverON b dev =
    (let dev = write_long_regs b [(REG_RSSIREFERENCE, axradio_phy_rssireference (config dev)), (REG_TMGRXPREAMBLE1, 0x00),
           (REG_PKTSTOREFLAGS, 0x50)] dev;
         dev = write_regs b [(REG_FIFOSTAT, 0x03), (REG_PWRMODE, PWRSTATE_FULL_RX)] dev;
         dev = dev\<lparr>ubRFState := trxstate_rx\<rparr>
     in write_regs b [(REG_IRQMASK0, 0x01), (REG_IRQMASK1, 0x00)] dev)"

definition AX5043Receiver_Continuous :: "'c spi \<Rightarrow> 'c ax5043 \<Rightarrow> 'c ax5043" where
  "AX5043Receiver_Continuous b dev =
    (let dev = SpiWriteSingleAddressRegister b REG_RADIOEVENTMASK0 0x04 dev;
         dev = write_long_regs b [(REG_RSSIREFERENCE, axradio_phy_rssireference (config dev)), (REG_TMGRXAGC, 0),
           (REG_TMGRXPREAMBLE1, 0), (REG_PKTMISCFLAGS, 0)] dev;
         (ubTemp, dev) = SpiReadLongAddressRegister b REG_PKTSTOREFLAGS dev;
         dev = SpiWriteLongAddressRegister b REG_PKTSTOREFLAGS (ubTemp AND NOT 0x40) dev;
         dev = write_regs b [(REG_IRQMASK0, 0x01), (REG_FIFOSTAT, 0x03), (REG_PWRMODE, PWRSTATE_FULL_RX)] dev;
         dev = dev\<lparr>ubRFState := trxstate_rx\<rparr>
     in SpiWriteSingleAddressRegister b REG_IRQMASK1 0x00 dev)"

definition Ax5043_OFF :: "'c spi \<Rightarrow> 'c ax5043 \<Rightarrow> 'c ax5043" where
  "Ax5043_OFF b dev =
    (let dev = write_regs b [(REG_IRQMASK0, 0x00), (REG_IRQMASK1, 0x00), (REG_PWRMODE, PWRSTATE_XTAL_ON)] dev;
         dev = SpiWriteLongAddressRegister b REG_LPOSCCONFIG 0x00 dev;
         dev = dev\<lparr>ubRFState := trxstate_off\<rparr>
     in SpiWriteSingleAddressRegister b REG_PWRMODE PWRSTATE_POWERDOWN dev)"

section \<open>Receiving\<close>

primrec fifo_skip :: "'c spi \<Rightarrow> nat \<Rightarrow> 'c ax5043 \<Rightarrow> 'c ax5043" where
  "fifo_skip b 0 dev = dev"
| "fifo_skip b (Suc n) dev = fifo_skip b n (snd (SpiReadSingleAddressRegister b REG_FIFODATA dev))"

text \<open>One chunk with its command and its length; the frequency offset the code computes is not used.\<close>

definition receive_chunk :: "'c spi \<Rightarrow> u8 \<Rightarrow> u8 \<Rightarrow> 'c ax5043 \<Rightarrow> c_fault + 'c ax5043" where
  "receive_chunk b cmd ubDataLen dev =
    (if cmd = FIFOCMD_DATA then
       (if ubDataLen = 0 then Inr dev
        else
          (let (_, dev) = SpiReadSingleAddressRegister b REG_FIFODATA dev;
               ubDataLen = ubDataLen - 1
           in if unat ubDataLen > 64 then Inl Out_Of_Bounds
              else
                (let (bs, dev) = SpiReadData b ubDataLen dev;
                     dev = dev\<lparr>RXBuff := (\<lambda>i. if i < unat ubDataLen then bs ! i else RXBuff dev i), RxLen := ubDataLen\<rparr>;
                     (ubTepm, dev) = SpiReadSingleAddressRegister b REG_IRQMASK0 dev
                 in Inr (SpiWriteSingleAddressRegister b REG_IRQMASK0 (ubTepm AND NOT 0x01) dev))))
     else if cmd = FIFOCMD_RFFREQOFFS \<and> ubDataLen = 3 then Inr (fifo_skip b 3 dev)
     else if cmd = FIFOCMD_RSSI \<and> ubDataLen = 1 then
       (let (r, dev) = SpiReadSingleAddressRegister b REG_FIFODATA dev
        in Inr (dev\<lparr>ubRssi := sint r - sint (axradio_phy_rssioffset (config dev))\<rparr>))
     else if cmd = FIFOCMD_TIMER \<and> ubDataLen = 3 then Inr (fifo_skip b 3 dev)
     else if cmd = FIFOCMD_ANTRSSI \<and> ubDataLen \<noteq> 0 then
       (let (_, dev) = SpiReadSingleAddressRegister b REG_FIFODATA dev
        in Inr (fifo_skip b (unat (ubDataLen - 1)) dev))
     else Inr (fifo_skip b (unat ubDataLen) dev))"

partial_function (option) receive_loop :: "'c spi \<Rightarrow> 'c ax5043 \<Rightarrow> (c_fault + 'c ax5043) option" where
  "receive_loop b dev =
    (let (req, dev) = SpiReadSingleAddressRegister b REG_IRQREQUEST0 dev
     in if req AND 0x01 = 0 then Some (Inr dev)
        else
          (let (ubTemCom, dev) = SpiReadSingleAddressRegister b REG_FIFODATA dev;
               ubDataLen = drop_bit 5 (ubTemCom AND 0xE0);
               (ubDataLen, dev) = (if ubDataLen = 0x07 then SpiReadSingleAddressRegister b REG_FIFODATA dev else (ubDataLen, dev))
           in case receive_chunk b (ubTemCom AND 0x1F) ubDataLen dev of
                Inl e \<Rightarrow> Some (Inl e)
              | Inr dev \<Rightarrow> receive_loop b dev))"

definition ReceiveData :: "'c spi \<Rightarrow> 'c ax5043 \<Rightarrow> (c_fault + 'c ax5043) option" where
  "ReceiveData b dev =
    receive_loop b (snd (SpiReadSingleAddressRegister b REG_RADIOEVENTREQ0 (dev\<lparr>ubRssi := 0, RxLen := 0, RXBuff := (\<lambda>_. 0)\<rparr>)))"

section \<open>Sending\<close>

text \<open>The ways out of a round of the loop of \<open>TransmitData\<close>.\<close>

datatype tx_exit = Again | Fifocommit | Pktend | Return | Overrun

text \<open>A byte with \<open>n\<close> bits of preamble and a stop bit, in the bit order of the packet engine.\<close>

definition preamble_rest :: "'c spi \<Rightarrow> u8 \<Rightarrow> nat \<Rightarrow> 'c ax5043 \<Rightarrow> 'c ax5043" where
  "preamble_rest b byte n dev =
    (let (cfg, dev) = SpiReadLongAddressRegister b REG_PKTADDRCFG dev;
         byte = (if cfg AND 0x80 \<noteq> 0 then byte AND push_bit (8 - n) 0xFF OR drop_bit n 0x80
                 else byte AND drop_bit (8 - n) 0xFF OR push_bit n 0x01)
     in SpiWriteSingleAddressRegister b REG_FIFODATA byte dev)"

definition tx_sync :: "'c spi \<Rightarrow> 'c ax5043 \<Rightarrow> 'c ax5043" where
  "tx_sync b dev =
    (let cfg = config dev;
         len_byte = axradio_framing_synclen cfg;
         i = (if len_byte AND 0x07 \<noteq> 0 then 0x04 else 0);
         len_byte = drop_bit 3 (len_byte + 7);
         dev = write_regs b [(REG_FIFODATA, 0x01 OR push_bit 5 (len_byte + 1)), (REG_FIFODATA, axradio_framing_syncflags cfg OR i)] dev;
         dev = write_regs b (map (\<lambda>i. (REG_FIFODATA, axradio_framing_syncword cfg ! i)) [0..<unat len_byte]) dev
     in dev\<lparr>ubRFState := trxstate_tx_packet\<rparr>)"

text \<open>The preamble behind the first test, with \<open>axradio_txbuffer_cnt\<close> bits to go.\<close>

definition tx_preamble :: "'c spi \<Rightarrow> u8 \<Rightarrow> 'c ax5043 \<Rightarrow> tx_exit \<times> 'c ax5043" where
  "tx_preamble b ubFreeCnt dev =
    (if ubFreeCnt < 4 then (Fifocommit, dev)
     else
       (let cfg = config dev;
            ubFreeCnt = (if axradio_txbuffer_cnt dev < 255 * 8 then ucast (drop_bit 3 (axradio_txbuffer_cnt dev)) else 255)
        in if ubFreeCnt \<noteq> 0 then
             (Again, write_regs b [(REG_FIFODATA, FIFOCMD_REPEATDATA OR push_bit 5 3), (REG_FIFODATA, axradio_phy_preamble_flags cfg),
                (REG_FIFODATA, ubFreeCnt), (REG_FIFODATA, axradio_phy_preamble_byte cfg)]
                (dev\<lparr>axradio_txbuffer_cnt := axradio_txbuffer_cnt dev - push_bit 3 (ucast ubFreeCnt)\<rparr>))
           else
             (let ubFreeCnt = (ucast (axradio_txbuffer_cnt dev) :: u8);
                  dev = write_regs b [(REG_FIFODATA, FIFOCMD_DATA OR push_bit 5 2), (REG_FIFODATA, 0x1C)] (dev\<lparr>axradio_txbuffer_cnt := 0\<rparr>)
              in (Again, preamble_rest b (axradio_phy_preamble_byte cfg) (unat ubFreeCnt) dev))))"

definition tx_shortpreamble :: "'c spi \<Rightarrow> u8 \<Rightarrow> 'c ax5043 \<Rightarrow> tx_exit \<times> 'c ax5043" where
  "tx_shortpreamble b ubFreeCnt dev =
    (if axradio_txbuffer_cnt dev = 0 then
       if ubFreeCnt < 15 then (Fifocommit, dev)
       else
         (let cfg = config dev;
              bits = axradio_phy_preamble_appendbits cfg;
              dev = (if bits \<noteq> 0
                     then preamble_rest b (axradio_phy_preamble_appendpattern cfg) (unat bits)
                            (write_regs b [(REG_FIFODATA, FIFOCMD_DATA OR push_bit 5 2), (REG_FIFODATA, 0x1C)] dev)
                     else dev);
              (framing, dev) = SpiReadSingleAddressRegister b REG_FRAMING dev
          in if framing AND 0x0E = 0x06 \<and> axradio_framing_synclen cfg \<noteq> 0 then (Again, tx_sync b dev)
             else tx_preamble b ubFreeCnt dev)
     else tx_preamble b ubFreeCnt dev)"

text \<open>The switch over the states, with the free space of the queue.\<close>

definition tx_state :: "'c spi \<Rightarrow> u8 \<Rightarrow> 'c ax5043 \<Rightarrow> tx_exit \<times> 'c ax5043" where
  "tx_state b ubFreeCnt dev =
    (if ubRFState dev = trxstate_tx_longpreamble then
          (if axradio_txbuffer_cnt dev = 0 then
             tx_shortpreamble b ubFreeCnt
               (dev\<lparr>ubRFState := trxstate_tx_shortpreamble, axradio_txbuffer_cnt := ucast (axradio_phy_preamble_len (config dev))\<rparr>)
           else if ubFreeCnt < 4 then (Fifocommit, dev)
           else
             (let ubFreeCnt = (if axradio_txbuffer_cnt dev < 7 then ucast (axradio_txbuffer_cnt dev) else 7) :: u8
              in (Again, write_regs b [(REG_FIFODATA, 0x02 OR push_bit 5 3), (REG_FIFODATA, 0x38), (REG_FIFODATA, push_bit 5 ubFreeCnt),
                    (REG_FIFODATA, 0x55)] (dev\<lparr>axradio_txbuffer_cnt := axradio_txbuffer_cnt dev - ucast ubFreeCnt\<rparr>))))
        else if ubRFState dev = trxstate_tx_shortpreamble then tx_shortpreamble b ubFreeCnt dev
        else if ubRFState dev = trxstate_tx_packet then
          (if TxLen dev < 11 then (Fifocommit, dev)
           else
             (let dev = write_regs b [(REG_FIFODATA, FIFOCMD_DATA OR push_bit 5 7), (REG_FIFODATA, 1 + TxLen dev), (REG_FIFODATA, 3)] dev
              in if unat (TxLen dev) > 64 then (Overrun, dev) else (Pktend, SpiWriteData b (TXBuff dev) (TxLen dev) dev)))
        else (Return, dev))"

definition tx_round :: "'c spi \<Rightarrow> 'c ax5043 \<Rightarrow> tx_exit \<times> 'c ax5043" where
  "tx_round b dev =
    (let (ubFreeCnt, dev) = SpiReadSingleAddressRegister b REG_FIFOFREE0 dev;
         (free1, dev) = SpiReadSingleAddressRegister b REG_FIFOFREE1 dev
     in tx_state b (if free1 \<noteq> 0 then 0xFF else ubFreeCnt) dev)"

definition tx_pktend :: "'c spi \<Rightarrow> 'c ax5043 \<Rightarrow> 'c ax5043" where
  "tx_pktend b dev =
    write_regs b [(REG_RADIOEVENTMASK0, 0x01), (REG_IRQMASK0, 0x40)]
      ((SpiWriteSingleAddressRegister b REG_FIFOSTAT 4 dev)\<lparr>ubRFState := trxstate_tx_waitdone\<rparr>)"

partial_function (option) TransmitData :: "'c spi \<Rightarrow> 'c ax5043 \<Rightarrow> (c_fault + 'c ax5043) option" where
  "TransmitData b dev =
    (case tx_round b dev of
       (Again, dev) \<Rightarrow> TransmitData b dev
     | (Fifocommit, dev) \<Rightarrow> Some (Inr (tx_pktend b (SpiWriteSingleAddressRegister b REG_FIFOSTAT 4 dev)))
     | (Pktend, dev) \<Rightarrow> Some (Inr (tx_pktend b dev))
     | (Return, dev) \<Rightarrow> Some (Inr dev)
     | (Overrun, dev) \<Rightarrow> Some (Inl Out_Of_Bounds))"

definition transmit_packet_task :: "'c spi \<Rightarrow> memory \<Rightarrow> u8 \<Rightarrow> 'c ax5043 \<Rightarrow> c_fault + 'c ax5043" where
  "transmit_packet_task b buf len dev =
    (let dev = write_regs b [(REG_PWRMODE, PWRSTATE_XTAL_ON), (REG_PWRMODE, PWRSTATE_FIFO_ON)] dev;
         (_, dev) = Ax5043SetRegisters_TX b dev;
         dev = dev\<lparr>TxLen := len + 1, TXBuff := (TXBuff dev)(0 := len + 1)\<rparr>
     in if 1 + unat len > 64 then Inl Out_Of_Bounds
        else
          (let dev = dev\<lparr>TXBuff := (\<lambda>i. if 1 \<le> i \<and> i < 1 + unat len then buf (i - 1) else TXBuff dev i)\<rparr>;
               dev = write_regs b [(REG_FIFOTHRESH1, 0x00), (REG_FIFOTHRESH0, 0x80)] dev;
               dev = dev\<lparr>ubRFState := trxstate_tx_xtalwait\<rparr>;
               dev = write_regs b [(REG_IRQMASK0, 0x00), (REG_IRQMASK1, 0x01)] dev
           in Inr (snd (SpiReadSingleAddressRegister b REG_POWSTICKYSTAT dev))))"

definition Normal_send_dev :: "'c spi \<Rightarrow> memory \<Rightarrow> u8 \<Rightarrow> 'c ax5043 \<Rightarrow> c_fault + 'c ax5043" where
  "Normal_send_dev b buf len dev = transmit_packet_task b buf len (dev\<lparr>axradio_txbuffer_cnt := 0\<rparr>)"

definition ChangeMaxPower_dev :: "'c spi \<Rightarrow> 'c ax5043 \<Rightarrow> 'c ax5043" where
  "ChangeMaxPower_dev b dev =
    (if dev_power_now dev = 0
     then write_long_regs b [(REG_TXPWRCOEFFB1, 0x0C), (REG_TXPWRCOEFFB0, 0x00)] (dev\<lparr>dev_power_now := 1\<rparr>) else dev)"

definition BackNormalPower_dev :: "'c spi \<Rightarrow> 'c ax5043 \<Rightarrow> 'c ax5043" where
  "BackNormalPower_dev b dev =
    (if dev_power_now dev \<noteq> 0
     then write_long_regs b [(REG_TXPWRCOEFFB1, 0x07), (REG_TXPWRCOEFFB0, 0x00)] (dev\<lparr>dev_power_now := 0\<rparr>) else dev)"

section \<open>Calibration\<close>

partial_function (option) gpadc_wait :: "'c spi \<Rightarrow> 'c ax5043 \<Rightarrow> 'c ax5043 option" where
  "gpadc_wait b dev =
    (case SpiReadLongAddressRegister b REG_GPADCCTRL dev of
       (x, dev) \<Rightarrow> if x AND 0x80 \<noteq> 0 then gpadc_wait b dev else Some dev)"

primrec tune_settle :: "'c spi \<Rightarrow> nat \<Rightarrow> 'c ax5043 \<Rightarrow> 'c ax5043 option" where
  "tune_settle b 0 dev = Some dev"
| "tune_settle b (Suc cnt) dev = do {
     dev \<leftarrow> gpadc_wait b (SpiWriteLongAddressRegister b REG_GPADCCTRL 0x84 dev);
     tune_settle b cnt dev
   }"

primrec tune_sum :: "'c spi \<Rightarrow> nat \<Rightarrow> u16 \<Rightarrow> 'c ax5043 \<Rightarrow> (u16 \<times> 'c ax5043) option" where
  "tune_sum b 0 r dev = Some (r, dev)"
| "tune_sum b (Suc cnt) r dev = do {
     dev \<leftarrow> gpadc_wait b (SpiWriteLongAddressRegister b REG_GPADCCTRL 0x84 dev);
     let (x1, dev) = SpiReadLongAddressRegister b REG_GPADC13VALUE1 dev;
     let (x0, dev) = SpiReadLongAddressRegister b REG_GPADC13VALUE0 dev;
     tune_sum b cnt (r + (push_bit 8 (ucast (x1 AND 0x03)) OR ucast x0)) dev
   }"

definition axradio_tunevoltage :: "'c spi \<Rightarrow> 'c ax5043 \<Rightarrow> (u16 \<times> 'c ax5043) option" where
  "axradio_tunevoltage b dev = do { dev \<leftarrow> tune_settle b 64 dev; tune_sum b 32 0 dev }"

text \<open>One candidate of the search around \<open>rng\<close>: only six-bit values are tried.\<close>

definition try_vcoi :: "'c spi \<Rightarrow> u8 \<Rightarrow> u16 \<times> u8 \<times> 'c ax5043 \<Rightarrow> (u16 \<times> u8 \<times> 'c ax5043) option" where
  "try_vcoi b x st =
    (case st of (bestval, bestrng, dev) \<Rightarrow>
       if x AND 0xC0 = 0 then do {
         (val, dev) \<leftarrow> axradio_tunevoltage b (SpiWriteLongAddressRegister b REG_PLLVCOI (0x80 OR x) dev);
         Some (if val < bestval then (val, x, dev) else (bestval, bestrng, dev))
       } else Some st)"

primrec adjust_loop :: "'c spi \<Rightarrow> u8 \<Rightarrow> u8 list \<Rightarrow> u16 \<times> u8 \<times> 'c ax5043 \<Rightarrow> (u16 \<times> u8 \<times> 'c ax5043) option" where
  "adjust_loop b rng [] st = Some st"
| "adjust_loop b rng (offs # os) st = do {
     st \<leftarrow> try_vcoi b (rng + offs) st;
     st \<leftarrow> (if offs = 0 then Some st else try_vcoi b (rng - offs) st);
     adjust_loop b rng os st
   }"

definition axradio_adjustvcoi :: "'c spi \<Rightarrow> u8 \<Rightarrow> 'c ax5043 \<Rightarrow> (u8 \<times> 'c ax5043) option" where
  "axradio_adjustvcoi b rng dev =
    (let rng = rng AND 0x7F
     in do {
       (bestval, bestrng, dev) \<leftarrow> adjust_loop b rng (map word_of_nat [0..<16]) (0xFFFF, rng, dev);
       Some (if bestval \<le> 0x0010 then rng OR 0x80 else bestrng OR 0x80, dev)
     })"

primrec cal_loop :: "'c spi \<Rightarrow> u8 list \<Rightarrow> u8 \<times> u16 \<times> u16 \<times> 'c ax5043 \<Rightarrow> (u8 \<times> u16 \<times> u16 \<times> 'c ax5043) option" where
  "cal_loop b [] st = Some st"
| "cal_loop b (i # is) st =
    (case st of (r, vmin, vmax, dev) \<Rightarrow> do {
       let dev = SpiWriteLongAddressRegister b REG_PLLVCOI (0x80 OR i) dev;
       let (_, dev) = SpiReadSingleAddressRegister b REG_PLLRANGINGA dev;
       (curtune, dev) \<leftarrow> axradio_tunevoltage b dev;
       let (_, dev) = SpiReadSingleAddressRegister b REG_PLLRANGINGA dev;
       let vmax = (if curtune > vmax then curtune else vmax);
       let (r, vmin, dev) =
         (if curtune < vmin then
            (let (x, dev) = SpiReadSingleAddressRegister b REG_PLLRANGINGA dev
             in (if 0xC0 AND NOT x = 0 then i OR 0x80 else r, curtune, dev))
          else (r, vmin, dev));
       cal_loop b is (r, vmin, vmax, dev)
     })"

definition axradio_calvcoi :: "'c spi \<Rightarrow> 'c ax5043 \<Rightarrow> (u8 \<times> 'c ax5043) option" where
  "axradio_calvcoi b dev = do {
     (r, vmin, vmax, dev) \<leftarrow> cal_loop b (map word_of_nat (rev [0..<0x40])) (0, 0xFFFF, 0x0000, dev);
     Some (if r AND 0x80 = 0 \<or> vmax \<ge> 0xFF00 \<or> vmin < 0x0100 \<or> int (unat vmax) - int (unat vmin) < 0x4000 then 0 else r, dev)
   }"

section \<open>Start and restart\<close>

definition write_freq :: "'c spi \<Rightarrow> 'c ax5043 \<Rightarrow> 'c ax5043" where
  "write_freq b dev =
    (let f = axradio_phy_chanfreq (config dev)
     in write_regs b [(REG_FREQA0, ucast f), (REG_FREQA1, ucast (drop_bit 8 f)), (REG_FREQA2, ucast (drop_bit 16 f)),
          (REG_FREQA3, ucast (drop_bit 24 f))] dev)"

definition fsk_off :: "'c spi \<Rightarrow> 'c ax5043 \<Rightarrow> 'c ax5043" where
  "fsk_off b dev = write_long_regs b [(REG_FSKDEV2, 0x00), (REG_FSKDEV1, 0x00), (REG_FSKDEV0, 0x00)]
     (SpiWriteSingleAddressRegister b REG_MODULATION 0x08 dev)"

text \<open>\<open>rf_startup\<close> in three parts: up to the wait for the crystal, up to the wait for the ranging, and the rest.\<close>

definition rf_startup_xtal :: "'c spi \<Rightarrow> 'c ax5043 \<Rightarrow> 'c ax5043 option" where
  "rf_startup_xtal b dev = do {
     dev \<leftarrow> Ax5043_Reset b (Ax5043_OFF b dev);
     let (_, dev) = Ax5043SetRegisters_TX b (InitAx5043REG b dev);
     Some (RadioXtalON b (fsk_off b (write_regs b [(REG_PLLLOOP, 0x09), (REG_PLLCPI, 0x08), (REG_PWRMODE, PWRSTATE_XTAL_ON)] dev)))
   }"

definition rf_startup_ranging :: "'c spi \<Rightarrow> 'c ax5043 \<Rightarrow> 'c ax5043" where
  "rf_startup_ranging b dev =
    (let dev = (write_freq b dev)\<lparr>ubRFState := trxstate_pll_ranging\<rparr>;
         dev = SpiWriteSingleAddressRegister b REG_IRQMASK1 0x10 dev;
         init = axradio_phy_chanpllrnginit (config dev)
     in SpiWriteSingleAddressRegister b REG_PLLRANGINGA (if init AND 0xF0 = 0 then init OR 0x10 else 0x18) dev)"

text \<open>Two rounds of the search for one channel.\<close>

definition calibrate_round :: "'c spi \<Rightarrow> 'c ax5043 \<Rightarrow> 'c ax5043 option" where
  "calibrate_round b dev =
    (let cfg = config dev; x = axradio_phy_chanvcoiinit cfg
     in if x \<noteq> 0 then
          (let x = (if axradio_phy_chanpllrnginit cfg AND 0xF0 = 0
                    then x + ((axradio_phy_chanpllrng dev AND 0x0F) - (axradio_phy_chanpllrnginit cfg AND 0x0F)) else x)
           in do { (v, dev) \<leftarrow> axradio_adjustvcoi b x dev; Some (dev\<lparr>axradio_phy_chanvcoi := v\<rparr>) })
        else do { (v, dev) \<leftarrow> axradio_calvcoi b dev; Some (dev\<lparr>axradio_phy_chanvcoi := v\<rparr>) })"

definition calibrate :: "'c spi \<Rightarrow> 'c ax5043 \<Rightarrow> 'c ax5043 option" where
  "calibrate b dev = do {
     let (_, dev) = Ax5043SetRegisters_TX b dev;
     let (x, dev) = SpiReadSingleAddressRegister b REG_PLLLOOP (fsk_off b dev);
     let dev = SpiWriteSingleAddressRegister b REG_PLLLOOP (x OR 0x04) dev;
     let (x, dev) = SpiReadLongAddressRegister b REG_F35 dev;
     let x = x OR 0x80;
     let x = (if 2 AND NOT x \<noteq> 0 then x + 1 else x);
     let dev = SpiWriteSingleAddressRegister b REG_PWRMODE PWRSTATE_SYNTH_TX (SpiWriteLongAddressRegister b REG_F35 x dev);
     let (vcoisave, dev) = SpiReadLongAddressRegister b REG_PLLVCOI dev;
     let dev = dev\<lparr>axradio_phy_chanvcoi := 0\<rparr>;
     dev \<leftarrow> (if axradio_phy_chanpllrng dev AND 0x20 \<noteq> 0 then Some dev
       else do {
         dev \<leftarrow> calibrate_round b
           (write_freq b (SpiWriteSingleAddressRegister b REG_PLLRANGINGA (axradio_phy_chanpllrng dev AND 0x0F) dev));
         calibrate_round b dev
       });
     Some (SpiWriteLongAddressRegister b REG_PLLVCOI vcoisave dev)
   }"

definition rf_startup_end :: "'c spi \<Rightarrow> 'c ax5043 \<Rightarrow> (u8 \<times> 'c ax5043) option" where
  "rf_startup_end b dev = do {
     let dev = SpiWriteSingleAddressRegister b REG_IRQMASK1 0x00 (dev\<lparr>ubRFState := trxstate_off\<rparr>);
     let (rng, dev) = SpiReadSingleAddressRegister b REG_PLLRANGINGA dev;
     let dev = dev\<lparr>axradio_phy_chanpllrng := rng\<rparr>;
     dev \<leftarrow> (if axradio_phy_vcocalib (config dev) \<noteq> 0 then calibrate b dev else Some dev);
     let dev = InitAx5043REG b (SpiWriteSingleAddressRegister b REG_PWRMODE PWRSTATE_POWERDOWN dev);
     let (_, dev) = Ax5043SetRegisters_RX b dev;
     let dev = write_freq b (SpiWriteSingleAddressRegister b REG_PLLRANGINGA (axradio_phy_chanpllrng dev AND 0x0F) dev);
     let dev = dev\<lparr>ubRFState := trxstate_rx\<rparr>;
     Some (if axradio_phy_chanpllrng dev AND 0x20 \<noteq> 0 then AXRADIO_ERR_RANGING else AXRADIO_ERR_NOERROR, dev)
   }"

definition rf_restart :: "'c spi \<Rightarrow> 'c ax5043 \<Rightarrow> 'c ax5043" where
  "rf_restart b dev =
    (let dev = Ax5043_Spi_Reset b (Ax5043_OFF b dev);
         dev = write_regs b [(REG_PWRMODE, 0x00), (REG_PINFUNCIRQ, 0x01), (REG_PINFUNCIRQ, 0x00), (REG_PINFUNCIRQ, 0x03)] dev;
         dev = InitAx5043REG b dev;
         dev = write_freq b (SpiWriteSingleAddressRegister b REG_PLLRANGINGA (axradio_phy_chanpllrng dev AND 0x0F) dev)
     in dev\<lparr>ubRFState := trxstate_rx\<rparr>)"

section \<open>The unit\<close>

definition rf_433_config_init :: ax5043_config where
  "rf_433_config_init =
    \<lparr>axradio_phy_vcocalib = 0, axradio_phy_preamble_len = 32, axradio_framing_synclen = 32, axradio_phy_preamble_flags = 0x38,
     axradio_phy_preamble_byte = 0x55, axradio_phy_preamble_appendbits = 0, axradio_phy_preamble_appendpattern = 0x00,
     axradio_phy_chanfreq = 0x10b81f83, axradio_phy_chanvcoiinit = 0x99, axradio_phy_chanpllrnginit = 0x0a,
     axradio_phy_maxfreqoffset = 1683, axradio_phy_rssioffset = 64, axradio_phy_rssireference = 0x3A,
     axradio_framing_syncflags = 0x38, axradio_framing_syncword = [0xcc, 0xaa, 0xcc, 0xaa]\<rparr>"

text \<open>The globals of \<open>Radio_433.c\<close>: the device, the one-shot timer behind a packet, the semaphore of the interrupt.\<close>

record 'c rf_unit =
  rf_433 :: "'c ax5043"
  rf_433_send_timer :: bool
  IRQ1_Sem :: nat

definition IRQ1_ISR :: "'c rf_unit \<Rightarrow> 'c rf_unit" where
  "IRQ1_ISR u = u\<lparr>IRQ1_Sem := IRQ1_Sem u + 1\<rparr>"

text \<open>\<open>rf_433_driver_init\<close> up to the first wait, and behind the last.\<close>

definition rf_433_driver_init :: "'c spi \<Rightarrow> 'c ax5043 \<Rightarrow> 'c ax5043 option" where
  "rf_433_driver_init b dev =
    rf_startup_xtal b (dev\<lparr>config := rf_433_config_init, RegValue := set_registers_433, TXRegValue := set_registers_tx_433,
      RXRegValue := set_registers_rx_433\<rparr>)"

definition rf_433_driver_done :: "'c spi \<Rightarrow> 'c ax5043 \<Rightarrow> 'c ax5043 option" where
  "rf_433_driver_done b dev = do {
     (_, dev) \<leftarrow> rf_startup_end b dev;
     let (_, dev) = axradio_get_pllvcoi b dev;
     Some (AX5043ReceiverON b (snd (Ax5043SetRegisters_RX b dev)))
   }"

definition rf_433_send_timer_callback :: "'c spi \<Rightarrow> 'c rf_unit \<Rightarrow> 'c rf_unit" where
  "rf_433_send_timer_callback b u =
    (let u = u\<lparr>rf_433_send_timer := False\<rparr>
     in if ubRFState (rf_433 u) \<noteq> trxstate_rx
        then u\<lparr>rf_433 := rf_restart b (SpiWriteSingleAddressRegister b REG_RADIOEVENTMASK0 0x00 (rf_433 u))\<rparr> else u)"

text \<open>The reaction to an interrupt in state \<open>trxstate_tx_xtalwait\<close>.\<close>

definition start_transmit :: "'c spi \<Rightarrow> 'c ax5043 \<Rightarrow> (c_fault + 'c ax5043) option" where
  "start_transmit b dev =
    (let (_, dev) = SpiReadSingleAddressRegister b REG_RADIOEVENTREQ0 dev;
         dev = write_regs b [(REG_FIFOSTAT, 0x03), (REG_IRQMASK1, 0x00), (REG_IRQMASK0, 0x08)] dev;
         dev = dev\<lparr>ubRFState := trxstate_tx_longpreamble\<rparr>;
         (m, dev) = SpiReadSingleAddressRegister b REG_MODULATION dev;
         dev = (if m AND 0x0F = 9
                then write_regs b [(REG_FIFODATA, FIFOCMD_DATA OR push_bit 5 7), (REG_FIFODATA, 2), (REG_FIFODATA, 0x01), (REG_FIFODATA, 0x11)] dev
                else dev)
     in map_option (map_sum id (SpiWriteSingleAddressRegister b REG_PWRMODE PWRSTATE_FULL_TX)) (TransmitData b dev))"

text \<open>One turn of the loop of the interrupt thread, with the packet it hands to \<open>rf433_rx_callback\<close>: signal strength, buffer, length.\<close>

definition rf_433_task_callback :: "'c spi \<Rightarrow> 'c rf_unit \<Rightarrow> (c_fault + (int \<times> memory \<times> u8) option \<times> 'c rf_unit) option" where
  "rf_433_task_callback b u =
    (if IRQ1_Sem u = 0 then Some (Inr (None, u))
     else
       (let u = u\<lparr>IRQ1_Sem := IRQ1_Sem u - 1\<rparr>; dev = rf_433 u; st = ubRFState dev; put = (\<lambda>d. (None, u\<lparr>rf_433 := d\<rparr>))
        in if st = trxstate_rx then do {
             r \<leftarrow> ReceiveData b dev;
             Some (map_sum id (\<lambda>dev.
               let dev = AX5043Receiver_Continuous b (snd (Ax5043SetRegisters_RX b dev))
               in (if RxLen dev \<noteq> 0 then Some (ubRssi dev, RXBuff dev, RxLen dev - 1) else None, u\<lparr>rf_433 := dev\<rparr>)) r)
           }
           else if st = trxstate_wait_xtal then
             Some (Inr (put ((SpiWriteSingleAddressRegister b REG_IRQMASK1 0x00 dev)\<lparr>ubRFState := trxstate_xtal_ready\<rparr>)))
           else if st = trxstate_pll_ranging then
             Some (Inr (put ((SpiWriteSingleAddressRegister b REG_IRQMASK1 0x00 dev)\<lparr>ubRFState := trxstate_pll_ranging_done\<rparr>)))
           else if st = trxstate_pll_settling then
             Some (Inr (put ((SpiWriteSingleAddressRegister b REG_RADIOEVENTMASK0 0x00 dev)\<lparr>ubRFState := trxstate_pll_settled\<rparr>)))
           else if st = trxstate_tx_xtalwait then map_option (map_sum id put) (start_transmit b dev)
           else if st = trxstate_tx_longpreamble \<or> st = trxstate_tx_shortpreamble \<or> st = trxstate_tx_packet then
             map_option (map_sum id put) (TransmitData b dev)
           else if st = trxstate_tx_waitdone then
             (let u = u\<lparr>rf_433_send_timer := False\<rparr>;
                  (_, dev) = SpiReadSingleAddressRegister b REG_RADIOEVENTREQ0 dev;
                  (x, dev) = SpiReadSingleAddressRegister b REG_RADIOSTATE dev
              in Some (Inr (None, u\<lparr>rf_433 := (if x \<noteq> 0 then dev
                     else rf_restart b (SpiWriteSingleAddressRegister b REG_RADIOEVENTMASK0 0x00 dev))\<rparr>)))
           else Some (Inr (put (write_regs b [(REG_IRQMASK1, 0x00), (REG_IRQMASK0, 0x00)] dev)))))"

end
