(* ===== verification/Ax5043_Chip.thy ===== *)
theory Ax5043_Chip
  imports Ax5043
begin

unbundle bit_operations_syntax

text \<open>
  What the driver relies on of the chip, as its data sheet describes it, and what the driver then does: a packet handed
  to \<open>Normal_send\<close> ends in the transmit queue of the chip, and what the chip has received ends in the receive buffer.
\<close>

section \<open>The chip\<close>

lemma short_addr: "a AND 0x7F = a" if "a < 0x70" for a :: u8
proof -
  have "unat a < 2 ^ 7" using that by (simp add: word_less_nat_alt)
  then have "take_bit 7 a = a" by (metis take_bit_nat_eq_self unsigned_take_bit_eq word_unat_eq_iff)
  then show ?thesis by (simp add: take_bit_eq_mask mask_eq_exp_minus_1)
qed

text \<open>The two bytes of a long address, with the bits that tell a read from a write.\<close>

definition long_addr :: "u16 \<Rightarrow> u16 \<Rightarrow> bytes" where
  "long_addr flags a = [ucast (drop_bit 8 ((a OR flags) AND 0xFF00)), ucast ((a OR flags) AND 0x00FF)]"

text \<open>\<open>reg\<close>: what was last written to a register; \<open>rxf\<close>: the bytes waiting in the receive queue; \<open>txf\<close>: the bytes written to
  the transmit queue of 256 bytes since the last commit; \<open>out\<close>: all bytes ever committed, which count as sent and
  leave the queue. Writes to a register store a value,
  short and long addresses reach the same registers; the queue registers and the power mode have effects of their own,
  a chip that was switched off has nothing received, and switching the receiver on leaves the queue as it is.
  Reads change nothing, but for reads of the queue.\<close>

locale ax5043_chip =
  fixes b :: "'c spi" and reg :: "'c \<Rightarrow> u16 \<Rightarrow> u8" and rxf :: "'c \<Rightarrow> bytes" and txf :: "'c \<Rightarrow> bytes" and out :: "'c \<Rightarrow> bytes"
  assumes short_write: "a < 0x70 \<Longrightarrow> a \<notin> {REG_PWRMODE, REG_FIFOSTAT, REG_FIFODATA} \<Longrightarrow>
      reg (spi_send b [a OR 0x80, v] c) = (reg c)(ucast a := v) \<and> rxf (spi_send b [a OR 0x80, v] c) = rxf c \<and>
      txf (spi_send b [a OR 0x80, v] c) = txf c \<and> out (spi_send b [a OR 0x80, v] c) = out c"
    and long_write: "l < 0x1000 \<Longrightarrow> l \<notin> {REG_PWRMODE, REG_FIFOSTAT, REG_FIFODATA} \<Longrightarrow>
      reg (spi_send b (long_addr 0xF000 l @ [v]) c) = (reg c)(l := v) \<and> rxf (spi_send b (long_addr 0xF000 l @ [v]) c) = rxf c \<and>
      txf (spi_send b (long_addr 0xF000 l @ [v]) c) = txf c \<and> out (spi_send b (long_addr 0xF000 l @ [v]) c) = out c"
    and power_write: "v < 0x80 \<Longrightarrow>
      reg (spi_send b [0x82, v] c) = (reg c)(REG_PWRMODE := v) \<and> out (spi_send b [0x82, v] c) = out c"
    and power_off: "rxf (spi_send b [0x82, 0] c) = []"
    and power_rx: "rxf (spi_send b [0x82, PWRSTATE_FULL_RX] c) = rxf c"
    and fifo_write: "length (txf c) + length vs \<le> 256 \<Longrightarrow>
      reg (spi_send b (0xA9 # vs) c) = reg c \<and> txf (spi_send b (0xA9 # vs) c) = txf c @ vs \<and> out (spi_send b (0xA9 # vs) c) = out c"
    and fifo_clear: "reg (spi_send b [0xA8, 3] c) = reg c \<and> rxf (spi_send b [0xA8, 3] c) = [] \<and>
      txf (spi_send b [0xA8, 3] c) = [] \<and> out (spi_send b [0xA8, 3] c) = out c"
    and fifo_commit: "reg (spi_send b [0xA8, 4] c) = reg c \<and> txf (spi_send b [0xA8, 4] c) = [] \<and>
      out (spi_send b [0xA8, 4] c) = out c @ txf c"
    and short_read: "a < 0x70 \<Longrightarrow> a \<noteq> REG_FIFODATA \<Longrightarrow>
      reg (snd (spi_recv b [a] 1 c)) = reg c \<and> rxf (snd (spi_recv b [a] 1 c)) = rxf c \<and>
      txf (snd (spi_recv b [a] 1 c)) = txf c \<and> out (snd (spi_recv b [a] 1 c)) = out c"
    and long_read: "l < 0x1000 \<Longrightarrow> l \<noteq> REG_FIFODATA \<Longrightarrow>
      reg (snd (spi_recv b (long_addr 0x7000 l) 1 c)) = reg c \<and> rxf (snd (spi_recv b (long_addr 0x7000 l) 1 c)) = rxf c \<and>
      txf (snd (spi_recv b (long_addr 0x7000 l) 1 c)) = txf c \<and> out (snd (spi_recv b (long_addr 0x7000 l) 1 c)) = out c"
    and read_back: "a \<in> {REG_MODULATION, REG_FRAMING} \<Longrightarrow> fst (spi_recv b [a] 1 c) = [reg c (ucast a)]"
    and read_free: "length (txf c) \<le> 256 \<Longrightarrow> fst (spi_recv b [REG_FIFOFREE0] 1 c) = [word_of_nat (256 - length (txf c))] \<and>
      fst (spi_recv b [REG_FIFOFREE1] 1 c) = [word_of_nat ((256 - length (txf c)) div 256)]"
    and read_irq: "hd (fst (spi_recv b [REG_IRQREQUEST0] 1 c)) AND 1 = 0 \<longleftrightarrow> rxf c = []"
    and fifo_read: "n \<le> length (rxf c) \<Longrightarrow> fst (spi_recv b [REG_FIFODATA] n c) = take n (rxf c) \<and>
      reg (snd (spi_recv b [REG_FIFODATA] n c)) = reg c \<and> rxf (snd (spi_recv b [REG_FIFODATA] n c)) = drop n (rxf c) \<and>
      txf (snd (spi_recv b [REG_FIFODATA] n c)) = txf c \<and> out (snd (spi_recv b [REG_FIFODATA] n c)) = out c"
begin

text \<open>The accesses of the driver.\<close>

lemma write_single:
  assumes "a < 0x70" "a \<notin> {REG_PWRMODE, REG_FIFOSTAT, REG_FIFODATA}"
  shows "reg (socket (SpiWriteSingleAddressRegister b a v d)) = (reg (socket d))(ucast a := v)"
    "rxf (socket (SpiWriteSingleAddressRegister b a v d)) = rxf (socket d)"
    "txf (socket (SpiWriteSingleAddressRegister b a v d)) = txf (socket d)"
    "out (socket (SpiWriteSingleAddressRegister b a v d)) = out (socket d)"
  using short_write [OF assms] by (simp_all add: SpiWriteSingleAddressRegister_def)

lemma write_long:
  assumes "a < 0x1000" "a \<notin> {REG_PWRMODE, REG_FIFOSTAT, REG_FIFODATA}"
  shows "reg (socket (SpiWriteLongAddressRegister b a v d)) = (reg (socket d))(a := v)"
    "rxf (socket (SpiWriteLongAddressRegister b a v d)) = rxf (socket d)"
    "txf (socket (SpiWriteLongAddressRegister b a v d)) = txf (socket d)"
    "out (socket (SpiWriteLongAddressRegister b a v d)) = out (socket d)"
  using long_write [OF assms] by (simp_all add: SpiWriteLongAddressRegister_def long_addr_def Let_def)

lemma write_power:
  assumes "v < 0x80"
  shows "reg (socket (SpiWriteSingleAddressRegister b REG_PWRMODE v d)) = (reg (socket d))(REG_PWRMODE := v)"
    "out (socket (SpiWriteSingleAddressRegister b REG_PWRMODE v d)) = out (socket d)"
  using power_write [OF assms] by (simp_all add: SpiWriteSingleAddressRegister_def)

lemma write_fifo:
  assumes "length (txf (socket d)) < 256"
  shows "reg (socket (SpiWriteSingleAddressRegister b REG_FIFODATA v d)) = reg (socket d)"
    "txf (socket (SpiWriteSingleAddressRegister b REG_FIFODATA v d)) = txf (socket d) @ [v]"
    "out (socket (SpiWriteSingleAddressRegister b REG_FIFODATA v d)) = out (socket d)"
  using fifo_write [of "socket d" "[v]"] assms by (simp_all add: SpiWriteSingleAddressRegister_def)

lemma write_stat:
  "reg (socket (SpiWriteSingleAddressRegister b REG_FIFOSTAT 3 d)) = reg (socket d)"
  "txf (socket (SpiWriteSingleAddressRegister b REG_FIFOSTAT 3 d)) = []"
  "out (socket (SpiWriteSingleAddressRegister b REG_FIFOSTAT 3 d)) = out (socket d)"
  "reg (socket (SpiWriteSingleAddressRegister b REG_FIFOSTAT 4 d)) = reg (socket d)"
  "txf (socket (SpiWriteSingleAddressRegister b REG_FIFOSTAT 4 d)) = []"
  "out (socket (SpiWriteSingleAddressRegister b REG_FIFOSTAT 4 d)) = out (socket d) @ txf (socket d)"
  using fifo_clear fifo_commit by (simp_all add: SpiWriteSingleAddressRegister_def)


lemma read_single:
  assumes "a < 0x70" "a \<noteq> REG_FIFODATA"
  obtains v c where "SpiReadSingleAddressRegister b a d = (v, d\<lparr>socket := c\<rparr>)" "reg c = reg (socket d)" "rxf c = rxf (socket d)"
    "txf c = txf (socket d)" "out c = out (socket d)" "v = hd (fst (spi_recv b [a] 1 (socket d)))"
  using short_read [OF assms, of "socket d"] short_addr [OF assms(1)] that
  by (simp add: SpiReadSingleAddressRegister_def case_prod_beta)

lemma read_long:
  assumes "a < 0x1000" "a \<noteq> REG_FIFODATA"
  obtains v c where "SpiReadLongAddressRegister b a d = (v, d\<lparr>socket := c\<rparr>)" "reg c = reg (socket d)" "rxf c = rxf (socket d)"
    "txf c = txf (socket d)" "out c = out (socket d)"
  using long_read [OF assms, of "socket d"] that
  by (simp add: SpiReadLongAddressRegister_def long_addr_def Let_def case_prod_beta)

lemma read_fifo:
  assumes "rxf (socket d) = x # xs"
  obtains c where "SpiReadSingleAddressRegister b REG_FIFODATA d = (x, d\<lparr>socket := c\<rparr>)" "rxf c = xs"
  using fifo_read [of 1 "socket d"] assms that by (simp add: SpiReadSingleAddressRegister_def case_prod_beta)

lemma read_data:
  assumes "rxf (socket d) = xs @ ys" "length xs = unat n"
  obtains c where "SpiReadData b n d = (xs, d\<lparr>socket := c\<rparr>)" "rxf c = ys"
  using fifo_read [of "unat n" "socket d"] assms that by (simp add: SpiReadData_def case_prod_beta)

lemma skip_fifo:
  assumes "rxf (socket d) = xs @ ys" "length xs = n"
  shows "\<exists>c. fifo_skip b n d = d\<lparr>socket := c\<rparr> \<and> rxf c = ys"
  using assms
proof (induction n arbitrary: xs d)
  case 0
  then show ?case by (intro exI [of _ "socket d"]) simp
next
  case (Suc n)
  then obtain x xs' where xs: "xs = x # xs'" "length xs' = n" by (cases xs) auto
  with Suc.prems obtain c where c: "SpiReadSingleAddressRegister b REG_FIFODATA d = (x, d\<lparr>socket := c\<rparr>)" "rxf c = xs' @ ys"
    by (auto elim: read_fifo)
  obtain c' where "fifo_skip b n (d\<lparr>socket := c\<rparr>) = d\<lparr>socket := c'\<rparr>" "rxf c' = ys"
    using Suc.IH [of "d\<lparr>socket := c\<rparr>" xs'] c(2) xs(2) by auto
  then show ?case using c(1) by (intro exI [of _ c']) simp
qed

end

section \<open>Received chunks\<close>

text \<open>What the chip puts into the receive queue: packet data with a flag byte, the signal strength, and other chunks. A header holds
  the command and a length below seven, or seven and the length in the next byte.\<close>

datatype chunk = Data_Chunk u8 bytes | Rssi_Chunk u8 | Other_Chunk u8 bytes

definition chunk_bytes :: "u8 \<Rightarrow> bytes \<Rightarrow> bytes" where
  "chunk_bytes cmd bs =
    (if length bs < 7 then (cmd OR push_bit 5 (word_of_nat (length bs))) # bs
     else (cmd OR push_bit 5 7) # word_of_nat (length bs) # bs)"

primrec encode_chunk :: "chunk \<Rightarrow> bytes" where
  "encode_chunk (Data_Chunk flags bs) = chunk_bytes FIFOCMD_DATA (flags # bs)"
| "encode_chunk (Rssi_Chunk r) = chunk_bytes FIFOCMD_RSSI [r]"
| "encode_chunk (Other_Chunk cmd bs) = chunk_bytes cmd bs"

primrec chunk_ok :: "chunk \<Rightarrow> bool" where
  "chunk_ok (Data_Chunk flags bs) \<longleftrightarrow> length bs \<le> 64"
| "chunk_ok (Rssi_Chunk r) \<longleftrightarrow> True"
| "chunk_ok (Other_Chunk cmd bs) \<longleftrightarrow> cmd < 32 \<and> cmd \<noteq> FIFOCMD_DATA \<and> (cmd = FIFOCMD_RSSI \<longrightarrow> length bs \<noteq> 1) \<and> length bs < 256"

text \<open>Buffer, length and signal strength after a chunk.\<close>

primrec take_chunk :: "int \<Rightarrow> chunk \<Rightarrow> memory \<times> u8 \<times> int \<Rightarrow> memory \<times> u8 \<times> int" where
  "take_chunk offs (Data_Chunk flags bs) st =
    ((\<lambda>i. if i < length bs then bs ! i else fst st i), word_of_nat (length bs), snd (snd st))"
| "take_chunk offs (Rssi_Chunk r) st = (fst st, fst (snd st), sint r - offs)"
| "take_chunk offs (Other_Chunk cmd bs) st = st"

lemma unat_of_nat_u8: "n < 256 \<Longrightarrow> unat (word_of_nat n :: u8) = n"
  by (simp add: unsigned_of_nat take_bit_nat_eq_self)

lemma header_parts:
  assumes "cmd < 32" "n < 8"
  shows "(cmd OR push_bit 5 (word_of_nat n)) AND 0x1F = (cmd :: u8)" "drop_bit 5 ((cmd OR push_bit 5 (word_of_nat n)) AND 0xE0) = (word_of_nat n :: u8)"
proof -
  have all: "\<forall>c \<in> set (map word_of_nat [0..<32]). \<forall>n \<in> set [0..<8].
      (c OR push_bit 5 (word_of_nat n)) AND 0x1F = (c :: u8) \<and> drop_bit 5 ((c OR push_bit 5 (word_of_nat n)) AND 0xE0) = (word_of_nat n :: u8)"
    by code_simp
  have "cmd = word_of_nat (unat cmd)" "unat cmd < 32" using assms(1) by (simp_all add: word_less_nat_alt)
  then have "cmd \<in> set (map word_of_nat [0..<32])" by (metis atLeastLessThan_iff image_eqI list.set_map set_upt zero_le)
  moreover have "n \<in> set [0..<8]" using assms(2) by simp
  ultimately show "(cmd OR push_bit 5 (word_of_nat n)) AND 0x1F = (cmd :: u8)" "drop_bit 5 ((cmd OR push_bit 5 (word_of_nat n)) AND 0xE0) = (word_of_nat n :: u8)"
    using all by blast+
qed

text \<open>What a device has received; the rest of it but the chip.\<close>

definition received :: "'c ax5043 \<Rightarrow> memory \<times> u8 \<times> int" where
  "received d = (RXBuff d, RxLen d, ubRssi d)"

definition with_received :: "'c \<Rightarrow> memory \<times> u8 \<times> int \<Rightarrow> 'c ax5043 \<Rightarrow> 'c ax5043" where
  "with_received c st d = d\<lparr>socket := c, RXBuff := fst st, RxLen := fst (snd st), ubRssi := snd (snd st)\<rparr>"

lemma with_received_simps [simp]:
  "received (with_received c st d) = st" "socket (with_received c st d) = c" "config (with_received c st d) = config d"
  "with_received c' st' (with_received c st d) = with_received c' st' d" "with_received c (received d) (d\<lparr>socket := x\<rparr>) = d\<lparr>socket := c\<rparr>"
  by (simp_all add: received_def with_received_def)

context ax5043_chip
begin

lemma receive_head:
  assumes q: "rxf (socket d) = chunk_bytes cmd bs @ rest" and cmd: "cmd < 32" "length bs < 256"
  shows "\<exists>c. rxf c = bs @ rest \<and> receive_loop b d =
    (case receive_chunk b cmd (word_of_nat (length bs)) (d\<lparr>socket := c\<rparr>) of Inl e \<Rightarrow> Some (Inl e) | Inr dev \<Rightarrow> receive_loop b dev)"
proof -
  have "REG_IRQREQUEST0 < (0x70 :: u8)" "REG_IRQREQUEST0 \<noteq> (REG_FIFODATA :: u8)" by simp_all
  then obtain v c0 where c0: "SpiReadSingleAddressRegister b REG_IRQREQUEST0 d = (v, d\<lparr>socket := c0\<rparr>)" "rxf c0 = rxf (socket d)"
    "v = hd (fst (spi_recv b [REG_IRQREQUEST0] 1 (socket d)))" by (rule read_single)
  have "rxf (socket d) \<noteq> []" using q by (simp add: chunk_bytes_def split: if_splits)
  then have v: "v AND 1 \<noteq> 0" using read_irq [of "socket d"] c0(3) by simp
  show ?thesis
  proof (cases "length bs < 7")
    case True
    let ?h = "cmd OR push_bit 5 (word_of_nat (length bs))"
    have "rxf (socket (d\<lparr>socket := c0\<rparr>)) = ?h # bs @ rest" using q True c0(2) by (simp add: chunk_bytes_def)
    then obtain c where c: "SpiReadSingleAddressRegister b REG_FIFODATA (d\<lparr>socket := c0\<rparr>) = (?h, d\<lparr>socket := c0\<rparr>\<lparr>socket := c\<rparr>)" "rxf c = bs @ rest"
      by (rule read_fifo)
    have "(word_of_nat (length bs) :: u8) \<noteq> 7"
      using True unat_of_nat_u8 [of "length bs"] by auto
    then show ?thesis using c0(1) v c header_parts [OF cmd(1), of "length bs"] True
      by (intro exI [of _ c]) (simp add: receive_loop.simps)
  next
    case False
    let ?h = "cmd OR push_bit 5 (7 :: u8)"
    have "rxf (socket (d\<lparr>socket := c0\<rparr>)) = ?h # word_of_nat (length bs) # bs @ rest" using q False c0(2) by (simp add: chunk_bytes_def)
    then obtain c1 where c1: "SpiReadSingleAddressRegister b REG_FIFODATA (d\<lparr>socket := c0\<rparr>) = (?h, d\<lparr>socket := c0\<rparr>\<lparr>socket := c1\<rparr>)"
      "rxf c1 = word_of_nat (length bs) # bs @ rest" by (rule read_fifo)
    have "rxf (socket (d\<lparr>socket := c1\<rparr>)) = word_of_nat (length bs) # bs @ rest" using c1(2) by simp
    then obtain c where c: "SpiReadSingleAddressRegister b REG_FIFODATA (d\<lparr>socket := c1\<rparr>) = (word_of_nat (length bs), d\<lparr>socket := c1\<rparr>\<lparr>socket := c\<rparr>)"
      "rxf c = bs @ rest" by (rule read_fifo)
    show ?thesis using c0(1) v c1(1) c header_parts [OF cmd(1), of 7]
      by (intro exI [of _ c]) (simp add: receive_loop.simps)
  qed
qed

lemma receive_data_chunk:
  assumes "rxf (socket d) = (flags # bs) @ rest" "length bs \<le> 64"
  shows "\<exists>c. rxf c = rest \<and> receive_chunk b FIFOCMD_DATA (word_of_nat (length (flags # bs))) d
    = Inr (with_received c (take_chunk offs (Data_Chunk flags bs) (received d)) d)"
proof -
  have "rxf (socket d) = flags # bs @ rest" using assms(1) by simp
  then obtain c1 where c1: "SpiReadSingleAddressRegister b REG_FIFODATA d = (flags, d\<lparr>socket := c1\<rparr>)" "rxf c1 = bs @ rest" by (rule read_fifo)
  have n1: "(word_of_nat (length (flags # bs)) :: u8) - 1 = word_of_nat (length bs)" by simp
  have n2: "unat (word_of_nat (length (flags # bs)) :: u8) = Suc (length bs)" "unat (word_of_nat (length bs) :: u8) = length bs"
    using assms(2) unat_of_nat_u8 [of "length (flags # bs)"] unat_of_nat_u8 [of "length bs"] by (simp_all del: of_nat_Suc)
  then have n: "(word_of_nat (length (flags # bs)) :: u8) - 1 = word_of_nat (length bs)" "(word_of_nat (length (flags # bs)) :: u8) \<noteq> 0"
    "unat (word_of_nat (length bs) :: u8) = length bs" using n1 by auto
  have "rxf (socket (d\<lparr>socket := c1\<rparr>)) = bs @ rest" "length bs = unat (word_of_nat (length bs) :: u8)" using c1(2) n(3) by simp_all
  then obtain c2 where c2: "SpiReadData b (word_of_nat (length bs)) (d\<lparr>socket := c1\<rparr>) = (bs, d\<lparr>socket := c1\<rparr>\<lparr>socket := c2\<rparr>)" "rxf c2 = rest"
    by (rule read_data)
  let ?d = "d\<lparr>socket := c2, RXBuff := (\<lambda>i. if i < length bs then bs ! i else RXBuff d i), RxLen := word_of_nat (length bs)\<rparr>"
  have "REG_IRQMASK0 < (0x70 :: u8)" "REG_IRQMASK0 \<noteq> (REG_FIFODATA :: u8)" by simp_all
  then obtain v c3 where c3: "SpiReadSingleAddressRegister b REG_IRQMASK0 ?d = (v, ?d\<lparr>socket := c3\<rparr>)" "rxf c3 = rxf (socket ?d)"
    by (rule read_single)
  let ?c = "socket (SpiWriteSingleAddressRegister b REG_IRQMASK0 (v AND NOT 1) (?d\<lparr>socket := c3\<rparr>))"
  have "rxf ?c = rest" using c2(2) c3(2) by (subst write_single(2)) simp_all
  moreover have "receive_chunk b FIFOCMD_DATA (word_of_nat (length (flags # bs))) d
      = Inr (with_received ?c (take_chunk offs (Data_Chunk flags bs) (received d)) d)"
    using c1(1) c2(1) c3(1) n assms(2)
    by (simp add: receive_chunk_def with_received_def received_def SpiWriteSingleAddressRegister_def cong: if_cong del: of_nat_Suc length_Cons)
  ultimately show ?thesis by blast
qed

lemma receive_rssi_chunk:
  assumes "rxf (socket d) = [r] @ rest" "offs = sint (axradio_phy_rssioffset (config d))"
  shows "\<exists>c. rxf c = rest \<and> receive_chunk b FIFOCMD_RSSI (word_of_nat (length [r])) d
    = Inr (with_received c (take_chunk offs (Rssi_Chunk r) (received d)) d)"
proof -
  have "rxf (socket d) = r # rest" using assms(1) by simp
  then obtain c where "SpiReadSingleAddressRegister b REG_FIFODATA d = (r, d\<lparr>socket := c\<rparr>)" "rxf c = rest" by (rule read_fifo)
  then show ?thesis using assms(2) by (intro exI [of _ c]) (simp add: receive_chunk_def with_received_def received_def)
qed

lemma receive_other_chunk:
  assumes q: "rxf (socket d) = bs @ rest" and ok: "chunk_ok (Other_Chunk cmd bs)"
  shows "\<exists>c. rxf c = rest \<and> receive_chunk b cmd (word_of_nat (length bs)) d = Inr (with_received c (received d) d)"
proof -
  let ?n = "word_of_nat (length bs) :: u8"
  have n: "unat ?n = length bs" using ok by (intro unat_of_nat_u8) simp
  have eq: "?n = 1 \<longleftrightarrow> length bs = 1" "?n = 3 \<longleftrightarrow> length bs = 3" "?n = 0 \<longleftrightarrow> length bs = 0" using n by (auto simp: word_unat_eq_iff)
  obtain c where c: "fifo_skip b (length bs) d = d\<lparr>socket := c\<rparr>" "rxf c = rest" using skip_fifo [OF q refl] by blast
  have keep: "d\<lparr>socket := c\<rparr> = with_received c (received d) d" by (simp add: with_received_def received_def)
  have "receive_chunk b cmd ?n d = Inr (fifo_skip b (length bs) d)"
  proof (cases "cmd = FIFOCMD_ANTRSSI \<and> length bs \<noteq> 0")
    case True
    then obtain m where m: "length bs = Suc m" by (cases "length bs") auto
    then have "unat (?n - 1) = m" using n unat_of_nat_u8 [of m] ok by (simp add: word_less_nat_alt)
    then show ?thesis using True m eq by (simp add: receive_chunk_def case_prod_beta)
  next
    case False
    have "fifo_skip b 3 d = fifo_skip b (length bs) d" if "length bs = 3" using that by simp
    then show ?thesis using False ok n eq by (auto simp: receive_chunk_def)
  qed
  then show ?thesis using c keep by (intro exI [of _ c]) simp
qed

lemma receive_one:
  assumes "rxf (socket d) = encode_chunk x @ rest" "chunk_ok x" "offs = sint (axradio_phy_rssioffset (config d))"
  shows "\<exists>c. rxf c = rest \<and> receive_loop b d = receive_loop b (with_received c (take_chunk offs x (received d)) d)"
proof -
  obtain cmd bs where enc: "encode_chunk x = chunk_bytes cmd bs" "cmd < 32" "length bs < 256"
    "\<And>d. rxf (socket d) = bs @ rest \<Longrightarrow> config d = config (d :: 'c ax5043) \<Longrightarrow> offs = sint (axradio_phy_rssioffset (config d)) \<Longrightarrow>
      \<exists>c. rxf c = rest \<and> receive_chunk b cmd (word_of_nat (length bs)) d = Inr (with_received c (take_chunk offs x (received d)) d)"
  proof (cases x)
    case (Data_Chunk flags bs)
    then show thesis using that [of FIFOCMD_DATA "flags # bs"] receive_data_chunk [of _ flags bs rest offs] assms(2) by simp
  next
    case (Rssi_Chunk r)
    then show thesis using that [of FIFOCMD_RSSI "[r]"] receive_rssi_chunk [of _ r rest offs] by simp
  next
    case (Other_Chunk cmd bs)
    then show thesis using that [of cmd bs] receive_other_chunk [of _ bs rest cmd] assms(2) by simp
  qed
  obtain c where c: "rxf c = bs @ rest" "receive_loop b d =
      (case receive_chunk b cmd (word_of_nat (length bs)) (d\<lparr>socket := c\<rparr>) of Inl e \<Rightarrow> Some (Inl e) | Inr dev \<Rightarrow> receive_loop b dev)"
    using receive_head [OF assms(1) [unfolded enc(1)] enc(2,3)] by blast
  obtain c' where "rxf c' = rest" "receive_chunk b cmd (word_of_nat (length bs)) (d\<lparr>socket := c\<rparr>)
      = Inr (with_received c' (take_chunk offs x (received (d\<lparr>socket := c\<rparr>))) (d\<lparr>socket := c\<rparr>))"
    using enc(4) [of "d\<lparr>socket := c\<rparr>"] c(1) assms(3) by auto
  then show ?thesis using c(2) by (intro exI [of _ c']) (simp add: with_received_def received_def)
qed

lemma receive_all:
  "\<lbrakk>rxf (socket d) = concat (map encode_chunk xs); \<forall>x \<in> set xs. chunk_ok x; offs = sint (axradio_phy_rssioffset (config d))\<rbrakk> \<Longrightarrow>
    \<exists>c. rxf c = [] \<and> receive_loop b d = Some (Inr (with_received c (fold (take_chunk offs) xs (received d)) d))"
proof (induction xs arbitrary: d)
  case Nil
  have "REG_IRQREQUEST0 < (0x70 :: u8)" "REG_IRQREQUEST0 \<noteq> (REG_FIFODATA :: u8)" by simp_all
  then obtain v c where c: "SpiReadSingleAddressRegister b REG_IRQREQUEST0 d = (v, d\<lparr>socket := c\<rparr>)" "rxf c = rxf (socket d)"
    "v = hd (fst (spi_recv b [REG_IRQREQUEST0] 1 (socket d)))" by (rule read_single)
  then have "v AND 1 = 0" using read_irq [of "socket d"] Nil.prems(1) by simp
  then show ?case using c Nil.prems(1) by (intro exI [of _ c]) (simp add: receive_loop.simps with_received_def received_def)
next
  case (Cons x xs)
  obtain c where c: "rxf c = concat (map encode_chunk xs)" "receive_loop b d = receive_loop b (with_received c (take_chunk offs x (received d)) d)"
    using receive_one [of d x "concat (map encode_chunk xs)" offs] Cons.prems by auto
  then show ?case using Cons.IH [of "with_received c (take_chunk offs x (received d)) d"] Cons.prems by simp
qed

end

end
