(* ===== verification/Ax5043_Send.thy ===== *)
theory Ax5043_Send
  imports Ax5043_Chip
begin

unbundle bit_operations_syntax

text \<open>
  Sending a packet with the driver of the AX5043: from \<open>Normal_send\<close> through the interrupt for the crystal to the bytes
  committed to the transmit queue.
\<close>

text \<open>The bytes for a packet: a repeated preamble byte, the synchronisation word, and the data with its length byte.\<close>

definition preamble_chunk :: bytes where "preamble_chunk = [0x62, 0x38, 4, 0x55]"

definition sync_chunk :: bytes where "sync_chunk = [0xA1, 0x38, 0xCC, 0xAA, 0xCC, 0xAA]"

definition data_chunk :: "bytes \<Rightarrow> bytes" where
  "data_chunk bs = [0xE1, word_of_nat (length bs + 2), 3, word_of_nat (length bs + 1)] @ bs"

text \<open>All a device sends for the packet in its buffer; of a packet below eleven bytes no data.\<close>

definition sent_bytes :: "'c ax5043 \<Rightarrow> bytes" where
  "sent_bytes d = preamble_chunk @ sync_chunk @
    (if unat (TxLen d) < 11 then [] else [0xE1, 1 + TxLen d, 3] @ map (TXBuff d) [0..<unat (TxLen d)])"

context ax5043_chip
begin

lemma write_fifo_list:
  "length (txf (socket d)) + length vs \<le> 256 \<Longrightarrow>
    \<exists>c. write_regs b (map (Pair REG_FIFODATA) vs) d = d\<lparr>socket := c\<rparr> \<and> txf c = txf (socket d) @ vs \<and> out c = out (socket d) \<and> reg c = reg (socket d)"
proof (induction vs arbitrary: d)
  case Nil
  then show ?case by (intro exI [of _ "socket d"]) (simp add: write_regs_def)
next
  case (Cons v vs)
  have "length (txf (socket d)) < 256" using Cons.prems by simp
  note w = write_fifo [OF this, of v]
  let ?d = "SpiWriteSingleAddressRegister b REG_FIFODATA v d"
  obtain c where "write_regs b (map (Pair REG_FIFODATA) vs) ?d = ?d\<lparr>socket := c\<rparr>" "txf c = txf (socket ?d) @ vs" "out c = out (socket ?d)" "reg c = reg (socket ?d)"
    using Cons.IH [of ?d] Cons.prems w by auto
  then show ?case using w by (intro exI [of _ c]) (simp add: write_regs_def SpiWriteSingleAddressRegister_def)
qed

text \<open>The start of a round: the free space.\<close>

lemma tx_round_free:
  assumes "length (txf (socket d)) \<le> 241"
  obtains c u where "tx_round b d = tx_state b u (d\<lparr>socket := c\<rparr>)" "15 \<le> u" "txf c = txf (socket d)" "out c = out (socket d)" "reg c = reg (socket d)"
proof -
  let ?n = "length (txf (socket d))"
  have "REG_FIFOFREE0 < (0x70 :: u8)" "REG_FIFOFREE0 \<noteq> (REG_FIFODATA :: u8)" by simp_all
  then obtain f0 c0 where r0: "SpiReadSingleAddressRegister b REG_FIFOFREE0 d = (f0, d\<lparr>socket := c0\<rparr>)" "reg c0 = reg (socket d)"
    "txf c0 = txf (socket d)" "out c0 = out (socket d)" "f0 = hd (fst (spi_recv b [REG_FIFOFREE0] 1 (socket d)))" by (rule read_single)
  have "REG_FIFOFREE1 < (0x70 :: u8)" "REG_FIFOFREE1 \<noteq> (REG_FIFODATA :: u8)" by simp_all
  then obtain f1 c1 where r1: "SpiReadSingleAddressRegister b REG_FIFOFREE1 (d\<lparr>socket := c0\<rparr>) = (f1, d\<lparr>socket := c0\<rparr>\<lparr>socket := c1\<rparr>)"
    "reg c1 = reg (socket (d\<lparr>socket := c0\<rparr>))" "txf c1 = txf (socket (d\<lparr>socket := c0\<rparr>))" "out c1 = out (socket (d\<lparr>socket := c0\<rparr>))"
    "f1 = hd (fst (spi_recv b [REG_FIFOFREE1] 1 (socket (d\<lparr>socket := c0\<rparr>))))" by (rule read_single)
  have f: "f0 = word_of_nat (256 - ?n)" "f1 = word_of_nat ((256 - ?n) div 256)"
    using read_free [of "socket d"] read_free [of c0] r0(3,5) r1(5) assms by simp_all
  have "15 \<le> (if f1 \<noteq> 0 then 0xFF else f0)"
  proof (cases "?n = 0")
    case True
    then show ?thesis using f(2) by simp
  next
    case False
    then have "unat f0 = 256 - ?n" using f(1) by (simp add: unat_of_nat_u8 del: of_nat_diff)
    moreover have "f1 = 0" using f(2) False by simp
    ultimately show ?thesis using assms by (simp add: word_le_nat_alt)
  qed
  then show thesis using that [of "if f1 \<noteq> 0 then 0xFF else f0" c1] r0(1-4) r1(1-4) by (simp add: tx_round_def del: if_not_P if_split)
qed

text \<open>The three rounds.\<close>

lemma preamble_round:
  assumes "config d = rf_433_config_init" "ubRFState d = trxstate_tx_longpreamble" "axradio_txbuffer_cnt d = 0" "txf (socket d) = []"
  obtains c where "tx_round b d = (Again, d\<lparr>socket := c, ubRFState := trxstate_tx_shortpreamble, axradio_txbuffer_cnt := 0\<rparr>)"
    "txf c = preamble_chunk" "out c = out (socket d)" "reg c = reg (socket d)"
proof -
  have "length (txf (socket d)) \<le> 241" using assms(4) by simp
  then obtain c u where r: "tx_round b d = tx_state b u (d\<lparr>socket := c\<rparr>)" "15 \<le> u" "txf c = txf (socket d)" "out c = out (socket d)"
    "reg c = reg (socket d)" by (rule tx_round_free)
  let ?d = "d\<lparr>socket := c, ubRFState := trxstate_tx_shortpreamble, axradio_txbuffer_cnt := 0\<rparr>"
  obtain c' where c': "write_regs b (map (Pair REG_FIFODATA) preamble_chunk) ?d = ?d\<lparr>socket := c'\<rparr>" "txf c' = preamble_chunk"
    "out c' = out c" "reg c' = reg c"
    using write_fifo_list [of ?d preamble_chunk] r(3) assms(4) by (auto simp: preamble_chunk_def)
  have "\<not> u < 4" using r(2) by (simp add: not_less order_trans [of 4 15 u])
  then have "tx_round b d = (Again, ?d\<lparr>socket := c'\<rparr>)"
    using r(1) assms(1-3) c'(1)
    by (simp add: tx_state_def tx_shortpreamble_def tx_preamble_def rf_433_config_init_def preamble_chunk_def)
  then show thesis using that [of c'] c'(2-4) r(4,5) by simp
qed

lemma sync_round:
  assumes "config d = rf_433_config_init" "ubRFState d = trxstate_tx_shortpreamble" "axradio_txbuffer_cnt d = 0" "txf (socket d) = preamble_chunk"
    "reg (socket d) REG_FRAMING AND 0x0E = 0x06"
  obtains c where "tx_round b d = (Again, d\<lparr>socket := c, ubRFState := trxstate_tx_packet\<rparr>)"
    "txf c = preamble_chunk @ sync_chunk" "out c = out (socket d)" "reg c = reg (socket d)"
proof -
  have "length (txf (socket d)) \<le> 241" using assms(4) by (simp add: preamble_chunk_def)
  then obtain c u where r: "tx_round b d = tx_state b u (d\<lparr>socket := c\<rparr>)" "15 \<le> u" "txf c = txf (socket d)" "out c = out (socket d)"
    "reg c = reg (socket d)" by (rule tx_round_free)
  have "REG_FRAMING < (0x70 :: u8)" "REG_FRAMING \<noteq> (REG_FIFODATA :: u8)" by simp_all
  then obtain v c1 where c1: "SpiReadSingleAddressRegister b REG_FRAMING (d\<lparr>socket := c\<rparr>) = (v, d\<lparr>socket := c\<rparr>\<lparr>socket := c1\<rparr>)"
    "reg c1 = reg (socket (d\<lparr>socket := c\<rparr>))" "txf c1 = txf (socket (d\<lparr>socket := c\<rparr>))" "out c1 = out (socket (d\<lparr>socket := c\<rparr>))"
    "v = hd (fst (spi_recv b [REG_FRAMING] 1 (socket (d\<lparr>socket := c\<rparr>))))" by (rule read_single)
  have v: "v AND 0x0E = 6" using c1(5) read_back [of REG_FRAMING c] assms(5) r(5) by simp
  let ?d = "d\<lparr>socket := c1\<rparr>"
  obtain c' where c': "write_regs b (map (Pair REG_FIFODATA) sync_chunk) ?d = ?d\<lparr>socket := c'\<rparr>" "txf c' = preamble_chunk @ sync_chunk"
    "out c' = out c1" "reg c' = reg c1"
    using write_fifo_list [of ?d sync_chunk] r(3) c1(3) assms(4) by (auto simp: preamble_chunk_def sync_chunk_def)
  have upt4: "[0..<4] = [0, 1, 2, 3]" by (simp add: upt_rec)
  have "\<not> u < 15" using r(2) by (simp add: not_less)
  then have "tx_round b d = (Again, d\<lparr>socket := c', ubRFState := trxstate_tx_packet\<rparr>)"
    using r(1) assms(1-3) c'(1) c1(1) v
    by (simp add: tx_state_def tx_shortpreamble_def tx_sync_def rf_433_config_init_def sync_chunk_def write_regs_def upt4)
  then show thesis using that [of c'] c'(2-4) c1(2,4) r(4,5) by simp
qed

lemma packet_round:
  assumes "ubRFState d = trxstate_tx_packet" "txf (socket d) = preamble_chunk @ sync_chunk" "11 \<le> unat (TxLen d)" "unat (TxLen d) \<le> 64"
  obtains c where "tx_round b d = (Pktend, d\<lparr>socket := c\<rparr>)"
    "txf c = preamble_chunk @ sync_chunk @ [0xE1, 1 + TxLen d, 3] @ map (TXBuff d) [0..<unat (TxLen d)]" "out c = out (socket d)"
proof -
  have "length (txf (socket d)) \<le> 241" using assms(2) by (simp add: preamble_chunk_def sync_chunk_def)
  then obtain c u where r: "tx_round b d = tx_state b u (d\<lparr>socket := c\<rparr>)" "15 \<le> u" "txf c = txf (socket d)" "out c = out (socket d)"
    "reg c = reg (socket d)" by (rule tx_round_free)
  let ?d = "d\<lparr>socket := c\<rparr>" and ?h = "[0xE1, 1 + TxLen d, 3]" and ?p = "map (TXBuff d) [0..<unat (TxLen d)]"
  obtain c1 where c1: "write_regs b (map (Pair REG_FIFODATA) ?h) ?d = ?d\<lparr>socket := c1\<rparr>" "txf c1 = preamble_chunk @ sync_chunk @ ?h" "out c1 = out c"
    using write_fifo_list [of ?d ?h] r(3) assms(2) by (auto simp: preamble_chunk_def sync_chunk_def)
  let ?c = "spi_send b (0xA9 # ?p) c1"
  have "txf ?c = txf c1 @ ?p" "out ?c = out c1"
    using fifo_write [of c1 ?p] c1(2) assms(4) by (simp_all add: preamble_chunk_def sync_chunk_def)
  moreover have "\<not> TxLen d < 11" using assms(3) by (simp add: word_less_nat_alt)
  then have "tx_round b d = (Pktend, d\<lparr>socket := ?c\<rparr>)"
    using r(1) c1(1) assms(1,4) by (simp add: tx_state_def SpiWriteData_def)
  ultimately show thesis using that [of ?c] c1(2,3) r(4) by simp
qed

lemma short_packet_round:
  assumes "ubRFState d = trxstate_tx_packet" "txf (socket d) = preamble_chunk @ sync_chunk" "unat (TxLen d) < 11"
  obtains c where "tx_round b d = (Fifocommit, d\<lparr>socket := c\<rparr>)" "txf c = preamble_chunk @ sync_chunk" "out c = out (socket d)"
proof -
  have "length (txf (socket d)) \<le> 241" using assms(2) by (simp add: preamble_chunk_def sync_chunk_def)
  then obtain c u where r: "tx_round b d = tx_state b u (d\<lparr>socket := c\<rparr>)" "15 \<le> u" "txf c = txf (socket d)" "out c = out (socket d)"
    "reg c = reg (socket d)" by (rule tx_round_free)
  have "TxLen d < 11" using assms(3) by (simp add: word_less_nat_alt)
  then have "tx_round b d = (Fifocommit, d\<lparr>socket := c\<rparr>)" using r(1) assms(1) by (simp add: tx_state_def)
  then show thesis using that r(3,4) assms(2) by simp
qed

lemma pktend_commits:
  "\<exists>c. tx_pktend b d = d\<lparr>socket := c, ubRFState := trxstate_tx_waitdone\<rparr> \<and> out c = out (socket d) @ txf (socket d)"
proof -
  let ?c = "spi_send b [135, 64] (spi_send b [137, 1] (spi_send b [168, 4] (socket d)))"
  have "out ?c = out (socket d) @ txf (socket d)"
    using write_stat(6) [of d] short_write [of REG_RADIOEVENTMASK0 1] short_write [of REG_IRQMASK0 64]
    by (simp add: SpiWriteSingleAddressRegister_def)
  then show ?thesis by (intro exI [of _ ?c]) (simp add: tx_pktend_def write_regs_def SpiWriteSingleAddressRegister_def)
qed

lemma transmit_sends:
  assumes "config d = rf_433_config_init" "ubRFState d = trxstate_tx_longpreamble" "axradio_txbuffer_cnt d = 0" "txf (socket d) = []"
    "reg (socket d) REG_FRAMING AND 0x0E = 0x06" "unat (TxLen d) \<le> 64"
  shows "\<exists>c. TransmitData b d = Some (Inr (d\<lparr>socket := c, ubRFState := trxstate_tx_waitdone, axradio_txbuffer_cnt := 0\<rparr>)) \<and>
    out c = out (socket d) @ sent_bytes d"
proof -
  obtain c1 where c1: "tx_round b d = (Again, d\<lparr>socket := c1, ubRFState := trxstate_tx_shortpreamble, axradio_txbuffer_cnt := 0\<rparr>)"
    "txf c1 = preamble_chunk" "out c1 = out (socket d)" "reg c1 = reg (socket d)"
    using assms(1-4) by (rule preamble_round)
  let ?d1 = "d\<lparr>socket := c1, ubRFState := trxstate_tx_shortpreamble, axradio_txbuffer_cnt := 0\<rparr>"
  have "config ?d1 = rf_433_config_init" "ubRFState ?d1 = trxstate_tx_shortpreamble" "axradio_txbuffer_cnt ?d1 = 0" "txf (socket ?d1) = preamble_chunk"
    "reg (socket ?d1) REG_FRAMING AND 0x0E = 0x06" using assms(1,5) c1(2,4) by simp_all
  then obtain c2 where c2: "tx_round b ?d1 = (Again, ?d1\<lparr>socket := c2, ubRFState := trxstate_tx_packet\<rparr>)"
    "txf c2 = preamble_chunk @ sync_chunk" "out c2 = out (socket ?d1)" by (rule sync_round)
  let ?d2 = "?d1\<lparr>socket := c2, ubRFState := trxstate_tx_packet\<rparr>"
  have d2: "TransmitData b d = TransmitData b ?d2"
    using c1(1) c2(1) by (simp add: TransmitData.simps [of b d] TransmitData.simps [of b ?d1])
  have s2: "ubRFState ?d2 = trxstate_tx_packet" "txf (socket ?d2) = preamble_chunk @ sync_chunk" using c2(2) by simp_all
  show ?thesis
  proof (cases "unat (TxLen d) < 11")
    case True
    then have "unat (TxLen ?d2) < 11" by simp
    with s2 obtain c3 where c3: "tx_round b ?d2 = (Fifocommit, ?d2\<lparr>socket := c3\<rparr>)" "txf c3 = preamble_chunk @ sync_chunk" "out c3 = out (socket ?d2)"
      by (rule short_packet_round)
    let ?d3 = "SpiWriteSingleAddressRegister b REG_FIFOSTAT 4 (?d2\<lparr>socket := c3\<rparr>)"
    obtain c where "tx_pktend b ?d3 = ?d3\<lparr>socket := c, ubRFState := trxstate_tx_waitdone\<rparr>" "out c = out (socket ?d3) @ txf (socket ?d3)"
      using pktend_commits by blast
    moreover have "TransmitData b ?d2 = Some (Inr (tx_pktend b ?d3))" using c3(1) by (subst TransmitData.simps) simp
    ultimately show ?thesis using c3(2,3) c2(3) c1(3) True write_stat(5,6) [of "?d2\<lparr>socket := c3\<rparr>"] unfolding d2
      by (intro exI [of _ c]) (simp add: sent_bytes_def SpiWriteSingleAddressRegister_def)
  next
    case False
    then have "11 \<le> unat (TxLen ?d2)" "unat (TxLen ?d2) \<le> 64" using assms(6) by simp_all
    with s2 obtain c3 where c3: "tx_round b ?d2 = (Pktend, ?d2\<lparr>socket := c3\<rparr>)"
      "txf c3 = preamble_chunk @ sync_chunk @ [0xE1, 1 + TxLen ?d2, 3] @ map (TXBuff ?d2) [0..<unat (TxLen ?d2)]" "out c3 = out (socket ?d2)"
      by (rule packet_round)
    obtain c where "tx_pktend b (?d2\<lparr>socket := c3\<rparr>) = ?d2\<lparr>socket := c3\<rparr>\<lparr>socket := c, ubRFState := trxstate_tx_waitdone\<rparr>" "out c = out c3 @ txf c3"
      using pktend_commits [of "?d2\<lparr>socket := c3\<rparr>"] by auto
    moreover have "TransmitData b ?d2 = Some (Inr (tx_pktend b (?d2\<lparr>socket := c3\<rparr>)))" using c3(1) by (subst TransmitData.simps) simp
    ultimately show ?thesis using c3(2,3) c2(3) c1(3) False unfolding d2
      by (intro exI [of _ c]) (simp add: sent_bytes_def)
  qed
qed

section \<open>From the packet to the interrupt\<close>

text \<open>Accesses that leave the committed bytes and the format registers as they are.\<close>

definition keeps :: "'c \<Rightarrow> 'c \<Rightarrow> bool" where
  "keeps c c' \<longleftrightarrow> out c' = out c \<and> reg c' REG_MODULATION = reg c REG_MODULATION \<and> reg c' REG_FRAMING = reg c REG_FRAMING"

lemma keeps_trans: "keeps c c' \<Longrightarrow> keeps c' c'' \<Longrightarrow> keeps c c''"
  by (simp add: keeps_def)

lemma keeps_refl: "keeps c c"
  by (simp add: keeps_def)

lemma keeps_single:
  assumes "a < 0x70" "a \<notin> {REG_PWRMODE, REG_FIFOSTAT, REG_FIFODATA, REG_MODULATION, REG_FRAMING}"
  shows "\<exists>c. SpiWriteSingleAddressRegister b a v d = d\<lparr>socket := c\<rparr> \<and> keeps (socket d) c"
proof -
  have "unat (ucast a :: u16) = unat a" using u8_lt [of a] by (simp add: unsigned_ucast_eq take_bit_nat_eq_self)
  then have "ucast a \<noteq> (REG_MODULATION :: u16)" "ucast a \<noteq> (REG_FRAMING :: u16)"
    using assms(2) by (auto simp: word_unat_eq_iff)
  then show ?thesis using write_single [of a v d] assms
    by (intro exI [of _ "spi_send b [a OR 0x80, v] (socket d)"]) (auto simp: keeps_def SpiWriteSingleAddressRegister_def)
qed

lemma keeps_power: "v < 0x80 \<Longrightarrow> \<exists>c. SpiWriteSingleAddressRegister b REG_PWRMODE v d = d\<lparr>socket := c\<rparr> \<and> keeps (socket d) c"
  using write_power [of v d]
  by (intro exI [of _ "spi_send b [0x82, v] (socket d)"]) (auto simp: keeps_def SpiWriteSingleAddressRegister_def)

lemma keeps_long:
  assumes "a < 0x1000" "a \<notin> {REG_PWRMODE, REG_FIFOSTAT, REG_FIFODATA, REG_MODULATION, REG_FRAMING}"
  shows "\<exists>c. SpiWriteLongAddressRegister b a v d = d\<lparr>socket := c\<rparr> \<and> keeps (socket d) c"
  using write_long [of a v d] assms
  by (intro exI [of _ "spi_send b (long_addr 0xF000 a @ [v]) (socket d)"]) (auto simp: keeps_def SpiWriteLongAddressRegister_def long_addr_def Let_def)

lemma keeps_long_list:
  "\<forall>(a, v) \<in> set rs. a < 0x1000 \<and> a \<notin> {REG_PWRMODE, REG_FIFOSTAT, REG_FIFODATA, REG_MODULATION, REG_FRAMING} \<Longrightarrow>
    \<exists>c. write_long_regs b rs d = d\<lparr>socket := c\<rparr> \<and> keeps (socket d) c"
proof (induction rs arbitrary: d)
  case Nil
  then show ?case by (intro exI [of _ "socket d"]) (simp add: write_long_regs_def keeps_refl)
next
  case (Cons r rs)
  obtain a v where r: "r = (a, v)" by (cases r)
  obtain c where c: "SpiWriteLongAddressRegister b a v d = d\<lparr>socket := c\<rparr>" "keeps (socket d) c"
    using keeps_long [of a v d] Cons.prems r by auto
  obtain c' where "write_long_regs b rs (d\<lparr>socket := c\<rparr>) = d\<lparr>socket := c\<rparr>\<lparr>socket := c'\<rparr>" "keeps c c'"
    using Cons.IH [of "d\<lparr>socket := c\<rparr>"] Cons.prems by auto
  then show ?case using c keeps_trans by (intro exI [of _ c']) (auto simp: write_long_regs_def r)
qed

lemma keeps_read_single:
  assumes "a < 0x70" "a \<noteq> REG_FIFODATA"
  shows "\<exists>v c. SpiReadSingleAddressRegister b a d = (v, d\<lparr>socket := c\<rparr>) \<and> keeps (socket d) c"
  using assms by (elim read_single [of a d]) (auto simp: keeps_def)

lemma keeps_read_long:
  assumes "a < 0x1000" "a \<noteq> REG_FIFODATA"
  shows "\<exists>v c. SpiReadLongAddressRegister b a d = (v, d\<lparr>socket := c\<rparr>) \<and> keeps (socket d) c"
  using assms by (elim read_long [of a d]) (auto simp: keeps_def)

lemma keeps_vcoi: "\<exists>v c. axradio_get_pllvcoi b d = (v, d\<lparr>socket := c\<rparr>) \<and> keeps (socket d) c"
proof -
  have "\<exists>v c. (x, d) = (v, d\<lparr>socket := c\<rparr>) \<and> keeps (socket d) c" for x
    using keeps_refl by (intro exI [of _ x] exI [of _ "socket d"]) simp
  then show ?thesis using keeps_read_long [of REG_PLLVCOI d] by (simp add: axradio_get_pllvcoi_def Let_def)
qed

lemma keeps_init_common: "\<exists>r c. ax5043_init_registers_common b d = (r, d\<lparr>socket := c\<rparr>) \<and> keeps (socket d) c"
proof (cases "axradio_phy_chanpllrng d AND 0x20 \<noteq> 0")
  case True
  then show ?thesis using keeps_refl by (intro exI [of _ AXRADIO_ERR_RANGING] exI [of _ "socket d"]) (simp add: ax5043_init_registers_common_def)
next
  case False
  obtain x c1 where c1: "SpiReadSingleAddressRegister b REG_PLLLOOP d = (x, d\<lparr>socket := c1\<rparr>)" "keeps (socket d) c1"
    using keeps_read_single [of REG_PLLLOOP d] by auto
  let ?r = "axradio_phy_chanpllrng d AND 0x0F"
  obtain c2 where c2: "(if x AND 0x80 \<noteq> 0 then SpiWriteSingleAddressRegister b REG_PLLRANGINGB ?r (d\<lparr>socket := c1\<rparr>)
      else SpiWriteSingleAddressRegister b REG_PLLRANGINGA ?r (d\<lparr>socket := c1\<rparr>)) = d\<lparr>socket := c2\<rparr>" "keeps c1 c2"
    using keeps_single [of REG_PLLRANGINGB ?r "d\<lparr>socket := c1\<rparr>"] keeps_single [of REG_PLLRANGINGA ?r "d\<lparr>socket := c1\<rparr>"]
    by (cases "x AND 0x80 = 0") auto
  obtain v c3 where c3: "axradio_get_pllvcoi b (d\<lparr>socket := c2\<rparr>) = (v, d\<lparr>socket := c3\<rparr>)" "keeps c2 c3"
    using keeps_vcoi [of "d\<lparr>socket := c2\<rparr>"] by auto
  obtain c4 where c4: "(if v AND 0x80 \<noteq> 0 then SpiWriteLongAddressRegister b REG_PLLVCOI v (d\<lparr>socket := c3\<rparr>) else d\<lparr>socket := c3\<rparr>) = d\<lparr>socket := c4\<rparr>"
    "keeps c3 c4"
    using keeps_long [of REG_PLLVCOI v "d\<lparr>socket := c3\<rparr>"] keeps_refl by (cases "v AND 0x80 = 0") auto
  have "keeps (socket d) c4" using c1(2) c2(2) c3(2) c4(2) keeps_trans by blast
  then show ?thesis using False c1(1) c2(1) c3(1) c4(1)
    by (intro exI [of _ AXRADIO_ERR_NOERROR] exI [of _ c4]) (simp add: ax5043_init_registers_common_def Let_def)
qed

lemma send_prepares:
  assumes tab: "TXRegValue d = set_registers_tx_433" and n: "unat n < 64"
  shows "\<exists>c. Normal_send_dev b buf n d = Inr (d\<lparr>socket := c, TxLen := n + 1,
      TXBuff := (\<lambda>i. if 1 \<le> i \<and> i < 1 + unat n then buf (i - 1) else ((TXBuff d)(0 := n + 1)) i),
      ubRFState := trxstate_tx_xtalwait, axradio_txbuffer_cnt := 0\<rparr>) \<and> keeps (socket d) c"
proof -
  let ?d = "d\<lparr>axradio_txbuffer_cnt := 0\<rparr>"
  obtain c1 where c1: "SpiWriteSingleAddressRegister b REG_PWRMODE PWRSTATE_XTAL_ON ?d = ?d\<lparr>socket := c1\<rparr>" "keeps (socket d) c1"
    using keeps_power [of PWRSTATE_XTAL_ON ?d] by auto
  obtain c2 where c2: "SpiWriteSingleAddressRegister b REG_PWRMODE PWRSTATE_FIFO_ON (?d\<lparr>socket := c1\<rparr>) = ?d\<lparr>socket := c2\<rparr>" "keeps c1 c2"
    using keeps_power [of PWRSTATE_FIFO_ON "?d\<lparr>socket := c1\<rparr>"] by auto
  have upt6: "[0..<6] = [0, 1, 2, 3, 4, 5]" by (simp add: upt_rec)
  have regs: "map (\<lambda>i. TXRegValue d ! i) [0..<6] = set_registers_tx_433"
    unfolding tab by (simp add: upt6 set_registers_tx_433_def)
  obtain c3 where c3: "write_long_regs b set_registers_tx_433 (?d\<lparr>socket := c2\<rparr>) = ?d\<lparr>socket := c3\<rparr>" "keeps c2 c3"
    using keeps_long_list [of set_registers_tx_433 "?d\<lparr>socket := c2\<rparr>"] by (auto simp: set_registers_tx_433_def)
  obtain r c4 where c4: "ax5043_init_registers_common b (?d\<lparr>socket := c3\<rparr>) = (r, ?d\<lparr>socket := c4\<rparr>)" "keeps c3 c4"
    using keeps_init_common [of "?d\<lparr>socket := c3\<rparr>"] by auto
  define e where "e = d\<lparr>axradio_txbuffer_cnt := 0, TxLen := n + 1,
    TXBuff := (\<lambda>i. if 1 \<le> i \<and> i < 1 + unat n then buf (i - 1) else ((TXBuff d)(0 := n + 1)) i)\<rparr>"
  obtain c5 where c5: "SpiWriteSingleAddressRegister b REG_FIFOTHRESH1 0 (e\<lparr>socket := c4\<rparr>) = e\<lparr>socket := c5\<rparr>" "keeps c4 c5"
    using keeps_single [of REG_FIFOTHRESH1 0 "e\<lparr>socket := c4\<rparr>"] by auto
  obtain c6 where c6: "SpiWriteSingleAddressRegister b REG_FIFOTHRESH0 0x80 (e\<lparr>socket := c5\<rparr>) = e\<lparr>socket := c6\<rparr>" "keeps c5 c6"
    using keeps_single [of REG_FIFOTHRESH0 "0x80" "e\<lparr>socket := c5\<rparr>"] by auto
  define g where "g = e\<lparr>ubRFState := trxstate_tx_xtalwait\<rparr>"
  obtain c7 where c7: "SpiWriteSingleAddressRegister b REG_IRQMASK0 0 (g\<lparr>socket := c6\<rparr>) = g\<lparr>socket := c7\<rparr>" "keeps c6 c7"
    using keeps_single [of REG_IRQMASK0 0 "g\<lparr>socket := c6\<rparr>"] by auto
  obtain c8 where c8: "SpiWriteSingleAddressRegister b REG_IRQMASK1 1 (g\<lparr>socket := c7\<rparr>) = g\<lparr>socket := c8\<rparr>" "keeps c7 c8"
    using keeps_single [of REG_IRQMASK1 1 "g\<lparr>socket := c7\<rparr>"] by auto
  obtain v c9 where c9: "SpiReadSingleAddressRegister b REG_POWSTICKYSTAT (g\<lparr>socket := c8\<rparr>) = (v, g\<lparr>socket := c9\<rparr>)" "keeps c8 c9"
    using keeps_read_single [of REG_POWSTICKYSTAT "g\<lparr>socket := c8\<rparr>"] by auto
  have e: "?d\<lparr>socket := c4, TxLen := n + 1, TXBuff := (\<lambda>i. if 1 \<le> i \<and> i < 1 + unat n then buf (i - 1) else ((TXBuff d)(0 := n + 1)) i)\<rparr> = e\<lparr>socket := c4\<rparr>"
    "e\<lparr>socket := c6, ubRFState := trxstate_tx_xtalwait\<rparr> = g\<lparr>socket := c6\<rparr>" by (simp_all add: e_def g_def)
  have "keeps (socket d) c9"
    using c1(2) c2(2) c3(2) c4(2) c5(2) c6(2) c7(2) c8(2) c9(2) keeps_trans by meson
  moreover have "Normal_send_dev b buf n d = Inr (g\<lparr>socket := c9\<rparr>)"
    using n c1(1) c2(1) regs c3(1) c4(1) c5(1) c6(1) c7(1) c8(1) c9(1) e
    by (simp add: Normal_send_dev_def transmit_packet_task_def write_regs_def Ax5043SetRegisters_TX_def cong: if_cong)
  ultimately show ?thesis by (intro exI [of _ c9]) (simp add: g_def e_def)
qed

lemma start_transmit_sends:
  assumes "config d = rf_433_config_init" "axradio_txbuffer_cnt d = 0" "unat (TxLen d) \<le> 64"
    "reg (socket d) REG_FRAMING AND 0x0E = 0x06" "reg (socket d) REG_MODULATION AND 0x0F \<noteq> 9"
  shows "\<exists>c. start_transmit b d = Some (Inr (d\<lparr>socket := c, ubRFState := trxstate_tx_waitdone, axradio_txbuffer_cnt := 0\<rparr>)) \<and>
    out c = out (socket d) @ sent_bytes d"
proof -
  obtain v c1 where c1: "SpiReadSingleAddressRegister b REG_RADIOEVENTREQ0 d = (v, d\<lparr>socket := c1\<rparr>)" "keeps (socket d) c1"
    using keeps_read_single [of REG_RADIOEVENTREQ0 d] by auto
  let ?c2 = "spi_send b [0xA8, 3] c1"
  let ?c4 = "spi_send b [0x87, 8] (spi_send b [0x86, 0] ?c2)"
  have c4: "txf ?c4 = []" "keeps c1 ?c4"
    using fifo_clear [of c1] short_write [of REG_IRQMASK1 0 ?c2] short_write [of REG_IRQMASK0 8 "spi_send b [0x86, 0] ?c2"]
    by (simp_all add: keeps_def)
  let ?d4 = "d\<lparr>socket := ?c4, ubRFState := trxstate_tx_longpreamble\<rparr>"
  have "REG_MODULATION < (0x70 :: u8)" "REG_MODULATION \<noteq> (REG_FIFODATA :: u8)" by simp_all
  then obtain m c5 where c5: "SpiReadSingleAddressRegister b REG_MODULATION ?d4 = (m, ?d4\<lparr>socket := c5\<rparr>)" "reg c5 = reg (socket ?d4)"
    "txf c5 = txf (socket ?d4)" "out c5 = out (socket ?d4)" "m = hd (fst (spi_recv b [REG_MODULATION] 1 (socket ?d4)))" by (rule read_single)
  have m: "m AND 0x0F \<noteq> 9" using c5(5) read_back [of REG_MODULATION ?c4] assms(5) c1(2) c4(2) by (simp add: keeps_def)
  let ?d5 = "?d4\<lparr>socket := c5\<rparr>"
  have "config ?d5 = rf_433_config_init" "ubRFState ?d5 = trxstate_tx_longpreamble" "axradio_txbuffer_cnt ?d5 = 0" "txf (socket ?d5) = []"
    "reg (socket ?d5) REG_FRAMING AND 0x0E = 0x06" "unat (TxLen ?d5) \<le> 64"
    using assms c1(2) c4 c5(2,3) by (simp_all add: keeps_def)
  from transmit_sends [OF this] obtain c6 where c6:
    "TransmitData b ?d5 = Some (Inr (?d5\<lparr>socket := c6, ubRFState := trxstate_tx_waitdone, axradio_txbuffer_cnt := 0\<rparr>))"
    "out c6 = out c5 @ sent_bytes ?d5" by auto
  let ?d6 = "?d5\<lparr>socket := c6, ubRFState := trxstate_tx_waitdone, axradio_txbuffer_cnt := 0\<rparr>"
  obtain c7 where c7: "SpiWriteSingleAddressRegister b REG_PWRMODE PWRSTATE_FULL_TX ?d6 = ?d6\<lparr>socket := c7\<rparr>" "keeps c6 c7"
    using keeps_power [of PWRSTATE_FULL_TX ?d6] by auto
  have w: "write_regs b [(REG_FIFOSTAT, 3), (REG_IRQMASK1, 0), (REG_IRQMASK0, 8)] (d\<lparr>socket := c1\<rparr>) = d\<lparr>socket := ?c4\<rparr>"
    by (simp add: write_regs_def SpiWriteSingleAddressRegister_def)
  have "start_transmit b d = Some (Inr (?d6\<lparr>socket := c7\<rparr>))"
    unfolding start_transmit_def Let_def c1(1) prod.case w using c5(1) m c6(1) c7(1) by simp
  moreover have "out c7 = out (socket d) @ sent_bytes d"
    using c7(2) c6(2) c5(4) c4(2) c1(2) by (simp add: keeps_def sent_bytes_def)
  ultimately show ?thesis by (intro exI [of _ c7]) simp
qed

end

end
