(* ===== verification/Ax5043_Unit.thy ===== *)
theory Ax5043_Unit
  imports Ax5043_Send
begin

unbundle bit_operations_syntax

text \<open>
  The interrupt thread of the radio: packets in both directions, and the way back to reception after a packet has been sent.
\<close>

section \<open>What was received\<close>

lemma received_access [simp]:
  "received (SpiWriteSingleAddressRegister b a v d) = received d" "received (SpiWriteLongAddressRegister b l v d) = received d"
  "received (snd (SpiReadSingleAddressRegister b a d)) = received d" "received (snd (SpiReadLongAddressRegister b l d)) = received d"
  "received (d\<lparr>ubRFState := st\<rparr>) = received d"
  by (simp_all add: received_def SpiWriteSingleAddressRegister_def SpiWriteLongAddressRegister_def SpiReadSingleAddressRegister_def
      SpiReadLongAddressRegister_def Let_def case_prod_beta)

lemma received_regs [simp]: "received (write_regs b rs d) = received d"
  by (induction rs arbitrary: d) (simp_all add: write_regs_def case_prod_beta)

lemma received_long_regs [simp]: "received (write_long_regs b ls d) = received d"
  by (induction ls arbitrary: d) (simp_all add: write_long_regs_def case_prod_beta)

lemma received_sets [simp]:
  "received (snd (axradio_get_pllvcoi b d)) = received d" "received (snd (ax5043_init_registers_common b d)) = received d"
  "received (snd (Ax5043SetRegisters_RX b d)) = received d" "received (AX5043Receiver_Continuous b d) = received d"
  by (simp_all add: axradio_get_pllvcoi_def ax5043_init_registers_common_def Ax5043SetRegisters_RX_def AX5043Receiver_Continuous_def
      Let_def case_prod_beta)

lemma table_addresses: "\<forall>(a, v) \<in> set (take 125 set_registers_433). a < 0x1000 \<and> a \<notin> {REG_PWRMODE, REG_FIFOSTAT, REG_FIFODATA}"
  by code_simp

lemma table_rows:
  assumes "RegValue d = set_registers_433"
  shows "map (\<lambda>i. RegValue d ! i) [0..<125] = take 125 set_registers_433"
proof -
  have "length set_registers_433 = 126" by code_simp
  then show ?thesis unfolding assms by (intro nth_equalityI) simp_all
qed

lemma config_access [simp]:
  "config (SpiWriteSingleAddressRegister b a v d) = config d" "config (SpiWriteLongAddressRegister b l v d) = config d"
  "config (snd (SpiReadLongAddressRegister b l d)) = config d"
  "RegValue (SpiWriteSingleAddressRegister b a v d) = RegValue d" "RegValue (SpiWriteLongAddressRegister b l v d) = RegValue d"
  by (simp_all add: SpiWriteSingleAddressRegister_def SpiWriteLongAddressRegister_def SpiReadLongAddressRegister_def Let_def case_prod_beta)

lemma config_regs [simp]: "config (write_regs b rs d) = config d" "RegValue (write_regs b rs d) = RegValue d"
  by (induction rs arbitrary: d; simp add: write_regs_def case_prod_beta)+

lemma config_long_regs [simp]: "config (write_long_regs b ls d) = config d"
  by (induction ls arbitrary: d) (simp_all add: write_long_regs_def case_prod_beta)

lemma config_restart [simp]: "config (rf_restart b d) = config d"
  by (simp add: rf_restart_def write_freq_def InitAx5043REG_def Ax5043_OFF_def Ax5043_Spi_Reset_def Let_def case_prod_beta)

context ax5043_chip
begin

section \<open>Sending\<close>

lemma packet_sent:
  assumes dev: "config d = rf_433_config_init" "TXRegValue d = set_registers_tx_433"
    and fmt: "reg (socket d) REG_FRAMING AND 0x0E = 0x06" "reg (socket d) REG_MODULATION AND 0x0F \<noteq> 9" and n: "unat n < 64"
  shows "\<exists>d1 d2. Normal_send_dev b buf n d = Inr d1 \<and> ubRFState d1 = trxstate_tx_xtalwait \<and> start_transmit b d1 = Some (Inr d2) \<and>
    ubRFState d2 = trxstate_tx_waitdone \<and>
    out (socket d2) = out (socket d) @ preamble_chunk @ sync_chunk @ (if unat n < 10 then [] else data_chunk (map buf [0..<unat n]))"
proof -
  obtain c where c: "Normal_send_dev b buf n d = Inr (d\<lparr>socket := c, TxLen := n + 1,
      TXBuff := (\<lambda>i. if 1 \<le> i \<and> i < 1 + unat n then buf (i - 1) else ((TXBuff d)(0 := n + 1)) i),
      ubRFState := trxstate_tx_xtalwait, axradio_txbuffer_cnt := 0\<rparr>)" "keeps (socket d) c"
    using send_prepares [OF dev(2) n] by blast
  let ?d1 = "d\<lparr>socket := c, TxLen := n + 1,
      TXBuff := (\<lambda>i. if 1 \<le> i \<and> i < 1 + unat n then buf (i - 1) else ((TXBuff d)(0 := n + 1)) i),
      ubRFState := trxstate_tx_xtalwait, axradio_txbuffer_cnt := 0\<rparr>"
  have len: "unat (n + 1) = unat n + 1" using n unat8_add [of n 1] by simp
  obtain c2 where c2: "start_transmit b ?d1 = Some (Inr (?d1\<lparr>socket := c2, ubRFState := trxstate_tx_waitdone, axradio_txbuffer_cnt := 0\<rparr>))"
    "out c2 = out (socket ?d1) @ sent_bytes ?d1"
    using start_transmit_sends [of ?d1] dev(1) fmt c(2) len n by (auto simp: keeps_def)
  have "sent_bytes ?d1 = preamble_chunk @ sync_chunk @ (if unat n < 10 then [] else data_chunk (map buf [0..<unat n]))"
  proof -
    have "map (\<lambda>i. if 1 \<le> i \<and> i < 1 + unat n then buf (i - 1) else ((TXBuff d)(0 := n + 1)) i) [0..<Suc (unat n)] = (n + 1) # map buf [0..<unat n]"
      by (rule nth_equalityI) (auto simp: nth_Cons' simp del: upt_Suc)
    moreover have "word_of_nat (unat n + 2) = 1 + (n + 1)" "word_of_nat (unat n + 1) = n + 1" by simp_all
    ultimately show ?thesis by (simp add: sent_bytes_def data_chunk_def len del: upt_Suc of_nat_add of_nat_Suc)
  qed
  then show ?thesis using c c2 by (intro exI [of _ ?d1] exI) (auto simp: keeps_def)
qed

section \<open>Receiving\<close>

lemma receive_data:
  assumes "rxf (socket d) = concat (map encode_chunk xs)" "\<forall>x \<in> set xs. chunk_ok x" "offs = sint (axradio_phy_rssioffset (config d))"
  shows "\<exists>c. ReceiveData b d = Some (Inr (with_received c (fold (take_chunk offs) xs ((\<lambda>_. 0), 0, 0)) d))"
proof -
  let ?d = "d\<lparr>ubRssi := 0, RxLen := 0, RXBuff := (\<lambda>_. 0)\<rparr>"
  have "REG_RADIOEVENTREQ0 < (0x70 :: u8)" "REG_RADIOEVENTREQ0 \<noteq> (REG_FIFODATA :: u8)" by simp_all
  then obtain v c0 where c0: "SpiReadSingleAddressRegister b REG_RADIOEVENTREQ0 ?d = (v, ?d\<lparr>socket := c0\<rparr>)" "rxf c0 = rxf (socket ?d)"
    by (rule read_single)
  have "\<exists>c. rxf c = [] \<and> receive_loop b (?d\<lparr>socket := c0\<rparr>)
      = Some (Inr (with_received c (fold (take_chunk offs) xs (received (?d\<lparr>socket := c0\<rparr>))) (?d\<lparr>socket := c0\<rparr>)))"
    using assms c0(2) by (intro receive_all) simp_all
  then show ?thesis using c0(1) by (auto simp: ReceiveData_def received_def with_received_def)
qed

lemma oversize_data:
  assumes q: "rxf (socket d) = encode_chunk (Data_Chunk flags bs) @ rest" and len: "64 < length bs" "length bs < 255"
  shows "ReceiveData b d = Some (Inl Out_Of_Bounds)"
proof -
  let ?d = "d\<lparr>ubRssi := 0, RxLen := 0, RXBuff := (\<lambda>_. 0)\<rparr>"
  have "REG_RADIOEVENTREQ0 < (0x70 :: u8)" "REG_RADIOEVENTREQ0 \<noteq> (REG_FIFODATA :: u8)" by simp_all
  then obtain v c0 where c0: "SpiReadSingleAddressRegister b REG_RADIOEVENTREQ0 ?d = (v, ?d\<lparr>socket := c0\<rparr>)" "rxf c0 = rxf (socket ?d)"
    by (rule read_single)
  let ?e = "?d\<lparr>socket := c0\<rparr>"
  have q': "rxf (socket ?e) = chunk_bytes FIFOCMD_DATA (flags # bs) @ rest" using q c0(2) by simp
  have short: "FIFOCMD_DATA < 32" "length (flags # bs) < 256" using len by simp_all
  obtain c where c: "rxf c = (flags # bs) @ rest" "receive_loop b ?e =
      (case receive_chunk b FIFOCMD_DATA (word_of_nat (length (flags # bs))) (?e\<lparr>socket := c\<rparr>) of Inl e \<Rightarrow> Some (Inl e) | Inr dev \<Rightarrow> receive_loop b dev)"
    using receive_head [OF q' short] by blast
  have "rxf (socket (?e\<lparr>socket := c\<rparr>)) = flags # bs @ rest" using c(1) by simp
  then obtain c1 where c1: "SpiReadSingleAddressRegister b REG_FIFODATA (?e\<lparr>socket := c\<rparr>) = (flags, ?e\<lparr>socket := c\<rparr>\<lparr>socket := c1\<rparr>)"
    by (rule read_fifo)
  have n1: "(word_of_nat (length (flags # bs)) :: u8) - 1 = word_of_nat (length bs)" by simp
  have "unat (word_of_nat (length (flags # bs)) :: u8) = Suc (length bs)" "unat (word_of_nat (length bs) :: u8) = length bs"
    using len unat_of_nat_u8 [of "length (flags # bs)"] unat_of_nat_u8 [of "length bs"] by (simp_all del: of_nat_Suc)
  then have "receive_chunk b FIFOCMD_DATA (word_of_nat (length (flags # bs))) (?e\<lparr>socket := c\<rparr>) = Inl Out_Of_Bounds"
    using c1 len(1) n1 by (auto simp: receive_chunk_def simp del: of_nat_Suc length_Cons)
  then show ?thesis using c(2) c0(1) by (simp add: ReceiveData_def)
qed

lemma continuous_on:
  "reg (socket (AX5043Receiver_Continuous b d)) REG_PWRMODE = PWRSTATE_FULL_RX" "reg (socket (AX5043Receiver_Continuous b d)) REG_IRQMASK0 = 1"
  "reg (socket (AX5043Receiver_Continuous b d)) REG_IRQMASK1 = 0" "ubRFState (AX5043Receiver_Continuous b d) = trxstate_rx"
  "rxf (socket (AX5043Receiver_Continuous b d)) = []"
proof -
  obtain e where e: "AX5043Receiver_Continuous b d = SpiWriteSingleAddressRegister b REG_IRQMASK1 0
      ((SpiWriteSingleAddressRegister b REG_PWRMODE PWRSTATE_FULL_RX (SpiWriteSingleAddressRegister b REG_FIFOSTAT 3
         (SpiWriteSingleAddressRegister b REG_IRQMASK0 1 e)))\<lparr>ubRFState := trxstate_rx\<rparr>)"
    by (simp add: AX5043Receiver_Continuous_def Let_def case_prod_beta write_regs_def)
  let ?m = "SpiWriteSingleAddressRegister b REG_IRQMASK0 1 e"
  let ?s = "SpiWriteSingleAddressRegister b REG_FIFOSTAT 3 ?m"
  let ?p = "(SpiWriteSingleAddressRegister b REG_PWRMODE PWRSTATE_FULL_RX ?s)\<lparr>ubRFState := trxstate_rx\<rparr>"
  have "reg (socket ?m) = (reg (socket e))(REG_IRQMASK0 := 1)" using write_single(1) [of REG_IRQMASK0 1 e] by simp
  then have "reg (socket ?p) = (reg (socket e))(REG_IRQMASK0 := 1, REG_PWRMODE := PWRSTATE_FULL_RX)"
    using write_stat(1) [of ?m] write_power(1) [of PWRSTATE_FULL_RX ?s] by simp
  then show "reg (socket (AX5043Receiver_Continuous b d)) REG_PWRMODE = PWRSTATE_FULL_RX" "reg (socket (AX5043Receiver_Continuous b d)) REG_IRQMASK0 = 1"
    "reg (socket (AX5043Receiver_Continuous b d)) REG_IRQMASK1 = 0" "ubRFState (AX5043Receiver_Continuous b d) = trxstate_rx"
    unfolding e using write_single(1) [of REG_IRQMASK1 0 ?p] by (simp_all add: SpiWriteSingleAddressRegister_def)
  have "rxf (socket ?s) = []" using fifo_clear by (simp add: SpiWriteSingleAddressRegister_def)
  then have "rxf (socket ?p) = []" using power_rx by (simp add: SpiWriteSingleAddressRegister_def)
  then show "rxf (socket (AX5043Receiver_Continuous b d)) = []" unfolding e using write_single(2) [of REG_IRQMASK1 0 ?p] by simp
qed

text \<open>An interrupt during reception.\<close>

lemma packet_received:
  assumes u: "ubRFState (rf_433 u) = trxstate_rx" "config (rf_433 u) = rf_433_config_init"
    and q: "rxf (socket (rf_433 u)) = concat (map encode_chunk xs)" "\<forall>x \<in> set xs. chunk_ok x"
    and st: "fold (take_chunk 64) xs ((\<lambda>_. 0), 0, 0) = (buf, len, rssi)"
  shows "\<exists>u'. rf_433_task_callback b (IRQ1_ISR u) = Some (Inr (if len = 0 then None else Some (rssi, buf, len - 1), u')) \<and>
    IRQ1_Sem u' = IRQ1_Sem u \<and> rf_433_send_timer u' = rf_433_send_timer u \<and> ubRFState (rf_433 u') = trxstate_rx \<and>
    rxf (socket (rf_433 u')) = [] \<and>
    reg (socket (rf_433 u')) REG_PWRMODE = PWRSTATE_FULL_RX \<and> reg (socket (rf_433 u')) REG_IRQMASK0 = 1"
proof -
  have "64 = sint (axradio_phy_rssioffset (config (rf_433 u)))" using u(2) by (simp add: rf_433_config_init_def)
  from receive_data [OF q this] st obtain c where c: "ReceiveData b (rf_433 u) = Some (Inr (with_received c (buf, len, rssi) (rf_433 u)))" by auto
  let ?d = "AX5043Receiver_Continuous b (snd (Ax5043SetRegisters_RX b (with_received c (buf, len, rssi) (rf_433 u))))"
  have "received ?d = (buf, len, rssi)" by simp
  then have "RXBuff ?d = buf" "RxLen ?d = len" "ubRssi ?d = rssi" by (simp_all only: received_def prod.inject)
  then have "rf_433_task_callback b (IRQ1_ISR u) = Some (Inr (if len = 0 then None else Some (rssi, buf, len - 1), u\<lparr>rf_433 := ?d\<rparr>))"
    using c u(1) by (simp add: rf_433_task_callback_def IRQ1_ISR_def Let_def)
  then show ?thesis using continuous_on by (intro exI [of _ "u\<lparr>rf_433 := ?d\<rparr>"]) simp
qed

section \<open>Back to reception\<close>

lemma rxf_regs:
  "\<forall>(a, v) \<in> set rs. a < 0x70 \<and> a \<notin> {REG_PWRMODE, REG_FIFOSTAT, REG_FIFODATA} \<Longrightarrow> rxf (socket (write_regs b rs d)) = rxf (socket d)"
  by (induction rs arbitrary: d) (auto simp: write_regs_def write_single)

lemma rxf_long_regs:
  "\<forall>(a, v) \<in> set rs. a < 0x1000 \<and> a \<notin> {REG_PWRMODE, REG_FIFOSTAT, REG_FIFODATA} \<Longrightarrow> rxf (socket (write_long_regs b rs d)) = rxf (socket d)"
  by (induction rs arbitrary: d) (auto simp: write_long_regs_def write_long)

lemma rxf_init:
  assumes "RegValue d = set_registers_433"
  shows "rxf (socket (InitAx5043REG b d)) = rxf (socket d)"
proof -
  let ?d = "write_long_regs b (take 125 set_registers_433) d"
  have 1: "rxf (socket ?d) = rxf (socket d)" by (rule rxf_long_regs [OF table_addresses])
  have "REG_PKTLENOFFSET < (0x1000 :: u16)" "REG_PKTLENOFFSET \<noteq> (REG_FIFODATA :: u16)" by simp_all
  then obtain v c where c: "SpiReadLongAddressRegister b REG_PKTLENOFFSET ?d = (v, ?d\<lparr>socket := c\<rparr>)" "rxf c = rxf (socket ?d)" by (rule read_long)
  show ?thesis
    using 1 c write_long(2) [of REG_PKTLENOFFSET v] write_long(2) [of REG_PKTSTOREFLAGS 21] write_single(2) [of REG_PINFUNCIRQ 3]
    by (simp add: InitAx5043REG_def table_rows [OF assms])
qed

lemma restart_idle:
  assumes "RegValue d = set_registers_433"
  shows "rxf (socket (rf_restart b d)) = []" "ubRFState (rf_restart b d) = trxstate_rx"
proof -
  let ?e = "Ax5043_Spi_Reset b (Ax5043_OFF b d)"
  let ?f = "SpiWriteSingleAddressRegister b REG_PWRMODE 0 ?e"
  let ?g = "write_regs b [(REG_PINFUNCIRQ, 1), (REG_PINFUNCIRQ, 0), (REG_PINFUNCIRQ, 3)] ?f"
  have "rxf (socket ?f) = []" using power_off by (simp add: SpiWriteSingleAddressRegister_def)
  then have "rxf (socket ?g) = []" by (subst rxf_regs) simp_all
  moreover have "RegValue ?g = set_registers_433"
    using assms by (simp add: Ax5043_Spi_Reset_def Ax5043_OFF_def write_regs_def)
  ultimately have "rxf (socket (InitAx5043REG b ?g)) = []" by (simp add: rxf_init)
  moreover have "rf_restart b d = (write_freq b (SpiWriteSingleAddressRegister b REG_PLLRANGINGA (axradio_phy_chanpllrng (InitAx5043REG b ?g) AND 0x0F)
      (InitAx5043REG b ?g)))\<lparr>ubRFState := trxstate_rx\<rparr>"
    by (simp add: rf_restart_def write_regs_def Let_def)
  ultimately show "rxf (socket (rf_restart b d)) = []" "ubRFState (rf_restart b d) = trxstate_rx"
    by (simp_all add: write_freq_def Let_def rxf_regs write_single)
qed

lemma reception_resumes:
  assumes u: "ubRFState (rf_433 u) = trxstate_tx_waitdone" "config (rf_433 u) = rf_433_config_init" "RegValue (rf_433 u) = set_registers_433"
    and idle: "fst (SpiReadSingleAddressRegister b REG_RADIOSTATE (snd (SpiReadSingleAddressRegister b REG_RADIOEVENTREQ0 (rf_433 u)))) = 0"
  shows "\<exists>u1 u2. rf_433_task_callback b (IRQ1_ISR u) = Some (Inr (None, u1)) \<and> \<not> rf_433_send_timer u1 \<and> ubRFState (rf_433 u1) = trxstate_rx \<and>
    rf_433_task_callback b (IRQ1_ISR u1) = Some (Inr (None, u2)) \<and> ubRFState (rf_433 u2) = trxstate_rx \<and>
    reg (socket (rf_433 u2)) REG_PWRMODE = PWRSTATE_FULL_RX \<and> reg (socket (rf_433 u2)) REG_IRQMASK0 = 1"
proof -
  let ?d = "SpiWriteSingleAddressRegister b REG_RADIOEVENTMASK0 0
    (snd (SpiReadSingleAddressRegister b REG_RADIOSTATE (snd (SpiReadSingleAddressRegister b REG_RADIOEVENTREQ0 (rf_433 u)))))"
  define u1 where "u1 = u\<lparr>rf_433 := rf_restart b ?d, rf_433_send_timer := False\<rparr>"
  have s1: "rf_433_task_callback b (IRQ1_ISR u) = Some (Inr (None, u1))"
    using u(1) idle by (simp add: rf_433_task_callback_def IRQ1_ISR_def u1_def Let_def case_prod_beta)
  have keep: "RegValue ?d = set_registers_433" "config ?d = rf_433_config_init"
    using u(2,3) by (simp_all add: SpiReadSingleAddressRegister_def case_prod_beta)
  have st: "ubRFState (rf_433 u1) = trxstate_rx" "rxf (socket (rf_433 u1)) = concat (map encode_chunk [])" "config (rf_433 u1) = rf_433_config_init"
    using restart_idle [OF keep(1)] keep(2) by (simp_all add: u1_def)
  obtain u2 where "rf_433_task_callback b (IRQ1_ISR u1) = Some (Inr (None, u2))" "ubRFState (rf_433 u2) = trxstate_rx"
    "reg (socket (rf_433 u2)) REG_PWRMODE = PWRSTATE_FULL_RX" "reg (socket (rf_433 u2)) REG_IRQMASK0 = 1"
    using packet_received [OF st(1,3,2), of "\<lambda>_. 0" 0 0] by auto
  then show ?thesis using s1 st(1) by (intro exI [of _ u1] exI [of _ u2]) (simp add: u1_def)
qed

end

end
