(* ===== verification/Radio_Link.thy ===== *)
theory Radio_Link
  imports Ax5043_Unit
begin

unbundle bit_operations_syntax

text \<open>
  What the radio driver promises to the gateway, for every chip that behaves as the locale \<open>ax5043_chip\<close> says, and a chip that does.
\<close>

section \<open>A chip\<close>

record ax_chip =
  cregs :: "u16 \<Rightarrow> u8"
  crx :: bytes
  ctx :: bytes
  cout :: bytes

definition chip_send :: "bytes \<Rightarrow> ax_chip \<Rightarrow> ax_chip" where
  "chip_send bs c =
    (case bs of
       [] \<Rightarrow> c
     | h # vs \<Rightarrow>
         if h AND 0xF0 = 0xF0 then
           (case vs of [lo, v] \<Rightarrow> c\<lparr>cregs := (cregs c)(push_bit 8 (ucast h AND 0x0F) OR ucast lo := v)\<rparr> | _ \<Rightarrow> c)
         else if h = 0xA9 then c\<lparr>ctx := ctx c @ vs\<rparr>
         else if h = 0xA8 then
           (if vs = [3] then c\<lparr>crx := [], ctx := []\<rparr> else if vs = [4] then c\<lparr>cout := cout c @ ctx c, ctx := []\<rparr> else c)
         else if h = 0x82 then c\<lparr>cregs := (cregs c)(REG_PWRMODE := hd vs), crx := (if vs = [0] then [] else crx c)\<rparr>
         else c\<lparr>cregs := (cregs c)(ucast (h AND 0x7F) := hd vs)\<rparr>)"

definition chip_recv :: "bytes \<Rightarrow> nat \<Rightarrow> ax_chip \<Rightarrow> bytes \<times> ax_chip" where
  "chip_recv bs n c =
    (if bs = [REG_FIFODATA] then (take n (crx c), c\<lparr>crx := drop n (crx c)\<rparr>)
     else if bs = [REG_FIFOFREE0] then ([word_of_nat (256 - length (ctx c))], c)
     else if bs = [REG_FIFOFREE1] then ([word_of_nat ((256 - length (ctx c)) div 256)], c)
     else if bs = [REG_IRQREQUEST0] then ([if crx c = [] then 0 else 1], c)
     else if length bs = 1 then ([cregs c (ucast (hd bs))], c)
     else ([0], c))"

definition chip_bus :: "ax_chip spi" where
  "chip_bus = \<lparr>spi_send = chip_send, spi_recv = chip_recv\<rparr>"

lemma short_header:
  assumes "a < 0x70" "a \<notin> {REG_PWRMODE, REG_FIFOSTAT, REG_FIFODATA}"
  shows "(a OR 0x80) AND 0xF0 \<noteq> (0xF0 :: u8)" "a OR 0x80 \<noteq> 0xA9" "a OR 0x80 \<noteq> 0xA8" "a OR 0x80 \<noteq> 0x82" "(a OR 0x80) AND 0x7F = a"
proof -
  have all: "\<forall>a \<in> set (map word_of_nat [0..<112]). (a OR 0x80) AND 0xF0 \<noteq> (0xF0 :: u8) \<and> (a OR 0x80) AND 0x7F = a \<and>
      (a \<notin> {REG_PWRMODE, REG_FIFOSTAT, REG_FIFODATA} \<longrightarrow> a OR 0x80 \<noteq> 0xA9 \<and> a OR 0x80 \<noteq> 0xA8 \<and> a OR 0x80 \<noteq> 0x82)"
    by code_simp
  have "a = word_of_nat (unat a)" "unat a < 112" using assms(1) by (simp_all add: word_less_nat_alt)
  then have "a \<in> set (map word_of_nat [0..<112])" by (metis atLeastLessThan_iff image_eqI list.set_map set_upt zero_le)
  with all assms(2) show "(a OR 0x80) AND 0xF0 \<noteq> (0xF0 :: u8)" "a OR 0x80 \<noteq> 0xA9" "a OR 0x80 \<noteq> 0xA8" "a OR 0x80 \<noteq> 0x82" "(a OR 0x80) AND 0x7F = a"
    by blast+
qed

lemma long_header:
  assumes "l < 0x1000"
  obtains h lo where "long_addr 0xF000 l = [h, lo]" "h AND 0xF0 = 0xF0" "push_bit 8 (ucast h AND 0x0F) OR ucast lo = l"
proof -
  have masks: "(0xF000 :: u16) = NOT (mask 12)" "(0xFF00 :: u16) = NOT (mask 8)" "(0x00FF :: u16) = mask 8" "(0x0F :: u16) = mask 4"
    "(0xF0 :: u8) = NOT (mask 4)" by (simp_all add: mask_eq_exp_minus_1)
  have "unat l < 2 ^ 12" using assms by (simp add: word_less_nat_alt)
  then have "take_bit 12 l = l" by (metis take_bit_nat_eq_self unsigned_take_bit_eq word_unat_eq_iff)
  then have small: "bit l i \<Longrightarrow> i < 12" for i by (metis bit_take_bit_iff)
  let ?h = "ucast (drop_bit 8 ((l OR 0xF000) AND 0xFF00)) :: u8" and ?lo = "ucast ((l OR 0xF000) AND 0x00FF) :: u8"
  have "?h AND 0xF0 = 0xF0" unfolding masks by (rule bit_word_eqI) (auto simp: bit_simps)
  moreover have "push_bit 8 (ucast ?h AND 0x0F) OR ucast ?lo = l"
    unfolding masks by (rule bit_word_eqI) (auto simp: bit_simps dest: small)
  ultimately show thesis using that [of ?h ?lo] by (simp add: long_addr_def)
qed

interpretation ax: ax5043_chip chip_bus cregs crx ctx cout
proof
  fix a v :: u8 and l :: u16 and c :: ax_chip
  show "cregs (spi_send chip_bus [a OR 0x80, v] c) = (cregs c)(ucast a := v) \<and> crx (spi_send chip_bus [a OR 0x80, v] c) = crx c \<and>
      ctx (spi_send chip_bus [a OR 0x80, v] c) = ctx c \<and> cout (spi_send chip_bus [a OR 0x80, v] c) = cout c"
    if "a < 0x70" "a \<notin> {REG_PWRMODE, REG_FIFOSTAT, REG_FIFODATA}"
    using short_header [OF that] by (simp add: chip_bus_def chip_send_def)
  show "cregs (spi_send chip_bus (long_addr 0xF000 l @ [v]) c) = (cregs c)(l := v) \<and> crx (spi_send chip_bus (long_addr 0xF000 l @ [v]) c) = crx c \<and>
      ctx (spi_send chip_bus (long_addr 0xF000 l @ [v]) c) = ctx c \<and> cout (spi_send chip_bus (long_addr 0xF000 l @ [v]) c) = cout c"
    if "l < 0x1000" using that by (rule long_header) (simp add: chip_bus_def chip_send_def)
qed (auto simp: chip_bus_def chip_send_def chip_recv_def long_addr_def)

section \<open>Devices\<close>

text \<open>A device as \<open>rf_433_driver_init\<close> sets it up, and a unit with it that receives.\<close>

definition some_device :: "ax_chip ax5043" where
  "some_device = \<lparr>socket = \<lparr>cregs = (\<lambda>_. 0)(REG_FRAMING := 0x26, REG_MODULATION := 8), crx = [], ctx = [], cout = []\<rparr>,
     config = rf_433_config_init, ubRssi = 0, ubRFState = trxstate_rx, TXBuff = (\<lambda>_. 0), TxLen = 0, RXBuff = (\<lambda>_. 0), RxLen = 0,
     axradio_phy_chanpllrng = 0x0A, axradio_phy_chanvcoi = 0, dev_power_now = 0, RegValue = set_registers_433,
     TXRegValue = set_registers_tx_433, RXRegValue = set_registers_rx_433, axradio_txbuffer_cnt = 0\<rparr>"

definition some_unit :: "ax_chip rf_unit" where
  "some_unit = \<lparr>rf_433 = some_device, rf_433_send_timer = False, IRQ1_Sem = 0\<rparr>"

lemma task_transmits:
  assumes "ubRFState d = trxstate_tx_xtalwait" "start_transmit b d = Some (Inr d')"
  shows "rf_433_task_callback b (IRQ1_ISR (u\<lparr>rf_433 := d\<rparr>)) = Some (Inr (None, u\<lparr>rf_433 := d'\<rparr>))"
  using assms by (simp add: rf_433_task_callback_def IRQ1_ISR_def Let_def)

section \<open>The promises\<close>

text \<open>A packet of 10 to 63 bytes handed to \<open>Normal_send\<close> reaches the air whole: after the interrupt that reports
  the crystal ready, the bytes committed to the transmit queue are the preamble, the synchronisation word and the packet behind its
  length byte, in this order and nothing else, and the driver waits for the end of the transmission.\<close>

lemma packet_on_chip:
  assumes "ax5043_chip b reg rxf txf out" "config (rf_433 u) = rf_433_config_init" "TXRegValue (rf_433 u) = set_registers_tx_433"
    "reg (socket (rf_433 u)) REG_FRAMING AND 0x0E = 0x06" "reg (socket (rf_433 u)) REG_MODULATION AND 0x0F \<noteq> 9"
    "10 \<le> unat n" "unat n < 64"
  shows "\<exists>d u'. Normal_send_dev b buf n (rf_433 u) = Inr d \<and>
    rf_433_task_callback b (IRQ1_ISR (u\<lparr>rf_433 := d\<rparr>)) = Some (Inr (None, u')) \<and> ubRFState (rf_433 u') = trxstate_tx_waitdone \<and>
    out (socket (rf_433 u')) = out (socket (rf_433 u)) @ preamble_chunk @ sync_chunk @ data_chunk (map buf [0..<unat n])"
proof -
  obtain d d' where d: "Normal_send_dev b buf n (rf_433 u) = Inr d" "ubRFState d = trxstate_tx_xtalwait" "start_transmit b d = Some (Inr d')"
    "ubRFState d' = trxstate_tx_waitdone"
    "out (socket d') = out (socket (rf_433 u)) @ preamble_chunk @ sync_chunk @ data_chunk (map buf [0..<unat n])"
    using ax5043_chip.packet_sent [OF assms(1-5,7), of buf] assms(6) by auto
  then show ?thesis using task_transmits [OF d(2,3), of u] by (intro exI [of _ d] exI [of _ "u\<lparr>rf_433 := d'\<rparr>"]) simp
qed

text \<open>Of a packet below 10 bytes nothing is sent: preamble and synchronisation word are committed, the data is not
  (the code compares the length of the packet where the free space of the queue is meant).\<close>

lemma short_packet_lost:
  assumes "ax5043_chip b reg rxf txf out" "config (rf_433 u) = rf_433_config_init" "TXRegValue (rf_433 u) = set_registers_tx_433"
    "reg (socket (rf_433 u)) REG_FRAMING AND 0x0E = 0x06" "reg (socket (rf_433 u)) REG_MODULATION AND 0x0F \<noteq> 9" "unat n < 10"
  shows "\<exists>d u'. Normal_send_dev b buf n (rf_433 u) = Inr d \<and>
    rf_433_task_callback b (IRQ1_ISR (u\<lparr>rf_433 := d\<rparr>)) = Some (Inr (None, u')) \<and>
    out (socket (rf_433 u')) = out (socket (rf_433 u)) @ preamble_chunk @ sync_chunk"
proof -
  have "unat n < 64" using assms(6) by simp
  then obtain d d' where d: "Normal_send_dev b buf n (rf_433 u) = Inr d" "ubRFState d = trxstate_tx_xtalwait" "start_transmit b d = Some (Inr d')"
    "out (socket d') = out (socket (rf_433 u)) @ preamble_chunk @ sync_chunk"
    using ax5043_chip.packet_sent [OF assms(1-5), of n buf] assms(6) by auto
  then show ?thesis using task_transmits [OF d(2,3), of u] by (intro exI [of _ d] exI [of _ "u\<lparr>rf_433 := d'\<rparr>"]) simp
qed

text \<open>Property C14. What the chip has received is delivered: on an interrupt in reception the driver empties the receive queue, whatever
  sequence of chunks it holds as long as no data chunk has more than 64 bytes with its length byte, comes to an end, hands the last packet,
  zero-padded in the buffer, with its length and signal strength to the gateway, and leaves the queue empty and the receiver switched on.\<close>

theorem chunks_delivered:
  assumes "ax5043_chip b reg rxf txf out" "ubRFState (rf_433 u) = trxstate_rx" "config (rf_433 u) = rf_433_config_init"
    "rxf (socket (rf_433 u)) = concat (map encode_chunk xs)" "\<forall>x \<in> set xs. chunk_ok x"
    "fold (take_chunk 64) xs ((\<lambda>_. 0), 0, 0) = (buf, len, rssi)"
  shows "\<exists>u'. rf_433_task_callback b (IRQ1_ISR u) = Some (Inr (if len = 0 then None else Some (rssi, buf, len - 1), u')) \<and>
    ubRFState (rf_433 u') = trxstate_rx \<and> rxf (socket (rf_433 u')) = [] \<and>
    reg (socket (rf_433 u')) REG_PWRMODE = PWRSTATE_FULL_RX \<and> reg (socket (rf_433 u')) REG_IRQMASK0 = 1"
  using ax5043_chip.packet_received [OF assms] by blast

definition hearing_unit :: "chunk list \<Rightarrow> ax_chip rf_unit" where
  "hearing_unit xs = some_unit\<lparr>rf_433 := some_device\<lparr>socket := (socket some_device)\<lparr>crx := concat (map encode_chunk xs)\<rparr>\<rparr>\<rparr>"

theorem chunks_delivered_witness:
  "\<exists>u' buf. rf_433_task_callback chip_bus (IRQ1_ISR (hearing_unit [Rssi_Chunk 10, Data_Chunk 3 [3, 65, 66], Other_Chunk 0x15 [1, 2]]))
    = Some (Inr (Some (- 54, buf, 2), u')) \<and> buf 1 = 65 \<and> buf 2 = 66 \<and> buf 3 = 0 \<and> crx (socket (rf_433 u')) = []"
proof -
  let ?xs = "[Rssi_Chunk 10, Data_Chunk 3 [3, 65, 66], Other_Chunk 0x15 [1, 2]]"
  let ?buf = "\<lambda>i. if i < length [3, 65, 66 :: u8] then [3, 65, 66 :: u8] ! i else 0"
  have q: "ubRFState (rf_433 (hearing_unit ?xs)) = trxstate_rx" "config (rf_433 (hearing_unit ?xs)) = rf_433_config_init"
    "crx (socket (rf_433 (hearing_unit ?xs))) = concat (map encode_chunk ?xs)"
    by (simp_all add: hearing_unit_def some_unit_def some_device_def)
  have ok: "\<forall>x \<in> set ?xs. chunk_ok x" by simp
  have st: "fold (take_chunk 64) ?xs ((\<lambda>_. 0), 0, 0) = (?buf, 3, - 54)" by (simp cong: if_cong)
  from chunks_delivered [OF ax.ax5043_chip_axioms q ok st] show ?thesis by auto
qed

text \<open>Property C35. A received packet of more than 64 bytes is written behind the end of the receive buffer: the length comes from the chip and
  is not compared with the size of the buffer.\<close>

theorem oversize_packet_overflows:
  assumes "ax5043_chip b reg rxf txf out" "ubRFState (rf_433 u) = trxstate_rx"
    "rxf (socket (rf_433 u)) = encode_chunk (Data_Chunk flags bs) @ rest" "64 < length bs" "length bs < 255"
  shows "rf_433_task_callback b (IRQ1_ISR u) = Some (Inl Out_Of_Bounds)"
  using ax5043_chip.oversize_data [OF assms(1,3-5)] assms(2) by (simp add: rf_433_task_callback_def IRQ1_ISR_def Let_def)

theorem oversize_packet_overflows_witness:
  "rf_433_task_callback chip_bus (IRQ1_ISR (hearing_unit [Data_Chunk 3 (replicate 65 0)])) = Some (Inl Out_Of_Bounds)"
proof -
  have "ubRFState (rf_433 (hearing_unit [Data_Chunk 3 (replicate 65 0)])) = trxstate_rx"
    "crx (socket (rf_433 (hearing_unit [Data_Chunk 3 (replicate 65 0)]))) = encode_chunk (Data_Chunk 3 (replicate 65 0)) @ []"
    by (simp_all add: hearing_unit_def some_unit_def some_device_def)
  from oversize_packet_overflows [OF ax.ax5043_chip_axioms this] show ?thesis by simp
qed

text \<open>Property C15. After a packet the gateway listens again: on the interrupt that reports the end of the transmission the driver stops
  the timer, restarts the chip and counts as receiving, and on the interrupt the restart raises by toggling the interrupt pin it switches the
  receiver on.\<close>

theorem reception_resumes_after_send:
  assumes "ax5043_chip b reg rxf txf out" "ubRFState (rf_433 u) = trxstate_tx_waitdone" "config (rf_433 u) = rf_433_config_init"
    "RegValue (rf_433 u) = set_registers_433"
    "fst (SpiReadSingleAddressRegister b REG_RADIOSTATE (snd (SpiReadSingleAddressRegister b REG_RADIOEVENTREQ0 (rf_433 u)))) = 0"
  shows "\<exists>u1 u2. rf_433_task_callback b (IRQ1_ISR u) = Some (Inr (None, u1)) \<and> \<not> rf_433_send_timer u1 \<and> ubRFState (rf_433 u1) = trxstate_rx \<and>
    rf_433_task_callback b (IRQ1_ISR u1) = Some (Inr (None, u2)) \<and> ubRFState (rf_433 u2) = trxstate_rx \<and>
    reg (socket (rf_433 u2)) REG_PWRMODE = PWRSTATE_FULL_RX \<and> reg (socket (rf_433 u2)) REG_IRQMASK0 = 1"
  using assms by (rule ax5043_chip.reception_resumes)

theorem reception_resumes_after_send_witness:
  "\<exists>u1 u2. rf_433_task_callback chip_bus (IRQ1_ISR (some_unit\<lparr>rf_433 := some_device\<lparr>ubRFState := trxstate_tx_waitdone\<rparr>\<rparr>)) = Some (Inr (None, u1)) \<and>
    rf_433_task_callback chip_bus (IRQ1_ISR u1) = Some (Inr (None, u2)) \<and> cregs (socket (rf_433 u2)) REG_PWRMODE = PWRSTATE_FULL_RX"
proof -
  let ?u = "some_unit\<lparr>rf_433 := some_device\<lparr>ubRFState := trxstate_tx_waitdone\<rparr>\<rparr>"
  have "ubRFState (rf_433 ?u) = trxstate_tx_waitdone" "config (rf_433 ?u) = rf_433_config_init" "RegValue (rf_433 ?u) = set_registers_433"
    "fst (SpiReadSingleAddressRegister chip_bus REG_RADIOSTATE (snd (SpiReadSingleAddressRegister chip_bus REG_RADIOEVENTREQ0 (rf_433 ?u)))) = 0"
    by (simp_all add: some_unit_def some_device_def SpiReadSingleAddressRegister_def chip_bus_def chip_recv_def)
  from reception_resumes_after_send [OF ax.ax5043_chip_axioms this] show ?thesis by blast
qed

end
