(* ===== verification/Radio_Path.thy ===== *)
theory Radio_Path
  imports Radio_Link Radio_Decoder
begin

text \<open>
  The gateway over the radio driver: the packets of \<open>Radio_Encoder.c\<close> down to the chip, and packets of the chip up to the handlers of
  \<open>Radio_Decoder.c\<close>.
\<close>

section \<open>Down\<close>

text \<open>The bytes of the packets on the air.\<close>

definition on_air :: "bytes list \<Rightarrow> bytes" where
  "on_air ps = concat (map (\<lambda>p. preamble_chunk @ sync_chunk @ data_chunk p) ps)"

text \<open>Property C12. The list of packets in which the gateway is modelled is refined by the driver: when the chip has sent the packets of
  \<open>air\<close>, then after \<open>Normal_send\<close> of the driver with a packet of 10 to 63 bytes and the interrupt of the crystal it has sent those of \<open>air\<close> after
  \<open>Normal_send\<close>; the packets \<open>RadioSend\<close> and \<open>GatewayDataSend\<close> write have 32 and 41 bytes.\<close>

theorem driver_refines_air:
  assumes "ax5043_chip b reg rxf txf out" "config (rf_433 u) = rf_433_config_init" "TXRegValue (rf_433 u) = set_registers_tx_433"
    "reg (socket (rf_433 u)) REG_FRAMING AND 0x0E = 0x06" "reg (socket (rf_433 u)) REG_MODULATION AND 0x0F \<noteq> 9"
    "10 \<le> length p" "length p < 64" "out (socket (rf_433 u)) = on_air (air r)"
  shows "\<exists>d u'. Normal_send_dev b (\<lambda>i. p ! i) (word_of_nat (length p)) (rf_433 u) = Inr d \<and>
    rf_433_task_callback b (IRQ1_ISR (u\<lparr>rf_433 := d\<rparr>)) = Some (Inr (None, u')) \<and> ubRFState (rf_433 u') = trxstate_tx_waitdone \<and>
    out (socket (rf_433 u')) = on_air (air (Normal_send p r))"
proof -
  have n: "unat (word_of_nat (length p) :: u8) = length p" using assms(7) by (intro unat_of_nat_u8) simp
  then have "10 \<le> unat (word_of_nat (length p) :: u8)" "unat (word_of_nat (length p) :: u8) < 64" using assms(6,7) by simp_all
  from packet_on_chip [OF assms(1-5) this, of "\<lambda>i. p ! i"] show ?thesis
    using assms(8) n by (auto simp: on_air_def Normal_send_def map_nth)
qed

theorem driver_refines_air_witness:
  "\<exists>d u'. Normal_send_dev chip_bus (\<lambda>i. replicate 32 65 ! i) 32 (rf_433 some_unit) = Inr d \<and>
    rf_433_task_callback chip_bus (IRQ1_ISR (some_unit\<lparr>rf_433 := d\<rparr>)) = Some (Inr (None, u')) \<and> ubRFState (rf_433 u') = trxstate_tx_waitdone \<and>
    cout (socket (rf_433 u')) = on_air (air (Normal_send (replicate 32 65) idle_radio))"
  using driver_refines_air [OF ax.ax5043_chip_axioms, of some_unit "replicate 32 65" idle_radio]
  by (simp add: some_unit_def some_device_def idle_radio_def on_air_def)

section \<open>Up\<close>

lemma no_nul_append: "no_nul (s @ t) \<longleftrightarrow> no_nul s \<and> no_nul t" "no_nul (c # s) \<longleftrightarrow> byte_of c \<noteq> 0 \<and> no_nul s"
  by (simp_all add: no_nul_def)

lemma digit_no_nul: "is_digit c \<Longrightarrow> byte_of c \<noteq> 0"
proof -
  assume "is_digit c"
  then have "char_of_byte (byte_of c) \<noteq> char_of_byte 0" by (auto simp: is_digit_def char_of_byte_def)
  then show ?thesis by metis
qed

lemma dec_nat_bytes: "no_nul (dec_nat n)"
  using dec_nat_digits digit_no_nul by (auto simp: no_nul_def list_all_iff)

lemma sprintf_no_nul: "no_nul (sprintf_ld w)" "no_nul (sprintf_0ld k w)"
proof -
  have "no_nul (pad0 m (dec_nat i))" for m i
    using dec_nat_bytes [of i] by (auto simp: pad0_def no_nul_def list_all_iff byte_of_def)
  then show "no_nul (sprintf_ld w)" "no_nul (sprintf_0ld k w)"
    using dec_nat_bytes by (simp_all add: sprintf_ld_def sprintf_0ld_def Let_def no_nul_append byte_of_def)
qed

lemma radio_text_no_nul: "no_nul (radio_text target self counter cmd dat)"
  by (simp add: radio_text_def no_nul_append sprintf_no_nul) (simp add: no_nul_def byte_of_def)

lemma check_digit_no_nul: "n < 16 \<Longrightarrow> check_digit n \<noteq> 0"
proof -
  assume "n < 16"
  then have "n = word_of_nat (unat n)" "unat n < 16" by (simp_all add: word_less_nat_alt)
  then have "n \<in> set (map word_of_nat [0..<16])" by (metis atLeastLessThan_iff image_eqI list.set_map set_upt zero_le)
  moreover have "\<forall>n \<in> set (map word_of_nat [0..<16]). check_digit n \<noteq> 0" by code_simp
  ultimately show ?thesis by blast
qed

text \<open>A packet in the receive buffer, behind its length byte.\<close>

definition packet_cells :: "bytes \<Rightarrow> memory" where
  "packet_cells p i = (if i < length p + 1 then (word_of_nat (length p + 1) # p) ! i else 0)"

lemma rx_text_cells:
  assumes "length p < 63" "list_all (\<lambda>x. x \<noteq> 0) p"
  shows "rx_text (packet_cells p) 1 = map char_of_byte p"
proof -
  have split: "[1..<RX_BUFF] = [1..<Suc (length p)] @ Suc (length p) # [Suc (Suc (length p))..<RX_BUFF]"
    using assms(1) upt_add_eq_append [of 1 "Suc (length p)" "RX_BUFF - Suc (length p)"] by (simp add: RX_BUFF_def upt_conv_Cons)
  have "map (packet_cells p) [1..<Suc (length p)] = p"
    by (intro nth_equalityI) (auto simp: packet_cells_def simp del: upt_Suc)
  moreover have "packet_cells p (Suc (length p)) = 0" by (simp add: packet_cells_def)
  ultimately have "takeWhile (\<lambda>b. b \<noteq> 0) (map (packet_cells p) [1..<RX_BUFF]) = p"
    unfolding split map_append list.map using assms(2) takeWhile_stop [of p "\<lambda>b. b \<noteq> 0" 0] by (simp add: list_all_iff)
  then show ?thesis by (simp add: rx_text_def)
qed

lemma radio_packet_shape:
  assumes "unat target < 10 ^ 8" "unat self < 10 ^ 8" "unat cmd < 100" "unat dat < 10"
  obtains rest where "radio_packet target self counter cmd dat = bytes_of (radio_text target self (next_counter counter) cmd dat) @ rest @ [13, 10]"
    "length rest = 2" "list_all (\<lambda>x. x \<noteq> 0) rest"
proof -
  let ?t = "radio_text target self (next_counter counter) cmd dat"
  have "length ?t = 28" using assms by (rule radio_text_length)
  moreover have "check_digit (c div 16) \<noteq> 0" "check_digit (c mod 16) \<noteq> 0" for c
  proof -
    have "unat c < 256" using unsigned_less [of c, where 'a = nat] by simp
    then show "check_digit (c div 16) \<noteq> 0" "check_digit (c mod 16) \<noteq> 0"
      by (auto intro!: check_digit_no_nul simp: word_less_nat_alt unat_div unat_mod)
  qed
  ultimately show thesis
    using that [of "[check_digit (sum_list (bytes_of ?t) div 16), check_digit (sum_list (bytes_of ?t) mod 16)]"]
    by (simp add: radio_packet_def Let_def)
qed

text \<open>What the gateway reads from such a packet.\<close>

lemma normal_message_packet:
  assumes "unat target < 10 ^ 8" "unat self < 10 ^ 8" "unat cmd < 100" "unat dat < 10"
  shows "normal_message (packet_cells (radio_packet target self counter cmd dat)) junk =
    junk\<lparr>rx_Target_ID := int (unat target), rx_From_ID := int (unat self), rx_Counter := int (unat (next_counter counter)),
      rx_Command := int (unat cmd), rx_Data := int (unat dat)\<rparr>"
proof -
  let ?t = "radio_text target self (next_counter counter) cmd dat" and ?p = "radio_packet target self counter cmd dat"
  obtain rest where p: "?p = bytes_of ?t @ rest @ [13, 10]" "length rest = 2" "list_all (\<lambda>x. x \<noteq> 0) rest"
    using assms by (rule radio_packet_shape)
  have "list_all (\<lambda>x. x \<noteq> 0) (bytes_of ?t)" using radio_text_no_nul by (simp add: no_nul_def bytes_of_def list_all_iff)
  then have "rx_text (packet_cells ?p) 1 = map char_of_byte ?p"
    using p radio_text_length [OF assms, of "next_counter counter"] by (intro rx_text_cells) simp_all
  also have "\<dots> = ?t @ map char_of_byte (rest @ [13, 10])" using p(1) by (simp add: bytes_of_def o_def)
  finally have "sscanf_braces (rx_text (packet_cells ?p) 1) 5 =
      [int (unat target), int (unat self), int (unat (next_counter counter)), int (unat cmd), int (unat dat)]"
    using radio_text_scan [OF assms] by simp
  moreover have "length [set_Target_ID, set_From_ID, set_Counter, set_Command, set_Data] = 5" by simp
  ultimately show ?thesis unfolding normal_message_def scan_into_def by (simp only:) (simp add: message_setters)
qed

lemma normal_packet_frame:
  assumes "unat target < 10 ^ 8" "unat self < 10 ^ 8" "unat cmd < 100" "unat dat < 10"
  shows "length (radio_packet target self counter cmd dat) = 32"
    "packet_cells (radio_packet target self counter cmd dat) 1 = byte_of (CHR ''{'')"
    "packet_cells (radio_packet target self counter cmd dat) 31 = 0x0D" "packet_cells (radio_packet target self counter cmd dat) 32 = 0x0A"
proof -
  let ?t = "radio_text target self (next_counter counter) cmd dat" and ?p = "radio_packet target self counter cmd dat"
  obtain rest where p: "?p = bytes_of ?t @ rest @ [13, 10]" "length rest = 2" using assms by (rule radio_packet_shape)
  have t: "length ?t = 28" using assms by (rule radio_text_length)
  have "hd ?t = CHR ''{''" by (simp add: radio_text_def)
  then have "bytes_of ?t ! 0 = byte_of (CHR ''{'')" using t by (cases ?t) (simp_all add: bytes_of_def)
  then show "length ?p = 32" "packet_cells ?p 1 = byte_of (CHR ''{'')" "packet_cells ?p 31 = 0x0D" "packet_cells ?p 32 = 0x0A"
    using p t by (simp_all add: packet_cells_def nth_append nth_Cons')
qed

lemma Heart_Upload_rf: "rf (Heart_Upload k h g) = rf g"
proof -
  have slaves: "rf (Set_Slave_Heart k h g) = rf g" for h g using reports_slaves [of g k h] by (auto simp: reports_def)
  show ?thesis by (simp add: Heart_Upload_def Flash_Set_Heart_def set_Heart_def slaves Let_def split: option.split)
qed

text \<open>Property C13. A request to learn is answered, from the chip to the send queue: when the chip has received a packet in the format of
  \<open>RadioSend\<close> in which a main unit asks this gateway to learn it, the table knows it or has room for it, and the send queue has room, the interrupt thread hands it over, and
  the packet handler appends the answer to the main unit, with the next counter, to the send queue, leaves the rest of the radio alone and reports
  the main unit as online.\<close>

theorem learn_request_answered:
  assumes "ax5043_chip b reg rxf txf out" "ubRFState (rf_433 u) = trxstate_rx" "config (rf_433 u) = rf_433_config_init"
    "rxf (socket (rf_433 u)) = encode_chunk (Rssi_Chunk r) @ encode_chunk (Data_Chunk flags (33 # radio_packet (Self_Id (rf g)) unit_id counter 3 1))"
    "unat (Self_Id (rf g)) < 10 ^ 8" "10000000 \<le> unat unit_id" "unat unit_id < 20000000"
    "Flash_Get_Key_Valid unit_id (dev g) = RT_EOK \<or> Get_MainNums (dev g) = RT_EOK" "queue_wf (rf g)" "radio_room (rf g)"
  shows "\<exists>rssi buf len u'. rf_433_task_callback b (IRQ1_ISR u) = Some (Inr (Some (rssi, buf, len), u')) \<and> rssi = sint r - 64 \<and>
    queued (rf (rf433_rx_callback junk rssi buf len g)) = queued (rf g) @ [Normal_Msg unit_id (next_counter counter) 3 2] \<and>
    queue_wf (rf (rf433_rx_callback junk rssi buf len g)) \<and> queue_only (rf g) (rf (rf433_rx_callback junk rssi buf len g)) \<and>
    rf433_rx_callback junk rssi buf len g =
      Heart_Upload unit_id 1 (on_rf (RadioEnqueue unit_id (next_counter counter) 3 2) (on_board (rf_led 3) g))"
proof -
  let ?p = "radio_packet (Self_Id (rf g)) unit_id counter 3 1"
  let ?xs = "[Rssi_Chunk r, Data_Chunk flags (33 # ?p)]"
  have ids: "unat (Self_Id (rf g)) < 10 ^ 8" "unat unit_id < 10 ^ 8" "unat (3 :: u8) < 100" "unat (1 :: u8) < 10" using assms(5,7) by simp_all
  have len: "length ?p = 32" and cells: "packet_cells ?p 1 = byte_of (CHR ''{'')" "packet_cells ?p 31 = 0x0D" "packet_cells ?p 32 = 0x0A"
    using normal_packet_frame [OF ids] by blast+
  have q: "rxf (socket (rf_433 u)) = concat (map encode_chunk ?xs)" using assms(4) by simp
  have ok: "\<forall>x \<in> set ?xs. chunk_ok x" using len by simp
  have "(\<lambda>i. if i < 33 then (33 # ?p) ! i else 0) = packet_cells ?p" using len by (simp add: packet_cells_def fun_eq_iff)
  then have st: "fold (take_chunk 64) ?xs ((\<lambda>_. 0), 0, 0) = (packet_cells ?p, 33, sint r - 64)" using len by (simp cong: if_cong)
  have "junk\<lparr>rx_Target_ID := int (unat (Self_Id (rf g))), rx_From_ID := int (unat unit_id), rx_Counter := int (unat (next_counter counter)),
      rx_Command := 3, rx_Data := 1\<rparr> = normal_message (packet_cells ?p) junk"
    using normal_message_packet [OF ids, of counter junk] by simp
  note msg = this [symmetric]
  have "int (unat unit_id) = uint unit_id" by simp
  then have sender: "10000000 \<le> uint unit_id" "uint unit_id < 20000000" "uint unit_id \<noteq> 98989898" using assms(6,7) by linarith+
  have run: "rf433_rx_callback junk (sint r - 64) (packet_cells ?p) 32 g =
      Heart_Upload unit_id 1 (on_rf (RadioEnqueue unit_id (next_counter counter) 3 2) (on_board (rf_led 3) g))"
    using cells sender assms(8) by (auto simp: rf433_rx_callback_def NormalSolve_def msg Device_Learn_def Let_def)
  let ?m = "Normal_Msg unit_id (next_counter counter) 3 2"
  have "rf (rf433_rx_callback junk (sint r - 64) (packet_cells ?p) 32 g) = radio_enqueue ?m (rf g)"
    unfolding run by (simp add: Heart_Upload_rf)
  then have "queued (rf (rf433_rx_callback junk (sint r - 64) (packet_cells ?p) 32 g)) = queued (rf g) @ [?m] \<and>
      queue_wf (rf (rf433_rx_callback junk (sint r - 64) (packet_cells ?p) 32 g)) \<and>
      queue_only (rf g) (rf (rf433_rx_callback junk (sint r - 64) (packet_cells ?p) 32 g))"
    using enqueue_queue(1,2) [OF assms(9), of ?m] assms(10) queue_only_enqueue [of "rf g" ?m] by (simp only:)
  then show ?thesis using run ax5043_chip.packet_received [OF assms(1-3) q ok st] by auto
qed

theorem learn_request_answered_witness:
  "\<exists>rssi buf len u'. rf_433_task_callback chip_bus (IRQ1_ISR
      (hearing_unit [Rssi_Chunk 10, Data_Chunk 3 (33 # radio_packet 40000000 10000001 7 3 1)])) = Some (Inr (Some (rssi, buf, len), u')) \<and>
    rssi = - 54 \<and> queued (rf (rf433_rx_callback zero_message rssi buf len small_gateway)) = [Normal_Msg 10000001 8 3 2]"
proof -
  let ?u = "hearing_unit [Rssi_Chunk 10, Data_Chunk 3 (33 # radio_packet (Self_Id (rf small_gateway)) 10000001 7 3 1)]"
  have self: "Self_Id (rf small_gateway) = 40000000" by (simp add: small_gateway_def idle_gateway_def idle_radio_def)
  have "ubRFState (rf_433 ?u) = trxstate_rx" "config (rf_433 ?u) = rf_433_config_init"
    "crx (socket (rf_433 ?u)) = encode_chunk (Rssi_Chunk 10) @ encode_chunk (Data_Chunk 3 (33 # radio_packet (Self_Id (rf small_gateway)) 10000001 7 3 1))"
    by (simp_all add: hearing_unit_def some_unit_def some_device_def)
  moreover have "Flash_Get_Key_Valid 10000001 (dev small_gateway) = RT_EOK \<or> Get_MainNums (dev small_gateway) = RT_EOK"
    by (simp add: small_gateway_def idle_gateway_def small_table_def Get_MainNums_def)
  moreover have "queue_wf (rf small_gateway)" "radio_room (rf small_gateway)" "queued (rf small_gateway) = []"
    by (simp_all add: small_gateway_def idle_gateway_def idle_radio_def queue_wf_def radio_room_def queued_def)
  ultimately show ?thesis using learn_request_answered [OF ax.ax5043_chip_axioms, of ?u 10 3 small_gateway 10000001 7 zero_message]
    by (simp add: self next_counter_def) blast
qed

end
