(* ===== verification/Sfud.thy ===== *)
theory Sfud
  imports Prelude "HOL-Library.Monad_Syntax"
begin

unbundle bit_operations_syntax

text \<open>
  The driver of serial flash chips (\<open>src/rt-thread/components/drivers/spi/sfud/src/sfud.c\<close>) as \<open>src/rtconfig.h\<close> configures it:
  chips are looked up in the library's table by their JEDEC identification, there are no SFDP parameters and no QSPI. The bus is a
  parameter \<open>wr\<close>: it sends some bytes, then receives a number of bytes. Assertions are compiled out, the lock of the bus is
  left out: an operation is one step. \<open>None\<close> stands for a loop that does not end.
\<close>

datatype sfud_err = SFUD_SUCCESS | SFUD_ERR_NOT_FOUND | SFUD_ERR_WRITE | SFUD_ERR_READ | SFUD_ERR_TIMEOUT | SFUD_ERR_ADDR_OUT_OF_BOUND

type_synonym 'c bus = "bytes \<Rightarrow> nat \<Rightarrow> 'c \<Rightarrow> sfud_err \<times> bytes \<times> 'c"

record sfud_flash_chip =
  chip_name :: string
  mf_id :: u8
  type_id :: u8
  capacity_id :: u8
  capacity :: u32
  write_mode :: u16
  erase_gran :: u32
  erase_gran_cmd :: u8

record sfud_flash =
  sf_chip :: sfud_flash_chip
  sf_init_ok :: bool
  addr_in_4_byte :: bool
  retry_times :: nat

abbreviation (input) SFUD_WM_PAGE_256B :: u16 where "SFUD_WM_PAGE_256B \<equiv> 1"
abbreviation (input) SFUD_WM_BYTE :: u16 where "SFUD_WM_BYTE \<equiv> 2"
abbreviation (input) SFUD_WM_AAI :: u16 where "SFUD_WM_AAI \<equiv> 4"
abbreviation (input) SFUD_WM_DUAL_BUFFER :: u16 where "SFUD_WM_DUAL_BUFFER \<equiv> 8"
abbreviation (input) SFUD_CMD_WRITE_ENABLE :: u8 where "SFUD_CMD_WRITE_ENABLE \<equiv> 0x06"
abbreviation (input) SFUD_CMD_WRITE_DISABLE :: u8 where "SFUD_CMD_WRITE_DISABLE \<equiv> 0x04"
abbreviation (input) SFUD_CMD_READ_STATUS_REGISTER :: u8 where "SFUD_CMD_READ_STATUS_REGISTER \<equiv> 0x05"
abbreviation (input) SFUD_CMD_WRITE_STATUS_REGISTER :: u8 where "SFUD_CMD_WRITE_STATUS_REGISTER \<equiv> 0x01"
abbreviation (input) SFUD_VOLATILE_SR_WRITE_ENABLE :: u8 where "SFUD_VOLATILE_SR_WRITE_ENABLE \<equiv> 0x50"
abbreviation (input) SFUD_CMD_PAGE_PROGRAM :: u8 where "SFUD_CMD_PAGE_PROGRAM \<equiv> 0x02"
abbreviation (input) SFUD_CMD_AAI_WORD_PROGRAM :: u8 where "SFUD_CMD_AAI_WORD_PROGRAM \<equiv> 0xAD"
abbreviation (input) SFUD_CMD_ERASE_CHIP :: u8 where "SFUD_CMD_ERASE_CHIP \<equiv> 0xC7"
abbreviation (input) SFUD_CMD_READ_DATA :: u8 where "SFUD_CMD_READ_DATA \<equiv> 0x03"
abbreviation (input) SFUD_CMD_JEDEC_ID :: u8 where "SFUD_CMD_JEDEC_ID \<equiv> 0x9F"
abbreviation (input) SFUD_CMD_ENABLE_RESET :: u8 where "SFUD_CMD_ENABLE_RESET \<equiv> 0x66"
abbreviation (input) SFUD_CMD_RESET :: u8 where "SFUD_CMD_RESET \<equiv> 0x99"
abbreviation (input) SFUD_CMD_ENTER_4B_ADDRESS_MODE :: u8 where "SFUD_CMD_ENTER_4B_ADDRESS_MODE \<equiv> 0xB7"
abbreviation (input) SFUD_CMD_EXIT_4B_ADDRESS_MODE :: u8 where "SFUD_CMD_EXIT_4B_ADDRESS_MODE \<equiv> 0xE9"
abbreviation (input) SFUD_STATUS_REGISTER_BUSY :: u8 where "SFUD_STATUS_REGISTER_BUSY \<equiv> 1"
abbreviation (input) SFUD_STATUS_REGISTER_WEL :: u8 where "SFUD_STATUS_REGISTER_WEL \<equiv> 2"

section \<open>The bus and the status register\<close>

text \<open>A command without an answer; steps that are taken as long as the result is a success.\<close>

definition send :: "'c bus \<Rightarrow> bytes \<Rightarrow> 'c \<Rightarrow> sfud_err \<times> 'c" where
  "send wr cmd c = (case wr cmd 0 c of (result, _, c) \<Rightarrow> (result, c))"

definition and_then :: "sfud_err \<times> 'c \<Rightarrow> ('c \<Rightarrow> sfud_err \<times> 'c) \<Rightarrow> sfud_err \<times> 'c" where
  "and_then x k = (case x of (result, c) \<Rightarrow> if result = SFUD_SUCCESS then k c else (result, c))"

definition sfud_read_status :: "'c bus \<Rightarrow> 'c \<Rightarrow> sfud_err \<times> u8 \<times> 'c" where
  "sfud_read_status wr c = (case wr [SFUD_CMD_READ_STATUS_REGISTER] 1 c of (result, b, c) \<Rightarrow> (result, hd b, c))"

definition set_write_enabled :: "'c bus \<Rightarrow> bool \<Rightarrow> 'c \<Rightarrow> sfud_err \<times> 'c" where
  "set_write_enabled wr enabled c =
    and_then (send wr [if enabled then SFUD_CMD_WRITE_ENABLE else SFUD_CMD_WRITE_DISABLE] c) (\<lambda>c.
      case sfud_read_status wr c of (result, register_status, c) \<Rightarrow>
        if result = SFUD_SUCCESS then
          if enabled \<and> register_status AND SFUD_STATUS_REGISTER_WEL = 0 then (SFUD_ERR_WRITE, c)
          else if \<not> enabled \<and> register_status AND SFUD_STATUS_REGISTER_WEL \<noteq> 0 then (SFUD_ERR_WRITE, c)
          else (result, c)
        else (result, c))"

text \<open>The polls that are left are counted down.\<close>

fun wait_busy :: "'c bus \<Rightarrow> nat \<Rightarrow> 'c \<Rightarrow> sfud_err \<times> 'c" where
  "wait_busy wr retry c =
    (case sfud_read_status wr c of (result, status, c) \<Rightarrow>
       if result = SFUD_SUCCESS \<and> status AND SFUD_STATUS_REGISTER_BUSY = 0 then (result, c)
       else if retry = 0 then (SFUD_ERR_TIMEOUT, c)
       else wait_busy wr (retry - 1) c)"

declare wait_busy.simps [simp del]

definition make_adress_byte_array :: "bool \<Rightarrow> u32 \<Rightarrow> bytes" where
  "make_adress_byte_array addr_4 addr =
    (let len = (if addr_4 then 4 else 3) in map (\<lambda>i. ucast (drop_bit ((len - (i + 1)) * 8) addr AND 0xFF)) [0..<len])"

section \<open>Reading, erasing, writing\<close>

text \<open>The sum of address and size is unsigned 32-bit. Without a transfer nothing is read.\<close>

definition sfud_read :: "'c bus \<Rightarrow> sfud_flash \<Rightarrow> u32 \<Rightarrow> u32 \<Rightarrow> 'c \<Rightarrow> sfud_err \<times> bytes \<times> 'c" where
  "sfud_read wr flash addr sz c =
    (if addr + sz > capacity (sf_chip flash) then (SFUD_ERR_ADDR_OUT_OF_BOUND, [], c)
     else case wait_busy wr (retry_times flash) c of (result, c) \<Rightarrow>
       if result = SFUD_SUCCESS
       then wr (SFUD_CMD_READ_DATA # make_adress_byte_array (addr_in_4_byte flash) addr) (unat sz) c
       else (result, [], c))"

definition sfud_chip_erase :: "'c bus \<Rightarrow> sfud_flash \<Rightarrow> 'c \<Rightarrow> sfud_err \<times> 'c" where
  "sfud_chip_erase wr flash c =
    (case and_then (set_write_enabled wr True c) (\<lambda>c.
            and_then (send wr (if write_mode (sf_chip flash) AND SFUD_WM_DUAL_BUFFER \<noteq> 0
                               then [SFUD_CMD_ERASE_CHIP, 0x94, 0x80, 0x9A] else [SFUD_CMD_ERASE_CHIP]) c)
              (wait_busy wr (retry_times flash))) of
       (result, c) \<Rightarrow> (result, snd (set_write_enabled wr False c)))"

partial_function (option) erase_loop :: "'c bus \<Rightarrow> sfud_flash \<Rightarrow> u32 \<Rightarrow> u32 \<Rightarrow> 'c \<Rightarrow> (sfud_err \<times> 'c) option" where
  "erase_loop wr flash addr sz c =
    (if sz = 0 then Some (SFUD_SUCCESS, c)
     else
       (let cur_erase_size = erase_gran (sf_chip flash)
        in case and_then (set_write_enabled wr True c) (\<lambda>c.
                  and_then (send wr (erase_gran_cmd (sf_chip flash) # make_adress_byte_array (addr_in_4_byte flash) addr) c)
                    (wait_busy wr (retry_times flash))) of
             (result, c) \<Rightarrow>
               if result \<noteq> SFUD_SUCCESS then Some (result, c)
               else if addr mod cur_erase_size \<noteq> 0 then
                 if sz > cur_erase_size - addr mod cur_erase_size
                 then erase_loop wr flash (addr + (cur_erase_size - addr mod cur_erase_size)) (sz - (cur_erase_size - addr mod cur_erase_size)) c
                 else Some (result, c)
               else if sz > cur_erase_size then erase_loop wr flash (addr + cur_erase_size) (sz - cur_erase_size) c
               else Some (result, c)))"

definition sfud_erase :: "'c bus \<Rightarrow> sfud_flash \<Rightarrow> u32 \<Rightarrow> u32 \<Rightarrow> 'c \<Rightarrow> (sfud_err \<times> 'c) option" where
  "sfud_erase wr flash addr sz c =
    (if addr + sz > capacity (sf_chip flash) then Some (SFUD_ERR_ADDR_OUT_OF_BOUND, c)
     else if addr = 0 \<and> sz = capacity (sf_chip flash) then Some (sfud_chip_erase wr flash c)
     else do { (result, c) \<leftarrow> erase_loop wr flash addr sz c; Some (result, snd (set_write_enabled wr False c)) })"

partial_function (option) page_loop :: "'c bus \<Rightarrow> sfud_flash \<Rightarrow> u32 \<Rightarrow> u32 \<Rightarrow> u32 \<Rightarrow> bytes \<Rightarrow> 'c \<Rightarrow> (sfud_err \<times> 'c) option" where
  "page_loop wr flash write_gran addr sz data c =
    (if sz = 0 then Some (SFUD_SUCCESS, c)
     else case set_write_enabled wr True c of (result, c) \<Rightarrow>
       if result \<noteq> SFUD_SUCCESS then Some (result, c)
       else
         (let data_size = (if addr mod write_gran \<noteq> 0
                           then if sz > write_gran - addr mod write_gran then write_gran - addr mod write_gran else sz
                           else if sz > write_gran then write_gran else sz)
          in case and_then (send wr (SFUD_CMD_PAGE_PROGRAM # make_adress_byte_array (addr_in_4_byte flash) addr @ take (unat data_size) data) c)
                    (wait_busy wr (retry_times flash)) of
               (result, c) \<Rightarrow>
                 if result \<noteq> SFUD_SUCCESS then Some (result, c)
                 else page_loop wr flash write_gran (addr + data_size) (sz - data_size) (drop (unat data_size) data) c))"

definition page256_or_1_byte_write :: "'c bus \<Rightarrow> sfud_flash \<Rightarrow> u32 \<Rightarrow> u32 \<Rightarrow> u32 \<Rightarrow> bytes \<Rightarrow> 'c \<Rightarrow> (sfud_err \<times> 'c) option" where
  "page256_or_1_byte_write wr flash addr sz write_gran data c =
    (if addr + sz > capacity (sf_chip flash) then Some (SFUD_ERR_ADDR_OUT_OF_BOUND, c)
     else do { (result, c) \<leftarrow> page_loop wr flash write_gran addr sz data c; Some (result, snd (set_write_enabled wr False c)) })"

text \<open>Chips that take two bytes at a time; \<open>data\<close> has at least \<open>sz\<close> bytes.\<close>

function aai_loop :: "'c bus \<Rightarrow> sfud_flash \<Rightarrow> bool \<Rightarrow> u32 \<Rightarrow> u32 \<Rightarrow> bytes \<Rightarrow> 'c \<Rightarrow> sfud_err \<times> u32 \<times> u32 \<times> bytes \<times> 'c" where
  "aai_loop wr flash first_write addr sz data c =
    (if sz \<ge> 2 then
       (case and_then (send wr (SFUD_CMD_AAI_WORD_PROGRAM #
                 (if first_write then make_adress_byte_array (addr_in_4_byte flash) addr else []) @ take 2 data) c)
               (wait_busy wr (retry_times flash)) of
          (result, c) \<Rightarrow>
            if result \<noteq> SFUD_SUCCESS then (result, addr, sz, data, c)
            else aai_loop wr flash False (addr + 2) (sz - 2) (drop 2 data) c)
     else (SFUD_SUCCESS, addr, sz, data, c))"
  by pat_completeness auto

termination
  by (relation "measure (\<lambda>(wr, flash, first, addr, sz, data, c). unat sz)") (auto simp: unat_sub word_le_nat_alt)

declare aai_loop.simps [simp del]

definition aai_write :: "'c bus \<Rightarrow> sfud_flash \<Rightarrow> u32 \<Rightarrow> u32 \<Rightarrow> bytes \<Rightarrow> 'c \<Rightarrow> (sfud_err \<times> 'c) option" where
  "aai_write wr flash addr sz data c =
    (if addr + sz > capacity (sf_chip flash) then Some (SFUD_ERR_ADDR_OUT_OF_BOUND, c)
     else do {
       (result, addr, sz, data, c) \<leftarrow>
         (if addr mod 2 \<noteq> 0 then do {
            (result, c) \<leftarrow> page256_or_1_byte_write wr flash addr 1 1 data c;
            Some (result, addr + 1, sz - 1, drop 1 data, c)
          } else Some (SFUD_SUCCESS, addr, sz, data, c));
       (result, c) \<leftarrow>
         (if result \<noteq> SFUD_SUCCESS then Some (result, c)
          else case set_write_enabled wr True c of (result, c) \<Rightarrow>
            if result \<noteq> SFUD_SUCCESS then Some (result, c)
            else case aai_loop wr flash True addr sz data c of (result, addr, sz, data, c) \<Rightarrow>
              if result \<noteq> SFUD_SUCCESS then Some (result, c)
              else case set_write_enabled wr False c of (result, c) \<Rightarrow>
                if result = SFUD_SUCCESS \<and> sz = 1 then page256_or_1_byte_write wr flash addr 1 1 data c
                else Some (result, c));
       Some (result, if result \<noteq> SFUD_SUCCESS then snd (set_write_enabled wr False c) else c)
     })"

definition sfud_write :: "'c bus \<Rightarrow> sfud_flash \<Rightarrow> u32 \<Rightarrow> u32 \<Rightarrow> bytes \<Rightarrow> 'c \<Rightarrow> (sfud_err \<times> 'c) option" where
  "sfud_write wr flash addr sz data c =
    (if write_mode (sf_chip flash) AND SFUD_WM_PAGE_256B \<noteq> 0 then page256_or_1_byte_write wr flash addr sz 256 data c
     else if write_mode (sf_chip flash) AND SFUD_WM_AAI \<noteq> 0 then aai_write wr flash addr sz data c
     else Some (SFUD_SUCCESS, c))"

definition sfud_erase_write :: "'c bus \<Rightarrow> sfud_flash \<Rightarrow> u32 \<Rightarrow> u32 \<Rightarrow> bytes \<Rightarrow> 'c \<Rightarrow> (sfud_err \<times> 'c) option" where
  "sfud_erase_write wr flash addr sz data c = do {
     (result, c) \<leftarrow> sfud_erase wr flash addr sz c;
     (if result = SFUD_SUCCESS then sfud_write wr flash addr sz data c else Some (result, c))
   }"

section \<open>Start-up\<close>

text \<open>The table of \<open>sfud_flash_def.h\<close>.\<close>

definition chip_info :: "string \<Rightarrow> u8 \<Rightarrow> u8 \<Rightarrow> u8 \<Rightarrow> u32 \<Rightarrow> u16 \<Rightarrow> u32 \<Rightarrow> u8 \<Rightarrow> sfud_flash_chip" where
  "chip_info nm mf ty ci cap mode gran cmd = \<lparr>chip_name = nm, mf_id = mf, type_id = ty, capacity_id = ci, capacity = cap,
     write_mode = mode, erase_gran = gran, erase_gran_cmd = cmd\<rparr>"

definition flash_chip_table :: "sfud_flash_chip list" where
  "flash_chip_table =
    [chip_info ''AT45DB161E'' 0x1F 0x26 0x00 (2 * 1024 * 1024) (SFUD_WM_BYTE OR SFUD_WM_DUAL_BUFFER) 512 0x81,
     chip_info ''W25Q40BV'' 0xEF 0x40 0x13 (512 * 1024) SFUD_WM_PAGE_256B 4096 0x20,
     chip_info ''W25Q16BV'' 0xEF 0x40 0x15 (2 * 1024 * 1024) SFUD_WM_PAGE_256B 4096 0x20,
     chip_info ''W25Q64CV'' 0xEF 0x40 0x17 (8 * 1024 * 1024) SFUD_WM_PAGE_256B 4096 0x20,
     chip_info ''W25Q64DW'' 0xEF 0x60 0x17 (8 * 1024 * 1024) SFUD_WM_PAGE_256B 4096 0x20,
     chip_info ''W25Q128BV'' 0xEF 0x40 0x18 (16 * 1024 * 1024) SFUD_WM_PAGE_256B 4096 0x20,
     chip_info ''W25Q256FV'' 0xEF 0x40 0x19 (32 * 1024 * 1024) SFUD_WM_PAGE_256B 4096 0x20,
     chip_info ''SST25VF016B'' 0xBF 0x25 0x41 (2 * 1024 * 1024) (SFUD_WM_BYTE OR SFUD_WM_AAI) 4096 0x20,
     chip_info ''M25P32'' 0x20 0x20 0x16 (4 * 1024 * 1024) SFUD_WM_PAGE_256B (64 * 1024) 0xD8,
     chip_info ''M25P80'' 0x20 0x20 0x14 (1024 * 1024) SFUD_WM_PAGE_256B (64 * 1024) 0xD8,
     chip_info ''M25P40'' 0x20 0x20 0x13 (512 * 1024) SFUD_WM_PAGE_256B (64 * 1024) 0xD8,
     chip_info ''EN25Q32B'' 0x1C 0x30 0x16 (4 * 1024 * 1024) SFUD_WM_PAGE_256B 4096 0x20,
     chip_info ''GD25Q64B'' 0xC8 0x40 0x17 (8 * 1024 * 1024) SFUD_WM_PAGE_256B 4096 0x20,
     chip_info ''GD25Q16B'' 0xC8 0x40 0x15 (2 * 1024 * 1024) SFUD_WM_PAGE_256B 4096 0x20,
     chip_info ''S25FL216K'' 0x01 0x40 0x15 (2 * 1024 * 1024) SFUD_WM_PAGE_256B 4096 0x20,
     chip_info ''S25FL032P'' 0x01 0x02 0x15 (4 * 1024 * 1024) SFUD_WM_PAGE_256B 4096 0x20,
     chip_info ''A25L080'' 0x37 0x30 0x14 (1024 * 1024) SFUD_WM_PAGE_256B 4096 0x20,
     chip_info ''F25L004'' 0x8C 0x20 0x13 (512 * 1024) (SFUD_WM_BYTE OR SFUD_WM_AAI) 4096 0x20,
     chip_info ''PCT25VF016B'' 0xBF 0x25 0x41 (2 * 1024 * 1024) (SFUD_WM_BYTE OR SFUD_WM_AAI) 4096 0x20,
     chip_info ''W25Q16FD'' 0xA1 0x40 0x15 (2 * 1024 * 1024) SFUD_WM_PAGE_256B 4096 0x20]"

definition read_jedec_id :: "'c bus \<Rightarrow> sfud_flash \<Rightarrow> 'c \<Rightarrow> sfud_err \<times> sfud_flash \<times> 'c" where
  "read_jedec_id wr flash c =
    (case wr [SFUD_CMD_JEDEC_ID] 3 c of (result, b, c) \<Rightarrow>
       if result = SFUD_SUCCESS
       then (result, flash\<lparr>sf_chip := (sf_chip flash)\<lparr>mf_id := b ! 0, type_id := b ! 1, capacity_id := b ! 2\<rparr>\<rparr>, c)
       else (result, flash, c))"

text \<open>The result of the wait between the two commands is not looked at.\<close>

definition sfud_reset :: "'c bus \<Rightarrow> sfud_flash \<Rightarrow> 'c \<Rightarrow> sfud_err \<times> 'c" where
  "sfud_reset wr flash c =
    and_then (send wr [SFUD_CMD_ENABLE_RESET] c) (\<lambda>c.
      and_then (send wr [SFUD_CMD_RESET] (snd (wait_busy wr (retry_times flash) c))) (wait_busy wr (retry_times flash)))"

definition sfud_write_status :: "'c bus \<Rightarrow> bool \<Rightarrow> u8 \<Rightarrow> 'c \<Rightarrow> sfud_err \<times> 'c" where
  "sfud_write_status wr is_volatile status c =
    and_then (if is_volatile then send wr [SFUD_VOLATILE_SR_WRITE_ENABLE] c else set_write_enabled wr True c)
      (send wr [SFUD_CMD_WRITE_STATUS_REGISTER, status])"

definition set_4_byte_address_mode :: "'c bus \<Rightarrow> sfud_flash \<Rightarrow> bool \<Rightarrow> 'c \<Rightarrow> sfud_err \<times> sfud_flash \<times> 'c" where
  "set_4_byte_address_mode wr flash enabled c =
    (case and_then (set_write_enabled wr True c)
            (send wr [if enabled then SFUD_CMD_ENTER_4B_ADDRESS_MODE else SFUD_CMD_EXIT_4B_ADDRESS_MODE]) of
       (result, c) \<Rightarrow> (result, if result = SFUD_SUCCESS then flash\<lparr>addr_in_4_byte := enabled\<rparr> else flash, c))"

definition unknown_chip :: "sfud_flash_chip \<Rightarrow> bool" where
  "unknown_chip ch \<longleftrightarrow> capacity ch = 0 \<or> write_mode ch = 0 \<or> erase_gran ch = 0 \<or> erase_gran_cmd ch = 0"

definition look_up_chip :: "sfud_flash_chip \<Rightarrow> sfud_flash_chip" where
  "look_up_chip ch =
    (case find (\<lambda>t. mf_id t = mf_id ch \<and> type_id t = type_id ch \<and> capacity_id t = capacity_id ch) flash_chip_table of
       None \<Rightarrow> ch
     | Some t \<Rightarrow> ch\<lparr>chip_name := chip_name t, capacity := capacity t, write_mode := write_mode t, erase_gran := erase_gran t,
         erase_gran_cmd := erase_gran_cmd t\<rparr>)"

text \<open>\<open>sfud_spi_port_init\<close> of \<open>spi_flash_sfud.c\<close> sets the number of polls: 60 seconds.\<close>

definition sfud_spi_port_init :: "sfud_flash \<Rightarrow> sfud_flash" where
  "sfud_spi_port_init flash = flash\<lparr>retry_times := 60 * 10000\<rparr>"

definition hardware_init :: "'c bus \<Rightarrow> sfud_flash \<Rightarrow> 'c \<Rightarrow> sfud_err \<times> sfud_flash \<times> 'c" where
  "hardware_init wr flash c =
    (let flash = sfud_spi_port_init flash
     in case (if unknown_chip (sf_chip flash) then
                (case read_jedec_id wr flash c of (result, flash, c) \<Rightarrow>
                   (result, if result = SFUD_SUCCESS then flash\<lparr>sf_chip := look_up_chip (sf_chip flash)\<rparr> else flash, c))
              else (SFUD_SUCCESS, flash, c)) of
          (result, flash, c) \<Rightarrow>
            if result \<noteq> SFUD_SUCCESS then (result, flash, c)
            else if unknown_chip (sf_chip flash) then (SFUD_ERR_NOT_FOUND, flash, c)
            else case and_then (sfud_reset wr flash c) (\<lambda>c.
                        if write_mode (sf_chip flash) AND SFUD_WM_AAI \<noteq> 0 then sfud_write_status wr True 0 c else (SFUD_SUCCESS, c)) of
                   (result, c) \<Rightarrow>
                     if result \<noteq> SFUD_SUCCESS then (result, flash, c)
                     else if capacity (sf_chip flash) > 0x1000000 then set_4_byte_address_mode wr flash True c
                     else (result, flash\<lparr>addr_in_4_byte := False\<rparr>, c))"

definition sfud_device_init :: "'c bus \<Rightarrow> sfud_flash \<Rightarrow> 'c \<Rightarrow> sfud_err \<times> sfud_flash \<times> 'c" where
  "sfud_device_init wr flash c =
    (case hardware_init wr flash c of (result, flash, c) \<Rightarrow> (result, flash\<lparr>sf_init_ok := (result = SFUD_SUCCESS)\<rparr>, c))"

text \<open>The structure starts as zeroes (\<open>rt_sfud_flash_probe_ex\<close>).\<close>

definition rt_sfud_flash_probe :: "'c bus \<Rightarrow> 'c \<Rightarrow> sfud_flash option \<times> 'c" where
  "rt_sfud_flash_probe wr c =
    (case sfud_device_init wr \<lparr>sf_chip = chip_info [] 0 0 0 0 0 0 0, sf_init_ok = False, addr_in_4_byte = False, retry_times = 0\<rparr> c of
       (result, flash, c) \<Rightarrow> (if result = SFUD_SUCCESS then Some flash else None, c))"

end
