(* ===== verification/Sfud_Chip.thy ===== *)
theory Sfud_Chip
  imports Sfud
begin

unbundle bit_operations_syntax

text \<open>
  The driver over a chip that does what its data sheet says. The locale \<open>spi_nor\<close> has the commands the driver uses; inside it the
  loops of the driver come to an end and do what one write and one erase of a NOR flash do.
\<close>

section \<open>What is in the cells\<close>

definition burn :: "nat \<Rightarrow> bytes \<Rightarrow> memory \<Rightarrow> memory" where
  "burn a d m = (\<lambda>p. if a \<le> p \<and> p < a + length d then and (m p) (d ! (p - a)) else m p)"

definition wipe :: "nat \<Rightarrow> nat \<Rightarrow> memory \<Rightarrow> memory" where
  "wipe a n m = (\<lambda>p. if 0 < n \<and> a div 4096 \<le> p div 4096 \<and> p div 4096 \<le> (a + n - 1) div 4096 then 0xFF else m p)"

lemma burn_append: "burn (a + length x) y (burn a x m) = burn a (x @ y) m"
  by (auto simp: burn_def fun_eq_iff nth_append)

lemma burn_nil [simp]: "burn a [] m = m"
  by (auto simp: burn_def fun_eq_iff)

text \<open>One block, then the rest.\<close>

lemma wipe_one: "0 < n \<Longrightarrow> a mod 4096 + n \<le> 4096 \<Longrightarrow> wipe a n m = (\<lambda>p. if p div 4096 = a div 4096 then 0xFF else m p)"
proof -
  assume n: "0 < n" "a mod 4096 + n \<le> 4096"
  have "a + n - 1 = 4096 * (a div 4096) + (a mod 4096 + n - 1)" using n(1) by simp
  moreover have "a mod 4096 + n - 1 < 4096" using n by simp
  ultimately have "(a + n - 1) div 4096 = a div 4096" by (metis add.right_neutral div_less div_mult_self4 zero_neq_numeral)
  then show ?thesis using n(1) by (auto simp: wipe_def fun_eq_iff)
qed

lemma wipe_step:
  assumes "4096 - a mod 4096 < n"
  shows "wipe (a + (4096 - a mod 4096)) (n - (4096 - a mod 4096)) (\<lambda>p. if p div 4096 = a div 4096 then 0xFF else m p) = wipe a n m"
proof -
  let ?k = "4096 - a mod 4096"
  have less: "a mod 4096 < 4096" by simp
  have "a + ?k = 4096 * (a div 4096) + (a mod 4096 + ?k)" by (metis add.assoc mult_div_mod_eq)
  also have "a mod 4096 + ?k = 4096" using less by simp
  finally have start: "(a + ?k) div 4096 = Suc (a div 4096)" by simp
  have fin: "a + ?k + (n - ?k) - 1 = a + n - 1" using assms by simp
  have "Suc (a div 4096) \<le> (a + n - 1) div 4096" using assms start div_le_mono [of "a + ?k" "a + n - 1" 4096] by simp
  then show ?thesis unfolding wipe_def start fin using assms by (auto simp: fun_eq_iff)
qed

section \<open>The chip\<close>

text \<open>An address is sent with its most significant byte first.\<close>

definition addr24 :: "nat \<Rightarrow> bytes" where
  "addr24 a = [word_of_nat (a div 65536), word_of_nat (a div 256), word_of_nat a]"

locale spi_nor =
  fixes wr :: "'c bus" and mem :: "'c \<Rightarrow> memory" and wel :: "'c \<Rightarrow> bool" and busy :: "'c \<Rightarrow> nat" and lim :: nat and chip_id :: bytes
  assumes status: "\<exists>st c'. wr [SFUD_CMD_READ_STATUS_REGISTER] 1 c = (SFUD_SUCCESS, [st], c') \<and>
      (st AND SFUD_STATUS_REGISTER_BUSY = 0 \<longleftrightarrow> busy c = 0) \<and> (busy c = 0 \<longrightarrow> (st AND SFUD_STATUS_REGISTER_WEL = 0 \<longleftrightarrow> \<not> wel c) \<and> wel c' = wel c) \<and>
      busy c' = busy c - 1 \<and> mem c' = mem c"
    and enable: "busy c = 0 \<Longrightarrow> \<exists>b c'. wr [SFUD_CMD_WRITE_ENABLE] 0 c = (SFUD_SUCCESS, b, c') \<and> wel c' \<and> busy c' = 0 \<and> mem c' = mem c"
    and disable: "busy c = 0 \<Longrightarrow> \<exists>b c'. wr [SFUD_CMD_WRITE_DISABLE] 0 c = (SFUD_SUCCESS, b, c') \<and> \<not> wel c' \<and> busy c' = 0 \<and> mem c' = mem c"
    and program: "busy c = 0 \<Longrightarrow> wel c \<Longrightarrow> d \<noteq> [] \<Longrightarrow> a mod 256 + length d \<le> 256 \<Longrightarrow> a + length d \<le> 0x200000 \<Longrightarrow>
      \<exists>b c'. wr (SFUD_CMD_PAGE_PROGRAM # addr24 a @ d) 0 c = (SFUD_SUCCESS, b, c') \<and> busy c' \<le> lim \<and> mem c' = burn a d (mem c)"
    and sector_erase: "busy c = 0 \<Longrightarrow> wel c \<Longrightarrow> a < 0x200000 \<Longrightarrow>
      \<exists>b c'. wr (0x20 # addr24 a) 0 c = (SFUD_SUCCESS, b, c') \<and> busy c' \<le> lim \<and>
        mem c' = (\<lambda>p. if p div 4096 = a div 4096 then 0xFF else mem c p)"
    and read: "busy c = 0 \<Longrightarrow> a + n \<le> 0x200000 \<Longrightarrow>
      \<exists>c'. wr (SFUD_CMD_READ_DATA # addr24 a) n c = (SFUD_SUCCESS, map (\<lambda>i. mem c (a + i)) [0..<n], c') \<and> busy c' = 0 \<and> mem c' = mem c"
    and identify: "busy c = 0 \<Longrightarrow> \<exists>c'. wr [SFUD_CMD_JEDEC_ID] 3 c = (SFUD_SUCCESS, chip_id, c') \<and> busy c' = 0 \<and> mem c' = mem c"
    and reset: "busy c = 0 \<Longrightarrow> cmd = SFUD_CMD_ENABLE_RESET \<or> cmd = SFUD_CMD_RESET \<Longrightarrow>
      \<exists>b c'. wr [cmd] 0 c = (SFUD_SUCCESS, b, c') \<and> busy c' \<le> lim \<and> mem c' = mem c"
begin

lemma status_read:
  "\<exists>st c'. sfud_read_status wr c = (SFUD_SUCCESS, st, c') \<and> (st AND SFUD_STATUS_REGISTER_BUSY = 0 \<longleftrightarrow> busy c = 0) \<and>
    (busy c = 0 \<longrightarrow> (st AND SFUD_STATUS_REGISTER_WEL = 0 \<longleftrightarrow> \<not> wel c) \<and> wel c' = wel c) \<and> busy c' = busy c - 1 \<and> mem c' = mem c"
  using status [of c] by (auto simp: sfud_read_status_def)

lemma write_enabled:
  assumes "busy c = 0"
  shows "\<exists>c'. set_write_enabled wr e c = (SFUD_SUCCESS, c') \<and> wel c' = e \<and> busy c' = 0 \<and> mem c' = mem c"
proof -
  obtain c1 where c1: "send wr [if e then SFUD_CMD_WRITE_ENABLE else SFUD_CMD_WRITE_DISABLE] c = (SFUD_SUCCESS, c1)" "wel c1 = e" "busy c1 = 0" "mem c1 = mem c"
    using enable [OF assms] disable [OF assms] by (cases e) (auto simp: send_def)
  obtain st c2 where "sfud_read_status wr c1 = (SFUD_SUCCESS, st, c2)" "st AND SFUD_STATUS_REGISTER_WEL = 0 \<longleftrightarrow> \<not> e" "wel c2 = e" "busy c2 = 0" "mem c2 = mem c"
    using status_read [of c1] c1 by auto
  then show ?thesis using c1(1) by (auto simp: set_write_enabled_def and_then_def)
qed

lemma waited: "busy c \<le> n \<Longrightarrow> \<exists>c'. wait_busy wr n c = (SFUD_SUCCESS, c') \<and> busy c' = 0 \<and> mem c' = mem c"
proof (induction n arbitrary: c)
  case 0
  then show ?case using status_read [of c] by (auto simp: wait_busy.simps [of wr 0])
next
  case (Suc n)
  obtain st c1 where c1: "sfud_read_status wr c = (SFUD_SUCCESS, st, c1)" "st AND SFUD_STATUS_REGISTER_BUSY = 0 \<longleftrightarrow> busy c = 0" "busy c1 = busy c - 1" "mem c1 = mem c"
    using status_read [of c] by auto
  show ?case
  proof (cases "busy c = 0")
    case True
    then show ?thesis using c1 by (simp add: wait_busy.simps [of wr "Suc n"])
  next
    case False
    then show ?thesis using c1 Suc.IH [of c1] Suc.prems by (simp add: wait_busy.simps [of wr "Suc n"])
  qed
qed

text \<open>A command that keeps the chip busy, and the wait behind it.\<close>

lemma sent:
  assumes "wr cmd 0 c = (SFUD_SUCCESS, b, c1)" "busy c1 \<le> n"
  shows "\<exists>c'. and_then (send wr cmd c) (wait_busy wr n) = (SFUD_SUCCESS, c') \<and> busy c' = 0 \<and> mem c' = mem c1"
  using waited [OF assms(2)] assms(1) by (simp add: and_then_def send_def)

end

section \<open>The driver\<close>

lemma u32_byte:
  assumes "a < 2 ^ 32"
  shows "(ucast (drop_bit k (word_of_nat a :: u32) AND 0xFF) :: u8) = word_of_nat (a div 2 ^ k)"
proof -
  have mask: "(0xFF :: u32) = mask 8" by (simp add: mask_eq_exp_minus_1)
  have "(ucast (w AND 0xFF) :: u8) = ucast w" for w :: u32
    unfolding mask by (rule bit_word_eqI) (auto simp: bit_simps)
  moreover have "unat (ucast (drop_bit k (word_of_nat a :: u32)) :: u8) = unat (word_of_nat (a div 2 ^ k) :: u8)"
    using assms by (simp only: unsigned_ucast_eq unsigned_drop_bit_eq unsigned_of_nat) (simp add: take_bit_eq_mod drop_bit_eq_div)
  ultimately show ?thesis by (simp add: word_unat_eq_iff)
qed

lemma adress_bytes: "a < 2 ^ 32 \<Longrightarrow> make_adress_byte_array False (word_of_nat a) = addr24 a"
  using u32_byte [of a 0] u32_byte [of a 8] u32_byte [of a 16]
  by (simp add: make_adress_byte_array_def addr24_def upt_conv_Cons Let_def)

lemma w32_nat: "a < 2 ^ 32 \<Longrightarrow> unat (word_of_nat a :: u32) = a"
  by (simp add: unsigned_of_nat take_bit_eq_mod)

lemma w32_less: "a < 2 ^ 32 \<Longrightarrow> b < 2 ^ 32 \<Longrightarrow> (word_of_nat a :: u32) < word_of_nat b \<longleftrightarrow> a < b"
  by (simp only: word_less_nat_alt w32_nat)

lemma w32_mod:
  assumes "a < 2 ^ 32" "b < 2 ^ 32"
  shows "(word_of_nat a :: u32) mod word_of_nat b = word_of_nat (a mod b)"
proof -
  have "a mod b < 2 ^ 32" using assms(1) by (meson le_less_trans mod_less_eq_dividend)
  then show ?thesis using assms by (simp only: word_unat_eq_iff unat_mod_distrib w32_nat)
qed

text \<open>The step to the next boundary, aligned or not.\<close>

lemma step_to_boundary:
  assumes "a < 2 ^ 32" "0 < g" "g < 2 ^ 32"
  shows "(if (word_of_nat a :: u32) mod word_of_nat g \<noteq> 0 then word_of_nat g - word_of_nat a mod word_of_nat g else word_of_nat g)
    = (word_of_nat (g - a mod g) :: u32)"
proof -
  have less: "a mod g < g" using assms(2) by simp
  then have "(word_of_nat (g - a mod g) :: u32) = word_of_nat g - word_of_nat (a mod g)" by (simp add: of_nat_diff less_imp_le)
  then show ?thesis using w32_mod [OF assms(1,3)] by simp
qed

definition driven :: "nat \<Rightarrow> sfud_flash \<Rightarrow> bool" where
  "driven lim flash \<longleftrightarrow> capacity (sf_chip flash) = 0x200000 \<and> write_mode (sf_chip flash) = SFUD_WM_PAGE_256B \<and>
     erase_gran (sf_chip flash) = 4096 \<and> erase_gran_cmd (sf_chip flash) = 0x20 \<and> \<not> addr_in_4_byte flash \<and> lim \<le> retry_times flash"

text \<open>The two loops with one step per boundary.\<close>

lemma erase_loop_round:
  assumes fl: "driven lim flash" and a: "a < 2 ^ 32" and n: "0 < n" "n < 2 ^ 32"
    and step: "and_then (set_write_enabled wr True c) (\<lambda>c. and_then (send wr (0x20 # addr24 a) c) (wait_busy wr (retry_times flash))) = (SFUD_SUCCESS, c1)"
  defines "k \<equiv> 4096 - a mod 4096"
  shows "erase_loop wr flash (word_of_nat a) (word_of_nat n) c
    = (if k < n then erase_loop wr flash (word_of_nat (a + k)) (word_of_nat (n - k)) c1 else Some (SFUD_SUCCESS, c1))"
proof -
  have k: "0 < k" "k \<le> 4096" by (simp_all add: k_def)
  have nz: "(word_of_nat n :: u32) \<noteq> 0" using n w32_nat [of n] by (metis neq0_conv unat_0)
  have wk: "(if (word_of_nat a :: u32) mod 4096 \<noteq> 0 then 4096 - word_of_nat a mod 4096 else 4096) = (word_of_nat k :: u32)"
    using step_to_boundary [OF a, of 4096, unfolded of_nat_numeral] unfolding k_def by simp
  have less: "(word_of_nat k :: u32) < word_of_nat n \<longleftrightarrow> k < n" using k n by (intro w32_less) simp_all
  have "erase_loop wr flash (word_of_nat a) (word_of_nat n) c
      = (if word_of_nat k < (word_of_nat n :: u32) then erase_loop wr flash (word_of_nat a + word_of_nat k) (word_of_nat n - word_of_nat k) c1
         else Some (SFUD_SUCCESS, c1))"
    using fl step nz wk [symmetric] adress_bytes [OF a] by (subst erase_loop.simps) (simp add: driven_def Let_def)
  then show ?thesis unfolding less by (simp add: of_nat_diff)
qed

lemma page_loop_round:
  assumes fl: "driven lim flash" and a: "a < 2 ^ 32" and n: "0 < n" "n < 2 ^ 32"
    and on: "set_write_enabled wr True c = (SFUD_SUCCESS, c0)"
  defines "k \<equiv> min n (256 - a mod 256)"
  assumes step: "and_then (send wr (SFUD_CMD_PAGE_PROGRAM # addr24 a @ take k data) c0) (wait_busy wr (retry_times flash)) = (SFUD_SUCCESS, c1)"
  shows "page_loop wr flash 256 (word_of_nat a) (word_of_nat n) data c
    = page_loop wr flash 256 (word_of_nat (a + k)) (word_of_nat (n - k)) (drop k data) c1"
proof -
  define b where "b = 256 - a mod 256"
  have k: "0 < b" "b \<le> 256" "k \<le> n" "k = min n b" by (simp_all add: k_def b_def)
  have nz: "(word_of_nat n :: u32) \<noteq> 0" using n w32_nat [of n] by (metis neq0_conv unat_0)
  have wb: "(if (word_of_nat a :: u32) mod 256 \<noteq> 0 then 256 - word_of_nat a mod 256 else 256) = (word_of_nat b :: u32)"
    using step_to_boundary [OF a, of 256, unfolded of_nat_numeral] unfolding b_def by simp
  have less: "(word_of_nat b :: u32) < word_of_nat n \<longleftrightarrow> b < n" using k n by (intro w32_less) simp_all
  have "(if (word_of_nat a :: u32) mod 256 \<noteq> 0
      then if word_of_nat n > 256 - (word_of_nat a :: u32) mod 256 then 256 - word_of_nat a mod 256 else word_of_nat n
      else if word_of_nat n > (256 :: u32) then 256 else word_of_nat n) = (if word_of_nat b < (word_of_nat n :: u32) then word_of_nat b else word_of_nat n :: u32)"
    using wb by (cases "(word_of_nat a :: u32) mod 256 = 0") simp_all
  also have "\<dots> = word_of_nat k" unfolding less k(4) by (auto simp: min_def)
  finally have wk: "(if (word_of_nat a :: u32) mod 256 \<noteq> 0
      then if word_of_nat n > 256 - (word_of_nat a :: u32) mod 256 then 256 - word_of_nat a mod 256 else word_of_nat n
      else if word_of_nat n > (256 :: u32) then 256 else word_of_nat n) = (word_of_nat k :: u32)" .
  have uk: "unat (word_of_nat k :: u32) = k" using k n by (intro w32_nat) simp
  show ?thesis
    using fl on step nz wk uk adress_bytes [OF a] k(3) by (subst page_loop.simps) (simp add: driven_def Let_def of_nat_diff)
qed

context spi_nor
begin

lemma erase_loop_ok:
  "driven lim flash \<Longrightarrow> 0 < n \<Longrightarrow> a + n \<le> 0x200000 \<Longrightarrow> busy c = 0 \<Longrightarrow>
    \<exists>c'. erase_loop wr flash (word_of_nat a) (word_of_nat n) c = Some (SFUD_SUCCESS, c') \<and> busy c' = 0 \<and> mem c' = wipe a n (mem c)"
proof (induction n arbitrary: a c rule: less_induct)
  case (less n)
  let ?k = "4096 - a mod 4096"
  obtain c0 where c0: "set_write_enabled wr True c = (SFUD_SUCCESS, c0)" "wel c0" "busy c0 = 0" "mem c0 = mem c"
    using write_enabled [OF less.prems(4), of True] by auto
  obtain b c1 where c1: "wr (0x20 # addr24 a) 0 c0 = (SFUD_SUCCESS, b, c1)" "busy c1 \<le> lim"
    "mem c1 = (\<lambda>p. if p div 4096 = a div 4096 then 0xFF else mem c0 p)"
    using sector_erase [OF c0(3,2), of a] less.prems(2,3) by auto
  have "busy c1 \<le> retry_times flash" using c1(2) less.prems(1) by (simp add: driven_def)
  then obtain c2 where c2: "and_then (send wr (0x20 # addr24 a) c0) (wait_busy wr (retry_times flash)) = (SFUD_SUCCESS, c2)" "busy c2 = 0" "mem c2 = mem c1"
    using sent [OF c1(1)] by blast
  have "and_then (set_write_enabled wr True c) (\<lambda>c. and_then (send wr (0x20 # addr24 a) c) (wait_busy wr (retry_times flash))) = (SFUD_SUCCESS, c2)"
    using c0(1) c2(1) by (simp add: and_then_def)
  note round = erase_loop_round [OF less.prems(1) _ less.prems(2) _ this]
  have m2: "mem c2 = (\<lambda>p. if p div 4096 = a div 4096 then 0xFF else mem c p)" using c1(3) c2(3) c0(4) by (simp cong: if_cong)
  show ?case
  proof (cases "?k < n")
    case True
    have "\<exists>c'. erase_loop wr flash (word_of_nat (a + ?k)) (word_of_nat (n - ?k)) c2 = Some (SFUD_SUCCESS, c') \<and> busy c' = 0 \<and>
        mem c' = wipe (a + ?k) (n - ?k) (mem c2)"
      using less.prems True by (intro less.IH [OF _ less.prems(1) _ _ c2(2)]) simp_all
    then have "\<exists>c'. erase_loop wr flash (word_of_nat (a + ?k)) (word_of_nat (n - ?k)) c2 = Some (SFUD_SUCCESS, c') \<and> busy c' = 0 \<and> mem c' = wipe a n (mem c)"
      unfolding m2 wipe_step [OF True, of "mem c"] .
    then show ?thesis using round less.prems(3) True by simp
  next
    case False
    then show ?thesis using round less.prems(3) c2(2) m2 wipe_one [OF less.prems(2), of a "mem c"] by simp
  qed
qed

lemma page_loop_ok:
  "driven lim flash \<Longrightarrow> a + length data \<le> 0x200000 \<Longrightarrow> busy c = 0 \<Longrightarrow>
    \<exists>c'. page_loop wr flash 256 (word_of_nat a) (word_of_nat (length data)) data c = Some (SFUD_SUCCESS, c') \<and> busy c' = 0 \<and> mem c' = burn a data (mem c)"
proof (induction "length data" arbitrary: a data c rule: less_induct)
  case less
  show ?case
  proof (cases "data = []")
    case True
    then show ?thesis using less.prems(3) by (subst page_loop.simps) simp
  next
    case False
    let ?k = "min (length data) (256 - a mod 256)" and ?d = "take (min (length data) (256 - a mod 256)) data"
    obtain c0 where c0: "set_write_enabled wr True c = (SFUD_SUCCESS, c0)" "wel c0" "busy c0 = 0" "mem c0 = mem c"
      using write_enabled [OF less.prems(3), of True] by auto
    have d: "?d \<noteq> []" "a mod 256 + length ?d \<le> 256" "length ?d = ?k" using False by simp_all
    have "?k \<le> length data" by simp
    then have fit: "a + length ?d \<le> 0x200000" using less.prems(2) d(3) by linarith
    obtain b c1 where c1: "wr (SFUD_CMD_PAGE_PROGRAM # addr24 a @ ?d) 0 c0 = (SFUD_SUCCESS, b, c1)" "busy c1 \<le> lim" "mem c1 = burn a ?d (mem c0)"
      using program [OF c0(3,2) d(1,2) fit] by blast
    have "busy c1 \<le> retry_times flash" using c1(2) less.prems(1) by (simp add: driven_def)
    then obtain c2 where c2: "and_then (send wr (SFUD_CMD_PAGE_PROGRAM # addr24 a @ ?d) c0) (wait_busy wr (retry_times flash)) = (SFUD_SUCCESS, c2)"
      "busy c2 = 0" "mem c2 = mem c1" using sent [OF c1(1)] by blast
    have round: "page_loop wr flash 256 (word_of_nat a) (word_of_nat (length data)) data c
        = page_loop wr flash 256 (word_of_nat (a + ?k)) (word_of_nat (length (drop ?k data))) (drop ?k data) c2"
      using page_loop_round [OF less.prems(1) _ _ _ c0(1) c2(1)] less.prems(2) False by simp
    have "\<exists>c'. page_loop wr flash 256 (word_of_nat (a + ?k)) (word_of_nat (length (drop ?k data))) (drop ?k data) c2 = Some (SFUD_SUCCESS, c') \<and> busy c' = 0 \<and>
        mem c' = burn (a + ?k) (drop ?k data) (mem c2)"
      using less.prems False by (intro less.hyps [OF _ less.prems(1) _ c2(2)]) (auto simp: min_def)
    moreover have "burn (a + ?k) (drop ?k data) (burn a ?d (mem c)) = burn a data (mem c)"
      using burn_append [of a ?d "drop ?k data" "mem c"] unfolding d(3) append_take_drop_id .
    ultimately show ?thesis using round c1(3) c2(3) c0(4) by simp
  qed
qed

lemma switch_off:
  "busy c = 0 \<Longrightarrow> mem (snd (set_write_enabled wr False c)) = mem c \<and> busy (snd (set_write_enabled wr False c)) = 0"
  using write_enabled [of c False] by auto

lemma in_bounds:
  assumes "driven lim flash" "a + n \<le> 0x200000"
  shows "\<not> word_of_nat a + word_of_nat n > capacity (sf_chip flash)"
  using assms w32_less [of "0x200000" "a + n"] by (simp add: driven_def)

lemma write_ok:
  assumes fl: "driven lim flash" and a: "a + length data \<le> 0x200000" and c: "busy c = 0"
  shows "\<exists>c'. sfud_write wr flash (word_of_nat a) (word_of_nat (length data)) data c = Some (SFUD_SUCCESS, c') \<and> busy c' = 0 \<and>
    mem c' = burn a data (mem c)"
proof -
  obtain c1 where "page_loop wr flash 256 (word_of_nat a) (word_of_nat (length data)) data c = Some (SFUD_SUCCESS, c1)" "busy c1 = 0"
    "mem c1 = burn a data (mem c)" using page_loop_ok [OF fl a c] by blast
  then show ?thesis using fl in_bounds [OF fl a] switch_off [of c1]
    by (simp add: sfud_write_def page256_or_1_byte_write_def driven_def)
qed

lemma erase_ok:
  assumes fl: "driven lim flash" and a: "a + n \<le> 0x200000" "\<not> (a = 0 \<and> n = 0x200000)" and c: "busy c = 0"
  shows "\<exists>c'. sfud_erase wr flash (word_of_nat a) (word_of_nat n) c = Some (SFUD_SUCCESS, c') \<and> busy c' = 0 \<and> mem c' = wipe a n (mem c)"
proof -
  have "\<exists>c1. erase_loop wr flash (word_of_nat a) (word_of_nat n) c = Some (SFUD_SUCCESS, c1) \<and> busy c1 = 0 \<and> mem c1 = wipe a n (mem c)"
  proof (cases "n = 0")
    case True
    then show ?thesis using c by (subst erase_loop.simps) (simp add: wipe_def)
  next
    case False
    then show ?thesis using erase_loop_ok [OF fl _ a(1) c] by blast
  qed
  then obtain c1 where c1: "erase_loop wr flash (word_of_nat a) (word_of_nat n) c = Some (SFUD_SUCCESS, c1)" "busy c1 = 0" "mem c1 = wipe a n (mem c)" by blast
  have "\<not> ((word_of_nat a :: u32) = 0 \<and> (word_of_nat n :: u32) = 0x200000)"
    using a w32_nat [of a] w32_nat [of n] w32_nat [of "0x200000"] by (auto dest!: arg_cong [where f = unat])
  then show ?thesis using fl in_bounds [OF fl a(1)] c1 switch_off [of c1] by (auto simp: sfud_erase_def driven_def)
qed

lemma read_ok:
  assumes fl: "driven lim flash" and a: "a + n \<le> 0x200000" and c: "busy c = 0"
  shows "\<exists>c'. sfud_read wr flash (word_of_nat a) (word_of_nat n) c = (SFUD_SUCCESS, map (\<lambda>i. mem c (a + i)) [0..<n], c') \<and> busy c' = 0 \<and> mem c' = mem c"
proof -
  obtain c1 where c1: "wait_busy wr (retry_times flash) c = (SFUD_SUCCESS, c1)" "busy c1 = 0" "mem c1 = mem c" using waited [of c "retry_times flash"] c by auto
  obtain c2 where "wr (SFUD_CMD_READ_DATA # addr24 a) n c1 = (SFUD_SUCCESS, map (\<lambda>i. mem c1 (a + i)) [0..<n], c2)" "busy c2 = 0" "mem c2 = mem c1"
    using read [OF c1(2) a] by blast
  moreover have "unat (word_of_nat n :: u32) = n" "a < 2 ^ 32" using a w32_nat [of n] by simp_all
  ultimately show ?thesis using fl in_bounds [OF fl a] c1 adress_bytes [of a] by (simp add: sfud_read_def driven_def)
qed

text \<open>The chip of the board is found in the table and ready afterwards.\<close>

lemma probe_ok:
  assumes id: "chip_id = [0xA1, 0x40, 0x15]" and lim: "lim \<le> 600000" and c: "busy c = 0"
  shows "\<exists>flash c'. rt_sfud_flash_probe wr c = (Some flash, c') \<and> driven lim flash \<and> sf_init_ok flash \<and> busy c' = 0 \<and> mem c' = mem c"
proof -
  obtain c1 where c1: "wr [SFUD_CMD_JEDEC_ID] 3 c = (SFUD_SUCCESS, [0xA1, 0x40, 0x15], c1)" "busy c1 = 0" "mem c1 = mem c"
    using identify [OF c] unfolding id by blast
  define flash where "flash = \<lparr>sf_chip = chip_info ''W25Q16FD'' 0xA1 0x40 0x15 0x200000 SFUD_WM_PAGE_256B 4096 0x20, sf_init_ok = False,
    addr_in_4_byte = False, retry_times = 600000\<rparr>"
  have "\<exists>c2 b. wr [SFUD_CMD_ENABLE_RESET] 0 c1 = (SFUD_SUCCESS, b, c2) \<and> busy c2 \<le> lim \<and> mem c2 = mem c1" using reset [OF c1(2)] by blast
  then obtain c2 where c2: "send wr [SFUD_CMD_ENABLE_RESET] c1 = (SFUD_SUCCESS, c2)" "busy c2 \<le> lim" "mem c2 = mem c1" by (auto simp: send_def)
  obtain c3 where c3: "wait_busy wr 600000 c2 = (SFUD_SUCCESS, c3)" "busy c3 = 0" "mem c3 = mem c2" using waited [of c2 600000] c2(2) lim by auto
  obtain b c4 where c4: "wr [SFUD_CMD_RESET] 0 c3 = (SFUD_SUCCESS, b, c4)" "busy c4 \<le> lim" "mem c4 = mem c3" using reset [OF c3(2)] by blast
  obtain c5 where c5: "and_then (send wr [SFUD_CMD_RESET] c3) (wait_busy wr 600000) = (SFUD_SUCCESS, c5)" "busy c5 = 0" "mem c5 = mem c4"
    using sent [OF c4(1), of 600000] c4(2) lim by auto
  have rst: "sfud_reset wr flash c1 = (SFUD_SUCCESS, c5)"
    using c2(1) c3(1) c5(1) by (simp add: sfud_reset_def flash_def and_then_def [of "(SFUD_SUCCESS, c2)"])
  have "rt_sfud_flash_probe wr c = (Some (flash\<lparr>sf_init_ok := True\<rparr>), c5)"
    using c1(1) rst
    by (simp add: rt_sfud_flash_probe_def sfud_device_init_def hardware_init_def sfud_spi_port_init_def unknown_chip_def chip_info_def
        read_jedec_id_def look_up_chip_def flash_chip_table_def flash_def and_then_def)
  moreover have "driven lim (flash\<lparr>sf_init_ok := True\<rparr>)" using lim by (simp add: driven_def flash_def chip_info_def)
  ultimately show ?thesis using c5(2,3) c4(3) c3(3) c2(3) c1(3) by (intro exI [of _ "flash\<lparr>sf_init_ok := True\<rparr>"] exI [of _ c5]) simp
qed

end

section \<open>A chip\<close>

record spi_chip =
  chip_mem :: memory
  chip_wel :: bool
  chip_busy :: nat

definition chip_status :: "spi_chip \<Rightarrow> u8" where
  "chip_status c = (if chip_busy c > 0 then 1 else 0) OR (if chip_wel c then 2 else 0)"

definition addr_of :: "bytes \<Rightarrow> nat" where
  "addr_of b = unat (b ! 0) * 65536 + unat (b ! 1) * 256 + unat (b ! 2)"

text \<open>While it is busy it answers nothing but the status; an erase takes three polls, a page two.\<close>

definition chip_wr :: "spi_chip bus" where
  "chip_wr cmd n c =
    (let i = hd cmd; arg = tl cmd; a = addr_of arg; d = drop 3 arg
     in if i = 0x05 then (SFUD_SUCCESS, [chip_status c], c\<lparr>chip_busy := chip_busy c - 1\<rparr>)
        else if chip_busy c > 0 then (SFUD_SUCCESS, replicate n 0xFF, c)
        else if i = 0x06 then (SFUD_SUCCESS, [], c\<lparr>chip_wel := True\<rparr>)
        else if i = 0x04 then (SFUD_SUCCESS, [], c\<lparr>chip_wel := False\<rparr>)
        else if i = 0x02 \<and> chip_wel c then (SFUD_SUCCESS, [], c\<lparr>chip_mem := burn a d (chip_mem c), chip_busy := 2, chip_wel := False\<rparr>)
        else if i = 0x20 \<and> chip_wel c then
          (SFUD_SUCCESS, [], c\<lparr>chip_mem := (\<lambda>p. if p div 4096 = a div 4096 then 0xFF else chip_mem c p), chip_busy := 3, chip_wel := False\<rparr>)
        else if i = 0x03 then (SFUD_SUCCESS, map (\<lambda>j. chip_mem c (a + j)) [0..<n], c)
        else if i = 0x9F then (SFUD_SUCCESS, [0xA1, 0x40, 0x15], c)
        else (SFUD_SUCCESS, replicate n 0xFF, c))"

lemma addr_of_addr24: "a < 2 ^ 24 \<Longrightarrow> addr_of (addr24 a @ d) = a"
proof -
  assume "a < 2 ^ 24"
  then have "a div 65536 < 256" by (simp add: less_mult_imp_div_less)
  moreover have "a div 65536 = a div 256 div 256" by (simp add: div_mult2_eq [symmetric])
  moreover have "a = a div 256 * 256 + a mod 256" "a div 256 = a div 256 div 256 * 256 + a div 256 mod 256" by simp_all
  then have "a div 256 div 256 * 65536 + a div 256 mod 256 * 256 + a mod 256 = a" by linarith
  ultimately show ?thesis by (simp add: addr_of_def addr24_def unsigned_of_nat take_bit_eq_mod)
qed

lemma addr24_length [simp]: "length (addr24 a) = 3"
  by (simp add: addr24_def)

interpretation flash_chip: spi_nor chip_wr chip_mem chip_wel chip_busy 3 "[0xA1, 0x40, 0x15]"
proof unfold_locales
  fix c :: spi_chip and a n :: nat and d :: bytes
  note at = addr_of_addr24 [of a d] addr_of_addr24 [of a "[]", simplified]
  show "\<exists>st c'. chip_wr [0x05] 1 c = (SFUD_SUCCESS, [st], c') \<and> (st AND 1 = 0 \<longleftrightarrow> chip_busy c = 0) \<and>
      (chip_busy c = 0 \<longrightarrow> (st AND 2 = 0 \<longleftrightarrow> \<not> chip_wel c) \<and> chip_wel c' = chip_wel c) \<and> chip_busy c' = chip_busy c - 1 \<and> chip_mem c' = chip_mem c"
    by (simp add: chip_wr_def chip_status_def)
  show "\<exists>b c'. chip_wr (2 # addr24 a @ d) 0 c = (SFUD_SUCCESS, b, c') \<and> chip_busy c' \<le> 3 \<and> chip_mem c' = burn a d (chip_mem c)"
    if "chip_busy c = 0" "chip_wel c" "a + length d \<le> 0x200000"
    using that at by (simp add: chip_wr_def)
  show "\<exists>b c'. chip_wr (0x20 # addr24 a) 0 c = (SFUD_SUCCESS, b, c') \<and> chip_busy c' \<le> 3 \<and>
      chip_mem c' = (\<lambda>p. if p div 4096 = a div 4096 then 0xFF else chip_mem c p)" if "chip_busy c = 0" "chip_wel c" "a < 0x200000"
    using that at by (simp add: chip_wr_def)
  show "\<exists>c'. chip_wr (3 # addr24 a) n c = (SFUD_SUCCESS, map (\<lambda>i. chip_mem c (a + i)) [0..<n], c') \<and> chip_busy c' = 0 \<and> chip_mem c' = chip_mem c"
    if "chip_busy c = 0" "a + n \<le> 0x200000" using that at by (simp add: chip_wr_def)
qed (auto simp: chip_wr_def)

end
