(* ===== verification/Fal.thy ===== *)
theory Fal
  imports Sfud_Chip Ef_Flash
begin

unbundle bit_operations_syntax

text \<open>
  The flash abstraction layer (\<open>src/packages/fal-v0.5.0/src\<close>) with its two devices: the serial flash behind the driver of
  \<open>Sfud\<close> (\<open>src/storage/fal_flash_sfud_port.c\<close>) and the flash of the processor (\<open>src/storage/fal_flash_stm32f4_port.c\<close>),
  the partitions of \<open>src/storage/fal_cfg.h\<close>, and the port of the key-value store on top of it
  (\<open>src/storage/ef_fal_port.c\<close>). Parameters are the bus \<open>wr\<close> to the serial flash and the functions \<open>hal\<close> that the
  library of the processor has for its own flash. A \<open>long\<close> has 32 bits, assertions of the layer are compiled out.
\<close>

section \<open>State\<close>

record fal_partition =
  part_name :: string
  part_flash_name :: string
  part_offset :: u32
  part_len :: u32

text \<open>
  The static variables of the files: the length and block size of \<open>nor_flash0\<close>, \<open>sfud_dev\<close>, the three \<open>init_ok\<close>, the
  partition table in use, \<open>part\<close> of the store; \<open>block_dev\<close> is the device that the kernel has under the name of the serial flash.
\<close>

record ('c, 'h) storage =
  nor_len :: u32
  nor_blk_size :: u32
  sfud_dev :: "sfud_flash option"
  block_dev :: "sfud_flash option"
  flash_init_ok :: bool
  part_init_ok :: bool
  fal_init_ok :: bool
  partition_table :: "fal_partition list"
  ef_part :: "fal_partition option"
  serial :: 'c
  onchip :: 'h

text \<open>A device with its operations: a position, the buffer, a size.\<close>

record 's fal_flash_dev =
  dev_name :: string
  dev_addr :: u32
  dev_len :: u32
  dev_blk_size :: u32
  dev_write_gran :: u32
  dev_init :: "'s \<Rightarrow> int \<times> 's"
  dev_read :: "u32 \<Rightarrow> bytes \<Rightarrow> u32 \<Rightarrow> 's \<Rightarrow> c_fault + int \<times> bytes \<times> 's"
  dev_write :: "u32 \<Rightarrow> bytes \<Rightarrow> u32 \<Rightarrow> 's \<Rightarrow> c_fault + int \<times> 's"
  dev_erase :: "u32 \<Rightarrow> u32 \<Rightarrow> 's \<Rightarrow> c_fault + int \<times> 's"

section \<open>The serial flash as a device\<close>

definition sfud_port_init :: "('c, 'h) storage \<Rightarrow> int \<times> ('c, 'h) storage" where
  "sfud_port_init st =
    (let st = st\<lparr>sfud_dev := block_dev st\<rparr>
     in case sfud_dev st of
          None \<Rightarrow> (-1, st)
        | Some sf \<Rightarrow> (0, st\<lparr>nor_blk_size := erase_gran (sf_chip sf), nor_len := capacity (sf_chip sf)\<rparr>))"

text \<open>What the driver returns is not looked at: a read that fails leaves the buffer and reports the size.\<close>

definition sfud_port_read :: "'c bus \<Rightarrow> u32 \<Rightarrow> bytes \<Rightarrow> u32 \<Rightarrow> ('c, 'h) storage \<Rightarrow> c_fault + int \<times> bytes \<times> ('c, 'h) storage" where
  "sfud_port_read wr offset buf sz st =
    (case sfud_dev st of
       None \<Rightarrow> Inl Null_Pointer
     | Some sf \<Rightarrow> (case sfud_read wr sf (0 + offset) sz (serial st) of
         (_, b, c) \<Rightarrow> Inr (sint sz, b @ drop (length b) buf, st\<lparr>serial := c\<rparr>)))"

definition sfud_port_write :: "'c bus \<Rightarrow> u32 \<Rightarrow> bytes \<Rightarrow> u32 \<Rightarrow> ('c, 'h) storage \<Rightarrow> c_fault + int \<times> ('c, 'h) storage" where
  "sfud_port_write wr offset buf sz st =
    (case sfud_dev st of
       None \<Rightarrow> Inl Null_Pointer
     | Some sf \<Rightarrow> (case sfud_write wr sf (0 + offset) sz buf (serial st) of
         None \<Rightarrow> Inl Endless_Loop
       | Some (result, c) \<Rightarrow> Inr (if result \<noteq> SFUD_SUCCESS then -1 else sint sz, st\<lparr>serial := c\<rparr>)))"

definition sfud_port_erase :: "'c bus \<Rightarrow> u32 \<Rightarrow> u32 \<Rightarrow> ('c, 'h) storage \<Rightarrow> c_fault + int \<times> ('c, 'h) storage" where
  "sfud_port_erase wr offset sz st =
    (case sfud_dev st of
       None \<Rightarrow> Inl Null_Pointer
     | Some sf \<Rightarrow> (case sfud_erase wr sf (0 + offset) sz (serial st) of
         None \<Rightarrow> Inl Endless_Loop
       | Some (result, c) \<Rightarrow> Inr (if result \<noteq> SFUD_SUCCESS then -1 else sint sz, st\<lparr>serial := c\<rparr>)))"

definition nor_flash0 :: "'c bus \<Rightarrow> ('c, 'h) storage \<Rightarrow> ('c, 'h) storage fal_flash_dev" where
  "nor_flash0 wr st = \<lparr>dev_name = ''norflash0'', dev_addr = 0, dev_len = nor_len st, dev_blk_size = nor_blk_size st, dev_write_gran = 1,
     dev_init = sfud_port_init, dev_read = sfud_port_read wr, dev_write = sfud_port_write wr, dev_erase = sfud_port_erase wr\<rparr>"

section \<open>The flash of the processor as a device\<close>

record 'h hal =
  HAL_FLASH_Unlock :: "'h \<Rightarrow> 'h"
  HAL_FLASH_Clear_Flag :: "'h \<Rightarrow> 'h"
  HAL_FLASH_Program :: "u32 \<Rightarrow> u8 \<Rightarrow> 'h \<Rightarrow> 'h"
  FLASH_Erase_Sector :: "u32 \<Rightarrow> 'h \<Rightarrow> 'h"
  HAL_FLASH_Lock :: "'h \<Rightarrow> 'h"
  flash_byte :: "u32 \<Rightarrow> 'h \<Rightarrow> u8"

definition stm32_get_sector :: "u32 \<Rightarrow> u32" where
  "stm32_get_sector address =
    (if address < 0x08004000 \<and> address \<ge> 0x08000000 then 0
     else if address < 0x08008000 \<and> address \<ge> 0x08004000 then 1
     else if address < 0x0800C000 \<and> address \<ge> 0x08008000 then 2
     else if address < 0x08010000 \<and> address \<ge> 0x0800C000 then 3
     else if address < 0x08020000 \<and> address \<ge> 0x08010000 then 4
     else if address < 0x08040000 \<and> address \<ge> 0x08020000 then 5
     else if address < 0x08060000 \<and> address \<ge> 0x08040000 then 6
     else 7)"

definition stm32_get_sector_size :: "u32 \<Rightarrow> u32" where
  "stm32_get_sector_size sector =
    (if sector = 0 \<or> sector = 1 \<or> sector = 2 \<or> sector = 3 then 16 * 1024 else if sector = 4 then 64 * 1024 else 128 * 1024)"

definition onchip_init :: "('c, 'h) storage \<Rightarrow> int \<times> ('c, 'h) storage" where
  "onchip_init st = (0, st)"

definition onchip_read :: "'h hal \<Rightarrow> u32 \<Rightarrow> bytes \<Rightarrow> u32 \<Rightarrow> ('c, 'h) storage \<Rightarrow> c_fault + int \<times> bytes \<times> ('c, 'h) storage" where
  "onchip_read hal offset buf sz st =
    Inr (sint sz, map (\<lambda>i. flash_byte hal (0x08000000 + offset + word_of_nat i) (onchip st)) [0..<unat sz] @ drop (unat sz) buf, st)"

text \<open>Every byte is read back.\<close>

primrec program_loop :: "'h hal \<Rightarrow> u32 \<Rightarrow> bytes \<Rightarrow> 'h \<Rightarrow> bool \<times> 'h" where
  "program_loop hal addr [] h = (True, h)"
| "program_loop hal addr (b # bs) h =
    (let h = HAL_FLASH_Program hal addr b h
     in if flash_byte hal addr h \<noteq> b then (False, h) else program_loop hal (addr + 1) bs h)"

text \<open>A byte that does not read back ends the write with the flash still unlocked.\<close>

definition onchip_write :: "'h hal \<Rightarrow> u32 \<Rightarrow> bytes \<Rightarrow> u32 \<Rightarrow> ('c, 'h) storage \<Rightarrow> c_fault + int \<times> ('c, 'h) storage" where
  "onchip_write hal offset buf sz st =
    (case program_loop hal (0x08000000 + offset) (take (unat sz) buf) (HAL_FLASH_Clear_Flag hal (HAL_FLASH_Unlock hal (onchip st))) of
       (False, h) \<Rightarrow> Inr (-1, st\<lparr>onchip := h\<rparr>)
     | (True, h) \<Rightarrow> Inr (sint sz, st\<lparr>onchip := HAL_FLASH_Lock hal h\<rparr>))"

text \<open>The erased size counts whole sectors, wherever in its sector the first address is.\<close>

partial_function (option) sector_loop :: "'h hal \<Rightarrow> u32 \<Rightarrow> u32 \<Rightarrow> u32 \<Rightarrow> 'h \<Rightarrow> 'h option" where
  "sector_loop hal addr sz erased_size h =
    (if erased_size < sz then
       (let cur_erase_sector = stm32_get_sector (addr + erased_size)
        in sector_loop hal addr sz (erased_size + stm32_get_sector_size cur_erase_sector) (FLASH_Erase_Sector hal cur_erase_sector h))
     else Some h)"

definition onchip_erase :: "'h hal \<Rightarrow> u32 \<Rightarrow> u32 \<Rightarrow> ('c, 'h) storage \<Rightarrow> c_fault + int \<times> ('c, 'h) storage" where
  "onchip_erase hal offset sz st =
    (case sector_loop hal (0x08000000 + offset) sz 0 (HAL_FLASH_Clear_Flag hal (HAL_FLASH_Unlock hal (onchip st))) of
       None \<Rightarrow> Inl Endless_Loop
     | Some h \<Rightarrow> Inr (sint sz, st\<lparr>onchip := HAL_FLASH_Lock hal h\<rparr>))"

definition stm32f4_onchip_flash :: "'h hal \<Rightarrow> ('c, 'h) storage fal_flash_dev" where
  "stm32f4_onchip_flash hal = \<lparr>dev_name = ''stm32_onchip'', dev_addr = 0x08000000, dev_len = 512 * 1024, dev_blk_size = 128 * 1024,
     dev_write_gran = 8, dev_init = onchip_init, dev_read = onchip_read hal, dev_write = onchip_write hal, dev_erase = onchip_erase hal\<rparr>"

section \<open>Devices and partitions\<close>

definition device_table :: "'c bus \<Rightarrow> 'h hal \<Rightarrow> ('c, 'h) storage \<Rightarrow> ('c, 'h) storage fal_flash_dev list" where
  "device_table wr hal st = [stm32f4_onchip_flash hal, nor_flash0 wr st]"

definition fal_flash_init :: "'c bus \<Rightarrow> 'h hal \<Rightarrow> ('c, 'h) storage \<Rightarrow> int \<times> ('c, 'h) storage" where
  "fal_flash_init wr hal st =
    (if flash_init_ok st then (0, st)
     else (0, (fold (\<lambda>d st. snd (dev_init d st)) (device_table wr hal st) st)\<lparr>flash_init_ok := True\<rparr>))"

text \<open>Names of devices are compared on 24 characters.\<close>

definition fal_flash_device_find :: "'c bus \<Rightarrow> 'h hal \<Rightarrow> string \<Rightarrow> ('c, 'h) storage \<Rightarrow> ('c, 'h) storage fal_flash_dev option" where
  "fal_flash_device_find wr hal name st = find (\<lambda>d. take 24 name = take 24 (dev_name d)) (device_table wr hal st)"

definition partition_table_def :: "fal_partition list" where
  "partition_table_def =
    [\<lparr>part_name = ''boot'', part_flash_name = ''stm32_onchip'', part_offset = 0, part_len = 64 * 1024\<rparr>,
     \<lparr>part_name = ''app'', part_flash_name = ''stm32_onchip'', part_offset = 64 * 1024, part_len = 448 * 1024\<rparr>,
     \<lparr>part_name = ''easyflash'', part_flash_name = ''norflash0'', part_offset = 0, part_len = 1024 * 1024\<rparr>,
     \<lparr>part_name = ''factory'', part_flash_name = ''norflash0'', part_offset = 1024 * 1024, part_len = 512 * 1024\<rparr>,
     \<lparr>part_name = ''download'', part_flash_name = ''norflash0'', part_offset = 1536 * 1024, part_len = 512 * 1024\<rparr>]"

text \<open>Offsets are compared as signed numbers; a table with a partition that starts behind its device is not used at all.\<close>

definition fal_partition_init :: "'c bus \<Rightarrow> 'h hal \<Rightarrow> ('c, 'h) storage \<Rightarrow> int \<times> ('c, 'h) storage" where
  "fal_partition_init wr hal st =
    (if part_init_ok st then (int (length (partition_table st)), st)
     else if list_ex (\<lambda>p. case fal_flash_device_find wr hal (part_flash_name p) st of
                            None \<Rightarrow> False
                          | Some d \<Rightarrow> sint (part_offset p) \<ge> sint (dev_len d)) partition_table_def
     then (0, st\<lparr>partition_table := []\<rparr>)
     else (int (length partition_table_def), st\<lparr>partition_table := partition_table_def, part_init_ok := True\<rparr>))"

definition fal_partition_find :: "string \<Rightarrow> ('c, 'h) storage \<Rightarrow> fal_partition option" where
  "fal_partition_find name st = find (\<lambda>p. part_name p = name) (partition_table st)"

definition fal_get_partition_table :: "('c, 'h) storage \<Rightarrow> fal_partition list \<times> nat" where
  "fal_get_partition_table st = (partition_table st, length (partition_table st))"

definition fal_set_partition_table_temp :: "fal_partition list \<Rightarrow> ('c, 'h) storage \<Rightarrow> ('c, 'h) storage" where
  "fal_set_partition_table_temp tab st = st\<lparr>partition_table := tab\<rparr>"

text \<open>The sum of address and size is unsigned 32-bit and can wrap.\<close>

definition part_read :: "'c bus \<Rightarrow> 'h hal \<Rightarrow> fal_partition \<Rightarrow> u32 \<Rightarrow> bytes \<Rightarrow> u32 \<Rightarrow> ('c, 'h) storage \<Rightarrow> c_fault + int \<times> bytes \<times> ('c, 'h) storage" where
  "part_read wr hal part addr buf sz st =
    (if addr + sz > part_len part then Inr (-1, buf, st)
     else case fal_flash_device_find wr hal (part_flash_name part) st of
       None \<Rightarrow> Inr (-1, buf, st)
     | Some d \<Rightarrow> dev_read d (part_offset part + addr) buf sz st)"

definition part_write :: "'c bus \<Rightarrow> 'h hal \<Rightarrow> fal_partition \<Rightarrow> u32 \<Rightarrow> bytes \<Rightarrow> u32 \<Rightarrow> ('c, 'h) storage \<Rightarrow> c_fault + int \<times> ('c, 'h) storage" where
  "part_write wr hal part addr buf sz st =
    (if addr + sz > part_len part then Inr (-1, st)
     else case fal_flash_device_find wr hal (part_flash_name part) st of
       None \<Rightarrow> Inr (-1, st)
     | Some d \<Rightarrow> dev_write d (part_offset part + addr) buf sz st)"

definition part_erase :: "'c bus \<Rightarrow> 'h hal \<Rightarrow> fal_partition \<Rightarrow> u32 \<Rightarrow> u32 \<Rightarrow> ('c, 'h) storage \<Rightarrow> c_fault + int \<times> ('c, 'h) storage" where
  "part_erase wr hal part addr sz st =
    (if addr + sz > part_len part then Inr (-1, st)
     else case fal_flash_device_find wr hal (part_flash_name part) st of
       None \<Rightarrow> Inr (-1, st)
     | Some d \<Rightarrow> dev_erase d (part_offset part + addr) sz st)"

definition part_erase_all :: "'c bus \<Rightarrow> 'h hal \<Rightarrow> fal_partition \<Rightarrow> ('c, 'h) storage \<Rightarrow> c_fault + int \<times> ('c, 'h) storage" where
  "part_erase_all wr hal part st = part_erase wr hal part 0 (part_len part) st"

definition fal_init :: "'c bus \<Rightarrow> 'h hal \<Rightarrow> ('c, 'h) storage \<Rightarrow> int \<times> ('c, 'h) storage" where
  "fal_init wr hal st =
    (case (case fal_flash_init wr hal st of (result, st) \<Rightarrow> if result < 0 then (result, st) else fal_partition_init wr hal st) of
       (result, st) \<Rightarrow>
         (result, if result > 0 \<and> \<not> fal_init_ok st then st\<lparr>fal_init_ok := True\<rparr>
                  else if result \<le> 0 then st\<lparr>fal_init_ok := False\<rparr> else st))"

definition fal_init_check :: "('c, 'h) storage \<Rightarrow> bool" where
  "fal_init_check st = fal_init_ok st"

section \<open>The port of the key-value store, and start-up\<close>

text \<open>The partition is looked up once; without it the assertion of the library does not end.\<close>

definition ef_port_init :: "('c, 'h) storage \<Rightarrow> c_fault + ('c, 'h) storage" where
  "ef_port_init st =
    (let st = st\<lparr>ef_part := fal_partition_find ''easyflash'' st\<rparr>
     in if ef_part st = None then Inl Endless_Loop else Inr st)"

text \<open>What \<open>ef_port_read\<close>, \<open>ef_port_write\<close> and \<open>ef_port_erase\<close> of \<open>Ef_Flash\<close> are, down to the bus.\<close>

definition stack_read :: "'c bus \<Rightarrow> 'h hal \<Rightarrow> u32 \<Rightarrow> bytes \<Rightarrow> u32 \<Rightarrow> ('c, 'h) storage \<Rightarrow> c_fault + EfErrCode \<times> bytes \<times> ('c, 'h) storage" where
  "stack_read wr hal addr buf sz st =
    (case ef_part st of
       None \<Rightarrow> Inl Null_Pointer
     | Some part \<Rightarrow> (case part_read wr hal part addr buf sz st of
         Inl e \<Rightarrow> Inl e
       | Inr (_, buf, st) \<Rightarrow> Inr (EF_NO_ERR, buf, st)))"

definition stack_write :: "'c bus \<Rightarrow> 'h hal \<Rightarrow> u32 \<Rightarrow> bytes \<Rightarrow> u32 \<Rightarrow> ('c, 'h) storage \<Rightarrow> c_fault + EfErrCode \<times> ('c, 'h) storage" where
  "stack_write wr hal addr buf sz st =
    (case ef_part st of
       None \<Rightarrow> Inl Null_Pointer
     | Some part \<Rightarrow> (case part_write wr hal part addr buf sz st of
         Inl e \<Rightarrow> Inl e
       | Inr (ret, st) \<Rightarrow> Inr (if ret < 0 then EF_WRITE_ERR else EF_NO_ERR, st)))"

text \<open>An address that is no multiple of the sector size ends in the assertion.\<close>

definition stack_erase :: "'c bus \<Rightarrow> 'h hal \<Rightarrow> u32 \<Rightarrow> u32 \<Rightarrow> ('c, 'h) storage \<Rightarrow> c_fault + EfErrCode \<times> ('c, 'h) storage" where
  "stack_erase wr hal addr sz st =
    (if addr mod 131072 \<noteq> 0 then Inl Endless_Loop
     else case ef_part st of
       None \<Rightarrow> Inl Null_Pointer
     | Some part \<Rightarrow> (case part_erase wr hal part addr sz st of
         Inl e \<Rightarrow> Inl e
       | Inr (ret, st) \<Rightarrow> Inr (if ret < 0 then EF_ERASE_ERR else EF_NO_ERR, st)))"

text \<open>\<open>flash_Init\<close> of \<open>src/applications/flashwork.c\<close> until the key-value store itself starts, with the first call of that.\<close>

definition flash_Init :: "'c bus \<Rightarrow> 'h hal \<Rightarrow> ('c, 'h) storage \<Rightarrow> c_fault + bool \<times> ('c, 'h) storage" where
  "flash_Init wr hal st =
    (case rt_sfud_flash_probe wr (serial st) of
       (None, c) \<Rightarrow> Inr (False, st\<lparr>serial := c\<rparr>)
     | (Some sf, c) \<Rightarrow>
         (case fal_init wr hal (st\<lparr>serial := c, block_dev := Some sf\<rparr>) of
            (status, st) \<Rightarrow>
              if status = 0 then Inr (False, st)
              else case ef_port_init st of Inl e \<Rightarrow> Inl e | Inr st \<Rightarrow> Inr (True, st)))"

text \<open>The variables at power-on.\<close>

definition power_on :: "'c \<Rightarrow> 'h \<Rightarrow> ('c, 'h) storage" where
  "power_on c h = \<lparr>nor_len = 8 * 1024 * 1024, nor_blk_size = 4096, sfud_dev = None, block_dev = None, flash_init_ok = False,
     part_init_ok = False, fal_init_ok = False, partition_table = [], ef_part = None, serial = c, onchip = h\<rparr>"

end
