(* ===== verification/Fal_Stack.thy ===== *)
theory Fal_Stack
  imports Fal
begin

text \<open>
  The layers together: what the store and the downloads do to a partition arrives in the chip as one write, one erase or one read
  of a NOR flash, which is what \<open>Ef_Flash\<close> and \<open>Ota\<close> take the flash to be.
\<close>

section \<open>A partition of the serial flash\<close>

lemma sint_of_size: "n < 2 ^ 31 \<Longrightarrow> sint (word_of_nat n :: u32) = int n"
  by (simp add: signed_of_nat signed_take_bit_int_eq_self)

lemma nor_write_burn: "nor_write a d \<lparr>cells = m, dead = False\<rparr> = (True, \<lparr>cells = burn a d m, dead = False\<rparr>)"
  by (simp add: nor_write_def burn_def fun_eq_iff)

lemma nor_erase_wipe: "nor_erase a n \<lparr>cells = m, dead = False\<rparr> = (True, \<lparr>cells = wipe a n m, dead = False\<rparr>)"
  by (simp add: nor_erase_def wipe_def fun_eq_iff)

definition ready :: "('c \<Rightarrow> nat) \<Rightarrow> nat \<Rightarrow> ('c, 'h) storage \<Rightarrow> bool" where
  "ready busy lim st \<longleftrightarrow> (case sfud_dev st of None \<Rightarrow> False | Some sf \<Rightarrow> driven lim sf) \<and> busy (serial st) = 0"

definition on_nor :: "fal_partition \<Rightarrow> bool" where
  "on_nor p \<longleftrightarrow> part_flash_name p = ''norflash0'' \<and> unat (part_offset p) + unat (part_len p) \<le> 0x200000 \<and> part_len p \<noteq> 0x200000"

lemma nor_found: "on_nor p \<Longrightarrow> fal_flash_device_find wr hal (part_flash_name p) st = Some (nor_flash0 wr st)"
  by (simp add: on_nor_def fal_flash_device_find_def device_table_def stm32f4_onchip_flash_def nor_flash0_def)

lemma ready_device: "ready busy lim st \<Longrightarrow> \<exists>sf. sfud_dev st = Some sf \<and> driven lim sf \<and> busy (serial st) = 0"
  by (auto simp: ready_def split: option.splits)

lemma bound_check:
  assumes "a + n < 2 ^ 32"
  shows "(word_of_nat a + word_of_nat n > part_len p) \<longleftrightarrow> unat (part_len p) < a + n"
proof -
  have "unat (word_of_nat a + word_of_nat n :: u32) = a + n" using w32_nat [OF assms] by simp
  then show ?thesis by (simp add: word_less_nat_alt)
qed

lemma at_offset: "part_offset p + word_of_nat a = word_of_nat (unat (part_offset p) + a)"
  by simp

lemma ready_serial: "ready busy lim st \<Longrightarrow> busy c = 0 \<Longrightarrow> ready busy lim (st\<lparr>serial := c\<rparr>)"
  by (simp add: ready_def)

context spi_nor
begin

lemma part_write_ok:
  assumes st: "ready busy lim st" and p: "on_nor p" and a: "a + length d \<le> unat (part_len p)"
  shows "\<exists>c. part_write wr hal p (word_of_nat a) d (word_of_nat (length d)) st = Inr (int (length d), st\<lparr>serial := c\<rparr>) \<and>
    busy c = 0 \<and> mem c = burn (unat (part_offset p) + a) d (mem (serial st))"
proof -
  obtain sf where sf: "sfud_dev st = Some sf" "driven lim sf" "busy (serial st) = 0" using ready_device [OF st] by blast
  have le: "unat (part_offset p) + a + length d \<le> 0x200000" using p a by (simp add: on_nor_def)
  obtain c where "sfud_write wr sf (word_of_nat (unat (part_offset p) + a)) (word_of_nat (length d)) d (serial st) = Some (SFUD_SUCCESS, c)"
    "busy c = 0" "mem c = burn (unat (part_offset p) + a) d (mem (serial st))" using write_ok [OF sf(2) le sf(3)] by blast
  then show ?thesis using sf(1) a le bound_check [of a "length d" p] sint_of_size [of "length d"]
    by (intro exI [of _ c]) (simp add: part_write_def nor_found [OF p] nor_flash0_def sfud_port_write_def)
qed

lemma part_erase_ok:
  assumes st: "ready busy lim st" and p: "on_nor p" and a: "a + n \<le> unat (part_len p)"
  shows "\<exists>c. part_erase wr hal p (word_of_nat a) (word_of_nat n) st = Inr (int n, st\<lparr>serial := c\<rparr>) \<and>
    busy c = 0 \<and> mem c = wipe (unat (part_offset p) + a) n (mem (serial st))"
proof -
  obtain sf where sf: "sfud_dev st = Some sf" "driven lim sf" "busy (serial st) = 0" using ready_device [OF st] by blast
  have le: "unat (part_offset p) + a + n \<le> 0x200000" using p a by (simp add: on_nor_def)
  have "unat (part_len p) \<noteq> 0x200000" using p by (auto simp: on_nor_def word_unat_eq_iff)
  then have "n \<noteq> 0x200000" using p a by (auto simp: on_nor_def)
  then obtain c where "sfud_erase wr sf (word_of_nat (unat (part_offset p) + a)) (word_of_nat n) (serial st) = Some (SFUD_SUCCESS, c)"
    "busy c = 0" "mem c = wipe (unat (part_offset p) + a) n (mem (serial st))" using erase_ok [OF sf(2) le _ sf(3)] by blast
  then show ?thesis using sf(1) a le bound_check [of a n p] sint_of_size [of n]
    by (intro exI [of _ c]) (simp add: part_erase_def nor_found [OF p] nor_flash0_def sfud_port_erase_def)
qed

lemma part_read_ok:
  assumes st: "ready busy lim st" and p: "on_nor p" and a: "a + length buf \<le> unat (part_len p)"
  shows "\<exists>c. part_read wr hal p (word_of_nat a) buf (word_of_nat (length buf)) st
      = Inr (int (length buf), map (\<lambda>i. mem (serial st) (unat (part_offset p) + a + i)) [0..<length buf], st\<lparr>serial := c\<rparr>) \<and>
    busy c = 0 \<and> mem c = mem (serial st)"
proof -
  obtain sf where sf: "sfud_dev st = Some sf" "driven lim sf" "busy (serial st) = 0" using ready_device [OF st] by blast
  have le: "unat (part_offset p) + a + length buf \<le> 0x200000" using p a by (simp add: on_nor_def)
  obtain c where "sfud_read wr sf (word_of_nat (unat (part_offset p) + a)) (word_of_nat (length buf)) (serial st)
      = (SFUD_SUCCESS, map (\<lambda>i. mem (serial st) (unat (part_offset p) + a + i)) [0..<length buf], c)"
    "busy c = 0" "mem c = mem (serial st)" using read_ok [OF sf(2) le sf(3)] by blast
  then show ?thesis using sf(1) a le bound_check [of a "length buf" p] sint_of_size [of "length buf"]
    by (intro exI [of _ c]) (simp add: part_read_def nor_found [OF p] nor_flash0_def sfud_port_read_def)
qed

end

lemma part_out_of_bounds:
  assumes "a + n < 2 ^ 32" "unat (part_len p) < a + n"
  shows "part_write wr hal p (word_of_nat a) d (word_of_nat n) st = Inr (-1, st)"
    and "part_erase wr hal p (word_of_nat a) (word_of_nat n) st = Inr (-1, st)"
  using bound_check [OF assms(1), of p] assms(2) by (simp_all add: part_write_def part_erase_def)

section \<open>Start-up\<close>

definition stack_ready :: "('c \<Rightarrow> nat) \<Rightarrow> nat \<Rightarrow> ('c, 'h) storage \<Rightarrow> bool" where
  "stack_ready busy lim st \<longleftrightarrow> ready busy lim st \<and> ef_part st = Some (partition_table_def ! 2)"

lemma fal_init_ready:
  assumes "driven lim sf" "busy c = 0"
  shows "\<exists>st. fal_init wr hal ((power_on c0 h)\<lparr>serial := c, block_dev := Some sf\<rparr>) = (5, st) \<and> ready busy lim st \<and>
    partition_table st = partition_table_def \<and> serial st = c \<and> onchip st = h \<and> fal_init_ok st"
  using assms
  by (simp add: fal_init_def fal_flash_init_def device_table_def stm32f4_onchip_flash_def onchip_init_def nor_flash0_def sfud_port_init_def
      power_on_def fal_partition_init_def fal_flash_device_find_def partition_table_def_def ready_def driven_def)

lemma stack_partition: "stack_ready busy lim st \<Longrightarrow> ready busy lim st \<and> (\<exists>p. ef_part st = Some p \<and> on_nor p \<and> part_offset p = 0 \<and> unat (part_len p) = ef_len)"
  by (simp add: stack_ready_def on_nor_def partition_table_def_def)

lemma stack_serial: "stack_ready busy lim st \<Longrightarrow> busy c = 0 \<Longrightarrow> stack_ready busy lim (st\<lparr>serial := c\<rparr>)"
  by (simp add: stack_ready_def ready_serial)

section \<open>The store on the chip\<close>

datatype ef_op = Ef_Read nat nat | Ef_Write nat bytes | Ef_Erase nat nat

text \<open>
  Accesses as the store makes them: a read stays in the partition, an erase starts at a sector; a write or an erase may leave the
  partition and is refused.
\<close>

fun ef_op_ok :: "ef_op \<Rightarrow> bool" where
  "ef_op_ok (Ef_Read a n) \<longleftrightarrow> a + n \<le> ef_len"
| "ef_op_ok (Ef_Write a d) \<longleftrightarrow> a + length d < 2 ^ 32"
| "ef_op_ok (Ef_Erase a n) \<longleftrightarrow> a mod 131072 = 0 \<and> a + n < 2 ^ 32"

fun nor_op :: "ef_op \<Rightarrow> nor \<Rightarrow> EfErrCode \<times> bytes \<times> nor" where
  "nor_op (Ef_Read a n) f = (EF_NO_ERR, ef_port_read a n f, f)"
| "nor_op (Ef_Write a d) f = (case ef_port_write a d f of (e, f) \<Rightarrow> (e, [], f))"
| "nor_op (Ef_Erase a n) f = (case ef_port_erase a n f of (e, f) \<Rightarrow> (e, [], f))"

fun stack_op :: "'c bus \<Rightarrow> 'h hal \<Rightarrow> ef_op \<Rightarrow> ('c, 'h) storage \<Rightarrow> c_fault + EfErrCode \<times> bytes \<times> ('c, 'h) storage" where
  "stack_op wr hal (Ef_Read a n) st = stack_read wr hal (word_of_nat a) (replicate n 0) (word_of_nat n) st"
| "stack_op wr hal (Ef_Write a d) st =
    (case stack_write wr hal (word_of_nat a) d (word_of_nat (length d)) st of Inl e \<Rightarrow> Inl e | Inr (e, st) \<Rightarrow> Inr (e, [], st))"
| "stack_op wr hal (Ef_Erase a n) st =
    (case stack_erase wr hal (word_of_nat a) (word_of_nat n) st of Inl e \<Rightarrow> Inl e | Inr (e, st) \<Rightarrow> Inr (e, [], st))"

primrec nor_run :: "ef_op list \<Rightarrow> nor \<Rightarrow> (EfErrCode \<times> bytes) list \<times> nor" where
  "nor_run [] f = ([], f)"
| "nor_run (x # xs) f = (case nor_op x f of (e, b, f) \<Rightarrow> case nor_run xs f of (rs, f) \<Rightarrow> ((e, b) # rs, f))"

primrec stack_run :: "'c bus \<Rightarrow> 'h hal \<Rightarrow> ef_op list \<Rightarrow> ('c, 'h) storage \<Rightarrow> c_fault + (EfErrCode \<times> bytes) list \<times> ('c, 'h) storage" where
  "stack_run wr hal [] st = Inr ([], st)"
| "stack_run wr hal (x # xs) st =
    (case stack_op wr hal x st of
       Inl e \<Rightarrow> Inl e
     | Inr (e, b, st) \<Rightarrow> (case stack_run wr hal xs st of Inl e \<Rightarrow> Inl e | Inr (rs, st) \<Rightarrow> Inr ((e, b) # rs, st)))"

abbreviation (input) nor_of :: "('c \<Rightarrow> memory) \<Rightarrow> ('c, 'h) storage \<Rightarrow> nor" where
  "nor_of mem st \<equiv> \<lparr>cells = mem (serial st), dead = False\<rparr>"

context spi_nor
begin

lemma stack_write_nor:
  assumes st: "stack_ready busy lim st" and a: "a + length d < 2 ^ 32"
  shows "\<exists>st'. stack_op wr hal (Ef_Write a d) st = Inr (fst (ef_port_write a d (nor_of mem st)), [], st') \<and> stack_ready busy lim st' \<and>
    nor_of mem st' = snd (ef_port_write a d (nor_of mem st))"
proof -
  obtain p where p: "ready busy lim st" "ef_part st = Some p" "on_nor p" "part_offset p = 0" "unat (part_len p) = ef_len"
    using stack_partition [OF st] by blast
  show ?thesis
  proof (cases "a + length d \<le> ef_len")
    case True
    obtain c where "part_write wr hal p (word_of_nat a) d (word_of_nat (length d)) st = Inr (int (length d), st\<lparr>serial := c\<rparr>)" "busy c = 0"
      "mem c = burn a d (mem (serial st))" using part_write_ok [OF p(1,3), of a d hal] True p(4,5) by auto
    then show ?thesis using True p(2) stack_serial [OF st]
      by (intro exI [of _ "st\<lparr>serial := c\<rparr>"]) (simp add: stack_write_def ef_port_write_def nor_write_burn)
  next
    case False
    then show ?thesis using st p(2,5) part_out_of_bounds(1) [OF a, of p wr hal d st]
      by (simp add: stack_write_def ef_port_write_def)
  qed
qed

lemma stack_erase_nor:
  assumes st: "stack_ready busy lim st" and a: "a mod 131072 = 0" "a + n < 2 ^ 32"
  shows "\<exists>st'. stack_op wr hal (Ef_Erase a n) st = Inr (fst (ef_port_erase a n (nor_of mem st)), [], st') \<and> stack_ready busy lim st' \<and>
    nor_of mem st' = snd (ef_port_erase a n (nor_of mem st))"
proof -
  obtain p where p: "ready busy lim st" "ef_part st = Some p" "on_nor p" "part_offset p = 0" "unat (part_len p) = ef_len"
    using stack_partition [OF st] by blast
  have aligned: "(word_of_nat a :: u32) mod 131072 = 0" using w32_mod [of a 131072] a by simp
  show ?thesis
  proof (cases "a + n \<le> ef_len")
    case True
    obtain c where "part_erase wr hal p (word_of_nat a) (word_of_nat n) st = Inr (int n, st\<lparr>serial := c\<rparr>)" "busy c = 0"
      "mem c = wipe a n (mem (serial st))" using part_erase_ok [OF p(1,3), of a n hal] True p(4,5) by auto
    then show ?thesis using True p(2) aligned stack_serial [OF st]
      by (intro exI [of _ "st\<lparr>serial := c\<rparr>"]) (simp add: stack_erase_def ef_port_erase_def nor_erase_wipe)
  next
    case False
    then show ?thesis using st p(2,5) aligned part_out_of_bounds(2) [OF a(2), of p wr hal st]
      by (simp add: stack_erase_def ef_port_erase_def)
  qed
qed

lemma stack_read_nor:
  assumes st: "stack_ready busy lim st" and a: "a + n \<le> ef_len"
  shows "\<exists>st'. stack_op wr hal (Ef_Read a n) st = Inr (EF_NO_ERR, ef_port_read a n (nor_of mem st), st') \<and> stack_ready busy lim st' \<and>
    nor_of mem st' = nor_of mem st"
proof -
  obtain p where p: "ready busy lim st" "ef_part st = Some p" "on_nor p" "part_offset p = 0" "unat (part_len p) = ef_len"
    using stack_partition [OF st] by blast
  obtain c where "part_read wr hal p (word_of_nat a) (replicate n 0) (word_of_nat n) st
      = Inr (int n, map (\<lambda>i. mem (serial st) (a + i)) [0..<n], st\<lparr>serial := c\<rparr>)" "busy c = 0" "mem c = mem (serial st)"
    using part_read_ok [OF p(1,3), of a "replicate n 0" hal] a p(4,5) by auto
  then show ?thesis using p(2) stack_serial [OF st]
    by (intro exI [of _ "st\<lparr>serial := c\<rparr>"]) (simp add: stack_read_def ef_port_read_def)
qed

lemma stack_op_nor:
  assumes "stack_ready busy lim st" "ef_op_ok x"
  shows "\<exists>e b f st'. nor_op x (nor_of mem st) = (e, b, f) \<and> stack_op wr hal x st = Inr (e, b, st') \<and> stack_ready busy lim st' \<and> nor_of mem st' = f"
proof (cases x)
  case (Ef_Read a n)
  then show ?thesis using stack_read_nor [OF assms(1), of a n hal] assms(2) by auto
next
  case (Ef_Write a d)
  then show ?thesis using stack_write_nor [OF assms(1), of a d hal] assms(2) by (cases "ef_port_write a d (nor_of mem st)") auto
next
  case (Ef_Erase a n)
  then show ?thesis using stack_erase_nor [OF assms(1), of a n hal] assms(2) by (cases "ef_port_erase a n (nor_of mem st)") auto
qed

lemma stack_run_nor:
  "stack_ready busy lim st \<Longrightarrow> list_all ef_op_ok xs \<Longrightarrow>
    \<exists>st'. stack_run wr hal xs st = Inr (fst (nor_run xs (nor_of mem st)), st') \<and> stack_ready busy lim st' \<and> nor_of mem st' = snd (nor_run xs (nor_of mem st))"
proof (induction xs arbitrary: st)
  case (Cons x xs)
  then have "stack_ready busy lim st" "ef_op_ok x" by simp_all
  from stack_op_nor [OF this] obtain e b f st1 where 1: "nor_op x (nor_of mem st) = (e, b, f)" "stack_op wr hal x st = Inr (e, b, st1)"
    "stack_ready busy lim st1" "nor_of mem st1 = f" by blast
  then obtain st2 where "stack_run wr hal xs st1 = Inr (fst (nor_run xs f), st2)" "stack_ready busy lim st2" "nor_of mem st2 = snd (nor_run xs f)"
    using Cons.IH [OF 1(3)] Cons.prems(2) by auto
  then show ?case using 1(1,2) by (auto simp: case_prod_beta)
qed simp

end

lemma download_partition: "on_nor (partition_table_def ! 4)" "part_len (partition_table_def ! 4) = dl_len" "unat (part_offset (partition_table_def ! 4)) = dl_offset"
  by (simp_all add: on_nor_def partition_table_def_def)

context spi_nor
begin

lemma flash_Init_ready:
  assumes id: "chip_id = [0xA1, 0x40, 0x15]" and lim: "lim \<le> 600000" and c: "busy c = 0"
  shows "\<exists>st. flash_Init wr hal (power_on c h) = Inr (True, st) \<and> stack_ready busy lim st \<and> mem (serial st) = mem c"
proof -
  obtain sf c1 where sf: "rt_sfud_flash_probe wr c = (Some sf, c1)" "driven lim sf" "busy c1 = 0" "mem c1 = mem c"
    using probe_ok [OF id lim c] by blast
  obtain st1 where st1: "fal_init wr hal ((power_on c h)\<lparr>serial := c1, block_dev := Some sf\<rparr>) = (5, st1)" "ready busy lim st1"
    "partition_table st1 = partition_table_def" "serial st1 = c1"
    using fal_init_ready [of lim sf busy c1 wr hal c h] sf(2,3) by blast
  have "fal_partition_find ''easyflash'' st1 = Some (partition_table_def ! 2)"
    using st1(3) by (simp add: fal_partition_find_def partition_table_def_def)
  then have "flash_Init wr hal (power_on c h) = Inr (True, st1\<lparr>ef_part := Some (partition_table_def ! 2)\<rparr>)"
    using sf(1) st1(1) by (simp add: flash_Init_def ef_port_init_def power_on_def)
  then show ?thesis using st1(2,4) sf(4)
    by (intro exI [of _ "st1\<lparr>ef_part := Some (partition_table_def ! 2)\<rparr>"]) (simp add: stack_ready_def ready_def)
qed

lemma download_write_nor:
  assumes st: "ready busy lim st" and a: "a + length d < 2 ^ 32"
  shows "\<exists>ret st'. part_write wr hal (partition_table_def ! 4) (word_of_nat a) d (word_of_nat (length d)) st = Inr (ret, st') \<and> ready busy lim st' \<and>
    fal_partition_write (word_of_nat a) d (word_of_nat (length d)) (nor_of mem st) = (0 \<le> ret, nor_of mem st')"
proof (cases "a + length d \<le> 0x80000")
  case True
  then obtain c where "part_write wr hal (partition_table_def ! 4) (word_of_nat a) d (word_of_nat (length d)) st = Inr (int (length d), st\<lparr>serial := c\<rparr>)"
    "busy c = 0" "mem c = burn (dl_offset + a) d (mem (serial st))" using part_write_ok [OF st download_partition(1), of a d hal] download_partition by auto
  then show ?thesis using True ready_serial [OF st] bound_check [OF a, of "partition_table_def ! 4"] download_partition w32_nat [of a] w32_nat [of "length d"]
    by (intro exI [of _ "int (length d)"] exI [of _ "st\<lparr>serial := c\<rparr>"]) (simp add: Ota.fal_partition_write_def nor_write_burn)
next
  case False
  then show ?thesis using st part_out_of_bounds(1) [OF a, of "partition_table_def ! 4"] bound_check [OF a, of "partition_table_def ! 4"] download_partition
    by (intro exI [of _ "-1"] exI [of _ st]) (simp add: Ota.fal_partition_write_def)
qed

lemma download_erase_nor:
  assumes st: "ready busy lim st" and a: "a + n < 2 ^ 32"
  shows "\<exists>ret st'. part_erase wr hal (partition_table_def ! 4) (word_of_nat a) (word_of_nat n) st = Inr (ret, st') \<and> ready busy lim st' \<and>
    fal_partition_erase (word_of_nat a) (word_of_nat n) (nor_of mem st) = (0 \<le> ret, nor_of mem st')"
proof (cases "a + n \<le> 0x80000")
  case True
  then obtain c where "part_erase wr hal (partition_table_def ! 4) (word_of_nat a) (word_of_nat n) st = Inr (int n, st\<lparr>serial := c\<rparr>)"
    "busy c = 0" "mem c = wipe (dl_offset + a) n (mem (serial st))" using part_erase_ok [OF st download_partition(1), of a n hal] download_partition by auto
  then show ?thesis using True ready_serial [OF st] bound_check [OF a, of "partition_table_def ! 4"] download_partition w32_nat [of a] w32_nat [of n]
    by (intro exI [of _ "int n"] exI [of _ "st\<lparr>serial := c\<rparr>"]) (simp add: Ota.fal_partition_erase_def nor_erase_wipe)
next
  case False
  then show ?thesis using st part_out_of_bounds(2) [OF a, of "partition_table_def ! 4"] bound_check [OF a, of "partition_table_def ! 4"] download_partition
    by (intro exI [of _ "-1"] exI [of _ st]) (simp add: Ota.fal_partition_erase_def)
qed

end

section \<open>The flash of the processor\<close>

definition sector_base :: "nat list" where
  "sector_base = [0, 0x4000, 0x8000, 0xC000, 0x10000, 0x20000, 0x40000, 0x60000, 0x80000]"

lemma eight_sectors: "k < 8 \<Longrightarrow> k = 0 \<or> k = 1 \<or> k = 2 \<or> k = 3 \<or> k = 4 \<or> k = 5 \<or> k = 6 \<or> k = (7 :: nat)"
  by arith

lemma sector_of_base:
  "k < 8 \<Longrightarrow> stm32_get_sector (0x08000000 + word_of_nat (sector_base ! k)) = word_of_nat k"
  "k < 8 \<Longrightarrow> stm32_get_sector_size (word_of_nat k) = word_of_nat (sector_base ! Suc k - sector_base ! k)"
  "k < 8 \<Longrightarrow> sector_base ! k < sector_base ! Suc k"
  by (drule eight_sectors, elim disjE; simp add: stm32_get_sector_def stm32_get_sector_size_def sector_base_def)+

lemma sector_base_mono: "i \<le> k \<Longrightarrow> k \<le> 8 \<Longrightarrow> sector_base ! i \<le> sector_base ! k"
proof (induction k rule: dec_induct)
  case (step k)
  then show ?case using sector_of_base(3) [of k] by simp
qed simp

lemma sector_base_le: "k \<le> 8 \<Longrightarrow> sector_base ! k \<le> 0x80000"
  using sector_base_mono [of k 8] by (simp add: sector_base_def)

lemma sector_loop_from:
  assumes "i \<le> k" "k \<le> 8" "sector_base ! i + n \<le> 0x80000"
  shows "sector_loop hal (0x08000000 + word_of_nat (sector_base ! i)) (word_of_nat n) (word_of_nat (sector_base ! k - sector_base ! i)) h
    = Some (fold (\<lambda>j. FLASH_Erase_Sector hal (word_of_nat j)) (filter (\<lambda>j. sector_base ! j < sector_base ! i + n) [k..<8]) h)"
  using assms(2,1)
proof (induction k arbitrary: h rule: inc_induct)
  case base
  have "\<not> (word_of_nat (sector_base ! 8 - sector_base ! i) :: u32) < word_of_nat n"
    using assms(3) w32_less [of "sector_base ! 8 - sector_base ! i" n] by (simp add: sector_base_def)
  then show ?case by (subst sector_loop.simps) simp
next
  case (step k)
  let ?b = "sector_base ! i" and ?k = "sector_base ! k" and ?s = "sector_base ! Suc k"
  have le: "?b \<le> ?k" "?k < ?s" "?s \<le> 0x80000" using step sector_base_mono [of i k] sector_of_base(3) [of k] sector_base_le [of "Suc k"] by simp_all
  have less: "(word_of_nat (?k - ?b) :: u32) < word_of_nat n \<longleftrightarrow> ?k < ?b + n"
    using le assms(3) w32_less [of "?k - ?b" n] by auto
  have at: "stm32_get_sector (0x08000000 + word_of_nat ?b + word_of_nat (?k - ?b)) = word_of_nat k"
    using le(1) sector_of_base(1) [OF step.hyps(2)] by (simp add: of_nat_diff add.assoc)
  have nxt: "word_of_nat (?k - ?b) + word_of_nat (?s - ?k) = (word_of_nat (?s - ?b) :: u32)" using le by (simp add: of_nat_diff)
  show ?case
  proof (cases "?k < ?b + n")
    case True
    then show ?thesis using less step.IH step.prems step.hyps at nxt sector_of_base(2) [of k]
      by (subst sector_loop.simps) (simp add: Let_def upt_conv_Cons)
  next
    case False
    have "filter (\<lambda>j. sector_base ! j < ?b + n) [k..<8] = []"
      using False sector_base_mono [of k] by (fastforce simp: filter_empty_conv)
    then show ?thesis using False less by (subst sector_loop.simps) simp
  qed
qed

text \<open>An erase that starts on a sector erases exactly the sectors its range touches, in order.\<close>

lemma onchip_erase_sectors:
  assumes "i < 8" "sector_base ! i + n \<le> 0x80000"
  shows "onchip_erase hal (word_of_nat (sector_base ! i)) (word_of_nat n) st = Inr (int n, st\<lparr>onchip := HAL_FLASH_Lock hal
    (fold (\<lambda>j. FLASH_Erase_Sector hal (word_of_nat j)) (filter (\<lambda>j. sector_base ! j < sector_base ! i + n) [i..<8])
      (HAL_FLASH_Clear_Flag hal (HAL_FLASH_Unlock hal (onchip st))))\<rparr>)"
  using sector_loop_from [of i i n hal] assms sint_of_size [of n] by (simp add: onchip_erase_def)

text \<open>
  One that starts inside a sector counts the whole sector: the 8 KB from \<open>0x3000\<close> of the boot partition are reported as erased, their
  second half is in sector 1, which is not.
\<close>

lemma onchip_erase_misses_tail:
  "part_erase wr hal (partition_table_def ! 0) 0x3000 0x2000 st = Inr (0x2000, st\<lparr>onchip := HAL_FLASH_Lock hal
     (FLASH_Erase_Sector hal 0 (HAL_FLASH_Clear_Flag hal (HAL_FLASH_Unlock hal (onchip st))))\<rparr>)"
  "stm32_get_sector (0x08000000 + 0x3000) = 0" "stm32_get_sector (0x08000000 + (0x3000 + 0x2000 - 1)) = 1"
proof -
  have "sector_loop hal 0x08003000 0x2000 0 h = Some (FLASH_Erase_Sector hal 0 h)" for h
    by (subst sector_loop.simps, subst sector_loop.simps) (simp add: stm32_get_sector_def stm32_get_sector_size_def)
  then show "part_erase wr hal (partition_table_def ! 0) 0x3000 0x2000 st = Inr (0x2000, st\<lparr>onchip := HAL_FLASH_Lock hal
     (FLASH_Erase_Sector hal 0 (HAL_FLASH_Clear_Flag hal (HAL_FLASH_Unlock hal (onchip st))))\<rparr>)"
    by (simp add: part_erase_def partition_table_def_def fal_flash_device_find_def device_table_def stm32f4_onchip_flash_def onchip_erase_def)
qed (simp_all add: stm32_get_sector_def)

section \<open>The stack from power-on\<close>

text \<open>
  A processor whose flash keeps the list of erased sectors and reads back what was programmed last.
\<close>

definition quiet_hal :: "(u32 list \<times> u8) hal" where
  "quiet_hal = \<lparr>HAL_FLASH_Unlock = id, HAL_FLASH_Clear_Flag = id, HAL_FLASH_Program = (\<lambda>addr b h. (fst h, b)),
     FLASH_Erase_Sector = (\<lambda>s h. (fst h @ [s], snd h)), HAL_FLASH_Lock = id, flash_byte = (\<lambda>addr h. snd h)\<rparr>"

definition blank_chip :: spi_chip where
  "blank_chip = \<lparr>chip_mem = (\<lambda>_. 0xFF), chip_wel = False, chip_busy = 0\<rparr>"

text \<open>Property C10. The flash stack refines the NOR flash on which the key-value store is modelled. Whatever serial flash chip of the
  identification \<open>A1 40 15\<close> keeps the contract \<open>spi_nor\<close> (it may be busy for up to 600000 polls of the status), \<open>flash_Init\<close>
  finds the chip, the partitions and the partition of the store from power-on, and every sequence of reads, writes and erases
  through the port of the store, the partition layer, the device port and the driver, page by page and block by block, comes to
  an end with the answers and the cells that \<open>ef_port_read\<close>, \<open>ef_port_write\<close> and \<open>ef_port_erase\<close> have. A write or an erase behind
  the partition is refused by both.
\<close>

theorem flash_stack_refines_nor:
  assumes chip: "spi_nor wr mem wel busy lim [0xA1, 0x40, 0x15]" and lim: "lim \<le> 600000" and c: "busy c = 0" and xs: "list_all ef_op_ok xs"
  shows "\<exists>st st'. flash_Init wr hal (power_on c h) = Inr (True, st) \<and> mem (serial st) = mem c \<and>
    stack_run wr hal xs st = Inr (fst (nor_run xs \<lparr>cells = mem c, dead = False\<rparr>), st') \<and>
    \<lparr>cells = mem (serial st'), dead = False\<rparr> = snd (nor_run xs \<lparr>cells = mem c, dead = False\<rparr>)"
proof -
  obtain st where st: "flash_Init wr hal (power_on c h) = Inr (True, st)" "stack_ready busy lim st" "mem (serial st) = mem c"
    using spi_nor.flash_Init_ready [OF chip refl lim c, of hal h] by (elim exE conjE)
  then show ?thesis using spi_nor.stack_run_nor [OF chip st(2) xs, of hal] by auto
qed

theorem flash_stack_refines_nor_witness:
  "\<exists>st st'. flash_Init chip_wr quiet_hal (power_on blank_chip ([], 0)) = Inr (True, st) \<and>
    stack_run chip_wr quiet_hal [Ef_Write 255 [1, 2, 3], Ef_Erase 131072 131072, Ef_Write 0x100000 [0], Ef_Read 255 3] st
      = Inr ([(EF_NO_ERR, []), (EF_NO_ERR, []), (EF_WRITE_ERR, []), (EF_NO_ERR, [1, 2, 3])], st')"
proof -
  let ?xs = "[Ef_Write 255 [1, 2, 3], Ef_Erase 131072 131072, Ef_Write 0x100000 [0], Ef_Read 255 3]"
  let ?f = "\<lparr>cells = \<lambda>_. 0xFF, dead = False\<rparr>"
  have blank: "chip_mem blank_chip = (\<lambda>_. 0xFF)" "chip_busy blank_chip = 0" by (simp_all add: blank_chip_def)
  have low: "wipe 131072 131072 m p = m p" if "p div 4096 = 0" for m p using that by (simp add: wipe_def)
  have cell: "burn 255 [1, 2, 3] (\<lambda>_. 0xFF) 255 = 1" "burn 255 [1, 2, 3] (\<lambda>_. 0xFF) 256 = 2" "burn 255 [1, 2, 3] (\<lambda>_. 0xFF) 257 = 3"
    by (simp_all add: burn_def)
  have run: "fst (nor_run ?xs ?f) = [(EF_NO_ERR, []), (EF_NO_ERR, []), (EF_WRITE_ERR, []), (EF_NO_ERR, [1, 2, 3])]"
    by (simp add: ef_port_write_def ef_port_erase_def ef_port_read_def nor_write_burn nor_erase_wipe low cell upt_conv_Cons)
  have ok: "list_all ef_op_ok ?xs" by simp
  have lim: "(3 :: nat) \<le> 600000" by simp
  from flash_stack_refines_nor [OF flash_chip.spi_nor_axioms lim blank(2) ok, of quiet_hal "([], 0)"] show ?thesis
    unfolding blank run by blast
qed

text \<open>Property C11. The downloads on the same stack: in the download partition a write and an erase succeed exactly when those of \<open>Ota\<close>
  do, and leave its cells.
\<close>

theorem download_stack_refines_nor:
  assumes chip: "spi_nor wr mem wel busy lim chip_id" and st: "ready busy lim st" and a: "a + length d < 2 ^ 32" "a + n < 2 ^ 32"
  defines "f \<equiv> \<lparr>cells = mem (serial st), dead = False\<rparr>"
  shows "(\<exists>ret st'. part_write wr hal (partition_table_def ! 4) (word_of_nat a) d (word_of_nat (length d)) st = Inr (ret, st') \<and> ready busy lim st' \<and>
      fal_partition_write (word_of_nat a) d (word_of_nat (length d)) f = (0 \<le> ret, \<lparr>cells = mem (serial st'), dead = False\<rparr>)) \<and>
    (\<exists>ret st'. part_erase wr hal (partition_table_def ! 4) (word_of_nat a) (word_of_nat n) st = Inr (ret, st') \<and> ready busy lim st' \<and>
      fal_partition_erase (word_of_nat a) (word_of_nat n) f = (0 \<le> ret, \<lparr>cells = mem (serial st'), dead = False\<rparr>))"
  unfolding f_def using spi_nor.download_write_nor [OF chip st a(1)] spi_nor.download_erase_nor [OF chip st a(2)] by blast

definition started :: "(spi_chip, u32 list \<times> u8) storage" where
  "started = (power_on blank_chip ([], 0))\<lparr>sfud_dev := Some \<lparr>sf_chip = chip_info ''W25Q16FD'' 0xA1 0x40 0x15 0x200000 SFUD_WM_PAGE_256B 4096 0x20,
     sf_init_ok = True, addr_in_4_byte = False, retry_times = 600000\<rparr>\<rparr>"

theorem download_stack_refines_nor_witness:
  "\<exists>ret st'. part_write chip_wr quiet_hal (partition_table_def ! 4) (word_of_nat 250) [1, 2, 3] (word_of_nat (length [1, 2, 3 :: u8])) started = Inr (ret, st') \<and>
    0 \<le> ret \<and> chip_mem (serial st') 0x1800FB = 2"
proof -
  have "ready chip_busy 3 started"
    by (simp add: ready_def started_def driven_def power_on_def blank_chip_def chip_info_def)
  from download_stack_refines_nor [OF flash_chip.spi_nor_axioms this, of 250 "[1, 2, 3]" 0 quiet_hal]
  obtain ret st' where *: "part_write chip_wr quiet_hal (partition_table_def ! 4) (word_of_nat 250) [1, 2, 3] (word_of_nat (length [1, 2, 3 :: u8])) started = Inr (ret, st')"
    "fal_partition_write (word_of_nat 250) [1, 2, 3] (word_of_nat (length [1, 2, 3 :: u8])) \<lparr>cells = chip_mem (serial started), dead = False\<rparr>
      = (0 \<le> ret, \<lparr>cells = chip_mem (serial st'), dead = False\<rparr>)" by auto
  moreover have "chip_mem (serial started) = (\<lambda>_. 0xFF)" by (simp add: started_def power_on_def blank_chip_def)
  ultimately have "0 \<le> ret" "chip_mem (serial st') = burn 0x1800FA [1, 2, 3] (\<lambda>_. 0xFF)"
    by (simp_all add: Ota.fal_partition_write_def nor_write_burn)
  moreover have "burn 0x1800FA [1, 2, 3] (\<lambda>_. 0xFF) 0x1800FB = 2" by (simp add: burn_def)
  ultimately show ?thesis using *(1) by simp
qed

end
