(* ===== verification/Syswatch.thy ===== *)
theory Syswatch
  imports Prelude
begin

unbundle bit_operations_syntax

text \<open>
  The system watch (\<open>src/packages/syswatch-latest/src/syswatch.c\<close>), as \<open>src/rtconfig.h\<close> configures it: a thread of the highest priority
  feeds the watchdog once a second; a scheduler hook sees every switch of threads. When the system has not been idle for 60 seconds,
  the thread of lowest priority that runs in the next 15 is killed, and started again 15 seconds after the system is idle (mode 2).
  With it what it calls of the kernel: \<open>src/rt-thread/src/thread.c\<close>, \<open>object.c\<close>, \<open>idle.c\<close>. Threads are addresses; memory
  allocation is a parameter \<open>new\<close>. A kernel assertion that fails does not return; a read of a structure that was freed is the
  fault \<open>Freed_Memory\<close>.
\<close>

section \<open>Threads of the kernel\<close>

text \<open>The fields of a thread that these functions read or that are saved for its resumption.\<close>

record rt_thread =
  th_type :: u8
  th_name :: string
  th_entry :: nat
  th_parameter :: nat
  th_stack_addr :: nat
  th_stack_size :: u32
  th_init_tick :: u32
  th_init_priority :: u8
  th_current_priority :: u8
  th_stat :: u8

text \<open>The structures in memory, the ready threads, the deleted ones the idle thread has still to free, and the ones it has freed.\<close>

record kernel =
  thread_at :: "nat \<Rightarrow> rt_thread"
  ready_list :: "nat list"
  rt_thread_defunct :: "nat list"
  freed :: "nat list"

abbreviation (input) RT_Object_Class_Thread :: u8 where "RT_Object_Class_Thread \<equiv> 1"
abbreviation (input) RT_Object_Class_Static :: u8 where "RT_Object_Class_Static \<equiv> 0x80"
abbreviation (input) RT_THREAD_INIT :: u8 where "RT_THREAD_INIT \<equiv> 0"
abbreviation (input) RT_THREAD_READY :: u8 where "RT_THREAD_READY \<equiv> 1"
abbreviation (input) RT_THREAD_SUSPEND :: u8 where "RT_THREAD_SUSPEND \<equiv> 2"
abbreviation (input) RT_THREAD_CLOSE :: u8 where "RT_THREAD_CLOSE \<equiv> 4"
abbreviation (input) RT_THREAD_STAT_MASK :: u8 where "RT_THREAD_STAT_MASK \<equiv> 7"
abbreviation (input) RT_NAME_MAX :: nat where "RT_NAME_MAX \<equiv> 16"

definition set_thread :: "nat \<Rightarrow> (rt_thread \<Rightarrow> rt_thread) \<Rightarrow> kernel \<Rightarrow> kernel" where
  "set_thread t g k = k\<lparr>thread_at := (thread_at k)(t := g (thread_at k t))\<rparr>"

definition rt_object_is_systemobject :: "nat \<Rightarrow> kernel \<Rightarrow> bool" where
  "rt_object_is_systemobject t k \<longleftrightarrow> th_type (thread_at k t) AND RT_Object_Class_Static \<noteq> 0"

definition rt_object_get_type :: "nat \<Rightarrow> kernel \<Rightarrow> u8" where
  "rt_object_get_type t k = th_type (thread_at k t) AND NOT RT_Object_Class_Static"

definition rt_object_detach :: "nat \<Rightarrow> kernel \<Rightarrow> kernel" where
  "rt_object_detach t k = set_thread t (th_type_update (\<lambda>_. 0)) k"

definition rt_schedule_remove_thread :: "nat \<Rightarrow> kernel \<Rightarrow> kernel" where
  "rt_schedule_remove_thread t k = k\<lparr>ready_list := removeAll t (ready_list k)\<rparr>"

text \<open>No thread of the firmware has a cleanup function; the timer of a thread is left out.\<close>

definition rt_thread_exit :: "nat \<Rightarrow> kernel \<Rightarrow> kernel" where
  "rt_thread_exit t k =
    (let k = set_thread t (th_stat_update (\<lambda>_. RT_THREAD_CLOSE)) (rt_schedule_remove_thread t k)
     in if rt_object_is_systemobject t k then rt_object_detach t k else k\<lparr>rt_thread_defunct := t # rt_thread_defunct k\<rparr>)"

definition thread_init :: "nat \<Rightarrow> nat \<Rightarrow> nat \<Rightarrow> u32 \<Rightarrow> u8 \<Rightarrow> u32 \<Rightarrow> rt_thread \<Rightarrow> rt_thread" where
  "thread_init entry parameter stack_start stack_size priority tick th =
    th\<lparr>th_entry := entry, th_parameter := parameter, th_stack_addr := stack_start, th_stack_size := stack_size, th_init_priority := priority,
       th_current_priority := priority, th_init_tick := tick, th_stat := RT_THREAD_INIT\<rparr>"

text \<open>A static thread; the assertion that it is not registered yet is left out.\<close>

definition rt_thread_init :: "nat \<Rightarrow> string \<Rightarrow> nat \<Rightarrow> nat \<Rightarrow> nat \<Rightarrow> u32 \<Rightarrow> u8 \<Rightarrow> u32 \<Rightarrow> kernel \<Rightarrow> kernel" where
  "rt_thread_init t name entry parameter stack_start stack_size priority tick k =
    set_thread t (thread_init entry parameter stack_start stack_size priority tick \<circ>
      th_name_update (\<lambda>_. take RT_NAME_MAX name) \<circ> th_type_update (\<lambda>_. RT_Object_Class_Thread OR RT_Object_Class_Static)) k"

text \<open>\<open>new\<close> gives an address for the thread and one for its stack.\<close>

definition rt_thread_create ::
  "(kernel \<Rightarrow> (nat \<times> nat) option) \<Rightarrow> string \<Rightarrow> nat \<Rightarrow> nat \<Rightarrow> u32 \<Rightarrow> u8 \<Rightarrow> u32 \<Rightarrow> kernel \<Rightarrow> nat option \<times> kernel" where
  "rt_thread_create new name entry parameter stack_size priority tick k =
    (case new k of
       None \<Rightarrow> (None, k)
     | Some (t, stack_start) \<Rightarrow>
         (Some t, set_thread t (thread_init entry parameter stack_start stack_size priority tick \<circ>
            th_name_update (\<lambda>_. take RT_NAME_MAX name) \<circ> th_type_update (\<lambda>_. RT_Object_Class_Thread))
            (k\<lparr>freed := removeAll t (freed k)\<rparr>)))"

text \<open>A started thread is ready; the switch this may cause is a switch of its own.\<close>

definition rt_thread_startup :: "nat \<Rightarrow> kernel \<Rightarrow> c_fault + kernel" where
  "rt_thread_startup t k =
    (if th_stat (thread_at k t) AND RT_THREAD_STAT_MASK \<noteq> RT_THREAD_INIT \<or> rt_object_get_type t k \<noteq> RT_Object_Class_Thread then Inl Endless_Loop
     else Inr ((set_thread t (\<lambda>th. th\<lparr>th_current_priority := th_init_priority th, th_stat := RT_THREAD_READY\<rparr>) k)\<lparr>ready_list := ready_list k @ [t]\<rparr>))"

definition rt_thread_detach :: "nat \<Rightarrow> kernel \<Rightarrow> c_fault + kernel" where
  "rt_thread_detach t k =
    (if rt_object_get_type t k \<noteq> RT_Object_Class_Thread \<or> \<not> rt_object_is_systemobject t k then Inl Endless_Loop
     else if th_stat (thread_at k t) AND RT_THREAD_STAT_MASK = RT_THREAD_CLOSE then Inr k
     else
       (let k = (if th_stat (thread_at k t) AND RT_THREAD_STAT_MASK \<noteq> RT_THREAD_INIT then rt_schedule_remove_thread t k else k);
            k = set_thread t (th_stat_update (\<lambda>_. RT_THREAD_CLOSE)) k
        in Inr (if rt_object_is_systemobject t k then rt_object_detach t k else k\<lparr>rt_thread_defunct := t # rt_thread_defunct k\<rparr>)))"

definition rt_thread_delete :: "nat \<Rightarrow> kernel \<Rightarrow> c_fault + kernel" where
  "rt_thread_delete t k =
    (if rt_object_get_type t k \<noteq> RT_Object_Class_Thread \<or> rt_object_is_systemobject t k then Inl Endless_Loop
     else if th_stat (thread_at k t) AND RT_THREAD_STAT_MASK = RT_THREAD_CLOSE then Inr k
     else
       (let k = (if th_stat (thread_at k t) AND RT_THREAD_STAT_MASK \<noteq> RT_THREAD_INIT then rt_schedule_remove_thread t k else k);
            k = set_thread t (th_stat_update (\<lambda>_. RT_THREAD_CLOSE)) k
        in Inr (k\<lparr>rt_thread_defunct := t # rt_thread_defunct k\<rparr>)))"

text \<open>The idle thread frees what was deleted: stack and structure.\<close>

definition rt_thread_idle_excute :: "kernel \<Rightarrow> kernel" where
  "rt_thread_idle_excute k = (fold (\<lambda>t. set_thread t (th_type_update (\<lambda>_. 0))) (rt_thread_defunct k) k)
    \<lparr>freed := rt_thread_defunct k @ freed k, rt_thread_defunct := []\<rparr>"

section \<open>The watch\<close>

record thread_msg =
  msg_thread :: nat
  msg_entry :: nat
  msg_parameter :: nat
  msg_stack_addr :: nat
  msg_stack_size :: u32
  msg_init_tick :: u32
  msg_init_priority :: u8
  msg_name :: string

datatype syswatch_event = SYSWATCH_EVENT_SYSTEM_RESET | SYSWATCH_EVENT_THREAD_KILL | SYSWATCH_EVENT_THREAD_RESUMED

text \<open>With the kernel, the calls of an event hook if there is one, and how often the watchdog was fed.\<close>

record syswatch_data =
  sec_cnt :: u16
  op_step :: u16
  event_hook :: bool
  lowest_thread :: "nat option"
  wait_resume_slist :: "thread_msg list"
  hook_calls :: "(syswatch_event \<times> nat) list"
  wdt_fed :: nat
  kern :: kernel

abbreviation (input) SYSWATCH_EXCEPT_TIMEOUT :: u16 where "SYSWATCH_EXCEPT_TIMEOUT \<equiv> 60"
abbreviation (input) SYSWATCH_EXCEPT_CONFIRM_TMO :: u16 where "SYSWATCH_EXCEPT_CONFIRM_TMO \<equiv> 15"
abbreviation (input) SYSWATCH_EXCEPT_RESUME_DLY :: u16 where "SYSWATCH_EXCEPT_RESUME_DLY \<equiv> 15"
abbreviation (input) idle_priority :: u8 where "idle_priority \<equiv> 31"

definition syswatch_event_hook_call :: "syswatch_event \<Rightarrow> nat \<Rightarrow> syswatch_data \<Rightarrow> syswatch_data" where
  "syswatch_event_hook_call eid t sw = (if event_hook sw then sw\<lparr>hook_calls := hook_calls sw @ [(eid, t)]\<rparr> else sw)"

definition syswatch_wdt_feed :: "syswatch_data \<Rightarrow> syswatch_data" where
  "syswatch_wdt_feed sw = sw\<lparr>wdt_fed := wdt_fed sw + 1\<rparr>"

definition syswatch_thread_except_resolve_kill :: "nat \<Rightarrow> syswatch_data \<Rightarrow> c_fault + syswatch_data" where
  "syswatch_thread_except_resolve_kill t sw =
    (let sw = syswatch_event_hook_call SYSWATCH_EVENT_THREAD_KILL t sw
     in case (if rt_object_is_systemobject t (kern sw) then rt_thread_detach t (kern sw) else rt_thread_delete t (kern sw)) of
          Inl e \<Rightarrow> Inl e
        | Inr k \<Rightarrow> Inr (sw\<lparr>kern := k\<rparr>))"

text \<open>The memory for a message is there.\<close>

definition msg_of :: "nat \<Rightarrow> kernel \<Rightarrow> thread_msg" where
  "msg_of t k =
    (let th = thread_at k t
     in \<lparr>msg_thread = t, msg_entry = th_entry th, msg_parameter = th_parameter th, msg_stack_addr = th_stack_addr th,
         msg_stack_size = th_stack_size th, msg_init_tick = th_init_tick th, msg_init_priority = th_init_priority th,
         msg_name = take RT_NAME_MAX (th_name th)\<rparr>)"

definition syswatch_thread_except_resolve_resume_save_msg :: "nat \<Rightarrow> syswatch_data \<Rightarrow> syswatch_data" where
  "syswatch_thread_except_resolve_resume_save_msg t sw = sw\<lparr>wait_resume_slist := wait_resume_slist sw @ [msg_of t (kern sw)]\<rparr>"

definition syswatch_thread_except_resolve_resume_from_msg ::
  "(kernel \<Rightarrow> (nat \<times> nat) option) \<Rightarrow> thread_msg \<Rightarrow> syswatch_data \<Rightarrow> c_fault + syswatch_data" where
  "syswatch_thread_except_resolve_resume_from_msg new m sw =
    (if msg_thread m \<in> set (freed (kern sw)) then Inl Freed_Memory
     else if rt_object_is_systemobject (msg_thread m) (kern sw) then
       (case rt_thread_startup (msg_thread m)
               (rt_thread_init (msg_thread m) (msg_name m) (msg_entry m) (msg_parameter m) (msg_stack_addr m) (msg_stack_size m)
                 (msg_init_priority m) (msg_init_tick m) (kern sw)) of
          Inl e \<Rightarrow> Inl e
        | Inr k \<Rightarrow> Inr (syswatch_event_hook_call SYSWATCH_EVENT_THREAD_RESUMED (msg_thread m) (sw\<lparr>kern := k\<rparr>)))
     else
       (case rt_thread_create new (msg_name m) (msg_entry m) (msg_parameter m) (msg_stack_size m) (msg_init_priority m) (msg_init_tick m) (kern sw) of
          (None, k) \<Rightarrow> Inr (sw\<lparr>kern := k\<rparr>)
        | (Some t, k) \<Rightarrow>
            (case rt_thread_startup t k of
               Inl e \<Rightarrow> Inl e
             | Inr k \<Rightarrow> Inr (syswatch_event_hook_call SYSWATCH_EVENT_THREAD_RESUMED t (sw\<lparr>kern := k\<rparr>)))))"

primrec resume_list :: "(kernel \<Rightarrow> (nat \<times> nat) option) \<Rightarrow> thread_msg list \<Rightarrow> syswatch_data \<Rightarrow> c_fault + syswatch_data" where
  "resume_list new [] sw = Inr sw"
| "resume_list new (m # ms) sw =
    (case syswatch_thread_except_resolve_resume_from_msg new m sw of
       Inl e \<Rightarrow> Inl e
     | Inr sw \<Rightarrow> resume_list new ms (sw\<lparr>wait_resume_slist := ms\<rparr>))"

definition syswatch_thread_except_resolve_resume_all :: "(kernel \<Rightarrow> (nat \<times> nat) option) \<Rightarrow> syswatch_data \<Rightarrow> c_fault + syswatch_data" where
  "syswatch_thread_except_resolve_resume_all new sw = resume_list new (wait_resume_slist sw) sw"

text \<open>\<open>self\<close> is the thread of the watch.\<close>

definition syswatch_thread_except_resolve :: "nat \<Rightarrow> nat option \<Rightarrow> syswatch_data \<Rightarrow> c_fault + syswatch_data" where
  "syswatch_thread_except_resolve self thread sw =
    (case thread of
       None \<Rightarrow> Inr sw
     | Some t \<Rightarrow> if t = self then Inr sw
         else if t \<in> set (freed (kern sw)) then Inl Freed_Memory
         else syswatch_thread_except_resolve_kill t (syswatch_thread_except_resolve_resume_save_msg t sw))"

text \<open>\<open>running\<close>: the thread that is left was running (it yields).\<close>

definition syswatch_thread_switch_hook :: "nat \<Rightarrow> nat \<Rightarrow> bool \<Rightarrow> syswatch_data \<Rightarrow> c_fault + syswatch_data" where
  "syswatch_thread_switch_hook from to running sw =
    (let pr = (\<lambda>t. th_current_priority (thread_at (kern sw) t))
     in if pr from > pr to then Inr sw
        else if pr to = idle_priority then
          Inr (if op_step sw = 0 then sw\<lparr>sec_cnt := 0\<rparr>
               else if op_step sw = 1 then sw\<lparr>sec_cnt := 0, op_step := if wait_resume_slist sw \<noteq> [] then 2 else 0\<rparr>
               else sw)
        else if op_step sw \<noteq> 1 then Inr sw
        else case lowest_thread sw of
          None \<Rightarrow> Inr (sw\<lparr>lowest_thread := Some to\<rparr>)
        | Some l \<Rightarrow>
            if l \<in> set (freed (kern sw)) then Inl Freed_Memory
            else Inr (if pr to > pr l then sw\<lparr>lowest_thread := Some to\<rparr>
                      else if pr to < pr l then sw
                      else if pr to = pr from \<and> running then sw\<lparr>lowest_thread := Some from\<rparr>
                      else sw))"

definition syswatch_check_timeout :: "u16 \<Rightarrow> syswatch_data \<Rightarrow> bool \<times> syswatch_data" where
  "syswatch_check_timeout tmo_s sw =
    (let sw = sw\<lparr>sec_cnt := sec_cnt sw + 1\<rparr>
     in if sec_cnt sw < tmo_s then (False, sw) else (True, sw\<lparr>sec_cnt := 0\<rparr>))"

definition syswatch_fsm :: "(kernel \<Rightarrow> (nat \<times> nat) option) \<Rightarrow> nat \<Rightarrow> syswatch_data \<Rightarrow> c_fault + syswatch_data" where
  "syswatch_fsm new self sw =
    (if op_step sw = 0 then
       (case syswatch_check_timeout SYSWATCH_EXCEPT_TIMEOUT sw of
          (tmo, sw) \<Rightarrow> Inr (if tmo then sw\<lparr>op_step := 1, lowest_thread := None\<rparr> else sw))
     else if op_step sw = 1 then
       (case syswatch_check_timeout SYSWATCH_EXCEPT_CONFIRM_TMO sw of
          (tmo, sw) \<Rightarrow>
            if tmo then (case syswatch_thread_except_resolve self (lowest_thread sw) sw of Inl e \<Rightarrow> Inl e | Inr sw \<Rightarrow> Inr (sw\<lparr>lowest_thread := None\<rparr>))
            else Inr sw)
     else if op_step sw = 2 then
       (case syswatch_check_timeout SYSWATCH_EXCEPT_RESUME_DLY sw of
          (tmo, sw) \<Rightarrow>
            if tmo then (case syswatch_thread_except_resolve_resume_all new sw of Inl e \<Rightarrow> Inl e | Inr sw \<Rightarrow> Inr (sw\<lparr>op_step := 0\<rparr>))
            else Inr sw)
     else Inr (sw\<lparr>op_step := 0, sec_cnt := 0\<rparr>))"

text \<open>One turn of the loop in \<open>syswatch_thread_entry\<close>, after its wait of a second.\<close>

definition syswatch_thread_turn :: "(kernel \<Rightarrow> (nat \<times> nat) option) \<Rightarrow> nat \<Rightarrow> syswatch_data \<Rightarrow> c_fault + syswatch_data" where
  "syswatch_thread_turn new self sw = syswatch_fsm new self (syswatch_wdt_feed sw)"

definition syswatch_set_event_hook :: "bool \<Rightarrow> syswatch_data \<Rightarrow> syswatch_data" where
  "syswatch_set_event_hook hook sw = sw\<lparr>event_hook := hook\<rparr>"

section \<open>Sequences of events\<close>

text \<open>A switch between two threads, a second, the idle thread at work.\<close>

datatype sw_event = Switch nat nat bool | Second | Idle_Work

fun sw_step :: "(kernel \<Rightarrow> (nat \<times> nat) option) \<Rightarrow> nat \<Rightarrow> sw_event \<Rightarrow> syswatch_data \<Rightarrow> c_fault + syswatch_data" where
  "sw_step new self (Switch from to running) sw = syswatch_thread_switch_hook from to running sw"
| "sw_step new self Second sw = syswatch_thread_turn new self sw"
| "sw_step new self Idle_Work sw = Inr (sw\<lparr>kern := rt_thread_idle_excute (kern sw)\<rparr>)"

primrec sw_run :: "(kernel \<Rightarrow> (nat \<times> nat) option) \<Rightarrow> nat \<Rightarrow> sw_event list \<Rightarrow> syswatch_data \<Rightarrow> c_fault + syswatch_data" where
  "sw_run new self [] sw = Inr sw"
| "sw_run new self (x # xs) sw = (case sw_step new self x sw of Inl e \<Rightarrow> Inl e | Inr sw \<Rightarrow> sw_run new self xs sw)"

end
