(* ===== verification/Syswatch_Cycle.thy ===== *)
theory Syswatch_Cycle
  imports Syswatch
begin

unbundle bit_operations_syntax

text \<open>
  What the watch does to a system that is idle often enough, and to one that a thread keeps busy, phase by phase: waiting, confirming,
  killing, resuming.
\<close>

definition prio :: "kernel \<Rightarrow> nat \<Rightarrow> u8" where
  "prio k t = th_current_priority (thread_at k t)"

fun seconds :: "sw_event list \<Rightarrow> nat" where
  "seconds [] = 0"
| "seconds (Second # xs) = Suc (seconds xs)"
| "seconds (x # xs) = seconds xs"

lemma seconds_replicate [simp]: "seconds (replicate n Second) = n"
  by (induction n) simp_all

lemma sw_run_append: "sw_run new self (xs @ ys) sw = (case sw_run new self xs sw of Inl e \<Rightarrow> Inl e | Inr sw \<Rightarrow> sw_run new self ys sw)"
  by (induction xs arbitrary: sw) (auto split: sum.splits)

lemma u16_of_nat: "n < 65536 \<Longrightarrow> unat (word_of_nat n :: u16) = n"
  by (simp add: unsigned_of_nat take_bit_eq_mod)

text \<open>One more second, before and at the limit.\<close>

lemma check_timeout:
  assumes "sec_cnt sw = word_of_nat n" "n < m" "m < 65536"
  shows "syswatch_check_timeout (word_of_nat m) sw = (if Suc n < m then (False, sw\<lparr>sec_cnt := word_of_nat (Suc n)\<rparr>) else (True, sw\<lparr>sec_cnt := 0\<rparr>))"
proof -
  have "(word_of_nat (Suc n) :: u16) < word_of_nat m \<longleftrightarrow> Suc n < m"
    using assms u16_of_nat [of "Suc n"] u16_of_nat [of m] by (simp only: word_less_nat_alt)
  then show ?thesis using assms(1) by (simp add: syswatch_check_timeout_def Let_def add.commute)
qed

lemmas check_timeout_60 = check_timeout [where m = 60, unfolded of_nat_numeral]
lemmas check_timeout_15 = check_timeout [where m = 15, unfolded of_nat_numeral]

lemma idle_work_keeps:
  "prio (rt_thread_idle_excute k) = prio k" "ready_list (rt_thread_idle_excute k) = ready_list k"
  "th_stat (thread_at (rt_thread_idle_excute k) t) = th_stat (thread_at k t)"
  "\<not> rt_object_is_systemobject t k \<Longrightarrow> \<not> rt_object_is_systemobject t (rt_thread_idle_excute k)"
proof -
  have "prio (fold (\<lambda>t. set_thread t (th_type_update (\<lambda>_. 0))) ts k) = prio k \<and>
      ready_list (fold (\<lambda>t. set_thread t (th_type_update (\<lambda>_. 0))) ts k) = ready_list k \<and>
      th_stat (thread_at (fold (\<lambda>t. set_thread t (th_type_update (\<lambda>_. 0))) ts k) t) = th_stat (thread_at k t) \<and>
      (\<not> rt_object_is_systemobject t k \<longrightarrow> \<not> rt_object_is_systemobject t (fold (\<lambda>t. set_thread t (th_type_update (\<lambda>_. 0))) ts k))" for ts
  proof (induction ts arbitrary: k)
    case (Cons u ts)
    have "prio (set_thread u (th_type_update (\<lambda>_. 0)) k) = prio k" "ready_list (set_thread u (th_type_update (\<lambda>_. 0)) k) = ready_list k"
      "th_stat (thread_at (set_thread u (th_type_update (\<lambda>_. 0)) k) t) = th_stat (thread_at k t)"
      "\<not> rt_object_is_systemobject t k \<Longrightarrow> \<not> rt_object_is_systemobject t (set_thread u (th_type_update (\<lambda>_. 0)) k)"
      by (auto simp: prio_def set_thread_def rt_object_is_systemobject_def fun_eq_iff)
    then show ?case using Cons.IH [of "set_thread u (th_type_update (\<lambda>_. 0)) k"] by auto
  qed simp
  note this [of "rt_thread_defunct k"]
  then show "prio (rt_thread_idle_excute k) = prio k" "ready_list (rt_thread_idle_excute k) = ready_list k"
    "th_stat (thread_at (rt_thread_idle_excute k) t) = th_stat (thread_at k t)"
    "\<not> rt_object_is_systemobject t k \<Longrightarrow> \<not> rt_object_is_systemobject t (rt_thread_idle_excute k)"
    by (simp_all add: rt_thread_idle_excute_def prio_def rt_object_is_systemobject_def fun_eq_iff)
qed

lemma freed_by_idle_work: "freed (rt_thread_idle_excute k) = rt_thread_defunct k @ freed k"
  by (simp add: rt_thread_idle_excute_def)

lemma idle_work_twice: "rt_thread_idle_excute (rt_thread_idle_excute k) = rt_thread_idle_excute k"
  by (simp add: rt_thread_idle_excute_def)

section \<open>A system that is idle often enough\<close>

definition to_idle :: "(nat \<Rightarrow> u8) \<Rightarrow> nat \<Rightarrow> nat \<Rightarrow> bool" where
  "to_idle pr f u \<longleftrightarrow> pr f \<le> pr u \<and> pr u = idle_priority"

text \<open>Never 60 seconds without a switch to the idle thread; \<open>n\<close> have passed since the last.\<close>

fun idle_in_time :: "(nat \<Rightarrow> u8) \<Rightarrow> nat \<Rightarrow> sw_event list \<Rightarrow> bool" where
  "idle_in_time pr n [] \<longleftrightarrow> True"
| "idle_in_time pr n (Switch f u y # xs) \<longleftrightarrow> idle_in_time pr (if to_idle pr f u then 0 else n) xs"
| "idle_in_time pr n (Second # xs) \<longleftrightarrow> n < 59 \<and> idle_in_time pr (Suc n) xs"
| "idle_in_time pr n (Idle_Work # xs) \<longleftrightarrow> idle_in_time pr n xs"

lemma waiting_hook:
  "op_step sw = 0 \<Longrightarrow> syswatch_thread_switch_hook f u y sw = Inr (if to_idle (prio (kern sw)) f u then sw\<lparr>sec_cnt := 0\<rparr> else sw)"
  by (auto simp: syswatch_thread_switch_hook_def to_idle_def prio_def Let_def not_less)

lemma waiting_second:
  assumes "op_step sw = 0" "sec_cnt sw = word_of_nat n" "n < 60"
  shows "syswatch_thread_turn new self sw = Inr (if Suc n < 60 then sw\<lparr>sec_cnt := word_of_nat (Suc n), wdt_fed := wdt_fed sw + 1\<rparr>
    else sw\<lparr>sec_cnt := 0, wdt_fed := wdt_fed sw + 1, op_step := 1, lowest_thread := None\<rparr>)"
  using assms check_timeout_60 [of "syswatch_wdt_feed sw" n]
  by (simp add: syswatch_thread_turn_def syswatch_fsm_def syswatch_wdt_feed_def del: of_nat_Suc)

lemma idle_run:
  "op_step sw = 0 \<Longrightarrow> sec_cnt sw = word_of_nat n \<Longrightarrow> n < 60 \<Longrightarrow> idle_in_time (prio (kern sw)) n xs \<Longrightarrow>
    \<exists>sw'. sw_run new self xs sw = Inr sw' \<and> op_step sw' = 0 \<and> ready_list (kern sw') = ready_list (kern sw) \<and>
      (\<forall>t. th_stat (thread_at (kern sw') t) = th_stat (thread_at (kern sw) t)) \<and> wait_resume_slist sw' = wait_resume_slist sw \<and>
      hook_calls sw' = hook_calls sw \<and> wdt_fed sw' = wdt_fed sw + seconds xs"
proof (induction xs arbitrary: sw n)
  case (Cons x xs)
  show ?case
  proof (cases x)
    case (Switch f u y)
    let ?sw = "if to_idle (prio (kern sw)) f u then sw\<lparr>sec_cnt := 0\<rparr> else sw"
    have "syswatch_thread_switch_hook f u y sw = Inr ?sw" using waiting_hook [OF Cons.prems(1)] .
    then show ?thesis using Cons.IH [of ?sw "if to_idle (prio (kern sw)) f u then 0 else n"] Cons.prems Switch
      by (cases "to_idle (prio (kern sw)) f u") simp_all
  next
    case Second
    let ?sw = "sw\<lparr>sec_cnt := word_of_nat (Suc n), wdt_fed := wdt_fed sw + 1\<rparr>"
    have "sw_step new self x sw = Inr ?sw" using waiting_second [OF Cons.prems(1-3)] Cons.prems(4) Second by (simp del: of_nat_Suc)
    then show ?thesis using Cons.IH [of ?sw "Suc n"] Cons.prems Second by (simp del: of_nat_Suc)
  next
    case Idle_Work
    then show ?thesis using Cons.IH [of "sw\<lparr>kern := rt_thread_idle_excute (kern sw)\<rparr>" n] Cons.prems by (simp add: idle_work_keeps)
  qed
qed simp

section \<open>A thread that keeps the system busy\<close>

fun busy :: "(nat \<Rightarrow> u8) \<Rightarrow> sw_event \<Rightarrow> bool" where
  "busy pr (Switch f u y) \<longleftrightarrow> \<not> to_idle pr f u"
| "busy pr Second \<longleftrightarrow> True"
| "busy pr Idle_Work \<longleftrightarrow> False"

lemma busy_run:
  "op_step sw = 0 \<Longrightarrow> sec_cnt sw = word_of_nat n \<Longrightarrow> n + seconds xs < 60 \<Longrightarrow> list_all (busy (prio (kern sw))) xs \<Longrightarrow>
    sw_run new self xs sw = Inr (sw\<lparr>sec_cnt := word_of_nat (n + seconds xs), wdt_fed := wdt_fed sw + seconds xs\<rparr>)"
proof (induction xs arbitrary: sw n)
  case (Cons x xs)
  show ?case
  proof (cases x)
    case (Switch f u y)
    then show ?thesis using Cons.IH [of sw n] Cons.prems waiting_hook [OF Cons.prems(1), of f u y] by (simp add: if_not_P)
  next
    case Second
    let ?sw = "sw\<lparr>sec_cnt := word_of_nat (Suc n), wdt_fed := wdt_fed sw + 1\<rparr>"
    have "sw_step new self x sw = Inr ?sw" using waiting_second [OF Cons.prems(1,2)] Cons.prems(3) Second by (simp del: of_nat_Suc)
    then show ?thesis using Cons.IH [of ?sw "Suc n"] Cons.prems Second by (simp del: of_nat_Suc)
  qed (use Cons.prems in simp)
qed simp

text \<open>The thread \<open>t\<close> is the one of lowest priority that runs; threads that run have not been freed.\<close>

fun hogged :: "(nat \<Rightarrow> u8) \<Rightarrow> nat \<Rightarrow> sw_event \<Rightarrow> bool" where
  "hogged pr t (Switch f u y) \<longleftrightarrow> (pr f \<le> pr u \<longrightarrow> pr u < pr t \<or> u = t \<and> pr f < pr t)"
| "hogged pr t Second \<longleftrightarrow> True"
| "hogged pr t Idle_Work \<longleftrightarrow> False"

definition runs :: "(nat \<Rightarrow> u8) \<Rightarrow> nat \<Rightarrow> sw_event list \<Rightarrow> bool" where
  "runs pr t xs \<longleftrightarrow> (\<exists>f y. Switch f t y \<in> set xs \<and> pr f < pr t)"

definition live :: "kernel \<Rightarrow> sw_event list \<Rightarrow> bool" where
  "live k xs \<longleftrightarrow> (\<forall>f u y. Switch f u y \<in> set xs \<longrightarrow> f \<notin> set (freed k) \<and> u \<notin> set (freed k))"

definition lowest_ok :: "(nat \<Rightarrow> u8) \<Rightarrow> nat \<Rightarrow> nat option \<Rightarrow> bool" where
  "lowest_ok pr t l \<longleftrightarrow> (case l of None \<Rightarrow> True | Some u \<Rightarrow> u = t \<or> pr u < pr t)"

lemma confirming_hook_lowest:
  assumes "op_step sw = 1" "prio (kern sw) f \<le> prio (kern sw) u" "prio (kern sw) u \<noteq> idle_priority"
    "\<And>v. lowest_thread sw = Some v \<Longrightarrow> v \<notin> set (freed (kern sw))"
  shows "syswatch_thread_switch_hook f u y sw = Inr (sw\<lparr>lowest_thread := Some (case lowest_thread sw of None \<Rightarrow> u
    | Some v \<Rightarrow> if prio (kern sw) v < prio (kern sw) u then u else if prio (kern sw) u < prio (kern sw) v then v
        else if prio (kern sw) u = prio (kern sw) f \<and> y then f else v)\<rparr>)"
  using assms unfolding syswatch_thread_switch_hook_def prio_def Let_def by (cases "lowest_thread sw") (simp_all add: not_less)

lemma pick_lowest:
  fixes p :: "nat \<Rightarrow> 'a :: linorder" and y :: bool
  assumes "p u < p t \<or> u = t \<and> p f < p t" "v = t \<or> p v < p t"
  defines "l \<equiv> if p v < p u then u else if p u < p v then v else if p u = p f \<and> y then f else v"
  shows "(l = t \<or> p l < p t) \<and> (v = t \<or> u = t \<and> p f < p t \<longrightarrow> l = t)"
proof -
  consider "p v < p u" "l = u" | "p u < p v" "l = v" | "p u = p v" "p u = p f" "l = f" | "p u = p v" "l = v"
    unfolding l_def by (metis linorder_neqE)
  then show ?thesis
  proof cases
    case 1
    then show ?thesis using assms(1,2) by (metis less_asym)
  next
    case 2
    then show ?thesis using assms(1,2) by (metis less_asym)
  next
    case 3
    then show ?thesis using assms(1,2) by (metis less_irrefl)
  next
    case 4
    then show ?thesis using assms(1,2) by (metis less_irrefl)
  qed
qed

definition lowest_live :: "kernel \<Rightarrow> nat option \<Rightarrow> bool" where
  "lowest_live k l \<longleftrightarrow> (case l of None \<Rightarrow> True | Some u \<Rightarrow> u \<notin> set (freed k))"

lemma confirming_hook:
  assumes step: "op_step sw = 1" and pr: "pr = prio (kern sw)" "pr t < idle_priority" and hog: "hogged pr t (Switch f u y)"
    and l: "lowest_ok pr t (lowest_thread sw)" "lowest_live (kern sw) (lowest_thread sw)"
    and fu: "f \<notin> set (freed (kern sw))" "u \<notin> set (freed (kern sw))"
  shows "\<exists>l. syswatch_thread_switch_hook f u y sw = Inr (sw\<lparr>lowest_thread := l\<rparr>) \<and> lowest_ok pr t l \<and> lowest_live (kern sw) l \<and>
    (lowest_thread sw = Some t \<or> u = t \<and> pr f < pr t \<longrightarrow> l = Some t)"
proof (cases "pr f \<le> pr u")
  case False
  then have "syswatch_thread_switch_hook f u y sw = Inr (sw\<lparr>lowest_thread := lowest_thread sw\<rparr>)"
    by (simp add: pr(1) syswatch_thread_switch_hook_def prio_def not_le)
  moreover have "\<not> (u = t \<and> pr f < pr t)" using False by auto
  ultimately show ?thesis using l by blast
next
  case True
  then have u: "pr u < pr t \<or> u = t \<and> pr f < pr t" using hog by simp
  then have "pr u \<noteq> idle_priority" using pr(2) by auto
  moreover have "\<And>v. lowest_thread sw = Some v \<Longrightarrow> v \<notin> set (freed (kern sw))" using l(2) by (simp add: lowest_live_def)
  ultimately have hook: "syswatch_thread_switch_hook f u y sw = Inr (sw\<lparr>lowest_thread := Some (case lowest_thread sw of None \<Rightarrow> u
    | Some v \<Rightarrow> if pr v < pr u then u else if pr u < pr v then v else if pr u = pr f \<and> y then f else v)\<rparr>)"
    using confirming_hook_lowest [of sw f u y] step True pr(1) by blast
  show ?thesis
  proof (cases "lowest_thread sw")
    case None
    then show ?thesis using hook u fu(2) by (intro exI [of _ "Some u"]) (auto simp: lowest_ok_def lowest_live_def)
  next
    case (Some v)
    let ?l = "if pr v < pr u then u else if pr u < pr v then v else if pr u = pr f \<and> y then f else v"
    have v: "v = t \<or> pr v < pr t" "v \<notin> set (freed (kern sw))" using l Some by (simp_all add: lowest_ok_def lowest_live_def)
    note pick_lowest [OF u v(1), of y]
    then show ?thesis using hook Some fu v(2) by (intro exI [of _ "Some ?l"]) (simp add: lowest_ok_def lowest_live_def)
  qed
qed

lemma confirming_second:
  assumes "op_step sw = 1" "sec_cnt sw = word_of_nat n" "Suc n < 15"
  shows "syswatch_thread_turn new self sw = Inr (sw\<lparr>sec_cnt := word_of_nat (Suc n), wdt_fed := wdt_fed sw + 1\<rparr>)"
  using assms check_timeout_15 [of "syswatch_wdt_feed sw" n]
  by (simp add: syswatch_thread_turn_def syswatch_fsm_def syswatch_wdt_feed_def del: of_nat_Suc)

lemma confirming_run:
  "op_step sw = 1 \<Longrightarrow> sec_cnt sw = word_of_nat n \<Longrightarrow> n + seconds xs < 15 \<Longrightarrow> prio (kern sw) t < idle_priority \<Longrightarrow>
    list_all (hogged (prio (kern sw)) t) xs \<Longrightarrow> lowest_ok (prio (kern sw)) t (lowest_thread sw) \<Longrightarrow>
    lowest_live (kern sw) (lowest_thread sw) \<Longrightarrow> live (kern sw) xs \<Longrightarrow> lowest_thread sw = Some t \<or> runs (prio (kern sw)) t xs \<Longrightarrow>
    sw_run new self xs sw = Inr (sw\<lparr>sec_cnt := word_of_nat (n + seconds xs), wdt_fed := wdt_fed sw + seconds xs, lowest_thread := Some t\<rparr>)"
proof (induction xs arbitrary: sw n)
  case (Cons x xs)
  show ?case
  proof (cases x)
    case (Switch f u y)
    have h: "hogged (prio (kern sw)) t (Switch f u y)" "f \<notin> set (freed (kern sw))" "u \<notin> set (freed (kern sw))" "live (kern sw) xs"
      using Cons.prems(5,8) Switch by (auto simp: live_def)
    obtain l where l: "syswatch_thread_switch_hook f u y sw = Inr (sw\<lparr>lowest_thread := l\<rparr>)" "lowest_ok (prio (kern sw)) t l"
      "lowest_live (kern sw) l" "lowest_thread sw = Some t \<or> u = t \<and> prio (kern sw) f < prio (kern sw) t \<longrightarrow> l = Some t"
      using confirming_hook [OF Cons.prems(1) refl Cons.prems(4) h(1) Cons.prems(6,7) h(2,3)] by blast
    have "l = Some t \<or> runs (prio (kern sw)) t xs" using Cons.prems(9) l(4) Switch by (auto simp: runs_def)
    then show ?thesis using Cons.IH [of "sw\<lparr>lowest_thread := l\<rparr>" n] Cons.prems l(1-3) h(4) Switch by simp
  next
    case Second
    let ?sw = "sw\<lparr>sec_cnt := word_of_nat (Suc n), wdt_fed := wdt_fed sw + 1\<rparr>"
    have "sw_step new self x sw = Inr ?sw" using confirming_second [OF Cons.prems(1,2)] Cons.prems(3) Second by (simp del: of_nat_Suc)
    moreover have "lowest_thread sw = Some t \<or> runs (prio (kern sw)) t xs" "live (kern sw) xs"
      using Cons.prems(8,9) Second by (simp_all add: runs_def live_def)
    ultimately show ?thesis using Cons.IH [of ?sw "Suc n"] Cons.prems Second by (simp del: of_nat_Suc)
  qed (use Cons.prems in simp)
qed (simp add: runs_def)

section \<open>Killing and resuming\<close>

text \<open>A thread that was started, has not ended and was not deleted.\<close>

definition thread_ok :: "nat \<Rightarrow> kernel \<Rightarrow> bool" where
  "thread_ok t k \<longleftrightarrow> rt_object_get_type t k = RT_Object_Class_Thread \<and> th_stat (thread_at k t) AND RT_THREAD_STAT_MASK \<noteq> RT_THREAD_CLOSE \<and>
     th_stat (thread_at k t) AND RT_THREAD_STAT_MASK \<noteq> RT_THREAD_INIT \<and> t \<notin> set (rt_thread_defunct k) \<and> t \<notin> set (freed k)"

text \<open>The kernel after the thread was killed: one from the heap waits to be freed by the idle thread.\<close>

definition killed_in :: "nat \<Rightarrow> kernel \<Rightarrow> kernel \<Rightarrow> bool" where
  "killed_in t k k' \<longleftrightarrow> ready_list k' = removeAll t (ready_list k) \<and> th_stat (thread_at k' t) = RT_THREAD_CLOSE \<and>
     \<not> rt_object_is_systemobject t k' \<and> prio k' = prio k \<and> freed k' = freed k \<and>
     rt_thread_defunct k' = (if rt_object_is_systemobject t k then rt_thread_defunct k else t # rt_thread_defunct k)"

lemma hook_called: "\<exists>h. syswatch_event_hook_call eid t sw = sw\<lparr>hook_calls := h\<rparr>"
proof (cases "event_hook sw")
  case False
  then show ?thesis by (intro exI [of _ "hook_calls sw"]) (simp add: syswatch_event_hook_call_def)
qed (auto simp: syswatch_event_hook_call_def)

text \<open>Whichever way the thread was created, its structure is no system object afterwards.\<close>

lemma taken_away:
  assumes "thread_ok t k"
  shows "\<exists>k'. (if rt_object_is_systemobject t k then rt_thread_detach t k else rt_thread_delete t k) = Inr k' \<and> killed_in t k k'"
  using assms
  by (auto simp: rt_thread_detach_def rt_thread_delete_def thread_ok_def killed_in_def rt_schedule_remove_thread_def
      rt_object_detach_def set_thread_def rt_object_is_systemobject_def prio_def fun_eq_iff Let_def)

lemma killed:
  assumes "thread_ok t (kern sw)"
  shows "\<exists>k h. syswatch_thread_except_resolve_kill t sw = Inr (sw\<lparr>hook_calls := h, kern := k\<rparr>) \<and> killed_in t (kern sw) k"
proof -
  obtain h where h: "syswatch_event_hook_call SYSWATCH_EVENT_THREAD_KILL t sw = sw\<lparr>hook_calls := h\<rparr>" using hook_called by blast
  obtain k where k: "(if rt_object_is_systemobject t (kern sw) then rt_thread_detach t (kern sw) else rt_thread_delete t (kern sw)) = Inr k"
    "killed_in t (kern sw) k" using taken_away [OF assms] by blast
  have "syswatch_thread_except_resolve_kill t sw = Inr (sw\<lparr>hook_calls := h, kern := k\<rparr>)"
    using k(1) by (cases "rt_object_is_systemobject t (kern sw)") (simp_all add: syswatch_thread_except_resolve_kill_def h Let_def)
  then show ?thesis using k(2) by blast
qed

lemma killing_second:
  assumes "op_step sw = 1" "sec_cnt sw = word_of_nat 14" "lowest_thread sw = Some t" "t \<noteq> self" "thread_ok t (kern sw)"
  shows "\<exists>k h. syswatch_thread_turn new self sw = Inr (sw\<lparr>wdt_fed := wdt_fed sw + 1, sec_cnt := 0,
      wait_resume_slist := wait_resume_slist sw @ [msg_of t (kern sw)], hook_calls := h, kern := k, lowest_thread := None\<rparr>) \<and>
    killed_in t (kern sw) k"
proof -
  let ?sw = "sw\<lparr>wdt_fed := wdt_fed sw + 1, sec_cnt := 0, wait_resume_slist := wait_resume_slist sw @ [msg_of t (kern sw)]\<rparr>"
  obtain k h where k: "syswatch_thread_except_resolve_kill t ?sw = Inr (?sw\<lparr>hook_calls := h, kern := k\<rparr>)" "killed_in t (kern sw) k"
    using killed [of t ?sw] assms(5) by auto
  have "t \<notin> set (freed (kern sw))" using assms(5) by (simp add: thread_ok_def)
  then have "syswatch_thread_turn new self sw = Inr (?sw\<lparr>hook_calls := h, kern := k, lowest_thread := None\<rparr>)"
    using assms(1-4) k(1) check_timeout_15 [of "syswatch_wdt_feed sw" 14]
    by (simp add: syswatch_thread_turn_def syswatch_fsm_def syswatch_wdt_feed_def syswatch_thread_except_resolve_def
        syswatch_thread_except_resolve_resume_save_msg_def)
  then show ?thesis using k(2) by (intro exI [of _ k] exI [of _ h]) simp
qed

lemma to_resuming:
  assumes "op_step sw = 1" "to_idle (prio (kern sw)) f i" "wait_resume_slist sw \<noteq> []"
  shows "syswatch_thread_switch_hook f i y sw = Inr (sw\<lparr>sec_cnt := 0, op_step := 2\<rparr>)"
  using assms by (auto simp: syswatch_thread_switch_hook_def to_idle_def prio_def Let_def not_less)

lemma resuming_hook: "op_step sw = 2 \<Longrightarrow> syswatch_thread_switch_hook f i y sw = Inr sw"
  by (simp add: syswatch_thread_switch_hook_def Let_def)

lemma resuming_run:
  "op_step sw = 2 \<Longrightarrow> sec_cnt sw = word_of_nat n \<Longrightarrow> n + seconds xs < 15 \<Longrightarrow>
    sw_run new self xs sw = Inr (sw\<lparr>sec_cnt := word_of_nat (n + seconds xs), wdt_fed := wdt_fed sw + seconds xs,
      kern := if Idle_Work \<in> set xs then rt_thread_idle_excute (kern sw) else kern sw\<rparr>)"
proof (induction xs arbitrary: sw n)
  case (Cons x xs)
  show ?case
  proof (cases x)
    case (Switch f u y)
    then show ?thesis using Cons.IH [of sw n] Cons.prems resuming_hook by simp
  next
    case Second
    let ?sw = "sw\<lparr>sec_cnt := word_of_nat (Suc n), wdt_fed := wdt_fed sw + 1\<rparr>"
    have "sw_step new self x sw = Inr ?sw"
      using Cons.prems(1-3) Second check_timeout_15 [of "syswatch_wdt_feed sw" n]
      by (simp add: syswatch_thread_turn_def syswatch_fsm_def syswatch_wdt_feed_def del: of_nat_Suc)
    then show ?thesis using Cons.IH [of ?sw "Suc n"] Cons.prems Second by (simp del: of_nat_Suc)
  next
    case Idle_Work
    then show ?thesis using Cons.IH [of "sw\<lparr>kern := rt_thread_idle_excute (kern sw)\<rparr>" n] Cons.prems by (simp add: idle_work_twice)
  qed
qed simp

text \<open>At the fifteenth second the saved message is used; when the structure it points to was freed, the watch reads freed memory.\<close>

lemma resuming_second_freed:
  assumes "op_step sw = 2" "sec_cnt sw = word_of_nat 14" "wait_resume_slist sw = m # ms" "msg_thread m \<in> set (freed (kern sw))"
  shows "syswatch_thread_turn new self sw = Inl Freed_Memory"
  using assms check_timeout_15 [of "syswatch_wdt_feed sw" 14]
  by (simp add: syswatch_thread_turn_def syswatch_fsm_def syswatch_wdt_feed_def syswatch_thread_except_resolve_resume_all_def
      syswatch_thread_except_resolve_resume_from_msg_def)

lemma resuming_second:
  assumes "op_step sw = 2" "sec_cnt sw = word_of_nat 14" "wait_resume_slist sw = [m]" "\<not> rt_object_is_systemobject (msg_thread m) (kern sw)"
    "msg_thread m \<notin> set (freed (kern sw))" "new (kern sw) = Some (n, stack)"
  shows "\<exists>sw'. syswatch_thread_turn new self sw = Inr sw' \<and> op_step sw' = 0 \<and> sec_cnt sw' = 0 \<and> wait_resume_slist sw' = [] \<and>
    n \<in> set (ready_list (kern sw')) \<and> thread_at (kern sw') n = \<lparr>th_type = RT_Object_Class_Thread, th_name = take RT_NAME_MAX (msg_name m),
      th_entry = msg_entry m, th_parameter = msg_parameter m, th_stack_addr = stack, th_stack_size = msg_stack_size m, th_init_tick = msg_init_tick m,
      th_init_priority = msg_init_priority m, th_current_priority = msg_init_priority m, th_stat = RT_THREAD_READY\<rparr>"
proof -
  define k where "k = snd (rt_thread_create new (msg_name m) (msg_entry m) (msg_parameter m) (msg_stack_size m) (msg_init_priority m) (msg_init_tick m) (kern sw))"
  have k: "rt_thread_create new (msg_name m) (msg_entry m) (msg_parameter m) (msg_stack_size m) (msg_init_priority m) (msg_init_tick m) (kern sw) = (Some n, k)"
    using assms(6) by (simp add: k_def rt_thread_create_def)
  have th: "thread_at k n = \<lparr>th_type = RT_Object_Class_Thread, th_name = take RT_NAME_MAX (msg_name m), th_entry = msg_entry m,
      th_parameter = msg_parameter m, th_stack_addr = stack, th_stack_size = msg_stack_size m, th_init_tick = msg_init_tick m,
      th_init_priority = msg_init_priority m, th_current_priority = msg_init_priority m, th_stat = RT_THREAD_INIT\<rparr>"
    using assms(6) by (simp add: k_def rt_thread_create_def set_thread_def thread_init_def)
  then obtain k' where k': "rt_thread_startup n k = Inr k'" "n \<in> set (ready_list k')" "thread_at k' n = (thread_at k n)\<lparr>th_stat := RT_THREAD_READY\<rparr>"
    by (simp add: rt_thread_startup_def rt_object_get_type_def set_thread_def)
  let ?sw = "sw\<lparr>wdt_fed := wdt_fed sw + 1, sec_cnt := 0\<rparr>"
  obtain h where h: "syswatch_event_hook_call SYSWATCH_EVENT_THREAD_RESUMED n (?sw\<lparr>kern := k'\<rparr>) = ?sw\<lparr>kern := k', hook_calls := h\<rparr>"
    using hook_called [of SYSWATCH_EVENT_THREAD_RESUMED n "?sw\<lparr>kern := k'\<rparr>"] by auto
  have "syswatch_thread_except_resolve_resume_all new ?sw = Inr (?sw\<lparr>kern := k', hook_calls := h, wait_resume_slist := []\<rparr>)"
    using assms(3-5) k k'(1) h
    by (simp add: syswatch_thread_except_resolve_resume_all_def syswatch_thread_except_resolve_resume_from_msg_def)
  then have "syswatch_thread_turn new self sw = Inr (?sw\<lparr>kern := k', hook_calls := h, wait_resume_slist := [], op_step := 0\<rparr>)"
    using assms(1,2) check_timeout_15 [of "syswatch_wdt_feed sw" 14]
    by (simp add: syswatch_thread_turn_def syswatch_fsm_def syswatch_wdt_feed_def)
  then show ?thesis using k'(2,3) th by (intro exI [of _ "?sw\<lparr>kern := k', hook_calls := h, wait_resume_slist := [], op_step := 0\<rparr>"]) simp
qed

section \<open>What the watch promises\<close>

text \<open>Three threads: the watch, one that can keep the processor, the idle thread.\<close>

definition demo_thread :: "string \<Rightarrow> u8 \<Rightarrow> u8 \<Rightarrow> rt_thread" where
  "demo_thread nm ty p = \<lparr>th_type = ty, th_name = nm, th_entry = 5, th_parameter = 6, th_stack_addr = 7, th_stack_size = 512, th_init_tick = 20,
     th_init_priority = p, th_current_priority = p, th_stat = RT_THREAD_READY\<rparr>"

definition demo_watch :: syswatch_data where
  "demo_watch = \<lparr>sec_cnt = 0, op_step = 0, event_hook = False, lowest_thread = None, wait_resume_slist = [], hook_calls = [], wdt_fed = 0,
     kern = \<lparr>thread_at = (\<lambda>t. if t = 1 then demo_thread ''syswatch'' 1 0 else if t = 2 then demo_thread ''radio'' 0x81 10 else demo_thread ''tidle0'' 0x81 31),
       ready_list = [2, 3], rt_thread_defunct = [], freed = []\<rparr>\<rparr>"

text \<open>Property C21. A system that is idle at least once a minute is left alone: on every sequence of switches, seconds and work of the idle
  thread in which 60 seconds never pass without a switch to the idle thread, the watch stays in its waiting step, kills and starts
  nothing and feeds the watchdog once for every second.\<close>

theorem idle_system_left_alone:
  assumes "op_step sw = 0" "sec_cnt sw = 0" "idle_in_time (prio (kern sw)) 0 xs"
  shows "\<exists>sw'. sw_run new self xs sw = Inr sw' \<and> op_step sw' = 0 \<and> ready_list (kern sw') = ready_list (kern sw) \<and>
    (\<forall>t. th_stat (thread_at (kern sw') t) = th_stat (thread_at (kern sw) t)) \<and> wait_resume_slist sw' = wait_resume_slist sw \<and>
    wdt_fed sw' = wdt_fed sw + seconds xs"
  using idle_run [of sw 0 xs] assms by (simp, metis)

theorem idle_system_left_alone_witness:
  "\<exists>sw'. sw_run (\<lambda>k. None) 1 [Second, Switch 1 3 False, Idle_Work, Switch 3 1 True, Second] demo_watch = Inr sw' \<and> op_step sw' = 0 \<and> wdt_fed sw' = 2"
  using idle_system_left_alone [of demo_watch "[Second, Switch 1 3 False, Idle_Work, Switch 3 1 True, Second]" "\<lambda>k. None" 1]
  by (auto simp: demo_watch_def demo_thread_def to_idle_def prio_def)

definition ready_as :: "rt_thread \<Rightarrow> nat \<Rightarrow> kernel \<Rightarrow> bool" where
  "ready_as th n k \<longleftrightarrow> n \<in> set (ready_list k) \<and> th_name (thread_at k n) = take RT_NAME_MAX (th_name th) \<and> th_entry (thread_at k n) = th_entry th \<and>
     th_parameter (thread_at k n) = th_parameter th \<and> th_stack_size (thread_at k n) = th_stack_size th \<and>
     th_current_priority (thread_at k n) = th_init_priority th \<and> th_stat (thread_at k n) = RT_THREAD_READY"

text \<open>From the first switch to the idle thread on, after the kill.\<close>

lemma resume_phase:
  assumes "op_step sw = 1" "wait_resume_slist sw = [msg_of t k0]" "to_idle (prio (kern sw)) f i" "seconds d = 14" "killed_in t k0 (kern sw)"
    and new: "\<forall>k. new k \<noteq> None" and t: "thread_ok t k0"
  shows "(rt_object_is_systemobject t k0 \<or> Idle_Work \<notin> set d \<longrightarrow>
      (\<exists>sw2 n. sw_run new self (Switch f i y # d @ [Second]) sw = Inr sw2 \<and> op_step sw2 = 0 \<and> sec_cnt sw2 = 0 \<and>
        wait_resume_slist sw2 = [] \<and> ready_as (thread_at k0 t) n (kern sw2))) \<and>
    (\<not> rt_object_is_systemobject t k0 \<and> Idle_Work \<in> set d \<longrightarrow> sw_run new self (Switch f i y # d @ [Second]) sw = Inl Freed_Memory)"
proof -
  define k where "k = (if Idle_Work \<in> set d then rt_thread_idle_excute (kern sw) else kern sw)"
  let ?s = "sw\<lparr>sec_cnt := word_of_nat 14, op_step := 2, wdt_fed := wdt_fed sw + 14, kern := k\<rparr>"
  have run: "sw_run new self (Switch f i y # d) sw = Inr ?s"
    using to_resuming [OF assms(1,3)] assms(2,4) resuming_run [of "sw\<lparr>sec_cnt := 0, op_step := 2\<rparr>" 0 d new self] by (simp add: k_def)
  have app: "sw_run new self (Switch f i y # d @ [Second]) sw = (case syswatch_thread_turn new self ?s of Inl e \<Rightarrow> Inl e | Inr sw2 \<Rightarrow> Inr sw2)"
    using sw_run_append [of new self "Switch f i y # d" "[Second]" sw] run by (simp only: append_Cons) (simp split: sum.splits)
  have m: "msg_thread (msg_of t k0) = t" by (simp add: msg_of_def Let_def)
  have no_sys: "\<not> rt_object_is_systemobject t k" using assms(5) by (simp add: k_def killed_in_def idle_work_keeps)
  have freed: "t \<in> set (freed k) \<longleftrightarrow> \<not> rt_object_is_systemobject t k0 \<and> Idle_Work \<in> set d"
    using assms(5) t by (auto simp: k_def killed_in_def thread_ok_def freed_by_idle_work)
  obtain n stack where n: "new k = Some (n, stack)" using new by (metis not_None_eq surj_pair)
  have "\<exists>sw2. syswatch_thread_turn new self ?s = Inr sw2 \<and> op_step sw2 = 0 \<and> sec_cnt sw2 = 0 \<and> wait_resume_slist sw2 = [] \<and>
      ready_as (thread_at k0 t) n (kern sw2)" if "t \<notin> set (freed k)"
    using resuming_second [of ?s "msg_of t k0" new n stack self] assms(2) m no_sys n that
    by (auto simp: ready_as_def msg_of_def Let_def)
  moreover have "syswatch_thread_turn new self ?s = Inl Freed_Memory" if "t \<in> set (freed k)"
    using resuming_second_freed [of ?s "msg_of t k0" "[]" new self] assms(2) m that by simp
  ultimately show ?thesis using app freed by (cases "t \<in> set (freed k)") auto
qed

text \<open>Property C20. A thread that keeps the processor is killed and started again, unless its structure is freed first. From the waiting step: when
  the system is not idle for 60 seconds (\<open>a\<close> and a second) and in the 15 seconds after that (\<open>b\<close> and a second) \<open>t\<close> is the thread
  of lowest priority that runs, then \<open>t\<close> is taken from the ready threads and closed. After the next switch to the idle thread and 15
  more seconds (\<open>d\<close> and a second): when \<open>t\<close> is a static thread, or the idle thread did no work in \<open>d\<close>, a thread with its
  name, entry, parameter, stack size and priority is ready and the watch is back in the waiting step; when \<open>t\<close> is a thread from the
  heap and the idle thread freed what was deleted, the watch reads the freed structure.\<close>

theorem stuck_thread_restarted:
  assumes sw: "op_step sw = 0" "sec_cnt sw = 0" "wait_resume_slist sw = []" and new: "\<forall>k. new k \<noteq> None"
    and t: "t \<noteq> self" "thread_ok t (kern sw)" and pr: "pr = prio (kern sw)" "pr t < idle_priority"
    and a: "list_all (busy pr) a" "seconds a = 59"
    and b: "list_all (hogged pr t) b" "seconds b = 14" "runs pr t b" "live (kern sw) b"
    and d: "to_idle pr f i" "seconds d = 14"
  shows "\<exists>sw1. sw_run new self (a @ Second # b @ [Second]) sw = Inr sw1 \<and> t \<notin> set (ready_list (kern sw1)) \<and>
    th_stat (thread_at (kern sw1) t) = RT_THREAD_CLOSE \<and>
    (rt_object_is_systemobject t (kern sw) \<or> Idle_Work \<notin> set d \<longrightarrow>
      (\<exists>sw2 n. sw_run new self (Switch f i y # d @ [Second]) sw1 = Inr sw2 \<and> op_step sw2 = 0 \<and> sec_cnt sw2 = 0 \<and>
        wait_resume_slist sw2 = [] \<and> ready_as (thread_at (kern sw) t) n (kern sw2))) \<and>
    (\<not> rt_object_is_systemobject t (kern sw) \<and> Idle_Work \<in> set d \<longrightarrow>
      sw_run new self (Switch f i y # d @ [Second]) sw1 = Inl Freed_Memory)"
proof -
  let ?s1 = "sw\<lparr>sec_cnt := word_of_nat 59, wdt_fed := wdt_fed sw + 59\<rparr>"
  let ?s2 = "?s1\<lparr>sec_cnt := 0, wdt_fed := wdt_fed ?s1 + 1, op_step := 1, lowest_thread := None\<rparr>"
  let ?s3 = "?s2\<lparr>sec_cnt := word_of_nat 14, wdt_fed := wdt_fed ?s2 + 14, lowest_thread := Some t\<rparr>"
  have r1: "sw_run new self a sw = Inr ?s1" using busy_run [of sw 0 a new self] sw(1,2) a pr(1) by simp
  have r2: "sw_step new self Second ?s1 = Inr ?s2" using waiting_second [of ?s1 59 new self] sw(1) by simp
  have r3: "sw_run new self b ?s2 = Inr ?s3"
    using confirming_run [of ?s2 0 b t new self] b pr by (simp add: lowest_ok_def lowest_live_def)
  obtain k h where k: "syswatch_thread_turn new self ?s3 = Inr (?s3\<lparr>wdt_fed := wdt_fed ?s3 + 1, sec_cnt := 0,
      wait_resume_slist := wait_resume_slist ?s3 @ [msg_of t (kern ?s3)], hook_calls := h, kern := k, lowest_thread := None\<rparr>)"
    "killed_in t (kern sw) k"
    using killing_second [of ?s3 t self new] t by auto
  define s4 where "s4 = ?s3\<lparr>wdt_fed := wdt_fed ?s3 + 1, sec_cnt := 0,
      wait_resume_slist := wait_resume_slist ?s3 @ [msg_of t (kern ?s3)], hook_calls := h, kern := k, lowest_thread := None\<rparr>"
  have s4: "op_step s4 = 1" "kern s4 = k" "wait_resume_slist s4 = [msg_of t (kern sw)]" using sw(3) by (simp_all add: s4_def)
  have run1: "sw_run new self (a @ Second # b @ [Second]) sw = Inr s4"
    using r1 r2 r3 k(1) by (simp add: sw_run_append s4_def)
  have idle: "to_idle (prio (kern s4)) f i" "killed_in t (kern sw) (kern s4)" using d(1) k(2) pr(1) s4(2) by (simp_all add: killed_in_def)
  show ?thesis using run1 k(2) s4(2) resume_phase [OF s4(1,3) idle(1) d(2) idle(2) new t(2), of self y]
    by (intro exI [of _ s4]) (simp add: killed_in_def)
qed

definition busy_minute :: "sw_event list" where
  "busy_minute = replicate 59 Second @ Second # (Switch 1 2 False # replicate 14 Second) @ [Second]"

theorem stuck_thread_restarted_witness:
  "\<exists>sw1 sw2 n. sw_run (\<lambda>k. Some (9, 70)) 1 busy_minute demo_watch = Inr sw1 \<and> 2 \<notin> set (ready_list (kern sw1)) \<and>
    sw_run (\<lambda>k. Some (9, 70)) 1 (Switch 1 3 False # (Idle_Work # replicate 14 Second) @ [Second]) sw1 = Inr sw2 \<and>
    n \<in> set (ready_list (kern sw2)) \<and> th_name (thread_at (kern sw2) n) = ''radio''"
proof -
  let ?pr = "prio (kern demo_watch)"
  have sw: "op_step demo_watch = 0" "sec_cnt demo_watch = 0" "wait_resume_slist demo_watch = []" by (simp_all add: demo_watch_def)
  have pr: "?pr 1 = 0" "?pr 2 = 10" "?pr 3 = 31" by (simp_all add: prio_def demo_watch_def demo_thread_def)
  have t: "thread_ok 2 (kern demo_watch)" "(2 :: nat) \<noteq> 1" "th_name (thread_at (kern demo_watch) 2) = ''radio''"
    "rt_object_is_systemobject 2 (kern demo_watch)"
    by (simp_all add: thread_ok_def rt_object_get_type_def rt_object_is_systemobject_def demo_watch_def demo_thread_def)
  have new: "\<forall>k. (\<lambda>k :: kernel. Some (9 :: nat, 70 :: nat)) k \<noteq> None" by simp
  have a: "list_all (busy ?pr) (replicate 59 Second)" by (simp add: list_all_iff)
  have b: "list_all (hogged ?pr 2) (Switch 1 2 False # replicate 14 Second)" "seconds (Switch 1 2 False # replicate 14 Second) = 14"
    "runs ?pr 2 (Switch 1 2 False # replicate 14 Second)" "live (kern demo_watch) (Switch 1 2 False # replicate 14 Second)"
    using pr by (auto simp: list_all_iff runs_def live_def demo_watch_def)
  have d: "to_idle ?pr 1 3" "?pr 2 < idle_priority" "seconds (Idle_Work # replicate 14 Second) = 14" using pr by (simp_all add: to_idle_def)
  from stuck_thread_restarted [OF sw new t(2,1) refl d(2) a seconds_replicate b d(1,3), of False] t(3,4)
  show ?thesis unfolding busy_minute_def ready_as_def by fastforce
qed

text \<open>
  The thread that is judged may have ended in the meantime. A static one fails an assertion of the kernel, in the thread of highest
  priority; one from the heap, which ended as it should, is noted to be started again, or read after it was freed.
\<close>

lemma exit_keeps_freed: "freed (rt_thread_exit t k) = freed k"
  by (simp add: rt_thread_exit_def rt_object_detach_def set_thread_def rt_schedule_remove_thread_def Let_def)

lemma ended_static_thread_hangs:
  assumes "rt_object_is_systemobject t k" "kern sw = rt_thread_exit t k" "t \<noteq> self" "t \<notin> set (freed k)"
  shows "syswatch_thread_except_resolve self (Some t) sw = Inl Endless_Loop"
proof -
  have "rt_object_is_systemobject t (set_thread t (th_stat_update (\<lambda>_. RT_THREAD_CLOSE)) (rt_schedule_remove_thread t k))"
    using assms(1) by (simp add: rt_object_is_systemobject_def set_thread_def rt_schedule_remove_thread_def)
  then have "th_type (thread_at (kern sw) t) = 0"
    using assms(2) by (simp add: rt_thread_exit_def rt_object_detach_def Let_def) (simp add: set_thread_def)
  then show ?thesis using assms(3,4) exit_keeps_freed [of t k] assms(2)
    by (simp add: syswatch_thread_except_resolve_def syswatch_thread_except_resolve_kill_def syswatch_thread_except_resolve_resume_save_msg_def
        syswatch_event_hook_call_def rt_object_is_systemobject_def rt_thread_delete_def rt_object_get_type_def)
qed

lemma ended_heap_thread_comes_back:
  assumes "\<not> rt_object_is_systemobject t k" "rt_object_get_type t k = RT_Object_Class_Thread" "kern sw = rt_thread_exit t k" "t \<noteq> self" "\<not> event_hook sw" "t \<notin> set (freed k)"
  shows "syswatch_thread_except_resolve self (Some t) sw = Inr (sw\<lparr>wait_resume_slist := wait_resume_slist sw @ [msg_of t (kern sw)]\<rparr>)"
proof -
  have "\<not> rt_object_is_systemobject t (set_thread t (th_stat_update (\<lambda>_. RT_THREAD_CLOSE)) (rt_schedule_remove_thread t k))"
    using assms(1) by (simp add: rt_object_is_systemobject_def set_thread_def rt_schedule_remove_thread_def)
  then have "thread_at (kern sw) t = (thread_at k t)\<lparr>th_stat := RT_THREAD_CLOSE\<rparr>"
    using assms(3) by (simp add: rt_thread_exit_def Let_def) (simp add: set_thread_def rt_schedule_remove_thread_def)
  then have "th_type (thread_at (kern sw) t) = th_type (thread_at k t)" "th_stat (thread_at (kern sw) t) = RT_THREAD_CLOSE" by simp_all
  then show ?thesis using assms(1,2,4-6) exit_keeps_freed [of t k] assms(3)
    by (simp add: syswatch_thread_except_resolve_def syswatch_thread_except_resolve_kill_def syswatch_thread_except_resolve_resume_save_msg_def
        syswatch_event_hook_call_def rt_object_is_systemobject_def rt_thread_delete_def rt_object_get_type_def)
qed

end
